(* ===== verification/Prelude.thy ===== *)
theory Prelude
  imports Main "HOL-Library.Sublist"
begin

text \<open>
  Shared vocabulary of the development: the string operations of the Rust standard
  library that the modelled code uses, decimal printing, and the generic lemmas on them.

  A Rust \<open>str\<close> is modelled by its UTF-8 bytes, as a \<open>string\<close> whose characters are
  bytes. \<open>len()\<close> and slicing count bytes, as in Rust; \<open>chars()\<close> groups each leading
  byte with its continuation bytes. A slice at a byte index that is not a character
  boundary panics in Rust and is \<open>None\<close> here.
\<close>

named_theorems str_simps "evaluation of the string operations on literals"

type_synonym rstr = string

abbreviation NL :: char where "NL \<equiv> CHR 0x0A"
abbreviation CR :: char where "CR \<equiv> CHR 0x0D"
abbreviation TAB :: char where "TAB \<equiv> CHR 0x09"
abbreviation DQ :: char where "DQ \<equiv> CHR 0x22"
abbreviation SQ :: char where "SQ \<equiv> CHR 0x27"
abbreviation BSL :: char where "BSL \<equiv> CHR 0x5C"

section \<open>Characters and character boundaries\<close>

definition is_cont :: "char \<Rightarrow> bool" where
  "is_cont c \<longleftrightarrow> 128 \<le> (of_char c :: nat) \<and> (of_char c :: nat) < 192"

function chars :: "rstr \<Rightarrow> rstr list" where
  "chars [] = []"
| "chars (c # cs) = (c # takeWhile is_cont cs) # chars (dropWhile is_cont cs)"
  by pat_completeness auto
termination
  by (relation "measure length") (auto simp: le_imp_less_Suc length_dropWhile_le)

definition char_count :: "rstr \<Rightarrow> nat" where
  "char_count s = length (chars s)"

definition take_chars :: "nat \<Rightarrow> rstr \<Rightarrow> rstr" where
  "take_chars n s = concat (take n (chars s))"

definition drop_chars :: "nat \<Rightarrow> rstr \<Rightarrow> rstr" where
  "drop_chars n s = concat (drop n (chars s))"

definition is_char_boundary :: "rstr \<Rightarrow> nat \<Rightarrow> bool" where
  "is_char_boundary s i \<longleftrightarrow>
     i = 0 \<or> i = length s \<or> (i < length s \<and> \<not> is_cont (s ! i))"

text \<open>\<open>&s[i..]\<close> and \<open>&s[..i]\<close>: \<open>None\<close> is the panic.\<close>

definition slice_from :: "rstr \<Rightarrow> nat \<Rightarrow> rstr option" where
  "slice_from s i = (if is_char_boundary s i then Some (drop i s) else None)"

definition slice_to :: "rstr \<Rightarrow> nat \<Rightarrow> rstr option" where
  "slice_to s i = (if is_char_boundary s i then Some (take i s) else None)"

lemma concat_chars [simp]: "concat (chars s) = s"
  by (induction s rule: chars.induct) auto

lemma chars_Nil_iff [simp]: "chars s = [] \<longleftrightarrow> s = []"
  by (cases s) auto

lemma take_drop_chars: "take_chars n s @ drop_chars n s = s"
  unfolding take_chars_def drop_chars_def
  by (metis append_take_drop_id concat_append concat_chars)

lemma char_count_0 [simp]: "char_count s = 0 \<longleftrightarrow> s = []"
  by (simp add: char_count_def)

text \<open>Splitting a string at a character that is not a continuation byte.\<close>

lemma chars_append:
  "s = [] \<or> t = [] \<or> \<not> is_cont (hd t) \<Longrightarrow> chars (s @ t) = chars s @ chars t"
proof (induction s rule: chars.induct)
  case 1
  then show ?case by simp
next
  case (2 c cs)
  show ?case
  proof (cases "\<forall>x\<in>set cs. is_cont x")
    case True
    have all: "takeWhile is_cont cs = cs" "dropWhile is_cont cs = []"
      using True by (simp_all add: takeWhile_eq_all_conv)
    have t: "takeWhile is_cont t = []" "dropWhile is_cont t = t"
      using 2(2) by (cases t; auto)+
    have "takeWhile is_cont (cs @ t) = cs @ takeWhile is_cont t"
      using True by (intro takeWhile_append2) blast
    then have a: "takeWhile is_cont (cs @ t) = cs" by (simp only: t append_Nil2)
    have "dropWhile is_cont (cs @ t) = dropWhile is_cont t"
      using True by (intro dropWhile_append2) blast
    then have b: "dropWhile is_cont (cs @ t) = t" by (simp only: t)
    show ?thesis by (simp only: append_Cons chars.simps a b all append_Nil)
  next
    case False
    then obtain x where "x \<in> set cs" "\<not> is_cont x" by blast
    then have "takeWhile is_cont (cs @ t) = takeWhile is_cont cs"
      and "dropWhile is_cont (cs @ t) = dropWhile is_cont cs @ t"
      by (simp_all add: takeWhile_append1 dropWhile_append1)
    with 2 show ?thesis by simp
  qed
qed

text \<open>
  Well-formed UTF-8, as \<open>str::from_utf8\<close> accepts it: no overlong forms, no surrogates,
  nothing above U+10FFFF.
\<close>

definition byte_in :: "nat \<Rightarrow> nat \<Rightarrow> char \<Rightarrow> bool" where
  "byte_in lo hi c \<longleftrightarrow> lo \<le> (of_char c :: nat) \<and> (of_char c :: nat) \<le> hi"

fun utf8_step :: "rstr \<Rightarrow> rstr option" where
  "utf8_step [] = None"
| "utf8_step (a # s) =
     (if byte_in 0x00 0x7F a then Some s
      else if byte_in 0xC2 0xDF a then
        (case s of b # s \<Rightarrow> if byte_in 0x80 0xBF b then Some s else None | _ \<Rightarrow> None)
      else if byte_in 0xE0 0xEF a then
        (case s of b # c # s \<Rightarrow>
           if byte_in (if byte_in 0xE0 0xE0 a then 0xA0 else 0x80) (if byte_in 0xED 0xED a then 0x9F else 0xBF) b \<and>
              byte_in 0x80 0xBF c then Some s else None
         | _ \<Rightarrow> None)
      else if byte_in 0xF0 0xF4 a then
        (case s of b # c # d # s \<Rightarrow>
           if byte_in (if byte_in 0xF0 0xF0 a then 0x90 else 0x80) (if byte_in 0xF4 0xF4 a then 0x8F else 0xBF) b \<and>
              byte_in 0x80 0xBF c \<and> byte_in 0x80 0xBF d then Some s else None
         | _ \<Rightarrow> None)
      else None)"

lemma utf8_step_length: "utf8_step s = Some t \<Longrightarrow> length t < length s"
  by (cases s) (auto split: if_splits list.splits)

function valid_utf8 :: "rstr \<Rightarrow> bool" where
  "valid_utf8 s = (s = [] \<or> (case utf8_step s of None \<Rightarrow> False | Some t \<Rightarrow> valid_utf8 t))"
  by pat_completeness auto
termination by (relation "measure length") (auto dest: utf8_step_length)

declare valid_utf8.simps [simp del]

lemma valid_utf8_Nil [simp]: "valid_utf8 []"
  by (simp add: valid_utf8.simps)

lemma valid_utf8_ascii: "\<forall>c\<in>set s. byte_in 0x00 0x7F c \<Longrightarrow> valid_utf8 s"
proof (induction s)
  case (Cons c s)
  then show ?case by (subst valid_utf8.simps) simp
qed simp

text \<open>One step consumes a byte that starts a character and then continuation bytes only.\<close>

lemma utf8_step_shape:
  assumes "utf8_step s = Some t"
  obtains a cs where "s = a # cs @ t" "\<not> is_cont a" "list_all is_cont cs"
proof -
  have "\<exists>a cs. s = a # cs @ t \<and> \<not> is_cont a \<and> list_all is_cont cs"
  proof (cases s)
    case Nil
    with assms show ?thesis by simp
  next
    case (Cons a r)
    consider (one) "byte_in 0x00 0x7F a" "t = r"
      | (two) b where "byte_in 0xC2 0xDF a" "r = b # t" "is_cont b"
      | (three) b c where "byte_in 0xE0 0xEF a" "r = b # c # t" "is_cont b" "is_cont c"
      | (four) b c d where "byte_in 0xF0 0xF4 a" "r = b # c # d # t" "is_cont b" "is_cont c" "is_cont d"
      using assms Cons by (auto simp: byte_in_def is_cont_def split: if_splits list.splits)
    then show ?thesis
    proof cases
      case one
      then show ?thesis using Cons by (intro exI[of _ a] exI[of _ "[]"]) (simp add: byte_in_def is_cont_def)
    next
      case two
      then show ?thesis using Cons by (intro exI[of _ a] exI[of _ "[b]"]) (simp add: byte_in_def is_cont_def)
    next
      case three
      then show ?thesis using Cons by (intro exI[of _ a] exI[of _ "[b, c]"]) (simp add: byte_in_def is_cont_def)
    next
      case four
      then show ?thesis using Cons by (intro exI[of _ a] exI[of _ "[b, c, d]"]) (simp add: byte_in_def is_cont_def)
    qed
  qed
  then show ?thesis using that by blast
qed

lemma valid_utf8_drop: "valid_utf8 s \<Longrightarrow> is_char_boundary s i \<Longrightarrow> i \<le> length s \<Longrightarrow> valid_utf8 (drop i s)"
proof (induction s arbitrary: i rule: valid_utf8.induct)
  case (1 s)
  show ?case
  proof (cases "s = [] \<or> i = 0")
    case True
    then show ?thesis using 1 by auto
  next
    case False
    with "1.prems"(1) obtain t where t: "utf8_step s = Some t" "valid_utf8 t"
      by (subst (asm) valid_utf8.simps) (auto split: option.splits)
    from t(1) obtain a cs where s: "s = a # cs @ t" "\<not> is_cont a" "list_all is_cont cs"
      by (rule utf8_step_shape)
    show ?thesis
    proof (cases "i \<le> length cs")
      case True
      then have "is_cont (s ! i)" "i < length s" using s False by (auto simp: nth_append nth_Cons' list_all_length)
      then show ?thesis using "1.prems"(2) False by (simp add: is_char_boundary_def)
    next
      case ge: False
      define j where "j = i - Suc (length cs)"
      have i: "i = Suc (length cs + j)" using ge by (simp add: j_def)
      have "is_char_boundary t j" "j \<le> length t"
        using "1.prems"(2,3) unfolding s(1) i by (auto simp: is_char_boundary_def nth_append)
      from "1.IH"[OF t(1) t(2) this] show ?thesis unfolding s(1) i by simp
    qed
  qed
qed

lemma valid_utf8_cont: "is_cont c \<Longrightarrow> \<not> valid_utf8 (c # s)"
  by (subst valid_utf8.simps) (simp add: is_cont_def byte_in_def)

section \<open>White space\<close>

definition ws_table :: "rstr list" where
  "ws_table =
     [[CHR 0x09], [CHR 0x0A], [CHR 0x0B], [CHR 0x0C], [CHR 0x0D], [CHR 0x20],
      [CHR 0xC2, CHR 0x85], [CHR 0xC2, CHR 0xA0], [CHR 0xE1, CHR 0x9A, CHR 0x80],
      [CHR 0xE2, CHR 0x80, CHR 0x80], [CHR 0xE2, CHR 0x80, CHR 0x81],
      [CHR 0xE2, CHR 0x80, CHR 0x82], [CHR 0xE2, CHR 0x80, CHR 0x83],
      [CHR 0xE2, CHR 0x80, CHR 0x84], [CHR 0xE2, CHR 0x80, CHR 0x85],
      [CHR 0xE2, CHR 0x80, CHR 0x86], [CHR 0xE2, CHR 0x80, CHR 0x87],
      [CHR 0xE2, CHR 0x80, CHR 0x88], [CHR 0xE2, CHR 0x80, CHR 0x89],
      [CHR 0xE2, CHR 0x80, CHR 0x8A], [CHR 0xE2, CHR 0x80, CHR 0xA8],
      [CHR 0xE2, CHR 0x80, CHR 0xA9], [CHR 0xE2, CHR 0x80, CHR 0xAF],
      [CHR 0xE2, CHR 0x81, CHR 0x9F], [CHR 0xE3, CHR 0x80, CHR 0x80]]"

definition is_ws :: "rstr \<Rightarrow> bool" where
  "is_ws ch \<longleftrightarrow> ch \<in> set ws_table"

definition trim_start :: "rstr \<Rightarrow> rstr" where
  "trim_start s = concat (dropWhile is_ws (chars s))"

definition trim_end :: "rstr \<Rightarrow> rstr" where
  "trim_end s = concat (rev (dropWhile is_ws (rev (chars s))))"

definition trim :: "rstr \<Rightarrow> rstr" where
  "trim s = concat (rev (dropWhile is_ws (rev (dropWhile is_ws (chars s)))))"

text \<open>\<open>split_whitespace\<close>: the maximal runs of characters that are not white space.\<close>

fun split_ws :: "rstr list \<Rightarrow> rstr \<Rightarrow> rstr list" where
  "split_ws [] acc = (if acc = [] then [] else [acc])"
| "split_ws (c # cs) acc =
     (if is_ws c then (if acc = [] then split_ws cs [] else acc # split_ws cs [])
      else split_ws cs (acc @ c))"

definition split_whitespace :: "rstr \<Rightarrow> rstr list" where
  "split_whitespace s = split_ws (chars s) []"

section \<open>Searching and replacing\<close>

fun find_sub :: "rstr \<Rightarrow> rstr \<Rightarrow> nat option" where
  "find_sub p s =
     (if prefix p s then Some 0
      else (case s of [] \<Rightarrow> None | _ # t \<Rightarrow> map_option Suc (find_sub p t)))"

declare find_sub.simps [simp del]

definition str_contains :: "rstr \<Rightarrow> rstr \<Rightarrow> bool" where
  "str_contains s p \<longleftrightarrow> find_sub p s \<noteq> None"

lemma find_sub_None: "find_sub p s = None \<longleftrightarrow> \<not> sublist p s"
proof (induction s)
  case Nil
  then show ?case by (simp add: find_sub.simps)
next
  case (Cons c s)
  then show ?case by (subst find_sub.simps) (auto simp: sublist_Cons_right)
qed

lemma str_contains_sublist: "str_contains s p \<longleftrightarrow> sublist p s"
  by (simp add: str_contains_def find_sub_None)

text \<open>
  \<open>replace\<close> and \<open>match_indices\<close> scan left to right and continue after a match. The
  callers never pass an empty pattern; for one, Rust inserts between all characters.
\<close>

function replace_ne :: "rstr \<Rightarrow> rstr \<Rightarrow> rstr \<Rightarrow> rstr" where
  "replace_ne p new s =
     (if p = [] then s
      else if prefix p s then new @ replace_ne p new (drop (length p) s)
      else (case s of [] \<Rightarrow> [] | c # t \<Rightarrow> c # replace_ne p new t))"
  by pat_completeness auto
termination
  by (relation "measure (\<lambda>(p, new, s). length s)") (auto simp: prefix_def)

declare replace_ne.simps [simp del]

definition str_replace :: "rstr \<Rightarrow> rstr \<Rightarrow> rstr \<Rightarrow> rstr" where
  "str_replace s p new =
     (if p = [] then new @ concat (map (\<lambda>c. c @ new) (chars s)) else replace_ne p new s)"

definition str_replacen1 :: "rstr \<Rightarrow> rstr \<Rightarrow> rstr \<Rightarrow> rstr" where
  "str_replacen1 s p new =
     (case find_sub p s of None \<Rightarrow> s | Some i \<Rightarrow> take i s @ new @ drop (i + length p) s)"

function match_count :: "rstr \<Rightarrow> rstr \<Rightarrow> nat" where
  "match_count p s =
     (if p = [] then length (chars s) + 1
      else if prefix p s then Suc (match_count p (drop (length p) s))
      else (case s of [] \<Rightarrow> 0 | c # t \<Rightarrow> match_count p t))"
  by pat_completeness auto
termination
  by (relation "measure (\<lambda>(p, s). length s)") (auto simp: prefix_def)

declare match_count.simps [simp del]

lemma match_count_0_iff: "match_count p s = 0 \<longleftrightarrow> \<not> sublist p s"
proof (induction s)
  case Nil
  then show ?case by (subst match_count.simps) auto
next
  case (Cons c s)
  then show ?case
    by (subst match_count.simps) (auto simp: sublist_Cons_right)
qed

definition ascii_lower :: "char \<Rightarrow> char" where
  "ascii_lower c =
     (if 65 \<le> (of_char c :: nat) \<and> (of_char c :: nat) \<le> 90 then char_of ((of_char c :: nat) + 32) else c)"

definition to_ascii_lowercase :: "rstr \<Rightarrow> rstr" where
  "to_ascii_lowercase = map ascii_lower"

definition eq_ignore_ascii_case :: "rstr \<Rightarrow> rstr \<Rightarrow> bool" where
  "eq_ignore_ascii_case a b \<longleftrightarrow> to_ascii_lowercase a = to_ascii_lowercase b"

definition is_ascii_alpha :: "char \<Rightarrow> bool" where
  "is_ascii_alpha c \<longleftrightarrow>
     (65 \<le> (of_char c :: nat) \<and> (of_char c :: nat) \<le> 90) \<or>
     (97 \<le> (of_char c :: nat) \<and> (of_char c :: nat) \<le> 122)"

definition is_ascii_digit :: "char \<Rightarrow> bool" where
  "is_ascii_digit c \<longleftrightarrow> 48 \<le> (of_char c :: nat) \<and> (of_char c :: nat) \<le> 57"

definition is_ascii_alnum :: "char \<Rightarrow> bool" where
  "is_ascii_alnum c \<longleftrightarrow> is_ascii_alpha c \<or> is_ascii_digit c"

fun join :: "rstr \<Rightarrow> rstr list \<Rightarrow> rstr" where
  "join sep [] = []"
| "join sep [x] = x"
| "join sep (x # y # zs) = x @ sep @ join sep (y # zs)"

definition non_empty_trim :: "rstr \<Rightarrow> rstr option" where
  "non_empty_trim s = (if trim s = [] then None else Some (trim s))"

section \<open>Decimal printing\<close>

definition digit :: "nat \<Rightarrow> char" where
  "digit d = ''0123456789'' ! d"

fun show_nat :: "nat \<Rightarrow> rstr" where
  "show_nat n = (if n < 10 then [digit n] else show_nat (n div 10) @ [digit (n mod 10)])"

declare show_nat.simps [simp del]

definition show_int :: "int \<Rightarrow> rstr" where
  "show_int i = (if i < 0 then CHR ''-'' # show_nat (nat (- i)) else show_nat (nat i))"

definition read_digits :: "rstr \<Rightarrow> nat" where
  "read_digits s = foldl (\<lambda>n c. 10 * n + (of_char c - 48)) 0 s"

lemma of_char_digit: "d < 10 \<Longrightarrow> (of_char (digit d) :: nat) = 48 + d"
proof -
  assume "d < 10"
  then have "d \<in> {0, 1, 2, 3, 4, 5, 6, 7, 8, 9}" by auto
  then show ?thesis by (auto simp: digit_def)
qed

lemma read_show_nat: "read_digits (show_nat n) = n"
proof (induction n rule: show_nat.induct)
  case (1 n)
  then show ?case
    by (cases "n < 10") (simp_all add: show_nat.simps[of n] read_digits_def of_char_digit)
qed

lemma show_nat_inject [simp]: "show_nat m = show_nat n \<longleftrightarrow> m = n"
  by (metis read_show_nat)

lemma show_nat_digits: "c \<in> set (show_nat n) \<Longrightarrow> is_ascii_digit c"
proof (induction n rule: show_nat.induct)
  case (1 n)
  then show ?case
    by (cases "n < 10") (auto simp: show_nat.simps[of n] is_ascii_digit_def of_char_digit)
qed

lemma show_nat_not_Nil [simp]: "show_nat n \<noteq> []"
  by (subst show_nat.simps) simp

section \<open>Trimming twice\<close>

text \<open>The characters of a text, put together again, are the same characters.\<close>

definition char_list :: "rstr list \<Rightarrow> bool" where
  "char_list cs \<longleftrightarrow> (\<forall>c\<in>set cs. \<exists>a r. c = a # r \<and> list_all is_cont r) \<and> (\<forall>c\<in>set (tl cs). \<not> is_cont (hd c))"

lemma chars_starts: "c \<in> set (chars (dropWhile is_cont s)) \<Longrightarrow> \<not> is_cont (hd c)"
proof (induction s rule: length_induct)
  case (1 s)
  show ?case
  proof (cases "dropWhile is_cont s")
    case Nil
    then show ?thesis using "1.prems" unfolding Nil by simp
  next
    case (Cons a t)
    then have a: "\<not> is_cont a" by (metis hd_dropWhile list.sel(1) list.distinct(1))
    have "length t < length s" using Cons length_dropWhile_le[of is_cont s] by simp
    moreover have "c = a # takeWhile is_cont t \<or> c \<in> set (chars (dropWhile is_cont t))" using "1.prems" Cons by simp
    ultimately show ?thesis using "1.IH" a by auto
  qed
qed

lemma char_list_chars: "char_list (chars s)"
proof -
  have "\<exists>a r. c = a # r \<and> list_all is_cont r" if "c \<in> set (chars s)" for c
    using that by (induction s rule: chars.induct) (auto simp: list_all_iff dest: set_takeWhileD)
  moreover have "\<not> is_cont (hd c)" if "c \<in> set (tl (chars s))" for c
    using that chars_starts by (cases s) auto
  ultimately show ?thesis by (auto simp: char_list_def)
qed

lemma chars_concat: "char_list cs \<Longrightarrow> chars (concat cs) = cs"
proof (induction cs)
  case (Cons c cs)
  then obtain a r where c: "c = a # r" "list_all is_cont r" by (auto simp: char_list_def)
  have "char_list cs" using Cons.prems by (cases cs) (auto simp: char_list_def)
  note ih = Cons.IH[OF this]
  have start: "takeWhile is_cont (concat cs) = [] \<and> dropWhile is_cont (concat cs) = concat cs"
  proof (cases cs)
    case (Cons d ds)
    then have "\<not> is_cont (hd d)" "d \<noteq> []" using Cons.prems by (auto simp: char_list_def)
    then show ?thesis using Cons by (cases d) auto
  qed simp
  have "takeWhile is_cont (r @ concat cs) = r" "dropWhile is_cont (r @ concat cs) = concat cs"
    using c(2) start by (simp_all add: list_all_iff takeWhile_append2 dropWhile_append2)
  then show ?case using c ih by simp
qed simp

lemma char_list_suffix: "char_list (xs @ ys) \<Longrightarrow> char_list ys"
  by (cases xs; cases ys) (auto simp: char_list_def)

lemma char_list_prefix: "char_list (xs @ ys) \<Longrightarrow> char_list xs"
  by (cases xs) (auto simp: char_list_def)

lemma char_list_dropWhile: "char_list cs \<Longrightarrow> char_list (dropWhile P cs)"
  by (rule char_list_suffix[of "takeWhile P cs"]) simp

lemma char_list_dropWhile_rev: "char_list cs \<Longrightarrow> char_list (rev (dropWhile P (rev cs)))"
proof (rule char_list_prefix[of _ "rev (takeWhile P (rev cs))"])
  assume "char_list cs"
  moreover have "rev (dropWhile P (rev cs)) @ rev (takeWhile P (rev cs)) = cs"
    by (metis rev_append rev_rev_ident takeWhile_dropWhile_id)
  ultimately show "char_list (rev (dropWhile P (rev cs)) @ rev (takeWhile P (rev cs)))" by simp
qed

lemma dropWhile_both_ends:
  fixes cs :: "'a list" and P
  defines "mid \<equiv> rev (dropWhile P (rev (dropWhile P cs)))"
  shows "rev (dropWhile P (rev (dropWhile P mid))) = mid"
proof -
  let ?m = "dropWhile P cs"
  have "mid = [] \<or> \<not> P (hd mid)"
  proof (cases "mid = []")
    case False
    obtain t where t: "?m = mid @ t"
      unfolding mid_def by (metis rev_append rev_rev_ident takeWhile_dropWhile_id)
    then have "hd ?m = hd mid" "?m \<noteq> []" using False by simp_all
    then show ?thesis using hd_dropWhile[of P cs] by metis
  qed simp
  then have "dropWhile P mid = mid" by (cases mid) auto
  moreover have "dropWhile P (rev mid) = rev mid"
    unfolding mid_def by simp
  ultimately show ?thesis by simp
qed

lemma trim_trim [simp]: "trim (trim s) = trim s"
proof -
  have "char_list (rev (dropWhile is_ws (rev (dropWhile is_ws (chars s)))))"
    by (rule char_list_dropWhile_rev[OF char_list_dropWhile[OF char_list_chars]])
  from chars_concat[OF this] show ?thesis
    unfolding trim_def[of "trim s"] by (simp add: trim_def dropWhile_both_ends)
qed

lemma non_empty_trim_trim [simp]: "Option.bind (non_empty_trim s) non_empty_trim = non_empty_trim s"
  by (simp add: non_empty_trim_def)

lemmas [str_simps] =
  is_cont_def char_count_def take_chars_def drop_chars_def is_char_boundary_def slice_from_def slice_to_def
  is_ws_def ws_table_def trim_start_def trim_end_def trim_def split_whitespace_def
  str_contains_def str_replace_def str_replacen1_def find_sub.simps
  ascii_lower_def to_ascii_lowercase_def eq_ignore_ascii_case_def is_ascii_alpha_def
  is_ascii_digit_def is_ascii_alnum_def non_empty_trim_def show_nat.simps digit_def show_int_def char_of_def

end
