(* ===== verification/Errors.thy ===== *)
theory Errors
  imports Prelude
begin

text \<open>
  \<open>src/error.rs\<close>: the framework's error type, its rendering, and the fallible results
  (\<open>Result<T, FrameworkError>\<close> is \<open>framework_error + 'a\<close>, with \<open>Inl\<close> for \<open>Err\<close>). Errors of
  foreign crates (\<open>io\<close>, \<open>serde_yaml\<close>, \<open>rusqlite\<close>) are carried as their rendered text.
\<close>

named_theorems res_simps "unfolding of the result combinators"

datatype sandbox_capability = CapRead | CapWrite | CapNetwork | CapExec | CapUnknown

fun capability_as_str :: "sandbox_capability \<Rightarrow> rstr" where
  "capability_as_str CapRead = ''read''"
| "capability_as_str CapWrite = ''write''"
| "capability_as_str CapNetwork = ''network''"
| "capability_as_str CapExec = ''exec''"
| "capability_as_str CapUnknown = ''unknown''"

record sandbox_denial =
  sd_tool_name :: rstr
  sd_execution_kind :: rstr
  sd_capability :: sandbox_capability
  sd_target :: rstr
  sd_diagnostic :: rstr

record approval_denial =
  ad_approval_id :: rstr
  ad_tool_name :: rstr
  ad_reason :: rstr

datatype framework_error =
    IoError rstr
  | YamlError rstr
  | DbError rstr
  | ProviderError rstr
  | ToolError rstr
  | SandboxPermissionDenied rstr rstr sandbox_capability rstr rstr
  | ApprovalDenied rstr rstr rstr
  | ConfigError rstr

fun error_to_string :: "framework_error \<Rightarrow> rstr" where
  "error_to_string (IoError e) = ''io error: '' @ e"
| "error_to_string (YamlError e) = ''yaml parse error: '' @ e"
| "error_to_string (DbError e) = ''database error: '' @ e"
| "error_to_string (ProviderError e) = ''provider error: '' @ e"
| "error_to_string (ToolError e) = ''tool error: '' @ e"
| "error_to_string (SandboxPermissionDenied tool kind cap target diag) =
     ''sandbox permission denied: tool='' @ tool @ '' execution_kind='' @ kind @
     '' capability='' @ capability_as_str cap @ '' target='' @ target @
     '' diagnostic='' @ diag"
| "error_to_string (ApprovalDenied aid tool reason) =
     ''approval denied: tool='' @ tool @ '' approval_id='' @ aid @ '' reason='' @ reason"
| "error_to_string (ConfigError e) = ''configuration error: '' @ e"

definition sandbox_permission_denied :: "sandbox_denial \<Rightarrow> framework_error" where
  "sandbox_permission_denied d =
     SandboxPermissionDenied (sd_tool_name d) (sd_execution_kind d) (sd_capability d)
       (sd_target d) (sd_diagnostic d)"

definition approval_denied :: "approval_denial \<Rightarrow> framework_error" where
  "approval_denied d = ApprovalDenied (ad_approval_id d) (ad_tool_name d) (ad_reason d)"

fun as_sandbox_permission_denied :: "framework_error \<Rightarrow> sandbox_denial option" where
  "as_sandbox_permission_denied (SandboxPermissionDenied tool kind cap target diag) =
     Some \<lparr>sd_tool_name = tool, sd_execution_kind = kind, sd_capability = cap,
           sd_target = target, sd_diagnostic = diag\<rparr>"
| "as_sandbox_permission_denied _ = None"

lemma as_sandbox_permission_denied_roundtrip [simp]:
  "as_sandbox_permission_denied (sandbox_permission_denied d) = Some d"
  by (simp add: sandbox_permission_denied_def)

lemma capability_as_str_inject [simp]:
  "capability_as_str a = capability_as_str b \<longleftrightarrow> a = b"
  by (cases a; cases b) simp_all

section \<open>Results\<close>

type_synonym 'a res = "framework_error + 'a"

definition rbind :: "'a res \<Rightarrow> ('a \<Rightarrow> 'b res) \<Rightarrow> 'b res" where
  "rbind x f = (case x of Inl e \<Rightarrow> Inl e | Inr v \<Rightarrow> f v)"

definition ok_or :: "framework_error \<Rightarrow> 'a option \<Rightarrow> 'a res" where
  "ok_or e x = (case x of None \<Rightarrow> Inl e | Some v \<Rightarrow> Inr v)"

text \<open>\<open>if cond { return Err(e) }\<close>.\<close>

definition reject_if :: "bool \<Rightarrow> framework_error \<Rightarrow> unit res" where
  "reject_if b e = (if b then Inl e else Inr ())"

text \<open>\<open>iter.map(f).collect::<Result<Vec<_>, _>>()\<close> and a loop whose body may fail.\<close>

fun rtraverse :: "('a \<Rightarrow> 'b res) \<Rightarrow> 'a list \<Rightarrow> 'b list res" where
  "rtraverse f [] = Inr []"
| "rtraverse f (x # xs) = rbind (f x) (\<lambda>y. rbind (rtraverse f xs) (\<lambda>ys. Inr (y # ys)))"

fun rforeach :: "('a \<Rightarrow> unit res) \<Rightarrow> 'a list \<Rightarrow> unit res" where
  "rforeach f [] = Inr ()"
| "rforeach f (x # xs) = rbind (f x) (\<lambda>_. rforeach f xs)"

abbreviation is_ok :: "'a res \<Rightarrow> bool" where "is_ok x \<equiv> \<not> isl x"

lemma rbind_simps [simp]: "rbind (Inl e) f = Inl e" "rbind (Inr v) f = f v"
  by (simp_all add: rbind_def)

lemma rbind_eq_Inr: "rbind x f = Inr y \<longleftrightarrow> (\<exists>v. x = Inr v \<and> f v = Inr y)"
  by (cases x) simp_all

lemma is_ok_rbind: "is_ok (rbind x f) \<longleftrightarrow> (\<exists>v. x = Inr v \<and> is_ok (f v))"
  by (cases x) simp_all

lemma rbind_split:
  "P (rbind x f) \<longleftrightarrow> (\<forall>e. x = Inl e \<longrightarrow> P (Inl e)) \<and> (\<forall>v. x = Inr v \<longrightarrow> P (f v))"
  by (cases x) simp_all

lemma ok_or_simps [simp]: "ok_or e None = Inl e" "ok_or e (Some v) = Inr v"
  by (simp_all add: ok_or_def)

lemma ok_or_eq_Inr [simp]: "ok_or e x = Inr v \<longleftrightarrow> x = Some v"
  by (cases x) simp_all

lemma reject_if_simps [simp]: "reject_if True e = Inl e" "reject_if False e = Inr ()"
  by (simp_all add: reject_if_def)

lemma reject_if_eq_Inr [simp]: "reject_if b e = Inr u \<longleftrightarrow> \<not> b"
  by (cases b) simp_all

lemma rforeach_eq_Inr [simp]: "rforeach f xs = Inr u \<longleftrightarrow> (\<forall>x\<in>set xs. f x = Inr ())"
  by (induction xs) (auto simp: rbind_eq_Inr)

lemma rforeach_Inl: "rforeach f xs = Inl e \<Longrightarrow> \<exists>x\<in>set xs. f x = Inl e"
  by (induction xs) (auto simp: rbind_def split: sum.splits)

lemma rtraverse_eq_Inr:
  "rtraverse f xs = Inr ys \<longleftrightarrow> list_all2 (\<lambda>x y. f x = Inr y) xs ys"
  by (induction xs arbitrary: ys) (auto simp: rbind_eq_Inr list_all2_Cons1)

lemmas [res_simps] = rbind_def ok_or_def reject_if_def

end
