(* ===== verification/ChannelTypes.thy ===== *)
theory ChannelTypes
  imports Errors
begin

text \<open>
  The messages that cross component boundaries: \<open>src/channels/types.rs\<close>, the channel
  kind of \<open>src/config/gateway.rs\<close>, the completion route of \<open>src/tools/mod.rs\<close> and the
  channel commands of \<open>src/gateway/command.rs\<close>.
\<close>

datatype gateway_channel_kind = Discord

fun channel_kind_as_str :: "gateway_channel_kind \<Rightarrow> rstr" where
  "channel_kind_as_str Discord = ''discord''"

datatype channel_output_mode = Streaming | Normal

record channel_inbound =
  ci_message_id :: rstr
  ci_channel_id :: rstr
  ci_guild_id :: "rstr option"
  ci_is_dm :: bool
  ci_user_id :: rstr
  ci_username :: rstr
  ci_mentioned_bot :: bool
  ci_content :: rstr

record inbound_message =
  im_trace_id :: rstr
  im_source_channel :: gateway_channel_kind
  im_target_agent_id :: rstr
  im_session_key :: rstr
  im_source_message_id :: "rstr option"
  im_channel_id :: rstr
  im_guild_id :: "rstr option"
  im_is_dm :: bool
  im_user_id :: rstr
  im_username :: rstr
  im_mentioned_bot :: bool
  im_invoke :: bool
  im_content :: rstr

record completion_route =
  cr_trace_id :: rstr
  cr_source_channel :: gateway_channel_kind
  cr_target_agent_id :: rstr
  cr_session_key :: rstr
  cr_source_message_id :: "rstr option"
  cr_channel_id :: rstr
  cr_guild_id :: "rstr option"
  cr_is_dm :: bool

datatype channel_command_kind = CmdNewSession | CmdStatus | CmdStop | CmdTools

fun command_kind_as_str :: "channel_command_kind \<Rightarrow> rstr" where
  "command_kind_as_str CmdNewSession = ''new''"
| "command_kind_as_str CmdStatus = ''status''"
| "command_kind_as_str CmdStop = ''stop''"
| "command_kind_as_str CmdTools = ''tools''"

record channel_command =
  cc_kind :: channel_command_kind
  cc_source :: gateway_channel_kind
  cc_channel_id :: rstr
  cc_guild_id :: "rstr option"
  cc_user_id :: rstr
  cc_is_dm :: bool

datatype command_response =
    RespNewSession rstr
  | RespStatus rstr
  | RespStop nat rstr
  | RespTools rstr

fun response_message :: "command_response \<Rightarrow> rstr" where
  "response_message (RespNewSession m) = m"
| "response_message (RespStatus m) = m"
| "response_message (RespStop _ m) = m"
| "response_message (RespTools m) = m"

end
