(* ===== verification/Routing.thy ===== *)
theory Routing
  imports ChannelTypes
begin

text \<open>
  Who may talk to which agent: the routing configuration and its resolution
  (\<open>src/config/routing.rs\<close>), the classification of an inbound message
  (\<open>src/channels/policy.rs\<close>, \<open>src/gateway/policy.rs\<close>), the route
  (\<open>src/gateway/router.rs\<close>) and the scope key of its session (\<open>src/gateway/session.rs\<close>).
  A \<open>HashMap\<close> of the configuration is an association list in iteration order; lookups are
  \<open>map_of\<close>.
\<close>

record inbound_policy_config =
  pc_agent :: "rstr option"
  pc_allow_from :: "rstr list option"
  pc_require_mentions :: "bool option"

record workspace_routing_config =
  wr_defaults :: inbound_policy_config
  wr_channels :: "(rstr \<times> inbound_policy_config) list"

record channel_routing_config =
  cr_defaults :: inbound_policy_config
  cr_dm :: inbound_policy_config
  cr_workspaces :: "(rstr \<times> workspace_routing_config) list"

record routing_config =
  rc_defaults :: inbound_policy_config
  rc_channels :: "(gateway_channel_kind \<times> channel_routing_config) list"

record inbound_policy =
  ip_agent :: rstr
  ip_allow_from :: "rstr list option"
  ip_require_mentions :: bool

definition default_agent_id :: rstr where
  "default_agent_id = ''default''"

definition empty_policy :: inbound_policy_config where
  "empty_policy = \<lparr>pc_agent = None, pc_allow_from = None, pc_require_mentions = None\<rparr>"

definition default_routing :: routing_config where
  "default_routing = \<lparr>rc_defaults = empty_policy\<lparr>pc_agent := Some default_agent_id\<rparr>, rc_channels = []\<rparr>"

section \<open>Resolution\<close>

definition apply_override ::
  "inbound_policy_config \<Rightarrow> inbound_policy_config \<Rightarrow> inbound_policy_config" where
  "apply_override self lower =
     (let self = (case pc_agent lower of None \<Rightarrow> self | Some a \<Rightarrow> self\<lparr>pc_agent := Some a\<rparr>);
          self = (case pc_allow_from lower of None \<Rightarrow> self
                  | Some ids \<Rightarrow> self\<lparr>pc_allow_from := Some ids\<rparr>)
      in (case pc_require_mentions lower of None \<Rightarrow> self
          | Some b \<Rightarrow> self\<lparr>pc_require_mentions := Some b\<rparr>))"

definition policy_finalize :: "inbound_policy_config \<Rightarrow> bool \<Rightarrow> inbound_policy" where
  "policy_finalize self is_dm =
     \<lparr>ip_agent = (case pc_agent self of None \<Rightarrow> default_agent_id | Some a \<Rightarrow> a),
      ip_allow_from = pc_allow_from self,
      ip_require_mentions =
        (if is_dm then False
         else (case pc_require_mentions self of None \<Rightarrow> False | Some b \<Rightarrow> b))\<rparr>"

definition resolve ::
  "routing_config \<Rightarrow> gateway_channel_kind \<Rightarrow> rstr option \<Rightarrow> rstr \<Rightarrow> bool \<Rightarrow> inbound_policy" where
  "resolve self source_channel workspace_id channel_id is_dm =
     (let effective = rc_defaults self in
      case map_of (rc_channels self) source_channel of
        None \<Rightarrow> (if is_dm then policy_finalize effective True else policy_finalize effective False)
      | Some channel_scope \<Rightarrow>
          (let effective = apply_override effective (cr_defaults channel_scope) in
           if is_dm then policy_finalize (apply_override effective (cr_dm channel_scope)) True
           else
             (case Option.bind workspace_id (map_of (cr_workspaces channel_scope)) of
                None \<Rightarrow> policy_finalize effective False
              | Some workspace \<Rightarrow>
                  (let effective = apply_override effective (wr_defaults workspace) in
                   case map_of (wr_channels workspace) channel_id of
                     None \<Rightarrow> policy_finalize effective False
                   | Some channel \<Rightarrow> policy_finalize (apply_override effective channel) False))))"

definition allows_user :: "inbound_policy \<Rightarrow> rstr \<Rightarrow> bool" where
  "allows_user self user_id =
     (case ip_allow_from self of Some ids \<Rightarrow> list_ex (\<lambda>i. i = user_id) ids | None \<Rightarrow> True)"

section \<open>Classification and routing\<close>

datatype inbound_decision = Drop | ContextOnly rstr | Invoke rstr

record inbound_policy_context =
  px_source_channel :: gateway_channel_kind
  px_workspace_id :: "rstr option"
  px_channel_id :: rstr
  px_is_dm :: bool
  px_user_id :: rstr
  px_mentioned_bot :: bool

definition classify_inbound :: "routing_config \<Rightarrow> inbound_policy_context \<Rightarrow> inbound_decision" where
  "classify_inbound inbound_policy context =
     (let policy = resolve inbound_policy (px_source_channel context) (px_workspace_id context)
                     (px_channel_id context) (px_is_dm context);
          agent_id = trim (ip_agent policy);
          allow_invoke = (allows_user policy (px_user_id context) \<and>
                          (\<not> ip_require_mentions policy \<or> px_mentioned_bot context))
      in if allow_invoke then Invoke agent_id
         else if px_is_dm context then Drop
         else ContextOnly agent_id)"

definition evaluate_inbound_policy ::
  "gateway_channel_kind \<Rightarrow> channel_inbound \<Rightarrow> routing_config \<Rightarrow> inbound_decision" where
  "evaluate_inbound_policy kind inbound inbound_policy =
     classify_inbound inbound_policy
       \<lparr>px_source_channel = kind, px_workspace_id = ci_guild_id inbound,
        px_channel_id = ci_channel_id inbound, px_is_dm = ci_is_dm inbound,
        px_user_id = ci_user_id inbound, px_mentioned_bot = ci_mentioned_bot inbound\<rparr>"

definition resolve_route ::
  "gateway_channel_kind \<Rightarrow> channel_inbound \<Rightarrow> routing_config \<Rightarrow> (rstr \<times> bool) option" where
  "resolve_route kind inbound inbound_policy =
     (case evaluate_inbound_policy kind inbound inbound_policy of
        Drop \<Rightarrow> None
      | ContextOnly agent_id \<Rightarrow> Some (agent_id, False)
      | Invoke agent_id \<Rightarrow> Some (agent_id, True))"

section \<open>The abstract policy: the most specific layer that speaks wins\<close>

text \<open>The layers that apply to a message, from the least to the most specific.\<close>

definition policy_layers ::
  "routing_config \<Rightarrow> gateway_channel_kind \<Rightarrow> rstr option \<Rightarrow> rstr \<Rightarrow> bool \<Rightarrow>
   inbound_policy_config list" where
  "policy_layers cfg src ws ch is_dm =
     rc_defaults cfg #
     (case map_of (rc_channels cfg) src of None \<Rightarrow> []
      | Some scope \<Rightarrow> cr_defaults scope #
          (if is_dm then [cr_dm scope]
           else (case Option.bind ws (map_of (cr_workspaces scope)) of None \<Rightarrow> []
                 | Some w \<Rightarrow> wr_defaults w #
                     (case map_of (wr_channels w) ch of None \<Rightarrow> [] | Some c \<Rightarrow> [c]))))"

definition last_said :: "('c \<Rightarrow> 'a option) \<Rightarrow> 'c list \<Rightarrow> 'a option" where
  "last_said f cs = foldl (\<lambda>acc c. case f c of None \<Rightarrow> acc | Some v \<Rightarrow> Some v) None cs"

lemma last_said_Nil [simp]: "last_said f [] = None"
  by (simp add: last_said_def)

lemma last_said_snoc [simp]:
  "last_said f (cs @ [c]) = (case f c of None \<Rightarrow> last_said f cs | Some v \<Rightarrow> Some v)"
  by (cases "f c") (simp_all add: last_said_def)

lemma last_said_Cons_snoc [simp]:
  "last_said f (p # cs @ [c]) = (case f c of None \<Rightarrow> last_said f (p # cs) | Some v \<Rightarrow> Some v)"
  using last_said_snoc[of f "p # cs" c] by simp

lemma last_said_single [simp]: "last_said f [c] = f c"
  by (cases "f c") (simp_all add: last_said_def)

text \<open>\<open>last_said\<close> is the value of the last layer that has one.\<close>

lemma last_said_eq:
  "last_said f cs = (case filter (\<lambda>c. f c \<noteq> None) cs of [] \<Rightarrow> None | xs \<Rightarrow> f (last xs))"
proof (induction cs rule: rev_induct)
  case Nil
  then show ?case by simp
next
  case (snoc c cs)
  then show ?case by (auto split: option.splits list.splits)
qed

lemma apply_override_sel [simp]:
  "pc_agent (apply_override p q) = (case pc_agent q of None \<Rightarrow> pc_agent p | Some v \<Rightarrow> Some v)"
  "pc_allow_from (apply_override p q) =
     (case pc_allow_from q of None \<Rightarrow> pc_allow_from p | Some v \<Rightarrow> Some v)"
  "pc_require_mentions (apply_override p q) =
     (case pc_require_mentions q of None \<Rightarrow> pc_require_mentions p | Some v \<Rightarrow> Some v)"
  by (simp_all add: apply_override_def Let_def split: option.splits)

definition layered_policy :: "inbound_policy_config list \<Rightarrow> bool \<Rightarrow> inbound_policy" where
  "layered_policy ls is_dm =
     \<lparr>ip_agent = (case last_said pc_agent ls of None \<Rightarrow> default_agent_id | Some a \<Rightarrow> a),
      ip_allow_from = last_said pc_allow_from ls,
      ip_require_mentions = (\<not> is_dm \<and> last_said pc_require_mentions ls = Some True)\<rparr>"

lemma foldl_apply_override:
  "policy_finalize (foldl apply_override p ls) is_dm = layered_policy (p # ls) is_dm"
proof -
  have "pc_agent (foldl apply_override p ls) = last_said pc_agent (p # ls)"
    "pc_allow_from (foldl apply_override p ls) = last_said pc_allow_from (p # ls)"
    "pc_require_mentions (foldl apply_override p ls) = last_said pc_require_mentions (p # ls)"
    by (induction ls rule: rev_induct)
       (simp_all del: foldl_append add: foldl_append[of _ _ _ "[_]"] split: option.splits)
  then show ?thesis
    by (auto simp: policy_finalize_def layered_policy_def split: option.splits)
qed

lemma resolve_as_foldl:
  "resolve cfg src ws ch is_dm =
     policy_finalize (foldl apply_override (rc_defaults cfg) (tl (policy_layers cfg src ws ch is_dm))) is_dm"
  by (simp add: resolve_def policy_layers_def Let_def split: option.splits)

lemma resolve_layers:
  "resolve cfg src ws ch is_dm = layered_policy (policy_layers cfg src ws ch is_dm) is_dm"
proof -
  have "policy_layers cfg src ws ch is_dm =
      rc_defaults cfg # tl (policy_layers cfg src ws ch is_dm)"
    by (simp add: policy_layers_def)
  then show ?thesis
    by (metis foldl_apply_override resolve_as_foldl)
qed

lemma resolve_dm_mentions [simp]: "\<not> ip_require_mentions (resolve cfg src ws ch True)"
  by (simp add: resolve_layers layered_policy_def)

text \<open>
  C1. Resolution refines the layered policy: for every message, each setting is the one
  of the most specific layer that gives it (channel over workspace over channel kind over
  global; for a direct message, the DM layer over the channel kind over global), the
  agent defaults to \<open>default\<close>, and a direct message never needs a mention.
\<close>

theorem resolve_refines_layers:
  "resolve cfg src ws ch is_dm = layered_policy (policy_layers cfg src ws ch is_dm) is_dm"
  by (rule resolve_layers)

text \<open>
  Direct messages are all or nothing: a direct message is dropped exactly when its
  sender is not allowed, otherwise it invokes the agent whether or not the bot is
  mentioned; it is never kept as context only. A message of a shared channel is never
  dropped.
\<close>

lemma dm_all_or_nothing:
  "classify_inbound cfg ctx =
     (let p = resolve cfg (px_source_channel ctx) (px_workspace_id ctx) (px_channel_id ctx) (px_is_dm ctx);
          allowed = allows_user p (px_user_id ctx)
      in if px_is_dm ctx then (if allowed then Invoke (trim (ip_agent p)) else Drop)
         else if allowed \<and> (if ip_require_mentions p then px_mentioned_bot ctx else True)
         then Invoke (trim (ip_agent p)) else ContextOnly (trim (ip_agent p)))"
  by (cases "px_is_dm ctx") (simp_all add: classify_inbound_def Let_def)

section \<open>Session scope keys\<close>

definition build_session_scope_key ::
  "rstr \<Rightarrow> bool \<Rightarrow> gateway_channel_kind \<Rightarrow> rstr \<Rightarrow> rstr" where
  "build_session_scope_key agent_id is_dm source channel_id =
     (if is_dm then ''agent:'' @ agent_id @ '':main''
      else (case source of
              Discord \<Rightarrow> ''agent:'' @ agent_id @ '':discord:'' @ channel_id))"

lemma append_sep_eq:
  "x \<notin> set a \<Longrightarrow> x \<notin> set b \<Longrightarrow> a @ x # s = b @ x # t \<longleftrightarrow> a = b \<and> s = t"
proof (induction a arbitrary: b)
  case Nil
  then show ?case by (cases b) auto
next
  case (Cons c a)
  then show ?case by (cases b) auto
qed

text \<open>
  Sessions of different conversations never share a scope: when agent ids have no
  colon, two messages get the same scope key exactly when they address the same agent and
  are both direct messages, or both come from the same channel.
\<close>

theorem scope_key_injective:
  assumes "CHR '':'' \<notin> set a" and "CHR '':'' \<notin> set b"
  shows "build_session_scope_key a d s c = build_session_scope_key b d' s' c' \<longleftrightarrow>
         a = b \<and> d = d' \<and> (d \<or> (s = s' \<and> c = c'))"
  using assms
  by (cases s; cases s')
     (auto simp: build_session_scope_key_def append_sep_eq)

theorem scope_key_injective_witness:
  "CHR '':'' \<notin> set ''alpha'' \<and> CHR '':'' \<notin> set ''beta'' \<and>
   build_session_scope_key ''alpha'' False Discord ''12'' \<noteq> build_session_scope_key ''beta'' False Discord ''12''"
proof -
  have a: "CHR '':'' \<notin> set ''alpha''" and b: "CHR '':'' \<notin> set ''beta''" by simp_all
  show ?thesis using a b scope_key_injective [OF a b, of False Discord "''12''" False Discord "''12''"]
    by simp
qed

text \<open>Without that condition the keys collide: a colon in an agent id can imitate another scope.\<close>

lemma scope_key_collision:
  "build_session_scope_key ''a:discord'' True Discord ''1'' = build_session_scope_key ''a'' False Discord ''main''"
  by (simp add: build_session_scope_key_def)

end
