(* ===== verification/SessionStore.thy ===== *)
theory SessionStore
  imports Routing
begin

text \<open>
  \<open>src/gateway/session.rs\<close>: the store of the active session of each scope, and the
  routing of a message to its session (\<open>src/gateway/router.rs\<close>). The table
  \<open>active_sessions\<close> is a map from its primary key \<open>scope_key\<close> to the other columns. A
  statement may fail; \<open>faults\<close> says which do, and a failed statement leaves the table as
  it was. \<open>now\<close> is the text of the current time.
\<close>

record session_row =
  sr_session_id :: rstr
  sr_sequence :: int
  sr_updated_at :: rstr

type_synonym session_table = "rstr \<rightharpoonup> session_row"

record sql_faults =
  fault_select :: "framework_error option"
  fault_write :: "framework_error option"

definition no_faults :: sql_faults where
  "no_faults = \<lparr>fault_select = None, fault_write = None\<rparr>"

definition i64_add :: "int \<Rightarrow> int \<Rightarrow> int" where
  "i64_add a b = (a + b + 2 ^ 63) mod 2 ^ 64 - 2 ^ 63"

definition i64_range :: "int \<Rightarrow> bool" where
  "i64_range i \<longleftrightarrow> - (2 ^ 63) \<le> i \<and> i < 2 ^ 63"

definition format_session_id :: "rstr \<Rightarrow> int \<Rightarrow> rstr" where
  "format_session_id scope_key sequence = scope_key @ '':session:'' @ show_int sequence"

definition select_active_session ::
  "sql_faults \<Rightarrow> session_table \<Rightarrow> rstr \<Rightarrow> (rstr \<times> int) option res" where
  "select_active_session faults conn scope_key =
     (case fault_select faults of
        Some e \<Rightarrow> Inl e
      | None \<Rightarrow> Inr (map_option (\<lambda>r. (sr_session_id r, sr_sequence r)) (conn scope_key)))"

definition current_or_create ::
  "sql_faults \<Rightarrow> rstr \<Rightarrow> rstr \<Rightarrow> session_table \<Rightarrow> session_table \<times> rstr res" where
  "current_or_create faults now scope_key conn =
     (case select_active_session faults conn scope_key of
        Inl e \<Rightarrow> (conn, Inl e)
      | Inr (Some (session_id, _)) \<Rightarrow> (conn, Inr session_id)
      | Inr None \<Rightarrow>
          (let sequence = 1;
               session_id = format_session_id scope_key sequence
           in case fault_write faults of
                Some e \<Rightarrow> (conn, Inl e)
              | None \<Rightarrow>
                  (conn(scope_key \<mapsto> \<lparr>sr_session_id = session_id, sr_sequence = sequence,
                                     sr_updated_at = now\<rparr>),
                   Inr (format_session_id scope_key sequence))))"

record session_rotation =
  previous_session_id :: rstr
  rotated_session_id :: rstr

definition rotate_session ::
  "sql_faults \<Rightarrow> rstr \<Rightarrow> rstr \<Rightarrow> session_table \<Rightarrow> session_table \<times> session_rotation res" where
  "rotate_session faults now scope_key conn =
     (case select_active_session faults conn scope_key of
        Inl e \<Rightarrow> (conn, Inl e)
      | Inr found \<Rightarrow>
          (let (prev_id, prev_seq) =
                 (case found of
                    Some (session_id, sequence) \<Rightarrow> (session_id, sequence)
                  | None \<Rightarrow> (let sequence = 1 in (format_session_id scope_key sequence, sequence)));
               next_sequence = i64_add prev_seq 1;
               session_id = format_session_id scope_key next_sequence
           in case fault_write faults of
                Some e \<Rightarrow> (conn, Inl e)
              | None \<Rightarrow>
                  (conn(scope_key \<mapsto> \<lparr>sr_session_id = session_id, sr_sequence = next_sequence,
                                     sr_updated_at = now\<rparr>),
                   Inr \<lparr>previous_session_id = prev_id, rotated_session_id = session_id\<rparr>)))"

lemma rotate_frame: "rotate_session f now k t = (t', r) \<Longrightarrow> t' = t(k := t' k)"
  by (auto simp: rotate_session_def select_active_session_def Let_def fun_upd_same fun_upd_idem simp del: fun_upd_apply
      split: option.splits prod.splits)

section \<open>Session ids are unique per scope and sequence\<close>

lemma show_int_colon: "CHR '':'' \<notin> set (show_int i)"
  by (auto simp: show_int_def is_ascii_digit_def dest!: show_nat_digits)

lemma show_int_inject [simp]: "show_int i = show_int j \<longleftrightarrow> i = j"
proof -
  have "CHR ''-'' \<notin> set (show_nat n)" for n
    by (auto simp: is_ascii_digit_def dest!: show_nat_digits)
  then have "CHR ''-'' # show_nat m \<noteq> show_nat n" for m n
    by (metis list.set_intros(1))
  then show ?thesis by (auto simp: show_int_def) (metis)+
qed

lemma last_sep_eq:
  "x \<notin> set s \<Longrightarrow> x \<notin> set t \<Longrightarrow> a @ x # s = b @ x # t \<longleftrightarrow> a = b \<and> s = t"
proof -
  assume "x \<notin> set s" "x \<notin> set t"
  then have "rev s @ x # rev a = rev t @ x # rev b \<longleftrightarrow> rev s = rev t \<and> rev a = rev b"
    by (intro append_sep_eq) simp_all
  moreover have "a @ x # s = b @ x # t \<longleftrightarrow> rev s @ x # rev a = rev t @ x # rev b"
    by (metis append.assoc append_Cons append_Nil rev.simps(2) rev_append rev_is_rev_conv)
  ultimately show ?thesis by auto
qed

lemma format_session_id_inject [simp]:
  "format_session_id s m = format_session_id t n \<longleftrightarrow> s = t \<and> m = n"
  using last_sep_eq[OF show_int_colon show_int_colon, of "s @ '':session''" m "t @ '':session''" n]
  by (simp add: format_session_id_def)

lemma i64_add_range: "i64_range (i64_add a b)"
  by (simp add: i64_add_def i64_range_def)

lemma i64_add_exact: "i64_range (a + b) \<Longrightarrow> i64_add a b = a + b"
  by (simp add: i64_add_def i64_range_def)

lemma i64_add_1_neq: "i64_add a 1 \<noteq> a"
proof
  let ?x = "a + 1 + 2 ^ 63"
  assume "i64_add a 1 = a"
  then have "?x - ?x mod 2 ^ 64 = 1" by (simp add: i64_add_def)
  then have "(2 ^ 64 :: int) dvd 1" by (metis dvd_triv_left minus_mod_eq_mult_div)
  then show False by simp
qed

section \<open>The contract of a session directory\<close>

text \<open>
  What the gateway relies on: the active session of a scope stays the same until it is
  rotated, a rotation switches to another id and reports the one it replaces, and scopes
  do not affect each other.
\<close>

locale session_directory =
  fixes active :: "'s \<Rightarrow> 'k \<Rightarrow> 'i option"
    and cur :: "'k \<Rightarrow> 's \<Rightarrow> 's \<times> 'i res"
    and rot :: "'k \<Rightarrow> 's \<Rightarrow> 's \<times> ('i \<times> 'i) res"
    and inv :: "'s \<Rightarrow> bool"
  assumes cur_inv: "inv s \<Longrightarrow> inv (fst (cur k s))"
    and rot_inv: "inv s \<Longrightarrow> inv (fst (rot k s))"
    and cur_ok: "inv s \<Longrightarrow> cur k s = (s', Inr i) \<Longrightarrow> active s' k = Some i"
    and cur_keeps: "inv s \<Longrightarrow> active s k' = Some i \<Longrightarrow> active (fst (cur k s)) k' = Some i"
    and rot_ok: "inv s \<Longrightarrow> rot k s = (s', Inr (p, n)) \<Longrightarrow>
                   active s' k = Some n \<and> n \<noteq> p \<and> active s k \<in> {None, Some p}"
    and rot_frame: "inv s \<Longrightarrow> k' \<noteq> k \<Longrightarrow> active (fst (rot k s)) k' = active s k'"
begin

lemma cur_again:
  assumes "inv s" "active s k = Some i" "cur k s = (s', Inr j)"
  shows "j = i"
  using cur_ok[OF assms(1,3)] cur_keeps[OF assms(1,2), of k] assms(3) by simp

lemma cur_after_rot:
  assumes "inv s" and "rot k s = (s', Inr (p, n))" and "cur k s' = (s'', Inr j)"
  shows "j = n \<and> j \<noteq> p"
proof -
  have "inv s'" using rot_inv[OF assms(1), of k] assms(2) by simp
  moreover have "active s' k = Some n" "n \<noteq> p" using rot_ok[OF assms(1,2)] by simp_all
  ultimately show ?thesis using cur_again assms(3) by blast
qed

lemma cur_other_scope:
  assumes "inv s" and "active s k = Some i" and "k' \<noteq> k"
    and "cur k (fst (rot k' s)) = (s', Inr j)"
  shows "j = i"
  using cur_again[OF rot_inv[OF assms(1)] _ assms(4)] rot_frame[OF assms(1), of k k'] assms(2,3)
  by simp

end

definition store_active :: "session_table \<Rightarrow> rstr \<Rightarrow> rstr option" where
  "store_active t k = map_option sr_session_id (t k)"

definition store_inv :: "session_table \<Rightarrow> bool" where
  "store_inv t \<longleftrightarrow> (\<forall>k r. t k = Some r \<longrightarrow>
     sr_session_id r = format_session_id k (sr_sequence r) \<and> i64_range (sr_sequence r))"

lemmas session_defs = current_or_create_def rotate_session_def select_active_session_def Let_def

lemma store_inv_current: "store_inv t \<Longrightarrow> store_inv (fst (current_or_create f now k t))"
  by (auto simp: store_inv_def session_defs i64_range_def split: option.splits)

lemma store_inv_rotate: "store_inv t \<Longrightarrow> store_inv (fst (rotate_session f now k t))"
  by (auto simp: store_inv_def session_defs i64_add_range split: option.splits)

definition rotate_ids ::
  "sql_faults \<Rightarrow> rstr \<Rightarrow> rstr \<Rightarrow> session_table \<Rightarrow> session_table \<times> (rstr \<times> rstr) res" where
  "rotate_ids f now k t =
     map_prod id (map_sum id (\<lambda>r. (previous_session_id r, rotated_session_id r))) (rotate_session f now k t)"

lemma rotate_ids_ok:
  "store_inv s \<Longrightarrow> rotate_ids f now k s = (s', Inr (p, n)) \<Longrightarrow>
   store_active s' k = Some n \<and> n \<noteq> p \<and> store_active s k \<in> {None, Some p}"
  by (auto simp: rotate_ids_def session_defs store_active_def store_inv_def i64_add_1_neq
      split: option.splits prod.splits)

lemma rotate_ids_frame:
  "k' \<noteq> k \<Longrightarrow> store_active (fst (rotate_ids f now k s)) k' = store_active s k'"
  by (auto simp: rotate_ids_def session_defs store_active_def split: option.splits prod.splits)

lemma store_inv_rotate_ids: "store_inv s \<Longrightarrow> store_inv (fst (rotate_ids f now k s))"
  using store_inv_rotate by (simp add: rotate_ids_def)

lemma current_active:
  "current_or_create f now k s = (s', Inr i) \<Longrightarrow> store_active s' k = Some i"
  by (auto simp: session_defs store_active_def split: option.splits)

lemma current_keeps:
  "store_active s k' = Some i \<Longrightarrow> store_active (fst (current_or_create f now k s)) k' = Some i"
  by (auto simp: session_defs store_active_def split: option.splits)

interpretation store: session_directory store_active "current_or_create f now" "rotate_ids f now" store_inv
  for f now
  by unfold_locales
     (blast intro: store_inv_current store_inv_rotate_ids current_active current_keeps
        rotate_ids_frame dest: rotate_ids_ok)+

text \<open>
  A fresh session is really fresh: after \<open>rotate\<close> succeeds on a scope, the next
  lookup of the scope returns the rotated id and not the previous one, and the lookup of
  any other scope that has a session still returns that session.
\<close>

theorem rotate_switches_session:
  assumes "store_inv t"
    and "rotate_session f now k t = (t', Inr r)"
    and "current_or_create g now' k t' = (t'', Inr i)"
  shows "i = rotated_session_id r \<and> i \<noteq> previous_session_id r \<and> t' = t(k := t' k)"
proof -
  have "rotate_ids f now k t = (t', Inr (previous_session_id r, rotated_session_id r))"
    using assms(2) by (simp add: rotate_ids_def)
  moreover have "store_inv t'" using store_inv_rotate[OF assms(1), of f now k] assms(2) by simp
  ultimately have "i = rotated_session_id r \<and> i \<noteq> previous_session_id r"
    using store.rot_ok[OF assms(1)] store.cur_again[OF _ _ assms(3)] by metis
  then show ?thesis
    using rotate_frame[OF assms(2)] by blast
qed

theorem rotate_switches_session_witness:
  "snd (current_or_create no_faults ''t'' ''s'' (fst (rotate_session no_faults ''t'' ''s'' Map.empty)))
     = Inr ''s:session:2''"
proof -
  let ?t' = "Map.empty(''s'' \<mapsto> \<lparr>sr_session_id = ''s:session:2'', sr_sequence = 2, sr_updated_at = ''t''\<rparr>)"
  let ?r = "\<lparr>previous_session_id = ''s:session:1'', rotated_session_id = ''s:session:2''\<rparr>"
  have r: "rotate_session no_faults ''t'' ''s'' Map.empty = (?t', Inr ?r)"
    by (simp add: session_defs no_faults_def i64_add_def format_session_id_def str_simps)
  have c: "current_or_create no_faults ''t'' ''s'' ?t' = (?t', Inr ''s:session:2'')"
    by (simp add: session_defs no_faults_def)
  have "store_inv Map.empty" by (simp add: store_inv_def)
  from rotate_switches_session[OF this r c] r c show ?thesis by simp
qed

section \<open>Session ids over a run of the store\<close>

datatype store_op = Lookup rstr | NewSession rstr

text \<open>A run without faults; the log holds each id at the moment it becomes active.\<close>

definition store_step ::
  "rstr \<Rightarrow> store_op \<Rightarrow> session_table \<times> rstr list \<Rightarrow> session_table \<times> rstr list" where
  "store_step now oper st =
     (let (t, log) = st in
      case oper of
        Lookup k \<Rightarrow>
          (case current_or_create no_faults now k t of
             (t', Inr i) \<Rightarrow> (t', if t k = None then log @ [i] else log)
           | (t', Inl _) \<Rightarrow> (t', log))
      | NewSession k \<Rightarrow>
          (case rotate_session no_faults now k t of
             (t', Inr r) \<Rightarrow> (t', log @ [rotated_session_id r])
           | (t', Inl _) \<Rightarrow> (t', log)))"

definition store_run :: "rstr \<Rightarrow> store_op list \<Rightarrow> session_table \<times> rstr list" where
  "store_run now ops = foldl (\<lambda>st oper. store_step now oper st) (Map.empty, []) ops"

text \<open>
  The run invariant: every id of the log is the id of some scope at a sequence number up to
  the scope's current one, current numbers are bounded by the steps taken, and the log has
  no repetition.
\<close>

definition run_inv :: "nat \<Rightarrow> session_table \<times> rstr list \<Rightarrow> bool" where
  "run_inv n st \<longleftrightarrow>
     store_inv (fst st) \<and> distinct (snd st) \<and>
     (\<forall>k r. fst st k = Some r \<longrightarrow> 1 \<le> sr_sequence r \<and> sr_sequence r \<le> int n + 1) \<and>
     (\<forall>i\<in>set (snd st). \<exists>k r m. fst st k = Some r \<and> i = format_session_id k m \<and> m \<le> sr_sequence r)"

lemma run_inv_logged:
  assumes "run_inv n (t, log)" and "format_session_id k m \<in> set log"
  shows "\<exists>r. t k = Some r \<and> m \<le> sr_sequence r"
  using assms by (fastforce simp: run_inv_def)

lemma run_inv_set:
  assumes "run_inv n (t, log)" and "format_session_id k m \<notin> set log"
    and "case t k of None \<Rightarrow> 1 \<le> m | Some r \<Rightarrow> sr_sequence r \<le> m"
    and "1 \<le> m" and "m \<le> int n + 2" and "i64_range m"
  shows "run_inv (Suc n)
           (t(k \<mapsto> \<lparr>sr_session_id = format_session_id k m, sr_sequence = m, sr_updated_at = now\<rparr>),
            log @ [format_session_id k m])"
    (is "run_inv _ (?t', ?log)")
proof -
  note inv = assms(1)[unfolded run_inv_def fst_conv snd_conv]
  have "store_inv ?t'" using inv assms(6) by (simp add: store_inv_def)
  moreover have "distinct ?log" using inv assms(2) by simp
  moreover have "\<forall>j r. ?t' j = Some r \<longrightarrow> 1 \<le> sr_sequence r \<and> sr_sequence r \<le> int (Suc n) + 1"
    using inv assms(4,5) by (fastforce split: if_splits)
  moreover have "\<exists>j r m'. ?t' j = Some r \<and> i = format_session_id j m' \<and> m' \<le> sr_sequence r"
    if i: "i \<in> set ?log" for i
  proof (cases "i = format_session_id k m")
    case True
    then show ?thesis by (intro exI[of _ k]) auto
  next
    case False
    with i inv obtain j r m' where j: "t j = Some r" "i = format_session_id j m'" "m' \<le> sr_sequence r"
      by auto
    show ?thesis
    proof (cases "j = k")
      case True
      with j assms(3) show ?thesis by (intro exI[of _ k]) auto
    next
      case False
      with j show ?thesis by (intro exI[of _ j]) auto
    qed
  qed
  ultimately show ?thesis unfolding run_inv_def by simp
qed

lemma run_inv_mono: "run_inv n st \<Longrightarrow> run_inv (Suc n) st"
  by (fastforce simp: run_inv_def)

lemma run_inv_step:
  assumes inv: "run_inv n st" and n: "int n + 2 < 2 ^ 63"
  shows "run_inv (Suc n) (store_step now oper st)"
proof -
  obtain t log where st: "st = (t, log)" by (cases st)
  note inv' = inv[unfolded st]
  note defs = session_defs no_faults_def store_step_def st
  show ?thesis
  proof (cases oper)
    case (Lookup k)
    show ?thesis
    proof (cases "t k")
      case None
      moreover have "format_session_id k 1 \<notin> set log"
        using run_inv_logged[OF inv'] None by fastforce
      ultimately show ?thesis
        using Lookup by (simp add: defs i64_range_def run_inv_set[OF inv'])
    next
      case (Some r)
      then show ?thesis using Lookup run_inv_mono[OF inv'] by (simp add: defs)
    qed
  next
    case (NewSession k)
    let ?m = "case t k of None \<Rightarrow> 1 | Some r \<Rightarrow> sr_sequence r"
    have m: "1 \<le> ?m" "?m \<le> int n + 1"
      using inv' by (auto simp: run_inv_def split: option.splits)
    then have add: "i64_add ?m 1 = ?m + 1" "i64_range (?m + 1)"
      using n i64_add_exact[of ?m 1] by (simp_all add: i64_range_def)
    have "format_session_id k (?m + 1) \<notin> set log"
      using run_inv_logged[OF inv', of k "?m + 1"] by (auto split: option.splits)
    then have "run_inv (Suc n)
        (t(k \<mapsto> \<lparr>sr_session_id = format_session_id k (?m + 1), sr_sequence = ?m + 1,
                 sr_updated_at = now\<rparr>), log @ [format_session_id k (?m + 1)])"
      using m add(2) by (intro run_inv_set[OF inv']) (auto split: option.splits)
    then show ?thesis using NewSession add by (cases "t k") (simp_all add: defs)
  qed
qed

lemma run_inv_run: "int (length ops) + 2 < 2 ^ 63 \<Longrightarrow> run_inv (length ops) (store_run now ops)"
proof (induction ops rule: rev_induct)
  case Nil
  then show ?case by (simp add: store_run_def run_inv_def store_inv_def)
next
  case (snoc oper ops)
  then show ?case using run_inv_step[of "length ops" "store_run now ops" now oper]
    by (simp add: store_run_def)
qed

text \<open>
  C2. Session ids are never reused: over any run of lookups and rotations from an empty
  store, short of exhausting the 64-bit sequence, all ids that ever become active, in all
  scopes, are pairwise different.
\<close>

theorem session_ids_never_reused:
  assumes "int (length ops) + 2 < 2 ^ 63"
  shows "distinct (snd (store_run now ops))"
  using run_inv_run[OF assms] by (simp add: run_inv_def)

theorem session_ids_never_reused_witness:
  "distinct (snd (store_run ''t'' [Lookup ''a'', NewSession ''a'', NewSession ''b'', Lookup ''a'']))"
  by (rule session_ids_never_reused) simp

section \<open>Routing an inbound message to its session\<close>

definition route_inbound ::
  "sql_faults \<Rightarrow> rstr \<Rightarrow> rstr \<Rightarrow> gateway_channel_kind \<Rightarrow> channel_inbound \<Rightarrow> routing_config \<Rightarrow>
   session_table \<Rightarrow> session_table \<times> inbound_message option res" where
  "route_inbound faults now trace_id kind inbound inbound_policy session_store =
     (case resolve_route kind inbound inbound_policy of
        None \<Rightarrow> (session_store, Inr None)
      | Some (target_agent_id, invoke) \<Rightarrow>
          (let scope_key = build_session_scope_key target_agent_id (ci_is_dm inbound) kind
                             (ci_channel_id inbound)
           in case current_or_create faults now scope_key session_store of
                (store', Inl e) \<Rightarrow> (store', Inl e)
              | (store', Inr session_key) \<Rightarrow>
                  (store', Inr (Some
                     \<lparr>im_trace_id = trace_id, im_source_channel = kind,
                      im_target_agent_id = target_agent_id, im_session_key = session_key,
                      im_source_message_id = Some (ci_message_id inbound),
                      im_channel_id = ci_channel_id inbound, im_guild_id = ci_guild_id inbound,
                      im_is_dm = ci_is_dm inbound, im_user_id = ci_user_id inbound,
                      im_username = ci_username inbound,
                      im_mentioned_bot = ci_mentioned_bot inbound, im_invoke = invoke,
                      im_content = ci_content inbound\<rparr>))))"

lemma route_inbound_SomeD:
  assumes "route_inbound f now tr kind inb cfg t = (t', Inr (Some msg))"
  shows "resolve_route kind inb cfg = Some (im_target_agent_id msg, im_invoke msg)"
    and "current_or_create f now (build_session_scope_key (im_target_agent_id msg) (ci_is_dm inb) kind
           (ci_channel_id inb)) t = (t', Inr (im_session_key msg))"
  using assms by (auto simp: route_inbound_def Let_def split: option.splits prod.splits sum.splits)

text \<open>
  Consecutive messages of one conversation share a session: if two messages are routed
  to the same agent from the same conversation, with no rotation of its scope in between,
  they get the same session key; a message the policy drops changes nothing.
\<close>

theorem same_conversation_same_session:
  assumes "store_inv t"
    and "route_inbound f now tr kind inb cfg t = (t1, Inr (Some msg))"
    and "route_inbound g now' tr' kind inb' cfg t1 = (t2, Inr (Some msg'))"
    and "im_target_agent_id msg' = im_target_agent_id msg"
    and "ci_is_dm inb' = ci_is_dm inb" and "ci_is_dm inb \<or> ci_channel_id inb' = ci_channel_id inb"
  shows "im_session_key msg' = im_session_key msg \<and> t2 = t1"
proof -
  let ?k = "build_session_scope_key (im_target_agent_id msg) (ci_is_dm inb) kind (ci_channel_id inb)"
  have 1: "current_or_create f now ?k t = (t1, Inr (im_session_key msg))"
    using route_inbound_SomeD(2)[OF assms(2)] .
  have 2: "current_or_create g now' ?k t1 = (t2, Inr (im_session_key msg'))"
  proof -
    have "build_session_scope_key (im_target_agent_id msg') (ci_is_dm inb') kind (ci_channel_id inb') = ?k"
      using assms(4-6) by (cases kind) (auto simp: build_session_scope_key_def)
    then show ?thesis using route_inbound_SomeD(2)[OF assms(3)] by simp
  qed
  from current_active[OF 1] have "t1 ?k \<noteq> None" by (auto simp: store_active_def)
  with 2 have "t2 = t1" by (auto simp: session_defs split: option.splits)
  moreover have "store_inv t1" using store_inv_current[OF assms(1), of f now ?k] 1 by simp
  ultimately show ?thesis using store.cur_again[OF _ current_active[OF 1] 2] by simp
qed

theorem same_conversation_same_session_witness:
  "\<exists>t1 msg t2 msg'.
     route_inbound no_faults ''t'' ''r1'' Discord
       \<lparr>ci_message_id = ''1'', ci_channel_id = ''c'', ci_guild_id = None, ci_is_dm = False,
        ci_user_id = ''u'', ci_username = ''n'', ci_mentioned_bot = False, ci_content = ''hi''\<rparr>
       default_routing Map.empty = (t1, Inr (Some msg)) \<and>
     route_inbound no_faults ''t'' ''r2'' Discord
       \<lparr>ci_message_id = ''2'', ci_channel_id = ''c'', ci_guild_id = None, ci_is_dm = False,
        ci_user_id = ''v'', ci_username = ''m'', ci_mentioned_bot = False, ci_content = ''ho''\<rparr>
       default_routing t1 = (t2, Inr (Some msg')) \<and>
     im_session_key msg' = im_session_key msg \<and> t2 = t1"
  (is "\<exists>t1 msg t2 msg'. ?A t1 msg \<and> ?B t1 t2 msg' \<and> _")
proof -
  note defs = route_inbound_def resolve_route_def evaluate_inbound_policy_def classify_inbound_def
    resolve_def default_routing_def policy_finalize_def empty_policy_def allows_user_def Let_def
    session_defs no_faults_def
  obtain t1 msg where a: "?A t1 msg" by (simp add: defs)
  obtain t2 msg' where b: "?B t1 t2 msg'"
    using a by (auto simp: defs build_session_scope_key_def)
  have "store_inv Map.empty" by (simp add: store_inv_def)
  moreover have "im_target_agent_id msg' = im_target_agent_id msg"
    using a b by (auto simp: defs build_session_scope_key_def)
  ultimately have "im_session_key msg' = im_session_key msg \<and> t2 = t1"
    using same_conversation_same_session[OF _ a b] by simp
  with a b show ?thesis by blast
qed

end
