(* ===== verification/Approval.thy ===== *)
theory Approval
  imports ChannelTypes Errors
begin

text \<open>
  \<open>src/approval.rs\<close>: the registry of pending approvals and the requesters built on it.
  The one-shot channels live in an explicit store, numbered in the order of creation; a
  pending entry owns the sending half of its channel, so that an entry that is dropped
  without sending closes the channel. The id counter is an atomic 64-bit integer that
  wraps. Concurrent tasks are lists of registry operations, executed one at a time as the
  registry's lock makes them.
\<close>

datatype approval_decision = Approved | Denied | TimedOut

record approval_request =
  aq_agent_id :: rstr
  aq_agent_name :: rstr
  aq_session_id :: rstr
  aq_requesting_user_id :: rstr
  aq_tool_name :: rstr
  aq_execution_kind :: rstr
  aq_capability :: sandbox_capability
  aq_reason :: rstr
  aq_action_summary :: rstr
  aq_diagnostic :: rstr

record pending_approval_request =
  pq_approval_id :: rstr
  pq_agent_id :: rstr
  pq_agent_name :: rstr
  pq_session_id :: rstr
  pq_requesting_user_id :: rstr
  pq_tool_name :: rstr
  pq_execution_kind :: rstr
  pq_capability :: rstr
  pq_reason :: rstr
  pq_action_summary :: rstr
  pq_diagnostic :: rstr

record pending_approval =
  pa_request :: pending_approval_request
  pa_response_tx :: "nat option"

text \<open>A one-shot channel: nothing sent yet, a decision sent, or its sender dropped.\<close>

datatype oneshot = Waiting | Sent approval_decision | Closed

record approval_registry =
  ar_next_id :: nat
  ar_pending :: "rstr \<rightharpoonup> pending_approval"
  ar_channels :: "oneshot list"

definition registry_new :: approval_registry where
  "registry_new = \<lparr>ar_next_id = 1, ar_pending = Map.empty, ar_channels = []\<rparr>"

text \<open>Dropping a pending entry drops its sender.\<close>

definition drop_entry :: "pending_approval option \<Rightarrow> oneshot list \<Rightarrow> oneshot list" where
  "drop_entry old chans =
     (case old of
        None \<Rightarrow> chans
      | Some e \<Rightarrow>
          (case pa_response_tx e of
             None \<Rightarrow> chans
           | Some c \<Rightarrow> (case chans ! c of Waiting \<Rightarrow> chans[c := Closed] | _ \<Rightarrow> chans)))"

section \<open>The registry\<close>

definition approval_key :: "nat \<Rightarrow> rstr" where
  "approval_key n = ''approval-'' @ show_nat n"

definition register ::
  "approval_request \<Rightarrow> approval_registry \<Rightarrow> approval_registry \<times> pending_approval_request \<times> nat" where
  "register request self =
     (let approval_id = approval_key (ar_next_id self);
          routed = \<lparr>pq_approval_id = approval_id, pq_agent_id = aq_agent_id request,
            pq_agent_name = aq_agent_name request, pq_session_id = aq_session_id request,
            pq_requesting_user_id = aq_requesting_user_id request,
            pq_tool_name = aq_tool_name request, pq_execution_kind = aq_execution_kind request,
            pq_capability = capability_as_str (aq_capability request),
            pq_reason = aq_reason request, pq_action_summary = aq_action_summary request,
            pq_diagnostic = aq_diagnostic request\<rparr>;
          rx = length (ar_channels self);
          entry = \<lparr>pa_request = routed, pa_response_tx = Some rx\<rparr>
      in (\<lparr>ar_next_id = (ar_next_id self + 1) mod 2 ^ 64,
           ar_pending = (ar_pending self)(approval_id \<mapsto> entry),
           ar_channels = drop_entry (ar_pending self approval_id) (ar_channels self @ [Waiting])\<rparr>,
          routed, rx))"

text \<open>
  \<open>wait_for_decision\<close>: the poll that ends the wait (the timeout polls the channel before
  the clock; \<open>None\<close> while it is still waiting), then, under the lock, the removal of the
  entry. Other tasks may run in between.
\<close>

definition wait_outcome :: "nat \<Rightarrow> bool \<Rightarrow> approval_registry \<Rightarrow> approval_decision option" where
  "wait_outcome rx elapsed self =
     (case ar_channels self ! rx of
        Sent decision \<Rightarrow> Some decision
      | Closed \<Rightarrow> Some Denied
      | Waiting \<Rightarrow> (if elapsed then Some TimedOut else None))"

definition remove_pending :: "rstr \<Rightarrow> approval_registry \<Rightarrow> approval_registry" where
  "remove_pending approval_id self =
     self\<lparr>ar_pending := (ar_pending self)(approval_id := None),
          ar_channels := drop_entry (ar_pending self approval_id) (ar_channels self)\<rparr>"

definition resolve_approval ::
  "rstr \<Rightarrow> rstr \<Rightarrow> approval_decision \<Rightarrow> approval_registry \<Rightarrow> approval_registry \<times> bool" where
  "resolve_approval approval_id user_id decision self =
     (case ar_pending self approval_id of
        None \<Rightarrow> (self, False)
      | Some entry \<Rightarrow>
          (if pq_requesting_user_id (pa_request entry) \<noteq> user_id then (self, False)
           else
             (let self' = self\<lparr>ar_pending := (ar_pending self)(approval_id := None)\<rparr>
              in case pa_response_tx entry of
                   None \<Rightarrow> (self', True)
                 | Some tx \<Rightarrow> (self'\<lparr>ar_channels := (ar_channels self)[tx := Sent decision]\<rparr>, True))))"

definition pending_request :: "rstr \<Rightarrow> approval_registry \<Rightarrow> pending_approval_request option" where
  "pending_request approval_id self = map_option pa_request (ar_pending self approval_id)"

definition pending_requests :: "approval_registry \<Rightarrow> pending_approval_request set" where
  "pending_requests self = pa_request ` ran (ar_pending self)"

section \<open>Operations of concurrent tasks\<close>

datatype approval_op =
    OpRegister approval_request
  | OpResolve rstr rstr approval_decision
  | OpRemove rstr

definition approval_step :: "approval_op \<Rightarrow> approval_registry \<Rightarrow> approval_registry" where
  "approval_step oper s =
     (case oper of
        OpRegister request \<Rightarrow> fst (register request s)
      | OpResolve approval_id user decision \<Rightarrow> fst (resolve_approval approval_id user decision s)
      | OpRemove approval_id \<Rightarrow> remove_pending approval_id s)"

definition approval_run :: "approval_op list \<Rightarrow> approval_registry \<Rightarrow> approval_registry" where
  "approval_run ops s = foldl (\<lambda>s oper. approval_step oper s) s ops"

definition wait_for_decision ::
  "rstr \<Rightarrow> nat \<Rightarrow> bool \<Rightarrow> approval_op list \<Rightarrow> approval_op list \<Rightarrow> approval_registry \<Rightarrow>
   approval_registry \<times> approval_decision option" where
  "wait_for_decision approval_id rx elapsed before between self =
     (let polled = approval_run before self
      in case wait_outcome rx elapsed polled of
           None \<Rightarrow> (polled, None)
         | Some decision \<Rightarrow>
             (remove_pending approval_id (approval_run between polled), Some decision))"

section \<open>Requesters\<close>

text \<open>
  \<open>GatewayApprovalRequester::request_approval\<close>. \<open>send_result\<close> is what the gateway's
  \<open>send_approval_request\<close> returned; \<open>before\<close> are the registry operations of other tasks up
  to the poll that ends the wait, \<open>between\<close> those up to the removal, and \<open>elapsed\<close> says
  whether the timeout has passed at the poll. The last component is the channel message
  whose deletion is then attempted; that deletion cannot fail the request.
\<close>

definition request_approval_gateway ::
  "rstr option res \<Rightarrow> approval_op list \<Rightarrow> approval_op list \<Rightarrow> bool \<Rightarrow> approval_request \<Rightarrow>
   approval_registry \<Rightarrow> approval_registry \<times> approval_decision res option \<times> rstr option" where
  "request_approval_gateway send_result before between elapsed request registry =
     (let (registry, pending, rx) = register request registry
      in case send_result of
           Inl e \<Rightarrow> (registry, Some (Inl e), None)
         | Inr approval_message_id \<Rightarrow>
             (case wait_for_decision (pq_approval_id pending) rx elapsed before between registry of
                (registry, None) \<Rightarrow> (registry, None, None)
              | (registry, Some decision) \<Rightarrow>
                  (registry, Some (Inr decision),
                   if decision = TimedOut then approval_message_id else None)))"

definition request_approval_unavailable ::
  "approval_request \<Rightarrow> approval_registry \<Rightarrow> approval_registry \<times> approval_decision res option \<times> rstr option" where
  "request_approval_unavailable request registry =
     (registry, Some (Inl (ToolError
        ''sandbox escalation required but no approval requester is available'')), None)"

text \<open>The prompt of the default channel implementation (\<open>src/channels/mod.rs\<close>).\<close>

definition format_approval_request :: "pending_approval_request \<Rightarrow> rstr" where
  "format_approval_request request =
     ''Approval required.'' @ [NL] @ ''approval_id: '' @ pq_approval_id request @ [NL] @
     ''requesting_user_id: '' @ pq_requesting_user_id request @ [NL] @
     ''tool: '' @ pq_tool_name request @ [NL] @
     ''reason: '' @ pq_reason request @ [NL] @
     ''action: '' @ pq_action_summary request @ [NL] @
     ''execution_kind: '' @ pq_execution_kind request @ [NL] @
     ''capability: '' @ pq_capability request @ [NL] @
     ''diagnostic: '' @ pq_diagnostic request @ [NL] @
     ''Only the requesting user may approve or deny this exact tool call outside the sandbox.''"

section \<open>Invariant\<close>

text \<open>
  A pending entry is stored under its own id, its sender's channel is still waiting, and no
  two entries share a channel.
\<close>

definition ledger_inv :: "(rstr \<rightharpoonup> pending_approval) \<Rightarrow> oneshot list \<Rightarrow> bool" where
  "ledger_inv p cs \<longleftrightarrow>
     (\<forall>i e. p i = Some e \<longrightarrow> pq_approval_id (pa_request e) = i) \<and>
     (\<forall>i e c. p i = Some e \<longrightarrow> pa_response_tx e = Some c \<longrightarrow> c < length cs \<and> cs ! c = Waiting) \<and>
     (\<forall>i j e d c. p i = Some e \<longrightarrow> p j = Some d \<longrightarrow>
        pa_response_tx e = Some c \<longrightarrow> pa_response_tx d = Some c \<longrightarrow> i = j)"

definition registry_inv :: "approval_registry \<Rightarrow> bool" where
  "registry_inv s = ledger_inv (ar_pending s) (ar_channels s)"

lemma ledger_invD:
  assumes "ledger_inv p cs" and "p i = Some e"
  shows "pq_approval_id (pa_request e) = i"
    and "pa_response_tx e = Some c \<Longrightarrow> c < length cs"
    and "pa_response_tx e = Some c \<Longrightarrow> cs ! c = Waiting"
    and "pa_response_tx e = Some c \<Longrightarrow> p j = Some d \<Longrightarrow> pa_response_tx d = Some c \<Longrightarrow> j = i"
  using assms unfolding ledger_inv_def by blast+

lemma ledger_inv_delete: "ledger_inv p cs \<Longrightarrow> ledger_inv (p(i := None)) cs"
  unfolding ledger_inv_def by (simp add: fun_upd_apply)

lemma ledger_inv_channels:
  assumes "ledger_inv p cs"
    and "\<And>i e c. p i = Some e \<Longrightarrow> pa_response_tx e = Some c \<Longrightarrow> c < length ds \<and> ds ! c = Waiting"
  shows "ledger_inv p ds"
  using assms(1) unfolding ledger_inv_def by (elim conjE, intro conjI) (use assms(2) in blast)+

lemma ledger_inv_close:
  assumes inv: "ledger_inv p cs" and e: "p i = Some e" "pa_response_tx e = Some c"
  shows "ledger_inv (p(i := None)) (cs[c := x])"
proof -
  show ?thesis
  proof (rule ledger_inv_channels[OF ledger_inv_delete[OF inv]])
    fix j d c'
    assume a: "(p(i := None)) j = Some d" "pa_response_tx d = Some c'"
    then have j: "p j = Some d" "j \<noteq> i" by (auto split: if_splits)
    then have "c' \<noteq> c" using ledger_invD(4)[OF inv e(1) e(2) j(1)] a(2) by blast
    then show "c' < length (cs[c := x]) \<and> cs[c := x] ! c' = Waiting"
      using ledger_invD(2,3)[OF inv j(1) a(2)] by simp
  qed
qed

lemma ledger_inv_insert:
  assumes inv: "ledger_inv p cs" and "pq_approval_id (pa_request e) = i"
    and "pa_response_tx e = Some (length cs)"
  shows "ledger_inv (p(i \<mapsto> e)) (cs @ [Waiting])"
proof -
  have old: "c < length cs \<and> cs ! c = Waiting" if "p j = Some d" "pa_response_tx d = Some c" for j d c
    using ledger_invD(2,3)[OF inv that] by simp
  have "c < length (cs @ [Waiting]) \<and> (cs @ [Waiting]) ! c = Waiting"
    if "(p(i \<mapsto> e)) j = Some d" "pa_response_tx d = Some c" for j d c
    using that old[of j d c] assms(3) by (auto simp: nth_append split: if_splits)
  moreover have "j = k"
    if "(p(i \<mapsto> e)) j = Some d" "(p(i \<mapsto> e)) k = Some d'" "pa_response_tx d = Some c"
       "pa_response_tx d' = Some c" for j k d d' c
    using that old[of j d c] old[of k d' c] ledger_invD(4)[OF inv, of k d' c j d] assms(3)
    by (auto split: if_splits)
  moreover have "pq_approval_id (pa_request d) = j" if "(p(i \<mapsto> e)) j = Some d" for j d
    using that assms(2) ledger_invD(1)[OF inv] by (auto split: if_splits)
  ultimately show ?thesis unfolding ledger_inv_def by blast
qed

lemma length_drop_entry [simp]: "length (drop_entry old cs) = length cs"
  by (simp add: drop_entry_def split: option.splits oneshot.splits)

lemma drop_entry_other:
  "(\<And>e. old = Some e \<Longrightarrow> pa_response_tx e \<noteq> Some c) \<Longrightarrow> drop_entry old cs ! c = cs ! c"
  by (auto simp: drop_entry_def split: option.splits oneshot.splits)

lemma drop_entry_Sent: "drop_entry old cs ! c = Sent d \<longleftrightarrow> cs ! c = Sent d"
proof -
  have "cs[x := Closed] ! c = Sent d \<longleftrightarrow> cs ! c = Sent d" if "cs ! x = Waiting" for x
    using that by (cases "x = c"; cases "c < length cs") (auto simp: list_update_beyond)
  then show ?thesis by (simp add: drop_entry_def split: option.splits oneshot.splits)
qed

lemma drop_entry_append:
  "ledger_inv p cs \<Longrightarrow> drop_entry (p i) (cs @ ds) = drop_entry (p i) cs @ ds"
  by (cases "p i")
     (auto simp: drop_entry_def nth_append list_update_append dest: ledger_invD split: option.splits oneshot.splits)

lemma ledger_inv_drop: "ledger_inv p cs \<Longrightarrow> ledger_inv (p(i := None)) (drop_entry (p i) cs)"
  by (auto simp: drop_entry_def ledger_inv_delete ledger_inv_close split: option.splits oneshot.splits)

text \<open>The three operations seen through the pending map and the channels.\<close>

lemma register_sel:
  fixes s request
  defines "aid \<equiv> approval_key (ar_next_id s)"
  shows "ar_pending (fst (register request s)) =
           (ar_pending s)(aid \<mapsto> \<lparr>pa_request = fst (snd (register request s)),
                                  pa_response_tx = Some (length (ar_channels s))\<rparr>)"
    and "ar_channels (fst (register request s)) = drop_entry (ar_pending s aid) (ar_channels s @ [Waiting])"
    and "pq_approval_id (fst (snd (register request s))) = aid"
    and "pq_requesting_user_id (fst (snd (register request s))) = aq_requesting_user_id request"
    and "snd (snd (register request s)) = length (ar_channels s)"
  by (simp_all add: register_def Let_def aid_def)

lemma remove_pending_sel [simp]:
  "ar_pending (remove_pending i s) = (ar_pending s)(i := None)"
  "ar_channels (remove_pending i s) = drop_entry (ar_pending s i) (ar_channels s)"
  by (simp_all add: remove_pending_def)

lemma resolve_approval_cases:
  obtains (refused) "resolve_approval i u d s = (s, False)"
  | (taken) e where "ar_pending s i = Some e" "pq_requesting_user_id (pa_request e) = u"
      "snd (resolve_approval i u d s) = True"
      "ar_pending (fst (resolve_approval i u d s)) = (ar_pending s)(i := None)"
      "ar_channels (fst (resolve_approval i u d s)) =
         (case pa_response_tx e of None \<Rightarrow> ar_channels s | Some c \<Rightarrow> (ar_channels s)[c := Sent d])"
proof (cases "ar_pending s i")
  case None
  then show ?thesis using refused by (simp add: resolve_approval_def)
next
  case (Some e)
  then show ?thesis using refused taken[of e]
    by (cases "pq_requesting_user_id (pa_request e) = u")
       (auto simp: resolve_approval_def Let_def split: option.splits)
qed

lemma registry_inv_new: "registry_inv registry_new"
  by (simp add: registry_inv_def ledger_inv_def registry_new_def)

lemma registry_inv_register: "registry_inv s \<Longrightarrow> registry_inv (fst (register request s))"
  using ledger_inv_insert[OF ledger_inv_drop[of "ar_pending s" "ar_channels s" "approval_key (ar_next_id s)"],
      where e = "\<lparr>pa_request = fst (snd (register request s)), pa_response_tx = Some (length (ar_channels s))\<rparr>"
        and i = "approval_key (ar_next_id s)"]
  by (simp add: registry_inv_def register_sel drop_entry_append)

lemma registry_inv_remove: "registry_inv s \<Longrightarrow> registry_inv (remove_pending i s)"
  by (simp add: registry_inv_def ledger_inv_drop)

lemma registry_inv_resolve:
  assumes "registry_inv s"
  shows "registry_inv (fst (resolve_approval i u d s))"
proof (cases rule: resolve_approval_cases[of i u d s])
  case refused
  then show ?thesis using assms by simp
next
  case (taken e)
  then show ?thesis using assms ledger_inv_close[of "ar_pending s" "ar_channels s" i e]
    by (cases "pa_response_tx e") (simp_all add: registry_inv_def ledger_inv_delete)
qed

lemma registry_inv_step: "registry_inv s \<Longrightarrow> registry_inv (approval_step oper s)"
  by (cases oper)
     (simp_all add: approval_step_def registry_inv_register registry_inv_remove registry_inv_resolve)

lemma approval_run_simps [simp]:
  "approval_run [] s = s"
  "approval_run (oper # ops) s = approval_run ops (approval_step oper s)"
  by (simp_all add: approval_run_def)

lemma registry_inv_run: "registry_inv s \<Longrightarrow> registry_inv (approval_run ops s)"
  by (induction ops arbitrary: s) (simp_all add: registry_inv_step)

section \<open>Who decides\<close>

text \<open>The custody of a channel: only the entry of its own request can send on it.\<close>

definition custody :: "rstr \<Rightarrow> rstr \<Rightarrow> nat \<Rightarrow> approval_registry \<Rightarrow> bool" where
  "custody aid user rx s \<longleftrightarrow>
     registry_inv s \<and> rx < length (ar_channels s) \<and>
     (\<forall>i e. ar_pending s i = Some e \<longrightarrow> pa_response_tx e = Some rx \<longrightarrow>
        i = aid \<and> pq_requesting_user_id (pa_request e) = user)"

lemma custody_register:
  assumes "registry_inv s"
  shows "custody (approval_key (ar_next_id s)) (aq_requesting_user_id request)
           (snd (snd (register request s))) (fst (register request s))"
    and "ar_channels (fst (register request s)) ! snd (snd (register request s)) = Waiting"
proof -
  note inv = assms[unfolded registry_inv_def]
  show "ar_channels (fst (register request s)) ! snd (snd (register request s)) = Waiting"
    by (simp add: register_sel drop_entry_append[OF inv] nth_append)
  show "custody (approval_key (ar_next_id s)) (aq_requesting_user_id request)
           (snd (snd (register request s))) (fst (register request s))"
    using registry_inv_register[OF assms] ledger_invD(2)[OF inv]
    by (fastforce simp: custody_def register_sel split: if_splits)
qed

lemma custody_step:
  assumes c: "custody aid user rx s"
  shows "custody aid user rx (approval_step oper s)"
    and "ar_channels (approval_step oper s) ! rx = Sent d \<Longrightarrow>
         ar_channels s ! rx = Sent d \<or> oper = OpResolve aid user d"
proof -
  have inv: "registry_inv s" and len: "rx < length (ar_channels s)"
    and own: "\<And>i e. ar_pending s i = Some e \<Longrightarrow> pa_response_tx e = Some rx \<Longrightarrow>
        i = aid \<and> pq_requesting_user_id (pa_request e) = user"
    using c by (auto simp: custody_def)
  note drop = drop_entry_append[OF inv[unfolded registry_inv_def]]
  have "registry_inv (approval_step oper s)" by (rule registry_inv_step[OF inv])
  moreover have "rx < length (ar_channels (approval_step oper s)) \<and>
      (\<forall>i e. ar_pending (approval_step oper s) i = Some e \<longrightarrow> pa_response_tx e = Some rx \<longrightarrow>
        i = aid \<and> pq_requesting_user_id (pa_request e) = user) \<and>
      (ar_channels (approval_step oper s) ! rx = Sent d \<longrightarrow>
         ar_channels s ! rx = Sent d \<or> oper = OpResolve aid user d)" for d
  proof (cases oper)
    case (OpRegister request)
    then show ?thesis using len own
      by (auto simp: approval_step_def register_sel drop nth_append drop_entry_Sent)
  next
    case (OpResolve i u d')
    show ?thesis
    proof (cases rule: resolve_approval_cases[of i u d' s])
      case refused
      then show ?thesis using OpResolve len own by (simp add: approval_step_def)
    next
      case (taken e)
      show ?thesis
      proof (cases "pa_response_tx e = Some rx")
        case True
        then show ?thesis using OpResolve len own[of i e] own taken
          by (auto simp: approval_step_def split: if_splits)
      next
        case False
        then show ?thesis using OpResolve len own taken
          by (cases "pa_response_tx e") (auto simp: approval_step_def split: if_splits)
      qed
    qed
  next
    case (OpRemove i)
    then show ?thesis using len own by (auto simp: approval_step_def drop_entry_Sent)
  qed
  ultimately show "custody aid user rx (approval_step oper s)"
    and "ar_channels (approval_step oper s) ! rx = Sent d \<Longrightarrow>
         ar_channels s ! rx = Sent d \<or> oper = OpResolve aid user d"
    unfolding custody_def by blast+
qed

lemma custody_run:
  "custody aid user rx s \<Longrightarrow> ar_channels (approval_run ops s) ! rx = Sent d \<Longrightarrow>
   ar_channels s ! rx = Sent d \<or> OpResolve aid user d \<in> set ops"
proof (induction ops arbitrary: s)
  case Nil
  then show ?case by simp
next
  case (Cons oper ops)
  then show ?case using custody_step[OF Cons.prems(1)] by fastforce
qed

lemma wait_for_decision_Approved:
  assumes "custody aid user rx s" and "ar_channels s ! rx = Waiting"
    and "wait_for_decision aid rx elapsed before between s = (s', Some Approved)"
  shows "OpResolve aid user Approved \<in> set before"
proof -
  have "ar_channels (approval_run before s) ! rx = Sent Approved"
    using assms(3)
    by (simp add: wait_for_decision_def wait_outcome_def Let_def split: oneshot.splits if_splits)
  then show ?thesis using custody_run[OF assms(1)] assms(2) by fastforce
qed

text \<open>The settled channel: nobody can send on it any more.\<close>

definition settled :: "nat \<Rightarrow> approval_registry \<Rightarrow> bool" where
  "settled rx s \<longleftrightarrow> registry_inv s \<and> rx < length (ar_channels s) \<and>
     (\<forall>i e. ar_pending s i = Some e \<longrightarrow> pa_response_tx e \<noteq> Some rx)"

lemma settled_step:
  assumes "settled rx s"
  shows "settled rx (approval_step oper s)"
    and "ar_channels (approval_step oper s) ! rx = ar_channels s ! rx"
proof -
  have inv: "registry_inv s" and len: "rx < length (ar_channels s)"
    and own: "\<And>i e. ar_pending s i = Some e \<Longrightarrow> pa_response_tx e \<noteq> Some rx"
    using assms by (auto simp: settled_def)
  note drop = drop_entry_append[OF inv[unfolded registry_inv_def]]
  have "rx < length (ar_channels (approval_step oper s)) \<and>
     (\<forall>i e. ar_pending (approval_step oper s) i = Some e \<longrightarrow> pa_response_tx e \<noteq> Some rx) \<and>
     ar_channels (approval_step oper s) ! rx = ar_channels s ! rx"
  proof (cases oper)
    case (OpRegister request)
    then show ?thesis using len own
      by (auto simp: approval_step_def register_sel drop nth_append drop_entry_other)
  next
    case (OpResolve j u d')
    show ?thesis
    proof (cases rule: resolve_approval_cases[of j u d' s])
      case refused
      then show ?thesis using OpResolve len own by (simp add: approval_step_def)
    next
      case (taken e')
      then show ?thesis using OpResolve len own own[OF taken(1)]
        by (cases "pa_response_tx e'") (auto simp: approval_step_def)
    qed
  next
    case (OpRemove j)
    then show ?thesis using len own by (auto simp: approval_step_def drop_entry_other)
  qed
  then show "settled rx (approval_step oper s)"
    and "ar_channels (approval_step oper s) ! rx = ar_channels s ! rx"
    using registry_inv_step[OF inv] by (simp_all add: settled_def)
qed

lemma settled_run: "settled rx s \<Longrightarrow> ar_channels (approval_run ops s) ! rx = ar_channels s ! rx"
  by (induction ops arbitrary: s) (simp_all add: settled_step)

lemma resolve_settles:
  assumes inv: "registry_inv s" and e: "ar_pending s aid = Some e" "pa_response_tx e = Some rx"
    and r: "resolve_approval aid u d s = (s', True)"
  shows "settled rx s' \<and> ar_channels s' ! rx = Sent d \<and> u = pq_requesting_user_id (pa_request e)"
proof -
  have s': "s' = s\<lparr>ar_pending := (ar_pending s)(aid := None), ar_channels := (ar_channels s)[rx := Sent d]\<rparr>"
    and u: "u = pq_requesting_user_id (pa_request e)"
    using r e by (auto simp: resolve_approval_def Let_def split: if_splits)
  note l = inv[unfolded registry_inv_def]
  have "registry_inv s'" using registry_inv_resolve[OF inv, of aid u d] r by simp
  then show ?thesis using u ledger_invD(2)[OF l e] ledger_invD(4)[OF l e(1) e(2)]
    by (auto simp: settled_def s' split: if_splits)
qed

section \<open>The contract of a requester\<close>

text \<open>
  What tool execution relies on: a requester answers \<open>Approved\<close> only when the user the
  request names has approved that request. \<open>answer\<close> gives the answer in a context (the
  state of the registry and what other tasks do meanwhile), \<open>consented\<close> says that the user
  approved there.
\<close>

locale approval_requester =
  fixes answer :: "'ctx \<Rightarrow> approval_request \<Rightarrow> approval_decision res option"
    and consented :: "'ctx \<Rightarrow> approval_request \<Rightarrow> bool"
  assumes approved_consented: "answer ctx request = Some (Inr Approved) \<Longrightarrow> consented ctx request"
begin

lemma no_consent_no_approval:
  "\<not> consented ctx request \<Longrightarrow> answer ctx request \<noteq> Some (Inr Approved)"
  using approved_consented by blast

end

record gateway_context =
  gx_registry :: approval_registry
  gx_send_result :: "rstr option res"
  gx_before :: "approval_op list"
  gx_between :: "approval_op list"
  gx_elapsed :: bool

definition gateway_answer :: "gateway_context \<Rightarrow> approval_request \<Rightarrow> approval_decision res option" where
  "gateway_answer ctx request =
     (if registry_inv (gx_registry ctx)
      then fst (snd (request_approval_gateway (gx_send_result ctx) (gx_before ctx) (gx_between ctx)
                       (gx_elapsed ctx) request (gx_registry ctx)))
      else None)"

definition gateway_consented :: "gateway_context \<Rightarrow> approval_request \<Rightarrow> bool" where
  "gateway_consented ctx request \<longleftrightarrow>
     OpResolve (approval_key (ar_next_id (gx_registry ctx))) (aq_requesting_user_id request) Approved
       \<in> set (gx_before ctx)"

lemma gateway_approved:
  assumes "registry_inv s"
    and "request_approval_gateway send before between elapsed request s = (s', Some (Inr Approved), m)"
  shows "OpResolve (approval_key (ar_next_id s)) (aq_requesting_user_id request) Approved \<in> set before"
proof -
  obtain s1 p rx where r: "register request s = (s1, p, rx)" by (cases "register request s") auto
  have p: "pq_approval_id p = approval_key (ar_next_id s)" using register_sel(3)[of request s] r by simp
  from assms(2) r obtain d s2 where
    "wait_for_decision (pq_approval_id p) rx elapsed before between s1 = (s2, Some d)" "d = Approved"
    by (auto simp: request_approval_gateway_def split: sum.splits prod.splits option.splits)
  then show ?thesis
    using wait_for_decision_Approved custody_register[OF assms(1), of request] r p by fastforce
qed

interpretation gateway: approval_requester gateway_answer gateway_consented
proof
  fix ctx request
  assume "gateway_answer ctx request = Some (Inr Approved)"
  then show "gateway_consented ctx request"
    using gateway_approved[of "gx_registry ctx" "gx_send_result ctx" "gx_before ctx" "gx_between ctx"
        "gx_elapsed ctx" request]
    unfolding gateway_answer_def gateway_consented_def
    by (metis option.distinct(1) prod.collapse)
qed

interpretation unavailable: approval_requester
  "\<lambda>s request. fst (snd (request_approval_unavailable request s))" "\<lambda>s request. False"
  by unfold_locales (simp add: request_approval_unavailable_def)

text \<open>
  C3. Only the requesting user can approve: whatever registry operations other tasks
  interleave, a gateway request answers \<open>Approved\<close> only if the user who started the turn
  has resolved exactly this approval id with \<open>Approved\<close> while the request was waiting.
\<close>

theorem approved_only_by_requester:
  assumes "registry_inv s"
    and "request_approval_gateway send before between elapsed request s = (s', Some (Inr Approved), m)"
  shows "OpResolve (approval_key (ar_next_id s)) (aq_requesting_user_id request) Approved \<in> set before"
  by (rule gateway_approved[OF assms])

abbreviation sample_request :: approval_request where
  "sample_request \<equiv> \<lparr>aq_agent_id = ''a'', aq_agent_name = ''A'', aq_session_id = ''s'',
     aq_requesting_user_id = ''u'', aq_tool_name = ''exec'', aq_execution_kind = ''wasm_sandbox'',
     aq_capability = CapWrite, aq_reason = ''r'', aq_action_summary = ''x'', aq_diagnostic = ''d''\<rparr>"

lemma sample_approved:
  "fst (snd (request_approval_gateway (Inr None) [OpResolve ''approval-1'' ''v'' Denied, OpResolve ''approval-1'' ''u'' Approved]
     [] False sample_request registry_new)) = Some (Inr Approved)"
  by (simp add: request_approval_gateway_def register_def approval_key_def registry_new_def
      wait_for_decision_def wait_outcome_def approval_step_def resolve_approval_def drop_entry_def
      Let_def str_simps)

theorem approved_only_by_requester_witness:
  "OpResolve (approval_key (ar_next_id registry_new)) ''u'' Approved
     \<in> set [OpResolve ''approval-1'' ''v'' Denied, OpResolve ''approval-1'' ''u'' Approved]"
proof -
  obtain s' m where "request_approval_gateway (Inr None)
      [OpResolve ''approval-1'' ''v'' Denied, OpResolve ''approval-1'' ''u'' Approved] [] False
      sample_request registry_new = (s', Some (Inr Approved), m)"
    using sample_approved by (metis prod.collapse)
  from approved_only_by_requester[OF registry_inv_new this] show ?thesis by simp
qed

text \<open>
  An accepted resolution is final: once the registry has accepted a decision for a
  pending approval (which only its requesting user can obtain), the requester that polls
  its channel later gets that decision, whatever else is registered, resolved or removed in
  between, and even if the timeout has elapsed by then.
\<close>

theorem accepted_resolution_is_final:
  assumes "registry_inv s" and "ar_pending s aid = Some e" and "pa_response_tx e = Some rx"
    and "resolve_approval aid u d s = (s', True)"
  shows "u = pq_requesting_user_id (pa_request e) \<and> wait_outcome rx elapsed (approval_run ops s') = Some d"
  using resolve_settles[OF assms] settled_run[of rx s' ops] by (simp add: wait_outcome_def)

theorem accepted_resolution_is_final_witness:
  "wait_outcome 0 True (approval_run [OpResolve ''approval-1'' ''u'' Approved, OpRegister sample_request]
     (fst (resolve_approval ''approval-1'' ''u'' Denied (fst (register sample_request registry_new))))) = Some Denied"
proof -
  let ?s = "fst (register sample_request registry_new)"
  have "registry_inv ?s" by (rule registry_inv_register[OF registry_inv_new])
  moreover have "ar_pending ?s ''approval-1'' =
      Some \<lparr>pa_request = fst (snd (register sample_request registry_new)), pa_response_tx = Some 0\<rparr>"
    by (simp add: register_def registry_new_def approval_key_def Let_def str_simps)
  moreover have "resolve_approval ''approval-1'' ''u'' Denied ?s = (fst (resolve_approval ''approval-1'' ''u'' Denied ?s), True)"
    by (simp add: register_def registry_new_def approval_key_def resolve_approval_def Let_def str_simps)
  ultimately show ?thesis
    by (intro accepted_resolution_is_final[THEN conjunct2, rotated 2]) (auto simp del: approval_run_simps)
qed

text \<open>
  What a request leaves in the registry, on every branch: when it returns a decision,
  nothing is pending under its id any more, and a message to delete is reported only on a
  timeout; when the prompt could not be sent, the request fails with that error but stays
  pending, still resolvable, with nobody waiting for it.
\<close>

theorem request_approval_leaves:
  "case request_approval_gateway send before between elapsed request s of
     (s', Some (Inr d), m) \<Rightarrow>
        pending_request (approval_key (ar_next_id s)) s' = None \<and> (if d = TimedOut then send = Inr m else m = None)
   | (s', Some (Inl e), m) \<Rightarrow>
        send = Inl e \<and> m = None \<and>
        pending_request (approval_key (ar_next_id s)) s' = Some (fst (snd (register request s)))
   | (s', None, m) \<Rightarrow> m = None \<and> \<not> elapsed"
proof -
  obtain s1 p rx where r: "register request s = (s1, p, rx)" by (cases "register request s") auto
  have p: "pq_approval_id p = approval_key (ar_next_id s)" using register_sel(3)[of request s] r by simp
  show ?thesis
    using register_sel(1)[of request s] r p
    by (auto simp: request_approval_gateway_def wait_for_decision_def wait_outcome_def Let_def
        pending_request_def split: sum.splits option.splits oneshot.splits)
qed

end
