(* ===== verification/Coordinator.thy ===== *)
theory Coordinator
  imports Prelude "HOL-Library.Sublist" "HOL-Library.Multiset"
begin

text \<open>
  \<open>src/run/session.rs\<close>: the coordinator that runs one worker task per session key. A
  state holds the map of workers, the worker tasks and the calls of \<open>dispatch\<close> in flight;
  an event is one atomic step of one task (a locked section, a channel operation or a
  timer), so that a run is any interleaving of them. A worker's channel is the index of
  its task. \<open>co_accepted\<close> and \<open>co_handled\<close> record the order of successful sends and of
  completed handler calls, and influence nothing.
\<close>

section \<open>State\<close>

datatype 'm worker_phase =
    Idle             \<comment> \<open>waiting in \<open>recv\<close> under the idle timeout\<close>
  | Busy 'm          \<comment> \<open>running the handler\<close>
  | Leaving          \<comment> \<open>out of the loop, its entry not yet removed\<close>
  | Unlisted         \<comment> \<open>its entry removed, its receiver not yet dropped\<close>
  | Gone             \<comment> \<open>its receiver dropped: sends fail\<close>

record 'm worker =
  wk_key :: rstr
  wk_id :: nat
  wk_queue :: "'m list"
  wk_phase :: "'m worker_phase"

text \<open>The progress of a call of \<open>dispatch\<close>, with its attempt number.\<close>

datatype call_state =
    Asking nat
  | Holding nat nat nat   \<comment> \<open>attempt, worker id, channel\<close>
  | Failing nat nat
  | Answered bool

record 'm dispatch_call =
  dc_key :: rstr
  dc_message :: 'm
  dc_state :: call_state

record 'm coordinator =
  co_workers :: "rstr \<rightharpoonup> nat \<times> nat"   \<comment> \<open>id and channel\<close>
  co_next_id :: nat
  co_tasks :: "'m worker list"
  co_calls :: "'m dispatch_call list"
  co_accepted :: "(rstr \<times> 'm) list"
  co_handled :: "(rstr \<times> 'm) list"

definition coordinator_new :: "'m coordinator" where
  "coordinator_new = \<lparr>co_workers = Map.empty, co_next_id = 1, co_tasks = [], co_calls = [],
     co_accepted = [], co_handled = []\<rparr>"

section \<open>The locked sections\<close>

definition worker_sender_for_key :: "rstr \<Rightarrow> 'm coordinator \<Rightarrow> 'm coordinator \<times> nat \<times> nat" where
  "worker_sender_for_key key s =
     (case co_workers s key of
        Some existing \<Rightarrow> (s, existing)
      | None \<Rightarrow>
          (let worker_id = co_next_id s; tx = length (co_tasks s) in
           (s\<lparr>co_next_id := (co_next_id s + 1) mod 2 ^ 64,
              co_workers := (co_workers s)(key \<mapsto> (worker_id, tx)),
              co_tasks := co_tasks s @ [\<lparr>wk_key = key, wk_id = worker_id, wk_queue = [], wk_phase = Idle\<rparr>]\<rparr>,
            worker_id, tx)))"

definition remove_worker_if_matches :: "rstr \<Rightarrow> nat \<Rightarrow> 'm coordinator \<Rightarrow> 'm coordinator" where
  "remove_worker_if_matches key expected_worker_id s =
     (if (case co_workers s key of None \<Rightarrow> False | Some entry \<Rightarrow> fst entry = expected_worker_id)
      then s\<lparr>co_workers := (co_workers s)(key := None)\<rparr> else s)"

definition remove_worker :: "rstr \<Rightarrow> 'm coordinator \<Rightarrow> 'm coordinator" where
  "remove_worker key s = s\<lparr>co_workers := (co_workers s)(key := None)\<rparr>"

definition set_task :: "nat \<Rightarrow> ('m worker \<Rightarrow> 'm worker) \<Rightarrow> 'm coordinator \<Rightarrow> 'm coordinator" where
  "set_task p f s = s\<lparr>co_tasks := (co_tasks s)[p := f (co_tasks s ! p)]\<rparr>"

definition set_call :: "nat \<Rightarrow> call_state \<Rightarrow> 'm coordinator \<Rightarrow> 'm coordinator" where
  "set_call c st s = s\<lparr>co_calls := (co_calls s)[c := (co_calls s ! c)\<lparr>dc_state := st\<rparr>]\<rparr>"

text \<open>\<open>UnboundedSender::send\<close> fails exactly when the receiver has been dropped.\<close>

definition try_send :: "nat \<Rightarrow> 'm \<Rightarrow> 'm coordinator \<Rightarrow> 'm coordinator option" where
  "try_send p m s =
     (if wk_phase (co_tasks s ! p) = Gone then None
      else Some ((set_task p (\<lambda>w. w\<lparr>wk_queue := wk_queue w @ [m]\<rparr>) s)
                   \<lparr>co_accepted := co_accepted s @ [(wk_key (co_tasks s ! p), m)]\<rparr>))"

section \<open>Steps\<close>

datatype 'm coord_event =
    Dispatch rstr 'm | Lookup nat | Send nat | Cleanup nat
  | Remove rstr
  | Receive nat | Finish nat | Panic nat | TimeOut nat | Disconnected nat | Unlist nat | Exit nat

text \<open>\<open>dispatch\<close>: up to two attempts, each a lookup and a send, and a clean-up after a failed send.\<close>

definition call_step :: "'m coord_event \<Rightarrow> 'm coordinator \<Rightarrow> 'm coordinator option" where
  "call_step ev s =
     (case ev of
        Dispatch key m \<Rightarrow>
          Some (s\<lparr>co_calls := co_calls s @ [\<lparr>dc_key = key, dc_message = m, dc_state = Asking 0\<rparr>]\<rparr>)
      | Lookup c \<Rightarrow>
          (if c < length (co_calls s) then
             (case dc_state (co_calls s ! c) of
                Asking attempt \<Rightarrow>
                  (let (s', worker_id, tx) = worker_sender_for_key (dc_key (co_calls s ! c)) s
                   in Some (set_call c (Holding attempt worker_id tx) s'))
              | _ \<Rightarrow> None)
           else None)
      | Send c \<Rightarrow>
          (if c < length (co_calls s) then
             (case dc_state (co_calls s ! c) of
                Holding attempt worker_id tx \<Rightarrow>
                  (case try_send tx (dc_message (co_calls s ! c)) s of
                     Some s' \<Rightarrow> Some (set_call c (Answered True) s')
                   | None \<Rightarrow> Some (set_call c (Failing attempt worker_id) s))
              | _ \<Rightarrow> None)
           else None)
      | Cleanup c \<Rightarrow>
          (if c < length (co_calls s) then
             (case dc_state (co_calls s ! c) of
                Failing attempt worker_id \<Rightarrow>
                  (let s' = remove_worker_if_matches (dc_key (co_calls s ! c)) worker_id s
                   in Some (set_call c (if attempt = 1 then Answered False else Asking (attempt + 1)) s'))
              | _ \<Rightarrow> None)
           else None)
      | Remove key \<Rightarrow> Some (remove_worker key s)
      | _ \<Rightarrow> None)"

text \<open>
  The task of \<open>spawn_worker\<close>. Its \<open>recv\<close> is polled before the timer, so that it times out
  only with an empty queue; \<open>recv\<close> ends the loop once the queue is empty and no sender is
  left, neither in the map nor with a call. A handler that panics ends its task at once: the
  receiver is dropped with the messages in it, and the entry of the key stays in the map. The
  messages that went with a task are kept as its queue.
\<close>

definition sender_left :: "nat \<Rightarrow> 'm coordinator \<Rightarrow> bool" where
  "sender_left p s \<longleftrightarrow>
     list_ex (\<lambda>c. case dc_state c of Holding a i tx \<Rightarrow> tx = p | _ \<Rightarrow> False) (co_calls s) \<or>
     (case co_workers s (wk_key (co_tasks s ! p)) of Some w \<Rightarrow> snd w = p | None \<Rightarrow> False)"

definition task_step :: "'m coord_event \<Rightarrow> 'm coordinator \<Rightarrow> 'm coordinator option" where
  "task_step ev s =
     (case ev of
        Receive p \<Rightarrow>
          (if p < length (co_tasks s) \<and> wk_phase (co_tasks s ! p) = Idle then
             (case wk_queue (co_tasks s ! p) of
                m # rest \<Rightarrow> Some (set_task p (\<lambda>w. w\<lparr>wk_queue := rest, wk_phase := Busy m\<rparr>) s)
              | [] \<Rightarrow> None)
           else None)
      | Finish p \<Rightarrow>
          (if p < length (co_tasks s) then
             (case wk_phase (co_tasks s ! p) of
                Busy m \<Rightarrow> Some ((set_task p (\<lambda>w. w\<lparr>wk_phase := Idle\<rparr>) s)
                                  \<lparr>co_handled := co_handled s @ [(wk_key (co_tasks s ! p), m)]\<rparr>)
              | _ \<Rightarrow> None)
           else None)
      | Panic p \<Rightarrow>
          (if p < length (co_tasks s) then
             (case wk_phase (co_tasks s ! p) of
                Busy m \<Rightarrow> Some (set_task p (\<lambda>w. w\<lparr>wk_queue := m # wk_queue w, wk_phase := Gone\<rparr>) s)
              | _ \<Rightarrow> None)
           else None)
      | TimeOut p \<Rightarrow>
          (if p < length (co_tasks s) \<and> wk_phase (co_tasks s ! p) = Idle \<and> wk_queue (co_tasks s ! p) = []
           then Some (set_task p (\<lambda>w. w\<lparr>wk_phase := Leaving\<rparr>) s) else None)
      | Disconnected p \<Rightarrow>
          (if p < length (co_tasks s) \<and> wk_phase (co_tasks s ! p) = Idle \<and> wk_queue (co_tasks s ! p) = [] \<and>
              \<not> sender_left p s
           then Some (set_task p (\<lambda>w. w\<lparr>wk_phase := Leaving\<rparr>) s) else None)
      | Unlist p \<Rightarrow>
          (if p < length (co_tasks s) \<and> wk_phase (co_tasks s ! p) = Leaving
           then Some (set_task p (\<lambda>w. w\<lparr>wk_phase := Unlisted\<rparr>)
                       (remove_worker_if_matches (wk_key (co_tasks s ! p)) (wk_id (co_tasks s ! p)) s))
           else None)
      | Exit p \<Rightarrow>
          (if p < length (co_tasks s) \<and> wk_phase (co_tasks s ! p) = Unlisted
           then Some (set_task p (\<lambda>w. w\<lparr>wk_phase := Gone\<rparr>) s) else None)
      | _ \<Rightarrow> None)"

definition coord_step :: "'m coord_event \<Rightarrow> 'm coordinator \<Rightarrow> 'm coordinator option" where
  "coord_step ev s = (case call_step ev s of Some s' \<Rightarrow> Some s' | None \<Rightarrow> task_step ev s)"

text \<open>Reachable states, with or without external removals of keys.\<close>

inductive coord_reach :: "bool \<Rightarrow> 'm coordinator \<Rightarrow> bool" for removals :: bool where
  initial: "coord_reach removals coordinator_new"
| step: "coord_reach removals s \<Longrightarrow> coord_step ev s = Some s' \<Longrightarrow>
         (case ev of Remove k \<Rightarrow> removals | _ \<Rightarrow> True) \<Longrightarrow> coord_reach removals s'"

fun coord_run :: "'m coord_event list \<Rightarrow> 'm coordinator \<Rightarrow> 'm coordinator option" where
  "coord_run [] s = Some s"
| "coord_run (ev # evs) s = (case coord_step ev s of None \<Rightarrow> None | Some s' \<Rightarrow> coord_run evs s')"

section \<open>Case analysis of a step\<close>

definition running :: "'m worker \<Rightarrow> bool" where
  "running w = (case wk_phase w of Idle \<Rightarrow> True | Busy m \<Rightarrow> True | _ \<Rightarrow> False)"

text \<open>Every step changes one task, or adds a task, or changes only calls and the map.\<close>

lemma coord_step_cases:
  assumes "coord_step ev s = Some s'"
  obtains
    (dispatch) k m where "ev = Dispatch k m"
      "s' = s\<lparr>co_calls := co_calls s @ [\<lparr>dc_key = k, dc_message = m, dc_state = Asking 0\<rparr>]\<rparr>"
  | (found) c a i p where "ev = Lookup c" "c < length (co_calls s)"
      "dc_state (co_calls s ! c) = Asking a" "co_workers s (dc_key (co_calls s ! c)) = Some (i, p)"
      "s' = set_call c (Holding a i p) s"
  | (spawn) c a where "ev = Lookup c" "c < length (co_calls s)"
      "dc_state (co_calls s ! c) = Asking a" "co_workers s (dc_key (co_calls s ! c)) = None"
      "s' = set_call c (Holding a (co_next_id s) (length (co_tasks s)))
         (s\<lparr>co_next_id := (co_next_id s + 1) mod 2 ^ 64,
            co_workers := (co_workers s)(dc_key (co_calls s ! c) \<mapsto> (co_next_id s, length (co_tasks s))),
            co_tasks := co_tasks s @ [\<lparr>wk_key = dc_key (co_calls s ! c), wk_id = co_next_id s,
                                       wk_queue = [], wk_phase = Idle\<rparr>]\<rparr>)"
  | (sent) c a i p where "ev = Send c" "c < length (co_calls s)"
      "dc_state (co_calls s ! c) = Holding a i p" "wk_phase (co_tasks s ! p) \<noteq> Gone"
      "s' = set_call c (Answered True)
         ((set_task p (\<lambda>w. w\<lparr>wk_queue := wk_queue w @ [dc_message (co_calls s ! c)]\<rparr>) s)
            \<lparr>co_accepted := co_accepted s @ [(wk_key (co_tasks s ! p), dc_message (co_calls s ! c))]\<rparr>)"
  | (unsent) c a i p where "ev = Send c" "c < length (co_calls s)"
      "dc_state (co_calls s ! c) = Holding a i p" "wk_phase (co_tasks s ! p) = Gone"
      "s' = set_call c (Failing a i) s"
  | (cleanup) c a i where "ev = Cleanup c" "c < length (co_calls s)"
      "dc_state (co_calls s ! c) = Failing a i"
      "s' = set_call c (if a = 1 then Answered False else Asking (a + 1))
              (remove_worker_if_matches (dc_key (co_calls s ! c)) i s)"
  | (remove) k where "ev = Remove k" "s' = remove_worker k s"
  | (receive) p m q where "ev = Receive p" "p < length (co_tasks s)" "wk_phase (co_tasks s ! p) = Idle"
      "wk_queue (co_tasks s ! p) = m # q"
      "s' = set_task p (\<lambda>w. w\<lparr>wk_queue := q, wk_phase := Busy m\<rparr>) s"
  | (finish) p m where "ev = Finish p" "p < length (co_tasks s)" "wk_phase (co_tasks s ! p) = Busy m"
      "s' = (set_task p (\<lambda>w. w\<lparr>wk_phase := Idle\<rparr>) s)
              \<lparr>co_handled := co_handled s @ [(wk_key (co_tasks s ! p), m)]\<rparr>"
  | (panicked) p m where "ev = Panic p" "p < length (co_tasks s)" "wk_phase (co_tasks s ! p) = Busy m"
      "s' = set_task p (\<lambda>w. w\<lparr>wk_queue := m # wk_queue w, wk_phase := Gone\<rparr>) s"
  | (leave) p where "ev = TimeOut p \<or> ev = Disconnected p" "p < length (co_tasks s)"
      "wk_phase (co_tasks s ! p) = Idle" "wk_queue (co_tasks s ! p) = []"
      "s' = set_task p (\<lambda>w. w\<lparr>wk_phase := Leaving\<rparr>) s"
  | (unlist) p where "ev = Unlist p" "p < length (co_tasks s)" "wk_phase (co_tasks s ! p) = Leaving"
      "s' = set_task p (\<lambda>w. w\<lparr>wk_phase := Unlisted\<rparr>)
              (remove_worker_if_matches (wk_key (co_tasks s ! p)) (wk_id (co_tasks s ! p)) s)"
  | (exit) p where "ev = Exit p" "p < length (co_tasks s)" "wk_phase (co_tasks s ! p) = Unlisted"
      "s' = set_task p (\<lambda>w. w\<lparr>wk_phase := Gone\<rparr>) s"
proof (cases ev)
  case (Lookup c)
  then show ?thesis using assms found spawn
    by (auto simp: coord_step_def call_step_def task_step_def worker_sender_for_key_def Let_def
        split: if_splits call_state.splits option.splits)
next
  case (Send c)
  then show ?thesis using assms sent unsent
    by (auto simp: coord_step_def call_step_def task_step_def try_send_def
        split: if_splits call_state.splits)
qed (use assms dispatch cleanup remove receive finish panicked leave unlist exit in
      \<open>auto simp: coord_step_def call_step_def task_step_def Let_def
        split: if_splits call_state.splits worker_phase.splits list.splits\<close>)

lemma set_task_sel [simp]:
  "co_workers (set_task p f s) = co_workers s" "co_next_id (set_task p f s) = co_next_id s"
  "co_tasks (set_task p f s) = (co_tasks s)[p := f (co_tasks s ! p)]"
  "co_calls (set_task p f s) = co_calls s" "co_accepted (set_task p f s) = co_accepted s"
  "co_handled (set_task p f s) = co_handled s"
  by (simp_all add: set_task_def)

lemma set_call_sel [simp]:
  "co_workers (set_call c st s) = co_workers s" "co_next_id (set_call c st s) = co_next_id s"
  "co_tasks (set_call c st s) = co_tasks s"
  "co_calls (set_call c st s) = (co_calls s)[c := (co_calls s ! c)\<lparr>dc_state := st\<rparr>]"
  "co_accepted (set_call c st s) = co_accepted s" "co_handled (set_call c st s) = co_handled s"
  by (simp_all add: set_call_def)

lemma remove_worker_if_matches_sel [simp]:
  "co_next_id (remove_worker_if_matches k i s) = co_next_id s"
  "co_tasks (remove_worker_if_matches k i s) = co_tasks s"
  "co_calls (remove_worker_if_matches k i s) = co_calls s"
  "co_accepted (remove_worker_if_matches k i s) = co_accepted s"
  "co_handled (remove_worker_if_matches k i s) = co_handled s"
  "co_workers (remove_worker_if_matches k i s) j =
     (case co_workers s j of Some w \<Rightarrow> if j = k \<and> fst w = i then None else Some w | None \<Rightarrow> None)"
  by (auto simp: remove_worker_if_matches_def split: option.splits)

lemma remove_worker_sel [simp]:
  "co_next_id (remove_worker k s) = co_next_id s" "co_tasks (remove_worker k s) = co_tasks s"
  "co_calls (remove_worker k s) = co_calls s" "co_accepted (remove_worker k s) = co_accepted s"
  "co_handled (remove_worker k s) = co_handled s"
  "co_workers (remove_worker k s) = (co_workers s)(k := None)"
  by (simp_all add: remove_worker_def)

section \<open>Structural invariant\<close>

text \<open>
  Every channel in the map or held by a call belongs to a task with that key and id, and a
  call that failed to send met a task that is gone.
\<close>

definition call_ok :: "'m worker list \<Rightarrow> 'm dispatch_call \<Rightarrow> bool" where
  "call_ok ts c =
     (case dc_state c of
        Holding a i p \<Rightarrow> p < length ts \<and> wk_id (ts ! p) = i \<and> wk_key (ts ! p) = dc_key c
      | Failing a i \<Rightarrow> (\<exists>p<length ts. wk_id (ts ! p) = i \<and> wk_phase (ts ! p) = Gone)
      | _ \<Rightarrow> True)"

definition coord_inv :: "'m coordinator \<Rightarrow> bool" where
  "coord_inv s \<longleftrightarrow>
     (\<forall>k i p. co_workers s k = Some (i, p) \<longrightarrow>
        p < length (co_tasks s) \<and> wk_key (co_tasks s ! p) = k \<and> wk_id (co_tasks s ! p) = i) \<and>
     (\<forall>p<length (co_tasks s). wk_id (co_tasks s ! p) = Suc p mod 2 ^ 64) \<and>
     co_next_id s = Suc (length (co_tasks s)) mod 2 ^ 64 \<and>
     (\<forall>c\<in>set (co_calls s). call_ok (co_tasks s) c)"

text \<open>Tasks only advance: they keep key and id, and a task that is gone stays gone.\<close>

definition tasks_advance :: "'m worker list \<Rightarrow> 'm worker list \<Rightarrow> bool" where
  "tasks_advance ts us \<longleftrightarrow> length ts \<le> length us \<and>
     (\<forall>p<length ts. wk_key (us ! p) = wk_key (ts ! p) \<and> wk_id (us ! p) = wk_id (ts ! p) \<and>
        (wk_phase (ts ! p) = Gone \<longrightarrow> wk_phase (us ! p) = Gone))"

lemma tasks_advance_refl [simp]: "tasks_advance ts ts"
  by (simp add: tasks_advance_def)

lemma tasks_advance_append [simp]: "tasks_advance ts (ts @ us)"
  by (simp add: tasks_advance_def nth_append)

lemma tasks_advance_update:
  "wk_key w = wk_key (ts ! p) \<Longrightarrow> wk_id w = wk_id (ts ! p) \<Longrightarrow>
   (wk_phase (ts ! p) = Gone \<longrightarrow> wk_phase w = Gone) \<Longrightarrow> tasks_advance ts (ts[p := w])"
  by (cases "p < length ts") (auto simp: tasks_advance_def nth_list_update)

lemma call_ok_advance:
  assumes "call_ok ts c" and "tasks_advance ts us"
  shows "call_ok us c"
proof (cases "dc_state c")
  case (Holding a i p)
  then show ?thesis using assms by (auto simp: call_ok_def tasks_advance_def)
next
  case (Failing a i)
  with assms(1) obtain p where "p < length ts" "wk_id (ts ! p) = i" "wk_phase (ts ! p) = Gone"
    by (auto simp: call_ok_def)
  then show ?thesis using Failing assms(2)
    by (auto simp: call_ok_def tasks_advance_def intro!: exI[of _ p])
qed (simp_all add: call_ok_def)

lemma coord_step_advance: "coord_step ev s = Some s' \<Longrightarrow> tasks_advance (co_tasks s) (co_tasks s')"
  by (erule coord_step_cases) (simp_all add: tasks_advance_update)

lemma coord_inv_new: "coord_inv coordinator_new"
  by (simp add: coord_inv_def coordinator_new_def)

lemma call_ok_update:
  assumes "\<forall>c\<in>set cs. call_ok ts c" and "tasks_advance ts us"
    and "c < length cs" and "call_ok us ((cs ! c)\<lparr>dc_state := st\<rparr>)"
  shows "\<forall>d\<in>set (cs[c := (cs ! c)\<lparr>dc_state := st\<rparr>]). call_ok us d"
proof
  fix d assume "d \<in> set (cs[c := (cs ! c)\<lparr>dc_state := st\<rparr>])"
  then have "d = (cs ! c)\<lparr>dc_state := st\<rparr> \<or> d \<in> set cs" using set_update_subset_insert by fastforce
  then show "call_ok us d" using assms call_ok_advance by blast
qed

lemma coord_inv_calls:
  assumes inv: "coord_inv s" and step: "coord_step ev s = Some s'"
  shows "\<forall>c\<in>set (co_calls s'). call_ok (co_tasks s') c"
proof -
  note adv = coord_step_advance[OF step]
  have old: "\<forall>c\<in>set (co_calls s). call_ok (co_tasks s) c"
    and wk: "\<And>k i p. co_workers s k = Some (i, p) \<Longrightarrow>
        p < length (co_tasks s) \<and> wk_key (co_tasks s ! p) = k \<and> wk_id (co_tasks s ! p) = i"
    using inv by (auto simp: coord_inv_def)
  have keep: "co_calls s' = co_calls s \<Longrightarrow> ?thesis" using old adv call_ok_advance by auto
  from step show ?thesis
  proof (cases rule: coord_step_cases)
    case dispatch
    then show ?thesis using old by (auto simp: call_ok_def)
  next
    case (found c a i p)
    then show ?thesis using call_ok_update[OF old adv, of c "Holding a i p"] wk[OF found(4)]
      by (simp add: call_ok_def)
  next
    case (spawn c a)
    then show ?thesis
      using call_ok_update[OF old adv, of c "Holding a (co_next_id s) (length (co_tasks s))"]
      by (simp add: call_ok_def)
  next
    case (sent c a i p)
    then show ?thesis using call_ok_update[OF old adv, of c "Answered True"] by (simp add: call_ok_def)
  next
    case (unsent c a i p)
    have "call_ok (co_tasks s) (co_calls s ! c)" using old unsent(2) by simp
    then show ?thesis using unsent call_ok_update[OF old adv, of c "Failing a i"]
      by (auto simp: call_ok_def)
  next
    case (cleanup c a i)
    then show ?thesis
      using call_ok_update[OF old adv, of c "if a = 1 then Answered False else Asking (a + 1)"]
      by (simp add: call_ok_def)
  qed (rule keep, simp)+
qed

lemma coord_inv_step:
  assumes inv: "coord_inv s" and step: "coord_step ev s = Some s'"
  shows "coord_inv s'"
proof -
  note adv = coord_step_advance[OF step, unfolded tasks_advance_def]
  have wk: "\<And>k i p. co_workers s k = Some (i, p) \<Longrightarrow>
        p < length (co_tasks s) \<and> wk_key (co_tasks s ! p) = k \<and> wk_id (co_tasks s ! p) = i"
    and ids: "\<And>p. p < length (co_tasks s) \<Longrightarrow> wk_id (co_tasks s ! p) = Suc p mod 2 ^ 64"
    and nxt: "co_next_id s = Suc (length (co_tasks s)) mod 2 ^ 64"
    using inv unfolding coord_inv_def by blast+
  have "co_next_id s' = Suc (length (co_tasks s')) mod 2 ^ 64"
    using step nxt by (cases rule: coord_step_cases) (auto simp: mod_Suc_eq)
  moreover have "wk_id (co_tasks s' ! p) = Suc p mod 2 ^ 64" if "p < length (co_tasks s')" for p
  proof (cases "p < length (co_tasks s)")
    case True
    then show ?thesis using adv ids by simp
  next
    case False
    with step that nxt show ?thesis
      by (cases rule: coord_step_cases) (auto simp: nth_append less_Suc_eq)
  qed
  moreover have "p < length (co_tasks s') \<and> wk_key (co_tasks s' ! p) = k \<and> wk_id (co_tasks s' ! p) = i"
    if "co_workers s' k = Some (i, p)" for k i p
  proof (cases "co_workers s k = Some (i, p)")
    case True
    then show ?thesis using wk[OF True] adv by auto
  next
    case False
    with step that show ?thesis
      by (cases rule: coord_step_cases) (auto split: if_splits option.splits)
  qed
  ultimately show ?thesis using coord_inv_calls[OF inv step] unfolding coord_inv_def by blast
qed

lemma coord_inv_reach: "coord_reach b s \<Longrightarrow> coord_inv s"
  by (induction rule: coord_reach.induct) (simp_all add: coord_inv_new coord_inv_step)

section \<open>One running worker per key\<close>

definition serial :: "'m coordinator \<Rightarrow> bool" where
  "serial s \<longleftrightarrow>
     (\<forall>p<length (co_tasks s). running (co_tasks s ! p) \<longrightarrow>
        co_workers s (wk_key (co_tasks s ! p)) = Some (wk_id (co_tasks s ! p), p))"

lemma worker_ids_inject:
  assumes "coord_inv s" and "length (co_tasks s) < 2 ^ 64"
    and "p < length (co_tasks s)" and "q < length (co_tasks s)"
    and "wk_id (co_tasks s ! p) = wk_id (co_tasks s ! q)"
  shows "p = q"
proof -
  have "Suc p mod 2 ^ 64 = Suc q mod 2 ^ 64" using assms by (simp add: coord_inv_def)
  moreover have "n mod 2 ^ 64 = (if n = 2 ^ 64 then 0 else n)" if "n \<le> 2 ^ 64" for n :: nat
    using that by (auto simp: le_less)
  ultimately show ?thesis using assms(2-4) by (auto split: if_splits)
qed

lemma serial_removal:
  assumes inv: "coord_inv s" and ser: "serial s" and bound: "length (co_tasks s) < 2 ^ 64"
    and q: "q < length (co_tasks s)" "wk_id (co_tasks s ! q) = i" "\<not> running (co_tasks s ! q)"
  shows "serial (remove_worker_if_matches k i s)"
proof -
  have "wk_id (co_tasks s ! p) \<noteq> i" if "p < length (co_tasks s)" "running (co_tasks s ! p)" for p
    using worker_ids_inject[OF inv bound that(1) q(1)] that q by auto
  then show ?thesis using ser by (auto simp: serial_def split: option.splits)
qed

lemma serial_set_call [simp]: "serial (set_call c st s) = serial s"
  by (simp add: serial_def)

lemma serial_set_task:
  assumes "serial s" and "p < length (co_tasks s)"
    and "wk_key (f (co_tasks s ! p)) = wk_key (co_tasks s ! p)"
    and "wk_id (f (co_tasks s ! p)) = wk_id (co_tasks s ! p)"
    and "running (f (co_tasks s ! p)) \<longrightarrow> running (co_tasks s ! p)"
  shows "serial (set_task p f s)"
  using assms by (auto simp: serial_def nth_list_update)

lemma running_simps [simp]:
  "wk_phase w = Idle \<Longrightarrow> running w" "wk_phase w = Busy m \<Longrightarrow> running w"
  "wk_phase w = Leaving \<Longrightarrow> \<not> running w" "wk_phase w = Unlisted \<Longrightarrow> \<not> running w"
  "wk_phase w = Gone \<Longrightarrow> \<not> running w"
  by (simp_all add: running_def)

lemma serial_logs [simp]:
  "serial (s\<lparr>co_accepted := a\<rparr>) = serial s" "serial (s\<lparr>co_handled := h\<rparr>) = serial s"
  "serial (s\<lparr>co_calls := c\<rparr>) = serial s"
  by (simp_all add: serial_def)

lemma serial_step:
  assumes inv: "coord_inv s" and ser: "serial s" and step: "coord_step ev s = Some s'"
    and "\<And>k. ev \<noteq> Remove k" and bound: "length (co_tasks s) < 2 ^ 64"
  shows "serial s'"
  using step
proof (cases rule: coord_step_cases)
  case (spawn c a)
  then show ?thesis using ser by (fastforce simp: serial_def nth_append less_Suc_eq)
next
  case (sent c a i p)
  have "call_ok (co_tasks s) (co_calls s ! c)" using inv sent(2) by (simp add: coord_inv_def)
  then have "p < length (co_tasks s)" using sent(3) by (simp add: call_ok_def)
  then show ?thesis using sent ser by (simp add: serial_set_task running_def)
next
  case (cleanup c a i)
  have "call_ok (co_tasks s) (co_calls s ! c)" using inv cleanup(2) by (simp add: coord_inv_def)
  then obtain q where "q < length (co_tasks s)" "wk_id (co_tasks s ! q) = i" "wk_phase (co_tasks s ! q) = Gone"
    using cleanup(3) by (auto simp: call_ok_def)
  then show ?thesis using cleanup serial_removal[OF inv ser bound] by simp
next
  case (unlist p)
  then have "serial (remove_worker_if_matches (wk_key (co_tasks s ! p)) (wk_id (co_tasks s ! p)) s)"
    using serial_removal[OF inv ser bound] by simp
  then show ?thesis using unlist by (simp add: serial_set_task)
next
  case (remove k)
  then show ?thesis using assms(4) by simp
qed (use ser in \<open>simp_all add: serial_set_task\<close>)

lemma coord_step_length: "coord_step ev s = Some s' \<Longrightarrow> length (co_tasks s) \<le> length (co_tasks s')"
  using coord_step_advance by (auto simp: tasks_advance_def)

lemma serial_reach: "coord_reach False s \<Longrightarrow> length (co_tasks s) < 2 ^ 64 \<Longrightarrow> serial s"
proof (induction rule: coord_reach.induct)
  case initial
  then show ?case by (simp add: serial_def coordinator_new_def)
next
  case (step s ev s')
  have "serial s" "length (co_tasks s) < 2 ^ 64"
    using step.IH step.prems coord_step_length[OF step.hyps(2)] by simp_all
  then show ?case
    using serial_step[OF coord_inv_reach[OF step.hyps(1)] _ step.hyps(2)] step.hyps(3)
    by (cases ev) simp_all
qed

section \<open>Order per key\<close>

definition of_key :: "rstr \<Rightarrow> (rstr \<times> 'm) list \<Rightarrow> 'm list" where
  "of_key k log = map snd (filter (\<lambda>x. fst x = k) log)"

lemma of_key_simps [simp]:
  "of_key k [] = []"
  "of_key k (xs @ ys) = of_key k xs @ of_key k ys"
  "of_key k [(j, m)] = (if j = k then [m] else [])"
  by (simp_all add: of_key_def)

text \<open>What a worker still has to do, and what the listed worker of a key has to do.\<close>

definition todo :: "'m worker \<Rightarrow> 'm list" where
  "todo w = (case wk_phase w of Busy m \<Rightarrow> [m] | _ \<Rightarrow> []) @ wk_queue w"

definition backlog :: "rstr \<Rightarrow> 'm coordinator \<Rightarrow> 'm list" where
  "backlog k s =
     (case co_workers s k of
        None \<Rightarrow> []
      | Some w \<Rightarrow> (if running (co_tasks s ! snd w) then todo (co_tasks s ! snd w) else []))"

definition ordered :: "'m coordinator \<Rightarrow> bool" where
  "ordered s \<longleftrightarrow> (\<forall>k. subseq (of_key k (co_handled s) @ backlog k s) (of_key k (co_accepted s)))"

lemma backlog_set_call [simp]: "backlog k (set_call c st s) = backlog k s"
  by (simp add: backlog_def split: option.splits)

lemma ordered_set_call [simp]: "ordered (set_call c st s) = ordered s"
  by (simp add: ordered_def)

lemma orderedI:
  assumes "ordered s" and "co_handled s' = co_handled s" and "co_accepted s' = co_accepted s"
    and "\<And>k. backlog k s' = backlog k s \<or> backlog k s' = []"
  shows "ordered s'"
  unfolding ordered_def
proof
  fix k
  have all: "subseq (of_key k (co_handled s) @ backlog k s) (of_key k (co_accepted s))"
    using assms(1) by (simp add: ordered_def)
  then have "subseq (of_key k (co_handled s)) (of_key k (co_accepted s))"
    by (metis append_Nil2 list_emb_append_mono list_emb_Nil subseq_order.order_refl subseq_order.trans)
  with all show "subseq (of_key k (co_handled s') @ backlog k s') (of_key k (co_accepted s'))"
    using assms(2-4) by (metis append_Nil2)
qed

lemma backlog_remove_if: "backlog k (remove_worker_if_matches j i s) = backlog k s \<or>
    backlog k (remove_worker_if_matches j i s) = []"
  by (auto simp: backlog_def split: option.splits)

text \<open>Changing a task changes the backlog of its own key at most.\<close>

lemma backlog_set_task:
  assumes "coord_inv s" and "p < length (co_tasks s)"
  shows "backlog k (set_task p f s) =
    (case co_workers s k of
       Some w \<Rightarrow> if snd w = p then (if running (f (co_tasks s ! p)) then todo (f (co_tasks s ! p)) else [])
                 else backlog k s
     | None \<Rightarrow> [])"
  using assms by (auto simp: backlog_def split: option.splits)

lemma backlog_logs [simp]:
  "backlog k (s\<lparr>co_accepted := a\<rparr>) = backlog k s" "backlog k (s\<lparr>co_handled := h\<rparr>) = backlog k s"
  "backlog k (s\<lparr>co_calls := c\<rparr>) = backlog k s"
  by (simp_all add: backlog_def split: option.splits)

lemma listed_key: "coord_inv s \<Longrightarrow> co_workers s k = Some w \<Longrightarrow> wk_key (co_tasks s ! snd w) = k"
  by (cases w) (simp add: coord_inv_def)

lemma backlog_set_task_other:
  assumes "coord_inv s" and "p < length (co_tasks s)" and "k \<noteq> wk_key (co_tasks s ! p)"
  shows "backlog k (set_task p f s) = backlog k s"
proof (cases "co_workers s k")
  case None
  then show ?thesis by (simp add: backlog_def)
next
  case (Some w)
  then have "snd w \<noteq> p" using listed_key[OF assms(1)] assms(3) by blast
  then show ?thesis using Some by (simp add: backlog_set_task[OF assms(1,2)])
qed

lemma backlog_set_task_same:
  assumes "coord_inv s" and "p < length (co_tasks s)"
    and "running (f (co_tasks s ! p)) = running (co_tasks s ! p)" "todo (f (co_tasks s ! p)) = todo (co_tasks s ! p)"
  shows "backlog k (set_task p f s) = backlog k s"
  using assms(3,4) backlog_set_task[OF assms(1,2), of k f] by (cases "co_workers s k") (auto simp: backlog_def)

lemma ordered_step:
  assumes inv: "coord_inv s" and ser: "serial s" and ord: "ordered s"
    and step: "coord_step ev s = Some s'"
  shows "ordered s'"
  using step
proof (cases rule: coord_step_cases)
  case (spawn c a)
  have "backlog k s' = backlog k s" for k
    using spawn inv by (auto simp: backlog_def coord_inv_def nth_append todo_def split: option.splits)
  then show ?thesis using ord spawn by (intro orderedI[OF ord]) simp_all
next
  case (sent c a i p)
  let ?m = "dc_message (co_calls s ! c)" and ?k = "wk_key (co_tasks s ! p)"
  have "call_ok (co_tasks s) (co_calls s ! c)" using inv sent(2) by (simp add: coord_inv_def)
  then have p: "p < length (co_tasks s)" using sent(3) by (simp add: call_ok_def)
  have s': "co_handled s' = co_handled s" "co_accepted s' = co_accepted s @ [(?k, ?m)]" using sent by simp_all
  have b: "backlog k s' = (if k = ?k \<and> running (co_tasks s ! p) then backlog k s @ [?m] else backlog k s)" for k
  proof -
    let ?w = "(co_tasks s ! p)\<lparr>wk_queue := wk_queue (co_tasks s ! p) @ [?m]\<rparr>"
    have same: "running ?w = running (co_tasks s ! p)" "todo ?w = todo (co_tasks s ! p) @ [?m]"
      by (simp_all add: running_def todo_def)
    have listed: "running (co_tasks s ! p) \<Longrightarrow> co_workers s ?k = Some (wk_id (co_tasks s ! p), p)"
      using ser p by (simp add: serial_def)
    have s'': "backlog k s' = backlog k (set_task p (\<lambda>w. w\<lparr>wk_queue := wk_queue w @ [?m]\<rparr>) s)"
      using sent by simp
    show ?thesis
    proof (cases "co_workers s k")
      case None
      then show ?thesis using listed s'' by (auto simp: backlog_def)
    next
      case (Some w)
      then have "wk_key (co_tasks s ! snd w) = k" by (rule listed_key[OF inv])
      moreover have "backlog k s = (if running (co_tasks s ! snd w) then todo (co_tasks s ! snd w) else [])"
        using Some by (simp add: backlog_def)
      moreover have "backlog k s' =
          (if snd w = p then (if running ?w then todo ?w else []) else backlog k s)"
        using Some s'' by (simp add: backlog_set_task[OF inv p])
      ultimately show ?thesis using Some listed by (cases "snd w = p") (auto simp: same)
    qed
  qed
  show ?thesis unfolding ordered_def
  proof
    fix k
    have "subseq (of_key k (co_handled s) @ backlog k s) (of_key k (co_accepted s))"
      using ord by (simp add: ordered_def)
    then show "subseq (of_key k (co_handled s') @ backlog k s') (of_key k (co_accepted s'))"
      unfolding s' b by (auto simp flip: append_assoc intro: list_emb_append2 subseq_order.trans)
  qed
next
  case (finish p m)
  let ?k = "wk_key (co_tasks s ! p)"
  have p: "co_workers s ?k = Some (wk_id (co_tasks s ! p), p)" using ser finish by (simp add: serial_def)
  have "backlog ?k s = m # backlog ?k s'"
    using finish p backlog_set_task[OF inv finish(2), of ?k] by (simp add: backlog_def todo_def)
  moreover have "backlog k s' = backlog k s" if "k \<noteq> ?k" for k
    using finish that by (simp add: backlog_set_task_other[OF inv finish(2)])
  ultimately have "of_key k (co_handled s') @ backlog k s' = of_key k (co_handled s) @ backlog k s" for k
    using finish by (cases "k = ?k") simp_all
  then show ?thesis using ord finish by (simp add: ordered_def)
next
  case (receive p m q)
  have "backlog k s' = backlog k s" for k
    using receive by (simp add: backlog_set_task_same[OF inv receive(2)] running_def todo_def)
  then show ?thesis using receive by (intro orderedI[OF ord]) simp_all
next
  case (panicked p m)
  have "backlog k s' = backlog k s \<or> backlog k s' = []" for k
    using panicked backlog_set_task[OF inv panicked(2), of k] by (auto split: option.splits)
  then show ?thesis using panicked by (intro orderedI[OF ord]) simp_all
next
  case (leave p)
  have "backlog k s' = backlog k s \<or> backlog k s' = []" for k
    using leave backlog_set_task[OF inv leave(2), of k] by (auto split: option.splits)
  then show ?thesis using leave by (intro orderedI[OF ord]) simp_all
next
  case (exit p)
  have "backlog k s' = backlog k s \<or> backlog k s' = []" for k
    using exit backlog_set_task[OF inv exit(2), of k] by (auto split: option.splits)
  then show ?thesis using exit by (intro orderedI[OF ord]) simp_all
next
  case (unlist p)
  have "backlog k s' = backlog k s \<or> backlog k s' = []" for k
    using unlist by (auto simp: backlog_def nth_list_update split: option.splits)
  then show ?thesis using unlist by (intro orderedI[OF ord]) simp_all
next
  case (cleanup c a i)
  show ?thesis using cleanup backlog_remove_if by (intro orderedI[OF ord]) simp_all
next
  case (remove k)
  then show ?thesis by (intro orderedI[OF ord]) (auto simp: backlog_def split: option.splits)
qed (use ord in \<open>simp_all add: ordered_def\<close>)

lemma ordered_reach: "coord_reach False s \<Longrightarrow> length (co_tasks s) < 2 ^ 64 \<Longrightarrow> ordered s"
proof (induction rule: coord_reach.induct)
  case initial
  then show ?case by (simp add: ordered_def coordinator_new_def backlog_def)
next
  case (step s ev s')
  have "length (co_tasks s) < 2 ^ 64" using step.prems coord_step_length[OF step.hyps(2)] by simp
  then show ?case
    using ordered_step[OF coord_inv_reach[OF step.hyps(1)] serial_reach[OF step.hyps(1)] _ step.hyps(2)]
      step.IH by blast
qed

section \<open>Accounting for every accepted message\<close>

definition held :: "'m worker \<Rightarrow> (rstr \<times> 'm) multiset" where
  "held w = image_mset (Pair (wk_key w)) (mset (todo w))"

lemma sum_list_map_update:
  fixes f :: "'a \<Rightarrow> 'b :: cancel_comm_monoid_add"
  shows "p < length ws \<Longrightarrow> sum_list (map f (ws[p := w])) + f (ws ! p) = sum_list (map f ws) + f w"
proof (induction ws arbitrary: p)
  case Nil
  then show ?case by simp
next
  case (Cons v ws)
  then show ?case by (cases p) (auto simp: ac_simps)
qed

definition conserved :: "'m coordinator \<Rightarrow> bool" where
  "conserved s \<longleftrightarrow> mset (co_accepted s) = mset (co_handled s) + sum_list (map held (co_tasks s))"

lemma conserved_update:
  assumes "conserved s" and "p < length (co_tasks s)" and "co_tasks s' = (co_tasks s)[p := w]"
    and "mset (co_accepted s') + held (co_tasks s ! p) + mset (co_handled s) =
         mset (co_accepted s) + held w + mset (co_handled s')"
  shows "conserved s'"
proof -
  have "sum_list (map held (co_tasks s')) + held (co_tasks s ! p) = sum_list (map held (co_tasks s)) + held w"
    using sum_list_map_update[OF assms(2)] assms(3) by simp
  then have "mset (co_accepted s') + (held (co_tasks s ! p) + mset (co_handled s)) =
     mset (co_handled s') + sum_list (map held (co_tasks s')) + (held (co_tasks s ! p) + mset (co_handled s))"
    using assms(1,4) unfolding conserved_def by (simp add: ac_simps)
  then show ?thesis unfolding conserved_def by simp
qed

lemma conserved_step:
  assumes inv: "coord_inv s" and con: "conserved s" and step: "coord_step ev s = Some s'"
  shows "conserved s'"
  using step
proof (cases rule: coord_step_cases)
  case (sent c a i p)
  have "call_ok (co_tasks s) (co_calls s ! c)" using inv sent(2) by (simp add: coord_inv_def)
  then have "p < length (co_tasks s)" using sent(3) by (simp add: call_ok_def)
  then show ?thesis
    by (rule conserved_update[OF con, where
          w = "(co_tasks s ! p)\<lparr>wk_queue := wk_queue (co_tasks s ! p) @ [dc_message (co_calls s ! c)]\<rparr>"])
       (use sent in \<open>simp_all add: held_def todo_def\<close>)
next
  case (receive p m q)
  show ?thesis
    by (rule conserved_update[OF con receive(2), where w = "(co_tasks s ! p)\<lparr>wk_queue := q, wk_phase := Busy m\<rparr>"])
       (use receive in \<open>simp_all add: held_def todo_def\<close>)
next
  case (finish p m)
  show ?thesis
    by (rule conserved_update[OF con finish(2), where w = "(co_tasks s ! p)\<lparr>wk_phase := Idle\<rparr>"])
       (use finish in \<open>simp_all add: held_def todo_def\<close>)
next
  case (panicked p m)
  show ?thesis
    by (rule conserved_update[OF con panicked(2),
          where w = "(co_tasks s ! p)\<lparr>wk_queue := m # wk_queue (co_tasks s ! p), wk_phase := Gone\<rparr>"])
       (use panicked in \<open>simp_all add: held_def todo_def\<close>)
next
  case (leave p)
  show ?thesis
    by (rule conserved_update[OF con leave(2), where w = "(co_tasks s ! p)\<lparr>wk_phase := Leaving\<rparr>"])
       (use leave in \<open>simp_all add: held_def todo_def\<close>)
next
  case (unlist p)
  show ?thesis
    by (rule conserved_update[OF con unlist(2), where w = "(co_tasks s ! p)\<lparr>wk_phase := Unlisted\<rparr>"])
       (use unlist in \<open>simp_all add: held_def todo_def\<close>)
next
  case (exit p)
  show ?thesis
    by (rule conserved_update[OF con exit(2), where w = "(co_tasks s ! p)\<lparr>wk_phase := Gone\<rparr>"])
       (use exit in \<open>simp_all add: held_def todo_def\<close>)
next
  case (spawn c a)
  then show ?thesis using con by (simp add: conserved_def held_def todo_def)
qed (use con in \<open>simp_all add: conserved_def\<close>)

lemma conserved_reach: "coord_reach b s \<Longrightarrow> conserved s"
proof (induction rule: coord_reach.induct)
  case initial
  then show ?case by (simp add: conserved_def coordinator_new_def)
next
  case (step s ev s')
  then show ?case using conserved_step[OF coord_inv_reach] by blast
qed

section \<open>Properties\<close>

lemma coord_run_reach:
  assumes "coord_run evs s = Some s'" and "coord_reach b s"
    and "b \<or> (\<forall>k. Remove k \<notin> set evs)"
  shows "coord_reach b s'"
  using assms
proof (induction evs arbitrary: s)
  case Nil
  then show ?case by simp
next
  case (Cons ev evs)
  then obtain t where t: "coord_step ev s = Some t" "coord_run evs t = Some s'"
    by (auto split: option.splits)
  have "case ev of Remove k \<Rightarrow> b | _ \<Rightarrow> True" using Cons.prems(3) by (cases ev) auto
  then have "coord_reach b t" by (rule coord_reach.step[OF Cons.prems(2) t(1)])
  then show ?case using Cons.IH[OF t(2)] Cons.prems(3) by auto
qed

lemma run_example:
  assumes "\<exists>s. coord_run evs coordinator_new = Some s \<and> P s" and "b \<or> (\<forall>k. Remove k \<notin> set evs)"
  shows "\<exists>s. coord_reach b s \<and> P s"
  using assms coord_run_reach[OF _ coord_reach.initial] by blast

lemmas coord_eval = coord_step_def call_step_def task_step_def worker_sender_for_key_def
  set_call_def set_task_def try_send_def remove_worker_if_matches_def remove_worker_def
  coordinator_new_def Let_def

text \<open>
  C4. One worker per session: as long as no key is removed from outside (and fewer than
  2^64 workers were ever started), two tasks of the same session key are never both at work,
  so the handler runs for at most one message of a session at any time.
\<close>

theorem sessions_serialized:
  assumes "coord_reach False s" and "length (co_tasks s) < 2 ^ 64"
    and "p < length (co_tasks s)" and "running (co_tasks s ! p)"
    and "q < length (co_tasks s)" and "running (co_tasks s ! q)"
    and "wk_key (co_tasks s ! p) = wk_key (co_tasks s ! q)"
  shows "p = q"
proof -
  have "co_workers s (wk_key (co_tasks s ! r)) = Some (wk_id (co_tasks s ! r), r)"
    if "r < length (co_tasks s)" "running (co_tasks s ! r)" for r
    using serial_reach[OF assms(1,2)] that by (simp add: serial_def)
  from this[OF assms(3,4)] this[OF assms(5,6)]
  have "Some (wk_id (co_tasks s ! p), p) = Some (wk_id (co_tasks s ! q), q)"
    by (simp only: assms(7))
  then show ?thesis by simp
qed

lemma one_message_run:
  "\<exists>s. coord_run [Dispatch ''k'' (1::nat), Lookup 0, Send 0, Receive 0] coordinator_new = Some s \<and>
       coord_reach False s \<and> length (co_tasks s) = 1 \<and> running (co_tasks s ! 0)"
proof -
  obtain s where s: "coord_run [Dispatch ''k'' (1::nat), Lookup 0, Send 0, Receive 0] coordinator_new = Some s"
    and "length (co_tasks s) = 1" "running (co_tasks s ! 0)"
    by (simp add: coord_eval running_def)
  moreover have "coord_reach False s" by (rule coord_run_reach[OF s coord_reach.initial]) simp
  ultimately show ?thesis by blast
qed

theorem sessions_serialized_witness:
  "\<exists>s :: nat coordinator. coord_reach False s \<and> running (co_tasks s ! 0) \<and>
     (\<forall>q<length (co_tasks s). running (co_tasks s ! q) \<longrightarrow>
        wk_key (co_tasks s ! 0) = wk_key (co_tasks s ! q) \<longrightarrow> 0 = q)"
proof -
  obtain s :: "nat coordinator"
    where s: "coord_reach False s" "length (co_tasks s) = 1" "running (co_tasks s ! 0)"
    using one_message_run by blast
  then show ?thesis using sessions_serialized[OF s(1), of 0] by (intro exI[of _ s]) auto
qed

text \<open>
  Strict order within a session: under the same conditions, the messages of a session
  that the handler has completed, followed by what its worker still has to do, are a
  subsequence of the messages accepted for it: never out of order, never twice.
\<close>

theorem session_order:
  assumes "coord_reach False s" and "length (co_tasks s) < 2 ^ 64"
  shows "subseq (of_key k (co_handled s) @ backlog k s) (of_key k (co_accepted s))"
  using ordered_reach[OF assms] by (simp add: ordered_def)

theorem session_order_witness:
  "\<exists>s :: nat coordinator. coord_reach False s \<and>
     subseq (of_key ''k'' (co_handled s) @ backlog ''k'' s) (of_key ''k'' (co_accepted s))"
proof -
  obtain s :: "nat coordinator" where s: "coord_reach False s" "length (co_tasks s) = 1"
    using one_message_run by blast
  from session_order[OF s(1), of "''k''"] s show ?thesis by (intro exI[of _ s]) simp
qed

text \<open>
  Every accepted message is accounted for, with or without removals: the accepted
  messages are, with multiplicity, the completed ones and those some task still holds.
\<close>

theorem messages_conserved:
  assumes "coord_reach removals s"
  shows "mset (co_accepted s) = mset (co_handled s) + sum_list (map held (co_tasks s))"
  using conserved_reach[OF assms] by (simp add: conserved_def)

theorem messages_conserved_witness:
  "\<exists>s :: nat coordinator. coord_reach False s \<and>
     mset (co_accepted s) = mset (co_handled s) + sum_list (map held (co_tasks s))"
proof -
  obtain s :: "nat coordinator" where s: "coord_reach False s" using one_message_run by blast
  from messages_conserved[OF s] s show ?thesis by blast
qed

lemma lost_run:
  "\<exists>s. coord_run [Dispatch ''k'' (1::nat), Lookup 0, TimeOut 0, Send 0, Unlist 0, Exit 0] coordinator_new = Some s \<and>
     map dc_state (co_calls s) = [Answered True] \<and> co_accepted s = [(''k'', 1)] \<and>
     co_handled s = [] \<and> co_workers s ''k'' = None \<and> map wk_phase (co_tasks s) = [Gone]"
  by (simp add: coord_eval)

lemma removal_run:
  "\<exists>s. coord_run [Dispatch ''k'' (1::nat), Lookup 0, Send 0, Receive 0, Remove ''k'',
       Dispatch ''k'' 2, Lookup 1, Send 1, Receive 1] coordinator_new = Some s \<and>
     map wk_key (co_tasks s) = [''k'', ''k''] \<and> map wk_phase (co_tasks s) = [Busy 1, Busy 2]"
  by (simp add: coord_eval)

text \<open>
  A handler that panics takes the messages queued behind its own with it, although they were
  accepted; the next call meets the dead worker, and its second attempt starts a new one.
\<close>

lemma panic_loses_queue:
  "\<exists>s. coord_run [Dispatch ''k'' (1::nat), Lookup 0, Send 0, Receive 0, Dispatch ''k'' 2, Lookup 1, Send 1, Panic 0,
       Dispatch ''k'' 3, Lookup 2, Send 2, Cleanup 2, Lookup 2, Send 2] coordinator_new = Some s \<and>
     map dc_state (co_calls s) = [Answered True, Answered True, Answered True] \<and> co_handled s = [] \<and>
     map wk_phase (co_tasks s) = [Gone, Idle] \<and> backlog ''k'' s = [3]"
  by (simp add: coord_eval backlog_def todo_def)

text \<open>
  An accepted message can be lost: a worker that times out between a call's lookup and
  its send still accepts the message, so that the call reports success, and then exits
  without handling it; nothing is left to handle it.
\<close>

theorem accepted_message_lost:
  "\<exists>s :: nat coordinator. coord_reach False s \<and>
     map dc_state (co_calls s) = [Answered True] \<and> co_accepted s = [(''k'', 1)] \<and>
     co_handled s = [] \<and> co_workers s ''k'' = None \<and> map wk_phase (co_tasks s) = [Gone]"
  by (rule run_example[OF lost_run]) simp

text \<open>
  Removing a key, as the command for a new session does, breaks the serialization: a
  message dispatched under the removed key while its worker is at work gets a second worker,
  and the handler runs twice at the same time for one session key.
\<close>

theorem removal_breaks_serialization:
  "\<exists>s :: nat coordinator. coord_reach True s \<and>
     map wk_key (co_tasks s) = [''k'', ''k''] \<and> map wk_phase (co_tasks s) = [Busy 1, Busy 2]"
  by (rule run_example[OF removal_run]) simp

end
