(* ===== verification/AsyncRuns.thy ===== *)
theory AsyncRuns
  imports ChannelTypes Errors "HOL-Library.AList" "HOL-Library.Multiset"
begin

text \<open>
  \<open>src/tools/async_tool_manager.rs\<close>: the manager of background runs. The hash map of
  runs is an association list with distinct keys, its order standing for the map's
  unspecified iteration order. Times are integers, the clock an argument. What the file
  system and the operating system answer (the result of each call of \<open>start_process\<close>, the
  content of the log files, the result of \<open>kill\<close>) are arguments too.
\<close>

section \<open>Data\<close>

datatype run_kind = KindProcess | KindDelegated

fun run_kind_as_str :: "run_kind \<Rightarrow> rstr" where
  "run_kind_as_str KindProcess = ''process''"
| "run_kind_as_str KindDelegated = ''delegated''"

datatype run_status = Running | Completed | Killed

fun run_status_as_str :: "run_status \<Rightarrow> rstr" where
  "run_status_as_str Running = ''running''"
| "run_status_as_str Completed = ''completed''"
| "run_status_as_str Killed = ''killed''"

datatype run_details =
    ProcessDetails rstr "int option" "int option" rstr rstr
      \<comment> \<open>command, pid, exit code, stdout, stderr\<close>
  | DelegatedDetails rstr "rstr option" "rstr option"
      \<comment> \<open>request, reply, error\<close>

record run_snapshot =
  rs_run_id :: rstr
  rs_tool_name :: rstr
  rs_kind :: run_kind
  rs_status :: run_status
  rs_summary :: rstr
  rs_details :: run_details
  rs_started_at :: int
  rs_finished_at :: "int option"

record process_state =
  ps_command :: rstr
  ps_pid :: "int option"
  ps_stdout_path :: rstr
  ps_stderr_path :: rstr
  ps_exit_code :: "int option"

record delegated_state =
  ds_request :: rstr
  ds_reply :: "rstr option"
  ds_error :: "rstr option"

record run_entry =
  re_tool_name :: rstr
  re_kind :: run_kind
  re_summary :: rstr
  re_agent_id :: rstr
  re_session_key :: rstr
  re_status :: run_status
  re_started_at :: int
  re_finished_at :: "int option"
  re_claimed :: bool
  re_process :: "process_state option"
  re_delegated :: "delegated_state option"

type_synonym runs = "(rstr \<times> run_entry) list"

record run_manager =
  rm_runs :: runs
  rm_counter :: nat

definition manager_new :: run_manager where
  "manager_new = \<lparr>rm_runs = [], rm_counter = 1\<rparr>"

record started_run =
  st_run_id :: rstr
  st_tool_name :: rstr
  st_kind :: run_kind

section \<open>Entries\<close>

definition belongs_to :: "rstr \<Rightarrow> rstr \<Rightarrow> run_entry \<Rightarrow> bool" where
  "belongs_to agent_id session_key self \<longleftrightarrow> re_agent_id self = agent_id \<and> re_session_key self = session_key"

text \<open>\<open>files\<close> gives the bytes of a file that can be opened; a tail that is not UTF-8 reads as nothing.\<close>

definition read_process_output_tail :: "(rstr \<Rightarrow> rstr option) \<Rightarrow> rstr \<Rightarrow> nat \<Rightarrow> rstr" where
  "read_process_output_tail files path max_bytes =
     (case files path of
        None \<Rightarrow> []
      | Some content \<Rightarrow>
          (let len = length content;
               rest = (if len > max_bytes then drop (len - max_bytes) content else content)
           in if valid_utf8 rest then rest else []))"

definition snapshot :: "(rstr \<Rightarrow> rstr option) \<Rightarrow> rstr \<Rightarrow> run_entry \<Rightarrow> run_snapshot" where
  "snapshot files run_id self =
     \<lparr>rs_run_id = run_id, rs_tool_name = re_tool_name self, rs_kind = re_kind self,
      rs_status = re_status self, rs_summary = re_summary self,
      rs_details =
        (case re_process self of
           Some process \<Rightarrow> ProcessDetails (ps_command process) (ps_pid process) (ps_exit_code process)
             (read_process_output_tail files (ps_stdout_path process) 32768)
             (read_process_output_tail files (ps_stderr_path process) 16384)
         | None \<Rightarrow>
             (case re_delegated self of
                Some delegated \<Rightarrow> DelegatedDetails (ds_request delegated) (ds_reply delegated) (ds_error delegated)
              | None \<Rightarrow> DelegatedDetails (re_summary self) None (Some ''run details unavailable''))),
      rs_started_at = re_started_at self, rs_finished_at = re_finished_at self\<rparr>"

text \<open>\<open>kill_output\<close> is the error of starting \<open>kill\<close>; its exit status is only logged.\<close>

definition kill_entry :: "rstr option \<Rightarrow> int \<Rightarrow> run_entry \<Rightarrow> run_entry \<times> unit res" where
  "kill_entry kill_output now self =
     (if re_status self \<noteq> Running then (self, Inr ())
      else
        (case re_process self of
           None \<Rightarrow> (self, Inl (ToolError ''background run kind does not support kill''))
         | Some process \<Rightarrow>
             (case (if ps_pid process = None then None else kill_output) of
                Some e \<Rightarrow> (self, Inl (ToolError (''failed to kill background run: '' @ e)))
              | None \<Rightarrow>
                  (self\<lparr>re_status := Killed, re_finished_at := Some now,
                        re_process := Some (process\<lparr>ps_exit_code := Some (- 1)\<rparr>)\<rparr>, Inr ()))))"

section \<open>The manager\<close>

definition finished_key :: "run_entry \<Rightarrow> int" where
  "finished_key e = (case re_finished_at e of Some t \<Rightarrow> t | None \<Rightarrow> re_started_at e)"

definition auto_evict :: "runs \<Rightarrow> runs" where
  "auto_evict runs =
     (let max_completed = 64;
          completed_count = length (filter (\<lambda>x. re_status (snd x) \<noteq> Running) runs)
      in if completed_count \<le> max_completed then runs
         else
           (let completed = map (\<lambda>x. (fst x, finished_key (snd x)))
                              (filter (\<lambda>x. re_status (snd x) \<noteq> Running) runs);
                completed = sort_key snd completed;
                to_evict = completed_count - max_completed
            in foldl (\<lambda>runs x. AList.delete (fst x) runs) runs (take to_evict completed)))"

definition next_run_id :: "nat \<Rightarrow> nat \<Rightarrow> rstr" where
  "next_run_id now_ms seq = ''async-tool-run-'' @ show_nat now_ms @ ''-'' @ show_nat seq"

definition insert_run :: "rstr \<Rightarrow> run_entry \<Rightarrow> runs \<Rightarrow> runs" where
  "insert_run run_id entry runs = auto_evict (AList.update run_id entry runs)"

text \<open>What the system calls of a start answer: the error text of each that fails.\<close>

record start_calls =
  sc_create_dir :: "rstr option"
  sc_stdout :: "rstr option"
  sc_stderr :: "rstr option"

definition process_entry ::
  "rstr \<Rightarrow> rstr \<Rightarrow> rstr \<Rightarrow> rstr \<Rightarrow> int \<Rightarrow> int \<Rightarrow> rstr \<Rightarrow> rstr \<Rightarrow> run_entry" where
  "process_entry tool_name command agent_id session_key started_at pid stdout_path stderr_path =
     \<lparr>re_tool_name = tool_name, re_kind = KindProcess, re_summary = command, re_agent_id = agent_id,
      re_session_key = session_key, re_status = Running, re_started_at = started_at,
      re_finished_at = None, re_claimed = False,
      re_process = Some \<lparr>ps_command = command, ps_pid = Some pid, ps_stdout_path = stdout_path,
                         ps_stderr_path = stderr_path, ps_exit_code = None\<rparr>,
      re_delegated = None\<rparr>"

text \<open>
  The common body of \<open>start_process\<close> and \<open>start_prepared_process\<close>, given the result of
  spawning the child (its pid). The counter advances even when the start fails.
\<close>

definition start_spawned ::
  "start_calls \<Rightarrow> int res \<Rightarrow> nat \<Rightarrow> int \<Rightarrow> rstr \<Rightarrow> rstr \<Rightarrow> rstr \<Rightarrow> rstr \<Rightarrow> rstr \<Rightarrow> run_manager \<Rightarrow>
   run_manager \<times> started_run res" where
  "start_spawned calls spawned now_ms started_at base tool_name command agent_id session_key self =
     (let seq = rm_counter self;
          self = self\<lparr>rm_counter := (seq + 1) mod 2 ^ 64\<rparr>;
          run_id = next_run_id now_ms seq
      in case sc_create_dir calls of
           Some e \<Rightarrow> (self, Inl (ToolError (''exec failed to create temp dir: '' @ e)))
         | None \<Rightarrow>
             (let stdout_path = base @ ''/'' @ run_id @ ''.stdout.log'';
                  stderr_path = base @ ''/'' @ run_id @ ''.stderr.log''
              in case sc_stdout calls of
                   Some e \<Rightarrow> (self, Inl (ToolError (''exec failed to create stdout log: '' @ e)))
                 | None \<Rightarrow>
                     (case sc_stderr calls of
                        Some e \<Rightarrow> (self, Inl (ToolError (''exec failed to create stderr log: '' @ e)))
                      | None \<Rightarrow>
                          (case spawned of
                             Inl e \<Rightarrow> (self, Inl e)
                           | Inr pid \<Rightarrow>
                               (self\<lparr>rm_runs := insert_run run_id
                                  (process_entry tool_name command agent_id session_key started_at pid
                                     stdout_path stderr_path) (rm_runs self)\<rparr>,
                                Inr \<lparr>st_run_id = run_id, st_tool_name = tool_name, st_kind = KindProcess\<rparr>)))))"

definition start_process ::
  "start_calls \<Rightarrow> rstr + int \<Rightarrow> nat \<Rightarrow> int \<Rightarrow> rstr \<Rightarrow> rstr \<Rightarrow> rstr \<Rightarrow> rstr \<Rightarrow> rstr \<Rightarrow> run_manager \<Rightarrow>
   run_manager \<times> started_run res" where
  "start_process calls child =
     start_spawned calls (map_sum (\<lambda>e. ToolError (''exec failed to start: '' @ e)) id child)"

definition start_prepared_process ::
  "start_calls \<Rightarrow> int res \<Rightarrow> nat \<Rightarrow> int \<Rightarrow> rstr \<Rightarrow> rstr \<Rightarrow> rstr \<Rightarrow> rstr \<Rightarrow> rstr \<Rightarrow> run_manager \<Rightarrow>
   run_manager \<times> started_run res" where
  "start_prepared_process calls spawned = start_spawned calls spawned"

definition start_delegated ::
  "nat \<Rightarrow> int \<Rightarrow> rstr \<Rightarrow> rstr \<Rightarrow> rstr \<Rightarrow> rstr \<Rightarrow> run_manager \<Rightarrow> run_manager \<times> started_run res" where
  "start_delegated now_ms started_at tool_name request agent_id session_key self =
     (let seq = rm_counter self;
          self = self\<lparr>rm_counter := (seq + 1) mod 2 ^ 64\<rparr>;
          run_id = next_run_id now_ms seq;
          entry = \<lparr>re_tool_name = tool_name, re_kind = KindDelegated, re_summary = request,
            re_agent_id = agent_id, re_session_key = session_key, re_status = Running,
            re_started_at = started_at, re_finished_at = None, re_claimed = False,
            re_process = None,
            re_delegated = Some \<lparr>ds_request = request, ds_reply = None, ds_error = None\<rparr>\<rparr>
      in (self\<lparr>rm_runs := insert_run run_id entry (rm_runs self)\<rparr>,
          Inr \<lparr>st_run_id = run_id, st_tool_name = tool_name, st_kind = KindDelegated\<rparr>))"

section \<open>Queries\<close>

definition unknown_background :: "rstr \<Rightarrow> framework_error" where
  "unknown_background run_id = ToolError (''unknown background run_id: '' @ run_id)"

definition get_run :: "(rstr \<Rightarrow> rstr option) \<Rightarrow> rstr \<Rightarrow> run_manager \<Rightarrow> run_snapshot res" where
  "get_run files run_id self =
     (case map_of (rm_runs self) run_id of
        None \<Rightarrow> Inl (ToolError (''unknown async tool run_id: '' @ run_id))
      | Some entry \<Rightarrow> Inr (snapshot files run_id entry))"

definition get_for_session ::
  "(rstr \<Rightarrow> rstr option) \<Rightarrow> rstr \<Rightarrow> rstr \<Rightarrow> rstr \<Rightarrow> run_manager \<Rightarrow> run_snapshot res" where
  "get_for_session files run_id agent_id session_key self =
     (case map_of (rm_runs self) run_id of
        None \<Rightarrow> Inl (unknown_background run_id)
      | Some entry \<Rightarrow>
          (if \<not> belongs_to agent_id session_key entry then Inl (unknown_background run_id)
           else Inr (snapshot files run_id entry)))"

text \<open>The list is sorted by descending start time; the sort is stable.\<close>

definition list_for_session ::
  "(rstr \<Rightarrow> rstr option) \<Rightarrow> rstr \<Rightarrow> rstr \<Rightarrow> run_manager \<Rightarrow> run_snapshot list" where
  "list_for_session files agent_id session_key self =
     sort_key (\<lambda>s. - rs_started_at s)
       (map (\<lambda>x. snapshot files (fst x) (snd x))
          (filter (\<lambda>x. belongs_to agent_id session_key (snd x)) (rm_runs self)))"

definition kill_for_session ::
  "(rstr \<Rightarrow> rstr option) \<Rightarrow> rstr option \<Rightarrow> int \<Rightarrow> rstr \<Rightarrow> rstr \<Rightarrow> rstr \<Rightarrow> run_manager \<Rightarrow>
   run_manager \<times> run_snapshot res" where
  "kill_for_session files kill_output now run_id agent_id session_key self =
     (case map_of (rm_runs self) run_id of
        None \<Rightarrow> (self, Inl (unknown_background run_id))
      | Some entry \<Rightarrow>
          (if \<not> belongs_to agent_id session_key entry then (self, Inl (unknown_background run_id))
           else
             (case kill_entry kill_output now entry of
                (entry', Inl e) \<Rightarrow> (self\<lparr>rm_runs := AList.update run_id entry' (rm_runs self)\<rparr>, Inl e)
              | (entry', Inr _) \<Rightarrow>
                  (self\<lparr>rm_runs := AList.update run_id entry' (rm_runs self)\<rparr>,
                   Inr (snapshot files run_id entry')))))"

section \<open>Completion\<close>

definition update_run :: "rstr \<Rightarrow> (run_entry \<Rightarrow> run_entry) \<Rightarrow> run_manager \<Rightarrow> run_manager" where
  "update_run run_id f self =
     (case map_of (rm_runs self) run_id of
        None \<Rightarrow> self
      | Some entry \<Rightarrow> self\<lparr>rm_runs := AList.update run_id (f entry) (rm_runs self)\<rparr>)"

definition mark_process_completed :: "int \<Rightarrow> rstr \<Rightarrow> int option \<Rightarrow> run_manager \<Rightarrow> run_manager" where
  "mark_process_completed now run_id exit_code self =
     update_run run_id
       (\<lambda>entry. if re_status entry = Running
          then entry\<lparr>re_status := Completed,
                     re_process := map_option (\<lambda>p. p\<lparr>ps_exit_code := exit_code\<rparr>) (re_process entry),
                     re_finished_at := Some now\<rparr>
          else entry) self"

definition mark_delegated_completed :: "int \<Rightarrow> rstr \<Rightarrow> rstr res \<Rightarrow> run_manager \<Rightarrow> run_manager" where
  "mark_delegated_completed now run_id result self =
     update_run run_id
       (\<lambda>entry. if re_status entry = Running
          then entry\<lparr>re_status := Completed, re_finished_at := Some now,
                     re_delegated := map_option (\<lambda>d. case result of
                         Inr reply \<Rightarrow> d\<lparr>ds_reply := Some reply, ds_error := None\<rparr>
                       | Inl err \<Rightarrow> d\<lparr>ds_reply := None, ds_error := Some (error_to_string err)\<rparr>)
                       (re_delegated entry)\<rparr>
          else entry) self"

text \<open>The runs are claimed one after the other; the first unknown one ends the claim with its error.\<close>

fun claim_runs ::
  "rstr list \<Rightarrow> rstr \<Rightarrow> rstr \<Rightarrow> run_manager \<Rightarrow> run_manager \<times> (rstr \<times> bool) list res" where
  "claim_runs [] agent_id session_key self = (self, Inr [])"
| "claim_runs (run_id # run_ids) agent_id session_key self =
     (case map_of (rm_runs self) run_id of
        None \<Rightarrow> (self, Inl (unknown_background run_id))
      | Some entry \<Rightarrow>
          (if \<not> belongs_to agent_id session_key entry then (self, Inl (unknown_background run_id))
           else
             (case claim_runs run_ids agent_id session_key
                     (update_run run_id (\<lambda>e. e\<lparr>re_claimed := True\<rparr>) self) of
                (self', Inl e) \<Rightarrow> (self', Inl e)
              | (self', Inr rest) \<Rightarrow> (self', Inr ((run_id, re_status entry \<noteq> Running) # rest)))))"

definition unclaim_runs :: "rstr list \<Rightarrow> run_manager \<Rightarrow> run_manager" where
  "unclaim_runs run_ids self =
     foldl (\<lambda>self run_id. update_run run_id
              (\<lambda>e. if re_status e = Running then e\<lparr>re_claimed := False\<rparr> else e) self) self run_ids"

definition should_reinject :: "rstr \<Rightarrow> run_manager \<Rightarrow> bool" where
  "should_reinject run_id self =
     (case map_of (rm_runs self) run_id of None \<Rightarrow> False | Some entry \<Rightarrow> \<not> re_claimed entry)"

definition completion_content_for_process ::
  "(rstr \<Rightarrow> rstr option) \<Rightarrow> rstr \<Rightarrow> int option \<Rightarrow> run_manager \<Rightarrow> rstr" where
  "completion_content_for_process files run_id exit_code self =
     (let summary = (case get_run files run_id self of Inr s \<Rightarrow> rs_summary s | Inl _ \<Rightarrow> ''unknown'')
      in ''[async tool run completed] run_id='' @ run_id @ '' kind=process exit_code='' @
         show_int (case exit_code of Some c \<Rightarrow> c | None \<Rightarrow> - 1) @ '' summary='' @ summary)"

definition completion_content_for_delegated ::
  "(rstr \<Rightarrow> rstr option) \<Rightarrow> rstr \<Rightarrow> rstr res \<Rightarrow> run_manager \<Rightarrow> rstr" where
  "completion_content_for_delegated files run_id result self =
     (let (tool_name, summary) = (case get_run files run_id self of
            Inr s \<Rightarrow> (rs_tool_name s, rs_summary s) | Inl _ \<Rightarrow> (''unknown'', ''unknown''))
      in case result of
           Inr _ \<Rightarrow> ''[async tool run completed] run_id='' @ run_id @ '' tool='' @ tool_name @
             '' kind=delegated status=ok summary='' @ summary
         | Inl err \<Rightarrow> ''[async tool run completed] run_id='' @ run_id @ '' tool='' @ tool_name @
             '' kind=delegated status=error error='' @ error_to_string err @ '' summary='' @ summary)"

section \<open>Operations of concurrent tasks\<close>

datatype manager_op =
    OpInsert rstr run_entry
  | OpMarkProcess int rstr "int option"
  | OpMarkDelegated int rstr "rstr res"
  | OpKill "rstr option" int rstr rstr rstr
  | OpClaim "rstr list" rstr rstr
  | OpUnclaim "rstr list"

definition manager_step :: "manager_op \<Rightarrow> run_manager \<Rightarrow> run_manager" where
  "manager_step oper s =
     (case oper of
        OpInsert run_id entry \<Rightarrow> s\<lparr>rm_runs := insert_run run_id entry (rm_runs s)\<rparr>
      | OpMarkProcess now run_id exit_code \<Rightarrow> mark_process_completed now run_id exit_code s
      | OpMarkDelegated now run_id result \<Rightarrow> mark_delegated_completed now run_id result s
      | OpKill kill_output now run_id agent_id session_key \<Rightarrow>
          fst (kill_for_session (\<lambda>_. None) kill_output now run_id agent_id session_key s)
      | OpClaim run_ids agent_id session_key \<Rightarrow> fst (claim_runs run_ids agent_id session_key s)
      | OpUnclaim run_ids \<Rightarrow> unclaim_runs run_ids s)"

definition manager_ops :: "manager_op list \<Rightarrow> run_manager \<Rightarrow> run_manager" where
  "manager_ops ops s = foldl (\<lambda>s oper. manager_step oper s) s ops"

text \<open>
  The completion watcher of a run (\<open>spawn_completion_watcher\<close>): it marks the run, builds the
  content and, unless the run is claimed, sends it as a message of the user \<open>system\<close> along
  the route. Other tasks run between these three locked sections.
\<close>

datatype run_outcome = Exited "int option" | Delegated "rstr res"

definition mark_completed :: "int \<Rightarrow> rstr \<Rightarrow> run_outcome \<Rightarrow> run_manager \<Rightarrow> run_manager" where
  "mark_completed now run_id outcome self =
     (case outcome of
        Exited exit_code \<Rightarrow> mark_process_completed now run_id exit_code self
      | Delegated result \<Rightarrow> mark_delegated_completed now run_id result self)"

definition completion_message :: "completion_route \<Rightarrow> rstr \<Rightarrow> inbound_message" where
  "completion_message route content =
     \<lparr>im_trace_id = cr_trace_id route, im_source_channel = cr_source_channel route,
      im_target_agent_id = cr_target_agent_id route, im_session_key = cr_session_key route,
      im_source_message_id = None, im_channel_id = cr_channel_id route, im_guild_id = cr_guild_id route,
      im_is_dm = cr_is_dm route, im_user_id = ''system'', im_username = ''system'',
      im_mentioned_bot = False, im_invoke = True, im_content = content\<rparr>"

definition completion_watcher ::
  "(rstr \<Rightarrow> rstr option) \<Rightarrow> int \<Rightarrow> rstr \<Rightarrow> run_outcome \<Rightarrow> bool \<Rightarrow> completion_route option \<Rightarrow>
   manager_op list \<Rightarrow> manager_op list \<Rightarrow> run_manager \<Rightarrow> run_manager \<times> inbound_message option" where
  "completion_watcher files now run_id outcome has_tx route before_content before_check self =
     (let self = manager_ops before_content (mark_completed now run_id outcome self);
          content = (case outcome of
              Exited exit_code \<Rightarrow> completion_content_for_process files run_id exit_code self
            | Delegated result \<Rightarrow> completion_content_for_delegated files run_id result self);
          self = manager_ops before_check self
      in (self,
          if should_reinject run_id self
          then (case (has_tx, route) of
                  (True, Some route) \<Rightarrow> Some (completion_message route content)
                | _ \<Rightarrow> None)
          else None))"

text \<open>
  \<open>wait_for_session\<close>: other tasks run while it waits (\<open>during\<close>), before it releases the runs
  that still go on (\<open>before_unclaim\<close>) and before the final snapshots (\<open>before_final\<close>).
\<close>

definition wait_for_session ::
  "(rstr \<Rightarrow> rstr option) \<Rightarrow> rstr list \<Rightarrow> rstr \<Rightarrow> rstr \<Rightarrow> manager_op list \<Rightarrow> manager_op list \<Rightarrow>
   manager_op list \<Rightarrow> run_manager \<Rightarrow> run_manager \<times> run_snapshot list res" where
  "wait_for_session files run_ids agent_id session_key during before_unclaim before_final self =
     (case claim_runs run_ids agent_id session_key self of
        (self, Inl e) \<Rightarrow> (self, Inl e)
      | (self, Inr claimed) \<Rightarrow>
          (let self = manager_ops during self
           in case rtraverse (\<lambda>run_id. get_for_session files run_id agent_id session_key self) run_ids of
                Inl e \<Rightarrow> (self, Inl e)
              | Inr snapshots \<Rightarrow>
                  (let still_running = map rs_run_id (filter (\<lambda>s. rs_status s = Running) snapshots);
                       self = manager_ops before_unclaim self;
                       self = unclaim_runs still_running self;
                       self = manager_ops before_final self
                   in (self, rtraverse (\<lambda>run_id. get_for_session files run_id agent_id session_key self)
                               run_ids))))"

section \<open>Eviction\<close>

abbreviation finished :: "rstr \<times> run_entry \<Rightarrow> bool" where
  "finished x \<equiv> re_status (snd x) \<noteq> Running"

lemma foldl_delete:
  "foldl (\<lambda>rs x. AList.delete (fst x) rs) rs xs = filter (\<lambda>x. fst x \<notin> fst ` set xs) rs"
  by (induction xs arbitrary: rs) (auto simp: AList.delete_eq intro!: filter_cong)

lemma filter_take_keys:
  assumes "distinct (map fst xs)"
  shows "filter (\<lambda>x. fst x \<notin> fst ` set (take n xs)) xs = drop n xs"
proof -
  let ?P = "\<lambda>x. fst x \<notin> fst ` set (take n xs)"
  have "distinct (map fst (take n xs) @ map fst (drop n xs))"
    using assms by (metis append_take_drop_id map_append)
  then have "filter ?P (drop n xs) = drop n xs" by (force simp: filter_id_conv disjoint_iff)
  moreover have "filter ?P (take n xs) = []" by (auto simp: filter_empty_conv)
  ultimately have "filter ?P (take n xs @ drop n xs) = drop n xs" by (simp only: filter_append append_Nil)
  then show ?thesis by (simp only: append_take_drop_id)
qed

text \<open>The finished runs from the oldest to the newest, and those that are evicted.\<close>

definition by_age :: "runs \<Rightarrow> (rstr \<times> int) list" where
  "by_age rs = sort_key snd (map (\<lambda>x. (fst x, finished_key (snd x))) (filter finished rs))"

definition victims :: "runs \<Rightarrow> rstr set" where
  "victims rs = fst ` set (take (length (filter finished rs) - 64) (by_age rs))"

lemma auto_evict_filter: "auto_evict rs = filter (\<lambda>x. fst x \<notin> victims rs) rs"
  by (auto simp: auto_evict_def Let_def foldl_delete victims_def by_age_def)

lemma by_age_props:
  assumes "distinct (map fst rs)"
  shows "distinct (map fst (by_age rs))" "sorted (map snd (by_age rs))"
    "set (by_age rs) = (\<lambda>x. (fst x, finished_key (snd x))) ` set (filter finished rs)"
    "mset (by_age rs) = mset (map (\<lambda>x. (fst x, finished_key (snd x))) (filter finished rs))"
proof -
  show m: "mset (by_age rs) = mset (map (\<lambda>x. (fst x, finished_key (snd x))) (filter finished rs))"
    by (simp add: by_age_def)
  have "mset (map fst (by_age rs)) = mset (map fst (filter finished rs))"
    by (simp only: mset_map m) (simp add: multiset.map_comp comp_def)
  moreover have "distinct (map fst (filter finished rs))" using assms by (rule distinct_map_filter)
  ultimately show "distinct (map fst (by_age rs))" using mset_eq_imp_distinct_iff by blast
  show "sorted (map snd (by_age rs))" by (simp add: by_age_def)
  show "set (by_age rs) = (\<lambda>x. (fst x, finished_key (snd x))) ` set (filter finished rs)"
    by (simp add: by_age_def)
qed

lemma victims_finished:
  assumes "distinct (map fst rs)" and "x \<in> set rs" and "fst x \<in> victims rs"
  shows "finished x"
proof -
  from assms(3) obtain y where "y \<in> set (by_age rs)" "fst y = fst x"
    unfolding victims_def by (auto dest!: in_set_takeD)
  then obtain z where "z \<in> set rs" "finished z" "fst z = fst x" by (auto simp: by_age_props(3)[OF assms(1)])
  moreover from this have "z = x" using assms(1,2) by (meson distinct_map inj_onD)
  ultimately show ?thesis by blast
qed

lemma evict_running:
  assumes "distinct (map fst rs)"
  shows "filter (\<lambda>x. \<not> finished x) (auto_evict rs) = filter (\<lambda>x. \<not> finished x) rs"
  using victims_finished[OF assms] by (auto simp: auto_evict_filter intro!: filter_cong)

lemma evict_count:
  assumes "distinct (map fst rs)"
  shows "length (filter finished (auto_evict rs)) = min 64 (length (filter finished rs))"
proof -
  let ?f = "\<lambda>x :: rstr \<times> run_entry. (fst x, finished_key (snd x))" and ?n = "length (filter finished rs) - 64"
  have "length (filter finished (auto_evict rs)) = length (filter (\<lambda>x. fst x \<notin> victims rs) (filter finished rs))"
    by (simp add: auto_evict_filter conj_commute)
  also have "\<dots> = size (filter_mset (\<lambda>y. fst y \<notin> victims rs) (mset (map ?f (filter finished rs))))"
    by (simp only: mset_filter[symmetric] size_mset filter_map length_map) (simp add: comp_def)
  also have "\<dots> = length (filter (\<lambda>y. fst y \<notin> victims rs) (by_age rs))"
    by (simp only: by_age_props(4)[OF assms, symmetric] mset_filter[symmetric] size_mset)
  also have "\<dots> = length (drop ?n (by_age rs))"
    using filter_take_keys[OF by_age_props(1)[OF assms], of ?n] by (simp add: victims_def)
  also have "\<dots> = min 64 (length (filter finished rs))" by (simp add: by_age_def)
  finally show ?thesis .
qed

lemma evict_oldest:
  assumes d: "distinct (map fst rs)" and x: "x \<in> set rs" "x \<notin> set (auto_evict rs)"
    and y: "y \<in> set (auto_evict rs)" "finished y"
  shows "finished_key (snd x) \<le> finished_key (snd y)"
proof -
  let ?n = "length (filter finished rs) - 64" and ?b = "by_age rs"
  have xv: "fst x \<in> victims rs" using x by (auto simp: auto_evict_filter)
  then have "finished x" using victims_finished[OF d x(1)] by blast
  then have xb: "(fst x, finished_key (snd x)) \<in> set ?b" using x(1) by (auto simp: by_age_props(3)[OF d])
  have "(fst x, finished_key (snd x)) \<in> set (take ?n ?b)"
  proof -
    from xv obtain z where z: "z \<in> set (take ?n ?b)" "fst z = fst x" by (auto simp: victims_def)
    then have "z \<in> set ?b" by (meson in_set_takeD)
    then have "z = (fst x, finished_key (snd x))"
      using xb z(2) by_age_props(1)[OF d] inj_onD[of fst "set ?b" z "(fst x, finished_key (snd x))"]
      by (simp add: distinct_map)
    then show ?thesis using z(1) by simp
  qed
  moreover have "(fst y, finished_key (snd y)) \<in> set (drop ?n ?b)"
  proof -
    have "y \<in> set rs" "fst y \<notin> victims rs" using y(1) by (auto simp: auto_evict_filter)
    then have "(fst y, finished_key (snd y)) \<in> set ?b" using y(2) by (auto simp: by_age_props(3)[OF d])
    moreover have "(fst y, finished_key (snd y)) \<notin> set (take ?n ?b)"
    proof
      assume "(fst y, finished_key (snd y)) \<in> set (take ?n ?b)"
      from imageI[OF this, of fst] \<open>fst y \<notin> victims rs\<close> show False by (simp add: victims_def)
    qed
    ultimately have "(fst y, finished_key (snd y)) \<in> set ?b" "(fst y, finished_key (snd y)) \<notin> set (take ?n ?b)"
      by blast+
    then show ?thesis by (metis Un_iff append_take_drop_id set_append)
  qed
  moreover have "sorted (map snd (take ?n ?b) @ map snd (drop ?n ?b))"
    using by_age_props(2)[OF d] by (metis append_take_drop_id map_append)
  ultimately show ?thesis by (force simp: sorted_append)
qed

text \<open>
  C8. Eviction: a new run evicts only finished runs, keeps every running one, leaves at
  most 64 finished runs (exactly the surplus goes), and no evicted run finished later than a
  finished run that stays.
\<close>

theorem auto_evict_bounds:
  assumes "distinct (map fst rs)"
  shows "filter (\<lambda>x. re_status (snd x) = Running) (auto_evict rs) = filter (\<lambda>x. re_status (snd x) = Running) rs \<and>
    length (filter finished (auto_evict rs)) = min 64 (length (filter finished rs)) \<and>
    (\<forall>x\<in>set rs - set (auto_evict rs). \<forall>y\<in>set (auto_evict rs).
       finished y \<longrightarrow> finished_key (snd x) \<le> finished_key (snd y))"
  using evict_running[OF assms] evict_count[OF assms] evict_oldest[OF assms] by auto

abbreviation sample_run :: "run_status \<Rightarrow> int \<Rightarrow> run_entry" where
  "sample_run st t \<equiv>
     \<lparr>re_tool_name = ''exec'', re_kind = KindProcess, re_summary = ''ls'', re_agent_id = ''a'',
      re_session_key = ''s'', re_status = st, re_started_at = 0, re_finished_at = Some t,
      re_claimed = False, re_process = None, re_delegated = None\<rparr>"

theorem auto_evict_bounds_witness:
  "length (filter finished (auto_evict (map (\<lambda>i. (show_nat i, sample_run Completed (int i))) [0..<70]))) = 64"
proof -
  let ?rs = "map (\<lambda>i. (show_nat i, sample_run Completed (int i))) [0..<70]"
  have "distinct (map fst ?rs)" by (simp add: comp_def distinct_map inj_on_def)
  moreover have "length (filter finished ?rs) = 70" by (simp add: filter_map comp_def)
  ultimately show ?thesis using auto_evict_bounds[of ?rs] by simp
qed

section \<open>The keys stay distinct\<close>

abbreviation keys_distinct :: "run_manager \<Rightarrow> bool" where
  "keys_distinct s \<equiv> distinct (map fst (rm_runs s))"

lemma keys_update_run [simp]: "keys_distinct s \<Longrightarrow> keys_distinct (update_run i f s)"
  by (simp add: update_run_def distinct_update split: option.splits)

lemma lookup_update_run [simp]:
  "map_of (rm_runs (update_run i f s)) j =
     (if j = i then map_option f (map_of (rm_runs s) i) else map_of (rm_runs s) j)"
  by (auto simp: update_run_def update_conv' split: option.splits)

lemma keys_insert_run: "distinct (map fst rs) \<Longrightarrow> distinct (map fst (insert_run i e rs))"
  by (simp add: insert_run_def auto_evict_filter distinct_map_filter distinct_update)

lemma claim_state:
  "fst (claim_runs (i # is) a k s) =
     (case map_of (rm_runs s) i of
        None \<Rightarrow> s
      | Some e \<Rightarrow> (if belongs_to a k e then fst (claim_runs is a k (update_run i (\<lambda>e. e\<lparr>re_claimed := True\<rparr>) s)) else s))"
  by (simp split: option.splits prod.splits sum.splits)

lemma keys_claim: "keys_distinct s \<Longrightarrow> keys_distinct (fst (claim_runs is a k s))"
proof (induction "is" arbitrary: s)
  case (Cons i "is")
  then show ?case by (simp del: claim_runs.simps add: claim_state split: option.splits)
qed simp

lemma keys_unclaim: "keys_distinct s \<Longrightarrow> keys_distinct (unclaim_runs is s)"
  by (induction "is" arbitrary: s) (simp_all add: unclaim_runs_def)

lemma kill_for_session_state:
  "fst (kill_for_session files out now i a k s) =
     (case map_of (rm_runs s) i of
        None \<Rightarrow> s
      | Some e \<Rightarrow> (if belongs_to a k e then update_run i (\<lambda>e. fst (kill_entry out now e)) s else s))"
  by (auto simp: kill_for_session_def update_run_def split: option.splits prod.splits sum.splits)

lemma keys_step: "keys_distinct s \<Longrightarrow> keys_distinct (manager_step oper s)"
  by (cases oper)
     (auto simp: manager_step_def keys_insert_run keys_claim keys_unclaim kill_for_session_state
        mark_process_completed_def mark_delegated_completed_def split: option.splits)

lemma manager_ops_simps [simp]:
  "manager_ops [] s = s" "manager_ops (oper # ops) s = manager_ops ops (manager_step oper s)"
  by (simp_all add: manager_ops_def)

lemma keys_ops: "keys_distinct s \<Longrightarrow> keys_distinct (manager_ops ops s)"
  by (induction ops arbitrary: s) (simp_all add: keys_step)

section \<open>How one run evolves\<close>

definition same_but_claim :: "run_entry \<Rightarrow> run_entry \<Rightarrow> bool" where
  "same_but_claim e d \<longleftrightarrow> d\<lparr>re_claimed := re_claimed e\<rparr> = e"

lemma same_but_claim_refl [simp]: "same_but_claim e e"
  by (simp add: same_but_claim_def)

lemma same_but_claim_upd [simp]: "same_but_claim e (d\<lparr>re_claimed := c\<rparr>) = same_but_claim e d"
  by (simp add: same_but_claim_def)

lemma same_but_claim_status: "same_but_claim e d \<Longrightarrow> re_status d = re_status e"
  by (cases e; cases d) (simp add: same_but_claim_def)

lemma same_but_claim_trans: "same_but_claim e d \<Longrightarrow> same_but_claim d c \<Longrightarrow> same_but_claim e c"
  by (cases e; cases d; cases c) (simp add: same_but_claim_def)

lemma map_of_filter_keys: "map_of (filter (\<lambda>x. fst x \<notin> V) rs) j = (if j \<in> V then None else map_of rs j)"
  by (induction rs) auto

lemma lookup_insert_run:
  "map_of (insert_run i e rs) j =
     (if j \<in> victims (AList.update i e rs) then None else if j = i then Some e else map_of rs j)"
  by (simp add: insert_run_def auto_evict_filter map_of_filter_keys update_conv')

lemma lookup_claim:
  "map_of (rm_runs s) j = Some e \<Longrightarrow>
   \<exists>d. map_of (rm_runs (fst (claim_runs is a k s))) j = Some d \<and> same_but_claim e d"
proof (induction "is" arbitrary: s e)
  case (Cons i "is")
  let ?s = "update_run i (\<lambda>e. e\<lparr>re_claimed := True\<rparr>) s"
  obtain e' where e': "map_of (rm_runs ?s) j = Some e'" "same_but_claim e e'"
    using Cons.prems by (cases "j = i") auto
  from Cons.IH[OF e'(1)] e'(2) show ?case using Cons.prems
    by (auto simp del: claim_runs.simps simp: claim_state split: option.splits intro: same_but_claim_trans)
qed simp

lemma unclaim_simps [simp]:
  "unclaim_runs [] s = s"
  "unclaim_runs (i # is) s =
     unclaim_runs is (update_run i (\<lambda>e. if re_status e = Running then e\<lparr>re_claimed := False\<rparr> else e) s)"
  by (simp_all add: unclaim_runs_def)

lemma lookup_unclaim:
  "map_of (rm_runs (unclaim_runs is s)) j =
     map_option (\<lambda>e. if j \<in> set is \<and> re_status e = Running then e\<lparr>re_claimed := False\<rparr> else e) (map_of (rm_runs s) j)"
proof (induction "is" arbitrary: s)
  case Nil
  then show ?case by (simp add: option.map_ident)
next
  case (Cons i "is")
  then show ?case by (cases "map_of (rm_runs s) j") auto
qed

text \<open>A finished run changes only in whether it is claimed, until it is evicted.\<close>

lemma finished_step:
  assumes "map_of (rm_runs s) j = Some e" and "re_status e \<noteq> Running" and "\<And>d. oper \<noteq> OpInsert j d"
  shows "case map_of (rm_runs (manager_step oper s)) j of None \<Rightarrow> True | Some d \<Rightarrow> same_but_claim e d"
proof (cases oper)
  case (OpInsert i d)
  then show ?thesis using assms by (auto simp: manager_step_def lookup_insert_run)
next
  case (OpKill out now i a k)
  then show ?thesis using assms
    by (auto simp: manager_step_def kill_for_session_state kill_entry_def split: option.splits)
next
  case (OpClaim "is" a k)
  then show ?thesis using lookup_claim[OF assms(1), of "is" a k] by (auto simp: manager_step_def)
next
  case (OpUnclaim "is")
  then show ?thesis using assms by (simp add: manager_step_def lookup_unclaim)
next
  case (OpMarkProcess now i c)
  then show ?thesis using assms by (cases "j = i") (simp_all add: manager_step_def mark_process_completed_def)
next
  case (OpMarkDelegated now i r)
  then show ?thesis using assms by (cases "j = i") (simp_all add: manager_step_def mark_delegated_completed_def)
qed

lemma absent_step:
  assumes "map_of (rm_runs s) j = None" and "\<And>d. oper \<noteq> OpInsert j d"
  shows "map_of (rm_runs (manager_step oper s)) j = None"
proof (cases oper)
  case (OpInsert i d)
  then show ?thesis using assms by (auto simp: manager_step_def lookup_insert_run)
next
  case (OpClaim "is" a k)
  have "map_of (rm_runs (fst (claim_runs is a k s))) j = None"
    using assms(1)
  proof (induction "is" arbitrary: s)
    case (Cons i "is")
    have "map_of (rm_runs (update_run i (\<lambda>e. e\<lparr>re_claimed := True\<rparr>) s)) j = None"
      using Cons.prems by (cases "j = i") auto
    from Cons.IH[OF this] Cons.prems show ?case
      by (auto simp del: claim_runs.simps simp: claim_state split: option.splits)
  qed simp
  then show ?thesis using OpClaim by (simp add: manager_step_def)
qed (use assms in \<open>auto simp: manager_step_def mark_process_completed_def mark_delegated_completed_def
       kill_for_session_state lookup_unclaim split: option.splits\<close>)

lemma absent_ops:
  "map_of (rm_runs s) j = None \<Longrightarrow> \<forall>d. OpInsert j d \<notin> set ops \<Longrightarrow> map_of (rm_runs (manager_ops ops s)) j = None"
proof (induction ops arbitrary: s)
  case (Cons oper ops)
  then show ?case using absent_step[OF Cons.prems(1), of oper] by auto
qed simp

lemma finished_ops:
  assumes "map_of (rm_runs s) j = Some e" and "re_status e \<noteq> Running" and "\<forall>d. OpInsert j d \<notin> set ops"
  shows "case map_of (rm_runs (manager_ops ops s)) j of None \<Rightarrow> True | Some d \<Rightarrow> same_but_claim e d"
  using assms
proof (induction ops arbitrary: s e)
  case (Cons oper ops)
  have "\<And>d. oper \<noteq> OpInsert j d" using Cons.prems(3) by auto
  note step = finished_step[OF Cons.prems(1,2) this]
  show ?case
  proof (cases "map_of (rm_runs (manager_step oper s)) j")
    case None
    then show ?thesis using absent_ops[OF None, of ops] Cons.prems(3) by simp
  next
    case (Some d)
    with step have d: "same_but_claim e d" by simp
    from Cons.IH[OF Some] Cons.prems(2,3) same_but_claim_status[OF d]
    show ?thesis using same_but_claim_trans[OF d] by (auto split: option.splits)
  qed
qed simp

text \<open>
  C9. Finishing is final: a run that is completed or killed keeps its status, exit code,
  reply, error and finishing time under every sequence of operations of other tasks (only
  its claim flag may change), until it is evicted; it never runs again.
\<close>

theorem finished_run_final:
  assumes "map_of (rm_runs s) j = Some e" and "re_status e \<noteq> Running" and "\<forall>d. OpInsert j d \<notin> set ops"
  shows "case map_of (rm_runs (manager_ops ops s)) j of
           None \<Rightarrow> True | Some d \<Rightarrow> d\<lparr>re_claimed := re_claimed e\<rparr> = e"
  using finished_ops[OF assms] unfolding same_but_claim_def .

theorem finished_run_final_witness:
  "case map_of (rm_runs (manager_ops [OpMarkProcess 9 ''r'' (Some 0), OpKill None 9 ''r'' ''a'' ''s'', OpClaim [''r''] ''a'' ''s'']
      \<lparr>rm_runs = [(''r'', sample_run Killed 5)], rm_counter = 2\<rparr>)) ''r'' of
     None \<Rightarrow> True | Some d \<Rightarrow> d\<lparr>re_claimed := re_claimed (sample_run Killed 5)\<rparr> = sample_run Killed 5"
  by (rule finished_run_final) simp_all

section \<open>Sessions do not see each other's runs\<close>

definition own_run :: "rstr \<Rightarrow> rstr \<Rightarrow> run_manager \<Rightarrow> rstr \<Rightarrow> run_entry option" where
  "own_run agent_id session_key s i =
     (case map_of (rm_runs s) i of
        Some e \<Rightarrow> (if belongs_to agent_id session_key e then Some e else None) | None \<Rightarrow> None)"

definition session_view :: "rstr \<Rightarrow> rstr \<Rightarrow> run_manager \<Rightarrow> run_manager" where
  "session_view agent_id session_key s =
     s\<lparr>rm_runs := filter (\<lambda>x. belongs_to agent_id session_key (snd x)) (rm_runs s)\<rparr>"

lemma map_of_filter_value:
  "distinct (map fst rs) \<Longrightarrow>
   map_of (filter (\<lambda>x. P (snd x)) rs) j = (case map_of rs j of Some e \<Rightarrow> if P e then Some e else None | None \<Rightarrow> None)"
  by (induction rs) (auto split: option.splits dest: map_of_SomeD simp: rev_image_eqI)

lemma own_run_view: "keys_distinct s \<Longrightarrow> own_run a k (session_view a k s) = own_run a k s"
  by (auto simp: own_run_def session_view_def map_of_filter_value fun_eq_iff split: option.splits)

lemma get_for_session_own:
  "get_for_session files i a k s =
     (case own_run a k s i of None \<Rightarrow> Inl (unknown_background i) | Some e \<Rightarrow> Inr (snapshot files i e))"
  by (simp add: get_for_session_def own_run_def split: option.splits)

lemma kill_for_session_own:
  "snd (kill_for_session files out now i a k s) =
     (case own_run a k s i of None \<Rightarrow> Inl (unknown_background i)
      | Some e \<Rightarrow> (case kill_entry out now e of (_, Inl err) \<Rightarrow> Inl err | (e', Inr _) \<Rightarrow> Inr (snapshot files i e')))"
  by (simp add: kill_for_session_def own_run_def split: option.splits prod.splits sum.splits)

lemma belongs_to_claimed [simp]: "belongs_to a k (e\<lparr>re_claimed := c\<rparr>) = belongs_to a k e"
  by (simp add: belongs_to_def)

lemma claim_runs_own:
  "own_run a k s = own_run a k t \<Longrightarrow> snd (claim_runs is a k s) = snd (claim_runs is a k t)"
proof (induction "is" arbitrary: s t)
  case (Cons i "is")
  let ?f = "update_run i (\<lambda>e. e\<lparr>re_claimed := True\<rparr>)"
  have upd: "own_run a k (?f u) j =
      (if j = i then map_option (\<lambda>e. e\<lparr>re_claimed := True\<rparr>) (own_run a k u i) else own_run a k u j)" for u j
    by (auto simp: own_run_def split: option.splits)
  have unf: "snd (claim_runs (i # is) a k u) =
      (case own_run a k u i of None \<Rightarrow> Inl (unknown_background i)
       | Some e \<Rightarrow> map_sum id (\<lambda>rest. (i, re_status e \<noteq> Running) # rest) (snd (claim_runs is a k (?f u))))" for u
    by (auto simp: own_run_def split: option.splits prod.splits sum.splits)
  have "own_run a k (?f s) = own_run a k (?f t)" by (rule ext) (simp add: upd Cons.prems)
  from Cons.IH[OF this] show ?case unfolding unf Cons.prems by (simp split: option.splits)
qed simp

lemma claim_foreign:
  "map_of (rm_runs s) j = Some e \<Longrightarrow> \<not> belongs_to a k e \<Longrightarrow> map_of (rm_runs (fst (claim_runs is a k s))) j = Some e"
proof (induction "is" arbitrary: s)
  case (Cons i "is")
  show ?case
  proof (cases "own_run a k s i")
    case None
    then show ?thesis using Cons.prems
      by (auto simp del: claim_runs.simps simp: claim_state own_run_def split: option.splits if_splits)
  next
    case (Some d)
    then have "map_of (rm_runs s) i = Some d" "belongs_to a k d"
      by (auto simp: own_run_def split: option.splits if_splits)
    moreover from this have "j \<noteq> i" using Cons.prems by auto
    ultimately show ?thesis using Cons by (simp del: claim_runs.simps add: claim_state)
  qed
qed simp

text \<open>
  Sessions are isolated: what the operations of a session answer is a function of the
  runs of that session alone (a run of another session is reported exactly like one that
  does not exist), and they never change a run of another session.
\<close>

theorem session_isolation:
  assumes "distinct (map fst (rm_runs s))"
  shows "get_for_session files i a k s = get_for_session files i a k (session_view a k s) \<and>
    list_for_session files a k s = list_for_session files a k (session_view a k s) \<and>
    snd (kill_for_session files out now i a k s) = snd (kill_for_session files out now i a k (session_view a k s)) \<and>
    snd (claim_runs is a k s) = snd (claim_runs is a k (session_view a k s)) \<and>
    (\<forall>j e. map_of (rm_runs s) j = Some e \<and> \<not> belongs_to a k e \<longrightarrow>
       map_of (rm_runs (fst (kill_for_session files out now i a k s))) j = Some e \<and>
       map_of (rm_runs (fst (claim_runs is a k s))) j = Some e)"
proof -
  note own = own_run_view[OF assms, of a k]
  have "list_for_session files a k s = list_for_session files a k (session_view a k s)"
    by (simp add: list_for_session_def session_view_def)
  moreover have "map_of (rm_runs (fst (kill_for_session files out now i a k s))) j = Some e"
    if "map_of (rm_runs s) j = Some e" "\<not> belongs_to a k e" for j e
    using that by (auto simp: kill_for_session_state split: option.splits)
  moreover have "snd (claim_runs is a k s) = snd (claim_runs is a k (session_view a k s))"
    by (rule claim_runs_own) (simp add: own)
  ultimately show ?thesis using claim_foreign[of s _ _ a k "is"]
    by (simp add: get_for_session_own kill_for_session_own own)
qed

theorem session_isolation_witness:
  "snd (kill_for_session (\<lambda>_. None) None 7 ''r'' ''b'' ''t'' \<lparr>rm_runs = [(''r'', sample_run Running 5)], rm_counter = 2\<rparr>)
     = Inl (unknown_background ''r'')"
  using session_isolation[of "\<lparr>rm_runs = [(''r'', sample_run Running 5)], rm_counter = 2\<rparr>" "\<lambda>_. None" "''r''" "''b''" "''t''" None 7]
  by (simp add: session_view_def belongs_to_def kill_for_session_def)

section \<open>A completion is delivered once\<close>

lemma unclaimed_step:
  assumes "map_of (rm_runs s) j = Some e" and "\<not> re_claimed e"
    and "\<And>d. oper \<noteq> OpInsert j d" and "\<And>is a k. oper \<noteq> OpClaim is a k"
  shows "case map_of (rm_runs (manager_step oper s)) j of None \<Rightarrow> True | Some d \<Rightarrow> \<not> re_claimed d"
proof (cases oper)
  case (OpInsert i d)
  then show ?thesis using assms by (auto simp: manager_step_def lookup_insert_run)
next
  case (OpMarkProcess now i c)
  then show ?thesis using assms by (cases "j = i") (simp_all add: manager_step_def mark_process_completed_def)
next
  case (OpMarkDelegated now i r)
  then show ?thesis using assms by (cases "j = i") (simp_all add: manager_step_def mark_delegated_completed_def)
next
  case (OpKill out now i a k)
  then show ?thesis using assms
    by (auto simp: manager_step_def kill_for_session_state kill_entry_def split: option.splits)
next
  case (OpUnclaim "is")
  then show ?thesis using assms by (simp add: manager_step_def lookup_unclaim)
qed (use assms in simp)

lemma unclaimed_ops:
  assumes "map_of (rm_runs s) j = Some e" and "\<not> re_claimed e"
    and "\<forall>d. OpInsert j d \<notin> set ops" and "\<forall>is a k. OpClaim is a k \<notin> set ops"
  shows "case map_of (rm_runs (manager_ops ops s)) j of None \<Rightarrow> True | Some d \<Rightarrow> \<not> re_claimed d"
  using assms
proof (induction ops arbitrary: s e)
  case (Cons oper ops)
  have no: "\<And>d. oper \<noteq> OpInsert j d" "\<And>is a k. oper \<noteq> OpClaim is a k" using Cons.prems(3,4) by auto
  note step = unclaimed_step[OF Cons.prems(1,2) no]
  show ?case
  proof (cases "map_of (rm_runs (manager_step oper s)) j")
    case None
    then show ?thesis using absent_ops[OF None, of ops] Cons.prems(3) by simp
  next
    case (Some d)
    with step Cons.IH[OF Some] Cons.prems(3,4) show ?thesis by auto
  qed
qed simp

lemma manager_ops_append: "manager_ops (xs @ ys) s = manager_ops ys (manager_ops xs s)"
  by (simp add: manager_ops_def)

lemma still_running_back:
  assumes "map_of (rm_runs (manager_ops ops s)) j = Some d" and "re_status d = Running"
    and "\<forall>e. OpInsert j e \<notin> set ops"
  shows "\<exists>e. map_of (rm_runs s) j = Some e \<and> re_status e = Running"
proof (cases "map_of (rm_runs s) j")
  case None
  then show ?thesis using absent_ops[OF None assms(3)] assms(1) by simp
next
  case (Some e)
  then show ?thesis using finished_ops[OF Some _ assms(3)] assms(1,2)
    by (cases "re_status e = Running") (auto dest: same_but_claim_status)
qed

lemma get_for_session_run:
  assumes "get_for_session files i a k s = Inr v"
  shows "\<exists>e. map_of (rm_runs s) i = Some e \<and> v = snapshot files i e"
  using assms by (auto simp: get_for_session_def split: option.splits if_splits)

lemma snapshot_sel [simp]:
  "rs_run_id (snapshot files i e) = i" "rs_status (snapshot files i e) = re_status e"
  by (simp_all add: snapshot_def)

lemma traverse_snapshots:
  "rtraverse (\<lambda>i. get_for_session files i a k s) is = Inr vs \<Longrightarrow>
   vs = map (\<lambda>i. snapshot files i (the (map_of (rm_runs s) i))) is \<and> (\<forall>i\<in>set is. map_of (rm_runs s) i \<noteq> None)"
proof (induction "is" arbitrary: vs)
  case (Cons i "is")
  then show ?case using get_for_session_run by (fastforce simp: rbind_eq_Inr)
qed simp

lemma wait_releases:
  assumes w: "wait_for_session files ids a k during before_unclaim before_final s = (s', Inr vs)"
    and v: "v \<in> set vs" "rs_status v = Running"
    and ops: "\<forall>d. OpInsert (rs_run_id v) d \<notin> set (before_unclaim @ before_final)"
      "\<forall>is a k. OpClaim is a k \<notin> set before_final"
  shows "should_reinject (rs_run_id v) s'"
proof -
  obtain s1 c where c: "claim_runs ids a k s = (s1, Inr c)"
    using w by (auto simp: wait_for_session_def split: prod.splits sum.splits)
  define s2 where "s2 = manager_ops during s1"
  from w c obtain us where us: "rtraverse (\<lambda>i. get_for_session files i a k s2) ids = Inr us"
    by (auto simp: wait_for_session_def Let_def s2_def split: sum.splits)
  define still where "still = map rs_run_id (filter (\<lambda>s. rs_status s = Running) us)"
  define s4 where "s4 = unclaim_runs still (manager_ops before_unclaim s2)"
  have s': "s' = manager_ops before_final s4"
    and vs: "rtraverse (\<lambda>i. get_for_session files i a k s') ids = Inr vs"
    using w c us by (auto simp: wait_for_session_def Let_def s2_def s4_def still_def)
  from traverse_snapshots[OF vs] v obtain i d where i: "i \<in> set ids" "v = snapshot files i d"
      "map_of (rm_runs s') i = Some d" "re_status d = Running"
    by auto
  have s4': "s' = manager_ops (before_unclaim @ [OpUnclaim still] @ before_final) s2"
    by (simp add: s' s4_def manager_ops_append manager_step_def)
  have noins: "\<forall>e. OpInsert i e \<notin> set (before_unclaim @ [OpUnclaim still] @ before_final)" using ops(1) i(2) by auto
  obtain e2 where e2: "map_of (rm_runs s2) i = Some e2" "re_status e2 = Running"
    using still_running_back[OF i(3)[unfolded s4'] i(4) noins] by blast
  then have "i \<in> set still" using traverse_snapshots[OF us] i(1) by (auto simp: still_def image_iff)
  obtain e4 where e4: "map_of (rm_runs s4) i = Some e4" "re_status e4 = Running"
    using still_running_back[OF i(3)[unfolded s'] i(4)] noins by auto
  then have "\<not> re_claimed e4" using \<open>i \<in> set still\<close> 
    by (auto simp: s4_def lookup_unclaim split: if_splits dest!: arg_cong[where f = re_claimed])
  then have "\<not> re_claimed d" using unclaimed_ops[OF e4(1), of before_final] i(3) noins ops(2) by (simp add: s')
  then show ?thesis using i by (simp add: should_reinject_def)
qed

text \<open>
  Waiting never swallows a completion: when a wait returns with a run still going, that
  run is released, so that its completion will be re-injected into the conversation, as long
  as no other wait claims it meanwhile.
\<close>

theorem wait_releases_running:
  assumes "wait_for_session files ids a k during before_unclaim before_final s = (s', Inr vs)"
    and "v \<in> set vs" and "rs_status v = Running"
    and "\<forall>d. OpInsert (rs_run_id v) d \<notin> set (before_unclaim @ before_final)"
    and "\<forall>is a k. OpClaim is a k \<notin> set before_final"
  shows "should_reinject (rs_run_id v) s'"
  by (rule wait_releases[OF assms])

abbreviation sample_manager :: run_manager where
  "sample_manager \<equiv> \<lparr>rm_runs = [(''r'', sample_run Running 5)], rm_counter = 2\<rparr>"

theorem wait_releases_running_witness:
  "should_reinject ''r'' (fst (wait_for_session (\<lambda>_. None) [''r''] ''a'' ''s'' [] [] [] sample_manager))"
proof -
  let ?w = "wait_for_session (\<lambda>_. None) [''r''] ''a'' ''s'' [] [] [] sample_manager"
  let ?v = "snapshot (\<lambda>_. None) ''r'' (sample_run Running 5)"
  have "?w = (fst ?w, Inr [?v])"
    by (simp add: wait_for_session_def update_run_def belongs_to_def get_for_session_def Let_def snapshot_def)
  from wait_releases_running[OF this, of ?v] show ?thesis by simp
qed

text \<open>
  A failed wait swallows completions: when a wait names a run of its session and then
  an unknown one, it fails, and the first run stays claimed; when that run then completes,
  no message is sent, whatever its route.
\<close>

theorem failed_wait_swallows_completion:
  assumes "map_of (rm_runs s) r = Some e" and "belongs_to a k e" and "map_of (rm_runs s) u = None"
  shows "case wait_for_session files [r, u] a k during before_unclaim before_final s of
    (s', outcome) \<Rightarrow> outcome = Inl (unknown_background u) \<and>
      snd (completion_watcher files now r exit_status has_tx route [] [] s') = None"
proof -
  let ?s = "update_run r (\<lambda>e. e\<lparr>re_claimed := True\<rparr>) s"
  have "r \<noteq> u" using assms by auto
  then have "claim_runs [r, u] a k s = (?s, Inl (unknown_background u))" using assms by simp
  moreover have "\<not> should_reinject r (mark_completed now r exit_status ?s)"
    using assms(1) by (auto simp: should_reinject_def mark_completed_def mark_process_completed_def
        mark_delegated_completed_def split: run_outcome.splits)
  ultimately show ?thesis by (simp add: wait_for_session_def completion_watcher_def Let_def)
qed

theorem failed_wait_swallows_completion_witness:
  "snd (completion_watcher (\<lambda>_. None) 9 ''r'' (Exited (Some 0)) True None [] []
     (fst (wait_for_session (\<lambda>_. None) [''r'', ''u''] ''a'' ''s'' [] [] [] sample_manager))) = None"
  using failed_wait_swallows_completion[of sample_manager "''r''" "sample_run Running 5" "''a''" "''s''" "''u''",
      where files = "\<lambda>_. None" and during = "[]" and before_unclaim = "[]" and before_final = "[]"
        and now = 9 and exit_status = "Exited (Some 0)" and has_tx = True and route = None]
  by (simp add: belongs_to_def split: prod.splits)

text \<open>
  The captured output: of a log that is well-formed UTF-8, a snapshot shows the whole
  content when it fits, the last bytes when the cut falls between two characters, and
  nothing at all when the cut falls inside a character.
\<close>

lemma output_tail_at_boundary:
  assumes "files path = Some content" and "valid_utf8 content"
  shows "read_process_output_tail files path limit =
    (if length content \<le> limit then content
     else case slice_from content (length content - limit) of Some rest \<Rightarrow> rest | None \<Rightarrow> [])"
proof (cases "length content \<le> limit")
  case True
  then show ?thesis using assms by (simp add: read_process_output_tail_def Let_def)
next
  case False
  let ?i = "length content - limit"
  show ?thesis
  proof (cases "is_char_boundary content ?i")
    case True
    then show ?thesis using assms False valid_utf8_drop[OF assms(2) True]
      by (simp add: read_process_output_tail_def Let_def slice_from_def)
  next
    case nb: False
    then have "?i < length content" "is_cont (content ! ?i)"
      using False by (auto simp: is_char_boundary_def)
    then have "\<not> valid_utf8 (drop ?i content)"
      using valid_utf8_cont[of "content ! ?i" "drop (Suc ?i) content"] by (simp add: Cons_nth_drop_Suc)
    then show ?thesis using assms False nb by (simp add: read_process_output_tail_def Let_def slice_from_def)
  qed
qed

end
