(* ===== verification/Secrets.thy ===== *)
theory Secrets
  imports Errors
begin

text \<open>
  \<open>src/secrets.rs\<close>: references to secrets and their resolution. The environment is an
  argument (what \<open>std::env::var\<close> returns), the parsed secrets file a map. A slice of a
  string at a position that is not a character boundary is a panic, \<open>None\<close>.
\<close>

record secret =
  sec_name :: rstr
  sec_resolved :: "rstr option"

definition secret_from_name :: "rstr \<Rightarrow> secret" where
  "secret_from_name name = \<lparr>sec_name = name, sec_resolved = None\<rparr>"

definition exposed :: "secret \<Rightarrow> rstr option" where
  "exposed self = sec_resolved self"

definition secret_debug :: "secret \<Rightarrow> rstr" where
  "secret_debug self = ''Secret([redacted])''"

abbreviation secret_prefix :: rstr where "secret_prefix \<equiv> ''${secret:''"
abbreviation secret_suffix :: rstr where "secret_suffix \<equiv> ''}''"

definition secret_serialize :: "secret \<Rightarrow> rstr" where
  "secret_serialize self = secret_prefix @ sec_name self @ secret_suffix"

definition is_valid_secret_name :: "rstr \<Rightarrow> bool" where
  "is_valid_secret_name name \<longleftrightarrow>
     list_all (\<lambda>ch. is_ascii_alnum ch \<or> ch = CHR ''_'' \<or> ch = CHR ''-'' \<or> ch = CHR ''.'') name"

text \<open>\<open>&s[from..to]\<close>: both ends character boundaries, in order.\<close>

definition slice :: "rstr \<Rightarrow> nat \<Rightarrow> nat \<Rightarrow> rstr option" where
  "slice s from to =
     (if from \<le> to \<and> to \<le> length s \<and> is_char_boundary s from \<and> is_char_boundary s to
      then Some (take (to - from) (drop from s)) else None)"

definition parse_secret_reference :: "rstr \<Rightarrow> rstr \<Rightarrow> rstr res option" where
  "parse_secret_reference field_path raw =
     (let trimmed = trim raw
      in if take (length secret_prefix) trimmed \<noteq> secret_prefix \<or>
            \<not> (length secret_suffix \<le> length trimmed \<and>
               drop (length trimmed - length secret_suffix) trimmed = secret_suffix)
         then Some (Inl (ConfigError (field_path @ '' must use secret reference syntax ${secret:<name>}'')))
         else
           (case slice trimmed (length secret_prefix) (length trimmed - length secret_suffix) of
              None \<Rightarrow> None
            | Some name \<Rightarrow>
                (if name = [] \<or> \<not> is_valid_secret_name name
                 then Some (Inl (ConfigError (field_path @ '' has invalid secret reference '' @ [SQ] @ trimmed @ [SQ] @
                        ''; expected ${secret:<name>} with [A-Za-z0-9_.-]+'')))
                 else Some (Inr name))))"

definition ensure_nonempty :: "rstr \<Rightarrow> rstr \<Rightarrow> rstr \<Rightarrow> rstr \<Rightarrow> rstr res" where
  "ensure_nonempty v source name secrets_path_display =
     (if trim v = []
      then Inl (ConfigError (''secret '' @ [SQ] @ name @ [SQ] @ '' resolved from '' @ source @
             '' is empty; expected a non-empty value (searched env first, then '' @ secrets_path_display @ '')''))
      else Inr v)"

record secret_resolver =
  sr_file_secrets :: "rstr \<rightharpoonup> rstr"
  sr_secrets_path_display :: rstr

text \<open>
  \<open>SecretResolver::new\<close>: \<open>file\<close> is \<open>None\<close> when the file does not exist, and otherwise the
  result of reading it; \<open>parse_yaml\<close> is the YAML parser, its error the text of the error.
\<close>

definition resolver_new ::
  "(rstr \<Rightarrow> rstr + (rstr \<rightharpoonup> rstr)) \<Rightarrow> rstr \<Rightarrow> rstr res option \<Rightarrow> secret_resolver res" where
  "resolver_new parse_yaml path_display file =
     rbind (case file of
              None \<Rightarrow> Inr Map.empty
            | Some (Inl e) \<Rightarrow> Inl e
            | Some (Inr content) \<Rightarrow>
                (if trim content \<noteq> [] then
                   (case parse_yaml content of
                      Inr m \<Rightarrow> Inr m
                    | Inl err \<Rightarrow> Inl (ConfigError (''failed to parse secrets file '' @ path_display @ '': '' @ err)))
                 else Inr Map.empty))
       (\<lambda>m. Inr \<lparr>sr_file_secrets = m, sr_secrets_path_display = path_display\<rparr>)"

definition resolve_name :: "(rstr \<rightharpoonup> rstr) \<Rightarrow> secret_resolver \<Rightarrow> rstr \<Rightarrow> rstr res" where
  "resolve_name env self name =
     (if trim name = [] then Inl (ConfigError ''secret name cannot be empty'')
      else
        (case env name of
           Some v \<Rightarrow> ensure_nonempty v (''environment variable '' @ [SQ] @ name @ [SQ]) name (sr_secrets_path_display self)
         | None \<Rightarrow>
             (case sr_file_secrets self name of
                Some v \<Rightarrow> ensure_nonempty v (''secrets file '' @ sr_secrets_path_display self) name
                            (sr_secrets_path_display self)
              | None \<Rightarrow> Inl (ConfigError (''secret '' @ [SQ] @ name @ [SQ] @ '' not found in environment variable '' @
                          [SQ] @ name @ [SQ] @ '' or secrets file '' @ sr_secrets_path_display self)))))"

definition secret_resolve ::
  "(rstr \<rightharpoonup> rstr) \<Rightarrow> secret_resolver \<Rightarrow> rstr \<Rightarrow> secret \<Rightarrow> secret \<times> unit res" where
  "secret_resolve env resolver field_path self =
     (case resolve_name env resolver (sec_name self) of
        Inl err \<Rightarrow> (self, Inl (ConfigError (field_path @ '' failed to resolve: '' @ error_to_string err)))
      | Inr v \<Rightarrow> (self\<lparr>sec_resolved := Some v\<rparr>, Inr ()))"

section \<open>Lemmas\<close>

lemma valid_name_ascii: "is_valid_secret_name name \<Longrightarrow> c \<in> set name \<Longrightarrow> \<not> is_cont c"
  by (auto simp: is_valid_secret_name_def list_all_iff is_ascii_alnum_def is_ascii_alpha_def
      is_ascii_digit_def is_cont_def)

lemma chars_plain: "\<forall>c\<in>set s. \<not> is_cont c \<Longrightarrow> chars s = map (\<lambda>c. [c]) s"
proof (induction s)
  case (Cons c s)
  then have "takeWhile is_cont s = []" "dropWhile is_cont s = s" by (cases s; simp)+
  then show ?case using Cons by simp
qed simp

lemma trim_plain:
  assumes "\<forall>c\<in>set (a # m @ [b]). \<not> is_cont c" and "\<not> is_ws [a]" and "\<not> is_ws [b]"
  shows "trim (a # m @ [b]) = a # m @ [b]"
proof -
  have "chars (a # m @ [b]) = [a] # map (\<lambda>c. [c]) m @ [[b]]"
    using chars_plain[OF assms(1)] by simp
  then show ?thesis using assms(2,3) by (simp add: trim_def del: chars.simps)
qed

lemma valid_utf8_after_ascii:
  "valid_utf8 (p @ s) \<Longrightarrow> \<forall>c\<in>set p. byte_in 0x00 0x7F c \<Longrightarrow> valid_utf8 s"
proof (induction p)
  case (Cons c p)
  then have "valid_utf8 (p @ s)" by (subst (asm) valid_utf8.simps) simp
  then show ?case using Cons by simp
qed simp

definition secret_reference :: "rstr \<Rightarrow> rstr \<Rightarrow> bool" where
  "secret_reference name raw \<longleftrightarrow>
     name \<noteq> [] \<and> is_valid_secret_name name \<and> trim raw = secret_prefix @ name @ secret_suffix"

lemma reference_shape:
  assumes "take (length secret_prefix) t = secret_prefix" and "t \<noteq> []" and "last t = CHR ''}''"
  obtains m where "t = secret_prefix @ m @ secret_suffix"
proof -
  have t: "t = secret_prefix @ drop (length secret_prefix) t"
    using assms(1) by (metis append_take_drop_id)
  let ?d = "drop (length secret_prefix) t"
  have "?d \<noteq> []"
  proof
    assume d: "?d = []"
    have "t = secret_prefix" using t unfolding d by simp
    with assms(3) show False by simp
  qed
  moreover from this have "last ?d = CHR ''}''" using assms(3) by simp
  ultimately have "?d = butlast ?d @ secret_suffix" by (metis append_butlast_last_id)
  with t have "t = secret_prefix @ butlast ?d @ secret_suffix" by simp
  then show ?thesis by (rule that)
qed

lemma slice_reference:
  assumes "valid_utf8 (secret_prefix @ m @ secret_suffix)"
  shows "slice (secret_prefix @ m @ secret_suffix) 9 (9 + length m) = Some m"
proof -
  let ?t = "secret_prefix @ m @ secret_suffix"
  have "valid_utf8 (m @ secret_suffix)"
    by (rule valid_utf8_after_ascii[OF assms]) (simp add: byte_in_def)
  then have "\<not> is_cont (hd (m @ secret_suffix))"
    using valid_utf8_cont by (metis append_is_Nil_conv list.collapse list.distinct(1))
  then have "\<not> is_cont (?t ! 9)" by (cases m) (simp_all add: nth_append)
  moreover have "?t ! (9 + length m) = CHR ''}''" by (simp add: nth_append)
  ultimately show ?thesis
    by (simp add: slice_def is_char_boundary_def is_cont_def del: append_Cons append.simps)
qed

lemma parse_reference:
  assumes "trim raw = secret_prefix @ m @ secret_suffix" and "valid_utf8 (trim raw)"
  shows "parse_secret_reference f raw =
    Some (if m = [] \<or> \<not> is_valid_secret_name m
          then Inl (ConfigError (f @ '' has invalid secret reference '' @ [SQ] @ trim raw @ [SQ] @
                  ''; expected ${secret:<name>} with [A-Za-z0-9_.-]+''))
          else Inr m)"
proof -
  have a: "take (length secret_prefix) (trim raw) = secret_prefix" unfolding assms(1) by simp
  have b: "length secret_suffix \<le> length (trim raw) \<and>
      drop (length (trim raw) - length secret_suffix) (trim raw) = secret_suffix" unfolding assms(1) by simp
  have "length secret_prefix = 9" "length (trim raw) - length secret_suffix = 9 + length m"
    unfolding assms(1) by simp_all
  moreover have "slice (trim raw) 9 (9 + length m) = Some m"
    using slice_reference assms by (simp only: assms(1))
  ultimately have c: "slice (trim raw) (length secret_prefix) (length (trim raw) - length secret_suffix) = Some m"
    by (simp only:)
  show ?thesis
    unfolding parse_secret_reference_def Let_def
    by (simp only: a b c simp_thms option.case if_True if_False split: if_split) blast
qed

lemma parse_not_reference:
  assumes "\<nexists>m. trim raw = secret_prefix @ m @ secret_suffix"
  shows "parse_secret_reference f raw =
    Some (Inl (ConfigError (f @ '' must use secret reference syntax ${secret:<name>}'')))"
proof -
  have "\<not> (take (length secret_prefix) (trim raw) = secret_prefix \<and> 1 \<le> length (trim raw) \<and>
           drop (length (trim raw) - 1) (trim raw) = ''}'')"
  proof
    assume a: "take (length secret_prefix) (trim raw) = secret_prefix \<and> 1 \<le> length (trim raw) \<and>
           drop (length (trim raw) - 1) (trim raw) = ''}''"
    then have "trim raw \<noteq> []" by auto
    moreover from this a have "last (trim raw) = CHR ''}''"
      by (metis last_drop last_ConsL diff_less length_greater_0_conv zero_less_one)
    ultimately show False using reference_shape[of "trim raw"] a assms by blast
  qed
  then show ?thesis by (auto simp: parse_secret_reference_def Let_def)
qed

text \<open>
  Parsing a secret reference, on every branch: a well-formed text never makes the
  parser panic, and it yields a name exactly when the trimmed text is that name between
  \<open>${secret:\<close> and \<open>}\<close>, non-empty and of the allowed characters; otherwise it is an error.
\<close>

theorem parse_secret_reference_exact:
  assumes "valid_utf8 (trim raw)"
  shows "case parse_secret_reference field raw of
      None \<Rightarrow> False
    | Some (Inr name) \<Rightarrow> secret_reference name raw
    | Some (Inl e) \<Rightarrow> \<not> (\<exists>name. secret_reference name raw)"
proof (cases "\<exists>m. trim raw = secret_prefix @ m @ secret_suffix")
  case True
  then obtain m where m: "trim raw = secret_prefix @ m @ secret_suffix" by blast
  have "secret_reference n raw \<longleftrightarrow> n = m \<and> n \<noteq> [] \<and> is_valid_secret_name n" for n
    unfolding secret_reference_def m by auto
  then show ?thesis unfolding parse_reference[OF m assms] by simp
next
  case False
  then show ?thesis unfolding parse_not_reference[OF False] secret_reference_def by simp
qed

theorem parse_secret_reference_exact_witness:
  "parse_secret_reference ''f'' ''${secret:k}'' = Some (Inr ''k'')"
proof -
  have t: "trim ''${secret:k}'' = ''${secret:k}''"
    by (simp add: trim_def is_ws_def ws_table_def is_cont_def)
  have v: "valid_utf8 (trim ''${secret:k}'')" unfolding t by (rule valid_utf8_ascii) (simp add: byte_in_def)
  have "parse_secret_reference ''f'' ''${secret:k}'' \<noteq> None"
    using parse_secret_reference_exact[OF v, of "''f''"] by (auto split: option.splits)
  moreover have "secret_reference ''k'' ''${secret:k}''"
    unfolding secret_reference_def t by (simp add: is_valid_secret_name_def is_ascii_alnum_def is_ascii_alpha_def)
  ultimately show ?thesis
    using parse_secret_reference_exact[OF v, of "''f''"]
    by (auto simp: secret_reference_def t split: option.splits sum.splits)
qed

text \<open>
  Secrets survive a round trip through the configuration as references, never as
  values: the serialized form of a secret with a legal name parses back to the same name,
  whatever its resolved value is.
\<close>

lemma secret_reference_roundtrip:
  assumes "sec_name s \<noteq> []" and "is_valid_secret_name (sec_name s)"
  shows "parse_secret_reference field (secret_serialize s) = Some (Inr (sec_name s))"
proof -
  let ?n = "sec_name s"
  have plain: "\<forall>c\<in>set ?n. \<not> is_cont c \<and> byte_in 0x00 0x7F c"
    using assms(2) by (auto simp: is_valid_secret_name_def list_all_iff is_ascii_alnum_def is_ascii_alpha_def
      is_ascii_digit_def is_cont_def byte_in_def)
  have "trim (CHR ''$'' # (''{secret:'' @ ?n) @ [CHR ''}'']) = CHR ''$'' # (''{secret:'' @ ?n) @ [CHR ''}'']"
    by (rule trim_plain) (use plain in \<open>auto simp: is_cont_def is_ws_def ws_table_def\<close>)
  then have t: "trim (secret_serialize s) = secret_prefix @ ?n @ secret_suffix"
    by (simp add: secret_serialize_def)
  have "valid_utf8 (trim (secret_serialize s))"
    unfolding t by (rule valid_utf8_ascii) (use plain in \<open>auto simp: byte_in_def\<close>)
  from parse_reference[OF t this] show ?thesis using assms by simp
qed

end
