(* ===== verification/ToolsConfig.thy ===== *)
theory ToolsConfig
  imports Secrets
begin

text \<open>
  \<open>src/config/tools.rs\<close>: the configuration of the built-in tools. The structs that share
  fields are records extending a common one: every tool but \<open>skills\<close> has the switches
  \<open>enabled\<close> and \<open>owner_restricted\<close>, the tools that run in a sandbox a timeout and a
  sandbox configuration besides. A tool without a configuration has its default one.
\<close>

section \<open>The configuration of one tool\<close>

definition default_enabled :: bool where "default_enabled = True"

definition default_owner_restricted :: bool where "default_owner_restricted = True"

record tool_sandbox_config =
  sx_enabled :: bool
  sx_extra_readable_paths :: "rstr list"
  sx_extra_writable_paths :: "rstr list"
  sx_network_enabled :: "bool option"

definition default_sandbox :: tool_sandbox_config where
  "default_sandbox = \<lparr>sx_enabled = default_enabled, sx_extra_readable_paths = [],
     sx_extra_writable_paths = [], sx_network_enabled = None\<rparr>"

record switch_config =
  tc_enabled :: bool
  tc_owner_restricted :: bool

record sandboxed_config = switch_config +
  tc_timeout_seconds :: "nat option"
  tc_sandbox :: tool_sandbox_config

definition default_switch :: switch_config where
  "default_switch = \<lparr>tc_enabled = default_enabled, tc_owner_restricted = default_owner_restricted\<rparr>"

definition default_sandboxed :: sandboxed_config where
  "default_sandboxed = \<lparr>tc_enabled = default_enabled, tc_owner_restricted = default_owner_restricted,
     tc_timeout_seconds = None, tc_sandbox = default_sandbox\<rparr>"

type_synonym read_tool_config = sandboxed_config
type_synonym edit_tool_config = sandboxed_config
type_synonym glob_tool_config = sandboxed_config
type_synonym grep_tool_config = sandboxed_config
type_synonym list_tool_config = sandboxed_config
type_synonym background_tool_config = switch_config
type_synonym wait_tool_config = switch_config
type_synonym memorize_tool_config = switch_config
type_synonym forget_tool_config = switch_config
type_synonym clock_tool_config = switch_config
type_synonym react_tool_config = switch_config

record exec_tool_config = sandboxed_config +
  xc_allow_background :: bool

definition default_exec :: exec_tool_config where
  "default_exec = \<lparr>tc_enabled = default_enabled, tc_owner_restricted = default_owner_restricted,
     tc_timeout_seconds = None, tc_sandbox = default_sandbox, xc_allow_background = True\<rparr>"

datatype web_search_provider = Brave | Duckduckgo

record web_search_tool_config = sandboxed_config +
  wc_provider :: web_search_provider
  wc_api_key :: "secret option"

record web_search_runtime_config = sandboxed_config +
  wx_provider :: web_search_provider
  wx_api_key :: "rstr option"

definition default_web_search :: web_search_tool_config where
  "default_web_search = \<lparr>tc_enabled = default_enabled, tc_owner_restricted = default_owner_restricted,
     tc_timeout_seconds = None, tc_sandbox = default_sandbox, wc_provider = Duckduckgo, wc_api_key = None\<rparr>"

definition web_search_to_runtime :: "web_search_tool_config \<Rightarrow> web_search_runtime_config res" where
  "web_search_to_runtime self =
     rbind
       (case wc_api_key self of
          None \<Rightarrow> Inr None
        | Some s \<Rightarrow>
            rbind (ok_or (ConfigError ''web_search api_key was not resolved before runtime assembly'') (exposed s))
              (\<lambda>v. Inr (Some v)))
       (\<lambda>api_key. Inr \<lparr>tc_enabled = tc_enabled self, tc_owner_restricted = tc_owner_restricted self,
          tc_timeout_seconds = tc_timeout_seconds self, tc_sandbox = tc_sandbox self,
          wx_provider = wc_provider self, wx_api_key = api_key\<rparr>)"

record web_fetch_tool_config = sandboxed_config +
  fc_max_chars :: "nat option"

definition default_web_fetch :: web_fetch_tool_config where
  "default_web_fetch = \<lparr>tc_enabled = default_enabled, tc_owner_restricted = default_owner_restricted,
     tc_timeout_seconds = None, tc_sandbox = default_sandbox, fc_max_chars = None\<rparr>"

record memory_tool_config = switch_config +
  mc_default_top_k :: "nat option"
  mc_max_top_k :: "nat option"

definition default_memory :: memory_tool_config where
  "default_memory = \<lparr>tc_enabled = default_enabled, tc_owner_restricted = default_owner_restricted,
     mc_default_top_k = None, mc_max_top_k = None\<rparr>"

record summon_tool_config = switch_config +
  uc_allow_background :: bool
  uc_allowed :: "rstr list"

definition default_summon :: summon_tool_config where
  "default_summon = \<lparr>tc_enabled = default_enabled, tc_owner_restricted = default_owner_restricted,
     uc_allow_background = True, uc_allowed = []\<rparr>"

record task_tool_config = switch_config +
  kc_allow_background :: bool
  kc_worker_max_steps :: "nat option"

definition default_task :: task_tool_config where
  "default_task = \<lparr>tc_enabled = default_enabled, tc_owner_restricted = default_owner_restricted,
     kc_allow_background = True, kc_worker_max_steps = None\<rparr>"

record cron_tool_config = switch_config +
  jc_max_jobs_per_agent :: "nat option"
  jc_guard_timeout_seconds :: "nat option"

definition default_cron_max_jobs_per_agent :: "nat option" where
  "default_cron_max_jobs_per_agent = Some 50"

definition default_cron_guard_timeout_seconds :: "nat option" where
  "default_cron_guard_timeout_seconds = Some 10"

definition default_cron :: cron_tool_config where
  "default_cron = \<lparr>tc_enabled = default_enabled, tc_owner_restricted = default_owner_restricted,
     jc_max_jobs_per_agent = default_cron_max_jobs_per_agent,
     jc_guard_timeout_seconds = default_cron_guard_timeout_seconds\<rparr>"

definition default_react :: react_tool_config where
  "default_react = \<lparr>tc_enabled = default_enabled, tc_owner_restricted = False\<rparr>"

record skills_tool_config =
  kl_enabled :: bool
  kl_disabled_skills :: "rstr list"

definition default_skills :: skills_tool_config where
  "default_skills = \<lparr>kl_enabled = default_enabled, kl_disabled_skills = []\<rparr>"

section \<open>The configuration of all tools\<close>

record tools_config =
  t_read :: "read_tool_config option"
  t_edit :: "edit_tool_config option"
  t_glob :: "glob_tool_config option"
  t_grep :: "grep_tool_config option"
  t_list :: "list_tool_config option"
  t_exec :: "exec_tool_config option"
  t_background :: "background_tool_config option"
  t_wait :: "wait_tool_config option"
  t_web_search :: "web_search_tool_config option"
  t_web_fetch :: "web_fetch_tool_config option"
  t_memory :: "memory_tool_config option"
  t_memorize :: "memorize_tool_config option"
  t_forget :: "forget_tool_config option"
  t_summon :: "summon_tool_config option"
  t_task :: "task_tool_config option"
  t_clock :: "clock_tool_config option"
  t_cron :: "cron_tool_config option"
  t_react :: "react_tool_config option"
  t_skills :: "skills_tool_config option"

definition default_tools :: tools_config where
  "default_tools = \<lparr>t_read = None, t_edit = None, t_glob = None, t_grep = None, t_list = None, t_exec = None, t_background = None, t_wait = None, t_web_search = None,
     t_web_fetch = None, t_memory = None, t_memorize = None, t_forget = None, t_summon = None, t_task = None, t_clock = None, t_cron = None, t_react = None, t_skills = None\<rparr>"

definition switched_on :: "'a switch_config_scheme option \<Rightarrow> bool" where
  "switched_on cfg = (case cfg of None \<Rightarrow> True | Some c \<Rightarrow> tc_enabled c)"

text \<open>The tools in the order in which \<open>enabled_tool_names\<close> tests them.\<close>

definition tool_switches :: "tools_config \<Rightarrow> (rstr \<times> bool) list" where
  "tool_switches self = [
     (''memory'', switched_on (t_memory self)),
     (''memorize'', switched_on (t_memorize self)),
     (''forget'', switched_on (t_forget self)),
     (''summon'', switched_on (t_summon self)),
     (''task'', switched_on (t_task self)),
     (''web_search'', switched_on (t_web_search self)),
     (''clock'', switched_on (t_clock self)),
     (''cron'', switched_on (t_cron self)),
     (''react'', switched_on (t_react self)),
     (''web_fetch'', switched_on (t_web_fetch self)),
     (''read'', switched_on (t_read self)),
     (''edit'', switched_on (t_edit self)),
     (''glob'', switched_on (t_glob self)),
     (''grep'', switched_on (t_grep self)),
     (''list'', switched_on (t_list self)),
     (''exec'', switched_on (t_exec self)),
     (''background'', switched_on (t_background self)),
     (''wait'', switched_on (t_wait self))]"

definition enabled_tool_names :: "tools_config \<Rightarrow> rstr list" where
  "enabled_tool_names self = map fst (filter snd (tool_switches self))"

text \<open>\<open>unwrap_or_default\<close>.\<close>

definition or_default :: "'a \<Rightarrow> 'a option \<Rightarrow> 'a" where
  "or_default d x = (case x of None \<Rightarrow> d | Some v \<Rightarrow> v)"

text \<open>The value \<open>config_for_tool\<close> serializes, before the JSON encoding.\<close>

datatype tool_config_value =
    SandboxedValue sandboxed_config
  | SwitchValue switch_config
  | ExecValue exec_tool_config
  | WebSearchValue web_search_runtime_config
  | WebFetchValue web_fetch_tool_config
  | MemoryValue memory_tool_config
  | SummonValue summon_tool_config
  | TaskValue task_tool_config
  | CronValue cron_tool_config
  | SkillsValue skills_tool_config

definition config_for_tool :: "tools_config \<Rightarrow> rstr \<Rightarrow> tool_config_value option res" where
  "config_for_tool self name =
     (if name = ''read'' then Inr (Some (SandboxedValue (or_default default_sandboxed (t_read self))))
      else (if name = ''edit'' then Inr (Some (SandboxedValue (or_default default_sandboxed (t_edit self))))
      else (if name = ''glob'' then Inr (Some (SandboxedValue (or_default default_sandboxed (t_glob self))))
      else (if name = ''grep'' then Inr (Some (SandboxedValue (or_default default_sandboxed (t_grep self))))
      else (if name = ''list'' then Inr (Some (SandboxedValue (or_default default_sandboxed (t_list self))))
      else (if name = ''exec'' then Inr (Some (ExecValue (or_default default_exec (t_exec self))))
      else (if name = ''background'' then Inr (Some (SwitchValue (or_default default_switch (t_background self))))
      else (if name = ''wait'' then Inr (Some (SwitchValue (or_default default_switch (t_wait self))))
      else (if name = ''web_search'' then
        rbind (web_search_to_runtime (or_default default_web_search (t_web_search self))) (\<lambda>c. Inr (Some (WebSearchValue c)))
      else (if name = ''web_fetch'' then Inr (Some (WebFetchValue (or_default default_web_fetch (t_web_fetch self))))
      else (if name = ''memory'' then Inr (Some (MemoryValue (or_default default_memory (t_memory self))))
      else (if name = ''memorize'' then Inr (Some (SwitchValue (or_default default_switch (t_memorize self))))
      else (if name = ''forget'' then Inr (Some (SwitchValue (or_default default_switch (t_forget self))))
      else (if name = ''summon'' then Inr (Some (SummonValue (or_default default_summon (t_summon self))))
      else (if name = ''task'' then Inr (Some (TaskValue (or_default default_task (t_task self))))
      else (if name = ''clock'' then Inr (Some (SwitchValue (or_default default_switch (t_clock self))))
      else (if name = ''cron'' then Inr (Some (CronValue (or_default default_cron (t_cron self))))
      else (if name = ''react'' then Inr (Some (SwitchValue (or_default default_react (t_react self))))
      else (if name = ''skills'' then Inr (Some (SkillsValue (or_default default_skills (t_skills self))))
      else Inr None)))))))))))))))))))"

definition owner_restrictions :: "tools_config \<Rightarrow> (rstr \<times> bool) list" where
  "owner_restrictions self = [
     (''read'', tc_owner_restricted (or_default default_sandboxed (t_read self))),
     (''edit'', tc_owner_restricted (or_default default_sandboxed (t_edit self))),
     (''glob'', tc_owner_restricted (or_default default_sandboxed (t_glob self))),
     (''grep'', tc_owner_restricted (or_default default_sandboxed (t_grep self))),
     (''list'', tc_owner_restricted (or_default default_sandboxed (t_list self))),
     (''exec'', tc_owner_restricted (or_default default_exec (t_exec self))),
     (''background'', tc_owner_restricted (or_default default_switch (t_background self))),
     (''wait'', tc_owner_restricted (or_default default_switch (t_wait self))),
     (''web_search'', tc_owner_restricted (or_default default_web_search (t_web_search self))),
     (''web_fetch'', tc_owner_restricted (or_default default_web_fetch (t_web_fetch self))),
     (''memory'', tc_owner_restricted (or_default default_memory (t_memory self))),
     (''memorize'', tc_owner_restricted (or_default default_switch (t_memorize self))),
     (''forget'', tc_owner_restricted (or_default default_switch (t_forget self))),
     (''summon'', tc_owner_restricted (or_default default_summon (t_summon self))),
     (''task'', tc_owner_restricted (or_default default_task (t_task self))),
     (''clock'', tc_owner_restricted (or_default default_switch (t_clock self))),
     (''cron'', tc_owner_restricted (or_default default_cron (t_cron self))),
     (''react'', tc_owner_restricted (or_default default_react (t_react self)))]"

definition owner_restricted_for_tool :: "tools_config \<Rightarrow> rstr \<Rightarrow> bool option" where
  "owner_restricted_for_tool self name = map_of (owner_restrictions self) name"

definition switch_off :: "'a switch_config_scheme \<Rightarrow> 'a switch_config_scheme option \<Rightarrow> 'a switch_config_scheme option" where
  "switch_off d cfg = Some ((or_default d cfg)\<lparr>tc_enabled := False\<rparr>)"

definition disable_tool :: "tools_config \<Rightarrow> rstr \<Rightarrow> tools_config" where
  "disable_tool self name =
     (if name = ''read'' then self\<lparr>t_read := switch_off default_sandboxed (t_read self)\<rparr>
      else (if name = ''edit'' then self\<lparr>t_edit := switch_off default_sandboxed (t_edit self)\<rparr>
      else (if name = ''glob'' then self\<lparr>t_glob := switch_off default_sandboxed (t_glob self)\<rparr>
      else (if name = ''grep'' then self\<lparr>t_grep := switch_off default_sandboxed (t_grep self)\<rparr>
      else (if name = ''list'' then self\<lparr>t_list := switch_off default_sandboxed (t_list self)\<rparr>
      else (if name = ''exec'' then self\<lparr>t_exec := switch_off default_exec (t_exec self)\<rparr>
      else (if name = ''background'' then self\<lparr>t_background := switch_off default_switch (t_background self)\<rparr>
      else (if name = ''wait'' then self\<lparr>t_wait := switch_off default_switch (t_wait self)\<rparr>
      else (if name = ''web_search'' then self\<lparr>t_web_search := switch_off default_web_search (t_web_search self)\<rparr>
      else (if name = ''web_fetch'' then self\<lparr>t_web_fetch := switch_off default_web_fetch (t_web_fetch self)\<rparr>
      else (if name = ''memory'' then self\<lparr>t_memory := switch_off default_memory (t_memory self)\<rparr>
      else (if name = ''memorize'' then self\<lparr>t_memorize := switch_off default_switch (t_memorize self)\<rparr>
      else (if name = ''forget'' then self\<lparr>t_forget := switch_off default_switch (t_forget self)\<rparr>
      else (if name = ''summon'' then self\<lparr>t_summon := switch_off default_summon (t_summon self)\<rparr>
      else (if name = ''task'' then self\<lparr>t_task := switch_off default_task (t_task self)\<rparr>
      else (if name = ''clock'' then self\<lparr>t_clock := switch_off default_switch (t_clock self)\<rparr>
      else (if name = ''cron'' then self\<lparr>t_cron := switch_off default_cron (t_cron self)\<rparr>
      else (if name = ''react'' then self\<lparr>t_react := switch_off default_react (t_react self)\<rparr>
      else (if name = ''skills'' then self\<lparr>t_skills := Some ((or_default default_skills (t_skills self))\<lparr>kl_enabled := False\<rparr>)\<rparr>
      else self)))))))))))))))))))"

definition with_disabled :: "tools_config \<Rightarrow> rstr list \<Rightarrow> tools_config" where
  "with_disabled self names = foldl disable_tool self names"

definition skills_config :: "tools_config \<Rightarrow> skills_tool_config" where
  "skills_config self = or_default default_skills (t_skills self)"

section \<open>Properties\<close>

definition builtin_names :: "rstr list" where
  "builtin_names = [''memory'', ''memorize'', ''forget'', ''summon'', ''task'', ''web_search'', ''clock'', ''cron'', ''react'',
     ''web_fetch'', ''read'', ''edit'', ''glob'', ''grep'', ''list'', ''exec'', ''background'', ''wait'']"

lemma switched_on_off [simp]: "\<not> switched_on (switch_off d cfg)"
  by (simp add: switched_on_def switch_off_def)

lemma owner_restricted_off [simp]:
  "tc_owner_restricted (or_default d (switch_off d cfg)) = tc_owner_restricted (or_default d cfg)"
  by (simp add: switch_off_def or_default_def)

lemma disable_builtin:
  "\<forall>n\<in>set builtin_names. tool_switches (disable_tool cfg n) = map (\<lambda>(m, b). (m, b \<and> m \<noteq> n)) (tool_switches cfg)"
  by (simp add: builtin_names_def disable_tool_def tool_switches_def)

lemma disable_other:
  assumes "n \<notin> set builtin_names"
  shows "tool_switches (disable_tool cfg n) = tool_switches cfg"
proof -
  have "n \<noteq> m" if "m \<in> set builtin_names" for m using assms that by blast
  then have ne: "n \<noteq> ''read''" "n \<noteq> ''edit''" "n \<noteq> ''glob''" "n \<noteq> ''grep''" "n \<noteq> ''list''" "n \<noteq> ''exec''"
    "n \<noteq> ''background''" "n \<noteq> ''wait''" "n \<noteq> ''web_search''" "n \<noteq> ''web_fetch''" "n \<noteq> ''memory''"
    "n \<noteq> ''memorize''" "n \<noteq> ''forget''" "n \<noteq> ''summon''" "n \<noteq> ''task''" "n \<noteq> ''clock''" "n \<noteq> ''cron''"
    "n \<noteq> ''react''"
    by (simp_all add: builtin_names_def)
  show ?thesis
    unfolding disable_tool_def by (simp only: ne if_False) (simp add: tool_switches_def)
qed

lemma switch_names: "map fst (tool_switches cfg) = builtin_names"
  by (simp add: tool_switches_def builtin_names_def)

lemma disable_tool_names:
  "enabled_tool_names (disable_tool cfg n) = filter (\<lambda>m. m \<noteq> n) (enabled_tool_names cfg)"
proof (cases "n \<in> set builtin_names")
  case True
  have "map fst (filter snd (map (\<lambda>(m, b). (m, b \<and> m \<noteq> n)) xs)) = filter (\<lambda>m. m \<noteq> n) (map fst (filter snd xs))"
    for xs :: "(rstr \<times> bool) list" by (induction xs) auto
  then show ?thesis using True by (simp add: enabled_tool_names_def disable_builtin)
next
  case False
  have "set (enabled_tool_names cfg) \<subseteq> set builtin_names"
    by (auto simp: enabled_tool_names_def switch_names[of cfg, symmetric])
  then have "filter (\<lambda>m. m \<noteq> n) (enabled_tool_names cfg) = enabled_tool_names cfg"
    using False by (auto simp: filter_id_conv)
  then show ?thesis using False by (simp add: enabled_tool_names_def disable_other)
qed

lemma with_disabled_names:
  "enabled_tool_names (with_disabled cfg names) = filter (\<lambda>m. m \<notin> set names) (enabled_tool_names cfg)"
  by (induction names arbitrary: cfg)
     (simp_all add: with_disabled_def disable_tool_names conj_commute)

lemma disable_builtin_owner:
  "\<forall>n\<in>set builtin_names. owner_restrictions (disable_tool cfg n) = owner_restrictions cfg"
  by (simp add: builtin_names_def disable_tool_def owner_restrictions_def)

lemma disable_tool_other:
  assumes "n \<notin> set builtin_names"
  shows "disable_tool cfg n = cfg \<or> (\<exists>c. disable_tool cfg n = cfg\<lparr>t_skills := c\<rparr>)"
proof -
  have "n \<noteq> m" if "m \<in> set builtin_names" for m using assms that by blast
  then have ne: "n \<noteq> ''read''" "n \<noteq> ''edit''" "n \<noteq> ''glob''" "n \<noteq> ''grep''" "n \<noteq> ''list''" "n \<noteq> ''exec''"
    "n \<noteq> ''background''" "n \<noteq> ''wait''" "n \<noteq> ''web_search''" "n \<noteq> ''web_fetch''" "n \<noteq> ''memory''"
    "n \<noteq> ''memorize''" "n \<noteq> ''forget''" "n \<noteq> ''summon''" "n \<noteq> ''task''" "n \<noteq> ''clock''" "n \<noteq> ''cron''"
    "n \<noteq> ''react''"
    by (simp_all add: builtin_names_def)
  show ?thesis
    unfolding disable_tool_def by (simp only: ne if_False) (cases "n = ''skills''"; auto)
qed

lemma owner_restricted_skills:
  "owner_restrictions (cfg\<lparr>t_skills := c\<rparr>) = owner_restrictions cfg"
  by (simp add: owner_restrictions_def)

lemma disable_tool_owner:
  "owner_restricted_for_tool (disable_tool cfg n) m = owner_restricted_for_tool cfg m"
  using disable_builtin_owner[of cfg] disable_tool_other[of n cfg] owner_restricted_skills
  unfolding owner_restricted_for_tool_def by metis

lemma with_disabled_owner:
  "owner_restricted_for_tool (with_disabled cfg names) m = owner_restricted_for_tool cfg m"
  by (induction names arbitrary: cfg) (simp_all add: with_disabled_def disable_tool_owner)

text \<open>
  Disabling tools is exact: the tools offered afterwards are those offered before
  without the named ones, in the same order, and every owner restriction stays as it was.
\<close>

lemma with_disabled_exact:
  "enabled_tool_names (with_disabled cfg names) = filter (\<lambda>m. m \<notin> set names) (enabled_tool_names cfg) \<and>
   owner_restricted_for_tool (with_disabled cfg names) tool = owner_restricted_for_tool cfg tool"
  by (simp add: with_disabled_names with_disabled_owner)

text \<open>
  The defaults of the owner restriction: with an empty configuration every built-in
  tool is enabled, and every one but \<open>react\<close> is restricted to owners; an unknown tool has no
  restriction entry.
\<close>

lemma default_owner_restrictions:
  "enabled_tool_names default_tools = builtin_names \<and>
   map (owner_restricted_for_tool default_tools) builtin_names =
     map (\<lambda>n. Some (n \<noteq> ''react'')) builtin_names \<and>
   owner_restricted_for_tool default_tools ''skills'' = None"
  by (simp add: owner_restricted_for_tool_def owner_restrictions_def default_tools_def builtin_names_def enabled_tool_names_def
      tool_switches_def switched_on_def or_default_def default_sandboxed_def default_switch_def
      default_exec_def default_web_search_def default_web_fetch_def default_memory_def default_summon_def
      default_task_def default_cron_def default_react_def default_owner_restricted_def)

end
