(* ===== verification/ToolRegistry.thy ===== *)
theory ToolRegistry
  imports ToolsConfig "HOL-Library.AList"
begin

text \<open>
  The first half of \<open>src/tools/mod.rs\<close>: registered tools, the registry of an agent and the
  factory that builds it from the tool configuration. A tool that is only known through
  the trait \<open>Tool\<close> is a record of what the trait says of it. The texts of descriptions and
  schemas are an argument; a serialized configuration is read back as the value it was
  written from, and \<open>serde_error\<close> is the text of the error when it is of another tool.
\<close>

datatype execution_kind = Direct | WasmSandbox | HostSandbox

fun execution_kind_debug :: "execution_kind \<Rightarrow> rstr" where
  "execution_kind_debug Direct = ''Direct''"
| "execution_kind_debug WasmSandbox = ''WasmSandbox''"
| "execution_kind_debug HostSandbox = ''HostSandbox''"

section \<open>Registered tools\<close>

record direct_tool =
  dt_name :: rstr
  dt_kinds :: "execution_kind list"
  dt_takes_config :: bool
  dt_config :: "tool_config_value option"

datatype registered_tool =
    WebSearchTool web_search_runtime_config
  | WebFetchTool web_fetch_tool_config
  | ReadTool read_tool_config
  | EditTool edit_tool_config
  | GlobTool glob_tool_config
  | GrepTool grep_tool_config
  | ListTool list_tool_config
  | ExecTool exec_tool_config
  | SummonTool summon_tool_config
  | TaskTool task_tool_config
  | DirectTool direct_tool

fun tool_name :: "registered_tool \<Rightarrow> rstr" where
  "tool_name (WebSearchTool _) = ''web_search''"
| "tool_name (WebFetchTool _) = ''web_fetch''"
| "tool_name (ReadTool _) = ''read''"
| "tool_name (EditTool _) = ''edit''"
| "tool_name (GlobTool _) = ''glob''"
| "tool_name (GrepTool _) = ''grep''"
| "tool_name (ListTool _) = ''list''"
| "tool_name (ExecTool _) = ''exec''"
| "tool_name (SummonTool _) = ''summon''"
| "tool_name (TaskTool _) = ''task''"
| "tool_name (DirectTool t) = dt_name t"

fun supported_execution_kinds :: "registered_tool \<Rightarrow> execution_kind list" where
  "supported_execution_kinds (ExecTool _) = [Direct, HostSandbox]"
| "supported_execution_kinds (SummonTool _) = [Direct]"
| "supported_execution_kinds (TaskTool _) = [Direct]"
| "supported_execution_kinds (DirectTool t) = dt_kinds t"
| "supported_execution_kinds _ = [Direct, WasmSandbox]"

record tool_definition =
  td_name :: rstr
  td_description :: rstr
  td_input_schema_json :: rstr

definition tool_definition_of :: "(registered_tool \<Rightarrow> rstr \<times> rstr) \<Rightarrow> registered_tool \<Rightarrow> tool_definition" where
  "tool_definition_of texts self =
     \<lparr>td_name = tool_name self, td_description = fst (texts self), td_input_schema_json = snd (texts self)\<rparr>"

definition invalid_config :: "rstr \<Rightarrow> registered_tool \<Rightarrow> framework_error" where
  "invalid_config serde_error self =
     ConfigError (''tools.'' @ tool_name self @ '' config is invalid: '' @ serde_error)"

fun configure :: "rstr \<Rightarrow> registered_tool \<Rightarrow> tool_config_value \<Rightarrow> registered_tool res" where
  "configure e (WebSearchTool c) v =
     (case v of WebSearchValue c' \<Rightarrow> Inr (WebSearchTool c') | _ \<Rightarrow> Inl (invalid_config e (WebSearchTool c)))"
| "configure e (WebFetchTool c) v =
     (case v of WebFetchValue c' \<Rightarrow> Inr (WebFetchTool c') | _ \<Rightarrow> Inl (invalid_config e (WebFetchTool c)))"
| "configure e (ReadTool c) v =
     (case v of SandboxedValue c' \<Rightarrow> Inr (ReadTool c') | _ \<Rightarrow> Inl (invalid_config e (ReadTool c)))"
| "configure e (EditTool c) v =
     (case v of SandboxedValue c' \<Rightarrow> Inr (EditTool c') | _ \<Rightarrow> Inl (invalid_config e (EditTool c)))"
| "configure e (GlobTool c) v =
     (case v of SandboxedValue c' \<Rightarrow> Inr (GlobTool c') | _ \<Rightarrow> Inl (invalid_config e (GlobTool c)))"
| "configure e (GrepTool c) v =
     (case v of SandboxedValue c' \<Rightarrow> Inr (GrepTool c') | _ \<Rightarrow> Inl (invalid_config e (GrepTool c)))"
| "configure e (ListTool c) v =
     (case v of SandboxedValue c' \<Rightarrow> Inr (ListTool c') | _ \<Rightarrow> Inl (invalid_config e (ListTool c)))"
| "configure e (ExecTool c) v =
     (case v of ExecValue c' \<Rightarrow> Inr (ExecTool c') | _ \<Rightarrow> Inl (invalid_config e (ExecTool c)))"
| "configure e (SummonTool c) v =
     (case v of SummonValue c' \<Rightarrow> Inr (SummonTool c') | _ \<Rightarrow> Inl (invalid_config e (SummonTool c)))"
| "configure e (TaskTool c) v =
     (case v of TaskValue c' \<Rightarrow> Inr (TaskTool c') | _ \<Rightarrow> Inl (invalid_config e (TaskTool c)))"
| "configure e (DirectTool t) v =
     Inr (DirectTool (if dt_takes_config t then t\<lparr>dt_config := Some v\<rparr> else t))"

definition configure_clone :: "rstr \<Rightarrow> registered_tool \<Rightarrow> tool_config_value option \<Rightarrow> registered_tool res" where
  "configure_clone serde_error self config =
     (case config of None \<Rightarrow> Inr self | Some v \<Rightarrow> configure serde_error self v)"

definition supports_execution_kind :: "registered_tool \<Rightarrow> execution_kind \<Rightarrow> bool" where
  "supports_execution_kind self kind \<longleftrightarrow> kind \<in> set (supported_execution_kinds self)"

section \<open>The registry of an agent\<close>

record tool_entry =
  en_tool :: registered_tool
  en_execution_kind :: execution_kind
  en_owner_restricted :: bool

record tool_registry =
  rg_ordered :: "tool_entry list"
  rg_by_name :: "(rstr \<times> tool_entry) list"

abbreviation entry_name :: "tool_entry \<Rightarrow> rstr" where
  "entry_name e \<equiv> tool_name (en_tool e)"

definition registry_debug :: "tool_registry \<Rightarrow> (rstr \<times> execution_kind \<times> bool) list" where
  "registry_debug self =
     map (\<lambda>e. (entry_name e, en_execution_kind e, en_owner_restricted e)) (rg_ordered self)"

definition definitions :: "(registered_tool \<Rightarrow> rstr \<times> rstr) \<Rightarrow> tool_registry \<Rightarrow> tool_definition list" where
  "definitions texts self = map (\<lambda>e. tool_definition_of texts (en_tool e)) (rg_ordered self)"

definition get_tool :: "rstr \<Rightarrow> tool_registry \<Rightarrow> tool_entry option" where
  "get_tool name self = map_of (rg_by_name self) name"

text \<open>Collecting pairs into a hash map: a later pair replaces an earlier one.\<close>

definition index_by_name :: "tool_entry list \<Rightarrow> (rstr \<times> tool_entry) list" where
  "index_by_name es = foldl (\<lambda>m e. AList.update (entry_name e) e m) [] es"

definition without_tool :: "tool_registry \<Rightarrow> rstr \<Rightarrow> tool_registry" where
  "without_tool self name =
     (let ordered = filter (\<lambda>e. entry_name e \<noteq> name) (rg_ordered self)
      in \<lparr>rg_ordered = ordered, rg_by_name = index_by_name ordered\<rparr>)"

definition without_names :: "tool_registry \<Rightarrow> rstr list \<Rightarrow> tool_registry" where
  "without_names self names = foldl without_tool self names"

fun set_background :: "bool \<Rightarrow> registered_tool \<Rightarrow> registered_tool" where
  "set_background b (ExecTool c) = ExecTool (c\<lparr>xc_allow_background := b\<rparr>)"
| "set_background b (SummonTool c) = SummonTool (c\<lparr>uc_allow_background := b\<rparr>)"
| "set_background b (TaskTool c) = TaskTool (c\<lparr>kc_allow_background := b\<rparr>)"
| "set_background b t = t"

definition with_async_disabled :: "tool_registry \<Rightarrow> tool_registry" where
  "with_async_disabled self =
     (let ordered = map (\<lambda>e. e\<lparr>en_tool := set_background False (en_tool e)\<rparr>) (rg_ordered self)
      in \<lparr>rg_ordered = ordered, rg_by_name = index_by_name ordered\<rparr>)"

definition with_async_disabled_if :: "tool_registry \<Rightarrow> bool \<Rightarrow> tool_registry" where
  "with_async_disabled_if self disable_async = (if disable_async then with_async_disabled self else self)"

section \<open>The factory\<close>

record tool_factory =
  tf_builtins :: "registered_tool list"
  tf_by_name :: "(rstr \<times> registered_tool) list"

definition factory_new :: tool_factory where
  "factory_new = \<lparr>tf_builtins = [], tf_by_name = []\<rparr>"

definition register_builtin :: "tool_factory \<Rightarrow> registered_tool \<Rightarrow> tool_factory" where
  "register_builtin self tool =
     (let name = tool_name tool
      in \<lparr>tf_builtins =
            (case List.find (\<lambda>i. tool_name (tf_builtins self ! i) = name) [0..<length (tf_builtins self)] of
               Some existing_idx \<Rightarrow> (tf_builtins self)[existing_idx := tool]
             | None \<Rightarrow> tf_builtins self @ [tool]),
          tf_by_name = AList.update name tool (tf_by_name self)\<rparr>)"

abbreviation plain_direct :: "rstr \<Rightarrow> bool \<Rightarrow> registered_tool" where
  "plain_direct name takes_config \<equiv>
     DirectTool \<lparr>dt_name = name, dt_kinds = [Direct], dt_takes_config = takes_config, dt_config = None\<rparr>"

definition default_web_search_runtime :: web_search_runtime_config where
  "default_web_search_runtime =
     \<lparr>tc_enabled = default_enabled, tc_owner_restricted = default_owner_restricted,
      tc_timeout_seconds = None, tc_sandbox = default_sandbox, wx_provider = Duckduckgo, wx_api_key = None\<rparr>"

definition builtin_tools :: "registered_tool list" where
  "builtin_tools =
     [plain_direct ''memory'' True, plain_direct ''memorize'' False, plain_direct ''forget'' False,
      SummonTool default_summon, TaskTool default_task, WebSearchTool default_web_search_runtime,
      plain_direct ''clock'' False, plain_direct ''react'' True, WebFetchTool default_web_fetch,
      ReadTool default_sandboxed, EditTool default_sandboxed, GlobTool default_sandboxed,
      GrepTool default_sandboxed, ListTool default_sandboxed, ExecTool default_exec,
      plain_direct ''background'' False, plain_direct ''wait'' False]"

definition default_factory :: tool_factory where
  "default_factory = foldl register_builtin factory_new builtin_tools"

text \<open>The factory of the running service also has the cron tool (\<open>assemble_runtime_state\<close>).\<close>

definition service_factory :: tool_factory where
  "service_factory = register_builtin default_factory (plain_direct ''cron'' True)"

definition sandboxed_kind :: "execution_kind \<Rightarrow> 'a sandboxed_config_scheme \<Rightarrow> execution_kind" where
  "sandboxed_kind kind cfg = (if sx_enabled (tc_sandbox cfg) then kind else Direct)"

definition select_execution_kind :: "rstr \<Rightarrow> tools_config \<Rightarrow> execution_kind" where
  "select_execution_kind name cfg =
     (if name = ''read'' then sandboxed_kind WasmSandbox (or_default default_sandboxed (t_read cfg))
      else if name = ''edit'' then sandboxed_kind WasmSandbox (or_default default_sandboxed (t_edit cfg))
      else if name = ''glob'' then sandboxed_kind WasmSandbox (or_default default_sandboxed (t_glob cfg))
      else if name = ''grep'' then sandboxed_kind WasmSandbox (or_default default_sandboxed (t_grep cfg))
      else if name = ''list'' then sandboxed_kind WasmSandbox (or_default default_sandboxed (t_list cfg))
      else if name = ''web_search'' then sandboxed_kind WasmSandbox (or_default default_web_search (t_web_search cfg))
      else if name = ''web_fetch'' then sandboxed_kind WasmSandbox (or_default default_web_fetch (t_web_fetch cfg))
      else if name = ''exec'' then sandboxed_kind HostSandbox (or_default default_exec (t_exec cfg))
      else Direct)"

record build_state =
  bs_ordered :: "tool_entry list"
  bs_by_name :: "(rstr \<times> tool_entry) list"
  bs_seen :: "rstr set"

definition push_entry :: "rstr \<Rightarrow> tool_entry \<Rightarrow> build_state \<Rightarrow> build_state" where
  "push_entry name entry st =
     \<lparr>bs_ordered = bs_ordered st @ [entry], bs_by_name = AList.update name entry (bs_by_name st),
      bs_seen = insert name (bs_seen st)\<rparr>"

definition builtin_entry :: "rstr \<Rightarrow> tool_factory \<Rightarrow> tools_config \<Rightarrow> rstr \<Rightarrow> tool_entry res" where
  "builtin_entry serde_error self tools_config name =
     (case map_of (tf_by_name self) name of
        None \<Rightarrow> Inl (ConfigError (''unknown tool in tools map: '' @ name))
      | Some tool_template \<Rightarrow>
          rbind (config_for_tool tools_config name) (\<lambda>config.
          rbind (configure_clone serde_error tool_template config) (\<lambda>tool.
            (let owner_restricted = or_default True (owner_restricted_for_tool tools_config name);
                 execution_kind = select_execution_kind name tools_config
             in if \<not> supports_execution_kind tool execution_kind
                then Inl (ConfigError (''tool '' @ [SQ] @ name @ [SQ] @ '' does not support execution kind '' @
                       execution_kind_debug execution_kind))
                else Inr \<lparr>en_tool = tool, en_execution_kind = execution_kind,
                          en_owner_restricted = owner_restricted\<rparr>))))"

fun add_builtins ::
  "rstr \<Rightarrow> tool_factory \<Rightarrow> tools_config \<Rightarrow> rstr list \<Rightarrow> build_state \<Rightarrow> build_state res" where
  "add_builtins e self cfg [] st = Inr st"
| "add_builtins e self cfg (name # names) st =
     (if name \<in> bs_seen st then add_builtins e self cfg names st
      else rbind (builtin_entry e self cfg name)
             (\<lambda>entry. add_builtins e self cfg names (push_entry name entry st)))"

fun add_skills :: "direct_tool list \<Rightarrow> build_state \<Rightarrow> build_state" where
  "add_skills [] st = st"
| "add_skills (tool # tools) st =
     (if dt_name tool \<in> bs_seen st then add_skills tools st
      else add_skills tools
             (push_entry (dt_name tool)
                \<lparr>en_tool = DirectTool tool, en_execution_kind = Direct, en_owner_restricted = False\<rparr> st))"

definition build_registry ::
  "rstr \<Rightarrow> tool_factory \<Rightarrow> tools_config \<Rightarrow> direct_tool list \<Rightarrow> tool_registry res" where
  "build_registry serde_error self tools_config skill_tools =
     rbind (add_builtins serde_error self tools_config (enabled_tool_names tools_config)
              \<lparr>bs_ordered = [], bs_by_name = [], bs_seen = {}\<rparr>)
       (\<lambda>st. let st = add_skills skill_tools st
             in Inr \<lparr>rg_ordered = bs_ordered st, rg_by_name = bs_by_name st\<rparr>)"

section \<open>Building never fails on resolved configurations\<close>

lemma register_by_name [simp]:
  "tf_by_name (register_builtin f t) = AList.update (tool_name t) t (tf_by_name f)"
  by (simp add: register_builtin_def Let_def)

lemma service_by_name:
  "tf_by_name service_factory = map (\<lambda>t. (tool_name t, t)) (builtin_tools @ [plain_direct ''cron'' True])"
  by (simp add: service_factory_def default_factory_def builtin_tools_def factory_new_def)

definition web_key_resolved :: "tools_config \<Rightarrow> bool" where
  "web_key_resolved cfg \<longleftrightarrow>
     (case wc_api_key (or_default default_web_search (t_web_search cfg)) of
        None \<Rightarrow> True | Some s \<Rightarrow> exposed s \<noteq> None)"

lemma web_search_to_runtime_ok:
  "web_key_resolved cfg \<Longrightarrow>
   \<exists>c. web_search_to_runtime (or_default default_web_search (t_web_search cfg)) = Inr c"
  by (auto simp: web_key_resolved_def web_search_to_runtime_def split: option.splits)

lemmas builtin_entry_simps = builtin_entry_def service_by_name builtin_tools_def configure_clone_def
  config_for_tool_def supports_execution_kind_def select_execution_kind_def sandboxed_kind_def Let_def

text \<open>What an entry must be for the builder to accept it.\<close>

definition entry_ok :: "tools_config \<Rightarrow> rstr \<Rightarrow> tool_entry \<Rightarrow> bool" where
  "entry_ok cfg n en \<longleftrightarrow>
     entry_name en = n \<and> en_execution_kind en = select_execution_kind n cfg \<and>
     en_owner_restricted en = or_default True (owner_restricted_for_tool cfg n)"

lemma builtin_entry_ok_search:
  assumes "web_key_resolved cfg"
  shows "\<exists>en. builtin_entry e service_factory cfg ''web_search'' = Inr en \<and> entry_ok cfg ''web_search'' en"
  using web_search_to_runtime_ok[OF assms] by (auto simp: builtin_entry_simps entry_ok_def)

lemma builtin_entry_ok_other:
  "\<forall>n\<in>set builtin_names. n \<noteq> ''web_search'' \<longrightarrow>
     (\<exists>en. builtin_entry e service_factory cfg n = Inr en \<and> entry_ok cfg n en)"
  by (simp add: builtin_names_def builtin_entry_simps entry_ok_def)

lemma builtin_entry_ok:
  "web_key_resolved cfg \<Longrightarrow> n \<in> set builtin_names \<Longrightarrow>
   \<exists>en. builtin_entry e service_factory cfg n = Inr en \<and> entry_ok cfg n en"
  using builtin_entry_ok_search[of cfg e] builtin_entry_ok_other[of e cfg] by (cases "n = ''web_search''") auto

lemma update_absent: "k \<notin> fst ` set al \<Longrightarrow> AList.update k v al = al @ [(k, v)]"
  by (induction al) auto

section \<open>The invariant of a registry\<close>

text \<open>The index holds exactly the listed entries, under their names, which are distinct.\<close>

definition registry_ok :: "tool_registry \<Rightarrow> bool" where
  "registry_ok reg \<longleftrightarrow>
     distinct (map entry_name (rg_ordered reg)) \<and>
     rg_by_name reg = map (\<lambda>e. (entry_name e, e)) (rg_ordered reg)"

definition build_ok :: "build_state \<Rightarrow> bool" where
  "build_ok st \<longleftrightarrow>
     distinct (map entry_name (bs_ordered st)) \<and>
     bs_by_name st = map (\<lambda>e. (entry_name e, e)) (bs_ordered st) \<and>
     bs_seen st = entry_name ` set (bs_ordered st)"

lemma push_entry_ok:
  "build_ok st \<Longrightarrow> entry_name en = n \<Longrightarrow> n \<notin> bs_seen st \<Longrightarrow> build_ok (push_entry n en st)"
  by (auto simp: build_ok_def push_entry_def update_absent image_image)

lemma push_entry_sel [simp]:
  "bs_ordered (push_entry n en st) = bs_ordered st @ [en]"
  "bs_seen (push_entry n en st) = insert n (bs_seen st)"
  by (simp_all add: push_entry_def)

lemma add_builtins_ok:
  assumes "build_ok st" and "distinct names" and "set names \<inter> bs_seen st = {}"
    and "\<And>n. n \<in> set names \<Longrightarrow> \<exists>en. builtin_entry e f cfg n = Inr en \<and> entry_ok cfg n en"
  shows "\<exists>st' es. add_builtins e f cfg names st = Inr st' \<and> build_ok st' \<and>
    bs_ordered st' = bs_ordered st @ es \<and> map entry_name es = names \<and>
    (\<forall>en\<in>set es. entry_ok cfg (entry_name en) en)"
  using assms
proof (induction names arbitrary: st)
  case Nil
  then show ?case by (intro exI[of _ st] exI[of _ "[]"]) simp
next
  case (Cons n names)
  obtain en where en: "builtin_entry e f cfg n = Inr en" "entry_ok cfg n en" using Cons.prems(4)[of n] by auto
  have n: "n \<notin> bs_seen st" "entry_name en = n" using Cons.prems(3) en(2) by (auto simp: entry_ok_def)
  have "build_ok (push_entry n en st)" using push_entry_ok[OF Cons.prems(1) n(2) n(1)] .
  then obtain st' es where st': "add_builtins e f cfg names (push_entry n en st) = Inr st'" "build_ok st'"
    "bs_ordered st' = bs_ordered (push_entry n en st) @ es" "map entry_name es = names"
    "\<forall>en\<in>set es. entry_ok cfg (entry_name en) en"
    using Cons.IH[of "push_entry n en st"] Cons.prems(2,3,4) by force
  then show ?case using en n
    by (intro exI[of _ st'] exI[of _ "en # es"]) simp
qed

lemma add_skills_ok:
  assumes "build_ok st"
  shows "build_ok (add_skills tools st) \<and>
    (\<exists>ts. bs_ordered (add_skills tools st) = bs_ordered st @ ts \<and>
      (\<forall>en\<in>set ts. \<exists>t\<in>set tools. en = \<lparr>en_tool = DirectTool t, en_execution_kind = Direct, en_owner_restricted = False\<rparr>)) \<and>
    bs_seen (add_skills tools st) = bs_seen st \<union> dt_name ` set tools"
  using assms
proof (induction tools arbitrary: st)
  case Nil
  then show ?case by simp
next
  case (Cons t tools)
  show ?case
  proof (cases "dt_name t \<in> bs_seen st")
    case True
    then show ?thesis using Cons.IH[OF Cons.prems] by (auto simp: insert_absorb)
  next
    case False
    let ?en = "\<lparr>en_tool = DirectTool t, en_execution_kind = Direct, en_owner_restricted = False\<rparr>"
    have "build_ok (push_entry (dt_name t) ?en st)" using push_entry_ok[OF Cons.prems _ False] by simp
    from Cons.IH[OF this] show ?thesis using False by auto
  qed
qed

lemma enabled_subset: "set (enabled_tool_names cfg) \<subseteq> set builtin_names"
  by (auto simp: enabled_tool_names_def switch_names[of cfg, symmetric])

lemma enabled_distinct: "distinct (enabled_tool_names cfg)"
proof -
  have "distinct (map fst (tool_switches cfg))" unfolding switch_names by (simp add: builtin_names_def)
  then show ?thesis unfolding enabled_tool_names_def by (rule distinct_map_filter)
qed

lemma build_registry_ok:
  assumes "web_key_resolved cfg"
  shows "\<exists>reg es ts. build_registry e service_factory cfg skills = Inr reg \<and> registry_ok reg \<and>
    rg_ordered reg = es @ ts \<and> map entry_name es = enabled_tool_names cfg \<and>
    (\<forall>en\<in>set es. entry_ok cfg (entry_name en) en) \<and>
    (\<forall>en\<in>set ts. en_execution_kind en = Direct \<and> \<not> en_owner_restricted en \<and> entry_name en \<in> dt_name ` set skills)"
proof -
  let ?st = "\<lparr>bs_ordered = [], bs_by_name = [], bs_seen = {}\<rparr>"
  have "build_ok ?st" by (simp add: build_ok_def)
  moreover have "\<exists>en. builtin_entry e service_factory cfg n = Inr en \<and> entry_ok cfg n en"
    if "n \<in> set (enabled_tool_names cfg)" for n
    using builtin_entry_ok[OF assms] that enabled_subset by blast
  ultimately obtain st es where st: "add_builtins e service_factory cfg (enabled_tool_names cfg) ?st = Inr st"
    "build_ok st" "bs_ordered st = es" "map entry_name es = enabled_tool_names cfg"
    "\<forall>en\<in>set es. entry_ok cfg (entry_name en) en"
    using add_builtins_ok[OF _ enabled_distinct[of cfg], of ?st e service_factory cfg] by auto
  from add_skills_ok[OF st(2), of skills] obtain ts where
    "build_ok (add_skills skills st)" "bs_ordered (add_skills skills st) = es @ ts"
    "\<forall>en\<in>set ts. \<exists>t\<in>set skills. en = \<lparr>en_tool = DirectTool t, en_execution_kind = Direct, en_owner_restricted = False\<rparr>"
    using st(3) by auto
  then show ?thesis using st
    by (intro exI[of _ "\<lparr>rg_ordered = es @ ts, rg_by_name = bs_by_name (add_skills skills st)\<rparr>"] exI[of _ es] exI[of _ ts])
       (auto simp: build_registry_def Let_def build_ok_def registry_ok_def)
qed



section \<open>Restricting a registry\<close>

lemma index_by_name_distinct:
  "distinct (map entry_name es) \<Longrightarrow> index_by_name es = map (\<lambda>e. (entry_name e, e)) es"
proof (induction es rule: rev_induct)
  case (snoc e es)
  then show ?case by (auto simp: index_by_name_def update_absent image_image)
qed (simp add: index_by_name_def)

lemma registry_ok_without: "registry_ok reg \<Longrightarrow> registry_ok (without_tool reg n)"
  by (simp add: registry_ok_def without_tool_def Let_def index_by_name_distinct distinct_map_filter)

lemma get_tool_iff: "registry_ok reg \<Longrightarrow> get_tool n reg = Some e \<longleftrightarrow> e \<in> set (rg_ordered reg) \<and> entry_name e = n"
  unfolding get_tool_def registry_ok_def
  by (auto dest: map_of_SomeD intro!: map_of_is_SomeI simp: comp_def)

lemma option_ext: "(\<And>e. x = Some e \<longleftrightarrow> y = Some e) \<Longrightarrow> x = y"
  by (cases x; cases y) auto

lemma get_without:
  assumes "registry_ok reg"
  shows "get_tool m (without_tool reg n) = (if m = n then None else get_tool m reg)"
  using get_tool_iff[OF registry_ok_without[OF assms, of n], of m] get_tool_iff[OF assms, of m]
  by (intro option_ext) (auto simp: without_tool_def Let_def)

lemma without_names_props:
  "registry_ok reg \<Longrightarrow>
   registry_ok (without_names reg ns) \<and>
   rg_ordered (without_names reg ns) = filter (\<lambda>e. entry_name e \<notin> set ns) (rg_ordered reg) \<and>
   get_tool m (without_names reg ns) = (if m \<in> set ns then None else get_tool m reg)"
proof (induction ns arbitrary: reg)
  case Nil
  then show ?case by (simp add: without_names_def)
next
  case (Cons n ns)
  have "rg_ordered (without_tool reg n) = filter (\<lambda>e. entry_name e \<noteq> n) (rg_ordered reg)"
    by (simp add: without_tool_def Let_def)
  then show ?case using Cons.IH[OF registry_ok_without[OF Cons.prems, of n]] get_without[OF Cons.prems]
    by (simp add: without_names_def conj_commute)
qed

lemma tool_name_set_background [simp]: "tool_name (set_background b t) = tool_name t"
  by (cases t) simp_all

lemma registry_ok_async: "registry_ok reg \<Longrightarrow> registry_ok (with_async_disabled reg)"
  by (simp add: registry_ok_def with_async_disabled_def Let_def index_by_name_distinct comp_def)

lemma get_async:
  assumes "registry_ok reg"
  shows "get_tool m (with_async_disabled reg) =
    map_option (\<lambda>e. e\<lparr>en_tool := set_background False (en_tool e)\<rparr>) (get_tool m reg)"
proof (cases "get_tool m reg")
  case None
  then have "m \<notin> entry_name ` set (rg_ordered reg)" using get_tool_iff[OF assms, of m] by auto
  then have "m \<notin> entry_name ` set (rg_ordered (with_async_disabled reg))"
    by (auto simp: with_async_disabled_def Let_def)
  then have "get_tool m (with_async_disabled reg) \<noteq> Some e" for e
    using get_tool_iff[OF registry_ok_async[OF assms], of m e] by blast
  then have "get_tool m (with_async_disabled reg) = None"
    using not_Some_eq by blast
  then show ?thesis using None by simp
next
  case (Some e)
  then have "e \<in> set (rg_ordered reg)" "entry_name e = m" using get_tool_iff[OF assms, of m] by auto
  then have "get_tool m (with_async_disabled reg) = Some (e\<lparr>en_tool := set_background False (en_tool e)\<rparr>)"
    using get_tool_iff[OF registry_ok_async[OF assms], of m] by (auto simp: with_async_disabled_def Let_def)
  then show ?thesis using Some by simp
qed

text \<open>Whether a tool can start work in the background.\<close>

fun allows_background :: "registered_tool \<Rightarrow> bool" where
  "allows_background (ExecTool c) = xc_allow_background c"
| "allows_background (SummonTool c) = uc_allow_background c"
| "allows_background (TaskTool c) = kc_allow_background c"
| "allows_background _ = False"

lemma no_background [simp]: "\<not> allows_background (set_background False t)"
  by (cases t) simp_all

text \<open>
  Restricting a registry, as delegated runs do: removing names hides exactly those
  tools, from the list and from the lookup alike, and keeps all others unchanged; disabling
  asynchronous tools keeps every name, execution kind and owner restriction and leaves no
  tool that can start background work.
\<close>

lemma registry_restriction:
  assumes "registry_ok reg"
  shows "map entry_name (rg_ordered (without_names reg ns)) =
      filter (\<lambda>n. n \<notin> set ns) (map entry_name (rg_ordered reg)) \<and>
    get_tool m (without_names reg ns) = (if m \<in> set ns then None else get_tool m reg) \<and>
    registry_debug (with_async_disabled reg) = registry_debug reg \<and>
    (case get_tool m (with_async_disabled reg) of
       None \<Rightarrow> get_tool m reg = None
     | Some e \<Rightarrow> \<not> allows_background (en_tool e) \<and> get_tool m reg \<noteq> None)"
proof -
  have "map entry_name (rg_ordered (without_names reg ns)) =
      filter (\<lambda>n. n \<notin> set ns) (map entry_name (rg_ordered reg))"
    using without_names_props[OF assms, of ns m] by (simp add: filter_map comp_def)
  moreover have "registry_debug (with_async_disabled reg) = registry_debug reg"
    by (simp add: registry_debug_def with_async_disabled_def Let_def comp_def)
  ultimately show ?thesis
    using without_names_props[OF assms, of ns m] by (auto simp: get_async[OF assms] split: option.splits)
qed

end
