(* ===== verification/ToolExecutor.thy ===== *)
theory ToolExecutor
  imports ToolRegistry Approval AsyncRuns
begin

text \<open>
  The second half of \<open>src/tools/mod.rs\<close>: who may use a tool and how a tool is run. What the
  tools themselves do (planning a call, running it directly, in the WASM sandbox or in the
  host sandbox) is an argument; the approval requester is a function that answers a request,
  or never returns (\<open>None\<close>). An execution also returns the list of what it did, in order.
\<close>

section \<open>Authorization\<close>

record exec_env =
  ev_agent_id :: rstr
  ev_agent_name :: rstr
  ev_user_id :: rstr
  ev_owner_ids :: "rstr list"

definition owner_allowed :: "rstr \<Rightarrow> rstr list \<Rightarrow> bool" where
  "owner_allowed user_id owner_ids \<longleftrightarrow> owner_ids \<noteq> [] \<and> list_ex (\<lambda>owner_id. owner_id = user_id) owner_ids"

definition is_owner :: "exec_env \<Rightarrow> bool" where
  "is_owner ctx = owner_allowed (ev_user_id ctx) (ev_owner_ids ctx)"

definition authorize :: "tool_entry \<Rightarrow> exec_env \<Rightarrow> unit res" where
  "authorize entry ctx =
     (if \<not> en_owner_restricted entry then Inr ()
      else if ev_owner_ids ctx = []
      then Inl (ToolError ''owner restriction misconfigured: runtime.owner_ids is empty'')
      else if is_owner ctx then Inr ()
      else Inl (ToolError ''permission denied: this tool is restricted to the owner''))"

section \<open>Outcomes, plans and what an execution does\<close>

text \<open>\<open>'c\<close> is the type of the results of nested tool calls.\<close>

datatype 'c execution_outcome =
    CompletedRun rstr "'c list"
  | AsyncStarted started_run

datatype access_route =
    RouteSandboxed
  | RouteNeedsApproval sandbox_capability rstr rstr   \<comment> \<open>capability, target, reason\<close>

record ('p, 'c) tool_runtime =
  rt_plan :: "registered_tool \<Rightarrow> rstr \<Rightarrow> 'p res"
  rt_route :: "'p \<Rightarrow> access_route"
  rt_direct :: "registered_tool \<Rightarrow> 'p \<Rightarrow> 'c execution_outcome res"
  rt_wasm :: "registered_tool \<Rightarrow> 'p \<Rightarrow> 'c execution_outcome res"
  rt_host :: "registered_tool \<Rightarrow> 'p \<Rightarrow> 'c execution_outcome res"
  rt_with_trace :: "registered_tool \<Rightarrow> rstr \<Rightarrow> 'c execution_outcome res"

datatype tool_event =
    RanDirect registered_tool
  | RanWasm registered_tool
  | RanHost registered_tool
  | Asked approval_request

type_synonym ('p, 'c) execution = "tool_event list \<times> 'c execution_outcome res option"

section \<open>Escalation\<close>

definition escalation_request ::
  "exec_env \<Rightarrow> rstr \<Rightarrow> rstr \<Rightarrow> sandbox_capability \<Rightarrow> rstr \<Rightarrow> rstr \<Rightarrow> approval_request" where
  "escalation_request ctx session_id tool capability target reason =
     \<lparr>aq_agent_id = ev_agent_id ctx, aq_agent_name = ev_agent_name ctx, aq_session_id = session_id,
      aq_requesting_user_id = ev_user_id ctx, aq_tool_name = tool,
      aq_execution_kind = ''preflight_escalation'', aq_capability = capability, aq_reason = reason,
      aq_action_summary = target,
      aq_diagnostic = ''preflight escalation required: tool='' @ tool @ '' target='' @ target\<rparr>"

definition request_tool_escalation ::
  "(approval_request \<Rightarrow> approval_decision res option) \<Rightarrow> exec_env \<Rightarrow> rstr \<Rightarrow> rstr \<Rightarrow>
   sandbox_capability \<Rightarrow> rstr \<Rightarrow> rstr \<Rightarrow> unit res option" where
  "request_tool_escalation ask ctx session_id tool capability target reason =
     map_option
       (\<lambda>r. rbind r (\<lambda>decision.
          case decision of
            Approved \<Rightarrow> Inr ()
          | Denied \<Rightarrow> Inl (approval_denied \<lparr>ad_approval_id = ''denied'', ad_tool_name = tool,
                             ad_reason = ''user denied sandbox escalation''\<rparr>)
          | TimedOut \<Rightarrow> Inl (approval_denied \<lparr>ad_approval_id = ''timed-out'', ad_tool_name = tool,
                             ad_reason = ''approval timed out''\<rparr>)))
       (ask (escalation_request ctx session_id tool capability target reason))"

definition invariant_sandbox_denial :: "rstr \<Rightarrow> framework_error \<Rightarrow> framework_error" where
  "invariant_sandbox_denial tool err =
     (case as_sandbox_permission_denied err of
        Some denial \<Rightarrow>
          ToolError (''sandbox invariant violated for '' @ tool @
            '': preflight classified target as in-sandbox but wasm denied '' @
            capability_as_str (sd_capability denial) @ '' access to '' @ sd_target denial @
            '' ('' @ sd_diagnostic denial @ '')'')
      | None \<Rightarrow> err)"

text \<open>\<open>request_tool_escalation(...).await?; tool.execute_direct(...)\<close>.\<close>

definition escalate_then_direct ::
  "('p, 'c) tool_runtime \<Rightarrow> (approval_request \<Rightarrow> approval_decision res option) \<Rightarrow> exec_env \<Rightarrow> rstr \<Rightarrow>
   registered_tool \<Rightarrow> 'p \<Rightarrow> rstr \<Rightarrow> sandbox_capability \<Rightarrow> rstr \<Rightarrow> rstr \<Rightarrow> ('p, 'c) execution" where
  "escalate_then_direct rt ask ctx session_id tool plan name capability target reason =
     (let asked = Asked (escalation_request ctx session_id name capability target reason)
      in case request_tool_escalation ask ctx session_id name capability target reason of
           None \<Rightarrow> ([asked], None)
         | Some (Inl e) \<Rightarrow> ([asked], Some (Inl e))
         | Some (Inr _) \<Rightarrow> ([asked, RanDirect tool], Some (rt_direct rt tool plan)))"

section \<open>The executor\<close>

text \<open>The arms of \<open>execute\<close>: a plan run directly, a web tool in WASM, a file tool in WASM, a shell command.\<close>

definition execute_planned ::
  "('p, 'c) tool_runtime \<Rightarrow> registered_tool \<Rightarrow> rstr \<Rightarrow> ('p, 'c) execution" where
  "execute_planned rt tool args_json =
     (case rt_plan rt tool args_json of
        Inl e \<Rightarrow> ([], Some (Inl e))
      | Inr plan \<Rightarrow> ([RanDirect tool], Some (rt_direct rt tool plan)))"

definition execute_web_wasm ::
  "('p, 'c) tool_runtime \<Rightarrow> registered_tool \<Rightarrow> rstr \<Rightarrow> ('p, 'c) execution" where
  "execute_web_wasm rt tool args_json =
     (case rt_plan rt tool args_json of
        Inl e \<Rightarrow> ([], Some (Inl e))
      | Inr plan \<Rightarrow> ([RanWasm tool], Some (rt_wasm rt tool plan)))"

definition execute_file_wasm ::
  "('p, 'c) tool_runtime \<Rightarrow> (approval_request \<Rightarrow> approval_decision res option) \<Rightarrow> exec_env \<Rightarrow> rstr \<Rightarrow>
   registered_tool \<Rightarrow> rstr \<Rightarrow> rstr \<Rightarrow> ('p, 'c) execution" where
  "execute_file_wasm rt ask ctx session_id tool name args_json =
     (case rt_plan rt tool args_json of
        Inl e \<Rightarrow> ([], Some (Inl e))
      | Inr plan \<Rightarrow>
          (case rt_route rt plan of
             RouteSandboxed \<Rightarrow>
               ([RanWasm tool],
                Some (case rt_wasm rt tool plan of
                        Inl err \<Rightarrow> Inl (invariant_sandbox_denial name err)
                      | Inr output \<Rightarrow> Inr output))
           | RouteNeedsApproval capability target reason \<Rightarrow>
               escalate_then_direct rt ask ctx session_id tool plan name capability target reason))"

definition execute_exec_host ::
  "('p, 'c) tool_runtime \<Rightarrow> (approval_request \<Rightarrow> approval_decision res option) \<Rightarrow> exec_env \<Rightarrow> rstr \<Rightarrow>
   registered_tool \<Rightarrow> rstr \<Rightarrow> ('p, 'c) execution" where
  "execute_exec_host rt ask ctx session_id tool args_json =
     (case rt_plan rt tool args_json of
        Inl e \<Rightarrow> ([], Some (Inl e))
      | Inr plan \<Rightarrow>
          (case rt_route rt plan of
             RouteSandboxed \<Rightarrow>
               (case rt_host rt tool plan of
                  Inr outcome \<Rightarrow> ([RanHost tool], Some (Inr outcome))
                | Inl err \<Rightarrow>
                    (case as_sandbox_permission_denied err of
                       Some denial \<Rightarrow>
                         (let reason = sd_tool_name denial @ '' requires unsandboxed '' @
                                capability_as_str (sd_capability denial) @ '' access'';
                              (events, r) = escalate_then_direct rt ask ctx session_id tool plan
                                (sd_tool_name denial) (sd_capability denial) (sd_target denial) reason
                          in (RanHost tool # events, r))
                     | None \<Rightarrow> ([RanHost tool], Some (Inl err))))
           | RouteNeedsApproval capability target reason \<Rightarrow>
               escalate_then_direct rt ask ctx session_id tool plan ''exec'' capability target reason))"

fun execute_tool ::
  "('p, 'c) tool_runtime \<Rightarrow> (approval_request \<Rightarrow> approval_decision res option) \<Rightarrow> exec_env \<Rightarrow>
   registered_tool \<Rightarrow> execution_kind \<Rightarrow> rstr \<Rightarrow> rstr \<Rightarrow> ('p, 'c) execution" where
  "execute_tool rt ask ctx (WebSearchTool c) Direct args sid = execute_planned rt (WebSearchTool c) args"
| "execute_tool rt ask ctx (WebSearchTool c) WasmSandbox args sid = execute_web_wasm rt (WebSearchTool c) args"
| "execute_tool rt ask ctx (WebFetchTool c) Direct args sid = execute_planned rt (WebFetchTool c) args"
| "execute_tool rt ask ctx (WebFetchTool c) WasmSandbox args sid = execute_web_wasm rt (WebFetchTool c) args"
| "execute_tool rt ask ctx (ReadTool c) Direct args sid = execute_planned rt (ReadTool c) args"
| "execute_tool rt ask ctx (ReadTool c) WasmSandbox args sid =
     execute_file_wasm rt ask ctx sid (ReadTool c) ''read'' args"
| "execute_tool rt ask ctx (EditTool c) Direct args sid = execute_planned rt (EditTool c) args"
| "execute_tool rt ask ctx (EditTool c) WasmSandbox args sid =
     execute_file_wasm rt ask ctx sid (EditTool c) ''edit'' args"
| "execute_tool rt ask ctx (GlobTool c) Direct args sid = execute_planned rt (GlobTool c) args"
| "execute_tool rt ask ctx (GlobTool c) WasmSandbox args sid =
     execute_file_wasm rt ask ctx sid (GlobTool c) ''glob'' args"
| "execute_tool rt ask ctx (GrepTool c) Direct args sid = execute_planned rt (GrepTool c) args"
| "execute_tool rt ask ctx (GrepTool c) WasmSandbox args sid =
     execute_file_wasm rt ask ctx sid (GrepTool c) ''grep'' args"
| "execute_tool rt ask ctx (ListTool c) Direct args sid = execute_planned rt (ListTool c) args"
| "execute_tool rt ask ctx (ListTool c) WasmSandbox args sid =
     execute_file_wasm rt ask ctx sid (ListTool c) ''list'' args"
| "execute_tool rt ask ctx (ExecTool c) Direct args sid = execute_planned rt (ExecTool c) args"
| "execute_tool rt ask ctx (ExecTool c) HostSandbox args sid = execute_exec_host rt ask ctx sid (ExecTool c) args"
| "execute_tool rt ask ctx tool Direct args sid = ([RanDirect tool], Some (rt_with_trace rt tool args))"
| "execute_tool rt ask ctx tool kind args sid =
     ([], Some (Inl (ToolError (''unsupported execution kind '' @ execution_kind_debug kind @
        '' for tool '' @ [SQ] @ tool_name tool @ [SQ]))))"

definition execute_entry ::
  "('p, 'c) tool_runtime \<Rightarrow> (approval_request \<Rightarrow> approval_decision res option) \<Rightarrow> exec_env \<Rightarrow>
   tool_entry \<Rightarrow> rstr \<Rightarrow> rstr \<Rightarrow> ('p, 'c) execution" where
  "execute_entry rt ask ctx entry args_json session_id =
     execute_tool rt ask ctx (en_tool entry) (en_execution_kind entry) args_json session_id"

section \<open>Lemmas\<close>

lemma request_tool_escalation_ok:
  "request_tool_escalation ask ctx sid tool cap target reason = Some (Inr u) \<longleftrightarrow>
   ask (escalation_request ctx sid tool cap target reason) = Some (Inr Approved)"
proof -
  have "v = Approved \<or> v = Denied \<or> v = TimedOut" for v :: approval_decision by (cases v) auto
  then show ?thesis
    by (auto simp: request_tool_escalation_def rbind_eq_Inr split: approval_decision.splits)
qed

lemma escalation_user [simp]: "aq_requesting_user_id (escalation_request ctx sid tool cap target reason) = ev_user_id ctx"
  by (simp add: escalation_request_def)

text \<open>
  What an execution may do: every direct run of a tool is preceded by a request of the
  caller that was approved.
\<close>

definition consented_trace :: "(approval_request \<Rightarrow> approval_decision res option) \<Rightarrow> exec_env \<Rightarrow> tool_event list \<Rightarrow> bool" where
  "consented_trace ask ctx tr \<longleftrightarrow>
     (\<forall>i t. i < length tr \<longrightarrow> tr ! i = RanDirect t \<longrightarrow>
        (\<exists>j<i. \<exists>request. tr ! j = Asked request \<and> ask request = Some (Inr Approved) \<and>
           aq_requesting_user_id request = ev_user_id ctx))"

lemma consented_trace_simps [simp]:
  "consented_trace ask ctx []"
  "consented_trace ask ctx [RanWasm t]" "consented_trace ask ctx [RanHost t]" "consented_trace ask ctx [Asked r]"
  by (auto simp: consented_trace_def)

lemma consented_trace_Cons:
  assumes "consented_trace ask ctx tr" and "\<And>t. e \<noteq> RanDirect t"
  shows "consented_trace ask ctx (e # tr)"
  unfolding consented_trace_def
proof (intro allI impI)
  fix i t
  assume i: "i < length (e # tr)" "(e # tr) ! i = RanDirect t"
  with assms(2) obtain k where k: "i = Suc k" by (cases i) auto
  with i assms(1) obtain j request where "j < k" "tr ! j = Asked request" "ask request = Some (Inr Approved)"
    "aq_requesting_user_id request = ev_user_id ctx" unfolding consented_trace_def by fastforce
  then show "\<exists>j<i. \<exists>request. (e # tr) ! j = Asked request \<and> ask request = Some (Inr Approved) \<and>
      aq_requesting_user_id request = ev_user_id ctx"
    using k by (intro exI[of _ "Suc j"]) simp
qed

lemma consented_pair:
  "ask request = Some (Inr Approved) \<Longrightarrow> aq_requesting_user_id request = ev_user_id ctx \<Longrightarrow>
   consented_trace ask ctx [Asked request, RanDirect t]"
  unfolding consented_trace_def by (auto simp: less_Suc_eq nth_Cons')

lemma consented_escalation:
  "consented_trace ask ctx (fst (escalate_then_direct rt ask ctx sid tool plan name cap target reason))"
  by (auto simp: escalate_then_direct_def Let_def request_tool_escalation_ok consented_pair
      split: option.splits sum.splits)

lemma consented_file: "consented_trace ask ctx (fst (execute_file_wasm rt ask ctx sid tool name args))"
  by (simp add: execute_file_wasm_def consented_escalation split: sum.splits access_route.splits)

lemma consented_exec: "consented_trace ask ctx (fst (execute_exec_host rt ask ctx sid tool args))"
  using consented_escalation[of ask ctx rt sid tool]
  by (auto simp: execute_exec_host_def Let_def consented_trace_Cons
      split: sum.splits access_route.splits option.splits prod.splits)
     (metis consented_trace_Cons consented_escalation fst_conv tool_event.distinct)+

lemma consented_web: "consented_trace ask ctx (fst (execute_web_wasm rt tool args))"
  by (simp add: execute_web_wasm_def split: sum.splits)

lemma consented_execution:
  "kind \<noteq> Direct \<Longrightarrow> consented_trace ask ctx (fst (execute_tool rt ask ctx tool kind args sid))"
  by (cases tool; cases kind) (simp_all add: consented_file consented_exec consented_web)

text \<open>What the executor gains from the contract of the requester it is given.\<close>

context approval_requester
begin

lemma direct_run_consented:
  assumes "execute_entry rt (answer c) ctx entry args sid = (tr, r)" and "en_execution_kind entry \<noteq> Direct"
    and "RanDirect t \<in> set tr"
  shows "\<exists>request. Asked request \<in> set tr \<and> aq_requesting_user_id request = ev_user_id ctx \<and> consented c request"
proof -
  have "consented_trace (answer c) ctx tr"
    using consented_execution[OF assms(2), of "answer c" ctx rt "en_tool entry" args sid] assms(1)
    by (simp add: execute_entry_def)
  moreover obtain i where i: "i < length tr" "tr ! i = RanDirect t" using assms(3) by (auto simp: in_set_conv_nth)
  ultimately obtain j request where "j < i" "tr ! j = Asked request" "answer c request = Some (Inr Approved)"
      "aq_requesting_user_id request = ev_user_id ctx"
    unfolding consented_trace_def by blast
  then show ?thesis using approved_consented i(1) by (metis less_trans nth_mem)
qed

end

text \<open>
  C11. Nothing leaves the sandbox without its user's consent: when a tool configured for a
  sandbox is executed with the gateway's requester, and the tool is run outside the sandbox
  on whatever path (a target that needs approval, or a denial by the sandbox), then the user
  of the turn resolved the approval with \<open>Approved\<close> before.
\<close>

theorem unsandboxed_run_needs_consent:
  assumes "execute_entry rt (gateway_answer gx) ctx entry args sid = (tr, r)"
    and "en_execution_kind entry \<noteq> Direct" and "RanDirect t \<in> set tr"
  shows "OpResolve (approval_key (ar_next_id (gx_registry gx))) (ev_user_id ctx) Approved \<in> set (gx_before gx)"
proof -
  from gateway.direct_run_consented[OF assms] obtain request where
    "aq_requesting_user_id request = ev_user_id ctx" "gateway_consented gx request" by blast
  then show ?thesis by (simp add: gateway_consented_def)
qed

abbreviation sample_runtime :: "(unit, unit) tool_runtime" where
  "sample_runtime \<equiv> \<lparr>rt_plan = \<lambda>_ _. Inr (), rt_route = \<lambda>_. RouteNeedsApproval CapWrite ''/x'' ''r'',
     rt_direct = \<lambda>_ _. Inr (CompletedRun ''ok'' []), rt_wasm = \<lambda>_ _. Inr (CompletedRun ''ok'' []),
     rt_host = \<lambda>_ _. Inr (CompletedRun ''ok'' []), rt_with_trace = \<lambda>_ _. Inr (CompletedRun ''ok'' [])\<rparr>"

abbreviation sample_env :: exec_env where
  "sample_env \<equiv> \<lparr>ev_agent_id = ''a'', ev_agent_name = ''A'', ev_user_id = ''u'', ev_owner_ids = [''u'']\<rparr>"

abbreviation sample_entry :: tool_entry where
  "sample_entry \<equiv> \<lparr>en_tool = ReadTool default_sandboxed, en_execution_kind = WasmSandbox, en_owner_restricted = True\<rparr>"

abbreviation sample_gateway :: gateway_context where
  "sample_gateway \<equiv> \<lparr>gx_registry = registry_new, gx_send_result = Inr None,
     gx_before = [OpResolve ''approval-1'' ''u'' Approved], gx_between = [], gx_elapsed = False\<rparr>"

lemma sample_answer:
  assumes "aq_requesting_user_id request = ''u''"
  shows "gateway_answer sample_gateway request = Some (Inr Approved)"
proof -
  have "fst (snd (request_approval_gateway (Inr None) [OpResolve ''approval-1'' ''u'' Approved] [] False request
      registry_new)) = Some (Inr Approved)"
    using assms by (simp add: request_approval_gateway_def register_def approval_key_def registry_new_def
      wait_for_decision_def wait_outcome_def approval_step_def resolve_approval_def drop_entry_def
      Let_def str_simps)
  then show ?thesis by (simp add: gateway_answer_def registry_inv_new)
qed

theorem unsandboxed_run_needs_consent_witness:
  "RanDirect (ReadTool default_sandboxed)
     \<in> set (fst (execute_entry sample_runtime (gateway_answer sample_gateway) sample_env sample_entry ''{}'' ''s'')) \<and>
   OpResolve (approval_key 1) ''u'' Approved \<in> set (gx_before sample_gateway)"
proof -
  let ?x = "execute_entry sample_runtime (gateway_answer sample_gateway) sample_env sample_entry ''{}'' ''s''"
  have ran: "RanDirect (ReadTool default_sandboxed) \<in> set (fst ?x)"
    by (simp add: execute_entry_def execute_file_wasm_def escalate_then_direct_def Let_def
        request_tool_escalation_def sample_answer)
  have "?x = (fst ?x, snd ?x)" by simp
  from unsandboxed_run_needs_consent[OF this _ ran] ran show ?thesis by (simp add: registry_new_def)
qed

end
