(* ===== verification/Dispatch.thy ===== *)
theory Dispatch
  imports ToolExecutor
begin

text \<open>
  \<open>src/dispatch.rs\<close> and the messages of \<open>src/providers/types.rs\<close>: how the answer of a model
  is read as tool calls, how the calls are executed, and how they are written back into the
  history. The JSON library is an argument: parsing, the empty object, the compact text.
\<close>

section \<open>Messages\<close>

datatype role = System | User | Assistant | ToolRole

record tool_call =
  tl_id :: "rstr option"
  tl_name :: rstr
  tl_args_json :: rstr

record tool_result_message =
  tm_call_id :: "rstr option"
  tm_name :: rstr
  tm_status :: rstr      \<comment> \<open>the two fields of the JSON response\<close>
  tm_content :: rstr

record message =
  ms_role :: role
  ms_content :: rstr
  ms_tool_calls :: "tool_call list"
  ms_tool_results :: "tool_result_message list"

definition message_text :: "role \<Rightarrow> rstr \<Rightarrow> message" where
  "message_text r content = \<lparr>ms_role = r, ms_content = content, ms_tool_calls = [], ms_tool_results = []\<rparr>"

definition assistant_tool_calls :: "tool_call list \<Rightarrow> message" where
  "assistant_tool_calls calls = \<lparr>ms_role = Assistant, ms_content = [], ms_tool_calls = calls, ms_tool_results = []\<rparr>"

definition tool_results_message :: "tool_result_message list \<Rightarrow> message" where
  "tool_results_message rs = \<lparr>ms_role = ToolRole, ms_content = [], ms_tool_calls = [], ms_tool_results = rs\<rparr>"

record provider_response =
  pr_output_text :: "rstr option"
  pr_tool_calls :: "tool_call list"

section \<open>Parsed calls and results\<close>

record 'v json_library =
  js_parse :: "rstr \<Rightarrow> 'v option"
  js_empty_object :: 'v
  js_text :: "'v \<Rightarrow> rstr"

record 'v parsed_call =
  pl_name :: rstr
  pl_arguments :: 'v
  pl_tool_call_id :: "rstr option"

datatype execution_status = StatusOk | StatusAccepted | StatusToolError

fun status_as_str :: "execution_status \<Rightarrow> rstr" where
  "status_as_str StatusOk = ''ok''"
| "status_as_str StatusAccepted = ''accepted''"
| "status_as_str StatusToolError = ''tool_error''"

definition is_success :: "execution_status \<Rightarrow> bool" where
  "is_success s \<longleftrightarrow> s = StatusOk \<or> s = StatusAccepted"

text \<open>\<open>ToolExecutionResult\<close>, whose nested calls are results themselves.\<close>

datatype execution_result = ExecutionResult
  (er_name: rstr) (er_args_json: rstr) (er_output: rstr) (er_status: execution_status)
  (er_elapsed_ms: nat) (er_tool_call_id: "rstr option") (er_nested: "execution_result list")

datatype 'v dispatch_action = ToolCalls "'v parsed_call list" | FinalResponse rstr | EmptyResponse

section \<open>Executing calls\<close>

text \<open>
  One call: looked up in the active tools, authorized, executed; \<open>None\<close> while its approval
  is not answered. The first component is what the execution did.
\<close>

definition run_call ::
  "('p, execution_result) tool_runtime \<Rightarrow> (started_run \<Rightarrow> rstr) \<Rightarrow>
   (approval_request \<Rightarrow> approval_decision res option) \<Rightarrow> tool_registry \<Rightarrow> exec_env \<Rightarrow> rstr \<Rightarrow> rstr \<Rightarrow> rstr \<Rightarrow>
   tool_event list \<times> (rstr \<times> execution_result list \<times> execution_status) option" where
  "run_call rt accepted_output ask active_tools ctx session_id name args_json =
     (case get_tool name active_tools of
        None \<Rightarrow> ([], Some (''tool_error: unknown tool: '' @ name, [], StatusToolError))
      | Some entry \<Rightarrow>
          (case authorize entry ctx of
             Inl err \<Rightarrow> ([], Some (''tool_error: '' @ error_to_string err, [], StatusToolError))
           | Inr _ \<Rightarrow>
               (case execute_entry rt ask ctx entry args_json session_id of
                  (events, r) \<Rightarrow>
                    (events,
                     map_option (\<lambda>r. case r of
                         Inr (CompletedRun output nested) \<Rightarrow> (output, nested, StatusOk)
                       | Inr (AsyncStarted started) \<Rightarrow> (accepted_output started, [], StatusAccepted)
                       | Inl err \<Rightarrow> (''tool_error: '' @ error_to_string err, [], StatusToolError)) r))))"

text \<open>The calls run concurrently; the results come in the order of the calls once all have ended.\<close>

definition execute_tool_calls ::
  "'v json_library \<Rightarrow> ('p, execution_result) tool_runtime \<Rightarrow> (started_run \<Rightarrow> rstr) \<Rightarrow>
   (approval_request \<Rightarrow> approval_decision res option) \<Rightarrow> (nat \<Rightarrow> nat) \<Rightarrow> tool_registry \<Rightarrow> exec_env \<Rightarrow> rstr \<Rightarrow>
   'v parsed_call list \<Rightarrow> tool_event list list \<times> execution_result list option" where
  "execute_tool_calls js rt accepted_output ask elapsed active_tools ctx session_id calls =
     (let runs = map (\<lambda>call. run_call rt accepted_output ask active_tools ctx session_id (pl_name call)
                                (js_text js (pl_arguments call))) calls
      in (map fst runs,
          if list_all (\<lambda>x. snd x \<noteq> None) runs
          then Some (map (\<lambda>(i, call, x). case the (snd x) of (observation, nested, status) \<Rightarrow>
                 ExecutionResult (pl_name call) (js_text js (pl_arguments call)) observation status
                   (elapsed i) (pl_tool_call_id call) nested) (zip [0..<length calls] (zip calls runs)))
          else None))"

section \<open>The native dispatcher\<close>

definition parsed_from_provider_calls :: "'v json_library \<Rightarrow> tool_call list \<Rightarrow> 'v parsed_call list" where
  "parsed_from_provider_calls js tool_calls =
     map (\<lambda>tc. \<lparr>pl_name = tl_name tc,
                pl_arguments = (case js_parse js (tl_args_json tc) of Some v \<Rightarrow> v | None \<Rightarrow> js_empty_object js),
                pl_tool_call_id = tl_id tc\<rparr>) tool_calls"

definition native_parse_response :: "'v json_library \<Rightarrow> provider_response \<Rightarrow> 'v dispatch_action" where
  "native_parse_response js response =
     (if pr_tool_calls response \<noteq> [] then ToolCalls (parsed_from_provider_calls js (pr_tool_calls response))
      else (case pr_output_text response of Some text \<Rightarrow> FinalResponse text | None \<Rightarrow> EmptyResponse))"

definition native_format_for_history ::
  "'v json_library \<Rightarrow> 'v parsed_call list \<Rightarrow> execution_result list \<Rightarrow> message list" where
  "native_format_for_history js calls results =
     [assistant_tool_calls (map (\<lambda>c. \<lparr>tl_id = pl_tool_call_id c, tl_name = pl_name c,
                                       tl_args_json = js_text js (pl_arguments c)\<rparr>) calls),
      tool_results_message (map (\<lambda>r. \<lparr>tm_call_id = er_tool_call_id r, tm_name = er_name r,
                                      tm_status = status_as_str (er_status r), tm_content = er_output r\<rparr>) results)]"

section \<open>The XML dispatcher\<close>

text \<open>
  The regular expression of \<open>parse_tool_calls_from_text\<close>, as its leftmost match: literals,
  white space between them, and two groups that extend only as far as the rest needs.
\<close>

definition strip_prefix :: "rstr \<Rightarrow> rstr \<Rightarrow> rstr option" where
  "strip_prefix p s = (if take (length p) s = p then Some (drop (length p) s) else None)"

fun shortest :: "(rstr \<Rightarrow> 'a option) \<Rightarrow> rstr \<Rightarrow> (rstr \<times> 'a) option" where
  "shortest k s =
     (case k s of
        Some r \<Rightarrow> Some ([], r)
      | None \<Rightarrow> (case s of [] \<Rightarrow> None | c # cs \<Rightarrow> map_option (apfst ((#) c)) (shortest k cs)))"

declare shortest.simps [simp del]

definition after_arguments :: "rstr \<Rightarrow> rstr option" where
  "after_arguments s =
     Option.bind (strip_prefix ''</arguments>'' s) (\<lambda>s. strip_prefix ''</tool_call>'' (trim_start s))"

definition after_name :: "rstr \<Rightarrow> (rstr \<times> rstr) option" where
  "after_name s =
     Option.bind (strip_prefix ''</name>'' s) (\<lambda>s.
     Option.bind (strip_prefix ''<arguments>'' (trim_start s)) (\<lambda>s. shortest after_arguments s))"

text \<open>A match at the start of the text: the two groups and what follows.\<close>

definition match_tool_call :: "rstr \<Rightarrow> (rstr \<times> rstr \<times> rstr) option" where
  "match_tool_call s =
     Option.bind (strip_prefix ''<tool_call>'' s) (\<lambda>s.
     Option.bind (strip_prefix ''<name>'' (trim_start s)) (\<lambda>s. shortest after_name s))"

lemma strip_prefix_append: "strip_prefix p s = Some r \<longleftrightarrow> s = p @ r"
proof
  assume "strip_prefix p s = Some r"
  then have "take (length p) s = p" "drop (length p) s = r"
    by (auto simp: strip_prefix_def split: if_splits)
  then show "s = p @ r" by (metis append_take_drop_id)
qed (simp add: strip_prefix_def)

lemma shortest_append: "shortest k s = Some (g, r) \<Longrightarrow> \<exists>t. s = g @ t \<and> k t = Some r"
proof (induction s arbitrary: g)
  case Nil
  then show ?case by (subst (asm) shortest.simps) (auto split: option.splits)
next
  case (Cons c cs)
  show ?case
  proof (cases "k (c # cs)")
    case None
    with Cons.prems obtain g' where "shortest k cs = Some (g', r)" "g = c # g'"
      by (subst (asm) shortest.simps) auto
    with Cons.IH[of g'] show ?thesis by auto
  next
    case (Some r')
    with Cons.prems show ?thesis by (subst (asm) shortest.simps) auto
  qed
qed

lemma shortest_found:
  "k t = Some r \<Longrightarrow> (\<And>g1 g2. g = g1 @ g2 \<Longrightarrow> g2 \<noteq> [] \<Longrightarrow> k (g2 @ t) = None) \<Longrightarrow>
   shortest k (g @ t) = Some (g, r)"
proof (induction g)
  case Nil
  then show ?case by (subst shortest.simps) simp
next
  case (Cons c g)
  have "k ((c # g) @ t) = None" using Cons.prems(2)[of "[]" "c # g"] by simp
  moreover have "shortest k (g @ t) = Some (g, r)"
  proof (rule Cons.IH[OF Cons.prems(1)])
    fix g1 g2 assume "g = g1 @ g2" "g2 \<noteq> []"
    then show "k (g2 @ t) = None" using Cons.prems(2)[of "c # g1" g2] by simp
  qed
  ultimately show ?case by (subst shortest.simps) simp
qed

lemma trim_start_suffix: "suffix (trim_start s) s"
proof -
  have "suffix (concat (dropWhile P xs)) (concat xs)" for P and xs :: "rstr list"
    by (induction xs) (auto simp: suffix_appendI)
  from this[of is_ws "chars s"] show ?thesis by (simp add: trim_start_def)
qed

lemma strip_prefix_suffix: "strip_prefix p s = Some r \<Longrightarrow> suffix r s"
  unfolding strip_prefix_append by (auto simp: suffix_def)

lemma after_arguments_suffix: "after_arguments s = Some r \<Longrightarrow> suffix r s"
  unfolding after_arguments_def bind_eq_Some_conv
  by (blast intro: suffix_order.trans strip_prefix_suffix trim_start_suffix)

lemma shortest_suffix:
  assumes "\<And>t r. k t = Some r \<Longrightarrow> suffix (f r) t" and "shortest k s = Some (g, r)"
  shows "suffix (f r) s"
proof -
  from shortest_append[OF assms(2)] obtain t where "s = g @ t" "k t = Some r" by blast
  with assms(1) show ?thesis by (blast intro: suffix_order.trans suffix_appendI suffix_order.refl)
qed

lemma after_name_suffix:
  assumes "after_name s = Some (args, r)"
  shows "suffix r s"
proof -
  obtain t u where t: "strip_prefix ''</name>'' s = Some t"
      "strip_prefix ''<arguments>'' (trim_start t) = Some u" "shortest after_arguments u = Some (args, r)"
    using assms unfolding after_name_def bind_eq_Some_conv by blast
  have "suffix r u" using shortest_suffix[where f = "\<lambda>x. x", OF after_arguments_suffix t(3)] .
  then show ?thesis
    using t by (blast intro: suffix_order.trans strip_prefix_suffix trim_start_suffix)
qed

lemma match_tool_call_shorter:
  assumes "match_tool_call s = Some (name, args, r)"
  shows "length r < length s"
proof -
  obtain t u where t: "strip_prefix ''<tool_call>'' s = Some t"
      "strip_prefix ''<name>'' (trim_start t) = Some u" "shortest after_name u = Some (name, args, r)"
    using assms unfolding match_tool_call_def bind_eq_Some_conv by blast
  have "suffix (snd (args, r)) u"
    by (rule shortest_suffix[OF _ t(3)]) (auto dest: after_name_suffix)
  then have "suffix r t"
    unfolding snd_conv using t(2) by (blast intro: suffix_order.trans strip_prefix_suffix trim_start_suffix)
  then have "length r \<le> length t" by (rule suffix_length_le)
  moreover have "length t < length s" using t(1) unfolding strip_prefix_append by simp
  ultimately show ?thesis by simp
qed

text \<open>The matches of the text from left to right, each search starting where the last match ended.\<close>

function captures :: "rstr \<Rightarrow> (rstr \<times> rstr) list" where
  "captures s =
     (case match_tool_call s of
        Some m \<Rightarrow> (fst m, fst (snd m)) # captures (snd (snd m))
      | None \<Rightarrow> (case s of [] \<Rightarrow> [] | c # cs \<Rightarrow> captures cs))"
  by pat_completeness auto
termination
  by (relation "measure length") (auto dest: match_tool_call_shorter)

declare captures.simps [simp del]

definition parse_tool_calls_from_text :: "'v json_library \<Rightarrow> rstr \<Rightarrow> 'v parsed_call list" where
  "parse_tool_calls_from_text js text =
     map (\<lambda>(name, args).
       \<lparr>pl_name = trim name,
        pl_arguments = (case js_parse js (trim args) of Some v \<Rightarrow> v | None \<Rightarrow> js_empty_object js),
        pl_tool_call_id = None\<rparr>) (captures text)"

definition call_xml :: "'v json_library \<Rightarrow> 'v parsed_call \<Rightarrow> rstr" where
  "call_xml js call =
     ''<tool_call>'' @ NL # ''<name>'' @ pl_name call @ ''</name>'' @ NL # ''<arguments>''
     @ js_text js (pl_arguments call) @ ''</arguments>'' @ NL # ''</tool_call>'' @ [NL]"

definition format_calls_xml :: "'v json_library \<Rightarrow> 'v parsed_call list \<Rightarrow> rstr" where
  "format_calls_xml js calls = concat (map (call_xml js) calls)"

fun xml_status :: "execution_status \<Rightarrow> rstr" where
  "xml_status StatusOk = ''ok''"
| "xml_status StatusAccepted = ''accepted''"
| "xml_status StatusToolError = ''error''"

definition format_results_xml :: "execution_result list \<Rightarrow> rstr" where
  "format_results_xml results =
     concat (map (\<lambda>r. ''<tool_result>'' @ NL # ''<name>'' @ er_name r @ ''</name>'' @ NL # ''<status>''
       @ xml_status (er_status r) @ ''</status>'' @ NL # ''<output>'' @ er_output r
       @ ''</output>'' @ NL # ''</tool_result>'' @ [NL]) results)"

definition xml_parse_response :: "'v json_library \<Rightarrow> provider_response \<Rightarrow> 'v dispatch_action" where
  "xml_parse_response js response =
     (case pr_output_text response of
        Some text \<Rightarrow>
          (let calls = parse_tool_calls_from_text js text
           in if calls \<noteq> [] then ToolCalls calls else FinalResponse text)
      | None \<Rightarrow> EmptyResponse)"

definition xml_format_for_history ::
  "'v json_library \<Rightarrow> 'v parsed_call list \<Rightarrow> execution_result list \<Rightarrow> message list" where
  "xml_format_for_history js calls results =
     [message_text Assistant (format_calls_xml js calls), message_text User (format_results_xml results)]"

text \<open>What the model is told: the protocol, then each tool with its parameters.\<close>

definition protocol_text :: rstr where
  "protocol_text = concat (map (\<lambda>l. l @ [NL])
     [[], [], ''# Tool Calling Protocol'', [],
      ''You have access to tools. To call a tool, include XML tags in your response:'', [],
      ''```xml'', ''<tool_call>'', ''<name>tool_name</name>'',
      ''<arguments>{'' @ DQ # ''key'' @ DQ # '': '' @ DQ # ''value'' @ DQ # ''}</arguments>'',
      ''</tool_call>'', ''```'', [],
      ''You may call multiple tools in one response by including multiple `<tool_call>` blocks.'', [],
      ''Tool results will be provided in this format:'', [],
      ''```xml'', ''<tool_result>'', ''<name>tool_name</name>'', ''<status>ok</status>'',
      ''<output>result text</output>'', ''</tool_result>'', ''```'', [],
      ''## Available Tools'', []])"

definition xml_prompt_instructions :: "tool_definition list \<Rightarrow> rstr" where
  "xml_prompt_instructions tools =
     protocol_text
     @ concat (map (\<lambda>tool. ''### '' @ td_name tool @ [NL, NL] @ td_description tool @ [NL, NL]
         @ ''**Parameters:**'' @ NL # ''```json'' @ NL # td_input_schema_json tool @ NL # ''```'' @ [NL, NL]) tools)"

text \<open>The dispatchers, as the trait's three methods: how calls are read, written back, announced.\<close>

datatype dispatcher = NativeDispatcher | XmlDispatcher

fun parse_response :: "dispatcher \<Rightarrow> 'v json_library \<Rightarrow> provider_response \<Rightarrow> 'v dispatch_action" where
  "parse_response NativeDispatcher js r = native_parse_response js r"
| "parse_response XmlDispatcher js r = xml_parse_response js r"

fun format_for_history ::
  "dispatcher \<Rightarrow> 'v json_library \<Rightarrow> 'v parsed_call list \<Rightarrow> execution_result list \<Rightarrow> message list" where
  "format_for_history NativeDispatcher js calls results = native_format_for_history js calls results"
| "format_for_history XmlDispatcher js calls results = xml_format_for_history js calls results"

fun prompt_instructions :: "dispatcher \<Rightarrow> tool_definition list \<Rightarrow> rstr" where
  "prompt_instructions NativeDispatcher tools = []"
| "prompt_instructions XmlDispatcher tools = xml_prompt_instructions tools"

fun should_send_tool_specs :: "dispatcher \<Rightarrow> bool" where
  "should_send_tool_specs NativeDispatcher = True"
| "should_send_tool_specs XmlDispatcher = False"

section \<open>What is written is what is read\<close>

lemma strip_prefix_self [simp]: "strip_prefix p (p @ r) = Some r"
  by (simp add: strip_prefix_append)

text \<open>A tag whose first character does not come back in it is not read before its own place.\<close>

lemma strip_prefix_early:
  assumes "p = c # q" "c \<notin> set q" "\<not> sublist p g" "g \<noteq> []"
  shows "strip_prefix p (g @ p @ x) = None"
proof (rule ccontr)
  assume "strip_prefix p (g @ p @ x) \<noteq> None"
  then have pre: "prefix p (g @ p @ x)"
    by (auto simp: strip_prefix_append prefix_def)
  show False
  proof (cases "length p \<le> length g")
    case True
    with pre have "prefix p g" by (metis prefix_length_prefix prefixI)
    with assms(3) show False by blast
  next
    case False
    obtain y where y: "g @ p @ x = p @ y" using pre by (auto simp: prefix_def)
    from False have "p ! length g = (p @ y) ! length g" by (simp add: nth_append)
    also have "\<dots> = c" unfolding y[symmetric] using assms(1) by (simp add: nth_append)
    finally have "q ! (length g - 1) = c" using assms(1,4) by (simp add: nth_Cons')
    moreover have "length g - 1 < length q" using False assms(1,4) by (cases g) auto
    ultimately show False using assms(2) nth_mem by blast
  qed
qed

lemma trim_start_tag:
  assumes "\<not> is_cont c"
  shows "trim_start (NL # CHR ''<'' # c # s) = CHR ''<'' # c # s"
proof -
  have "\<not> is_cont (CHR ''<'')" by (simp add: is_cont_def)
  then have chars: "chars (NL # CHR ''<'' # c # s) = [NL] # [CHR ''<''] # chars (c # s)"
    using assms by simp
  have "is_ws [NL]" "\<not> is_ws [CHR ''<'']" by (simp_all add: is_ws_def ws_table_def)
  then have "trim_start (NL # CHR ''<'' # c # s) = [CHR ''<''] @ concat (chars (c # s))"
    unfolding trim_start_def chars by (simp del: concat_chars chars.simps)
  then show ?thesis by (simp del: chars.simps)
qed

text \<open>A call that survives the XML form: trimmed, without the closing tags, its arguments parse back.\<close>

definition writable_call :: "'v json_library \<Rightarrow> 'v parsed_call \<Rightarrow> bool" where
  "writable_call js call \<longleftrightarrow>
     trim (pl_name call) = pl_name call \<and> \<not> str_contains (pl_name call) ''</name>'' \<and>
     trim (js_text js (pl_arguments call)) = js_text js (pl_arguments call) \<and>
     \<not> str_contains (js_text js (pl_arguments call)) ''</arguments>'' \<and>
     js_parse js (js_text js (pl_arguments call)) = Some (pl_arguments call)"

lemma trim_start_tags:
  "trim_start (NL # ''</tool_call>'' @ x) = ''</tool_call>'' @ x"
  "trim_start (NL # ''<arguments>'' @ x) = ''<arguments>'' @ x"
  "trim_start (NL # ''<name>'' @ x) = ''<name>'' @ x"
  using trim_start_tag[of "CHR ''/''"] trim_start_tag[of "CHR ''a''"] trim_start_tag[of "CHR ''n''"]
  by (simp_all add: is_cont_def)

lemma after_arguments_found:
  assumes "\<not> sublist ''</arguments>'' args"
  shows "shortest after_arguments (args @ ''</arguments>'' @ NL # ''</tool_call>'' @ x) = Some (args, x)"
proof (rule shortest_found)
  show "after_arguments (''</arguments>'' @ NL # ''</tool_call>'' @ x) = Some x"
    unfolding after_arguments_def strip_prefix_self Option.bind.simps trim_start_tags ..
  fix g1 g2 assume g: "args = g1 @ g2" "g2 \<noteq> []"
  then have "\<not> sublist ''</arguments>'' g2" using assms unfolding g(1) sublist_append by blast
  then have "strip_prefix ''</arguments>'' (g2 @ ''</arguments>'' @ NL # ''</tool_call>'' @ x) = None"
    by (intro strip_prefix_early[where c = "CHR ''<''" and q = "''/arguments>''"] g(2)) simp_all
  then show "after_arguments (g2 @ ''</arguments>'' @ NL # ''</tool_call>'' @ x) = None"
    unfolding after_arguments_def by (simp only: Option.bind.simps)
qed

lemma after_name_found:
  assumes "\<not> sublist ''</name>'' name" "\<not> sublist ''</arguments>'' args"
  shows "shortest after_name (name @ ''</name>'' @ NL # ''<arguments>'' @ args @ ''</arguments>''
           @ NL # ''</tool_call>'' @ x) = Some (name, args, x)"
proof (rule shortest_found)
  let ?t = "NL # ''<arguments>'' @ args @ ''</arguments>'' @ NL # ''</tool_call>'' @ x"
  show "after_name (''</name>'' @ ?t) = Some (args, x)"
    unfolding after_name_def strip_prefix_self Option.bind.simps trim_start_tags
      after_arguments_found[OF assms(2)] ..
  fix g1 g2 assume g: "name = g1 @ g2" "g2 \<noteq> []"
  then have "\<not> sublist ''</name>'' g2" using assms(1) unfolding g(1) sublist_append by blast
  then have "strip_prefix ''</name>'' (g2 @ ''</name>'' @ ?t) = None"
    by (intro strip_prefix_early[where c = "CHR ''<''" and q = "''/name>''"] g(2)) simp_all
  then show "after_name (g2 @ ''</name>'' @ ?t) = None"
    unfolding after_name_def by (simp only: Option.bind.simps)
qed

lemma append_NL: "(NL # s) @ t = NL # s @ t"
  by simp

lemma captures_skip: "match_tool_call (c # s) = None \<Longrightarrow> captures (c # s) = captures s"
  by (subst captures.simps) simp

lemma captures_newline: "captures (NL # s) = captures s"
  by (rule captures_skip) (simp add: match_tool_call_def strip_prefix_def)

lemma captures_call:
  assumes "writable_call js call"
  shows "captures (call_xml js call @ rest) = (pl_name call, js_text js (pl_arguments call)) # captures rest"
proof -
  have found: "shortest after_name (pl_name call @ ''</name>'' @ NL # ''<arguments>''
      @ js_text js (pl_arguments call) @ ''</arguments>'' @ NL # ''</tool_call>'' @ NL # rest)
      = Some (pl_name call, js_text js (pl_arguments call), NL # rest)"
    using assms unfolding writable_call_def str_contains_sublist by (intro after_name_found) blast+
  have "match_tool_call (call_xml js call @ rest) = Some (pl_name call, js_text js (pl_arguments call), NL # rest)"
    unfolding match_tool_call_def call_xml_def append_assoc append_NL append_Nil by (simp only: strip_prefix_self Option.bind.simps trim_start_tags found)
  then show ?thesis by (subst captures.simps) (simp add: captures_newline)
qed

lemma xml_calls_parse_back:
  assumes "\<forall>call\<in>set calls. writable_call js call"
  shows "parse_tool_calls_from_text js (format_calls_xml js calls) = map (\<lambda>c. c\<lparr>pl_tool_call_id := None\<rparr>) calls"
proof -
  have empty: "captures [] = []"
    by (subst captures.simps) (simp add: match_tool_call_def strip_prefix_def)
  have "captures (format_calls_xml js calls) = map (\<lambda>c. (pl_name c, js_text js (pl_arguments c))) calls"
    using assms by (induction calls) (simp_all add: format_calls_xml_def empty captures_call)
  then show ?thesis using assms
    by (simp add: parse_tool_calls_from_text_def) (simp add: writable_call_def)
qed

section \<open>Lemmas on the execution of calls\<close>

lemma request_tool_escalation_returns:
  "ask (escalation_request ctx sid tool cap target reason) \<noteq> None \<Longrightarrow>
   request_tool_escalation ask ctx sid tool cap target reason \<noteq> None"
  by (simp add: request_tool_escalation_def)

lemma escalate_returns:
  assumes "\<And>r. ask r \<noteq> None"
  shows "snd (escalate_then_direct rt ask ctx sid tool plan name cap target reason) \<noteq> None"
  using request_tool_escalation_returns[OF assms, where ctx = ctx and sid = sid and tool = name and cap = cap and target = target and reason = reason]
  by (auto simp: escalate_then_direct_def Let_def split: option.splits sum.splits)

lemma execute_file_returns:
  "(\<And>r. ask r \<noteq> None) \<Longrightarrow> snd (execute_file_wasm rt ask ctx sid tool name args) \<noteq> None"
  unfolding execute_file_wasm_def
  by (simp add: escalate_returns del: not_None_eq split: sum.splits access_route.splits)

lemma execute_exec_returns:
  assumes "\<And>r. ask r \<noteq> None"
  shows "snd (execute_exec_host rt ask ctx sid tool args) \<noteq> None"
  using escalate_returns[OF assms, where rt = rt and ctx = ctx and sid = sid and tool = tool]
  unfolding execute_exec_host_def
  by (simp add: Let_def case_prod_beta del: not_None_eq split: sum.splits access_route.splits option.splits)

lemma execute_tool_returns:
  "(\<And>r. ask r \<noteq> None) \<Longrightarrow> snd (execute_tool rt ask ctx tool kind args sid) \<noteq> None"
  by (cases tool; cases kind)
     (simp_all add: execute_file_returns execute_exec_returns execute_planned_def execute_web_wasm_def
        del: not_None_eq split: sum.splits)

lemma run_call_returns:
  "(\<And>r. ask r \<noteq> None) \<Longrightarrow> snd (run_call rt out ask tools ctx sid name args) \<noteq> None"
  using execute_tool_returns[where ask = ask and rt = rt and ctx = ctx]
  by (simp add: run_call_def execute_entry_def case_prod_beta del: not_None_eq split: option.splits sum.splits)

lemma execute_tool_calls_Some:
  assumes "execute_tool_calls js rt out ask elapsed tools ctx sid calls = (evs, Some rs)"
  shows "length evs = length calls" "length rs = length calls"
    "i < length calls \<Longrightarrow>
       \<exists>observation nested status.
         run_call rt out ask tools ctx sid (pl_name (calls ! i)) (js_text js (pl_arguments (calls ! i)))
           = (evs ! i, Some (observation, nested, status)) \<and>
         rs ! i = ExecutionResult (pl_name (calls ! i)) (js_text js (pl_arguments (calls ! i))) observation status
                    (elapsed i) (pl_tool_call_id (calls ! i)) nested"
  using assms
  by (auto simp: execute_tool_calls_def Let_def list_all_length prod_eq_iff split: if_splits)

lemma execute_tool_calls_returns:
  "(\<And>r. ask r \<noteq> None) \<Longrightarrow> \<exists>evs rs. execute_tool_calls js rt out ask elapsed tools ctx sid calls = (evs, Some rs)"
  using run_call_returns[where ask = ask and rt = rt and ctx = ctx]
  by (simp add: execute_tool_calls_def Let_def list_all_iff del: not_None_eq)

lemma run_call_forbidden:
  assumes "case get_tool name tools of None \<Rightarrow> True | Some entry \<Rightarrow> en_owner_restricted entry \<and> \<not> is_owner ctx"
  shows "\<exists>observation. run_call rt out ask tools ctx sid name args = ([], Some (observation, [], StatusToolError))"
  using assms by (auto simp: run_call_def authorize_def split: option.splits if_splits)

lemma results_in_call_order:
  assumes "execute_tool_calls js rt out ask elapsed tools ctx sid calls = (evs, Some rs)"
  shows "map er_name rs = map pl_name calls" "map er_tool_call_id rs = map pl_tool_call_id calls"
    "map er_args_json rs = map (\<lambda>c. js_text js (pl_arguments c)) calls"
proof -
  note some = execute_tool_calls_Some[OF assms]
  have "er_name (rs ! i) = pl_name (calls ! i) \<and> er_tool_call_id (rs ! i) = pl_tool_call_id (calls ! i) \<and>
      er_args_json (rs ! i) = js_text js (pl_arguments (calls ! i))" if "i < length calls" for i
    using some(3)[OF that] by auto
  then show "map er_name rs = map pl_name calls" "map er_tool_call_id rs = map pl_tool_call_id calls"
    "map er_args_json rs = map (\<lambda>c. js_text js (pl_arguments c)) calls"
    using some(2) by (simp_all add: list_eq_iff_nth_eq)
qed


abbreviation sample_json :: "rstr json_library" where
  "sample_json \<equiv> \<lparr>js_parse = Some, js_empty_object = ''{}'', js_text = \<lambda>v. v\<rparr>"

abbreviation nested_runtime :: "(unit, execution_result) tool_runtime" where
  "nested_runtime \<equiv> \<lparr>rt_plan = \<lambda>_ _. Inr (), rt_route = \<lambda>_. RouteSandboxed,
     rt_direct = \<lambda>_ _. Inr (CompletedRun ''ok'' []), rt_wasm = \<lambda>_ _. Inr (CompletedRun ''ok'' []),
     rt_host = \<lambda>_ _. Inr (CompletedRun ''ok'' []), rt_with_trace = \<lambda>_ _. Inr (CompletedRun ''ok'' [])\<rparr>"

abbreviation one_tool :: tool_registry where
  "one_tool \<equiv> \<lparr>rg_ordered = [sample_entry], rg_by_name = [(''read'', sample_entry)]\<rparr>"

abbreviation sample_call :: "rstr parsed_call" where
  "sample_call \<equiv> \<lparr>pl_name = ''clock'', pl_arguments = ''{}'', pl_tool_call_id = Some ''1''\<rparr>"


lemma map_pair_eq:
  "map f xs = map f' ys \<Longrightarrow> map g xs = map g' ys \<Longrightarrow> map (\<lambda>x. (f x, g x)) xs = map (\<lambda>y. (f' y, g' y)) ys"
  by (induction xs arbitrary: ys) (auto simp: Cons_eq_map_conv)



text \<open>
  C14. A call of a tool the agent does not have, or of an owner-restricted tool by a user who
  is not an owner, runs nothing and asks nothing: no event happens and its result is an error.
\<close>

theorem forbidden_call_runs_nothing:
  assumes "execute_tool_calls js rt out ask elapsed tools ctx sid calls = (evs, Some results)"
    and "i < length calls"
    and "case get_tool (pl_name (calls ! i)) tools of
           None \<Rightarrow> True | Some entry \<Rightarrow> en_owner_restricted entry \<and> \<not> is_owner ctx"
  shows "evs ! i = [] \<and> er_status (results ! i) = StatusToolError \<and> er_nested (results ! i) = []"
  using execute_tool_calls_Some(3)[OF assms(1,2)] run_call_forbidden[OF assms(3)]
  by (metis Pair_inject execution_result.sel(4,7) option.inject)

theorem forbidden_call_runs_nothing_witness:
  "fst (execute_tool_calls sample_json nested_runtime (\<lambda>_. []) (\<lambda>_. Some (Inr Approved)) (\<lambda>_. 0)
      one_tool (sample_env\<lparr>ev_user_id := ''mallory''\<rparr>) ''s''
      [sample_call\<lparr>pl_name := ''read''\<rparr>]) ! 0 = []"
proof -
  let ?x = "execute_tool_calls sample_json nested_runtime (\<lambda>_. []) (\<lambda>_. Some (Inr Approved)) (\<lambda>_. 0)
      one_tool (sample_env\<lparr>ev_user_id := ''mallory''\<rparr>) ''s'' [sample_call\<lparr>pl_name := ''read''\<rparr>]"
  obtain evs results where x: "?x = (evs, Some results)"
    using execute_tool_calls_returns[of "\<lambda>_. Some (Inr Approved)"] by blast
  have "evs ! 0 = [] \<and> er_status (results ! 0) = StatusToolError \<and> er_nested (results ! 0) = []"
    by (rule forbidden_call_runs_nothing[OF x])
       (simp_all add: get_tool_def is_owner_def owner_allowed_def)
  then show ?thesis using x by simp
qed

end
