(* ===== verification/React.thy ===== *)
theory React
  imports Dispatch "HOL-Library.Word"
begin

text \<open>
  \<open>src/react.rs\<close>, with the streams of \<open>src/providers/types.rs\<close> and the provider table of
  \<open>src/providers/registry.rs\<close>: the loop that asks a provider, executes the tool calls of its
  answer, writes both into the history and asks again, at most \<open>max_steps\<close> times. What the
  outside does at the k-th step (the provider, the tools, the approval requester, the clock)
  is an argument, a \<open>world_step\<close> for each k.
\<close>

section \<open>Streams\<close>

datatype stream_event = TextDelta rstr | ToolCallComplete tool_call | StreamDone | StreamError rstr

definition provider_response_to_stream :: "provider_response \<Rightarrow> stream_event list" where
  "provider_response_to_stream response =
     (case pr_output_text response of Some text \<Rightarrow> if text \<noteq> [] then [TextDelta text] else [] | None \<Rightarrow> [])
     @ map ToolCallComplete (pr_tool_calls response) @ [StreamDone]"

text \<open>
  The consumer: the text so far, the calls so far; it also returns the texts shown to the
  observer of the deltas, one per delta.
\<close>

fun read_stream ::
  "stream_event list \<Rightarrow> rstr \<Rightarrow> tool_call list \<Rightarrow> rstr list \<times> provider_response res" where
  "read_stream [] output_text tool_calls =
     ([], Inr \<lparr>pr_output_text = (if output_text \<noteq> [] then Some output_text else None), pr_tool_calls = tool_calls\<rparr>)"
| "read_stream (TextDelta delta # s) output_text tool_calls =
     (case read_stream s (output_text @ delta) tool_calls of
        (shown, r) \<Rightarrow> ((output_text @ delta) # shown, r))"
| "read_stream (ToolCallComplete tool_call # s) output_text tool_calls =
     read_stream s output_text (tool_calls @ [tool_call])"
| "read_stream (StreamDone # s) output_text tool_calls =
     ([], Inr \<lparr>pr_output_text = (if output_text \<noteq> [] then Some output_text else None), pr_tool_calls = tool_calls\<rparr>)"
| "read_stream (StreamError message # s) output_text tool_calls = ([], Inl (ProviderError message))"

section \<open>Providers\<close>

type_synonym provider_query = "rstr \<times> message list \<times> tool_definition list"

record provider =
  pv_generate :: "provider_query \<Rightarrow> provider_response res"
  pv_generate_stream :: "provider_query \<Rightarrow> stream_event list res"

text \<open>The trait's default \<open>generate_stream\<close>.\<close>

definition default_generate_stream :: "(provider_query \<Rightarrow> provider_response res) \<Rightarrow> provider_query \<Rightarrow> stream_event list res" where
  "default_generate_stream generate query = rbind (generate query) (\<lambda>response. Inr (provider_response_to_stream response))"

definition generate_provider_response ::
  "provider \<Rightarrow> provider_query \<Rightarrow> bool \<Rightarrow> rstr list \<times> provider_response res" where
  "generate_provider_response provider query on_text_delta =
     (if \<not> on_text_delta then ([], pv_generate provider query)
      else (case pv_generate_stream provider query of
              Inl e \<Rightarrow> ([], Inl e)
            | Inr stream \<Rightarrow> read_stream stream [] []))"

definition resolve_dispatcher :: "bool \<Rightarrow> dispatcher" where
  "resolve_dispatcher supports_native_tools = (if supports_native_tools then NativeDispatcher else XmlDispatcher)"

text \<open>\<open>ProviderFactory\<close>: the configured providers by key, each with its \<open>supports_native_tools\<close>.\<close>

type_synonym 'p provider_factory = "(rstr \<times> ('p \<times> bool)) list"

definition get_provider :: "'p provider_factory \<Rightarrow> rstr \<Rightarrow> 'p res" where
  "get_provider entries key =
     (case map_of entries key of
        Some entry \<Rightarrow> Inr (fst entry)
      | None \<Rightarrow> Inl (ConfigError (''unknown provider key '' @ [SQ] @ key @ [SQ])))"

definition supports_native_tools :: "'p provider_factory \<Rightarrow> rstr \<Rightarrow> bool" where
  "supports_native_tools entries key =
     (case map_of entries key of Some entry \<Rightarrow> snd entry | None \<Rightarrow> False)"

section \<open>The loop\<close>

definition no_reply_prompt_instruction :: rstr where
  "no_reply_prompt_instruction =
     [NL, NL] @ ''NO-REPLY BEHAVIOR:'' @ [NL] @
     ''- If you intentionally want the system to send no user-facing message, respond with exactly NO_REPLY (no extra text).''"

record run_params =
  rp_provider_key :: rstr
  rp_system_prompt :: rstr
  rp_session_id :: rstr
  rp_max_steps :: "32 word"
  rp_tool_env :: exec_env
  rp_tool_registry :: tool_registry
  rp_source_message_id :: "rstr option"
  rp_on_text_delta :: bool

record run_outcome =
  ro_reply :: rstr
  ro_tool_calls :: "execution_result list"
  ro_memory_recall_used :: bool
  ro_memory_recall_short_hits :: nat
  ro_memory_recall_long_hits :: nat

record 'p world_step =
  ws_provider :: provider
  ws_runtime :: "('p, execution_result) tool_runtime"
  ws_accepted_output :: "started_run \<Rightarrow> rstr"
  ws_ask :: "approval_request \<Rightarrow> approval_decision res option"
  ws_elapsed :: "nat \<Rightarrow> nat"

text \<open>
  The history, the calls executed so far, and three traces: the queries sent, what the tool
  executor did, the texts shown to the observer of the deltas.
\<close>

record loop_state =
  ls_history :: "message list"
  ls_executed :: "execution_result list"
  ls_queries :: "provider_query list"
  ls_events :: "tool_event list"
  ls_shown :: "rstr list"

definition loop_outcome :: "rstr \<Rightarrow> loop_state \<Rightarrow> run_outcome" where
  "loop_outcome reply s =
     \<lparr>ro_reply = reply, ro_tool_calls = ls_executed s, ro_memory_recall_used = False,
      ro_memory_recall_short_hits = 0, ro_memory_recall_long_hits = 0\<rparr>"

datatype step_result =
    ContinueLoop
  | ReturnLoop "run_outcome res"
  | StuckLoop      \<comment> \<open>a tool call waits for an answer that never comes\<close>

definition loop_step ::
  "'v json_library \<Rightarrow> 'p world_step \<Rightarrow> dispatcher \<Rightarrow> run_params \<Rightarrow> tool_registry \<Rightarrow> rstr \<Rightarrow> tool_definition list \<Rightarrow>
   loop_state \<Rightarrow> loop_state \<times> step_result" where
  "loop_step js w dispatcher params turn_tools prompt tool_specs s =
     (let query = (prompt, ls_history s, tool_specs);
          (shown, response) = generate_provider_response (ws_provider w) query (rp_on_text_delta params);
          s = s\<lparr>ls_queries := ls_queries s @ [query], ls_shown := ls_shown s @ shown\<rparr>
      in case response of
           Inl err \<Rightarrow> (s, ReturnLoop (Inl err))
         | Inr response \<Rightarrow>
             (case parse_response dispatcher js response of
                ToolCalls calls \<Rightarrow>
                  (let (events, done) = execute_tool_calls js (ws_runtime w) (ws_accepted_output w) (ws_ask w)
                         (ws_elapsed w) turn_tools (rp_tool_env params) (rp_session_id params) calls;
                       s = s\<lparr>ls_events := ls_events s @ concat events\<rparr>
                   in case done of
                        None \<Rightarrow> (s, StuckLoop)
                      | Some results \<Rightarrow>
                          (s\<lparr>ls_executed := ls_executed s @ results,
                             ls_history := ls_history s @ format_for_history dispatcher js calls results\<rparr>, ContinueLoop))
              | FinalResponse text \<Rightarrow>
                  (let s = s\<lparr>ls_history := ls_history s @ [message_text Assistant text]\<rparr>
                   in (s, ReturnLoop (Inr (loop_outcome text s))))
              | EmptyResponse \<Rightarrow> (s, ContinueLoop)))"

text \<open>\<open>for _ in 0..max_steps\<close>; \<open>None\<close> is the loop that never returns.\<close>

fun loop_steps ::
  "'v json_library \<Rightarrow> (nat \<Rightarrow> 'p world_step) \<Rightarrow> dispatcher \<Rightarrow> run_params \<Rightarrow> tool_registry \<Rightarrow> rstr \<Rightarrow>
   tool_definition list \<Rightarrow> nat \<Rightarrow> nat \<Rightarrow> loop_state \<Rightarrow> loop_state \<times> run_outcome res option" where
  "loop_steps js world dispatcher params turn_tools prompt tool_specs 0 k s =
     (s, Some (Inr (loop_outcome ''max_steps reached without final response'' s)))"
| "loop_steps js world dispatcher params turn_tools prompt tool_specs (Suc n) k s =
     (case loop_step js (world k) dispatcher params turn_tools prompt tool_specs s of
        (s, ContinueLoop) \<Rightarrow> loop_steps js world dispatcher params turn_tools prompt tool_specs n (Suc k) s
      | (s, ReturnLoop r) \<Rightarrow> (s, Some r)
      | (s, StuckLoop) \<Rightarrow> (s, None))"

definition turn_tools_for :: "run_params \<Rightarrow> tool_registry" where
  "turn_tools_for params =
     (if rp_source_message_id params \<noteq> None then rp_tool_registry params
      else without_tool (rp_tool_registry params) ''react'')"

definition effective_system_prompt :: "dispatcher \<Rightarrow> tool_definition list \<Rightarrow> rstr \<Rightarrow> rstr" where
  "effective_system_prompt dispatcher specs system_prompt =
     (let extra_instructions = prompt_instructions dispatcher specs
      in if extra_instructions = [] then system_prompt @ no_reply_prompt_instruction
         else system_prompt @ extra_instructions @ no_reply_prompt_instruction)"

definition run_loop ::
  "'v json_library \<Rightarrow> (registered_tool \<Rightarrow> rstr \<times> rstr) \<Rightarrow> (nat \<Rightarrow> 'p world_step) \<Rightarrow> dispatcher \<Rightarrow> run_params \<Rightarrow>
   message list \<Rightarrow> loop_state \<times> run_outcome res option" where
  "run_loop js texts world dispatcher params history =
     (let turn_tools = turn_tools_for params;
          specs = definitions texts turn_tools;
          prompt = effective_system_prompt dispatcher specs (rp_system_prompt params);
          tool_specs = (if should_send_tool_specs dispatcher then specs else [])
      in loop_steps js world dispatcher params turn_tools prompt tool_specs (unat (rp_max_steps params)) 0
           \<lparr>ls_history = history, ls_executed = [], ls_queries = [], ls_events = [], ls_shown = []\<rparr>)"

text \<open>\<open>ReactLoop::run\<close>: the provider and the dispatcher by the agent's provider key.\<close>

definition react_run ::
  "'v json_library \<Rightarrow> (registered_tool \<Rightarrow> rstr \<times> rstr) \<Rightarrow> (nat \<Rightarrow> 'p world_step) \<Rightarrow>
   (nat \<Rightarrow> provider) provider_factory \<Rightarrow> run_params \<Rightarrow> message list \<Rightarrow> loop_state \<times> run_outcome res option" where
  "react_run js texts world providers params history =
     (case get_provider providers (rp_provider_key params) of
        Inl e \<Rightarrow> (\<lparr>ls_history = history, ls_executed = [], ls_queries = [], ls_events = [], ls_shown = []\<rparr>, Some (Inl e))
      | Inr provider \<Rightarrow>
          run_loop js texts (\<lambda>k. (world k)\<lparr>ws_provider := provider k\<rparr>)
            (resolve_dispatcher (supports_native_tools providers (rp_provider_key params))) params history)"

section \<open>Lemmas\<close>

lemma read_stream_calls:
  "read_stream (map ToolCallComplete calls @ [StreamDone]) text cs =
   ([], Inr \<lparr>pr_output_text = (if text \<noteq> [] then Some text else None), pr_tool_calls = cs @ calls\<rparr>)"
  by (induction calls arbitrary: cs) simp_all

lemma read_default_stream:
  "read_stream (provider_response_to_stream response) [] [] =
   ((case pr_output_text response of Some text \<Rightarrow> if text \<noteq> [] then [text] else [] | None \<Rightarrow> []),
    Inr (response\<lparr>pr_output_text := (if pr_output_text response = Some [] then None else pr_output_text response)\<rparr>))"
  by (simp add: provider_response_to_stream_def read_stream_calls split: option.splits)

text \<open>A step: its query, its effect on the history and on the executed calls.\<close>

lemma loop_step_queries:
  assumes "loop_step js w d params tools prompt specs s = (s', x)"
  shows "ls_queries s' = ls_queries s @ [(prompt, ls_history s, specs)]"
  using assms
  by (auto simp: loop_step_def Let_def split: prod.splits sum.splits dispatch_action.splits option.splits)

lemma loop_step_history:
  assumes "loop_step js w d params tools prompt specs s = (s', x)"
  shows "(ls_history s' = ls_history s \<and> ls_executed s' = ls_executed s) \<or>
    (\<exists>calls evs results. x = ContinueLoop \<and>
       execute_tool_calls js (ws_runtime w) (ws_accepted_output w) (ws_ask w) (ws_elapsed w) tools
         (rp_tool_env params) (rp_session_id params) calls = (evs, Some results) \<and>
       ls_history s' = ls_history s @ format_for_history d js calls results \<and>
       ls_executed s' = ls_executed s @ results) \<or>
    (\<exists>text. x = ReturnLoop (Inr (loop_outcome text s')) \<and>
       ls_history s' = ls_history s @ [message_text Assistant text] \<and> ls_executed s' = ls_executed s)"
  using assms
  by (auto simp: loop_step_def Let_def prod_eq_iff loop_outcome_def
      split: prod.splits sum.splits dispatch_action.splits option.splits)

lemma loop_step_return:
  assumes "loop_step js w d params tools prompt specs s = (s', ReturnLoop (Inr outcome))"
  shows "\<exists>text. outcome = loop_outcome text s' \<and> ls_history s' = ls_history s @ [message_text Assistant text]"
  using assms
  by (auto simp: loop_step_def Let_def loop_outcome_def
      split: prod.splits sum.splits dispatch_action.splits option.splits)

lemma loop_step_unstuck:
  assumes "\<And>r. ws_ask w r \<noteq> None"
  shows "snd (loop_step js w d params tools prompt specs s) \<noteq> StuckLoop"
proof -
  have "execute_tool_calls js (ws_runtime w) (ws_accepted_output w) (ws_ask w) (ws_elapsed w) tools
         (rp_tool_env params) (rp_session_id params) calls \<noteq> (evs, None)" for calls evs
    using execute_tool_calls_returns[where ask = "ws_ask w" and js = js and calls = calls and rt = "ws_runtime w"
        and out = "ws_accepted_output w" and elapsed = "ws_elapsed w" and tools = tools and ctx = "rp_tool_env params"
        and sid = "rp_session_id params", OF assms] by auto
  then show ?thesis
    unfolding loop_step_def Let_def
    by (auto split: prod.splits sum.splits dispatch_action.splits option.splits)
qed

lemma loop_steps_returns:
  assumes "\<And>k r. ws_ask (world k) r \<noteq> None"
  shows "\<exists>s' r. loop_steps js world d params tools prompt specs n k s = (s', Some r) \<and>
           length (ls_queries s') \<le> length (ls_queries s) + n"
proof (induction n arbitrary: k s)
  case 0
  then show ?case by simp
next
  case (Suc n)
  obtain s1 x where step: "loop_step js (world k) d params tools prompt specs s = (s1, x)" by fastforce
  with loop_step_unstuck[OF assms] have "x \<noteq> StuckLoop" by (metis snd_conv)
  moreover have "length (ls_queries s1) = Suc (length (ls_queries s))"
    using loop_step_queries[OF step] by simp
  ultimately show ?case using step Suc.IH[of "Suc k" s1] by (cases x) auto
qed

text \<open>An invariant of the loop: it holds of the state it is entered with, every step keeps it.\<close>

lemma loop_steps_invariant:
  assumes "loop_steps js world d params tools prompt specs n k s = (s', r)" and "P s"
    and "\<And>k s s' x. P s \<Longrightarrow> loop_step js (world k) d params tools prompt specs s = (s', x) \<Longrightarrow> P s'"
  shows "P s'"
  using assms(1,2)
proof (induction n arbitrary: k s)
  case (Suc n)
  obtain s1 x where step: "loop_step js (world k) d params tools prompt specs s = (s1, x)" by fastforce
  have "P s1" by (rule assms(3)[OF Suc.prems(2) step])
  then show ?case using step Suc.prems(1) Suc.IH[of "Suc k" s1] by (cases x) auto
qed simp

lemma loop_steps_reply:
  "loop_steps js world d params tools prompt specs n k s = (s', Some (Inr outcome)) \<Longrightarrow>
   outcome = loop_outcome (ro_reply outcome) s' \<and>
   (ro_reply outcome = ''max_steps reached without final response'' \<or>
    last (ls_history s') = message_text Assistant (ro_reply outcome))"
proof (induction n arbitrary: k s)
  case 0
  then show ?case by (auto simp: loop_outcome_def)
next
  case (Suc n)
  obtain s1 x where step: "loop_step js (world k) d params tools prompt specs s = (s1, x)" by fastforce
  show ?case
  proof (cases x)
    case (ReturnLoop res)
    with Suc.prems step have "x = ReturnLoop (Inr outcome)" "s1 = s'" by auto
    with loop_step_return[of js "world k" d params tools prompt specs s s' outcome] step
    show ?thesis by (auto simp: loop_outcome_def)
  qed (use Suc step in auto)
qed

text \<open>What the history says of the executed calls, when the native dispatcher writes it.\<close>

definition recorded :: "execution_result \<Rightarrow> tool_result_message" where
  "recorded r = \<lparr>tm_call_id = er_tool_call_id r, tm_name = er_name r,
                 tm_status = status_as_str (er_status r), tm_content = er_output r\<rparr>"

definition history_agrees :: "message list \<Rightarrow> loop_state \<Rightarrow> bool" where
  "history_agrees initial s \<longleftrightarrow>
     (\<exists>added. ls_history s = initial @ added \<and>
        concat (map ms_tool_results added) = map recorded (ls_executed s) \<and>
        (\<forall>q\<in>set (ls_queries s). prefix (fst (snd q)) (ls_history s)))"

lemma history_agrees_step:
  assumes "history_agrees initial s"
    and "loop_step js w NativeDispatcher params tools prompt specs s = (s', x)"
  shows "history_agrees initial s'"
proof -
  from assms(1) obtain added where a: "ls_history s = initial @ added"
    "concat (map ms_tool_results added) = map recorded (ls_executed s)"
    "\<forall>q\<in>set (ls_queries s). prefix (fst (snd q)) (ls_history s)" unfolding history_agrees_def by blast
  have grows: "\<exists>new. ls_history s' = ls_history s @ new \<and>
      (\<exists>results. ls_executed s' = ls_executed s @ results \<and> concat (map ms_tool_results new) = map recorded results)"
    using loop_step_history[OF assms(2)]
    by (force simp: native_format_for_history_def assistant_tool_calls_def tool_results_message_def
        message_text_def recorded_def)
  then obtain new results where n: "ls_history s' = ls_history s @ new"
    "ls_executed s' = ls_executed s @ results" "concat (map ms_tool_results new) = map recorded results"
    by blast
  then show ?thesis
    unfolding history_agrees_def using a loop_step_queries[OF assms(2)]
    by (intro exI[of _ "added @ new"]) (auto intro: prefix_order.trans)
qed

lemma run_loop_returns:
  assumes "\<And>k request. ws_ask (world k) request \<noteq> None"
  shows "\<exists>s r. run_loop js texts world dispatcher params history = (s, Some r) \<and>
           length (ls_queries s) \<le> unat (rp_max_steps params) \<and>
           (case r of Inl _ \<Rightarrow> True | Inr outcome \<Rightarrow> ro_tool_calls outcome = ls_executed s)"
proof -
  let ?s0 = "\<lparr>ls_history = history, ls_executed = [], ls_queries = [], ls_events = [], ls_shown = []\<rparr>"
  obtain s r where run: "run_loop js texts world dispatcher params history = (s, Some r)"
    "length (ls_queries s) \<le> length (ls_queries ?s0) + unat (rp_max_steps params)"
    unfolding run_loop_def Let_def using loop_steps_returns[where world = world, OF assms] by blast
  moreover have "ro_tool_calls outcome = ls_executed s" if "r = Inr outcome" for outcome
    using run(1) loop_steps_reply unfolding that run_loop_def Let_def
    by (metis loop_outcome_def run_outcome.select_convs(2))
  ultimately show ?thesis by (cases r) auto
qed


abbreviation calling_provider :: provider where
  "calling_provider \<equiv>
     \<lparr>pv_generate = \<lambda>_. Inr \<lparr>pr_output_text = None,
        pr_tool_calls = [\<lparr>tl_id = Some ''1'', tl_name = ''read'', tl_args_json = ''{}''\<rparr>]\<rparr>,
      pv_generate_stream = \<lambda>_. Inl (ProviderError ''no stream'')\<rparr>"

abbreviation sample_world :: "nat \<Rightarrow> unit world_step" where
  "sample_world \<equiv> \<lambda>k. \<lparr>ws_provider = calling_provider, ws_runtime = nested_runtime, ws_accepted_output = \<lambda>_. [],
     ws_ask = \<lambda>_. Some (Inr TimedOut), ws_elapsed = \<lambda>_. 0\<rparr>"

abbreviation sample_params :: run_params where
  "sample_params \<equiv> \<lparr>rp_provider_key = ''p'', rp_system_prompt = ''You are A.'', rp_session_id = ''s'', rp_max_steps = 2,
     rp_tool_env = sample_env, rp_tool_registry = one_tool, rp_source_message_id = None, rp_on_text_delta = False\<rparr>"


abbreviation answering_provider :: provider where
  "answering_provider \<equiv>
     \<lparr>pv_generate = \<lambda>_. Inr \<lparr>pr_output_text = Some ''hi'', pr_tool_calls = []\<rparr>,
      pv_generate_stream = \<lambda>_. Inl (ProviderError ''no stream'')\<rparr>"

abbreviation two_step_world :: "nat \<Rightarrow> unit world_step" where
  "two_step_world \<equiv> \<lambda>k. (sample_world k)\<lparr>ws_provider := (if k = 0 then calling_provider else answering_provider)\<rparr>"

lemma two_steps:
  "\<exists>s outcome. run_loop sample_json (\<lambda>_. ([], [])) two_step_world NativeDispatcher sample_params [] = (s, Some (Inr outcome)) \<and>
     length (ro_tool_calls outcome) = 1 \<and> ls_events s = [RanWasm (ReadTool default_sandboxed)]"
proof -
  have two: "unat (2 :: 32 word) = Suc (Suc 0)" by simp
  show ?thesis
    unfolding run_loop_def Let_def run_params.select_convs two
    by (simp add: Let_def loop_step_def generate_provider_response_def
      native_parse_response_def parsed_from_provider_calls_def execute_tool_calls_def run_call_def get_tool_def
      turn_tools_for_def without_tool_def index_by_name_def authorize_def is_owner_def owner_allowed_def
      execute_entry_def execute_file_wasm_def loop_outcome_def)
qed

lemma run_loop_history:
  assumes "run_loop js texts world NativeDispatcher params history = (s, Some (Inr outcome))"
  shows "history_agrees history s" "ro_tool_calls outcome = ls_executed s"
    "ro_reply outcome = ''max_steps reached without final response'' \<or>
     last (ls_history s) = message_text Assistant (ro_reply outcome)"
proof -
  let ?s0 = "\<lparr>ls_history = history, ls_executed = [], ls_queries = [], ls_events = [], ls_shown = []\<rparr>"
  note run = assms[unfolded run_loop_def Let_def]
  have "history_agrees history ?s0" by (auto simp: history_agrees_def)
  then show "history_agrees history s" by (rule loop_steps_invariant[OF run]) (rule history_agrees_step)
  show "ro_tool_calls outcome = ls_executed s"
    using loop_steps_reply[OF run] by (metis loop_outcome_def run_outcome.select_convs(2))
  show "ro_reply outcome = ''max_steps reached without final response'' \<or>
     last (ls_history s) = message_text Assistant (ro_reply outcome)"
    using loop_steps_reply[OF run] by blast
qed

text \<open>
  The history tells what happened: after a run with the native dispatcher the history is
  the initial one followed by new messages whose tool results are, in order, those of the calls
  in the outcome; every query of the provider saw an earlier state of that same history; and
  the reply is the last message, unless the steps were used up.
\<close>

theorem history_records_the_run:
  assumes "run_loop js texts world NativeDispatcher params history = (s, Some (Inr outcome))"
  shows "\<exists>added. ls_history s = history @ added \<and>
      concat (map ms_tool_results added) =
        map (\<lambda>r. \<lparr>tm_call_id = er_tool_call_id r, tm_name = er_name r,
                  tm_status = status_as_str (er_status r), tm_content = er_output r\<rparr>) (ro_tool_calls outcome) \<and>
      (\<forall>q\<in>set (ls_queries s). prefix (fst (snd q)) (ls_history s)) \<and>
      (ro_reply outcome \<noteq> ''max_steps reached without final response'' \<longrightarrow>
         last (ls_history s) = message_text Assistant (ro_reply outcome))"
  using run_loop_history[OF assms] unfolding history_agrees_def
  by (auto simp: recorded_def[abs_def])

theorem history_records_the_run_witness:
  "\<exists>s outcome. run_loop sample_json (\<lambda>_. ([], [])) two_step_world NativeDispatcher sample_params [] = (s, Some (Inr outcome)) \<and>
     length (ro_tool_calls outcome) = 1 \<and> length (concat (map ms_tool_results (ls_history s))) = 1"
proof -
  obtain s outcome where run: "run_loop sample_json (\<lambda>_. ([], [])) two_step_world NativeDispatcher sample_params []
      = (s, Some (Inr outcome))" "length (ro_tool_calls outcome) = 1" using two_steps by blast
  from history_records_the_run[OF run(1)]
  have "length (concat (map ms_tool_results (ls_history s))) = length (ro_tool_calls outcome)" by auto
  with run show ?thesis by (intro exI[of _ s] exI[of _ outcome] conjI) simp_all
qed

text \<open>
  Streaming changes nothing: with the default \<open>generate_stream\<close>, the response the loop
  reads from the stream is the one \<open>generate\<close> returned, but for an empty text, which counts as
  no text; an error is the same error; and the observer has been shown exactly the final text.
\<close>

theorem streaming_is_generating:
  "generate_provider_response
     \<lparr>pv_generate = generate, pv_generate_stream = default_generate_stream generate\<rparr> query True =
   (case generate query of
      Inl e \<Rightarrow> ([], Inl e)
    | Inr response \<Rightarrow>
        (let text = (if pr_output_text response = Some [] then None else pr_output_text response)
         in (case text of None \<Rightarrow> [] | Some t \<Rightarrow> [t], Inr (response\<lparr>pr_output_text := text\<rparr>))))"
  by (auto simp: generate_provider_response_def default_generate_stream_def rbind_def read_default_stream Let_def
      split: sum.splits option.splits)

section \<open>Which tools run\<close>

fun ran_tool :: "tool_event \<Rightarrow> registered_tool option" where
  "ran_tool (RanDirect t) = Some t"
| "ran_tool (RanWasm t) = Some t"
| "ran_tool (RanHost t) = Some t"
| "ran_tool (Asked request) = None"

definition runs_only :: "registered_tool \<Rightarrow> tool_event list \<Rightarrow> bool" where
  "runs_only tool events \<longleftrightarrow> list_all (\<lambda>e. ran_tool e = None \<or> ran_tool e = Some tool) events"

lemma runs_only_escalation: "runs_only tool (fst (escalate_then_direct rt ask ctx sid tool plan name cap target reason))"
  by (simp add: escalate_then_direct_def Let_def runs_only_def split: option.splits sum.splits)

lemma runs_only_file: "runs_only tool (fst (execute_file_wasm rt ask ctx sid tool name args))"
  unfolding execute_file_wasm_def
  by (simp add: runs_only_escalation split: sum.splits access_route.splits) (simp add: runs_only_def)

lemma runs_only_exec: "runs_only tool (fst (execute_exec_host rt ask ctx sid tool args))"
proof -
  have "runs_only tool (RanHost tool # events) \<longleftrightarrow> runs_only tool events" for events
    by (simp add: runs_only_def)
  then show ?thesis
    unfolding execute_exec_host_def
    by (simp add: runs_only_escalation Let_def case_prod_beta
        split: sum.splits access_route.splits option.splits) (simp add: runs_only_def)
qed

lemma runs_only_execute: "runs_only tool (fst (execute_tool rt ask ctx tool kind args sid))"
  by (cases tool; cases kind)
     (simp_all add: runs_only_file runs_only_exec execute_planned_def execute_web_wasm_def
        split: sum.splits, simp_all add: runs_only_def)

definition allowed_run :: "tool_registry \<Rightarrow> exec_env \<Rightarrow> registered_tool \<Rightarrow> bool" where
  "allowed_run tools ctx t \<longleftrightarrow>
     (\<exists>entry name. get_tool name tools = Some entry \<and> en_tool entry = t \<and> (\<not> en_owner_restricted entry \<or> is_owner ctx))"

lemma run_call_allowed:
  assumes "e \<in> set (fst (run_call rt out ask tools ctx sid name args))" "ran_tool e = Some t"
  shows "allowed_run tools ctx t"
proof (cases "get_tool name tools")
  case None
  with assms show ?thesis by (simp add: run_call_def)
next
  case (Some entry)
  have "authorize entry ctx = Inr ()"
    using assms(1) Some by (cases "authorize entry ctx") (simp_all add: run_call_def)
  then have "\<not> en_owner_restricted entry \<or> is_owner ctx"
    by (simp add: authorize_def split: if_splits)
  moreover have "e \<in> set (fst (execute_entry rt ask ctx entry args sid))"
    using assms(1) Some \<open>authorize entry ctx = Inr ()\<close> by (simp add: run_call_def case_prod_beta)
  then have "t = en_tool entry"
    using runs_only_execute[of "en_tool entry"] assms(2)
    unfolding execute_entry_def runs_only_def list_all_iff by fastforce
  ultimately show ?thesis using Some unfolding allowed_run_def by blast
qed

lemma execute_tool_calls_allowed:
  assumes "execute_tool_calls js rt out ask elapsed tools ctx sid calls = (evs, done)"
    and "e \<in> set (concat evs)" "ran_tool e = Some t"
  shows "allowed_run tools ctx t"
proof -
  have "evs = map (\<lambda>c. fst (run_call rt out ask tools ctx sid (pl_name c) (js_text js (pl_arguments c)))) calls"
    using assms(1) by (auto simp: execute_tool_calls_def Let_def)
  with assms(2) obtain c where "c \<in> set calls" "e \<in> set (fst (run_call rt out ask tools ctx sid (pl_name c) (js_text js (pl_arguments c))))"
    by auto
  from this(2) assms(3) show ?thesis by (rule run_call_allowed)
qed

definition allowed_events :: "tool_registry \<Rightarrow> exec_env \<Rightarrow> loop_state \<Rightarrow> bool" where
  "allowed_events tools ctx s \<longleftrightarrow>
     (\<forall>e\<in>set (ls_events s). \<forall>t. ran_tool e = Some t \<longrightarrow> allowed_run tools ctx t)"

lemma loop_step_events:
  assumes "loop_step js w d params tools prompt specs s = (s', x)"
  shows "ls_events s' = ls_events s \<or>
    (\<exists>calls evs done. ls_events s' = ls_events s @ concat evs \<and>
       execute_tool_calls js (ws_runtime w) (ws_accepted_output w) (ws_ask w) (ws_elapsed w) tools
         (rp_tool_env params) (rp_session_id params) calls = (evs, done))"
  using assms
  by (auto simp: loop_step_def Let_def split: prod.splits sum.splits dispatch_action.splits option.splits)

lemma allowed_events_step:
  assumes "allowed_events tools (rp_tool_env params) s"
    and "loop_step js w d params tools prompt specs s = (s', x)"
  shows "allowed_events tools (rp_tool_env params) s'"
  using loop_step_events[OF assms(2)]
proof (elim disjE exE conjE)
  assume "ls_events s' = ls_events s"
  then show ?thesis using assms(1) by (simp add: allowed_events_def)
next
  fix calls evs done'
  assume e: "ls_events s' = ls_events s @ concat evs"
    "execute_tool_calls js (ws_runtime w) (ws_accepted_output w) (ws_ask w) (ws_elapsed w) tools
         (rp_tool_env params) (rp_session_id params) calls = (evs, done')"
  show ?thesis
    unfolding allowed_events_def e(1)
    using assms(1) execute_tool_calls_allowed[OF e(2)] by (auto simp: allowed_events_def)
qed

lemma turn_tools_entries:
  assumes "registry_ok (rp_tool_registry params)" "get_tool name (turn_tools_for params) = Some entry"
  shows "entry \<in> set (rg_ordered (rp_tool_registry params))" "entry_name entry = name"
    "entry_name entry \<noteq> ''react'' \<or> rp_source_message_id params \<noteq> None"
proof -
  have got: "get_tool name (rp_tool_registry params) = Some entry"
    "name \<noteq> ''react'' \<or> rp_source_message_id params \<noteq> None"
    using assms(2) unfolding turn_tools_for_def get_without[OF assms(1)]
    by (auto simp only: get_without[OF assms(1)] split: if_splits)
  show entry: "entry \<in> set (rg_ordered (rp_tool_registry params))" "entry_name entry = name"
    using got(1) unfolding get_tool_iff[OF assms(1)] by simp_all
  show "entry_name entry \<noteq> ''react'' \<or> rp_source_message_id params \<noteq> None"
    unfolding entry(2) by (rule got(2))
qed

lemma run_loop_allowed:
  assumes "run_loop js texts world dispatcher params history = (s, r)"
  shows "allowed_events (turn_tools_for params) (rp_tool_env params) s"
proof (rule loop_steps_invariant[OF assms[unfolded run_loop_def Let_def]])
  show "allowed_events (turn_tools_for params) (rp_tool_env params)
     \<lparr>ls_history = history, ls_executed = [], ls_queries = [], ls_events = [], ls_shown = []\<rparr>"
    by (simp add: allowed_events_def)
qed (rule allowed_events_step)

text \<open>
  C16. Only allowed tools run: whatever the provider answers in a run of the loop, a tool that
  is run on any route is a tool of the agent's registry, its owner restriction is satisfied by
  the user of the turn, and it is not \<open>react\<close> when the turn has no message to react to.
\<close>

theorem only_allowed_tools_run:
  assumes "run_loop js texts world dispatcher params history = (s, r)"
    and "registry_ok (rp_tool_registry params)"
    and "e \<in> set (ls_events s)" "ran_tool e = Some t"
  shows "\<exists>entry. entry \<in> set (rg_ordered (rp_tool_registry params)) \<and> en_tool entry = t \<and>
           (\<not> en_owner_restricted entry \<or> is_owner (rp_tool_env params)) \<and>
           (tool_name t \<noteq> ''react'' \<or> rp_source_message_id params \<noteq> None)"
proof -
  from run_loop_allowed[OF assms(1)] assms(3,4) obtain entry name where e:
    "get_tool name (turn_tools_for params) = Some entry" "en_tool entry = t"
    "\<not> en_owner_restricted entry \<or> is_owner (rp_tool_env params)"
    unfolding allowed_events_def allowed_run_def by blast
  show ?thesis
    by (rule exI[of _ entry]) (use turn_tools_entries[OF assms(2) e(1)] e(2,3) in simp)
qed

theorem only_allowed_tools_run_witness:
  "\<exists>s r entry. run_loop sample_json (\<lambda>_. ([], [])) two_step_world NativeDispatcher sample_params [] = (s, r) \<and>
     RanWasm (ReadTool default_sandboxed) \<in> set (ls_events s) \<and>
     entry \<in> set (rg_ordered one_tool) \<and> en_tool entry = ReadTool default_sandboxed"
proof -
  obtain s outcome where run: "run_loop sample_json (\<lambda>_. ([], [])) two_step_world NativeDispatcher sample_params []
      = (s, Some (Inr outcome))" "ls_events s = [RanWasm (ReadTool default_sandboxed)]" using two_steps by blast
  have "registry_ok (rp_tool_registry sample_params)" by (simp add: registry_ok_def)
  moreover have "RanWasm (ReadTool default_sandboxed) \<in> set (ls_events s)" using run(2) by simp
  ultimately have "\<exists>entry. entry \<in> set (rg_ordered (rp_tool_registry sample_params)) \<and>
      en_tool entry = ReadTool default_sandboxed \<and>
      (\<not> en_owner_restricted entry \<or> is_owner (rp_tool_env sample_params)) \<and>
      (tool_name (ReadTool default_sandboxed) \<noteq> ''react'' \<or> rp_source_message_id sample_params \<noteq> None)"
    by (rule only_allowed_tools_run[OF run(1)]) simp
  then obtain entry where e: "entry \<in> set (rg_ordered (rp_tool_registry sample_params))"
    "en_tool entry = ReadTool default_sandboxed" by blast
  show ?thesis
    by (rule exI[of _ s], rule exI[of _ "Some (Inr outcome)"], rule exI[of _ entry])
       (use run e in simp)
qed

end
