(* ===== verification/GatewayService.thy ===== *)
theory GatewayService
  imports SessionStore Approval AsyncRuns Coordinator ToolRegistry ToolExecutor
begin

text \<open>
  \<open>src/gateway/mod.rs\<close>: the listeners that bring messages, approval resolutions and commands
  from a channel into the service, and the commands themselves. The state a command may change
  is the table of sessions, the background runs and the session workers. What the outside does
  is an argument: the faults of the store, the clock, the result of each \<open>kill\<close>, and what
  other tasks do to the runs between the locked sections of \<open>/stop\<close>.
\<close>

section \<open>State\<close>

record agent_config =
  ag_agent_name :: rstr
  ag_owner_ids :: "rstr list"
  ag_tool_registry :: tool_registry

record 'm gateway_state =
  gw_sessions :: session_table
  gw_runs :: run_manager
  gw_workers :: "'m coordinator"

record gateway_setup =
  gt_policy :: routing_config
  gt_agents :: "(rstr \<times> agent_config) list"
  gt_output_modes :: "(gateway_channel_kind \<times> channel_output_mode) list"

record command_world =
  cw_faults :: sql_faults
  cw_rotate_faults :: sql_faults
  cw_now :: rstr
  cw_files :: "rstr \<Rightarrow> rstr option"
  cw_texts :: "registered_tool \<Rightarrow> rstr \<times> rstr"
  cw_clock :: int
  cw_kill :: "rstr \<Rightarrow> rstr option"
  cw_between :: "rstr \<Rightarrow> manager_op list"

section \<open>Responses\<close>

fun plain_response :: "channel_command_kind \<Rightarrow> rstr \<Rightarrow> command_response" where
  "plain_response CmdNewSession message = RespNewSession message"
| "plain_response CmdStatus message = RespStatus message"
| "plain_response CmdStop message = RespStop 0 message"
| "plain_response CmdTools message = RespTools message"

definition denied_command_response :: "channel_command_kind \<Rightarrow> command_response" where
  "denied_command_response kind = plain_response kind ''That command is not allowed in this channel.''"

definition owner_denied_command_response :: "channel_command_kind \<Rightarrow> command_response" where
  "owner_denied_command_response kind =
     plain_response kind ''That command is only available to configured owners.''"

definition not_configured :: "rstr \<Rightarrow> rstr" where
  "not_configured agent_id = ''Agent `'' @ agent_id @ ''` is not configured.''"

definition unknown_agent_command_response :: "channel_command_kind \<Rightarrow> rstr \<Rightarrow> command_response" where
  "unknown_agent_command_response kind agent_id = plain_response kind (not_configured agent_id)"

definition error_command_response :: "channel_command_kind \<Rightarrow> framework_error \<Rightarrow> command_response" where
  "error_command_response kind err =
     plain_response kind (''Failed to resolve session state: '' @ error_to_string err)"

fun join_lines :: "rstr list \<Rightarrow> rstr" where
  "join_lines [] = []"
| "join_lines [l] = l"
| "join_lines (l # ls) = l @ NL # join_lines ls"

definition status_command_response ::
  "gateway_setup \<Rightarrow> command_world \<Rightarrow> rstr \<Rightarrow> rstr \<Rightarrow> rstr \<Rightarrow> run_manager \<Rightarrow> command_response" where
  "status_command_response setup w agent_id scope_key session_key runs =
     (case map_of (gt_agents setup) agent_id of
        None \<Rightarrow> RespStatus (not_configured agent_id)
      | Some config \<Rightarrow>
          (let runs = list_for_session (cw_files w) agent_id session_key runs;
               running = length (filter (\<lambda>r. rs_status r = Running) runs);
               message = ''Agent: '' @ ag_agent_name config @ '' (`'' @ agent_id @ ''`)'' @ NL #
                 ''Scope: `'' @ scope_key @ ''`'' @ NL # ''Session: `'' @ session_key @ ''`'' @ NL #
                 ''Background runs: '' @ show_nat running @ '' active / '' @ show_nat (length runs) @ '' total''
           in RespStatus
                (if runs = [] then message
                 else message @ NL # ''Recent runs:'' @ NL #
                   join_lines (map (\<lambda>r. ''- `'' @ rs_run_id r @ ''` '' @ run_status_as_str (rs_status r) @ '' '' @
                     rs_summary r) (take 5 runs)))))"

text \<open>The loop of \<open>/stop\<close> over the listed runs, other tasks acting before each kill.\<close>

fun stop_runs ::
  "command_world \<Rightarrow> rstr \<Rightarrow> rstr \<Rightarrow> run_snapshot list \<Rightarrow> run_manager \<Rightarrow> run_manager \<times> nat" where
  "stop_runs w agent_id session_key [] self = (self, 0)"
| "stop_runs w agent_id session_key (run # runs) self =
     (if rs_status run \<noteq> Running then stop_runs w agent_id session_key runs self
      else
        (let self = manager_ops (cw_between w (rs_run_id run)) self;
             (self, killed) = kill_for_session (cw_files w) (cw_kill w (rs_run_id run)) (cw_clock w)
                                (rs_run_id run) agent_id session_key self;
             (self, n) = stop_runs w agent_id session_key runs self
         in (self, case killed of Inl _ \<Rightarrow> n | Inr _ \<Rightarrow> Suc n)))"

definition stop_message :: "nat \<Rightarrow> rstr" where
  "stop_message killed_count =
     (if killed_count = 0 then ''No running background tasks were found.''
      else ''Stopped '' @ show_nat killed_count @ '' background task(s).'')"

definition stop_command_response ::
  "command_world \<Rightarrow> rstr \<Rightarrow> rstr \<Rightarrow> run_manager \<Rightarrow> run_manager \<times> command_response" where
  "stop_command_response w agent_id session_key self =
     (case stop_runs w agent_id session_key (list_for_session (cw_files w) agent_id session_key self) self of
        (self, killed_count) \<Rightarrow> (self, RespStop killed_count (stop_message killed_count)))"

definition tools_command_response :: "gateway_setup \<Rightarrow> command_world \<Rightarrow> rstr \<Rightarrow> command_response" where
  "tools_command_response setup w agent_id =
     (case map_of (gt_agents setup) agent_id of
        None \<Rightarrow> RespTools (not_configured agent_id)
      | Some config \<Rightarrow>
          (let specs = definitions (cw_texts w) (ag_tool_registry config)
           in if specs = [] then RespTools (''Agent `'' @ agent_id @ ''` has no tools configured.'')
              else RespTools (join_lines (map (\<lambda>t. ''- `'' @ td_name t @ ''`: '' @ td_description t) specs))))"

section \<open>Commands\<close>

definition command_inbound :: "channel_command \<Rightarrow> channel_inbound" where
  "command_inbound cmd =
     \<lparr>ci_message_id = ''command:'' @ command_kind_as_str (cc_kind cmd), ci_channel_id = cc_channel_id cmd,
      ci_guild_id = cc_guild_id cmd, ci_is_dm = cc_is_dm cmd, ci_user_id = cc_user_id cmd,
      ci_username = ''system'', ci_mentioned_bot = True,
      ci_content = ''/'' @ command_kind_as_str (cc_kind cmd)\<rparr>"

definition resolve_command_target ::
  "gateway_setup \<Rightarrow> command_world \<Rightarrow> channel_command \<Rightarrow> session_table \<Rightarrow>
   session_table \<times> (rstr \<times> rstr \<times> rstr) option res" where
  "resolve_command_target setup w cmd sessions =
     (case resolve_route (cc_source cmd) (command_inbound cmd) (gt_policy setup) of
        None \<Rightarrow> (sessions, Inr None)
      | Some (agent_id, _) \<Rightarrow>
          (let scope_key = build_session_scope_key agent_id (cc_is_dm cmd) (cc_source cmd) (cc_channel_id cmd)
           in case current_or_create (cw_faults w) (cw_now w) scope_key sessions of
                (sessions, Inl e) \<Rightarrow> (sessions, Inl e)
              | (sessions, Inr session_key) \<Rightarrow> (sessions, Inr (Some (agent_id, scope_key, session_key)))))"

text \<open>The four commands of an owner.\<close>

definition run_command ::
  "gateway_setup \<Rightarrow> command_world \<Rightarrow> channel_command_kind \<Rightarrow> rstr \<Rightarrow> rstr \<Rightarrow> rstr \<Rightarrow>
   'm gateway_state \<Rightarrow> 'm gateway_state \<times> command_response" where
  "run_command setup w kind agent_id scope_key session_key s =
     (case kind of
        CmdNewSession \<Rightarrow>
          (case rotate_session (cw_rotate_faults w) (cw_now w) scope_key (gw_sessions s) of
             (sessions, Inl err) \<Rightarrow> (s\<lparr>gw_sessions := sessions\<rparr>, error_command_response kind err)
           | (sessions, Inr rotated) \<Rightarrow>
               (s\<lparr>gw_sessions := sessions, gw_workers := remove_worker (previous_session_id rotated) (gw_workers s)\<rparr>,
                RespNewSession (''Started a fresh session for `'' @ agent_id @ ''`. New session: `'' @
                  rotated_session_id rotated @ ''`.'')))
      | CmdStatus \<Rightarrow> (s, status_command_response setup w agent_id scope_key session_key (gw_runs s))
      | CmdStop \<Rightarrow>
          (case stop_command_response w agent_id session_key (gw_runs s) of
             (runs, response) \<Rightarrow> (s\<lparr>gw_runs := runs\<rparr>, response))
      | CmdTools \<Rightarrow> (s, tools_command_response setup w agent_id))"

definition execute_command ::
  "gateway_setup \<Rightarrow> command_world \<Rightarrow> channel_command \<Rightarrow> 'm gateway_state \<Rightarrow> 'm gateway_state \<times> command_response" where
  "execute_command setup w cmd s =
     (let kind = cc_kind cmd;
          (sessions, target) = resolve_command_target setup w cmd (gw_sessions s);
          s = s\<lparr>gw_sessions := sessions\<rparr>
      in case target of
           Inl err \<Rightarrow> (s, error_command_response kind err)
         | Inr None \<Rightarrow> (s, denied_command_response kind)
         | Inr (Some (agent_id, scope_key, session_key)) \<Rightarrow>
             (case map_of (gt_agents setup) agent_id of
                None \<Rightarrow> (s, unknown_agent_command_response kind agent_id)
              | Some config \<Rightarrow>
                  (if \<not> owner_allowed (cc_user_id cmd) (ag_owner_ids config)
                   then (s, owner_denied_command_response kind)
                   else run_command setup w kind agent_id scope_key session_key s)))"

section \<open>Listeners\<close>

text \<open>One turn of the message listener: what it received, and whether the service still takes messages.\<close>

datatype listen_outcome = ListenRetry | PolicyDropped | Forwarded inbound_message | QueueClosed

definition listen_step ::
  "gateway_setup \<Rightarrow> sql_faults \<Rightarrow> rstr \<Rightarrow> rstr \<Rightarrow> gateway_channel_kind \<Rightarrow> bool \<Rightarrow> channel_inbound res \<Rightarrow>
   session_table \<Rightarrow> session_table \<times> listen_outcome" where
  "listen_step setup faults now trace_id kind queue_open received sessions =
     (case received of
        Inl _ \<Rightarrow> (sessions, ListenRetry)
      | Inr inbound \<Rightarrow>
          (case route_inbound faults now trace_id kind inbound (gt_policy setup) sessions of
             (sessions, Inl _) \<Rightarrow> (sessions, ListenRetry)
           | (sessions, Inr None) \<Rightarrow> (sessions, PolicyDropped)
           | (sessions, Inr (Some inbound)) \<Rightarrow>
               (sessions, if queue_open then Forwarded inbound else QueueClosed)))"

text \<open>One turn of the approval listener; the lookup after a refused resolution only chooses the log line.\<close>

record approval_resolution =
  ap_approval_id :: rstr
  ap_decision :: approval_decision
  ap_user_id :: rstr

datatype resolution_outcome = ResolutionRetry | Resolved | UserMismatch | UnknownApproval

definition approval_listen_step ::
  "approval_resolution res \<Rightarrow> approval_registry \<Rightarrow> approval_registry \<times> resolution_outcome" where
  "approval_listen_step received approvals =
     (case received of
        Inl _ \<Rightarrow> (approvals, ResolutionRetry)
      | Inr r \<Rightarrow>
          (case resolve_approval (ap_approval_id r) (ap_user_id r) (ap_decision r) approvals of
             (approvals, resolved) \<Rightarrow>
               (approvals,
                if resolved then Resolved
                else if pending_request (ap_approval_id r) approvals \<noteq> None then UserMismatch
                else UnknownApproval)))"

text \<open>One turn of the command listener, and the output mode of a channel.\<close>

definition command_listen_step ::
  "gateway_setup \<Rightarrow> command_world \<Rightarrow> channel_command res \<Rightarrow> 'm gateway_state \<Rightarrow>
   'm gateway_state \<times> command_response option" where
  "command_listen_step setup w received s =
     (case received of
        Inl _ \<Rightarrow> (s, None)
      | Inr cmd \<Rightarrow> map_prod id Some (execute_command setup w cmd s))"

definition output_mode :: "gateway_setup \<Rightarrow> inbound_message \<Rightarrow> channel_output_mode" where
  "output_mode setup inbound =
     (case map_of (gt_output_modes setup) (im_source_channel inbound) of Some m \<Rightarrow> m | None \<Rightarrow> Streaming)"

definition channel_for_source ::
  "(gateway_channel_kind \<times> 'c) list \<Rightarrow> gateway_channel_kind \<Rightarrow> 'c res" where
  "channel_for_source channels source =
     (case map_of channels source of
        Some channel \<Rightarrow> Inr channel
      | None \<Rightarrow> Inl (ConfigError (''missing channel handler for source '' @ channel_kind_as_str source)))"

section \<open>Lemmas on commands\<close>

lemma resolve_target_state:
  "resolve_command_target setup w cmd t = (t', r) \<Longrightarrow>
   t' = t \<or> (\<exists>k. t' = fst (current_or_create (cw_faults w) (cw_now w) k t))"
  by (auto simp: resolve_command_target_def Let_def split: option.splits prod.splits sum.splits)
     (metis fst_conv)+

lemma resolve_target_keeps:
  "resolve_command_target setup w cmd t = (t', r) \<Longrightarrow> store_active t k = Some i \<Longrightarrow> store_active t' k = Some i"
  using resolve_target_state current_keeps by metis

lemma resolve_target_inv:
  "store_inv t \<Longrightarrow> resolve_command_target setup w cmd t = (t', r) \<Longrightarrow> store_inv t'"
  using resolve_target_state store_inv_current by metis

lemma resolve_target_Some:
  assumes "resolve_command_target setup w cmd t = (t', Inr (Some (agent_id, scope_key, session_key)))"
  shows "\<exists>inv. resolve_route (cc_source cmd) (command_inbound cmd) (gt_policy setup) = Some (agent_id, inv)"
    "scope_key = build_session_scope_key agent_id (cc_is_dm cmd) (cc_source cmd) (cc_channel_id cmd)"
    "store_active t' scope_key = Some session_key"
  using assms current_active
  by (fastforce simp: resolve_command_target_def Let_def split: option.splits prod.splits sum.splits)+

text \<open>Whether the sender of a command is an owner of the agent the command reaches.\<close>

definition command_owner :: "gateway_setup \<Rightarrow> channel_command \<Rightarrow> bool" where
  "command_owner setup cmd =
     (case resolve_route (cc_source cmd) (command_inbound cmd) (gt_policy setup) of
        None \<Rightarrow> False
      | Some (agent_id, _) \<Rightarrow>
          (case map_of (gt_agents setup) agent_id of
             None \<Rightarrow> False
           | Some config \<Rightarrow> owner_allowed (cc_user_id cmd) (ag_owner_ids config)))"

lemma execute_command_refused:
  assumes "execute_command setup w cmd s = (s', response)" "\<not> command_owner setup cmd"
  shows "\<exists>t r message. resolve_command_target setup w cmd (gw_sessions s) = (t, r) \<and>
           s' = s\<lparr>gw_sessions := t\<rparr> \<and> response = plain_response (cc_kind cmd) message"
proof -
  obtain t r where target: "resolve_command_target setup w cmd (gw_sessions s) = (t, r)" by fastforce
  show ?thesis
  proof (cases r)
    case (Inl e)
    then show ?thesis using assms(1) target by (auto simp: execute_command_def error_command_response_def)
  next
    case (Inr found)
    show ?thesis
    proof (cases found)
      case None
      then show ?thesis using assms(1) target Inr by (auto simp: execute_command_def denied_command_response_def)
    next
      case (Some x)
      obtain a scope key where x: "x = (a, scope, key)" by (cases x)
      from resolve_target_Some(1)[OF target[unfolded Inr Some x]] assms(2)
      have "map_of (gt_agents setup) a = None \<or>
          (\<exists>c. map_of (gt_agents setup) a = Some c \<and> \<not> owner_allowed (cc_user_id cmd) (ag_owner_ids c))"
        by (auto simp: command_owner_def split: option.splits)
      then show ?thesis using assms(1) target Inr Some x
        by (auto simp: execute_command_def unknown_agent_command_response_def owner_denied_command_response_def)
    qed
  qed
qed

lemma execute_command_owner:
  assumes "resolve_command_target setup w cmd (gw_sessions s) = (t, Inr (Some (agent_id, scope_key, session_key)))"
    and "command_owner setup cmd"
  shows "execute_command setup w cmd s =
           run_command setup w (cc_kind cmd) agent_id scope_key session_key (s\<lparr>gw_sessions := t\<rparr>)"
  using assms resolve_target_Some(1)[OF assms(1)]
  by (auto simp: execute_command_def command_owner_def split: option.splits)


section \<open>Stopping the runs of a session\<close>

definition stopped :: "command_world \<Rightarrow> run_entry \<Rightarrow> run_entry" where
  "stopped w e = fst (kill_entry None (cw_clock w) e)"

definition killable :: "run_entry \<Rightarrow> bool" where
  "killable e \<longleftrightarrow> re_status e = Running \<and> re_process e \<noteq> None"

definition quiet :: "command_world \<Rightarrow> bool" where
  "quiet w \<longleftrightarrow> (\<forall>i. cw_between w i = [] \<and> cw_kill w i = None)"

lemma kill_quiet:
  assumes "map_of (rm_runs s) i = Some e" "belongs_to a k e" "re_status e = Running"
  shows "kill_for_session files None now i a k s =
           (update_run i (\<lambda>e. fst (kill_entry None now e)) s,
            if killable e then Inr (snapshot files i (fst (kill_entry None now e)))
            else Inl (ToolError ''background run kind does not support kill''))"
  using assms by (auto simp: kill_for_session_def update_run_def killable_def kill_entry_def)

lemma stop_runs_exact:
  assumes "quiet w" "distinct (map fst rs)"
    and "\<And>i e. (i, e) \<in> set rs \<Longrightarrow> map_of (rm_runs s) i = Some e \<and> belongs_to a k e"
  shows "stop_runs w a k (map (\<lambda>x. snapshot (cw_files w) (fst x) (snd x)) rs) s =
           (foldl (\<lambda>s x. if re_status (snd x) = Running then update_run (fst x) (stopped w) s else s) s rs,
            length (filter (\<lambda>x. killable (snd x)) rs))"
  using assms(2,3)
proof (induction rs arbitrary: s)
  case (Cons x rs)
  obtain i e where x: "x = (i, e)" by (cases x)
  have ie: "map_of (rm_runs s) i = Some e" "belongs_to a k e" using Cons.prems(2)[of i e] x by auto
  have w: "cw_between w i = []" "cw_kill w i = None" using assms(1) by (simp_all add: quiet_def)
  show ?case
  proof (cases "re_status e = Running")
    case False
    have "stop_runs w a k (map (\<lambda>x. snapshot (cw_files w) (fst x) (snd x)) rs) s =
        (foldl (\<lambda>s x. if re_status (snd x) = Running then update_run (fst x) (stopped w) s else s) s rs,
         length (filter (\<lambda>x. killable (snd x)) rs))"
      by (rule Cons.IH) (use Cons.prems in auto)
    then show ?thesis using False x by (simp add: killable_def)
  next
    case True
    let ?s = "update_run i (stopped w) s"
    have "stop_runs w a k (map (\<lambda>x. snapshot (cw_files w) (fst x) (snd x)) rs) ?s =
        (foldl (\<lambda>s x. if re_status (snd x) = Running then update_run (fst x) (stopped w) s else s) ?s rs,
         length (filter (\<lambda>x. killable (snd x)) rs))"
    proof (rule Cons.IH)
      fix j d assume "(j, d) \<in> set rs"
      moreover from this have "j \<noteq> i" using Cons.prems(1) x by (force simp: rev_image_eqI)
      ultimately show "map_of (rm_runs ?s) j = Some d \<and> belongs_to a k d" using Cons.prems(2)[of j d] by simp
    qed (use Cons.prems(1) in simp)
    then show ?thesis using True x w kill_quiet[OF ie True]
      by (simp add: stopped_def[abs_def] Let_def)
  qed
qed simp

lemma stopped_eq:
  "stopped w e = (if killable e
     then e\<lparr>re_status := Killed, re_finished_at := Some (cw_clock w),
            re_process := map_option (\<lambda>p. p\<lparr>ps_exit_code := Some (- 1)\<rparr>) (re_process e)\<rparr>
     else e)"
  by (auto simp: stopped_def killable_def kill_entry_def)

lemma lookup_stopped:
  "distinct (map fst rs) \<Longrightarrow> (\<And>i e. (i, e) \<in> set rs \<Longrightarrow> map_of (rm_runs s) i = Some e) \<Longrightarrow>
   map_of (rm_runs (foldl (\<lambda>s x. if re_status (snd x) = Running then update_run (fst x) (stopped w) s else s) s rs)) j =
     (if j \<in> fst ` set rs then map_option (stopped w) (map_of (rm_runs s) j) else map_of (rm_runs s) j)"
proof (induction rs arbitrary: s)
  case (Cons x rs)
  obtain i e where x: "x = (i, e)" by (cases x)
  have ie: "map_of (rm_runs s) i = Some e" using Cons.prems(2)[of i e] x by simp
  let ?s = "if re_status e = Running then update_run i (stopped w) s else s"
  have new: "i \<notin> fst ` set rs" using Cons.prems(1) x by simp
  have "map_of (rm_runs ?s) j' = Some e'" if "(j', e') \<in> set rs" for j' e'
    using Cons.prems(2)[of j' e'] that new by (force simp: rev_image_eqI)
  from Cons.IH[of ?s, OF _ this] Cons.prems(1) x
  have "map_of (rm_runs (foldl (\<lambda>s x. if re_status (snd x) = Running then update_run (fst x) (stopped w) s else s) ?s rs)) j =
     (if j \<in> fst ` set rs then map_option (stopped w) (map_of (rm_runs ?s) j) else map_of (rm_runs ?s) j)"
    by simp
  moreover have "re_status e \<noteq> Running \<Longrightarrow> stopped w e = e" by (simp add: stopped_eq killable_def)
  ultimately show ?case using x ie new
    by (cases "j = i"; cases "re_status e = Running"; cases "j \<in> fst ` set rs") simp_all
qed simp

lemma sort_key_map: "sort_key f (map g xs) = map g (sort_key (f \<circ> g) xs)"
proof -
  have "insort_key f (g x) (map g ys) = map g (insort_key (f \<circ> g) x ys)" for x ys
    by (induction ys) simp_all
  then show ?thesis by (induction xs) simp_all
qed

lemma length_filter_sort: "length (filter P (sort_key f xs)) = length (filter P xs)"
  by (metis mset_filter mset_sort size_mset)

lemma stop_response_shape: "\<exists>s' n m. stop_command_response w a k s = (s', RespStop n m)"
  by (cases "stop_runs w a k (list_for_session (cw_files w) a k s) s") (simp add: stop_command_response_def)

lemma stop_response_exact:
  assumes "quiet w" "keys_distinct s" "stop_command_response w a k s = (s', RespStop n message)"
  shows "n = length (filter (\<lambda>x. belongs_to a k (snd x) \<and> killable (snd x)) (rm_runs s))"
    "message = stop_message n"
    "map_of (rm_runs s') i =
       map_option (\<lambda>e. if belongs_to a k e then stopped w e else e) (map_of (rm_runs s) i)"
proof -
  let ?own = "filter (\<lambda>x. belongs_to a k (snd x)) (rm_runs s)"
  let ?snap = "\<lambda>x. snapshot (cw_files w) (fst x) (snd x)"
  define rs where "rs = sort_key ((\<lambda>s. - rs_started_at s) \<circ> ?snap) ?own"
  have set_rs: "set rs = set ?own" by (simp add: rs_def)
  have dist: "distinct (map fst rs)"
  proof -
    have "mset (map fst rs) = mset (map fst ?own)" by (simp add: rs_def)
    then have "distinct (map fst rs) \<longleftrightarrow> distinct (map fst ?own)" by (metis mset_eq_imp_distinct_iff)
    then show ?thesis using assms(2) distinct_map_filter by blast
  qed
  have look: "map_of (rm_runs s) j = Some e \<and> belongs_to a k e" if "(j, e) \<in> set rs" for j e
    using that assms(2) unfolding set_rs by simp
  have list: "list_for_session (cw_files w) a k s = map ?snap rs"
    unfolding list_for_session_def rs_def by (rule sort_key_map)
  have "stop_runs w a k (map ?snap rs) s =
      (foldl (\<lambda>s x. if re_status (snd x) = Running then update_run (fst x) (stopped w) s else s) s rs,
       length (filter (\<lambda>x. killable (snd x)) rs))"
    by (rule stop_runs_exact[OF assms(1) dist]) (rule look)
  with assms(3) have r: "n = length (filter (\<lambda>x. killable (snd x)) rs)"
    "message = stop_message (length (filter (\<lambda>x. killable (snd x)) rs))"
    "s' = foldl (\<lambda>s x. if re_status (snd x) = Running then update_run (fst x) (stopped w) s else s) s rs"
    by (auto simp: stop_command_response_def list)
  show "message = stop_message n" unfolding r(1) by (rule r(2))
  show "n = length (filter (\<lambda>x. belongs_to a k (snd x) \<and> killable (snd x)) (rm_runs s))"
    unfolding r(1) rs_def length_filter_sort by (simp add: conj_commute)
  have mem: "i \<in> fst ` set rs \<longleftrightarrow> (\<exists>e. map_of (rm_runs s) i = Some e \<and> belongs_to a k e)"
  proof
    assume "i \<in> fst ` set rs"
    then obtain e where "(i, e) \<in> set rs" by auto
    then show "\<exists>e. map_of (rm_runs s) i = Some e \<and> belongs_to a k e" using look by blast
  next
    assume "\<exists>e. map_of (rm_runs s) i = Some e \<and> belongs_to a k e"
    then obtain e where "(i, e) \<in> set rs" unfolding set_rs by (auto dest: map_of_SomeD)
    then show "i \<in> fst ` set rs" by (force simp: rev_image_eqI)
  qed
  have "\<And>j e. (j, e) \<in> set rs \<Longrightarrow> map_of (rm_runs s) j = Some e" using look by blast
  from lookup_stopped[OF dist this, of w i]
  show "map_of (rm_runs s') i =
       map_option (\<lambda>e. if belongs_to a k e then stopped w e else e) (map_of (rm_runs s) i)"
    unfolding r(3)[symmetric] mem by (cases "map_of (rm_runs s) i") auto
qed

abbreviation quiet_world :: command_world where
  "quiet_world \<equiv> \<lparr>cw_faults = no_faults, cw_rotate_faults = no_faults, cw_now = ''t'', cw_files = \<lambda>_. None,
     cw_texts = \<lambda>_. ([], []), cw_clock = 9, cw_kill = \<lambda>_. None, cw_between = \<lambda>_. []\<rparr>"

text \<open>
  What \<open>/stop\<close> stops: when no other task interferes and every \<open>kill\<close> can be started,
  the command marks exactly the running processes of the session as killed, leaves every other
  run as it is, and counts the killed ones; a delegated run keeps running, and when there are
  only such runs the answer is that no running task was found.
\<close>

theorem stop_kills_processes:
  assumes "quiet w" "keys_distinct s" "stop_command_response w a k s = (s', RespStop n message)"
  shows "n = length (filter (\<lambda>x. belongs_to a k (snd x) \<and> re_status (snd x) = Running \<and>
                                 re_process (snd x) \<noteq> None) (rm_runs s)) \<and>
    (n = 0 \<longrightarrow> message = ''No running background tasks were found.'') \<and>
    map_of (rm_runs s') i =
      map_option (\<lambda>e. if belongs_to a k e \<and> re_status e = Running \<and> re_process e \<noteq> None
          then e\<lparr>re_status := Killed, re_finished_at := Some (cw_clock w),
                 re_process := map_option (\<lambda>p. p\<lparr>ps_exit_code := Some (- 1)\<rparr>) (re_process e)\<rparr>
          else e) (map_of (rm_runs s) i)"
proof -
  note exact = stop_response_exact[OF assms]
  have "message = ''No running background tasks were found.''" if "n = 0"
    unfolding exact(2) that by (simp add: stop_message_def)
  then show ?thesis
    using exact(1,3) by (cases "map_of (rm_runs s) i") (auto simp: killable_def stopped_eq)
qed

theorem stop_kills_processes_witness:
  "let run = \<lparr>re_tool_name = ''task'', re_kind = KindDelegated, re_summary = ''t'', re_agent_id = ''a'',
        re_session_key = ''k'', re_status = Running, re_started_at = 1, re_finished_at = None, re_claimed = False,
        re_process = None, re_delegated = Some \<lparr>ds_request = ''t'', ds_reply = None, ds_error = None\<rparr>\<rparr>
   in snd (stop_command_response quiet_world ''a'' ''k'' \<lparr>rm_runs = [(''r'', run)], rm_counter = 2\<rparr>)
        = RespStop 0 ''No running background tasks were found.'' \<and>
      map_of (rm_runs (fst (stop_command_response quiet_world ''a'' ''k'' \<lparr>rm_runs = [(''r'', run)], rm_counter = 2\<rparr>)))
        ''r'' = Some run"
proof -
  define run where "run = \<lparr>re_tool_name = ''task'', re_kind = KindDelegated, re_summary = ''t'', re_agent_id = ''a'',
        re_session_key = ''k'', re_status = Running, re_started_at = 1, re_finished_at = None, re_claimed = False,
        re_process = None, re_delegated = Some \<lparr>ds_request = ''t'', ds_reply = None, ds_error = None\<rparr>\<rparr>"
  define s where "s = \<lparr>rm_runs = [(''r'', run)], rm_counter = 2\<rparr>"
  have q: "quiet quiet_world" by (simp add: quiet_def)
  have d: "keys_distinct s" by (simp add: s_def)
  obtain s' n m where r: "stop_command_response quiet_world ''a'' ''k'' s = (s', RespStop n m)"
    using stop_response_shape by blast
  from stop_kills_processes[OF q d r, of "''r''"] r show ?thesis
    unfolding run_def[symmetric] s_def[symmetric] Let_def
    by (simp add: s_def run_def belongs_to_def)
qed

section \<open>A fresh session\<close>

lemma resolve_route_agent:
  "resolve_route kind inb cfg = Some (a, i) \<Longrightarrow>
   a = trim (ip_agent (resolve cfg kind (ci_guild_id inb) (ci_channel_id inb) (ci_is_dm inb)))"
  by (auto simp: resolve_route_def evaluate_inbound_policy_def classify_inbound_def Let_def split: if_splits)

lemma new_session_fresh:
  assumes "store_inv (gw_sessions s)"
    and target: "resolve_command_target setup w cmd (gw_sessions s) = (t, Inr (Some (a, scope, key)))"
    and run: "run_command setup w CmdNewSession a scope key (s\<lparr>gw_sessions := t\<rparr>) = (s', response)"
    and "cw_rotate_faults w = no_faults"
  shows "\<exists>n. store_active (gw_sessions s') scope = Some n \<and> n \<noteq> key"
    "gw_workers s' = remove_worker key (gw_workers s)" "gw_runs s' = gw_runs s"
    "store_inv (gw_sessions s')"
proof -
  have inv: "store_inv t" by (rule resolve_target_inv[OF assms(1) target])
  have key: "store_active t scope = Some key" by (rule resolve_target_Some(3)[OF target])
  obtain t' r where rot: "rotate_session no_faults (cw_now w) scope t = (t', Inr r)"
    by (cases "t scope") (auto simp: session_defs no_faults_def)
  then have ids: "rotate_ids no_faults (cw_now w) scope t = (t', Inr (previous_session_id r, rotated_session_id r))"
    by (simp add: rotate_ids_def)
  have s': "s' = s\<lparr>gw_sessions := t', gw_workers := remove_worker (previous_session_id r) (gw_workers s)\<rparr>"
    using run assms(4) rot by (simp add: run_command_def)
  from store.rot_ok[OF inv ids] key have "store_active t' scope = Some (rotated_session_id r)"
    "rotated_session_id r \<noteq> key" "previous_session_id r = key" by auto
  then show "\<exists>n. store_active (gw_sessions s') scope = Some n \<and> n \<noteq> key"
    "gw_workers s' = remove_worker key (gw_workers s)" "gw_runs s' = gw_runs s" using s' by simp_all
  show "store_inv (gw_sessions s')"
    using store_inv_rotate[OF inv, of no_faults "cw_now w" scope] rot s' by simp
qed

text \<open>
  A fresh session: when an owner's \<open>/new\<close> succeeds, the next message from the same
  conversation gets a session key different from the one in use before the command, the worker
  of the old key is no longer in the table of workers, and the workers of all other keys and
  all background runs are as they were.
\<close>

theorem new_session_starts_fresh:
  assumes "store_inv (gw_sessions s)" "command_owner setup cmd" "cc_kind cmd = CmdNewSession"
    and "cw_faults w = no_faults" "cw_rotate_faults w = no_faults"
    and "execute_command setup w cmd s = (s', response)"
    and "route_inbound f now tr (cc_source cmd) inb (gt_policy setup) (gw_sessions s') = (t', Inr (Some msg))"
    and "ci_guild_id inb = cc_guild_id cmd" "ci_channel_id inb = cc_channel_id cmd" "ci_is_dm inb = cc_is_dm cmd"
  shows "\<exists>old. im_session_key msg \<noteq> old \<and>
    store_active (gw_sessions s) (build_session_scope_key (im_target_agent_id msg) (cc_is_dm cmd) (cc_source cmd)
      (cc_channel_id cmd)) \<in> {None, Some old} \<and>
    co_workers (gw_workers s') = (co_workers (gw_workers s))(old := None) \<and> gw_runs s' = gw_runs s"
proof -
  from assms(2) obtain a i where route:
    "resolve_route (cc_source cmd) (command_inbound cmd) (gt_policy setup) = Some (a, i)"
    by (auto simp: command_owner_def split: option.splits)
  define scope where "scope = build_session_scope_key a (cc_is_dm cmd) (cc_source cmd) (cc_channel_id cmd)"
  have "\<exists>t key. current_or_create no_faults (cw_now w) scope (gw_sessions s) = (t, Inr key)"
    by (cases "gw_sessions s scope") (simp_all add: session_defs no_faults_def)
  then obtain t key where "current_or_create no_faults (cw_now w) scope (gw_sessions s) = (t, Inr key)" by blast
  then have target: "resolve_command_target setup w cmd (gw_sessions s) = (t, Inr (Some (a, scope, key)))"
    using route assms(4) by (simp add: resolve_command_target_def scope_def Let_def)
  have run: "run_command setup w CmdNewSession a scope key (s\<lparr>gw_sessions := t\<rparr>) = (s', response)"
    using assms(3,6) execute_command_owner[OF target assms(2)] by simp
  note fresh = new_session_fresh[OF assms(1) target run assms(5)]
  have agent: "im_target_agent_id msg = a"
    using resolve_route_agent[OF route] resolve_route_agent[OF route_inbound_SomeD(1)[OF assms(7)]] assms(8-10)
    by (simp add: command_inbound_def)
  have "current_or_create f now scope (gw_sessions s') = (t', Inr (im_session_key msg))"
    using route_inbound_SomeD(2)[OF assms(7)] agent assms(9,10) by (simp add: scope_def)
  with fresh(1) store.cur_again[OF fresh(4)] have "im_session_key msg \<noteq> key" by metis
  moreover have "store_active (gw_sessions s) scope \<in> {None, Some key}"
    using resolve_target_keeps[OF target, of scope] resolve_target_Some(3)[OF target]
    by (cases "store_active (gw_sessions s) scope") auto
  ultimately show ?thesis using fresh(2,3) agent by (auto simp: scope_def intro!: exI[of _ key])
qed

abbreviation sample_setup :: gateway_setup where
  "sample_setup \<equiv> \<lparr>gt_policy = default_routing,
     gt_agents = [(''default'', \<lparr>ag_agent_name = ''D'', ag_owner_ids = [''o''],
                     ag_tool_registry = \<lparr>rg_ordered = [], rg_by_name = []\<rparr>\<rparr>)], gt_output_modes = []\<rparr>"

abbreviation sample_command :: "rstr \<Rightarrow> channel_command" where
  "sample_command user \<equiv> \<lparr>cc_kind = CmdNewSession, cc_source = Discord, cc_channel_id = ''c'', cc_guild_id = None,
     cc_user_id = user, cc_is_dm = True\<rparr>"

abbreviation sample_gateway_state :: "rstr gateway_state" where
  "sample_gateway_state \<equiv> \<lparr>gw_sessions = Map.empty, gw_runs = manager_new, gw_workers = coordinator_new\<rparr>"

abbreviation sample_inbound :: channel_inbound where
  "sample_inbound \<equiv> \<lparr>ci_message_id = ''m'', ci_channel_id = ''c'', ci_guild_id = None, ci_is_dm = True,
     ci_user_id = ''x'', ci_username = ''X'', ci_mentioned_bot = False, ci_content = ''hi''\<rparr>"

lemma sample_owner: "command_owner sample_setup (sample_command user) \<longleftrightarrow> user = ''o''"
  by (simp add: command_owner_def command_inbound_def resolve_route_def evaluate_inbound_policy_def
      classify_inbound_def resolve_def policy_finalize_def allows_user_def default_routing_def empty_policy_def
      default_agent_id_def owner_allowed_def str_simps Let_def eq_commute)


theorem new_session_starts_fresh_witness:
  "\<exists>old s' response t' msg.
     execute_command sample_setup quiet_world (sample_command ''o'') sample_gateway_state = (s', response) \<and>
     route_inbound no_faults ''t'' ''tr'' Discord sample_inbound default_routing (gw_sessions s') = (t', Inr (Some msg)) \<and>
     im_session_key msg \<noteq> old \<and> co_workers (gw_workers s') = (Map.empty)(old := None)"
proof -
  obtain s' response where run:
    "execute_command sample_setup quiet_world (sample_command ''o'') sample_gateway_state = (s', response)"
    by fastforce
  have "\<exists>t' msg. route_inbound no_faults ''t'' ''tr'' Discord sample_inbound default_routing (gw_sessions s')
      = (t', Inr (Some msg))"
    by (simp add: route_inbound_def resolve_route_def evaluate_inbound_policy_def
        classify_inbound_def resolve_def policy_finalize_def allows_user_def default_routing_def empty_policy_def
        default_agent_id_def str_simps session_defs no_faults_def split: option.splits)
  then obtain t' msg where route: "route_inbound no_faults ''t'' ''tr'' Discord sample_inbound default_routing
      (gw_sessions s') = (t', Inr (Some msg))" by blast
  have "store_inv (gw_sessions sample_gateway_state)" by (simp add: store_inv_def)
  then have "\<exists>old. im_session_key msg \<noteq> old \<and>
    store_active (gw_sessions sample_gateway_state) (build_session_scope_key (im_target_agent_id msg)
      (cc_is_dm (sample_command ''o'')) (cc_source (sample_command ''o'')) (cc_channel_id (sample_command ''o'')))
      \<in> {None, Some old} \<and>
    co_workers (gw_workers s') = (co_workers (gw_workers sample_gateway_state))(old := None) \<and>
    gw_runs s' = gw_runs sample_gateway_state"
    by (rule new_session_starts_fresh[OF _ _ _ _ _ run, where inb = sample_inbound and f = no_faults
          and now = "''t''" and tr = "''tr''" and t' = t'])
       (use route sample_owner[of "''o''"] in simp_all)
  then obtain old where "im_session_key msg \<noteq> old"
    "co_workers (gw_workers s') = (co_workers (gw_workers sample_gateway_state))(old := None)" by blast
  with run route show ?thesis
    by (intro exI[of _ old] exI[of _ s'] exI[of _ response] exI[of _ t'] exI[of _ msg])
       (simp add: coordinator_new_def)
qed

end
