(* ===== verification/FilePaths.thy ===== *)
theory FilePaths
  imports ToolExecutor
begin

text \<open>
  Which files a tool may touch: the paths of the standard library as lists of components (Unix
  paths, so that a prefix component never occurs), \<open>src/tools/builtin/file_access.rs\<close> on the
  host's side and the path functions of \<open>sandbox/common/src/lib.rs\<close> on the guest's. The
  environment variables and the current directory are arguments.
\<close>

section \<open>Paths\<close>

datatype component = RootDir | CurDir | ParentDir | Normal rstr

type_synonym path = "component list"

fun split_slash :: "rstr \<Rightarrow> rstr list" where
  "split_slash [] = [[]]"
| "split_slash (c # cs) =
     (if c = CHR ''/'' then [] # split_slash cs
      else (case split_slash cs of [] \<Rightarrow> [[c]] | p # ps \<Rightarrow> (c # p) # ps))"

definition component_of :: "rstr \<Rightarrow> component" where
  "component_of p = (if p = ''..'' then ParentDir else Normal p)"

definition body_components :: "rstr list \<Rightarrow> path" where
  "body_components ps = map component_of (filter (\<lambda>p. p \<noteq> [] \<and> p \<noteq> ''.'') ps)"

text \<open>\<open>Path::components\<close>: a dot only counts at the start of a relative path.\<close>

definition components :: "rstr \<Rightarrow> path" where
  "components s =
     (case s of
        [] \<Rightarrow> []
      | c # cs \<Rightarrow>
          (if c = CHR ''/'' then RootDir # body_components (split_slash cs)
           else (case split_slash s of
                   [] \<Rightarrow> []
                 | p # ps \<Rightarrow> (if p = ''.'' then [CurDir] else []) @ body_components (p # ps))))"

definition is_absolute :: "path \<Rightarrow> bool" where
  "is_absolute p \<longleftrightarrow> (case p of RootDir # _ \<Rightarrow> True | _ \<Rightarrow> False)"

definition path_join :: "path \<Rightarrow> path \<Rightarrow> path" where
  "path_join p q =
     (if is_absolute q \<or> p = [] then q else p @ filter (\<lambda>c. c \<noteq> CurDir) q)"

definition strip_path :: "path \<Rightarrow> path \<Rightarrow> path option" where
  "strip_path base p = (if take (length base) p = base then Some (drop (length base) p) else None)"

text \<open>The text of a path: names separated by slashes, after the root if there is one.\<close>

fun component_text :: "component \<Rightarrow> rstr" where
  "component_text RootDir = []"
| "component_text CurDir = ''.''"
| "component_text ParentDir = ''..''"
| "component_text (Normal p) = p"

fun join_slash :: "rstr list \<Rightarrow> rstr" where
  "join_slash [] = []"
| "join_slash [p] = p"
| "join_slash (p # ps) = p @ CHR ''/'' # join_slash ps"

definition path_text :: "path \<Rightarrow> rstr" where
  "path_text p =
     (case p of
        RootDir # rest \<Rightarrow> CHR ''/'' # join_slash (map component_text rest)
      | _ \<Rightarrow> join_slash (map component_text p))"

section \<open>Normalization\<close>

definition norm_step :: "path \<Rightarrow> component \<Rightarrow> path" where
  "norm_step normalized c =
     (case c of
        RootDir \<Rightarrow> [RootDir]
      | CurDir \<Rightarrow> normalized
      | ParentDir \<Rightarrow>
          (if normalized \<noteq> [] \<and> last normalized \<noteq> RootDir then butlast normalized else normalized)
      | Normal part \<Rightarrow> normalized @ [Normal part])"

definition normalize_absolute_path :: "path \<Rightarrow> path" where
  "normalize_absolute_path p = foldl norm_step [] p"

section \<open>Expansion and resolution\<close>

definition env_start_char :: "rstr \<Rightarrow> bool" where
  "env_start_char ch \<longleftrightarrow> (case ch of [c] \<Rightarrow> is_ascii_alpha c \<or> c = CHR ''_'' | _ \<Rightarrow> False)"

definition env_name_char :: "rstr \<Rightarrow> bool" where
  "env_name_char ch \<longleftrightarrow>
     (case ch of [c] \<Rightarrow> is_ascii_alpha c \<or> is_ascii_digit c \<or> c = CHR ''_'' | _ \<Rightarrow> False)"

definition is_valid_env_name :: "rstr list \<Rightarrow> bool" where
  "is_valid_env_name key =
     (case key of [] \<Rightarrow> False | first # rest \<Rightarrow> env_start_char first \<and> list_all env_name_char rest)"

definition env_value :: "(rstr \<Rightarrow> rstr option) \<Rightarrow> rstr list \<Rightarrow> rstr" where
  "env_value env key = (case env (concat key) of Some v \<Rightarrow> v | None \<Rightarrow> [])"

function expand_chars :: "(rstr \<Rightarrow> rstr option) \<Rightarrow> rstr list \<Rightarrow> rstr" where
  "expand_chars env [] = []"
| "expand_chars env (ch # cs) =
     (if ch \<noteq> ''$'' then ch @ expand_chars env cs
      else (case cs of
              [] \<Rightarrow> ''$''
            | next_ch # rest \<Rightarrow>
                (if next_ch = ''{'' then
                   (let key = takeWhile (\<lambda>c. c \<noteq> ''}'') rest; after = dropWhile (\<lambda>c. c \<noteq> ''}'') rest
                    in if after \<noteq> [] \<and> is_valid_env_name key
                       then env_value env key @ expand_chars env (tl after)
                       else ''$'' @ expand_chars env cs)
                 else if env_start_char next_ch
                 then env_value env (next_ch # takeWhile env_name_char rest)
                      @ expand_chars env (dropWhile env_name_char rest)
                 else ''$'' @ expand_chars env cs)))"
  by pat_completeness auto
termination
proof (relation "measure (\<lambda>(env, cs). length cs)", goal_cases)
  case (3 env ch cs next_ch rest key after)
  have "length after \<le> length rest" unfolding 3(5) by (rule length_dropWhile_le)
  then show ?case using 3 by simp
next
  case (5 env ch cs next_ch rest)
  have "length (dropWhile env_name_char rest) \<le> length rest" by (rule length_dropWhile_le)
  then show ?case using 5 by simp
qed simp_all

definition expand_env_vars :: "(rstr \<Rightarrow> rstr option) \<Rightarrow> rstr \<Rightarrow> rstr" where
  "expand_env_vars env input = expand_chars env (chars input)"

definition home_dir :: "(rstr \<Rightarrow> rstr option) \<Rightarrow> path option" where
  "home_dir env =
     map_option components (case env ''HOME'' of Some h \<Rightarrow> Some h | None \<Rightarrow> env ''USERPROFILE'')"

definition expand_home_dir :: "(rstr \<Rightarrow> rstr option) \<Rightarrow> rstr \<Rightarrow> path option" where
  "expand_home_dir env value =
     (case value of
        CHR ''~'' # rest \<Rightarrow>
          (if rest \<noteq> [] \<and> hd rest \<noteq> CHR ''/'' \<and> hd rest \<noteq> BSL then None
           else (case home_dir env of
                   None \<Rightarrow> None
                 | Some home \<Rightarrow>
                     (if rest = [] \<or> tl rest = [] then Some home
                      else Some (path_join home (components (tl rest))))))
      | _ \<Rightarrow> None)"

definition resolve_path_for_read :: "(rstr \<Rightarrow> rstr option) \<Rightarrow> rstr \<Rightarrow> path \<Rightarrow> path res" where
  "resolve_path_for_read env raw_path workspace_root =
     (let trimmed = trim raw_path
      in if trimmed = [] then Inl (ToolError ''read requires a non-empty path'')
         else
           (let expanded_input = expand_env_vars env trimmed;
                expanded = (case expand_home_dir env expanded_input of
                    Some p \<Rightarrow> p | None \<Rightarrow> components expanded_input);
                absolute = (if is_absolute expanded then expanded else path_join workspace_root expanded)
            in Inr (normalize_absolute_path absolute)))"

section \<open>The host's classification\<close>

text \<open>\<open>sandbox/wasm.rs\<close>: a relative root is taken below the current directory.\<close>

definition normalize_workspace_root :: "path res \<Rightarrow> path \<Rightarrow> path res" where
  "normalize_workspace_root cwd root =
     (if is_absolute root then Inr root else rbind cwd (\<lambda>cwd. Inr (path_join cwd root)))"

definition prompt_files :: "rstr list" where
  "prompt_files = [''IDENTITY.md'', ''AGENT.md'', ''USER.md'', ''MEMORY.md'', ''SOUL.md'']"

definition persona_relative_path_allowed :: "path \<Rightarrow> bool" where
  "persona_relative_path_allowed relative =
     (case relative of
        Normal first # rest \<Rightarrow>
          (if first = ''.simpleclaw'' then False
           else if first = ''skills'' then True
           else rest = [] \<and> first \<in> set prompt_files)
      | _ \<Rightarrow> False)"

text \<open>A sandboxed route: the guest path, and the extra directory opened for it, if any.\<close>

datatype file_tool_route =
    FileSandboxed rstr "(path \<times> rstr) list"
  | FileNeedsApproval sandbox_capability rstr rstr

definition sandbox_paths_for_capability :: "tool_sandbox_config \<Rightarrow> sandbox_capability \<Rightarrow> path list" where
  "sandbox_paths_for_capability sandbox capability =
     map components (sx_extra_readable_paths sandbox)
     @ (if capability = CapWrite then map components (sx_extra_writable_paths sandbox) else [])"

fun matching_extra_root ::
  "path res \<Rightarrow> path \<Rightarrow> nat \<Rightarrow> path list \<Rightarrow> (nat \<times> path \<times> path) option \<Rightarrow> nat \<Rightarrow> (nat \<times> path \<times> path) option res" where
  "matching_extra_root cwd p index [] best best_depth = Inr best"
| "matching_extra_root cwd p index (root # roots) best best_depth =
     rbind (normalize_workspace_root cwd root) (\<lambda>root.
       let normalized_root = normalize_absolute_path root
       in case strip_path normalized_root p of
            Some relative \<Rightarrow>
              (let depth = length normalized_root
               in if depth \<ge> best_depth
                  then matching_extra_root cwd p (Suc index) roots (Some (index, normalized_root, relative)) depth
                  else matching_extra_root cwd p (Suc index) roots best best_depth)
          | None \<Rightarrow> matching_extra_root cwd p (Suc index) roots best best_depth)"

definition find_matching_extra_root :: "path res \<Rightarrow> path \<Rightarrow> path list \<Rightarrow> (nat \<times> path \<times> path) option res" where
  "find_matching_extra_root cwd normalized_path extra_roots =
     matching_extra_root cwd normalized_path 0 extra_roots None 0"

definition workspace_mount :: rstr where "workspace_mount = ''/workspace''"
definition persona_mount :: rstr where "persona_mount = ''/persona''"

text \<open>\<open>Path::new(mount).join(relative)\<close>, for a relative path without dots.\<close>

definition guest_join :: "rstr \<Rightarrow> path \<Rightarrow> rstr" where
  "guest_join mount relative = mount @ CHR ''/'' # path_text relative"

definition extra_mount :: "nat \<Rightarrow> rstr" where
  "extra_mount index = ''/__extra/'' @ show_nat index"

definition classify_file_tool_access ::
  "path res \<Rightarrow> path \<Rightarrow> path \<Rightarrow> path \<Rightarrow> tool_sandbox_config \<Rightarrow> sandbox_capability \<Rightarrow> file_tool_route res" where
  "classify_file_tool_access cwd host_path workspace_root persona_root sandbox capability =
     rbind (normalize_workspace_root cwd workspace_root) (\<lambda>workspace_absolute.
       let normalized_workspace = normalize_absolute_path workspace_absolute;
           normalized_path = normalize_absolute_path host_path
       in case strip_path normalized_workspace normalized_path of
            Some relative \<Rightarrow> Inr (FileSandboxed (guest_join workspace_mount relative) [])
          | None \<Rightarrow>
              rbind (normalize_workspace_root cwd persona_root) (\<lambda>persona_absolute.
                let normalized_persona = normalize_absolute_path persona_absolute;
                    found = (case strip_path normalized_persona normalized_path of
                        Some relative \<Rightarrow> if persona_relative_path_allowed relative then Some relative else None
                      | None \<Rightarrow> None)
                in case found of
                     Some relative \<Rightarrow> Inr (FileSandboxed (guest_join persona_mount relative) [])
                   | None \<Rightarrow>
                       rbind (find_matching_extra_root cwd normalized_path
                                (sandbox_paths_for_capability sandbox capability)) (\<lambda>extra.
                         case extra of
                           Some (index, extra_root, relative) \<Rightarrow>
                             Inr (FileSandboxed (guest_join (extra_mount index) relative)
                                    [(extra_root, extra_mount index)])
                         | None \<Rightarrow>
                             Inr (FileNeedsApproval capability (path_text normalized_path)
                               (''target is outside the configured sandbox roots: path='' @ path_text normalized_path @
                                '' workspace='' @ path_text normalized_workspace @
                                '' persona='' @ path_text normalized_persona)))))"

definition is_sandbox_permission_denial :: "rstr \<Rightarrow> bool" where
  "is_sandbox_permission_denial stderr =
     (let lowered = to_ascii_lowercase stderr
      in str_contains lowered ''path denied by sandbox'' \<or> str_contains lowered ''permission denied'' \<or>
         str_contains lowered ''operation not permitted'' \<or> str_contains lowered ''access denied'')"

definition classify_wasm_tool_error ::
  "rstr \<Rightarrow> rstr \<Rightarrow> sandbox_capability \<Rightarrow> int \<Rightarrow> rstr \<Rightarrow> framework_error" where
  "classify_wasm_tool_error tool target capability exit_code stderr =
     (if is_sandbox_permission_denial stderr
      then sandbox_permission_denied \<lparr>sd_tool_name = tool, sd_execution_kind = ''wasm_sandbox'',
             sd_capability = capability, sd_target = target, sd_diagnostic = stderr\<rparr>
      else ToolError (tool @ '' tool failed: exit_code='' @ show_int exit_code @ '' stderr='' @ stderr))"

section \<open>The guest's check\<close>

definition guest_persona_path_allowed :: "path \<Rightarrow> bool" where
  "guest_persona_path_allowed p =
     (case strip_path (components persona_mount) (normalize_absolute_path p) of
        None \<Rightarrow> False
      | Some relative \<Rightarrow> persona_relative_path_allowed relative)"

definition path_denied :: "path \<Rightarrow> rstr" where
  "path_denied normalized =
     ''path denied by sandbox: path='' @ path_text normalized @ '' workspace=/workspace persona=/persona''"

definition resolve_guest_path :: "rstr \<Rightarrow> rstr + path" where
  "resolve_guest_path raw_path =
     (let trimmed = trim raw_path
      in if trimmed = [] then Inl ''path must be non-empty''
         else
           (let input = components trimmed;
                absolute = (if is_absolute input then input else path_join (components workspace_mount) input);
                normalized = normalize_absolute_path absolute
            in if strip_path (components workspace_mount) normalized \<noteq> None then Inr normalized
               else if strip_path (components persona_mount) normalized \<noteq> None \<and>
                       guest_persona_path_allowed normalized
               then Inr normalized
               else Inl (path_denied normalized)))"

section \<open>Lemmas on paths\<close>

text \<open>A clean path: the root and names that a component may have.\<close>

definition clean_name :: "rstr \<Rightarrow> bool" where
  "clean_name n \<longleftrightarrow> n \<noteq> [] \<and> n \<noteq> ''.'' \<and> n \<noteq> ''..'' \<and> CHR ''/'' \<notin> set n"

lemma split_slash_Nil [simp]: "split_slash s \<noteq> []"
  by (induction s) (auto split: list.splits)

lemma split_slash_name: "CHR ''/'' \<notin> set n \<Longrightarrow> split_slash n = [n]"
  by (induction n) auto

lemma split_slash_append:
  "CHR ''/'' \<notin> set n \<Longrightarrow> split_slash (n @ CHR ''/'' # s) = n # split_slash s"
  by (induction n) auto

lemma split_join: "list_all clean_name ns \<Longrightarrow> ns \<noteq> [] \<Longrightarrow> split_slash (join_slash ns) = ns"
  by (induction ns rule: join_slash.induct) (auto simp: split_slash_name split_slash_append clean_name_def)

lemma body_clean: "list_all clean_name ns \<Longrightarrow> body_components ns = map Normal ns"
  by (induction ns) (auto simp: body_components_def component_of_def clean_name_def)

lemma normal_foldl:
  "foldl norm_step (RootDir # map Normal ns) (map Normal ms) = RootDir # map Normal (ns @ ms)"
proof (induction ms arbitrary: ns)
  case (Cons m ms)
  have "norm_step (RootDir # map Normal ns) (Normal m) = RootDir # map Normal (ns @ [m])"
    by (simp add: norm_step_def)
  then show ?case using Cons[of "ns @ [m]"] by simp
qed simp

lemma normalize_clean [simp]: "normalize_absolute_path (RootDir # map Normal ns) = RootDir # map Normal ns"
  using normal_foldl[of "[]" ns] by (simp add: normalize_absolute_path_def norm_step_def)

lemma normalize_absolute:
  assumes "is_absolute p"
  shows "\<exists>ns. normalize_absolute_path p = RootDir # map Normal ns \<and> Normal ` set ns \<subseteq> set p"
proof -
  have "\<exists>ns'. foldl norm_step (RootDir # map Normal ns) q = RootDir # map Normal ns' \<and>
      set ns' \<subseteq> set ns \<union> {n. Normal n \<in> set q}" for ns q
  proof (induction q arbitrary: ns)
    case (Cons c q)
    have "\<exists>ns'. norm_step (RootDir # map Normal ns) c = RootDir # map Normal ns' \<and>
        set ns' \<subseteq> set ns \<union> {n. Normal n \<in> set [c]}"
    proof (cases c)
      case ParentDir
      show ?thesis
      proof (cases ns rule: rev_cases)
        case (snoc ms m)
        then show ?thesis using ParentDir by (auto simp: norm_step_def intro!: exI[of _ ms])
      qed (use ParentDir in \<open>auto simp: norm_step_def\<close>)
    next
      case RootDir
      then show ?thesis by (auto simp: norm_step_def intro!: exI[of _ "[]"])
    next
      case (Normal n)
      then show ?thesis by (auto simp: norm_step_def intro!: exI[of _ "ns @ [n]"])
    qed (auto simp: norm_step_def)
    then obtain ns1 where 1: "norm_step (RootDir # map Normal ns) c = RootDir # map Normal ns1"
      "set ns1 \<subseteq> set ns \<union> {n. Normal n \<in> set [c]}" by blast
    from Cons.IH[of ns1] obtain ns2 where "foldl norm_step (RootDir # map Normal ns1) q = RootDir # map Normal ns2"
      "set ns2 \<subseteq> set ns1 \<union> {n. Normal n \<in> set q}" by blast
    with 1 show ?case by (intro exI[of _ ns2]) auto
  qed auto
  moreover obtain q where p: "p = RootDir # q"
    using assms by (auto simp: is_absolute_def split: list.splits component.splits)
  ultimately obtain ns where ns: "foldl norm_step [RootDir] q = RootDir # map Normal ns" "set ns \<subseteq> {n. Normal n \<in> set q}"
    by (metis (no_types, lifting) Un_empty_left list.set(1) list.simps(8))
  then show ?thesis
    unfolding p normalize_absolute_path_def
    by (intro exI[of _ ns] conjI) (auto simp: norm_step_def)
qed

lemma split_slash_pieces: "p \<in> set (split_slash s) \<Longrightarrow> CHR ''/'' \<notin> set p"
  by (induction s arbitrary: p) (auto split: if_splits list.splits)

lemma body_names: "Normal n \<in> set (body_components (split_slash s)) \<Longrightarrow> clean_name n"
  by (auto simp: body_components_def component_of_def clean_name_def split: if_splits dest: split_slash_pieces)

lemma components_names: "Normal n \<in> set (components s) \<Longrightarrow> clean_name n"
  using body_names[of n s] body_names[of n "tl s"]
  by (auto simp: components_def split: list.splits if_splits)

text \<open>Roots and targets as the tools meet them: absolute, with names a file can have.\<close>

definition clean_path :: "path \<Rightarrow> bool" where
  "clean_path p \<longleftrightarrow> (\<exists>ns. p = RootDir # map Normal ns \<and> list_all clean_name ns)"

definition good_path :: "path \<Rightarrow> bool" where
  "good_path p \<longleftrightarrow> is_absolute p \<and> (\<forall>n. Normal n \<in> set p \<longrightarrow> clean_name n)"

lemma clean_normalize: "good_path p \<Longrightarrow> clean_path (normalize_absolute_path p)"
proof -
  assume p: "good_path p"
  then obtain ns where ns: "normalize_absolute_path p = RootDir # map Normal ns" "Normal ` set ns \<subseteq> set p"
    using normalize_absolute[of p] by (auto simp: good_path_def)
  have "clean_name n" if "n \<in> set ns" for n
    using p ns(2) that unfolding good_path_def by blast
  with ns(1) show ?thesis by (auto simp: clean_path_def list_all_iff)
qed

lemma good_components: "is_absolute (components s) \<Longrightarrow> good_path (components s)"
  by (auto simp: good_path_def dest: components_names)

lemma clean_normal [simp]: "clean_path p \<Longrightarrow> normalize_absolute_path p = p"
  by (auto simp: clean_path_def)

lemma strip_path_Some: "strip_path base p = Some r \<longleftrightarrow> p = base @ r"
proof
  assume "strip_path base p = Some r"
  then have "take (length base) p = base" "drop (length base) p = r" by (auto simp: strip_path_def split: if_splits)
  then show "p = base @ r" by (metis append_take_drop_id)
qed (simp add: strip_path_def)

lemma strip_clean:
  assumes "strip_path base p = Some r" "clean_path p" "base \<noteq> []"
  shows "\<exists>ns. r = map Normal ns \<and> list_all clean_name ns"
proof -
  obtain ns where p: "p = RootDir # map Normal ns" "list_all clean_name ns" using assms(2) by (auto simp: clean_path_def)
  obtain b bs where b: "base = b # bs" using assms(3) by (cases base) auto
  have "map Normal ns = bs @ r" using assms(1) p(1) b by (simp add: strip_path_Some)
  then obtain ms where "ns = take (length bs) ns @ ms" "r = map Normal ms"
    by (metis append_eq_map_conv append_take_drop_id drop_map append_eq_conv_conj)
  then show ?thesis using p(2) by (metis list_all_append)
qed

text \<open>The guest path of a target, read back by the guest: the mount followed by the same names.\<close>

lemma map_component_text [simp]: "map (component_text \<circ> Normal) ns = ns"
  by (induction ns) simp_all

lemma path_text_names: "path_text (map Normal ns) = join_slash ns"
  by (cases ns) (simp_all add: path_text_def)

lemma components_guest:
  assumes "list_all clean_name ns" "clean_name m"
  shows "components (guest_join (CHR ''/'' # m) (map Normal ns)) = RootDir # map Normal (m # ns)"
proof -
  have m: "CHR ''/'' \<notin> set m" using assms(2) by (simp add: clean_name_def)
  have split: "split_slash (m @ CHR ''/'' # join_slash ns) = m # split_slash (join_slash ns)"
    by (rule split_slash_append[OF m])
  have body: "body_components (split_slash (join_slash ns)) = map Normal ns"
  proof (cases "ns = []")
    case True
    then show ?thesis by (simp add: body_components_def)
  next
    case False
    then show ?thesis using split_join[OF assms(1)] body_clean[OF assms(1)] by simp
  qed
  have "body_components (m # split_slash (join_slash ns)) = Normal m # map Normal ns"
    using body assms(2) by (simp add: body_components_def component_of_def clean_name_def)
  then show ?thesis by (simp add: components_def guest_join_def path_text_names split)
qed

lemma body_join: "list_all clean_name ns \<Longrightarrow> body_components (split_slash (join_slash ns)) = map Normal ns"
  using split_join body_clean by (cases "ns = []") (simp_all add: body_components_def)

lemma components_extra:
  assumes "list_all clean_name ns" "clean_name m" "clean_name k"
  shows "components (CHR ''/'' # m @ CHR ''/'' # k @ CHR ''/'' # path_text (map Normal ns))
         = RootDir # Normal m # Normal k # map Normal ns"
proof -
  have "split_slash (m @ CHR ''/'' # k @ CHR ''/'' # join_slash ns) = m # k # split_slash (join_slash ns)"
    using assms(2,3) by (simp add: clean_name_def split_slash_append)
  moreover have "body_components (m # k # split_slash (join_slash ns)) = Normal m # Normal k # map Normal ns"
    using body_join[OF assms(1)] assms(2,3) by (simp add: body_components_def component_of_def clean_name_def)
  ultimately show ?thesis by (simp add: components_def path_text_names)
qed

lemma show_nat_clean: "clean_name (show_nat n)"
proof -
  have digits: "is_ascii_digit c" if "c \<in> set (show_nat n)" for c using show_nat_digits[OF that] .
  have "CHR ''/'' \<notin> set (show_nat n)" "CHR ''.'' \<notin> set (show_nat n)"
    using digits[of "CHR ''/''"] digits[of "CHR ''.''"] by (auto simp: is_ascii_digit_def)
  then show ?thesis by (force simp: clean_name_def)
qed

lemma clean_persona: "persona_relative_path_allowed r \<Longrightarrow> r \<noteq> []"
  by (auto simp: persona_relative_path_allowed_def)

text \<open>What a guest path means on the host: the directories opened at the two mounts.\<close>

definition guest_to_host :: "path \<Rightarrow> path \<Rightarrow> path \<Rightarrow> path option" where
  "guest_to_host workspace persona guest =
     (case strip_path (components workspace_mount) guest of
        Some relative \<Rightarrow> Some (workspace @ relative)
      | None \<Rightarrow> map_option ((@) persona) (strip_path (components persona_mount) guest))"

lemma mount_components:
  "components workspace_mount = [RootDir, Normal ''workspace'']"
  "components persona_mount = [RootDir, Normal ''persona'']"
  by (simp_all add: components_def workspace_mount_def persona_mount_def body_components_def component_of_def)

lemma guest_workspace:
  assumes "list_all clean_name ns"
  shows "components (guest_join workspace_mount (map Normal ns)) = RootDir # map Normal (''workspace'' # ns)"
    "components (guest_join persona_mount (map Normal ns)) = RootDir # map Normal (''persona'' # ns)"
  using components_guest[OF assms, of "''workspace''"] components_guest[OF assms, of "''persona''"]
  by (simp_all add: workspace_mount_def persona_mount_def clean_name_def)

lemma guest_resolves:
  assumes "trim g = g" "g \<noteq> []" "components g = RootDir # map Normal ns"
  shows "resolve_guest_path g =
    (if take 1 ns = [''workspace''] \<or> (take 1 ns = [''persona''] \<and> persona_relative_path_allowed (map Normal (tl ns)))
     then Inr (RootDir # map Normal ns) else Inl (path_denied (RootDir # map Normal ns)))"
proof -
  have "strip_path [RootDir, Normal m] (RootDir # map Normal ns) =
      (if take 1 ns = [m] then Some (map Normal (tl ns)) else None)" for m
    by (cases ns) (simp_all add: strip_path_def)
  then show ?thesis
    using assms by (simp add: resolve_guest_path_def is_absolute_def mount_components guest_persona_path_allowed_def)
qed

text \<open>The current directory, when there is one, is absolute.\<close>

definition absolute_cwd :: "path res \<Rightarrow> bool" where
  "absolute_cwd cwd \<longleftrightarrow> (case cwd of Inl _ \<Rightarrow> True | Inr d \<Rightarrow> is_absolute d)"

lemma workspace_root_absolute:
  "absolute_cwd cwd \<Longrightarrow> normalize_workspace_root cwd root = Inr r \<Longrightarrow> is_absolute r"
  by (auto simp: normalize_workspace_root_def rbind_eq_Inr absolute_cwd_def path_join_def is_absolute_def
      split: if_splits list.splits component.splits)

lemma normalize_absolute_not_Nil: "is_absolute p \<Longrightarrow> normalize_absolute_path p \<noteq> []"
  using normalize_absolute[of p] by auto

lemma matching_extra:
  assumes "absolute_cwd cwd"
  shows "matching_extra_root cwd p i roots best d = Inr (Some (j, root, r)) \<Longrightarrow>
    best = Some (j, root, r) \<or> (strip_path root p = Some r \<and> root \<noteq> [])"
proof (induction roots arbitrary: i best d)
  case (Cons x roots)
  obtain y where y: "normalize_workspace_root cwd x = Inr y" using Cons.prems by (auto simp: rbind_eq_Inr)
  let ?root = "normalize_absolute_path y"
  have nonempty: "?root \<noteq> []"
    by (rule normalize_absolute_not_Nil[OF workspace_root_absolute[OF assms y]])
  show ?case
  proof (cases "strip_path ?root p")
    case None
    then show ?thesis using Cons.prems y Cons.IH by (auto simp: Let_def)
  next
    case (Some rel)
    then show ?thesis
      using Cons.prems y Cons.IH[of "Suc i" "Some (i, ?root, rel)" "length ?root"] Cons.IH[of "Suc i" best d] nonempty
      by (auto simp: Let_def split: if_splits)
  qed
qed simp

lemma normalize_workspace_good: "good_path ws \<Longrightarrow> normalize_workspace_root cwd ws = Inr ws"
  by (simp add: normalize_workspace_root_def good_path_def)

lemma clean_not_Nil: "clean_path p \<Longrightarrow> p \<noteq> []"
  by (auto simp: clean_path_def)

lemma strip_good:
  assumes "strip_path base (normalize_absolute_path p) = Some r" "good_path p" "base \<noteq> []"
  shows "\<exists>ns. r = map Normal ns \<and> list_all clean_name ns \<and> normalize_absolute_path p = base @ map Normal ns"
  using strip_clean[OF assms(1) clean_normalize[OF assms(2)] assms(3)] assms(1) by (auto simp: strip_path_Some)

lemma classify_sandboxed:
  assumes "classify_file_tool_access cwd p ws persona sandbox cap = Inr (FileSandboxed g dirs)"
    and "good_path p" "good_path ws" "good_path persona" "absolute_cwd cwd"
  shows "(\<exists>ns. list_all clean_name ns \<and> normalize_absolute_path p = normalize_absolute_path ws @ map Normal ns \<and>
            g = guest_join workspace_mount (map Normal ns) \<and> dirs = []) \<or>
    (\<exists>ns. list_all clean_name ns \<and> normalize_absolute_path p = normalize_absolute_path persona @ map Normal ns \<and>
       persona_relative_path_allowed (map Normal ns) \<and> g = guest_join persona_mount (map Normal ns) \<and> dirs = []) \<or>
    (\<exists>i ns root. list_all clean_name ns \<and> g = guest_join (extra_mount i) (map Normal ns) \<and> dirs = [(root, extra_mount i)])"
proof (cases "strip_path (normalize_absolute_path ws) (normalize_absolute_path p)")
  case (Some r)
  from strip_good[OF Some assms(2) clean_not_Nil[OF clean_normalize[OF assms(3)]]] Some assms(1,3)
  show ?thesis by (auto simp: classify_file_tool_access_def normalize_workspace_good Let_def)
next
  case outside: None
  let ?rel = "strip_path (normalize_absolute_path persona) (normalize_absolute_path p)"
  show ?thesis
  proof (cases "\<exists>r. ?rel = Some r \<and> persona_relative_path_allowed r")
    case True
    then obtain r where r: "?rel = Some r" "persona_relative_path_allowed r" by blast
    from strip_good[OF r(1) assms(2) clean_not_Nil[OF clean_normalize[OF assms(4)]]] outside r assms(1,3,4)
    show ?thesis by (auto simp: classify_file_tool_access_def normalize_workspace_good Let_def)
  next
    case False
    then have "(case ?rel of Some r \<Rightarrow> if persona_relative_path_allowed r then Some r else None | None \<Rightarrow> None) = None"
      by (auto split: option.splits)
    with outside assms(1,3,4) obtain i root r where e:
      "find_matching_extra_root cwd (normalize_absolute_path p) (sandbox_paths_for_capability sandbox cap) = Inr (Some (i, root, r))"
      "g = guest_join (extra_mount i) r" "dirs = [(root, extra_mount i)]"
      by (auto simp: classify_file_tool_access_def normalize_workspace_good Let_def rbind_eq_Inr split: option.splits)
    from matching_extra[OF assms(5) e(1)[unfolded find_matching_extra_root_def]] have
      "strip_path root (normalize_absolute_path p) = Some r" "root \<noteq> []" by auto
    from strip_good[OF this(1) assms(2) this(2)] e show ?thesis by blast
  qed
qed

lemma guest_join_not_Nil [simp]: "guest_join m r \<noteq> []"
  by (simp add: guest_join_def)

lemma guest_sees_target:
  assumes "classify_file_tool_access cwd p ws persona sandbox cap = Inr (FileSandboxed g [])"
    and "good_path p" "good_path ws" "good_path persona" "absolute_cwd cwd" "trim g = g"
  shows "\<exists>gp. resolve_guest_path g = Inr gp \<and>
    guest_to_host (normalize_absolute_path ws) (normalize_absolute_path persona) gp = Some (normalize_absolute_path p)"
proof -
  consider (work) ns where "list_all clean_name ns"
      "normalize_absolute_path p = normalize_absolute_path ws @ map Normal ns" "g = guest_join workspace_mount (map Normal ns)"
    | (pers) ns where "list_all clean_name ns"
      "normalize_absolute_path p = normalize_absolute_path persona @ map Normal ns"
      "persona_relative_path_allowed (map Normal ns)" "g = guest_join persona_mount (map Normal ns)"
    using classify_sandboxed[OF assms(1-5)] by blast
  then show ?thesis
  proof cases
    case work
    have "components g = RootDir # map Normal (''workspace'' # ns)"
      unfolding work(3) by (rule guest_workspace(1)[OF work(1)])
    from guest_resolves[OF assms(6) _ this] work show ?thesis
      by (simp add: guest_to_host_def mount_components strip_path_def)
  next
    case pers
    have "components g = RootDir # map Normal (''persona'' # ns)"
      unfolding pers(4) by (rule guest_workspace(2)[OF pers(1)])
    from guest_resolves[OF assms(6) _ this] pers show ?thesis
      by (simp add: guest_to_host_def mount_components strip_path_def)
  qed
qed


abbreviation sample_ws :: path where "sample_ws \<equiv> [RootDir, Normal ''w'']"
abbreviation sample_persona :: path where "sample_persona \<equiv> [RootDir, Normal ''p'']"

lemma sample_good: "good_path (RootDir # map Normal ns) \<longleftrightarrow> list_all clean_name ns"
  by (auto simp: good_path_def is_absolute_def list_all_iff)


lemma extra_mount_denied:
  assumes "list_all clean_name ns" "g = guest_join (extra_mount i) (map Normal ns)" "trim g = g"
  shows "resolve_guest_path g = Inl (path_denied (RootDir # map Normal (''__extra'' # show_nat i # ns)))"
proof -
  have "components g = RootDir # Normal ''__extra'' # Normal (show_nat i) # map Normal ns"
    using components_extra[OF assms(1) _ show_nat_clean[of i], of "''__extra''"]
    by (simp add: assms(2) guest_join_def extra_mount_def clean_name_def)
  then have "components g = RootDir # map Normal (''__extra'' # show_nat i # ns)" by simp
  from guest_resolves[OF assms(3) _ this] assms(2) show ?thesis by simp
qed

lemma denied_is_recognized: "is_sandbox_permission_denial (path_denied p)"
proof -
  have "to_ascii_lowercase (path_denied p) = ''path denied by sandbox'' @ to_ascii_lowercase
      ('': path='' @ path_text p @ '' workspace=/workspace persona=/persona'')"
    unfolding path_denied_def to_ascii_lowercase_def by (simp add: ascii_lower_def)
  then have "str_contains (to_ascii_lowercase (path_denied p)) ''path denied by sandbox''"
    unfolding str_contains_sublist by (metis sublist_append_rightI append_Nil sublist_appendI)
  then show ?thesis by (simp add: is_sandbox_permission_denial_def Let_def)
qed

text \<open>
  An extra root is never usable: when the host routes a target through one of the
  configured extra directories, the guest's own check refuses the guest path, and the host
  reports the refusal of its own preflight as a denial by the sandbox.
\<close>

theorem extra_root_is_always_denied:
  assumes "classify_file_tool_access cwd p ws persona sandbox cap = Inr (FileSandboxed g dirs)" and "dirs \<noteq> []"
    and "good_path p" "good_path ws" "good_path persona" "absolute_cwd cwd" "trim g = g"
  shows "\<exists>message denial. resolve_guest_path g = Inl message \<and>
    as_sandbox_permission_denied (classify_wasm_tool_error tool g cap 1 message) = Some denial \<and>
    sd_target denial = g"
proof -
  from classify_sandboxed[OF assms(1,3-6)] assms(2) obtain i ns where
    "list_all clean_name ns" "g = guest_join (extra_mount i) (map Normal ns)" by blast
  from extra_mount_denied[OF this assms(7)] denied_is_recognized show ?thesis
    by (simp add: classify_wasm_tool_error_def)
qed

theorem extra_root_is_always_denied_witness:
  "classify_file_tool_access (Inl (IoError [])) [RootDir, Normal ''data'', Normal ''a''] sample_ws sample_persona
     (default_sandbox\<lparr>sx_extra_readable_paths := [''/data'']\<rparr>) CapRead
   = Inr (FileSandboxed ''/__extra/0/a'' [([RootDir, Normal ''data''], ''/__extra/0'')]) \<and>
   (\<exists>message. resolve_guest_path ''/__extra/0/a'' = Inl message)"
proof -
  let ?p = "[RootDir, Normal ''data'', Normal ''a'']"
  have c: "classify_file_tool_access (Inl (IoError [])) ?p sample_ws sample_persona
     (default_sandbox\<lparr>sx_extra_readable_paths := [''/data'']\<rparr>) CapRead
     = Inr (FileSandboxed ''/__extra/0/a'' [([RootDir, Normal ''data''], ''/__extra/0'')])"
    by (simp add: classify_file_tool_access_def normalize_workspace_root_def is_absolute_def
        normalize_absolute_path_def norm_step_def strip_path_def guest_join_def extra_mount_def path_text_def
        find_matching_extra_root_def sandbox_paths_for_capability_def default_sandbox_def components_def
        body_components_def component_of_def show_nat.simps digit_def Let_def)
  have "good_path ?p" "good_path sample_ws" "good_path sample_persona" "absolute_cwd (Inl (IoError []))"
    by (simp_all add: good_path_def is_absolute_def clean_name_def absolute_cwd_def)
  moreover have "trim ''/__extra/0/a'' = ''/__extra/0/a''" by (simp add: str_simps)
  ultimately show ?thesis using extra_root_is_always_denied[OF c] c by blast
qed

end
