(* ===== verification/EditTool.thy ===== *)
theory EditTool
  imports FilePaths
begin

text \<open>
  The edit tool, on the host (\<open>src/tools/builtin/edit.rs\<close>) and in the guest
  (\<open>sandbox/edit_tool/src/main.rs\<close>). A file system maps normalized host paths to contents;
  directories are not represented. A failing system call is an argument: its error text; it is
  taken to leave the files as they were.
\<close>

type_synonym file_system = "path \<rightharpoonup> rstr"

record edit_args =
  ea_file_path :: rstr
  ea_old_string :: rstr
  ea_new_string :: rstr
  ea_replace_all :: bool

record edit_faults =
  ef_create_dir :: "rstr option"
  ef_write :: "rstr option"
  ef_read :: rstr          \<comment> \<open>the error of reading a file that is missing or not text\<close>

section \<open>Line endings\<close>

definition normalize_line_endings :: "rstr \<Rightarrow> rstr" where
  "normalize_line_endings text = str_replace text [CR, NL] [NL]"

definition detect_line_ending :: "rstr \<Rightarrow> rstr" where
  "detect_line_ending text = (if str_contains text [CR, NL] then [CR, NL] else [NL])"

definition convert_to_line_ending :: "rstr \<Rightarrow> rstr \<Rightarrow> rstr" where
  "convert_to_line_ending text ending = (if ending = [NL] then text else str_replace text [NL] [CR, NL])"

section \<open>Applying an edit\<close>

definition read_to_string :: "file_system \<Rightarrow> path \<Rightarrow> rstr option" where
  "read_to_string fs p = (case fs p of Some content \<Rightarrow> if valid_utf8 content then Some content else None | None \<Rightarrow> None)"

definition no_match :: rstr where
  "no_match = ''Could not find oldString in the file. It must match exactly, including whitespace, indentation, and line endings.''"

definition many_matches :: rstr where
  "many_matches = ''Found multiple matches for oldString. Provide more surrounding context to make the match unique.''"

definition edit_ok :: rstr where
  "edit_ok = ''Edit applied successfully.''"

definition parent_dir :: "path \<Rightarrow> path option" where
  "parent_dir p = (if p = [] \<or> last p = RootDir then None else Some (butlast p))"

definition create_parent :: "edit_faults \<Rightarrow> path \<Rightarrow> (path \<times> rstr) option" where
  "create_parent faults p = Option.bind (parent_dir p) (\<lambda>dir. map_option (Pair dir) (ef_create_dir faults))"

text \<open>The host's \<open>apply_edit_at_path\<close>: the file system after it and its result.\<close>

definition apply_edit_at_path :: "edit_faults \<Rightarrow> path \<Rightarrow> edit_args \<Rightarrow> file_system \<Rightarrow> file_system \<times> rstr res" where
  "apply_edit_at_path faults p args fs =
     (if ea_old_string args = [] then
        (case create_parent faults p of
           Some (_, e) \<Rightarrow> (fs, Inl (IoError e))
         | None \<Rightarrow>
             (case ef_write faults of
                Some e \<Rightarrow> (fs, Inl (IoError e))
              | None \<Rightarrow> (fs(p \<mapsto> ea_new_string args), Inr edit_ok)))
      else
        (case read_to_string fs p of
           None \<Rightarrow> (fs, Inl (ToolError (''File '' @ path_text p @ '' not found: '' @ ef_read faults)))
         | Some original \<Rightarrow>
             (let ending = detect_line_ending original;
                  old_string = convert_to_line_ending (normalize_line_endings (ea_old_string args)) ending;
                  new_string = convert_to_line_ending (normalize_line_endings (ea_new_string args)) ending;
                  occurrences = match_count old_string original
              in if occurrences = 0 then (fs, Inl (ToolError no_match))
                 else if occurrences > 1 \<and> \<not> ea_replace_all args then (fs, Inl (ToolError many_matches))
                 else
                   (let updated = (if ea_replace_all args then str_replace original old_string new_string
                                   else str_replacen1 original old_string new_string)
                    in case ef_write faults of
                         Some e \<Rightarrow> (fs, Inl (IoError e))
                       | None \<Rightarrow> (fs(p \<mapsto> updated), Inr edit_ok)))))"

text \<open>The guest's: errors are texts, and \<open>host\<close> says which file of the host a guest path opens.\<close>

definition guest_apply_edit ::
  "(path \<Rightarrow> path) \<Rightarrow> edit_faults \<Rightarrow> path \<Rightarrow> edit_args \<Rightarrow> file_system \<Rightarrow> file_system \<times> (rstr + unit)" where
  "guest_apply_edit host faults p args fs =
     (if ea_old_string args = [] then
        (case create_parent faults p of
           Some (dir, e) \<Rightarrow> (fs, Inl (''failed to create '' @ path_text dir @ '': '' @ e))
         | None \<Rightarrow>
             (case ef_write faults of
                Some e \<Rightarrow> (fs, Inl (''failed to write '' @ path_text p @ '': '' @ e))
              | None \<Rightarrow> (fs(host p \<mapsto> ea_new_string args), Inr ())))
      else
        (case read_to_string fs (host p) of
           None \<Rightarrow> (fs, Inl (''File '' @ path_text p @ '' not found: '' @ ef_read faults))
         | Some original \<Rightarrow>
             (let ending = detect_line_ending original;
                  old_string = convert_to_line_ending (normalize_line_endings (ea_old_string args)) ending;
                  new_string = convert_to_line_ending (normalize_line_endings (ea_new_string args)) ending;
                  occurrences = match_count old_string original
              in if occurrences = 0 then (fs, Inl no_match)
                 else if occurrences > 1 \<and> \<not> ea_replace_all args then (fs, Inl many_matches)
                 else
                   (let updated = (if ea_replace_all args then str_replace original old_string new_string
                                   else str_replacen1 original old_string new_string)
                    in case ef_write faults of
                         Some e \<Rightarrow> (fs, Inl (''failed to write '' @ path_text p @ '': '' @ e))
                       | None \<Rightarrow> (fs(host p \<mapsto> updated), Inr ())))))"

text \<open>The guest's \<open>run\<close> on its arguments: what it prints, or the message it exits with.\<close>

definition guest_edit ::
  "(path \<Rightarrow> path) \<Rightarrow> edit_faults \<Rightarrow> edit_args \<Rightarrow> file_system \<Rightarrow> file_system \<times> (rstr + rstr)" where
  "guest_edit host faults args fs =
     (if trim (ea_file_path args) = [] then (fs, Inl ''edit requires a non-empty filePath'')
      else if ea_old_string args = ea_new_string args
      then (fs, Inl ''No changes to apply: oldString and newString are identical.'')
      else (case resolve_guest_path (ea_file_path args) of
              Inl message \<Rightarrow> (fs, Inl message)
            | Inr p \<Rightarrow> (case guest_apply_edit host faults p args fs of
                          (fs, Inl message) \<Rightarrow> (fs, Inl message)
                        | (fs, Inr _) \<Rightarrow> (fs, Inr edit_ok))))"

section \<open>The tool\<close>

record edit_plan =
  ep_args :: edit_args
  ep_host_path :: path
  ep_route :: file_tool_route

record tool_paths =
  tp_env :: "rstr \<Rightarrow> rstr option"
  tp_cwd :: "path res"
  tp_workspace :: path
  tp_persona :: path

text \<open>\<open>parsed\<close> is the JSON library's reading of the arguments.\<close>

definition edit_plan_of :: "tool_paths \<Rightarrow> tool_sandbox_config \<Rightarrow> rstr + edit_args \<Rightarrow> edit_plan res" where
  "edit_plan_of paths sandbox parsed =
     (case parsed of
        Inl e \<Rightarrow> Inl (ToolError (''edit requires JSON object args: '' @ e))
      | Inr args \<Rightarrow>
          (if trim (ea_file_path args) = [] then Inl (ToolError ''edit requires a non-empty filePath'')
           else if ea_old_string args = ea_new_string args
           then Inl (ToolError ''No changes to apply: oldString and newString are identical.'')
           else rbind (resolve_path_for_read (tp_env paths) (ea_file_path args) (tp_workspace paths)) (\<lambda>host_path.
             rbind (classify_file_tool_access (tp_cwd paths) host_path (tp_workspace paths) (tp_persona paths)
                      sandbox CapWrite) (\<lambda>route.
               Inr \<lparr>ep_args = args, ep_host_path = host_path, ep_route = route\<rparr>))))"

definition edit_direct :: "edit_faults \<Rightarrow> edit_plan \<Rightarrow> file_system \<Rightarrow> file_system \<times> rstr res" where
  "edit_direct faults plan fs = apply_edit_at_path faults (ep_host_path plan) (ep_args plan) fs"

text \<open>\<open>execute_wasm\<close>: the guest gets the guest path, and an exit with a message is classified.\<close>

definition edit_wasm ::
  "(path \<Rightarrow> path) \<Rightarrow> edit_faults \<Rightarrow> edit_plan \<Rightarrow> file_system \<Rightarrow> file_system \<times> rstr res" where
  "edit_wasm host faults plan fs =
     (case ep_route plan of
        FileNeedsApproval _ _ _ \<Rightarrow> (fs, Inl (ToolError ''edit plan is not sandbox-runnable''))
      | FileSandboxed guest_path _ \<Rightarrow>
          (case guest_edit host faults ((ep_args plan)\<lparr>ea_file_path := guest_path\<rparr>) fs of
             (fs, Inl message) \<Rightarrow> (fs, Inl (classify_wasm_tool_error ''edit'' guest_path CapWrite 1 (trim message)))
           | (fs, Inr output) \<Rightarrow> (fs, Inr output)))"

section \<open>The two ways to run an edit agree\<close>

definition host_file :: "path \<Rightarrow> path \<Rightarrow> path \<Rightarrow> path" where
  "host_file ws persona guest = (case guest_to_host ws persona guest of Some p \<Rightarrow> p | None \<Rightarrow> guest)"

lemma create_parent_cong:
  "(p = [] \<or> last p = RootDir) = (q = [] \<or> last q = RootDir) \<Longrightarrow>
   create_parent faults p = None \<longleftrightarrow> create_parent faults q = None"
  by (simp add: create_parent_def parent_dir_def)

lemma guest_apply_host:
  assumes "host p = q" "create_parent faults p = None \<longleftrightarrow> create_parent faults q = None"
  shows "fst (guest_apply_edit host faults p args fs) = fst (apply_edit_at_path faults q args fs)"
    "isl (snd (guest_apply_edit host faults p args fs)) \<longleftrightarrow> isl (snd (apply_edit_at_path faults q args fs))"
  using assms
  by (auto simp: guest_apply_edit_def apply_edit_at_path_def Let_def split: option.splits)

lemma apply_edit_output: "snd (apply_edit_at_path faults p args fs) = Inr out \<Longrightarrow> out = edit_ok"
  by (cases "ea_old_string args = []"; cases "read_to_string fs p"; cases "ef_write faults"; cases "create_parent faults p")
     (auto simp: apply_edit_at_path_def Let_def split: if_splits)

lemma good_join:
  assumes "good_path ws" "\<And>n. Normal n \<in> set p \<Longrightarrow> clean_name n"
  shows "good_path (if is_absolute p then p else path_join ws p)"
  using assms by (auto simp: good_path_def path_join_def is_absolute_def split: list.splits component.splits)

lemma expand_home_names: "expand_home_dir env v = Some p \<Longrightarrow> Normal n \<in> set p \<Longrightarrow> clean_name n"
  by (auto simp: expand_home_dir_def home_dir_def path_join_def dest: components_names
      split: list.splits char.splits if_splits option.splits bool.splits)

lemma resolve_path_clean:
  assumes "good_path ws" "resolve_path_for_read env raw ws = Inr p"
  shows "clean_path p"
proof -
  let ?e = "expand_env_vars env (trim raw)"
  let ?p = "case expand_home_dir env ?e of Some p \<Rightarrow> p | None \<Rightarrow> components ?e"
  have "clean_name n" if "Normal n \<in> set ?p" for n
    using that by (auto split: option.splits dest: components_names expand_home_names)
  from clean_normalize[OF good_join[where p = ?p, OF assms(1) this]] assms(2)
  show ?thesis by (simp add: resolve_path_for_read_def Let_def split: if_splits)
qed

lemma edit_plan_facts:
  assumes "edit_plan_of paths sandbox parsed = Inr plan"
  shows "resolve_path_for_read (tp_env paths) (ea_file_path (ep_args plan)) (tp_workspace paths) = Inr (ep_host_path plan)"
    "classify_file_tool_access (tp_cwd paths) (ep_host_path plan) (tp_workspace paths) (tp_persona paths) sandbox CapWrite
       = Inr (ep_route plan)"
    "ea_old_string (ep_args plan) \<noteq> ea_new_string (ep_args plan)"
  using assms by (auto simp: edit_plan_of_def rbind_eq_Inr split: sum.splits if_splits)

lemma resolve_guest_shape: "resolve_guest_path g = Inr gp \<Longrightarrow> \<exists>m ns. gp = RootDir # map Normal (m # ns)"
proof -
  assume g: "resolve_guest_path g = Inr gp"
  let ?i = "components (trim g)"
  let ?a = "if is_absolute ?i then ?i else path_join (components workspace_mount) ?i"
  have norm: "gp = normalize_absolute_path ?a"
    using g by (auto simp: resolve_guest_path_def Let_def split: if_splits)
  have "is_absolute ?a" by (auto simp: mount_components path_join_def is_absolute_def)
  then obtain ns where ns: "gp = RootDir # map Normal ns" using normalize_absolute norm by metis
  have "ns \<noteq> []"
    using g ns by (auto simp: resolve_guest_path_def Let_def norm[symmetric] strip_path_def mount_components split: if_splits)
  then show ?thesis using ns by (cases ns) auto
qed

lemma last_clean: "clean_path p \<Longrightarrow> p \<noteq> [RootDir] \<Longrightarrow> p \<noteq> [] \<and> last p \<noteq> RootDir"
  by (auto simp: clean_path_def) (metis component.distinct(5) last_map)

lemma guest_edit_host:
  assumes "resolve_guest_path g = Inr gp" "host gp = p" "clean_path p" "p \<noteq> [RootDir]"
    and "trim g \<noteq> []" "ea_old_string args \<noteq> ea_new_string args"
  shows "fst (guest_edit host faults (args\<lparr>ea_file_path := g\<rparr>) fs) = fst (apply_edit_at_path faults p args fs)"
    "snd (guest_edit host faults (args\<lparr>ea_file_path := g\<rparr>) fs) = Inr out \<longleftrightarrow>
     snd (apply_edit_at_path faults p args fs) = Inr out"
proof -
  let ?args = "args\<lparr>ea_file_path := g\<rparr>"
  obtain m ns where gp: "gp = RootDir # map Normal (m # ns)" using resolve_guest_shape[OF assms(1)] by blast
  have "last gp \<noteq> RootDir" by (cases ns rule: rev_cases) (simp_all add: gp)
  then have cong: "create_parent faults gp = None \<longleftrightarrow> create_parent faults p = None"
    using last_clean[OF assms(3,4)] gp by (intro create_parent_cong) simp
  have same: "apply_edit_at_path faults p ?args = apply_edit_at_path faults p args"
  proof -
    have "ea_old_string ?args = ea_old_string args" "ea_new_string ?args = ea_new_string args"
      "ea_replace_all ?args = ea_replace_all args" by simp_all
    then show ?thesis unfolding apply_edit_at_path_def by (simp only:)
  qed
  note host = guest_apply_host[where host = host and args = ?args, OF assms(2) cong, of fs, unfolded same]
  have run: "guest_edit host faults ?args fs =
      (case guest_apply_edit host faults gp ?args fs of (fs, Inl message) \<Rightarrow> (fs, Inl message) | (fs, Inr _) \<Rightarrow> (fs, Inr edit_ok))"
    using assms(1,5,6) by (simp add: guest_edit_def)
  obtain fs' r where e: "guest_apply_edit host faults gp ?args fs = (fs', r)" by force
  show "fst (guest_edit host faults ?args fs) = fst (apply_edit_at_path faults p args fs)"
    using host(1) run by (simp add: e split: sum.splits)
  show "snd (guest_edit host faults ?args fs) = Inr out \<longleftrightarrow> snd (apply_edit_at_path faults p args fs) = Inr out"
    using host(2) run apply_edit_output[of faults p args fs]
    by (cases r; cases "snd (apply_edit_at_path faults p args fs)") (auto simp: e)
qed


abbreviation sample_edit :: edit_args where
  "sample_edit \<equiv> \<lparr>ea_file_path = ''a'', ea_old_string = ''x'', ea_new_string = ''y'', ea_replace_all = False\<rparr>"

abbreviation sample_paths :: tool_paths where
  "sample_paths \<equiv> \<lparr>tp_env = (\<lambda>_. None), tp_cwd = Inl (IoError []), tp_workspace = sample_ws, tp_persona = sample_persona\<rparr>"


end
