(* ===== verification/ToolArgs.thy ===== *)
theory ToolArgs
  imports AsyncRuns
begin

text \<open>
  \<open>src/tools/builtin/common.rs\<close>: how the built-in tools read their arguments and render their
  results. The JSON library is external: its \<open>Value\<close> is the datatype below (a float only as its
  text, which the code modelled here never reads), and its parser is an argument that gives
  \<open>None\<close> for a text it rejects. Integers outside the 64-bit ranges are floats for the parser.
\<close>

section \<open>JSON values\<close>

datatype json =
    JNull
  | JBool bool
  | JInt int
  | JFloat rstr
  | JStr rstr
  | JArr "json list"
  | JObj "(rstr \<times> json) list"

fun json_get :: "rstr \<Rightarrow> json \<Rightarrow> json option" where
  "json_get key (JObj members) = map_of members key"
| "json_get key _ = None"

fun as_str :: "json \<Rightarrow> rstr option" where
  "as_str (JStr s) = Some s"
| "as_str _ = None"

fun as_bool :: "json \<Rightarrow> bool option" where
  "as_bool (JBool b) = Some b"
| "as_bool _ = None"

fun as_u64 :: "json \<Rightarrow> nat option" where
  "as_u64 (JInt i) = (if 0 \<le> i then Some (nat i) else None)"
| "as_u64 _ = None"

fun as_array :: "json \<Rightarrow> json list option" where
  "as_array (JArr items) = Some items"
| "as_array _ = None"

definition or_else :: "'a option \<Rightarrow> 'a option \<Rightarrow> 'a option" where
  "or_else a b = (case a of Some x \<Rightarrow> Some x | None \<Rightarrow> b)"

definition unwrap_or :: "'a \<Rightarrow> 'a option \<Rightarrow> 'a" where
  "unwrap_or d a = (case a of Some x \<Rightarrow> x | None \<Rightarrow> d)"

definition str_field :: "rstr \<Rightarrow> json \<Rightarrow> rstr option" where
  "str_field key value = Option.bind (json_get key value) as_str"

definition bool_field :: "rstr \<Rightarrow> json \<Rightarrow> bool option" where
  "bool_field key value = Option.bind (json_get key value) as_bool"

definition u64_field :: "rstr \<Rightarrow> json \<Rightarrow> nat option" where
  "u64_field key value = Option.bind (json_get key value) as_u64"

definition clamp :: "nat \<Rightarrow> nat \<Rightarrow> nat \<Rightarrow> nat" where
  "clamp lo hi x = (if x < lo then lo else if hi < x then hi else x)"

lemma clamp_bounds: "lo \<le> hi \<Longrightarrow> lo \<le> clamp lo hi x \<and> clamp lo hi x \<le> hi"
  by (simp add: clamp_def)

lemmas json_simps = str_field_def bool_field_def u64_field_def or_else_def unwrap_or_def

definition trim_quotes :: "rstr \<Rightarrow> rstr" where
  "trim_quotes s = rev (dropWhile (\<lambda>c. c = DQ) (rev (dropWhile (\<lambda>c. c = DQ) s)))"

section \<open>Arguments\<close>

type_synonym json_parser = "rstr \<Rightarrow> json option"

definition parse_simple_text_arg :: "json_parser \<Rightarrow> rstr \<Rightarrow> rstr" where
  "parse_simple_text_arg from_str args_json =
     (let found = (case from_str args_json of
          Some value \<Rightarrow>
            or_else (as_str value) (or_else (str_field ''query'' value)
              (or_else (str_field ''url'' value) (str_field ''path'' value)))
        | None \<Rightarrow> None)
      in unwrap_or (trim_quotes args_json) found)"

datatype memory_action =
    MemQuery rstr "nat option" "rstr option"
  | MemList "rstr option" nat

definition trimmed_field :: "rstr \<Rightarrow> json \<Rightarrow> rstr option" where
  "trimmed_field key value = Option.bind (str_field key value) non_empty_trim"

definition parse_memory_args :: "json_parser \<Rightarrow> rstr \<Rightarrow> memory_action" where
  "parse_memory_args from_str args_json =
     (let raw = MemQuery (trim_quotes args_json) None None
      in case from_str args_json of
           None \<Rightarrow> raw
         | Some value \<Rightarrow>
             (let action = unwrap_or ''query'' (str_field ''action'' value)
              in if action = ''list''
                 then MemList (trimmed_field ''kind'' value) (unwrap_or 20 (u64_field ''limit'' value))
                 else (case str_field ''query'' value of
                         Some query \<Rightarrow> MemQuery query (u64_field ''top_k'' value) (trimmed_field ''store'' value)
                       | None \<Rightarrow> (case as_str value of Some s \<Rightarrow> MemQuery s None None | None \<Rightarrow> raw))))"

record summon_args =
  sa_agent :: rstr
  sa_summary :: rstr
  sa_background :: bool

definition parse_summon_args :: "json_parser \<Rightarrow> rstr \<Rightarrow> summon_args" where
  "parse_summon_args from_str args_json =
     (let plain = (\<lambda>agent. \<lparr>sa_agent = agent, sa_summary = [], sa_background = False\<rparr>)
      in case from_str args_json of
           None \<Rightarrow> plain (trim_quotes args_json)
         | Some value \<Rightarrow>
             (case str_field ''agent'' value of
                Some agent \<Rightarrow> \<lparr>sa_agent = agent, sa_summary = unwrap_or [] (str_field ''summary'' value),
                  sa_background = unwrap_or False (bool_field ''background'' value)\<rparr>
              | None \<Rightarrow> plain (unwrap_or (trim_quotes args_json) (as_str value))))"

record task_args =
  ta_prompt :: rstr
  ta_background :: bool

definition parse_task_args :: "json_parser \<Rightarrow> rstr \<Rightarrow> task_args" where
  "parse_task_args from_str args_json =
     (let plain = (\<lambda>prompt. \<lparr>ta_prompt = prompt, ta_background = False\<rparr>)
      in case from_str args_json of
           None \<Rightarrow> plain (trim_quotes args_json)
         | Some value \<Rightarrow>
             (case str_field ''prompt'' value of
                Some prompt \<Rightarrow> \<lparr>ta_prompt = prompt,
                  ta_background = unwrap_or False (bool_field ''background'' value)\<rparr>
              | None \<Rightarrow> plain (unwrap_or (trim_quotes args_json) (as_str value))))"

definition parse_react_args :: "json_parser \<Rightarrow> rstr \<Rightarrow> rstr" where
  "parse_react_args from_str args_json =
     unwrap_or (trim_quotes args_json)
       (Option.bind (from_str args_json) (\<lambda>value. or_else (str_field ''emoji'' value) (as_str value)))"

definition parse_memorize_args :: "json_parser \<Rightarrow> rstr \<Rightarrow> rstr \<times> rstr \<times> nat" where
  "parse_memorize_args from_str args_json =
     (case from_str args_json of
        None \<Rightarrow> (trim_quotes args_json, ''general'', 3)
      | Some value \<Rightarrow>
          (case str_field ''fact'' value of
             Some remembered \<Rightarrow> (remembered, unwrap_or ''general'' (str_field ''kind'' value),
               clamp 1 5 (unwrap_or 3 (u64_field ''importance'' value)))
           | None \<Rightarrow> (unwrap_or (trim_quotes args_json) (as_str value), ''general'', 3)))"

record exec_args =
  xa_command :: rstr
  xa_background :: bool
  xa_workdir :: "rstr option"

definition parse_exec_args :: "json_parser \<Rightarrow> rstr \<Rightarrow> exec_args" where
  "parse_exec_args from_str args_json =
     (let plain = (\<lambda>command. \<lparr>xa_command = command, xa_background = False, xa_workdir = None\<rparr>)
      in case from_str args_json of
           None \<Rightarrow> plain (trim_quotes args_json)
         | Some value \<Rightarrow>
             (case str_field ''command'' value of
                Some command \<Rightarrow> \<lparr>xa_command = command,
                  xa_background = unwrap_or False (bool_field ''background'' value),
                  xa_workdir = Option.bind (or_else (json_get ''workdir'' value) (json_get ''cwd'' value)) as_str\<rparr>
              | None \<Rightarrow> plain (unwrap_or (trim_quotes args_json) (as_str value))))"

record background_args =
  ba_action :: rstr
  ba_run_id :: "rstr option"

definition parse_background_args :: "json_parser \<Rightarrow> rstr \<Rightarrow> background_args" where
  "parse_background_args from_str args_json =
     (case from_str args_json of
        None \<Rightarrow> \<lparr>ba_action = ''list'', ba_run_id = None\<rparr>
      | Some value \<Rightarrow> \<lparr>ba_action = unwrap_or ''list'' (str_field ''action'' value),
          ba_run_id = Option.bind (or_else (json_get ''run_id'' value) (json_get ''runId'' value)) as_str\<rparr>)"

record wait_args =
  wa_run_ids :: "rstr list"
  wa_timeout_ms :: nat

definition parse_wait_args :: "json_parser \<Rightarrow> rstr \<Rightarrow> wait_args" where
  "parse_wait_args from_str args_json =
     (case from_str args_json of
        None \<Rightarrow> \<lparr>wa_run_ids = [], wa_timeout_ms = 30000\<rparr>
      | Some value \<Rightarrow>
          \<lparr>wa_run_ids = unwrap_or [] (map_option (List.map_filter as_str)
             (Option.bind (or_else (json_get ''run_ids'' value) (json_get ''runIds'' value)) as_array)),
           wa_timeout_ms = clamp 1 120000 (unwrap_or 30000
             (Option.bind (or_else (json_get ''timeout_ms'' value) (json_get ''timeoutMs'' value)) as_u64))\<rparr>)"

section \<open>Results\<close>

definition truncate_for_tool_output :: "rstr \<Rightarrow> nat \<Rightarrow> rstr" where
  "truncate_for_tool_output text max_chars =
     (let total = char_count text
      in if total \<le> max_chars then text
         else
           (let head_budget = max_chars div 5;
                tail_budget = max_chars - head_budget;
                head = take_chars head_budget text;
                tail = drop_chars (total - tail_budget) text;
                truncated = total - head_budget - tail_budget
            in head @ NL # ''...['' @ show_nat truncated @ '' chars truncated]...'' @ NL # tail))"

definition command_output_to_json :: "int \<Rightarrow> rstr \<Rightarrow> rstr \<Rightarrow> json" where
  "command_output_to_json exit_code stdout stderr =
     JObj [(''status'', JStr ''completed''), (''exitCode'', JInt exit_code),
           (''stdout'', JStr (truncate_for_tool_output stdout 8000)),
           (''stderr'', JStr (truncate_for_tool_output stderr 4000))]"

definition json_opt :: "('a \<Rightarrow> json) \<Rightarrow> 'a option \<Rightarrow> json" where
  "json_opt f a = (case a of Some x \<Rightarrow> f x | None \<Rightarrow> JNull)"

text \<open>\<open>rfc3339\<close> prints a time stamp.\<close>

definition snapshot_to_json :: "(int \<Rightarrow> rstr) \<Rightarrow> run_snapshot \<Rightarrow> json" where
  "snapshot_to_json rfc3339 s =
     (let details = (case rs_details s of
          ProcessDetails command pid exit_code stdout stderr \<Rightarrow>
            JObj [(''command'', JStr command), (''pid'', json_opt JInt pid), (''exitCode'', json_opt JInt exit_code),
                  (''stdout'', JStr (truncate_for_tool_output (trim stdout) 8000)),
                  (''stderr'', JStr (truncate_for_tool_output (trim stderr) 4000))]
        | DelegatedDetails request reply err \<Rightarrow>
            JObj [(''request'', JStr request), (''reply'', json_opt JStr reply), (''error'', json_opt JStr err)])
      in JObj [(''status'', JStr (if rs_status s = Running then ''running'' else run_status_as_str (rs_status s))),
               (''runId'', JStr (rs_run_id s)), (''tool'', JStr (rs_tool_name s)),
               (''kind'', JStr (run_kind_as_str (rs_kind s))), (''summary'', JStr (rs_summary s)),
               (''startedAt'', JStr (rfc3339 (rs_started_at s))),
               (''finishedAt'', json_opt (JStr \<circ> rfc3339) (rs_finished_at s)), (''details'', details)])"

text \<open>\<open>async_tool_manager.rs\<close>: what a tool call answers when it started a run; \<open>render\<close> prints a value.\<close>

definition accepted_output :: "(json \<Rightarrow> rstr) \<Rightarrow> started_run \<Rightarrow> rstr" where
  "accepted_output render self =
     render (JObj [(''status'', JStr ''accepted''), (''runId'', JStr (st_run_id self)),
       (''tool'', JStr (st_tool_name self)), (''kind'', JStr (run_kind_as_str (st_kind self)))])"

section \<open>Lemmas\<close>

lemma wait_args_timeout: "1 \<le> wa_timeout_ms (parse_wait_args p a) \<and> wa_timeout_ms (parse_wait_args p a) \<le> 120000"
  using clamp_bounds[of 1 120000] by (simp add: parse_wait_args_def split: option.splits)

text \<open>A truncated output keeps the first fifth of the budget and the rest from the end, cut at characters.\<close>

lemma truncate_keeps:
  assumes "max_chars < char_count text"
  shows "\<exists>head middle tail. text = head @ middle @ tail \<and> head = take_chars (max_chars div 5) text \<and>
    char_count text = max_chars div 5 + length (drop (char_count text - (max_chars - max_chars div 5)) (chars text))
      + (char_count text - max_chars) \<and>
    truncate_for_tool_output text max_chars =
      head @ NL # ''...['' @ show_nat (char_count text - max_chars) @ '' chars truncated]...'' @ NL # tail"
proof -
  let ?h = "max_chars div 5" let ?t = "max_chars - max_chars div 5" let ?n = "char_count text"
  have le: "?h \<le> max_chars" by simp
  have drop: "?n - ?t = ?h + (?n - max_chars)" using assms le by linarith
  have parts: "xs = take h xs @ take k (drop h xs) @ drop (h + k) xs" for h k :: nat and xs :: "rstr list"
  proof -
    have "drop (h + k) xs = drop k (drop h xs)" by (simp add: add.commute)
    then show ?thesis by (simp only: append_take_drop_id)
  qed
  have "text = concat (chars text)" by (rule concat_chars[symmetric])
  also have "\<dots> = concat (take ?h (chars text) @ take (?n - max_chars) (drop ?h (chars text)) @ drop (?n - ?t) (chars text))"
    unfolding drop by (rule arg_cong[of _ _ concat], rule parts)
  finally have "text = concat (take ?h (chars text)) @ concat (take (?n - max_chars) (drop ?h (chars text))) @
      concat (drop (?n - ?t) (chars text))" by (simp only: concat_append)
  then have "text = take_chars ?h text @ concat (take (?n - max_chars) (drop ?h (chars text))) @ drop_chars (?n - ?t) text"
    unfolding take_chars_def drop_chars_def .
  moreover have "length (drop (?n - ?t) (chars text)) = ?n - (?n - ?t)" by (simp only: length_drop char_count_def)
  then have "?n = ?h + length (drop (?n - ?t) (chars text)) + (?n - max_chars)" using assms le by linarith
  moreover have "?n - ?h - ?t = ?n - max_chars" using le by linarith
  then have "truncate_for_tool_output text max_chars = take_chars ?h text @ NL # ''...['' @
      show_nat (?n - max_chars) @ '' chars truncated]...'' @ NL # drop_chars (?n - ?t) text"
    using assms unfolding truncate_for_tool_output_def Let_def by simp
  ultimately show ?thesis by blast
qed

end
