(* ===== verification/ExecPolicy.thy ===== *)
theory ExecPolicy
  imports FilePaths ToolArgs
begin

text \<open>
  \<open>src/tools/builtin/exec.rs\<close>: the shell tool. Its preflight reads a command line as words and
  operators and decides whether it may run in the sandbox or needs an approval. What the file
  system says about a path is an argument.
\<close>

section \<open>Tokens\<close>

datatype shell_token_kind = WordToken | OperatorToken

record shell_token =
  tk_kind :: shell_token_kind
  tk_text :: rstr

definition push_word_token :: "shell_token list \<Rightarrow> rstr \<Rightarrow> shell_token list" where
  "push_word_token tokens current =
     (if current = [] then tokens else tokens @ [\<lparr>tk_kind = WordToken, tk_text = current\<rparr>])"

definition operator_chars :: "rstr list" where
  "operator_chars = [''&'', ''|'', '';'', ''>'', ''<'']"

definition push_operator :: "shell_token list \<Rightarrow> rstr \<Rightarrow> rstr \<Rightarrow> shell_token list" where
  "push_operator tokens current operator =
     push_word_token tokens current @ [\<lparr>tk_kind = OperatorToken, tk_text = operator\<rparr>]"

text \<open>The loop of \<open>tokenize_shell_command\<close> over the remaining characters.\<close>

fun tokenize ::
  "bool \<Rightarrow> bool \<Rightarrow> rstr \<Rightarrow> shell_token list \<Rightarrow> rstr list \<Rightarrow> shell_token list option" where
  "tokenize in_single in_double current tokens [] =
     (if in_single \<or> in_double then None else Some (push_word_token tokens current))"
| "tokenize in_single in_double current tokens (ch # rest) =
     (if in_single then
        (if ch = [SQ] then tokenize False in_double current tokens rest
         else tokenize in_single in_double (current @ ch) tokens rest)
      else if in_double then
        (if ch = [DQ] then tokenize in_single False current tokens rest
         else if ch = [BSL] then
           (case rest of
              [] \<Rightarrow> tokenize in_single in_double current tokens []
            | next # rest' \<Rightarrow> tokenize in_single in_double (current @ next) tokens rest')
         else tokenize in_single in_double (current @ ch) tokens rest)
      else if ch = [SQ] then tokenize True in_double current tokens rest
      else if ch = [DQ] then tokenize in_single True current tokens rest
      else if ch = [BSL] then
        (case rest of
           [] \<Rightarrow> tokenize in_single in_double current tokens []
         | next # rest' \<Rightarrow> tokenize in_single in_double (current @ next) tokens rest')
      else if ch = '' '' \<or> ch = [TAB] \<or> ch = [NL]
      then tokenize in_single in_double [] (push_word_token tokens current) rest
      else if ch \<in> set operator_chars then
        (case rest of
           [] \<Rightarrow> tokenize in_single in_double [] (push_operator tokens current ch) []
         | next # rest' \<Rightarrow>
             (if next = ch \<and> ch \<noteq> '';''
              then tokenize in_single in_double [] (push_operator tokens current (ch @ next)) rest'
              else tokenize in_single in_double [] (push_operator tokens current ch) rest))
      else tokenize in_single in_double (current @ ch) tokens rest)"

definition tokenize_shell_command :: "rstr \<Rightarrow> shell_token list option" where
  "tokenize_shell_command command = tokenize False False [] [] (chars command)"

section \<open>Segments and their commands\<close>

definition is_command_separator :: "rstr \<Rightarrow> bool" where
  "is_command_separator token \<longleftrightarrow> token \<in> set [''&&'', ''||'', '';'', ''|'']"

definition is_redirection_operator :: "rstr \<Rightarrow> bool" where
  "is_redirection_operator token \<longleftrightarrow> token \<in> set [''>'', ''>>'', ''1>'', ''1>>'', ''2>'', ''2>>'']"

fun split_segments :: "shell_token list \<Rightarrow> shell_token list \<Rightarrow> shell_token list list" where
  "split_segments current [] = (if current = [] then [] else [current])"
| "split_segments current (token # tokens) =
     (if is_command_separator (tk_text token)
      then (if current = [] then [] else [current]) @ split_segments [] tokens
      else split_segments (current @ [token]) tokens)"

definition split_shell_segments :: "shell_token list \<Rightarrow> shell_token list list" where
  "split_shell_segments tokens = split_segments [] tokens"

definition next_word :: "shell_token list \<Rightarrow> nat \<Rightarrow> rstr option" where
  "next_word tokens start = map_option tk_text (find (\<lambda>t. tk_kind t = WordToken) (drop start tokens))"

definition is_env_assignment :: "rstr \<Rightarrow> bool" where
  "is_env_assignment token \<longleftrightarrow> CHR ''='' \<in> set token \<and> hd token \<noteq> CHR ''=''"

definition segment_command_name :: "shell_token list \<Rightarrow> rstr option" where
  "segment_command_name tokens =
     map_option tk_text (find (\<lambda>t. tk_kind t = WordToken \<and> \<not> is_env_assignment (tk_text t)) tokens)"

definition is_flag :: "rstr \<Rightarrow> bool" where
  "is_flag token \<longleftrightarrow> prefix ''-'' token"

definition non_flag_word_indexes :: "shell_token list \<Rightarrow> nat \<Rightarrow> nat list" where
  "non_flag_word_indexes tokens start =
     filter (\<lambda>i. tk_kind (tokens ! i) = WordToken \<and> \<not> is_flag (tk_text (tokens ! i))) [start..<length tokens]"

fun position :: "('a \<Rightarrow> bool) \<Rightarrow> 'a list \<Rightarrow> nat option" where
  "position P [] = None"
| "position P (x # xs) = (if P x then Some 0 else map_option Suc (position P xs))"

definition write_target_indexes :: "rstr \<Rightarrow> shell_token list \<Rightarrow> nat list" where
  "write_target_indexes command_name tokens =
     (case position (\<lambda>t. tk_kind t = WordToken \<and> tk_text t = command_name) tokens of
        None \<Rightarrow> []
      | Some command_index \<Rightarrow>
          (let words = non_flag_word_indexes tokens (command_index + 1)
           in if command_name \<in> set [''touch'', ''mkdir'', ''rm'', ''rmdir'', ''truncate''] then words
              else if command_name \<in> set [''cp'', ''mv'', ''install'']
              then (if words = [] then [] else [last words])
              else if command_name = ''ln'' then (if 2 \<le> length words then [last words] else [])
              else if command_name = ''tee'' then words
              else []))"

section \<open>Shell features the preflight does not follow\<close>

text \<open>
  The regular expression of \<open>dynamic_shell_c_regex\<close>: at the start of the command, or after one
  of \<open>; & |\<close> and white space, a shell called with \<open>-c\<close> and a quoted text in whose line a dollar
  sign and a letter, an underscore or a brace follow.
\<close>

definition dollar_name_start :: "rstr \<Rightarrow> bool" where
  "dollar_name_start ch \<longleftrightarrow> (case ch of [c] \<Rightarrow> is_ascii_alpha c \<or> c = CHR ''_'' \<or> c = CHR ''{'' | _ \<Rightarrow> False)"

fun line_expands :: "rstr list \<Rightarrow> bool" where
  "line_expands (a # b # cs) \<longleftrightarrow>
     (a = ''$'' \<and> dollar_name_start b) \<or> (a \<noteq> [NL] \<and> line_expands (b # cs))"
| "line_expands _ \<longleftrightarrow> False"

definition after_ws :: "rstr list \<Rightarrow> rstr list option" where
  "after_ws cs = (case cs of [] \<Rightarrow> None | c # cs' \<Rightarrow> if is_ws c then Some (dropWhile is_ws cs') else None)"

definition after_word :: "rstr \<Rightarrow> rstr list \<Rightarrow> rstr list option" where
  "after_word w cs = (if take (length w) cs = map (\<lambda>c. [c]) w then Some (drop (length w) cs) else None)"

definition dynamic_shell_call :: "rstr list \<Rightarrow> rstr \<Rightarrow> bool" where
  "dynamic_shell_call cs shell =
     (case Option.bind (after_word shell cs) (\<lambda>cs. Option.bind (after_ws cs) (\<lambda>cs.
             Option.bind (after_word ''-c'' cs) after_ws)) of
        Some (q # cs) \<Rightarrow> (q = [DQ] \<or> q = [SQ]) \<and> line_expands cs
      | _ \<Rightarrow> False)"

definition dynamic_shell_at :: "rstr list \<Rightarrow> bool" where
  "dynamic_shell_at cs \<longleftrightarrow> list_ex (dynamic_shell_call cs) [''bash'', ''sh'', ''zsh'']"

fun dynamic_shell_after :: "rstr list \<Rightarrow> bool" where
  "dynamic_shell_after [] \<longleftrightarrow> False"
| "dynamic_shell_after (c # cs) \<longleftrightarrow>
     (c \<in> set ['';'', ''&'', ''|''] \<and> dynamic_shell_at (dropWhile is_ws cs)) \<or> dynamic_shell_after cs"

definition dynamic_shell_c :: "rstr \<Rightarrow> bool" where
  "dynamic_shell_c command \<longleftrightarrow> dynamic_shell_at (chars command) \<or> dynamic_shell_after (chars command)"

definition command_uses_ambiguous_shell_features :: "rstr \<Rightarrow> bool" where
  "command_uses_ambiguous_shell_features command =
     (let lowered = to_ascii_lowercase command
      in str_contains lowered ''eval '' \<or> prefix (''eval'' @ [TAB]) lowered \<or> str_contains lowered [CHR 0x60] \<or>
         str_contains lowered ''$('' \<or> str_contains lowered ''<('' \<or> str_contains lowered ''>('' \<or>
         str_contains lowered ''<<'' \<or> dynamic_shell_c command)"

definition is_network_tool :: "rstr \<Rightarrow> bool" where
  "is_network_tool command_name \<longleftrightarrow> command_name \<in> set [''curl'', ''wget'', ''nc'', ''ncat'', ''netcat'', ''ssh'', ''scp'',
     ''rsync'', ''ftp'', ''sftp'', ''dig'', ''nslookup'', ''ping'']"

section \<open>Write targets\<close>

record path_host =
  ph_env :: "rstr \<Rightarrow> rstr option"
  ph_exists :: "path \<Rightarrow> bool"
  ph_is_dir :: "path \<Rightarrow> bool"
  ph_canonicalize :: "path \<Rightarrow> rstr + path"

definition canonicalize_existing_path :: "path_host \<Rightarrow> path \<Rightarrow> path res" where
  "canonicalize_existing_path host p =
     (case ph_canonicalize host p of
        Inl e \<Rightarrow> Inl (ToolError (''failed to canonicalize '' @ path_text p @ '': '' @ e))
      | Inr q \<Rightarrow> Inr q)"

definition file_name :: "path \<Rightarrow> rstr option" where
  "file_name p = (if p = [] then None else (case last p of Normal n \<Rightarrow> Some n | _ \<Rightarrow> None))"

function existing_ancestor :: "path_host \<Rightarrow> path \<Rightarrow> rstr list \<Rightarrow> path \<times> rstr list" where
  "existing_ancestor host current pushed =
     (if ph_exists host current then (current, pushed)
      else (case file_name current of
              None \<Rightarrow> (current, pushed)
            | Some name \<Rightarrow> existing_ancestor host (butlast current) (pushed @ [name])))"
  by pat_completeness auto
termination
  by (relation "measure (\<lambda>(host, current, pushed). length current)") (auto simp: file_name_def split: if_splits)

declare existing_ancestor.simps [simp del]

definition canonicalize_with_existing_ancestor :: "path_host \<Rightarrow> path \<Rightarrow> path res" where
  "canonicalize_with_existing_ancestor host p =
     (if ph_exists host p then canonicalize_existing_path host p
      else (case existing_ancestor host p [] of
              (current, pushed) \<Rightarrow>
                rbind (canonicalize_existing_path host current) (\<lambda>resolved.
                  Inr (resolved @ map Normal (rev pushed)))))"

definition resolve_exec_path :: "path_host \<Rightarrow> rstr \<Rightarrow> path \<Rightarrow> path res" where
  "resolve_exec_path host raw_path workdir =
     rbind (resolve_path_for_read (ph_env host) raw_path workdir) (canonicalize_with_existing_ancestor host)"

definition allowed_write_roots :: "path_host \<Rightarrow> path \<Rightarrow> exec_tool_config \<Rightarrow> path list res" where
  "allowed_write_roots host workdir config =
     rbind (canonicalize_existing_path host workdir) (\<lambda>w.
     rbind (canonicalize_existing_path host (components ''/tmp'')) (\<lambda>tmp.
     rbind (rtraverse (\<lambda>root. resolve_exec_path host root workdir)
              (sx_extra_writable_paths (tc_sandbox config))) (\<lambda>extra.
       Inr (w # tmp # extra))))"

definition render_allowed_roots :: "path list \<Rightarrow> rstr" where
  "render_allowed_roots roots = join '', '' (map path_text roots)"

datatype exec_route =
    ExecSandboxed
  | ExecNeedsApproval sandbox_capability rstr rstr

definition glob_target :: "rstr \<Rightarrow> bool" where
  "glob_target raw_target \<longleftrightarrow> CHR ''*'' \<in> set raw_target \<or> CHR ''?'' \<in> set raw_target \<or> CHR ''['' \<in> set raw_target"

definition classify_write_target :: "path_host \<Rightarrow> rstr \<Rightarrow> path \<Rightarrow> path list \<Rightarrow> exec_route option res" where
  "classify_write_target host raw_target workdir allowed_roots =
     (if glob_target raw_target
      then Inr (Some (ExecNeedsApproval CapWrite raw_target
             ''write target uses glob expansion that preflight cannot verify safely''))
      else rbind (resolve_exec_path host raw_target workdir) (\<lambda>resolved.
        if list_ex (\<lambda>root. prefix root resolved) allowed_roots then Inr None
        else Inr (Some (ExecNeedsApproval CapWrite (path_text resolved)
               (''write target is outside the configured exec sandbox roots: '' @ render_allowed_roots allowed_roots)))))"

text \<open>A loop that stops at the first error or at the first answer.\<close>

fun first_answer :: "('a \<Rightarrow> 'b option res) \<Rightarrow> 'a list \<Rightarrow> 'b option res" where
  "first_answer f [] = Inr None"
| "first_answer f (x # xs) =
     (case f x of Inl e \<Rightarrow> Inl e | Inr (Some r) \<Rightarrow> Inr (Some r) | Inr None \<Rightarrow> first_answer f xs)"

definition classify_redirection :: "path_host \<Rightarrow> path \<Rightarrow> path list \<Rightarrow> shell_token list \<Rightarrow> nat \<Rightarrow> exec_route option res" where
  "classify_redirection host workdir allowed_roots tokens index =
     (if \<not> is_redirection_operator (tk_text (tokens ! index)) then Inr None
      else (case next_word tokens (index + 1) of
              None \<Rightarrow> Inr (Some (ExecNeedsApproval CapWrite (tk_text (tokens ! index))
                        ''shell redirection target could not be resolved safely''))
            | Some target \<Rightarrow> classify_write_target host target workdir allowed_roots))"

definition classify_target_index :: "path_host \<Rightarrow> path \<Rightarrow> path list \<Rightarrow> shell_token list \<Rightarrow> nat \<Rightarrow> exec_route option res" where
  "classify_target_index host workdir allowed_roots tokens index =
     (if index \<ge> length tokens \<or> tk_kind (tokens ! index) \<noteq> WordToken \<or> tk_text (tokens ! index) = ''-'' then Inr None
      else classify_write_target host (tk_text (tokens ! index)) workdir allowed_roots)"

definition high_risk :: "rstr \<Rightarrow> bool" where
  "high_risk command_name \<longleftrightarrow> command_name \<in> set [''chmod'', ''chown'', ''mount'', ''umount'']"

definition classify_segment_write_access :: "path_host \<Rightarrow> path \<Rightarrow> path list \<Rightarrow> shell_token list \<Rightarrow> exec_route option res" where
  "classify_segment_write_access host workdir allowed_roots tokens =
     (case first_answer (classify_redirection host workdir allowed_roots tokens) [0..<length tokens] of
        Inl e \<Rightarrow> Inl e
      | Inr (Some route) \<Rightarrow> Inr (Some route)
      | Inr None \<Rightarrow>
          (case segment_command_name tokens of
             None \<Rightarrow> Inr None
           | Some command_name \<Rightarrow>
               (if high_risk command_name
                then Inr (Some (ExecNeedsApproval CapExec command_name
                       (command_name @ '' is treated as a high-risk exec operation'')))
                else first_answer (classify_target_index host workdir allowed_roots tokens)
                       (write_target_indexes command_name tokens))))"

definition network_enabled :: "exec_tool_config \<Rightarrow> bool" where
  "network_enabled config = (case sx_network_enabled (tc_sandbox config) of Some b \<Rightarrow> b | None \<Rightarrow> False)"

definition uses_network :: "shell_token list \<Rightarrow> bool" where
  "uses_network tokens \<longleftrightarrow> list_ex (\<lambda>t. tk_kind t = WordToken \<and> is_network_tool (tk_text t)) tokens"

definition classify_exec_command_access :: "path_host \<Rightarrow> rstr \<Rightarrow> path \<Rightarrow> exec_tool_config \<Rightarrow> exec_route res" where
  "classify_exec_command_access host command workdir config =
     (if command_uses_ambiguous_shell_features command
      then Inr (ExecNeedsApproval CapExec command ''command uses shell features that preflight cannot verify safely'')
      else
        (let tokens = (case tokenize_shell_command command of Some ts \<Rightarrow> ts | None \<Rightarrow> [])
         in if tokens = []
            then Inr (ExecNeedsApproval CapExec command ''command could not be parsed safely during exec preflight'')
            else if \<not> network_enabled config \<and> uses_network tokens
            then Inr (ExecNeedsApproval CapNetwork command
                   ''command appears to use network tooling outside the default exec sandbox policy'')
            else rbind (allowed_write_roots host workdir config) (\<lambda>allowed_roots.
              rbind (first_answer (classify_segment_write_access host workdir allowed_roots)
                       (split_shell_segments tokens)) (\<lambda>answer.
                case answer of Some route \<Rightarrow> Inr route | None \<Rightarrow> Inr ExecSandboxed))))"

section \<open>The tool\<close>

text \<open>What a tool call sees beside the authorization data: \<open>ToolExecEnv\<close>.\<close>

record tool_env = exec_env +
  te_vars :: "(rstr \<times> rstr) list"
  te_persona_root :: path
  te_workspace_root :: path
  te_allow_async_tools :: bool
  te_gateway :: bool
  te_has_tx :: bool
  te_route :: "completion_route option"

record sandbox_policy =
  sp_network_enabled :: bool
  sp_extra_writable_paths :: "rstr list"

definition sandbox_policy_of :: "exec_tool_config \<Rightarrow> sandbox_policy" where
  "sandbox_policy_of config = \<lparr>sp_network_enabled = network_enabled config,
     sp_extra_writable_paths = sx_extra_writable_paths (tc_sandbox config)\<rparr>"

record exec_plan =
  xp_command :: rstr
  xp_background :: bool
  xp_timeout_seconds :: nat
  xp_env :: "(rstr \<times> rstr) list"
  xp_workdir :: path
  xp_route :: exec_route

definition no_async_tools :: framework_error where
  "no_async_tools = ToolError ''background async tools are not allowed in delegated runs''"

definition exec_plan_of :: "json_parser \<Rightarrow> path_host \<Rightarrow> exec_tool_config \<Rightarrow> tool_env \<Rightarrow> rstr \<Rightarrow> exec_plan res" where
  "exec_plan_of from_str host config ctx args_json =
     (let args = parse_exec_args from_str args_json; command = trim (xa_command args)
      in if command = [] then Inl (ToolError ''exec requires a non-empty command'')
         else if xa_background args \<and> \<not> xc_allow_background config
         then Inl (ToolError ''exec background mode is disabled by tools.exec.allow_background'')
         else if xa_background args \<and> \<not> te_allow_async_tools ctx then Inl no_async_tools
         else rbind (case xa_workdir args of
                       Some workdir \<Rightarrow> resolve_path_for_read (ph_env host) workdir (te_workspace_root ctx)
                     | None \<Rightarrow> Inr (te_workspace_root ctx)) (\<lambda>workdir.
           if \<not> ph_is_dir host workdir
           then Inl (ToolError (''exec workdir must be a directory: '' @ path_text workdir))
           else rbind (classify_exec_command_access host command workdir config) (\<lambda>route.
             Inr \<lparr>xp_command = command, xp_background = xa_background args,
                  xp_timeout_seconds = unwrap_or 20 (tc_timeout_seconds config),
                  xp_env = te_vars ctx, xp_workdir = workdir, xp_route = route\<rparr>)))"

datatype shell_end =
    ShellTimedOut
  | ShellNotStarted rstr
  | ShellEnded "int option" rstr rstr   \<comment> \<open>exit code, standard output and error\<close>

text \<open>The operating system and the host sandbox (\<open>'h\<close> is a prepared spawn) as a tool call finds them.\<close>

record 'h exec_world =
  xw_calls :: start_calls
  xw_now_ms :: nat
  xw_now :: int
  xw_log_dir :: rstr
  xw_child :: "rstr \<Rightarrow> path \<Rightarrow> (rstr \<times> rstr) list \<Rightarrow> rstr + int"
  xw_shell :: "rstr \<Rightarrow> path \<Rightarrow> (rstr \<times> rstr) list \<Rightarrow> nat \<Rightarrow> shell_end"
  xw_prepare :: "rstr \<Rightarrow> path \<Rightarrow> sandbox_policy \<Rightarrow> 'h res"
  xw_spawn_prepared :: "'h \<Rightarrow> (rstr \<times> rstr) list \<Rightarrow> int res"
  xw_host_run :: "rstr \<Rightarrow> path \<Rightarrow> sandbox_policy \<Rightarrow> (rstr \<times> rstr) list \<Rightarrow> nat \<Rightarrow> (int \<times> rstr \<times> rstr) res"
  xw_render :: "json \<Rightarrow> rstr"

definition exec_shell_command :: "'h exec_world \<Rightarrow> rstr \<Rightarrow> path \<Rightarrow> (rstr \<times> rstr) list \<Rightarrow> nat \<Rightarrow> json res" where
  "exec_shell_command w command workspace env timeout_seconds =
     (case xw_shell w command workspace env timeout_seconds of
        ShellTimedOut \<Rightarrow> Inl (ToolError (''exec timed out after '' @ show_nat timeout_seconds @ ''s''))
      | ShellNotStarted e \<Rightarrow> Inl (ToolError (''exec failed to start: '' @ e))
      | ShellEnded code stdout stderr \<Rightarrow>
          Inr (command_output_to_json (unwrap_or (- 1) code) (trim stdout) (trim stderr)))"

definition exec_direct ::
  "'h exec_world \<Rightarrow> tool_env \<Rightarrow> exec_plan \<Rightarrow> rstr \<Rightarrow> run_manager \<Rightarrow> run_manager \<times> 'c execution_outcome res" where
  "exec_direct w ctx plan session_id runs =
     (if xp_background plan then
        (case start_process (xw_calls w) (xw_child w (xp_command plan) (xp_workdir plan) (xp_env plan)) (xw_now_ms w)
                (xw_now w) (xw_log_dir w) ''exec'' (xp_command plan) (ev_agent_id ctx) session_id runs of
           (runs, r) \<Rightarrow> (runs, rbind r (\<lambda>started. Inr (AsyncStarted started))))
      else (runs, rbind (exec_shell_command w (xp_command plan) (xp_workdir plan) (xp_env plan) (xp_timeout_seconds plan))
                    (\<lambda>result. Inr (CompletedRun (xw_render w result) []))))"

definition exec_host_sandboxed ::
  "'h exec_world \<Rightarrow> exec_tool_config \<Rightarrow> tool_env \<Rightarrow> exec_plan \<Rightarrow> rstr \<Rightarrow> run_manager \<Rightarrow>
   run_manager \<times> 'c execution_outcome res" where
  "exec_host_sandboxed w config ctx plan session_id runs =
     (if xp_background plan then
        (case xw_prepare w (xp_command plan) (xp_workdir plan) (sandbox_policy_of config) of
           Inl e \<Rightarrow> (runs, Inl e)
         | Inr prepared \<Rightarrow>
             (case start_prepared_process (xw_calls w) (xw_spawn_prepared w prepared (xp_env plan)) (xw_now_ms w)
                     (xw_now w) (xw_log_dir w) ''exec'' (xp_command plan) (ev_agent_id ctx) session_id runs of
                (runs, r) \<Rightarrow> (runs, rbind r (\<lambda>started. Inr (AsyncStarted started)))))
      else (runs,
        (case xw_host_run w (xp_command plan) (xp_workdir plan) (sandbox_policy_of config) (xp_env plan)
                (unwrap_or 120 (tc_timeout_seconds config)) of
           Inl e \<Rightarrow> Inl e
         | Inr (exit_code, stdout, stderr) \<Rightarrow>
             Inr (CompletedRun (xw_render w (command_output_to_json exit_code stdout stderr)) []))))"

section \<open>What a command in the sandbox may write\<close>

text \<open>
  The policy the preflight is to enforce, stated over the segments of a command: every target that
  a redirection or a known command writes resolves below an allowed root, and no segment runs a
  high-risk command.
\<close>

definition write_allowed :: "path_host \<Rightarrow> path \<Rightarrow> path list \<Rightarrow> rstr \<Rightarrow> bool" where
  "write_allowed host workdir allowed_roots target \<longleftrightarrow>
     \<not> glob_target target \<and>
     (case resolve_exec_path host target workdir of
        Inl _ \<Rightarrow> False
      | Inr p \<Rightarrow> \<exists>root\<in>set allowed_roots. \<exists>below. p = root @ below)"

definition segment_targets :: "shell_token list \<Rightarrow> rstr option list" where
  "segment_targets tokens =
     map (\<lambda>i. next_word tokens (i + 1)) (filter (\<lambda>i. is_redirection_operator (tk_text (tokens ! i))) [0..<length tokens])
     @ (case segment_command_name tokens of
          None \<Rightarrow> []
        | Some name \<Rightarrow> map (\<lambda>i. Some (tk_text (tokens ! i)))
            (filter (\<lambda>i. tk_text (tokens ! i) \<noteq> ''-'') (write_target_indexes name tokens)))"

definition segment_permitted :: "path_host \<Rightarrow> path \<Rightarrow> path list \<Rightarrow> shell_token list \<Rightarrow> bool" where
  "segment_permitted host workdir allowed_roots tokens \<longleftrightarrow>
     (\<forall>target\<in>set (segment_targets tokens). \<exists>w. target = Some w \<and> write_allowed host workdir allowed_roots w) \<and>
     (\<forall>name. segment_command_name tokens = Some name \<longrightarrow> \<not> high_risk name)"

lemma first_answer_None: "first_answer f xs = Inr None \<longleftrightarrow> (\<forall>x\<in>set xs. f x = Inr None)"
  by (induction xs) (auto split: sum.splits option.splits)

lemma classify_write_target_None:
  "classify_write_target host t workdir roots = Inr None \<longleftrightarrow> write_allowed host workdir roots t"
  by (auto simp: classify_write_target_def write_allowed_def rbind_def list_ex_iff prefix_def split: sum.splits)

lemma classify_redirection_None:
  "classify_redirection host workdir roots tokens i = Inr None \<longleftrightarrow>
   \<not> is_redirection_operator (tk_text (tokens ! i)) \<or>
   (\<exists>w. next_word tokens (i + 1) = Some w \<and> write_allowed host workdir roots w)"
  by (simp add: classify_redirection_def classify_write_target_None split: option.splits)

lemma non_flag_words: "i \<in> set (non_flag_word_indexes tokens k) \<Longrightarrow> i < length tokens \<and> tk_kind (tokens ! i) = WordToken"
  by (simp add: non_flag_word_indexes_def)

lemma write_target_words:
  "i \<in> set (write_target_indexes name tokens) \<Longrightarrow> i < length tokens \<and> tk_kind (tokens ! i) = WordToken"
proof -
  have words: "i \<in> set (if A then ws else if B then (if ws = [] then [] else [last ws])
      else if C then (if 2 \<le> length ws then [last ws] else []) else if D then ws else []) \<Longrightarrow> i \<in> set ws"
    for A B C D and ws :: "nat list"
    by (cases "ws = []") (auto split: if_splits)
  assume i: "i \<in> set (write_target_indexes name tokens)"
  show ?thesis
  proof (cases "position (\<lambda>t. tk_kind t = WordToken \<and> tk_text t = name) tokens")
    case None
    then show ?thesis using i by (simp add: write_target_indexes_def)
  next
    case (Some k)
    have "i \<in> set (non_flag_word_indexes tokens (k + 1))"
      using i unfolding write_target_indexes_def Let_def Some option.case by (rule words)
    then show ?thesis by (rule non_flag_words)
  qed
qed

lemma classify_target_None:
  assumes "i \<in> set (write_target_indexes name tokens)"
  shows "classify_target_index host workdir roots tokens i = Inr None \<longleftrightarrow>
    tk_text (tokens ! i) = ''-'' \<or> write_allowed host workdir roots (tk_text (tokens ! i))"
  using write_target_words[OF assms] by (simp add: classify_target_index_def classify_write_target_None)

lemma segment_write_access_None:
  "classify_segment_write_access host workdir roots tokens = Inr None \<longleftrightarrow> segment_permitted host workdir roots tokens"
proof -
  let ?r = "first_answer (classify_redirection host workdir roots tokens) [0..<length tokens]"
  have r: "?r = Inr None \<longleftrightarrow>
      (\<forall>i<length tokens. is_redirection_operator (tk_text (tokens ! i)) \<longrightarrow>
        (\<exists>w. next_word tokens (i + 1) = Some w \<and> write_allowed host workdir roots w))"
    by (auto simp: first_answer_None classify_redirection_None)
  have t: "first_answer (classify_target_index host workdir roots tokens) (write_target_indexes name tokens) = Inr None \<longleftrightarrow>
      (\<forall>i\<in>set (write_target_indexes name tokens). tk_text (tokens ! i) = ''-'' \<or>
         write_allowed host workdir roots (tk_text (tokens ! i)))" for name
    by (simp add: first_answer_None classify_target_None)
  have "classify_segment_write_access host workdir roots tokens = Inr None \<longleftrightarrow> ?r = Inr None \<and>
      (case segment_command_name tokens of None \<Rightarrow> True | Some name \<Rightarrow> \<not> high_risk name \<and>
        first_answer (classify_target_index host workdir roots tokens) (write_target_indexes name tokens) = Inr None)"
    by (simp add: classify_segment_write_access_def split: sum.splits option.splits)
  then show ?thesis
    unfolding r t segment_permitted_def segment_targets_def
    by (cases "segment_command_name tokens") auto
qed

lemma tokens_default: "(case x of Some ts \<Rightarrow> ts | None \<Rightarrow> []) = ts \<and> ts \<noteq> [] \<longleftrightarrow> x = Some ts \<and> ts \<noteq> []"
  by (cases x) auto

lemma exec_sandboxed_iff:
  "classify_exec_command_access host command workdir config = Inr ExecSandboxed \<longleftrightarrow>
     \<not> command_uses_ambiguous_shell_features command \<and>
     (\<exists>tokens roots. tokenize_shell_command command = Some tokens \<and> tokens \<noteq> [] \<and>
        (network_enabled config \<or> \<not> uses_network tokens) \<and>
        allowed_write_roots host workdir config = Inr roots \<and>
        (\<forall>segment\<in>set (split_shell_segments tokens). segment_permitted host workdir roots segment))"
proof (cases "tokenize_shell_command command")
  case None
  then show ?thesis by (simp add: classify_exec_command_access_def)
next
  case tokens: (Some tokens)
  have "rbind (first_answer f xs) (\<lambda>answer. case answer of Some route \<Rightarrow> Inr route | None \<Rightarrow> Inr ExecSandboxed) =
      Inr ExecSandboxed \<longleftrightarrow> first_answer f xs = Inr None"
    if "\<And>x. f x \<noteq> Inr (Some ExecSandboxed)" for f :: "shell_token list \<Rightarrow> exec_route option res" and xs
    using that by (induction xs) (auto simp: rbind_def split: sum.splits option.splits)
  moreover have no_answer: "first_answer g ys \<noteq> Inr (Some ExecSandboxed)" if "\<And>y. g y \<noteq> Inr (Some ExecSandboxed)"
    for g :: "nat \<Rightarrow> exec_route option res" and ys
    using that by (induction ys) (auto split: sum.splits option.splits)
  have "classify_segment_write_access host workdir roots segment \<noteq> Inr (Some ExecSandboxed)" for roots segment
  proof -
    have w: "classify_write_target host t workdir roots \<noteq> Inr (Some ExecSandboxed)" for t
      by (simp add: classify_write_target_def rbind_def split: sum.splits)
    have "first_answer (classify_redirection host workdir roots segment) ys \<noteq> Inr (Some ExecSandboxed)"
      and "first_answer (classify_target_index host workdir roots segment) ys \<noteq> Inr (Some ExecSandboxed)" for ys
      by (rule no_answer; simp add: classify_redirection_def classify_target_index_def w split: option.splits)+
    then show ?thesis
      unfolding classify_segment_write_access_def by (auto split: sum.splits option.splits)
  qed
  ultimately show ?thesis
    by (cases "allowed_write_roots host workdir config")
      (simp_all add: classify_exec_command_access_def tokens Let_def first_answer_None segment_write_access_None)
qed


lemmas exec_simps = split_shell_segments_def is_command_separator_def segment_permitted_def segment_targets_def
  is_redirection_operator_def segment_command_name_def is_env_assignment_def write_target_indexes_def
  non_flag_word_indexes_def is_flag_def high_risk_def uses_network_def is_network_tool_def

abbreviation sample_host :: path_host where
  "sample_host \<equiv> \<lparr>ph_env = (\<lambda>_. None), ph_exists = (\<lambda>_. True), ph_is_dir = (\<lambda>_. True), ph_canonicalize = Inr\<rparr>"


text \<open>
  The segments follow the texts of the tokens, so that a quoted separator hides the arguments
  behind it, and a single ampersand or a new line separates nothing: the targets are not checked.
\<close>

lemma quoted_separator_hides_target:
  assumes "ph_canonicalize host workdir = Inr w" "ph_canonicalize host (components ''/tmp'') = Inr t"
  shows "classify_exec_command_access host (''rm '' @ [DQ] @ ''&&'' @ [DQ] @ '' /etc/x'') workdir default_exec = Inr ExecSandboxed"
    (is ?quoted)
    and "classify_exec_command_access host ''true & rm /etc/x'' workdir default_exec = Inr ExecSandboxed" (is ?amp)
proof -
  have roots: "allowed_write_roots host workdir default_exec = Inr [w, t]"
    using assms by (simp add: allowed_write_roots_def canonicalize_existing_path_def default_exec_def default_sandbox_def)
  let ?w = "\<lambda>s. \<lparr>tk_kind = WordToken, tk_text = s\<rparr>"
  let ?q = "''rm '' @ [DQ] @ ''&&'' @ [DQ] @ '' /etc/x''" let ?a = "''true & rm /etc/x''"
  have "tokenize_shell_command ?q = Some [?w ''rm'', ?w ''&&'', ?w ''/etc/x'']"
    by (simp add: tokenize_shell_command_def str_simps push_word_token_def operator_chars_def)
  moreover have "\<not> command_uses_ambiguous_shell_features ?q"
    by (simp add: command_uses_ambiguous_shell_features_def str_simps dynamic_shell_c_def dynamic_shell_at_def
        dynamic_shell_call_def after_word_def)
  moreover have "list_all (segment_permitted host workdir [w, t]) (split_shell_segments [?w ''rm'', ?w ''&&'', ?w ''/etc/x''])"
    "\<not> uses_network [?w ''rm'', ?w ''&&'', ?w ''/etc/x'']"
    by (simp_all add: exec_simps)
  ultimately show ?quoted using roots unfolding exec_sandboxed_iff list_all_iff by blast
  let ?ts = "[?w ''true'', \<lparr>tk_kind = OperatorToken, tk_text = ''&''\<rparr>, ?w ''rm'', ?w ''/etc/x'']"
  have "tokenize_shell_command ?a = Some ?ts"
    by (simp add: tokenize_shell_command_def str_simps push_word_token_def push_operator_def operator_chars_def)
  moreover have "\<not> command_uses_ambiguous_shell_features ?a"
    by (simp add: command_uses_ambiguous_shell_features_def str_simps dynamic_shell_c_def dynamic_shell_at_def
        dynamic_shell_call_def after_word_def)
  moreover have "list_all (segment_permitted host workdir [w, t]) (split_shell_segments ?ts)" "\<not> uses_network ?ts"
    by (simp_all add: exec_simps)
  ultimately show ?amp using roots unfolding exec_sandboxed_iff list_all_iff by blast
qed

end
