(* ===== verification/AgentTools.thy ===== *)
theory AgentTools
  imports ExecPolicy React Secrets
begin

text \<open>
  The tools by which an agent manages its background runs (\<open>background.rs\<close>, \<open>wait.rs\<close>),
  delegates work (\<open>task.rs\<close>, \<open>summon.rs\<close>), reacts to a message (\<open>react.rs\<close>) and remembers
  (\<open>memorize.rs\<close>), all under \<open>src/tools/builtin/\<close>, and the runs that a delegation starts
  (\<open>src/invoke.rs\<close>). The JSON parser and printer, the memory, the channel and the invoker as a
  tool sees it are arguments.
\<close>

section \<open>Managing background runs\<close>

record tool_io =
  io_parse :: json_parser
  io_render :: "json \<Rightarrow> rstr"
  io_rfc3339 :: "int \<Rightarrow> rstr"
  io_files :: "rstr \<Rightarrow> rstr option"

definition completed_text :: "rstr \<Rightarrow> 'c execution_outcome res" where
  "completed_text output = Inr (CompletedRun output [])"

definition snapshot_text :: "tool_io \<Rightarrow> run_snapshot \<Rightarrow> rstr" where
  "snapshot_text io s = io_render io (snapshot_to_json (io_rfc3339 io) s)"

definition runs_text :: "tool_io \<Rightarrow> run_snapshot list \<Rightarrow> rstr" where
  "runs_text io ss = io_render io (JObj [(''status'', JStr ''ok''),
     (''runs'', JArr (map (snapshot_to_json (io_rfc3339 io)) ss))])"

definition background_tool ::
  "tool_io \<Rightarrow> rstr option \<Rightarrow> int \<Rightarrow> tool_env \<Rightarrow> rstr \<Rightarrow> rstr \<Rightarrow> run_manager \<Rightarrow>
   run_manager \<times> 'c execution_outcome res" where
  "background_tool io kill_output now ctx args_json session_id runs =
     (let args = parse_background_args (io_parse io) args_json
      in if ba_action args = ''list''
         then (runs, completed_text (runs_text io
                (list_for_session (io_files io) (ev_agent_id ctx) session_id runs)))
         else if ba_action args = ''status'' then
           (case ba_run_id args of
              None \<Rightarrow> (runs, Inl (ToolError ''background status requires run_id''))
            | Some run_id \<Rightarrow>
                (runs, rbind (get_for_session (io_files io) run_id (ev_agent_id ctx) session_id runs)
                  (\<lambda>s. completed_text (snapshot_text io s))))
         else if ba_action args = ''kill'' then
           (case ba_run_id args of
              None \<Rightarrow> (runs, Inl (ToolError ''background kill requires run_id''))
            | Some run_id \<Rightarrow>
                (case kill_for_session (io_files io) kill_output now run_id (ev_agent_id ctx) session_id runs of
                   (runs, r) \<Rightarrow> (runs, rbind r (\<lambda>s. completed_text (snapshot_text io s)))))
         else (runs, Inl (ToolError (''background action must be one of list|status|kill, got: '' @ ba_action args))))"

text \<open>While the tool waits, for at most \<open>wa_timeout_ms\<close>, other tasks act on the runs.\<close>

definition wait_tool ::
  "tool_io \<Rightarrow> (nat \<Rightarrow> manager_op list) \<Rightarrow> manager_op list \<Rightarrow> manager_op list \<Rightarrow> tool_env \<Rightarrow> rstr \<Rightarrow> rstr \<Rightarrow> run_manager \<Rightarrow>
   run_manager \<times> 'c execution_outcome res" where
  "wait_tool io during before_unclaim before_final ctx args_json session_id runs =
     (let args = parse_wait_args (io_parse io) args_json
      in if wa_run_ids args = [] then (runs, Inl (ToolError ''wait requires at least one run_id''))
         else
           (case wait_for_session (io_files io) (wa_run_ids args) (ev_agent_id ctx) session_id
                   (during (wa_timeout_ms args)) before_unclaim before_final runs of
              (runs, r) \<Rightarrow> (runs, rbind r (\<lambda>ss. completed_text (runs_text io ss)))))"

section \<open>Delegating\<close>

record agent_invoke_request =
  ai_target_agent_id :: rstr
  ai_session_id :: rstr
  ai_user_id :: rstr
  ai_prompt :: rstr

record worker_invoke_request =
  wi_current_agent_id :: rstr
  wi_session_id :: rstr
  wi_user_id :: rstr
  wi_prompt :: rstr
  wi_max_steps_override :: "nat option"

datatype delegated_call = AgentCall agent_invoke_request | WorkerCall worker_invoke_request

text \<open>
  A delegation: in the background the call becomes the future of a started run (the second
  component), otherwise the invoker answers it.
\<close>

type_synonym 'c invoker = "delegated_call \<Rightarrow> (rstr \<times> 'c list) res"

definition delegate ::
  "'c invoker \<Rightarrow> nat \<Rightarrow> int \<Rightarrow> tool_env \<Rightarrow> rstr \<Rightarrow> rstr \<Rightarrow> rstr \<Rightarrow> bool \<Rightarrow> bool \<Rightarrow> delegated_call \<Rightarrow> run_manager \<Rightarrow>
   run_manager \<times> delegated_call option \<times> 'c execution_outcome res" where
  "delegate invoker now_ms now ctx name request session_id background allow_background call runs =
     (if background then
        (if \<not> allow_background
         then (runs, None, Inl (ToolError (name @ '' background mode is disabled by tools.'' @ name @ ''.allow_background'')))
         else if \<not> te_allow_async_tools ctx then (runs, None, Inl no_async_tools)
         else
           (case start_delegated now_ms now name request (ev_agent_id ctx) session_id runs of
              (runs, r) \<Rightarrow> (runs, Some call, rbind r (\<lambda>started. Inr (AsyncStarted started)))))
      else (runs, None, rbind (invoker call) (\<lambda>(reply, tool_calls). Inr (CompletedRun reply tool_calls))))"

definition task_tool ::
  "tool_io \<Rightarrow> 'c invoker \<Rightarrow> nat \<Rightarrow> int \<Rightarrow> task_tool_config \<Rightarrow> tool_env \<Rightarrow> rstr \<Rightarrow> rstr \<Rightarrow> run_manager \<Rightarrow>
   run_manager \<times> delegated_call option \<times> 'c execution_outcome res" where
  "task_tool io invoker now_ms now config ctx args_json session_id runs =
     (let args = parse_task_args (io_parse io) args_json
      in delegate invoker now_ms now ctx ''task'' (ta_prompt args) session_id (ta_background args)
           (kc_allow_background config)
           (WorkerCall \<lparr>wi_current_agent_id = ev_agent_id ctx, wi_session_id = session_id,
              wi_user_id = ev_user_id ctx, wi_prompt = ta_prompt args,
              wi_max_steps_override = kc_worker_max_steps config\<rparr>) runs)"

definition target_allowed :: "summon_tool_config \<Rightarrow> rstr \<Rightarrow> bool" where
  "target_allowed config target \<longleftrightarrow> list_ex (\<lambda>allowed. allowed = target) (uc_allowed config)"

definition handoff_text :: "summon_args \<Rightarrow> rstr" where
  "handoff_text args =
     (if trim (sa_summary args) = []
      then ''You were summoned as agent `'' @ sa_agent args @
           ''`. Continue from session context and produce a final answer.''
      else ''You were summoned as agent `'' @ sa_agent args @ ''` with handoff summary:'' @ [NL] @ sa_summary args)"

definition summon_tool ::
  "tool_io \<Rightarrow> 'c invoker \<Rightarrow> nat \<Rightarrow> int \<Rightarrow> summon_tool_config \<Rightarrow> tool_env \<Rightarrow> rstr \<Rightarrow> rstr \<Rightarrow> run_manager \<Rightarrow>
   run_manager \<times> delegated_call option \<times> 'c execution_outcome res" where
  "summon_tool io invoker now_ms now config ctx args_json session_id runs =
     (let args = parse_summon_args (io_parse io) args_json; handoff = handoff_text args
      in if \<not> target_allowed config (sa_agent args)
         then (runs, None, Inl (ToolError (''summon target '' @ [SQ] @ sa_agent args @ [SQ] @
                '' is not allowed by tools.summon.allowed'')))
         else delegate invoker now_ms now ctx ''summon'' handoff session_id (sa_background args)
                (uc_allow_background config)
                (AgentCall \<lparr>ai_target_agent_id = sa_agent args, ai_session_id = session_id,
                   ai_user_id = ev_user_id ctx, ai_prompt = handoff\<rparr>) runs)"

definition summon_description :: "summon_tool_config \<Rightarrow> rstr" where
  "summon_description config =
     (let available_agents = (if uc_allowed config = [] then ''(none configured)'' else join '', '' (uc_allowed config));
          background = (if uc_allow_background config then '' Background mode is available via background=true.'' else [])
      in ''Delegate a task to another agent. Available agents: '' @ available_agents @
         ''. Provide a summary describing what the target agent should do.'' @ background)"

section \<open>Reacting and remembering\<close>

text \<open>\<open>add_reaction\<close> is the gateway's: it finds the channel of the source and calls it.\<close>

definition react_tool ::
  "tool_io \<Rightarrow> (gateway_channel_kind \<Rightarrow> rstr \<Rightarrow> rstr \<Rightarrow> rstr \<Rightarrow> unit res) \<Rightarrow> tool_env \<Rightarrow> rstr \<Rightarrow>
   'c execution_outcome res" where
  "react_tool io add_reaction ctx args_json =
     (let emoji = parse_react_args (io_parse io) args_json
      in if trim emoji = [] then Inl (ToolError ''react requires a non-empty emoji'')
         else if \<not> te_gateway ctx then Inl (ToolError ''react unavailable: gateway context is missing'')
         else (case te_route ctx of
                 None \<Rightarrow> Inl (ToolError ''react unavailable: completion route is missing'')
               | Some route \<Rightarrow>
                   (case cr_source_message_id route of
                      None \<Rightarrow> Inl (ToolError ''react unavailable: current inbound message id is unavailable'')
                    | Some message_id \<Rightarrow>
                        rbind (add_reaction (cr_source_channel route) (cr_channel_id route) message_id (trim emoji))
                          (\<lambda>_. completed_text ''ok''))))"

datatype memorize_result = MemDuplicate | MemUpdated rstr | MemInserted

text \<open>
  The tool after the memory has answered: \<open>None\<close> is a panic of the task. The ellipsis is one
  character of three bytes.
\<close>

definition ellipsis :: rstr where
  "ellipsis = [CHR 0xE2, CHR 0x80, CHR 0xA6]"

definition superseded_preview :: "rstr \<Rightarrow> rstr option" where
  "superseded_preview superseded_content =
     (if length superseded_content > 80
      then map_option (\<lambda>s. s @ ellipsis) (slice_to superseded_content 80)
      else Some superseded_content)"

definition memorize_tool ::
  "tool_io \<Rightarrow> ('m \<Rightarrow> rstr \<Rightarrow> rstr \<Rightarrow> rstr \<Rightarrow> nat \<Rightarrow> 'm \<times> memorize_result res) \<Rightarrow> rstr \<Rightarrow> rstr \<Rightarrow> 'm \<Rightarrow>
   'm \<times> 'c execution_outcome res option" where
  "memorize_tool io memorize args_json session_id mem =
     (case parse_memorize_args (io_parse io) args_json of
        (content, kind, importance) \<Rightarrow>
          (case memorize mem session_id content kind importance of
             (mem, Inl e) \<Rightarrow> (mem, Some (Inl e))
           | (mem, Inr result) \<Rightarrow>
               (let tags = ''(kind='' @ kind @ '', importance='' @ show_nat (clamp 1 5 importance) @ '')''
                in (mem,
                    case result of
                      MemDuplicate \<Rightarrow> Some (completed_text (''already memorized long-term fact '' @ tags))
                    | MemUpdated superseded_content \<Rightarrow>
                        map_option (\<lambda>preview. completed_text (''updated existing long-term fact '' @ tags @
                            ''; superseded: '' @ [DQ] @ preview @ [DQ])) (superseded_preview superseded_content)
                    | MemInserted \<Rightarrow> Some (completed_text (''memorized long-term fact '' @ tags))))))"

section \<open>Delegated runs\<close>

text \<open>
  \<open>AgentRuntimeConfig\<close> as far as a run reads it; a memory is opaque. \<open>dr_env\<close> is the environment
  of the tools, of which \<open>dr_params\<close> holds the authorization part.
\<close>

record agent_runtime =
  ar_provider_key :: rstr
  ar_system_prompt :: rstr
  ar_agent_name :: rstr
  ar_max_steps :: "32 word"
  ar_history_messages :: nat
  ar_env :: "(rstr \<times> secret) list"
  ar_owner_ids :: "rstr list"
  ar_exec_enabled :: bool
  ar_tool_registry :: tool_registry
  ar_persona_root :: path
  ar_workspace_root :: path

record 'm agent_directory =
  dir_configs :: "(rstr \<times> agent_runtime) list"
  dir_memories :: "(rstr \<times> 'm) list"

record 'm delegated_run =
  dr_params :: run_params
  dr_env :: tool_env
  dr_history_messages :: nat
  dr_memory :: 'm

text \<open>\<open>config/execution.rs\<close>: the resolved values of the environment's secrets.\<close>

definition resolved_env :: "(rstr \<times> secret) list \<Rightarrow> (rstr \<times> rstr) list res" where
  "resolved_env env =
     rtraverse (\<lambda>(key, secret).
       rbind (ok_or (ConfigError (''execution env secret '' @ [SQ] @ key @ [SQ] @
                       '' was not resolved before runtime assembly'')) (exposed secret))
         (\<lambda>v. Inr (key, v))) env"

definition delegated_tools :: "rstr list \<Rightarrow> agent_runtime \<Rightarrow> tool_registry" where
  "delegated_tools hidden config =
     with_async_disabled_if (without_names (ar_tool_registry config) hidden) (ar_exec_enabled config)"

definition delegated_run_of ::
  "rstr \<Rightarrow> rstr \<Rightarrow> rstr \<Rightarrow> rstr list \<Rightarrow> 32 word \<Rightarrow> rstr \<Rightarrow> rstr \<Rightarrow> (rstr \<times> rstr) list \<Rightarrow> agent_runtime \<Rightarrow> 'm \<Rightarrow> 'm delegated_run" where
  "delegated_run_of prompt agent_id agent_name hidden max_steps session_id user_id execution_env config memory =
     (let env = \<lparr>ev_agent_id = agent_id, ev_agent_name = agent_name, ev_user_id = user_id,
                 ev_owner_ids = ar_owner_ids config, te_vars = execution_env,
                 te_persona_root = ar_persona_root config, te_workspace_root = ar_workspace_root config,
                 te_allow_async_tools = False, te_gateway = False, te_has_tx = False, te_route = None\<rparr>
      in \<lparr>dr_params = \<lparr>rp_provider_key = ar_provider_key config, rp_system_prompt = prompt,
            rp_session_id = session_id, rp_max_steps = max_steps, rp_tool_env = exec_env.truncate env,
            rp_tool_registry = delegated_tools hidden config, rp_source_message_id = None,
            rp_on_text_delta = False\<rparr>,
          dr_env = env, dr_history_messages = ar_history_messages config, dr_memory = memory\<rparr>)"

definition agent_hidden :: "rstr list" where
  "agent_hidden = [''summon'', ''task'', ''background'']"

definition worker_hidden :: "rstr list" where
  "worker_hidden = [''summon'', ''task'', ''background'', ''memorize'', ''forget'']"

definition worker_prompt :: rstr where
  "worker_prompt = ''You are a task worker. Complete the assigned task and return a concise result.''"

definition agent_run :: "'m agent_directory \<Rightarrow> agent_invoke_request \<Rightarrow> ('m delegated_run \<times> rstr) res" where
  "agent_run dir request =
     rbind (ok_or (ToolError (''unknown agent: '' @ ai_target_agent_id request))
              (map_of (dir_configs dir) (ai_target_agent_id request))) (\<lambda>config.
     rbind (ok_or (ToolError (''no memory for agent: '' @ ai_target_agent_id request))
              (map_of (dir_memories dir) (ai_target_agent_id request))) (\<lambda>memory.
     rbind (resolved_env (ar_env config)) (\<lambda>execution_env.
       Inr (delegated_run_of (ar_system_prompt config) (ai_target_agent_id request) (ar_agent_name config) agent_hidden
              (ar_max_steps config) (ai_session_id request) (ai_user_id request) execution_env config memory,
            ai_prompt request))))"

definition worker_run :: "'m agent_directory \<Rightarrow> worker_invoke_request \<Rightarrow> ('m delegated_run \<times> rstr) res" where
  "worker_run dir request =
     rbind (ok_or (ToolError ''current agent config unavailable'')
              (map_of (dir_configs dir) (wi_current_agent_id request))) (\<lambda>config.
     rbind (ok_or (ToolError ''current agent memory unavailable'')
              (map_of (dir_memories dir) (wi_current_agent_id request))) (\<lambda>memory.
     rbind (resolved_env (ar_env config)) (\<lambda>execution_env.
       Inr (delegated_run_of worker_prompt ''task-worker'' ''Task Worker'' worker_hidden
              (case wi_max_steps_override request of Some n \<Rightarrow> of_nat n | None \<Rightarrow> ar_max_steps config)
              (wi_session_id request) (wi_user_id request) execution_env config memory,
            wi_prompt request))))"

text \<open>\<open>invoke_agent\<close> and \<open>invoke_worker\<close>; without the loop (\<open>None\<close>, it is being shut down) they fail.\<close>

definition invoke ::
  "(run_params \<Rightarrow> message list \<Rightarrow> run_outcome res option) option \<Rightarrow> 'm agent_directory \<Rightarrow> delegated_call \<Rightarrow>
   (rstr \<times> execution_result list) res option" where
  "invoke react_loop dir call =
     (case (case call of AgentCall request \<Rightarrow> agent_run dir request | WorkerCall request \<Rightarrow> worker_run dir request) of
        Inl e \<Rightarrow> Some (Inl e)
      | Inr (r, prompt) \<Rightarrow>
          (case react_loop of
             None \<Rightarrow> Some (Inl (ToolError ''react loop unavailable''))
           | Some run \<Rightarrow>
               map_option (\<lambda>outcome. rbind outcome (\<lambda>x. Inr (ro_reply x, ro_tool_calls x)))
                 (run (dr_params r) [message_text User prompt])))"

section \<open>What a delegated run can do\<close>

lemma fst_delegate:
  "\<not> te_allow_async_tools ctx \<Longrightarrow>
   fst (delegate invoker now_ms now ctx name request session_id background allow call runs) = runs"
  by (simp add: delegate_def)

lemma exec_plan_foreground:
  assumes "exec_plan_of from_str host config ctx args_json = Inr plan" "\<not> te_allow_async_tools ctx"
  shows "\<not> xp_background plan"
proof (cases "xa_background (parse_exec_args from_str args_json)")
  case True
  then show ?thesis using assms by (auto simp: exec_plan_of_def Let_def split: if_splits)
next
  case False
  then show ?thesis using assms by (auto simp: exec_plan_of_def Let_def rbind_eq_Inr split: if_splits)
qed

lemma delegated_env: "te_allow_async_tools (dr_env (delegated_run_of p i n h k s u e c m)) = False"
  by (simp add: delegated_run_of_def Let_def)

text \<open>The registry of a delegated run.\<close>

lemma delegated_tools_lookup:
  assumes "registry_ok (ar_tool_registry config)" "get_tool name (delegated_tools hidden config) = Some e"
  shows "name \<notin> set hidden \<and> entry_name e = name \<and>
    (\<exists>e0. get_tool name (ar_tool_registry config) = Some e0 \<and>
       en_tool e = (if ar_exec_enabled config then set_background False (en_tool e0) else en_tool e0))"
proof -
  let ?reg = "without_names (ar_tool_registry config) hidden"
  have ok: "registry_ok ?reg"
    and look: "get_tool name ?reg = (if name \<in> set hidden then None else get_tool name (ar_tool_registry config))"
    using without_names_props[OF assms(1), of hidden name] by simp_all
  have names: "entry_name x = name" if "get_tool name r = Some x" "registry_ok r" for x r
    using that by (simp add: get_tool_iff)
  show ?thesis
  proof (cases "ar_exec_enabled config")
    case True
    with assms(2) obtain x where x: "get_tool name ?reg = Some x" "e = x\<lparr>en_tool := set_background False (en_tool x)\<rparr>"
      by (auto simp: delegated_tools_def with_async_disabled_if_def get_async[OF ok] split: option.splits)
    have "registry_ok (with_async_disabled ?reg)" by (rule registry_ok_async[OF ok])
    then have "entry_name e = name"
      using names[of "with_async_disabled ?reg" e] assms(2) True by (simp add: delegated_tools_def with_async_disabled_if_def)
    with x look True show ?thesis by (simp split: if_splits)
  next
    case False
    then show ?thesis
      using assms(2) look names[OF _ ok] by (simp add: delegated_tools_def with_async_disabled_if_def split: if_splits)
  qed
qed

lemma background_tools: "allows_background t \<Longrightarrow> tool_name t \<in> {''exec'', ''summon'', ''task''}"
  by (cases t) simp_all

lemma delegated_tools_quiet:
  assumes "registry_ok (ar_tool_registry config)" "ar_exec_enabled config \<or> get_tool ''exec'' (ar_tool_registry config) = None"
    and "get_tool name (delegated_tools hidden config) = Some e" "''summon'' \<in> set hidden" "''task'' \<in> set hidden"
  shows "\<not> allows_background (en_tool e)"
proof (cases "ar_exec_enabled config")
  case True
  then show ?thesis using delegated_tools_lookup[OF assms(1,3)] by auto
next
  case False
  then have "name \<notin> {''exec'', ''summon'', ''task''}" using delegated_tools_lookup[OF assms(1,3)] assms(2,4,5) by auto
  then show ?thesis using background_tools[of "en_tool e"] delegated_tools_lookup[OF assms(1,3)] by auto
qed

text \<open>What a call may turn into: the run of the target agent or of a worker of the calling agent.\<close>

definition delegated_call_run :: "'m agent_directory \<Rightarrow> delegated_call \<Rightarrow> ('m delegated_run \<times> rstr) res" where
  "delegated_call_run dir call =
     (case call of AgentCall request \<Rightarrow> agent_run dir request | WorkerCall request \<Rightarrow> worker_run dir request)"

definition call_target :: "delegated_call \<Rightarrow> rstr" where
  "call_target call =
     (case call of AgentCall request \<Rightarrow> ai_target_agent_id request | WorkerCall request \<Rightarrow> wi_current_agent_id request)"

lemma delegated_call_run_shape:
  assumes "delegated_call_run dir call = Inr (r, prompt)"
  shows "\<exists>config hidden p i n k s u e m. map_of (dir_configs dir) (call_target call) = Some config \<and>
    r = delegated_run_of p i n hidden k s u e config m \<and> set agent_hidden \<subseteq> set hidden"
proof (cases call)
  case (AgentCall request)
  then show ?thesis
    using assms by (force simp: delegated_call_run_def call_target_def agent_run_def rbind_eq_Inr ok_or_def split: option.splits)
next
  case (WorkerCall request)
  have "set agent_hidden \<subseteq> set worker_hidden" by (simp add: agent_hidden_def worker_hidden_def)
  with WorkerCall show ?thesis
    using assms by (force simp: delegated_call_run_def call_target_def worker_run_def rbind_eq_Inr ok_or_def split: option.splits)
qed

text \<open>
  C21. Delegation does not nest: in a delegated run, of an agent or of a worker, the tools
  \<open>summon\<close>, \<open>task\<close> and \<open>background\<close> cannot be looked up, no tool that can be looked up is
  configured to work in the background, and even if a shell command, a task or a summon were
  called with the run's environment, it would start no background run and leave the runs as
  they are.
\<close>

theorem delegation_does_not_nest:
  assumes "delegated_call_run dir call = Inr (r, prompt)"
    and "map_of (dir_configs dir) (call_target call) = Some config" "registry_ok (ar_tool_registry config)"
    and "ar_exec_enabled config \<or> get_tool ''exec'' (ar_tool_registry config) = None"
  shows "(\<forall>name e. get_tool name (rp_tool_registry (dr_params r)) = Some e \<longrightarrow>
      name \<notin> {''summon'', ''task'', ''background''} \<and> \<not> allows_background (en_tool e)) \<and>
    fst (task_tool io invoker now_ms now tc (dr_env r) args sid runs) = runs \<and>
    fst (summon_tool io invoker now_ms now uc (dr_env r) args sid runs) = runs \<and>
    (\<forall>plan. exec_plan_of from_str host xc (dr_env r) args = Inr plan \<longrightarrow>
      fst (exec_direct w (dr_env r) plan sid runs) = runs \<and>
      fst (exec_host_sandboxed w xc (dr_env r) plan sid runs) = runs)"
proof -
  obtain hidden p i n k s u e m where r: "r = delegated_run_of p i n hidden k s u e config m"
    and hidden: "set agent_hidden \<subseteq> set hidden"
    using delegated_call_run_shape[OF assms(1)] assms(2) by auto
  have env: "\<not> te_allow_async_tools (dr_env r)" by (simp add: r delegated_env)
  have reg: "rp_tool_registry (dr_params r) = delegated_tools hidden config" by (simp add: r delegated_run_of_def Let_def)
  have "name \<notin> {''summon'', ''task'', ''background''} \<and> \<not> allows_background (en_tool e)"
    if "get_tool name (rp_tool_registry (dr_params r)) = Some e" for name e
    using delegated_tools_lookup[OF assms(3) that[unfolded reg]] delegated_tools_quiet[OF assms(3,4) that[unfolded reg]] hidden
    by (auto simp: agent_hidden_def)
  moreover have "fst (task_tool io invoker now_ms now tc (dr_env r) args sid runs) = runs"
    unfolding task_tool_def Let_def by (rule fst_delegate[OF env])
  moreover have "fst (summon_tool io invoker now_ms now uc (dr_env r) args sid runs) = runs"
    by (simp add: summon_tool_def Let_def fst_delegate[OF env])
  moreover have "fst (exec_direct w (dr_env r) plan sid runs) = runs \<and>
      fst (exec_host_sandboxed w xc (dr_env r) plan sid runs) = runs"
    if "exec_plan_of from_str host xc (dr_env r) args = Inr plan" for plan
    using exec_plan_foreground[OF that env] by (simp add: exec_direct_def exec_host_sandboxed_def)
  ultimately show ?thesis by blast
qed

abbreviation sample_runtime :: agent_runtime where
  "sample_runtime \<equiv> \<lparr>ar_provider_key = ''p'', ar_system_prompt = [], ar_agent_name = ''A'', ar_max_steps = 3,
     ar_history_messages = 0, ar_env = [], ar_owner_ids = [], ar_exec_enabled = True,
     ar_tool_registry = \<lparr>rg_ordered = [], rg_by_name = []\<rparr>, ar_persona_root = sample_persona, ar_workspace_root = sample_ws\<rparr>"

theorem delegation_does_not_nest_witness:
  "\<exists>r. delegated_call_run \<lparr>dir_configs = [(''a'', sample_runtime)], dir_memories = [(''a'', ())]\<rparr>
     (AgentCall \<lparr>ai_target_agent_id = ''a'', ai_session_id = ''s'', ai_user_id = ''u'', ai_prompt = ''hi''\<rparr>) = Inr (r, ''hi'') \<and>
     (\<forall>io invoker now_ms now tc args sid runs.
        fst (task_tool io invoker now_ms now tc (dr_env r) args sid runs) = runs)"
proof -
  let ?dir = "\<lparr>dir_configs = [(''a'', sample_runtime)], dir_memories = [(''a'', ())]\<rparr>"
  let ?call = "AgentCall \<lparr>ai_target_agent_id = ''a'', ai_session_id = ''s'', ai_user_id = ''u'', ai_prompt = ''hi''\<rparr>"
  obtain r where r: "delegated_call_run ?dir ?call = Inr (r, ''hi'')"
    by (simp add: delegated_call_run_def agent_run_def ok_or_def rbind_def resolved_env_def)
  have c: "map_of (dir_configs ?dir) (call_target ?call) = Some sample_runtime" by (simp add: call_target_def)
  have ok: "registry_ok (ar_tool_registry sample_runtime)" by (simp add: registry_ok_def)
  have on: "ar_exec_enabled sample_runtime" by simp
  have "fst (task_tool io invoker now_ms now tc (dr_env r) args sid runs) = runs"
    for io now_ms now tc args sid runs and invoker :: "'c invoker"
    by (rule delegation_does_not_nest[OF r c ok disjI1[OF on], THEN conjunct2, THEN conjunct1])
  with r show ?thesis by blast
qed

section \<open>A panic after a fact was replaced\<close>

lemma superseded_preview_None:
  "superseded_preview c = None \<longleftrightarrow> 80 < length c \<and> \<not> is_char_boundary c 80"
  by (simp add: superseded_preview_def slice_to_def)

text \<open>
  The \<open>memorize\<close> tool panics exactly when the memory has replaced a fact of more than 80
  bytes whose 80th byte does not end a character: the new fact is stored, but the call that
  stored it never answers.
\<close>

theorem memorize_panics_after_update:
  "snd (memorize_tool io memorize args sid mem) = None \<longleftrightarrow>
     (case parse_memorize_args (io_parse io) args of (content, kind, importance) \<Rightarrow>
        \<exists>old. snd (memorize mem sid content kind importance) = Inr (MemUpdated old) \<and>
          80 < length old \<and> \<not> is_char_boundary old 80)"
proof -
  obtain content kind importance where p: "parse_memorize_args (io_parse io) args = (content, kind, importance)"
    using prod_cases3 by blast
  obtain mem' r where m: "memorize mem sid content kind importance = (mem', r)" by force
  show ?thesis
  proof (cases r)
    case (Inl e)
    then show ?thesis by (simp add: memorize_tool_def p m)
  next
    case (Inr result)
    then show ?thesis
      by (cases result) (simp_all add: memorize_tool_def p m Let_def flip: superseded_preview_None)
  qed
qed

lemma memorize_panic_example: "superseded_preview (replicate 79 CHR ''a'' @ [CHR 0xC3, CHR 0xA9]) = None"
  by (simp add: superseded_preview_None is_char_boundary_def nth_append is_cont_def)

end
