(* ===== verification/Cron.thy ===== *)
theory Cron
  imports AgentTools
begin

text \<open>
  Scheduled jobs: the table of \<open>src/tools/builtin/cron/store.rs\<close>, the tool of
  \<open>src/tools/builtin/cron/mod.rs\<close> that edits it and the tick of \<open>src/run/cron_scheduler.rs\<close> that
  fires the due jobs. A table is the list of its rows. Times are nanoseconds since the epoch. The
  cron library is external: reading a schedule and finding its first time after a given one are
  arguments, as are the clock, fresh ids, the database's failures and the host sandbox.
\<close>

section \<open>The table\<close>

record cron_job =
  cj_id :: rstr
  cj_agent_id :: rstr
  cj_schedule :: rstr
  cj_description :: rstr
  cj_prompt :: rstr
  cj_guard_command :: "rstr option"
  cj_workspace_root :: rstr
  cj_channel_id :: rstr
  cj_guild_id :: "rstr option"
  cj_source_channel :: rstr
  cj_is_dm :: bool
  cj_created_by :: rstr
  cj_created_at :: int
  cj_last_fired_at :: "int option"
  cj_guard_timeout_seconds :: nat
  cj_enabled :: bool

type_synonym cron_table = "cron_job list"

text \<open>A statement that fails leaves the table alone; the primary key refuses a second row of an id.\<close>

definition create_job :: "rstr option \<Rightarrow> cron_job \<Rightarrow> cron_table \<Rightarrow> cron_table \<times> unit res" where
  "create_job fault job table =
     (case fault of
        Some e \<Rightarrow> (table, Inl (DbError e))
      | None \<Rightarrow>
          (if cj_id job \<in> cj_id ` set table
           then (table, Inl (DbError ''UNIQUE constraint failed: cron_jobs.id''))
           else (table @ [job], Inr ())))"

definition delete_job :: "rstr option \<Rightarrow> rstr \<Rightarrow> rstr \<Rightarrow> cron_table \<Rightarrow> cron_table \<times> bool res" where
  "delete_job fault job_id agent_id table =
     (case fault of
        Some e \<Rightarrow> (table, Inl (DbError e))
      | None \<Rightarrow>
          (filter (\<lambda>j. \<not> (cj_id j = job_id \<and> cj_agent_id j = agent_id)) table,
           Inr (list_ex (\<lambda>j. cj_id j = job_id \<and> cj_agent_id j = agent_id) table)))"

text \<open>SQL's \<open>LIKE\<close> on characters: a percent sign matches any text, an underscore any character.\<close>

fun like_match :: "rstr list \<Rightarrow> rstr list \<Rightarrow> bool" where
  "like_match [] s \<longleftrightarrow> s = []"
| "like_match (p # ps) s \<longleftrightarrow>
     (if p = ''%'' then like_match ps s \<or> (case s of [] \<Rightarrow> False | _ # s' \<Rightarrow> like_match (p # ps) s')
      else (case s of [] \<Rightarrow> False
            | c # s' \<Rightarrow> (p = ''_'' \<or> eq_ignore_ascii_case p c) \<and> like_match ps s'))"

definition matches_query :: "rstr \<Rightarrow> cron_job \<Rightarrow> bool" where
  "matches_query query job \<longleftrightarrow>
     (let query_like = chars (''%'' @ to_ascii_lowercase query @ ''%'')
      in list_ex (\<lambda>field. like_match query_like (chars (to_ascii_lowercase field)))
           [cj_id job, cj_schedule job, cj_description job, cj_prompt job])"

text \<open>The newest job first; the order of jobs of the same time is left to the database (here: the table's).\<close>

definition list_jobs :: "rstr option \<Rightarrow> rstr \<Rightarrow> rstr option \<Rightarrow> cron_table \<Rightarrow> cron_job list res" where
  "list_jobs fault agent_id query table =
     (case fault of
        Some e \<Rightarrow> Inl (DbError e)
      | None \<Rightarrow>
          Inr (sort_key (\<lambda>j. - cj_created_at j)
            (filter (\<lambda>j. cj_agent_id j = agent_id \<and> (case query of None \<Rightarrow> True | Some q \<Rightarrow> matches_query q j)) table)))"

definition list_all_enabled :: "rstr option \<Rightarrow> cron_table \<Rightarrow> cron_job list res" where
  "list_all_enabled fault table =
     (case fault of Some e \<Rightarrow> Inl (DbError e) | None \<Rightarrow> Inr (filter cj_enabled table))"

definition update_last_fired :: "rstr option \<Rightarrow> rstr \<Rightarrow> int \<Rightarrow> cron_table \<Rightarrow> cron_table \<times> unit res" where
  "update_last_fired fault job_id timestamp table =
     (case fault of
        Some e \<Rightarrow> (table, Inl (DbError e))
      | None \<Rightarrow> (map (\<lambda>j. if cj_id j = job_id then j\<lparr>cj_last_fired_at := Some timestamp\<rparr> else j) table, Inr ()))"

definition count_jobs_for_agent :: "rstr option \<Rightarrow> rstr \<Rightarrow> cron_table \<Rightarrow> nat res" where
  "count_jobs_for_agent fault agent_id table =
     (case fault of
        Some e \<Rightarrow> Inl (DbError e)
      | None \<Rightarrow> Inr (length (filter (\<lambda>j. cj_agent_id j = agent_id) table)))"

section \<open>The tool\<close>

type_synonym 's schedule_reader = "rstr \<Rightarrow> rstr + 's"

text \<open>A schedule of five fields is read with a field for the seconds in front.\<close>

definition parse_schedule :: "'s schedule_reader \<Rightarrow> rstr \<Rightarrow> rstr + 's" where
  "parse_schedule from_str raw =
     (case from_str raw of
        Inr schedule \<Rightarrow> Inr schedule
      | Inl err \<Rightarrow> (if length (split_whitespace raw) = 5 then from_str (''0 '' @ raw) else Inl err))"

datatype cron_action = CronCreate | CronDelete | CronList

record cron_args =
  ca_action :: cron_action
  ca_schedule :: "rstr option"
  ca_description :: "rstr option"
  ca_prompt :: "rstr option"
  ca_guard_command :: "rstr option"
  ca_id :: "rstr option"
  ca_query :: "rstr option"

record 's cron_world =
  kw_parse_args :: "rstr \<Rightarrow> rstr + cron_args"
  kw_schedule :: "'s schedule_reader"
  kw_render :: "json \<Rightarrow> rstr"
  kw_rfc3339 :: "int \<Rightarrow> rstr"
  kw_lock :: bool              \<comment> \<open>the store's lock is not poisoned\<close>
  kw_read_fault :: "rstr option"
  kw_write_fault :: "rstr option"
  kw_uuid :: rstr
  kw_now :: int

definition non_empty :: "rstr option \<Rightarrow> rstr option" where
  "non_empty v = Option.bind v non_empty_trim"

definition required :: "rstr \<Rightarrow> rstr option \<Rightarrow> rstr res" where
  "required message v = ok_or (ToolError message) (non_empty v)"

definition new_cron_job ::
  "rstr \<Rightarrow> int \<Rightarrow> tool_env \<Rightarrow> completion_route \<Rightarrow> nat \<Rightarrow> rstr \<Rightarrow> rstr \<Rightarrow> rstr \<Rightarrow> rstr option \<Rightarrow> cron_job" where
  "new_cron_job uuid now ctx route guard_timeout schedule description prompt guard_command =
     \<lparr>cj_id = uuid, cj_agent_id = ev_agent_id ctx, cj_schedule = schedule, cj_description = description,
      cj_prompt = prompt, cj_guard_command = guard_command,
      cj_workspace_root = path_text (te_workspace_root ctx), cj_channel_id = cr_channel_id route,
      cj_guild_id = cr_guild_id route, cj_source_channel = channel_kind_as_str (cr_source_channel route),
      cj_is_dm = cr_is_dm route, cj_created_by = ev_user_id ctx, cj_created_at = now,
      cj_last_fired_at = None, cj_guard_timeout_seconds = guard_timeout, cj_enabled = True\<rparr>"

definition created_json :: "cron_job \<Rightarrow> json" where
  "created_json job =
     JObj [(''status'', JStr ''created''), (''id'', JStr (cj_id job)), (''schedule'', JStr (cj_schedule job)),
           (''description'', JStr (cj_description job)), (''prompt'', JStr (cj_prompt job)),
           (''guardCommand'', json_opt JStr (cj_guard_command job)),
           (''guardTimeoutSeconds'', JInt (int (cj_guard_timeout_seconds job)))]"

definition job_to_json :: "(int \<Rightarrow> rstr) \<Rightarrow> cron_job \<Rightarrow> json" where
  "job_to_json rfc3339 job =
     JObj [(''id'', JStr (cj_id job)), (''agentId'', JStr (cj_agent_id job)), (''schedule'', JStr (cj_schedule job)),
           (''description'', JStr (cj_description job)), (''prompt'', JStr (cj_prompt job)),
           (''guardCommand'', json_opt JStr (cj_guard_command job)), (''workspaceRoot'', JStr (cj_workspace_root job)),
           (''channelId'', JStr (cj_channel_id job)), (''guildId'', json_opt JStr (cj_guild_id job)),
           (''sourceChannel'', JStr (cj_source_channel job)), (''isDm'', JBool (cj_is_dm job)),
           (''createdBy'', JStr (cj_created_by job)), (''createdAt'', JStr (rfc3339 (cj_created_at job))),
           (''lastFiredAt'', json_opt (JStr \<circ> rfc3339) (cj_last_fired_at job)),
           (''guardTimeoutSeconds'', JInt (int (cj_guard_timeout_seconds job))), (''enabled'', JBool (cj_enabled job))]"

text \<open>The checks of a creation, in the code's order, up to the lock.\<close>

definition cron_request ::
  "'s cron_world \<Rightarrow> cron_tool_config \<Rightarrow> tool_env \<Rightarrow> cron_args \<Rightarrow> cron_job res" where
  "cron_request w config ctx args =
     rbind (ok_or (ToolError ''cron create unavailable: completion route context is missing'') (te_route ctx)) (\<lambda>route.
     rbind (required ''cron create requires non-empty schedule'' (ca_schedule args)) (\<lambda>schedule.
     rbind (case parse_schedule (kw_schedule w) schedule of
              Inl err \<Rightarrow> Inl (ToolError (''invalid cron schedule '' @ [SQ] @ schedule @ [SQ] @ '': '' @ err))
            | Inr _ \<Rightarrow> Inr ()) (\<lambda>_.
     rbind (required ''cron create requires non-empty description'' (ca_description args)) (\<lambda>description.
     rbind (required ''cron create requires non-empty prompt'' (ca_prompt args)) (\<lambda>prompt.
       Inr (new_cron_job (kw_uuid w) (kw_now w) ctx route
              (max 1 (unwrap_or 10 (jc_guard_timeout_seconds config)))
              schedule description prompt (non_empty (ca_guard_command args))))))))"

definition lock_store :: "'s cron_world \<Rightarrow> unit res" where
  "lock_store w = (if kw_lock w then Inr () else Inl (ToolError ''cron store lock poisoned''))"

definition cron_create ::
  "'s cron_world \<Rightarrow> cron_tool_config \<Rightarrow> tool_env \<Rightarrow> cron_args \<Rightarrow> cron_table \<Rightarrow>
   cron_table \<times> 'c execution_outcome res" where
  "cron_create w config ctx args table =
     (let max_jobs = unwrap_or 50 (jc_max_jobs_per_agent config)
      in case rbind (cron_request w config ctx args) (\<lambda>job.
              rbind (lock_store w) (\<lambda>_.
              rbind (count_jobs_for_agent (kw_read_fault w) (ev_agent_id ctx) table) (\<lambda>current_count.
                if current_count \<ge> max_jobs
                then Inl (ToolError (''cron create rejected: max jobs per agent ('' @ show_nat max_jobs @ '') reached''))
                else Inr job))) of
           Inl e \<Rightarrow> (table, Inl e)
         | Inr job \<Rightarrow>
             (case create_job (kw_write_fault w) job table of
                (table, r) \<Rightarrow> (table, rbind r (\<lambda>_. completed_text (kw_render w (created_json job))))))"

definition cron_delete ::
  "'s cron_world \<Rightarrow> tool_env \<Rightarrow> cron_args \<Rightarrow> cron_table \<Rightarrow> cron_table \<times> 'c execution_outcome res" where
  "cron_delete w ctx args table =
     (case rbind (required ''cron delete requires non-empty id'' (ca_id args)) (\<lambda>job_id.
             rbind (lock_store w) (\<lambda>_. Inr job_id)) of
        Inl e \<Rightarrow> (table, Inl e)
      | Inr job_id \<Rightarrow>
          (case delete_job (kw_write_fault w) job_id (ev_agent_id ctx) table of
             (table, r) \<Rightarrow>
               (table, rbind r (\<lambda>deleted. completed_text (kw_render w
                  (JObj [(''status'', JStr ''ok''), (''deleted'', JBool deleted), (''id'', JStr job_id)]))))))"

definition cron_list :: "'s cron_world \<Rightarrow> tool_env \<Rightarrow> cron_args \<Rightarrow> cron_table \<Rightarrow> 'c execution_outcome res" where
  "cron_list w ctx args table =
     rbind (lock_store w) (\<lambda>_.
     rbind (list_jobs (kw_read_fault w) (ev_agent_id ctx) (non_empty (ca_query args)) table) (\<lambda>jobs.
       completed_text (kw_render w (JObj [(''status'', JStr ''ok''),
         (''jobs'', JArr (map (job_to_json (kw_rfc3339 w)) jobs))]))))"

definition cron_tool ::
  "'s cron_world \<Rightarrow> cron_tool_config \<Rightarrow> tool_env \<Rightarrow> rstr \<Rightarrow> cron_table \<Rightarrow> cron_table \<times> 'c execution_outcome res" where
  "cron_tool w config ctx args_json table =
     (case kw_parse_args w args_json of
        Inl e \<Rightarrow> (table, Inl (ToolError (''cron args must be valid JSON object: '' @ e)))
      | Inr args \<Rightarrow>
          (case ca_action args of
             CronCreate \<Rightarrow> cron_create w config ctx args table
           | CronDelete \<Rightarrow> cron_delete w ctx args table
           | CronList \<Rightarrow> (table, cron_list w ctx args table)))"

section \<open>The scheduler\<close>

text \<open>
  What a tick meets: \<open>tw_next_after\<close> is the first time of a schedule after a given one,
  \<open>tw_host_run\<close> the exit code of a guard, \<open>tw_send_ok\<close> whether the gateway still takes a message,
  and \<open>tw_during\<close> what other tasks do to the
  table while the guard of a due job runs and its message waits for room.
\<close>

record 's tick_world =
  tw_schedule :: "'s schedule_reader"
  tw_next_after :: "'s \<Rightarrow> int \<Rightarrow> int option"
  tw_now :: int
  tw_env :: "rstr \<Rightarrow> (rstr \<times> rstr) list"
  tw_default_timeout :: nat
  tw_host_run :: "rstr \<Rightarrow> path \<Rightarrow> sandbox_policy \<Rightarrow> (rstr \<times> rstr) list \<Rightarrow> nat \<Rightarrow> int res"
  tw_trace_id :: "rstr \<Rightarrow> rstr"
  tw_send_ok :: "inbound_message \<Rightarrow> bool"
  tw_lock :: bool
  tw_list_fault :: "rstr option"
  tw_update_lock :: "rstr \<Rightarrow> bool"
  tw_update_fault :: "rstr \<Rightarrow> rstr option"
  tw_during :: "rstr \<Rightarrow> cron_table \<Rightarrow> cron_table"

abbreviation nanos_per_second :: int where "nanos_per_second \<equiv> 1000000000"

definition should_fire :: "'s schedule_reader \<Rightarrow> ('s \<Rightarrow> int \<Rightarrow> int option) \<Rightarrow> cron_job \<Rightarrow> int \<Rightarrow> bool" where
  "should_fire from_str next_after job now \<longleftrightarrow>
     (case parse_schedule from_str (cj_schedule job) of
        Inl _ \<Rightarrow> False
      | Inr schedule \<Rightarrow>
          (case cj_last_fired_at job of
             Some last_fired_at \<Rightarrow>
               (case next_after schedule last_fired_at of None \<Rightarrow> False | Some next \<Rightarrow> next \<le> now)
           | None \<Rightarrow>
               (let minute_start = now - now mod (60 * nanos_per_second)
                in case next_after schedule (minute_start - nanos_per_second) of
                     None \<Rightarrow> False
                   | Some next \<Rightarrow> minute_start \<le> next \<and> next \<le> now)))"

definition parse_source_channel :: "rstr \<Rightarrow> gateway_channel_kind option" where
  "parse_source_channel raw = (if trim raw = ''discord'' then Some Discord else None)"

definition run_guard_command :: "'s tick_world \<Rightarrow> rstr \<Rightarrow> path \<Rightarrow> (rstr \<times> rstr) list \<Rightarrow> nat \<Rightarrow> bool res" where
  "run_guard_command w command workspace_root env timeout_seconds =
     rbind (tw_host_run w command workspace_root
              \<lparr>sp_network_enabled = False, sp_extra_writable_paths = []\<rparr> env timeout_seconds)
       (\<lambda>exit_code. Inr (exit_code = 0))"

definition guard_passes :: "'s tick_world \<Rightarrow> cron_job \<Rightarrow> bool" where
  "guard_passes w job \<longleftrightarrow>
     (case cj_guard_command job of
        None \<Rightarrow> True
      | Some guard_command \<Rightarrow>
          (if trim guard_command = [] then True
           else
             (let timeout_secs = (if cj_guard_timeout_seconds job = 0 then max (tw_default_timeout w) 1
                                  else cj_guard_timeout_seconds job)
              in run_guard_command w guard_command (components (cj_workspace_root job)) (tw_env w (cj_agent_id job))
                   timeout_secs = Inr True)))"

definition cron_message :: "rstr \<Rightarrow> gateway_channel_kind \<Rightarrow> cron_job \<Rightarrow> inbound_message" where
  "cron_message trace_id source_channel job =
     \<lparr>im_trace_id = trace_id, im_source_channel = source_channel, im_target_agent_id = cj_agent_id job,
      im_session_key = ''agent:'' @ cj_agent_id job @ '':cron:'' @ cj_id job @ '':'' @ trace_id,
      im_source_message_id = None, im_channel_id = cj_channel_id job, im_guild_id = cj_guild_id job,
      im_is_dm = cj_is_dm job, im_user_id = ''system'', im_username = ''cron'', im_mentioned_bot = False,
      im_invoke = True,
      im_content = ''[SCHEDULED CRON EVENT]'' @ [NL] @ ''Job ID: '' @ cj_id job @ [NL] @ ''Description: '' @
        cj_description job @ [NL] @ ''Schedule: '' @ cj_schedule job @ [NL, NL] @ cj_prompt job\<rparr>"

text \<open>One job of a tick: the messages sent so far and the table, before and after.\<close>

definition fire_job ::
  "'s tick_world \<Rightarrow> inbound_message list \<times> cron_table \<Rightarrow> cron_job \<Rightarrow> inbound_message list \<times> cron_table" where
  "fire_job w st job =
     (case st of (sent, table) \<Rightarrow>
        if \<not> should_fire (tw_schedule w) (tw_next_after w) job (tw_now w) then (sent, table)
        else
          (let table = tw_during w (cj_id job) table
           in if \<not> guard_passes w job then (sent, table)
              else (case parse_source_channel (cj_source_channel job) of
                      None \<Rightarrow> (sent, table)
                    | Some source_channel \<Rightarrow>
                        (let inbound = cron_message (tw_trace_id w (cj_id job)) source_channel job
                         in if \<not> tw_send_ok w inbound then (sent, table)
                            else (sent @ [inbound],
                              if tw_update_lock w (cj_id job)
                              then fst (update_last_fired (tw_update_fault w (cj_id job)) (cj_id job) (tw_now w) table)
                              else table)))))"

definition run_tick :: "'s tick_world \<Rightarrow> cron_table \<Rightarrow> inbound_message list \<times> cron_table" where
  "run_tick w table =
     (if \<not> tw_lock w then ([], table)
      else (case list_all_enabled (tw_list_fault w) table of
              Inl _ \<Rightarrow> ([], table)
            | Inr jobs \<Rightarrow> foldl (fire_job w) ([], table) jobs))"

section \<open>What a tick does\<close>

text \<open>The jobs a tick delivers: due, not held back by their guard, for a known channel that takes the message.\<close>

definition delivered :: "'s tick_world \<Rightarrow> cron_job \<Rightarrow> bool" where
  "delivered w job \<longleftrightarrow>
     should_fire (tw_schedule w) (tw_next_after w) job (tw_now w) \<and> guard_passes w job \<and>
     (case parse_source_channel (cj_source_channel job) of
        None \<Rightarrow> False
      | Some source_channel \<Rightarrow> tw_send_ok w (cron_message (tw_trace_id w (cj_id job)) source_channel job))"

definition job_message :: "'s tick_world \<Rightarrow> cron_job \<Rightarrow> inbound_message" where
  "job_message w job = cron_message (tw_trace_id w (cj_id job)) Discord job"

lemma fire_job_sent: "fst (fire_job w st job) = fst st @ (if delivered w job then [job_message w job] else [])"
  by (cases st)
    (auto simp: fire_job_def delivered_def job_message_def parse_source_channel_def Let_def)

lemma foldl_fire_sent: "fst (foldl (fire_job w) st jobs) = fst st @ map (job_message w) (filter (delivered w) jobs)"
  by (induction jobs arbitrary: st) (auto simp: fire_job_sent)

text \<open>The rows of an id: those of the job, up to the time it last fired.\<close>

definition rows_of :: "rstr \<Rightarrow> (cron_job \<Rightarrow> bool) \<Rightarrow> cron_table \<Rightarrow> bool" where
  "rows_of i P table \<longleftrightarrow> (\<forall>j\<in>set table. cj_id j = i \<longrightarrow> P j)"

text \<open>Other tasks delete rows and add rows of new ids, and never change a row.\<close>

definition fair_during :: "'s tick_world \<Rightarrow> cron_table \<Rightarrow> bool" where
  "fair_during w table \<longleftrightarrow>
     (\<forall>k t. \<forall>j\<in>set (tw_during w k t). j \<in> set t \<or> cj_id j \<notin> cj_id ` set table)"

lemma fair_rows: "fair_during w table \<Longrightarrow> i \<in> cj_id ` set table \<Longrightarrow> rows_of i P t \<Longrightarrow> rows_of i P (tw_during w k t)"
  unfolding fair_during_def rows_of_def by blast

lemma update_rows:
  assumes "rows_of i P t" "\<And>j. P j \<Longrightarrow> k = i \<Longrightarrow> P (j\<lparr>cj_last_fired_at := Some now\<rparr>)"
  shows "rows_of i P (fst (update_last_fired fault k now t))"
  using assms by (auto simp: update_last_fired_def rows_of_def split: option.splits)

lemma fire_rows:
  assumes "fair_during w table" "i \<in> cj_id ` set table" "rows_of i P t"
    and "\<And>j. P j \<Longrightarrow> P (j\<lparr>cj_last_fired_at := Some (tw_now w)\<rparr>)"
  shows "rows_of i P (snd (fire_job w (sent, t) job))"
proof -
  let ?t = "tw_during w (cj_id job) t"
  have t: "rows_of i P ?t" by (rule fair_rows[OF assms(1,2,3)])
  have "rows_of i P (fst (update_last_fired fault k (tw_now w) ?t))" for fault k
    by (rule update_rows[OF t]) (rule assms(4))
  with t assms(3) show ?thesis
    unfolding fire_job_def Let_def prod.case by (auto split: option.splits)
qed

lemma foldl_fire_rows:
  assumes "fair_during w table" "i \<in> cj_id ` set table" "rows_of i P (snd st)"
    and "\<And>j. P j \<Longrightarrow> P (j\<lparr>cj_last_fired_at := Some (tw_now w)\<rparr>)"
  shows "rows_of i P (snd (foldl (fire_job w) st jobs))"
  using assms(3)
proof (induction jobs arbitrary: st)
  case (Cons job jobs)
  obtain sent t where st: "st = (sent, t)" by force
  have "rows_of i P (snd (fire_job w st job))"
    unfolding st by (rule fire_rows[where P = P, OF assms(1,2) _ assms(4)]) (use Cons.prems in \<open>simp_all add: st\<close>)
  then show ?case using Cons.IH by simp
qed simp

lemma fire_delivered_rows:
  assumes "delivered w job" "tw_update_lock w (cj_id job)" "tw_update_fault w (cj_id job) = None"
    and "rows_of (cj_id job) (\<lambda>j. cj_schedule j = s) (tw_during w (cj_id job) t)"
  shows "rows_of (cj_id job) (\<lambda>j. cj_last_fired_at j = Some (tw_now w) \<and> cj_schedule j = s) (snd (fire_job w (sent, t) job))"
proof -
  let ?t = "tw_during w (cj_id job) t"
  obtain c where "parse_source_channel (cj_source_channel job) = Some c"
    "tw_send_ok w (cron_message (tw_trace_id w (cj_id job)) c job)"
    using assms(1) by (auto simp: delivered_def split: option.splits)
  then have "snd (fire_job w (sent, t) job) =
      map (\<lambda>j. if cj_id j = cj_id job then j\<lparr>cj_last_fired_at := Some (tw_now w)\<rparr> else j) ?t"
    using assms(1-3) by (simp add: fire_job_def delivered_def update_last_fired_def Let_def)
  then show ?thesis using assms(4) by (auto simp: rows_of_def)
qed

lemma tick_marks_fired:
  assumes "fair_during w table" "distinct (map cj_id table)" "job \<in> set table" "cj_enabled job" "delivered w job"
    and "tw_update_lock w (cj_id job)" "tw_update_fault w (cj_id job) = None"
  shows "rows_of (cj_id job) (\<lambda>j. cj_last_fired_at j = Some (tw_now w) \<and> cj_schedule j = cj_schedule job)
    (snd (foldl (fire_job w) ([], table) (filter cj_enabled table)))"
proof -
  let ?i = "cj_id job" let ?P = "\<lambda>j. cj_schedule j = cj_schedule job"
  let ?Q = "\<lambda>j. cj_last_fired_at j = Some (tw_now w) \<and> cj_schedule j = cj_schedule job"
  have i: "?i \<in> cj_id ` set table" using assms(3) by blast
  have start: "rows_of ?i ?P table"
    using assms(2,3) by (auto simp: rows_of_def distinct_map dest: inj_onD)
  have "job \<in> set (filter cj_enabled table)" using assms(3,4) by simp
  then obtain xs ys where split: "filter cj_enabled table = xs @ job # ys" by (meson split_list)
  obtain sent t where st: "foldl (fire_job w) ([], table) xs = (sent, t)" by force
  have t: "rows_of ?i ?P t"
    using foldl_fire_rows[OF assms(1) i, of ?P "([], table)" xs] start by (simp add: st)
  have "rows_of ?i ?P (tw_during w ?i t)" by (rule fair_rows[OF assms(1) i t])
  from fire_delivered_rows[OF assms(5-7) this, of sent]
  have "rows_of ?i ?Q (snd (fire_job w (sent, t) job))" .
  then have "rows_of ?i ?Q (snd (foldl (fire_job w) (fire_job w (sent, t) job) ys))"
    by (rule foldl_fire_rows[OF assms(1) i]) simp
  then show ?thesis by (simp add: split st)
qed

lemma should_fire_after:
  assumes "parse_schedule from_str (cj_schedule job) = Inr schedule" "cj_last_fired_at job = Some fired"
  shows "should_fire from_str next_after job now \<longleftrightarrow> (\<exists>n. next_after schedule fired = Some n \<and> n \<le> now)"
  using assms by (simp add: should_fire_def split: option.splits)

lemma run_tick_fold:
  "tw_lock w \<Longrightarrow> tw_list_fault w = None \<Longrightarrow> run_tick w table = foldl (fire_job w) ([], table) (filter cj_enabled table)"
  by (simp add: run_tick_def list_all_enabled_def)

text \<open>
  C22. A tick delivers every enabled job that is due and whose guard passes, in the order of the
  table and nothing else; a delivered job is marked with the time of the tick whatever other
  tasks do to other rows meanwhile, and from then on it is due again exactly when the first time
  of its schedule after that tick has come: once per occurrence, with missed occurrences
  delivered as one.
\<close>

theorem tick_delivers_due_jobs:
  assumes "fair_during w table" "distinct (map cj_id table)" "tw_lock w" "tw_list_fault w = None"
    and "job \<in> set table" "cj_enabled job" "delivered w job"
    and "tw_update_lock w (cj_id job)" "tw_update_fault w (cj_id job) = None"
    and "parse_schedule (tw_schedule w) (cj_schedule job) = Inr schedule"
  shows "fst (run_tick w table) = map (job_message w) (filter (delivered w) (filter cj_enabled table)) \<and>
    job_message w job \<in> set (fst (run_tick w table)) \<and>
    (\<forall>j\<in>set (snd (run_tick w table)). cj_id j = cj_id job \<longrightarrow>
       (should_fire (tw_schedule w) (tw_next_after w) j later \<longleftrightarrow>
          (\<exists>n. tw_next_after w schedule (tw_now w) = Some n \<and> n \<le> later)))"
proof -
  note tick = run_tick_fold[OF assms(3,4), of table]
  have sent: "fst (run_tick w table) = map (job_message w) (filter (delivered w) (filter cj_enabled table))"
    by (simp add: tick foldl_fire_sent)
  have "should_fire (tw_schedule w) (tw_next_after w) j later \<longleftrightarrow>
      (\<exists>n. tw_next_after w schedule (tw_now w) = Some n \<and> n \<le> later)"
    if "j \<in> set (snd (run_tick w table))" "cj_id j = cj_id job" for j
  proof -
    have "cj_last_fired_at j = Some (tw_now w)" "cj_schedule j = cj_schedule job"
      using tick_marks_fired[OF assms(1,2,5-9)] that by (auto simp: rows_of_def tick)
    with assms(10) show ?thesis by (simp add: should_fire_after)
  qed
  with sent assms(5-7) show ?thesis by auto
qed

abbreviation sample_job :: cron_job where
  "sample_job \<equiv> \<lparr>cj_id = ''j'', cj_agent_id = ''a'', cj_schedule = ''s'', cj_description = ''d'', cj_prompt = ''p'',
     cj_guard_command = None, cj_workspace_root = ''/w'', cj_channel_id = ''c'', cj_guild_id = None,
     cj_source_channel = ''discord'', cj_is_dm = True, cj_created_by = ''u'', cj_created_at = 0,
     cj_last_fired_at = None, cj_guard_timeout_seconds = 10, cj_enabled = True\<rparr>"

text \<open>Every minute, at the time of a tick on the minute.\<close>

abbreviation sample_tick :: "unit tick_world" where
  "sample_tick \<equiv> \<lparr>tw_schedule = (\<lambda>_. Inr ()), tw_next_after = (\<lambda>_ t. Some ((t div 60000000000 + 1) * 60000000000)),
     tw_now = 120000000000, tw_env = (\<lambda>_. []), tw_default_timeout = 10, tw_host_run = (\<lambda>_ _ _ _ _. Inr 0),
     tw_trace_id = (\<lambda>i. i), tw_send_ok = (\<lambda>_. True), tw_lock = True, tw_list_fault = None,
     tw_update_lock = (\<lambda>_. True), tw_update_fault = (\<lambda>_. None), tw_during = (\<lambda>_ t. t)\<rparr>"

theorem tick_delivers_due_jobs_witness:
  "fst (run_tick sample_tick [sample_job]) = [job_message sample_tick sample_job]"
proof -
  have "delivered sample_tick sample_job"
    by (simp add: delivered_def should_fire_def parse_schedule_def guard_passes_def parse_source_channel_def str_simps)
  moreover have "fair_during sample_tick [sample_job]" by (simp add: fair_during_def)
  moreover have "parse_schedule (tw_schedule sample_tick) (cj_schedule sample_job) = Inr ()"
    by (simp add: parse_schedule_def)
  ultimately show ?thesis
    using tick_delivers_due_jobs[of sample_tick "[sample_job]" sample_job "()"] by simp
qed

text \<open>
  What depends on the past of a job: one that fired before stays due until it is delivered, one
  that never fired is due only in the minute of an occurrence, and not at all when its second lies
  behind the second of the ticks.
\<close>

lemma due_stays_due:
  "cj_last_fired_at job = Some fired \<Longrightarrow> should_fire from_str next_after job now \<Longrightarrow> now \<le> later \<Longrightarrow>
   should_fire from_str next_after job later"
  by (auto simp: should_fire_def split: sum.splits option.splits)

lemma late_second_never_fires:
  assumes "cj_last_fired_at job = None"
    and "\<And>schedule t n. next_after schedule t = Some n \<Longrightarrow> now mod (60 * nanos_per_second) < n mod (60 * nanos_per_second)"
  shows "\<not> should_fire from_str next_after job now"
proof
  let ?m = "60 * nanos_per_second"
  assume "should_fire from_str next_after job now"
  then obtain schedule t n where n: "next_after schedule t = Some n" "now - now mod ?m \<le> n" "n \<le> now"
    using assms(1) by (auto simp: should_fire_def Let_def split: sum.splits option.splits)
  have "n div ?m = now div ?m"
  proof (rule antisym)
    show "n div ?m \<le> now div ?m" using n(3) by (simp add: zdiv_mono1)
    have "(now - now mod ?m) div ?m \<le> n div ?m" using n(2) by (simp add: zdiv_mono1)
    then show "now div ?m \<le> n div ?m" by (simp add: minus_mod_eq_mult_div)
  qed
  then have "n - n mod ?m = now - now mod ?m" by (simp add: minus_mod_eq_mult_div)
  then show False using assms(2)[OF n(1)] n(3) by linarith
qed

section \<open>The shape of the table\<close>

definition job_ok :: "'s schedule_reader \<Rightarrow> cron_job \<Rightarrow> bool" where
  "job_ok from_str job \<longleftrightarrow>
     \<not> isl (parse_schedule from_str (cj_schedule job)) \<and> cj_schedule job \<noteq> [] \<and> cj_description job \<noteq> [] \<and>
     cj_prompt job \<noteq> [] \<and> cj_guard_command job \<noteq> Some [] \<and> 1 \<le> cj_guard_timeout_seconds job \<and>
     parse_source_channel (cj_source_channel job) \<noteq> None"

definition agent_jobs :: "rstr \<Rightarrow> cron_table \<Rightarrow> nat" where
  "agent_jobs agent_id table = length (filter (\<lambda>j. cj_agent_id j = agent_id) table)"

definition table_ok :: "'s schedule_reader \<Rightarrow> nat \<Rightarrow> cron_table \<Rightarrow> bool" where
  "table_ok from_str max_jobs table \<longleftrightarrow>
     distinct (map cj_id table) \<and> list_all (job_ok from_str) table \<and> (\<forall>a. agent_jobs a table \<le> max_jobs)"

lemma table_ok_create:
  assumes "table_ok f m table" "job_ok f job" "agent_jobs (cj_agent_id job) table < m"
  shows "table_ok f m (fst (create_job fault job table))"
  using assms by (auto simp: create_job_def table_ok_def agent_jobs_def split: option.splits)

lemma table_ok_filter: "table_ok f m table \<Longrightarrow> table_ok f m (filter P table)"
proof -
  assume t: "table_ok f m table"
  have "agent_jobs a (filter P table) \<le> agent_jobs a table" for a
    by (induction table) (auto simp: agent_jobs_def)
  with t show ?thesis
    unfolding table_ok_def by (auto simp: distinct_map_filter list_all_iff intro: le_trans)
qed

lemma table_ok_update: "table_ok f m table \<Longrightarrow> table_ok f m (fst (update_last_fired fault k now table))"
proof -
  let ?u = "\<lambda>j. if cj_id j = k then j\<lparr>cj_last_fired_at := Some now\<rparr> else j"
  assume t: "table_ok f m table"
  have "map cj_id (map ?u table) = map cj_id table" by simp
  moreover have "agent_jobs a (map ?u table) = agent_jobs a table" for a
    by (induction table) (auto simp: agent_jobs_def)
  moreover have "list_all (job_ok f) (map ?u table)"
    using t by (auto simp: table_ok_def list_all_iff job_ok_def)
  ultimately have "table_ok f m (map ?u table)" using t by (simp only: table_ok_def simp_thms)
  with t show ?thesis by (simp add: update_last_fired_def split: option.splits)
qed

lemma non_empty_Some: "non_empty v = Some s \<Longrightarrow> s \<noteq> []"
  by (cases v) (auto simp: non_empty_def non_empty_trim_def split: if_splits)

lemma required_Inr: "required m v = Inr s \<Longrightarrow> s \<noteq> []"
  by (auto simp: required_def dest: non_empty_Some)

lemma discord_is_known: "parse_source_channel (channel_kind_as_str c) = Some c"
  by (cases c) (simp add: parse_source_channel_def str_simps)

lemma checked_Inr: "(case x of Inl e \<Rightarrow> Inl (g e) | Inr _ \<Rightarrow> Inr ()) = Inr u \<longleftrightarrow> (\<exists>s. x = Inr s)"
  by (cases x) simp_all

lemma cron_request_ok:
  assumes "cron_request w config ctx args = Inr job"
  shows "job_ok (kw_schedule w) job \<and> cj_agent_id job = ev_agent_id ctx"
proof -
  obtain route schedule description prompt s where
    job: "job = new_cron_job (kw_uuid w) (kw_now w) ctx route (max 1 (unwrap_or 10 (jc_guard_timeout_seconds config)))
      schedule description prompt (non_empty (ca_guard_command args))"
    and "required ''cron create requires non-empty schedule'' (ca_schedule args) = Inr schedule"
    and "parse_schedule (kw_schedule w) schedule = Inr s"
    and "required ''cron create requires non-empty description'' (ca_description args) = Inr description"
    and "required ''cron create requires non-empty prompt'' (ca_prompt args) = Inr prompt"
    using assms by (auto simp: cron_request_def rbind_eq_Inr checked_Inr)
  then show ?thesis
    by (auto simp: job new_cron_job_def job_ok_def discord_is_known dest: required_Inr non_empty_Some)
qed

lemma cron_create_ok:
  assumes "table_ok (kw_schedule w) (unwrap_or 50 (jc_max_jobs_per_agent config)) table"
  shows "table_ok (kw_schedule w) (unwrap_or 50 (jc_max_jobs_per_agent config)) (fst (cron_create w config ctx args table))"
proof -
  let ?m = "unwrap_or 50 (jc_max_jobs_per_agent config)"
  let ?checked = "rbind (cron_request w config ctx args) (\<lambda>job. rbind (lock_store w) (\<lambda>_.
      rbind (count_jobs_for_agent (kw_read_fault w) (ev_agent_id ctx) table) (\<lambda>current_count.
        if current_count \<ge> ?m
        then Inl (ToolError (''cron create rejected: max jobs per agent ('' @ show_nat ?m @ '') reached''))
        else Inr job)))"
  have unfold: "fst (cron_create w config ctx args table) =
      (case ?checked of Inl e \<Rightarrow> table | Inr job \<Rightarrow> fst (create_job (kw_write_fault w) job table))"
    unfolding cron_create_def Let_def by (simp split: sum.splits prod.splits)
  show ?thesis
  proof (cases ?checked)
    case (Inr job)
    then have "cron_request w config ctx args = Inr job" "agent_jobs (ev_agent_id ctx) table < ?m"
      by (auto simp: rbind_eq_Inr count_jobs_for_agent_def agent_jobs_def split: option.splits if_splits)
    with cron_request_ok[of w config ctx args job] table_ok_create[OF assms, of job] show ?thesis
      unfolding unfold Inr by simp
  qed (use assms in \<open>simp only: unfold sum.case\<close>)
qed

lemma cron_delete_ok: "table_ok f m table \<Longrightarrow> table_ok f m (fst (cron_delete w ctx args table))"
  using table_ok_filter[of f m table]
  by (auto simp: cron_delete_def delete_job_def split: sum.splits prod.splits option.splits)

lemma cron_tool_ok:
  assumes "table_ok (kw_schedule w) (unwrap_or 50 (jc_max_jobs_per_agent config)) table"
  shows "table_ok (kw_schedule w) (unwrap_or 50 (jc_max_jobs_per_agent config)) (fst (cron_tool w config ctx args_json table))"
  using assms cron_create_ok[OF assms] cron_delete_ok[OF assms]
  by (auto simp: cron_tool_def split: sum.splits cron_action.splits)

lemma fire_job_ok:
  assumes "\<And>k t. table_ok f m t \<Longrightarrow> table_ok f m (tw_during w k t)" "table_ok f m (snd st)"
  shows "table_ok f m (snd (fire_job w st job))"
proof -
  obtain sent t where st: "st = (sent, t)" by force
  let ?t = "tw_during w (cj_id job) t"
  have "table_ok f m ?t" using assms by (simp add: st)
  then show ?thesis
    using assms(2) table_ok_update[of f m ?t] unfolding st fire_job_def Let_def prod.case by (auto split: option.splits)
qed

lemma run_tick_ok:
  assumes "\<And>k t. table_ok f m t \<Longrightarrow> table_ok f m (tw_during w k t)" "table_ok f m table"
  shows "table_ok f m (snd (run_tick w table))"
proof -
  have "table_ok f m (snd (foldl (fire_job w) st jobs))" if "table_ok f m (snd st)" for st jobs
    using that
  proof (induction jobs arbitrary: st)
    case (Cons job jobs)
    then show ?case using fire_job_ok[where w = w, OF assms(1) Cons.prems] by simp
  qed simp
  with assms(2) show ?thesis by (simp add: run_tick_def split: sum.splits)
qed

text \<open>
  C23. The table of jobs is always well formed: whatever calls of the tool and ticks happen, in
  whatever interleaving, ids are unique, every row has a readable schedule, a known channel, a
  description, a prompt, no empty guard and a positive guard timeout, and no agent has more than
  the configured number of jobs.
\<close>

theorem cron_table_well_formed:
  assumes "table_ok (kw_schedule w) (unwrap_or 50 (jc_max_jobs_per_agent config)) table"
    and "\<forall>k t. table_ok (kw_schedule w) (unwrap_or 50 (jc_max_jobs_per_agent config)) t \<longrightarrow>
      table_ok (kw_schedule w) (unwrap_or 50 (jc_max_jobs_per_agent config)) (tw_during tw k t)"
  shows "table_ok (kw_schedule w) (unwrap_or 50 (jc_max_jobs_per_agent config)) (fst (cron_tool w config ctx args_json table)) \<and>
    table_ok (kw_schedule w) (unwrap_or 50 (jc_max_jobs_per_agent config)) (snd (run_tick tw table))"
  using cron_tool_ok[OF assms(1)] run_tick_ok[OF assms(2)[rule_format] assms(1)] by blast

abbreviation sample_cron_world :: "unit cron_world" where
  "sample_cron_world \<equiv> \<lparr>kw_parse_args = (\<lambda>_. Inl []), kw_schedule = (\<lambda>_. Inr ()), kw_render = (\<lambda>_. []), kw_rfc3339 = (\<lambda>_. []),
     kw_lock = True, kw_read_fault = None, kw_write_fault = None, kw_uuid = ''u'', kw_now = 0\<rparr>"

theorem cron_table_well_formed_witness:
  "table_ok (\<lambda>_. Inr ()) 50 [sample_job] \<and> table_ok (\<lambda>_. Inr ()) 50 (snd (run_tick sample_tick [sample_job]))"
proof -
  have u: "unwrap_or 50 (jc_max_jobs_per_agent default_cron) = 50"
    by (simp add: default_cron_def default_cron_max_jobs_per_agent_def unwrap_or_def)
  have t: "table_ok (kw_schedule sample_cron_world) (unwrap_or 50 (jc_max_jobs_per_agent default_cron)) [sample_job]"
    by (simp add: u table_ok_def job_ok_def agent_jobs_def parse_schedule_def parse_source_channel_def str_simps)
  have "table_ok (kw_schedule sample_cron_world) (unwrap_or 50 (jc_max_jobs_per_agent default_cron))
      (snd (run_tick sample_tick [sample_job]))"
    by (rule cron_table_well_formed[OF t, THEN conjunct2]) simp
  with t u show ?thesis by simp
qed

end
