(* ===== verification/ExecConfig.thy ===== *)
theory ExecConfig
  imports AgentTools
begin

text \<open>
  \<open>src/config/execution.rs\<close>: the execution settings, their defaults (\<open>src/config/defaults.rs\<close>),
  the overrides of an agent and the bounds of the recall settings. A 32-bit float is a value of
  any type with the operations below; a literal \<open>n/d\<close> is the float nearest to that fraction, so
  nothing here depends on how an operation rounds.
\<close>

section \<open>Floats\<close>

record 'f float_ops =
  fl_lit :: "int \<Rightarrow> int \<Rightarrow> 'f"
  fl_add :: "'f \<Rightarrow> 'f \<Rightarrow> 'f"
  fl_sub :: "'f \<Rightarrow> 'f \<Rightarrow> 'f"
  fl_mul :: "'f \<Rightarrow> 'f \<Rightarrow> 'f"
  fl_div :: "'f \<Rightarrow> 'f \<Rightarrow> 'f"
  fl_lt :: "'f \<Rightarrow> 'f \<Rightarrow> bool"
  fl_le :: "'f \<Rightarrow> 'f \<Rightarrow> bool"
  fl_bytes :: "'f \<Rightarrow> rstr"

text \<open>\<open>f32::clamp\<close>: not-a-number stays what it is.\<close>

definition fl_clamp :: "'f float_ops \<Rightarrow> 'f \<Rightarrow> 'f \<Rightarrow> 'f \<Rightarrow> 'f" where
  "fl_clamp fl lo hi x = (if fl_lt fl x lo then lo else if fl_lt fl hi x then hi else x)"

text \<open>What the comparisons of two numbers have in common with those of a linear order.\<close>

definition float_order :: "'f float_ops \<Rightarrow> ('f \<Rightarrow> bool) \<Rightarrow> bool" where
  "float_order fl num \<longleftrightarrow>
     (\<forall>n d. num (fl_lit fl n d)) \<and>
     (\<forall>x y. num x \<longrightarrow> num y \<longrightarrow> fl_le fl x y = (\<not> fl_lt fl y x)) \<and>
     (\<forall>x y z. num x \<longrightarrow> num y \<longrightarrow> num z \<longrightarrow> fl_lt fl x y \<longrightarrow> fl_lt fl y z \<longrightarrow> fl_lt fl x z) \<and>
     (\<forall>x. num x \<longrightarrow> \<not> fl_lt fl x x)"

section \<open>Settings\<close>

record 'f memory_recall_config =
  mc_enabled :: bool
  mc_top_k :: nat
  mc_min_score :: 'f
  mc_long_term_weight :: 'f
  mc_recall_word_count_threshold :: nat
  mc_short_term_context_radius :: nat
  mc_long_term_max_chars :: nat
  mc_short_term_max_chars :: nat

text \<open>\<open>src/config/defaults.rs\<close>: the defaults of the execution settings.\<close>

definition default_max_steps :: "32 word" where
  "default_max_steps = 8"

definition default_history_messages :: nat where
  "default_history_messages = 10"

definition default_safe_error_reply :: rstr where
  "default_safe_error_reply = ''I hit an internal error while processing that request.''"

definition default_memory_recall_enabled :: bool where
  "default_memory_recall_enabled = True"

definition default_memory_recall_top_k :: nat where
  "default_memory_recall_top_k = 3"

definition default_memory_recall_recall_word_count_threshold :: nat where
  "default_memory_recall_recall_word_count_threshold = 3"

definition default_memory_recall_short_term_context_radius :: nat where
  "default_memory_recall_short_term_context_radius = 2"

definition default_memory_recall_long_term_max_chars :: nat where
  "default_memory_recall_long_term_max_chars = 720"

definition default_memory_recall_short_term_max_chars :: nat where
  "default_memory_recall_short_term_max_chars = 480"

definition default_memory_recall_min_score :: "'f float_ops \<Rightarrow> 'f" where
  "default_memory_recall_min_score fl = fl_lit fl 72 100"

definition default_memory_recall_long_term_weight :: "'f float_ops \<Rightarrow> 'f" where
  "default_memory_recall_long_term_weight fl = fl_lit fl 65 100"

lemmas recall_default_defs = default_memory_recall_enabled_def
  default_memory_recall_top_k_def
  default_memory_recall_recall_word_count_threshold_def
  default_memory_recall_short_term_context_radius_def
  default_memory_recall_long_term_max_chars_def
  default_memory_recall_short_term_max_chars_def
  default_memory_recall_min_score_def default_memory_recall_long_term_weight_def

definition default_memory_recall :: "'f float_ops \<Rightarrow> 'f memory_recall_config" where
  "default_memory_recall fl =
     \<lparr>mc_enabled = default_memory_recall_enabled, mc_top_k = default_memory_recall_top_k,
      mc_min_score = default_memory_recall_min_score fl,
      mc_long_term_weight = default_memory_recall_long_term_weight fl,
      mc_recall_word_count_threshold = default_memory_recall_recall_word_count_threshold,
      mc_short_term_context_radius = default_memory_recall_short_term_context_radius,
      mc_long_term_max_chars = default_memory_recall_long_term_max_chars,
      mc_short_term_max_chars = default_memory_recall_short_term_max_chars\<rparr>"

definition normalized :: "'f float_ops \<Rightarrow> 'f memory_recall_config \<Rightarrow> 'f memory_recall_config" where
  "normalized fl self =
     \<lparr>mc_enabled = mc_enabled self,
      mc_top_k = clamp 1 10 (mc_top_k self),
      mc_min_score = fl_clamp fl (fl_lit fl 0 1) (fl_lit fl 1 1) (mc_min_score self),
      mc_long_term_weight = fl_clamp fl (fl_lit fl 0 1) (fl_lit fl 1 1) (mc_long_term_weight self),
      mc_recall_word_count_threshold = clamp 1 10 (mc_recall_word_count_threshold self),
      mc_short_term_context_radius = clamp 0 5 (mc_short_term_context_radius self),
      mc_long_term_max_chars = clamp 100 4000 (mc_long_term_max_chars self),
      mc_short_term_max_chars = clamp 100 4000 (mc_short_term_max_chars self)\<rparr>"

record transparency_config =
  tp_tool_calls :: bool
  tp_memory_recall :: bool

text \<open>\<open>max_steps\<close> is the bound of the loop; a map keyed by strings is an association list.\<close>

record 'f execution_defaults =
  ed_max_steps :: "32 word"
  ed_history_messages :: nat
  ed_env :: "(rstr \<times> secret) list"
  ed_transparency :: transparency_config
  ed_memory_recall :: "'f memory_recall_config"
  ed_safe_error_reply :: rstr

definition default_execution :: "'f float_ops \<Rightarrow> 'f execution_defaults" where
  "default_execution fl =
     \<lparr>ed_max_steps = default_max_steps, ed_history_messages = default_history_messages, ed_env = [],
      ed_transparency = \<lparr>tp_tool_calls = False, tp_memory_recall = False\<rparr>,
      ed_memory_recall = default_memory_recall fl,
      ed_safe_error_reply = default_safe_error_reply\<rparr>"

record transparency_overrides =
  to_tool_calls :: "bool option"
  to_memory_recall :: "bool option"

record 'f memory_recall_overrides =
  mo_enabled :: "bool option"
  mo_top_k :: "nat option"
  mo_min_score :: "'f option"
  mo_long_term_weight :: "'f option"
  mo_recall_word_count_threshold :: "nat option"
  mo_short_term_context_radius :: "nat option"
  mo_long_term_max_chars :: "nat option"
  mo_short_term_max_chars :: "nat option"

record 'f execution_overrides =
  eo_max_steps :: "32 word option"
  eo_history_messages :: "nat option"
  eo_env :: "(rstr \<times> secret) list option"
  eo_transparency :: "transparency_overrides option"
  eo_memory_recall :: "'f memory_recall_overrides option"
  eo_safe_error_reply :: "rstr option"

definition no_overrides :: "'f execution_overrides" where
  "no_overrides = \<lparr>eo_max_steps = None, eo_history_messages = None, eo_env = None, eo_transparency = None,
     eo_memory_recall = None, eo_safe_error_reply = None\<rparr>"

text \<open>\<open>BTreeMap::extend\<close>: a later value of a key replaces the earlier one.\<close>

definition extend_env :: "(rstr \<times> secret) list \<Rightarrow> (rstr \<times> secret) list \<Rightarrow> (rstr \<times> secret) list" where
  "extend_env env extra = foldl (\<lambda>m (k, v). AList.update k v m) env extra"

definition merge_memory_recall ::
  "'f memory_recall_config \<Rightarrow> 'f memory_recall_overrides option \<Rightarrow> 'f memory_recall_config" where
  "merge_memory_recall base overrides =
     (case overrides of
        None \<Rightarrow> base
      | Some o1 \<Rightarrow>
          \<lparr>mc_enabled = unwrap_or (mc_enabled base) (mo_enabled o1),
           mc_top_k = unwrap_or (mc_top_k base) (mo_top_k o1),
           mc_min_score = unwrap_or (mc_min_score base) (mo_min_score o1),
           mc_long_term_weight = unwrap_or (mc_long_term_weight base) (mo_long_term_weight o1),
           mc_recall_word_count_threshold =
             unwrap_or (mc_recall_word_count_threshold base) (mo_recall_word_count_threshold o1),
           mc_short_term_context_radius =
             unwrap_or (mc_short_term_context_radius base) (mo_short_term_context_radius o1),
           mc_long_term_max_chars = unwrap_or (mc_long_term_max_chars base) (mo_long_term_max_chars o1),
           mc_short_term_max_chars = unwrap_or (mc_short_term_max_chars base) (mo_short_term_max_chars o1)\<rparr>)"

definition merge_with_overrides :: "'f execution_defaults \<Rightarrow> 'f execution_overrides \<Rightarrow> 'f execution_defaults" where
  "merge_with_overrides self overrides =
     \<lparr>ed_max_steps = unwrap_or (ed_max_steps self) (eo_max_steps overrides),
      ed_history_messages = unwrap_or (ed_history_messages self) (eo_history_messages overrides),
      ed_env = (case eo_env overrides of Some extra \<Rightarrow> extend_env (ed_env self) extra | None \<Rightarrow> ed_env self),
      ed_transparency =
        \<lparr>tp_tool_calls = unwrap_or (tp_tool_calls (ed_transparency self))
           (Option.bind (eo_transparency overrides) to_tool_calls),
         tp_memory_recall = unwrap_or (tp_memory_recall (ed_transparency self))
           (Option.bind (eo_transparency overrides) to_memory_recall)\<rparr>,
      ed_memory_recall = merge_memory_recall (ed_memory_recall self) (eo_memory_recall overrides),
      ed_safe_error_reply = unwrap_or (ed_safe_error_reply self) (eo_safe_error_reply overrides)\<rparr>"

datatype log_level = LogTrace | LogDebug | LogInfo | LogWarn | LogError

fun log_level_as_str :: "log_level \<Rightarrow> rstr" where
  "log_level_as_str LogTrace = ''trace''"
| "log_level_as_str LogDebug = ''debug''"
| "log_level_as_str LogInfo = ''info''"
| "log_level_as_str LogWarn = ''warn''"
| "log_level_as_str LogError = ''error''"

section \<open>Lemmas\<close>

lemma normalized_bounds:
  "1 \<le> mc_top_k (normalized fl c)" "mc_top_k (normalized fl c) \<le> 10"
  "1 \<le> mc_recall_word_count_threshold (normalized fl c)"
  "mc_short_term_context_radius (normalized fl c) \<le> 5"
  "100 \<le> mc_long_term_max_chars (normalized fl c)" "mc_long_term_max_chars (normalized fl c) \<le> 4000"
  "100 \<le> mc_short_term_max_chars (normalized fl c)" "mc_short_term_max_chars (normalized fl c) \<le> 4000"
  by (simp_all add: normalized_def clamp_def)

lemma fl_clamp_idem: "fl_clamp fl lo hi (fl_clamp fl lo hi x) = fl_clamp fl lo hi x" if "\<not> fl_lt fl hi lo" "\<not> fl_lt fl lo lo" "\<not> fl_lt fl hi hi"
  using that by (simp add: fl_clamp_def)

lemma normalized_idem:
  assumes "float_order fl num" "\<not> fl_lt fl (fl_lit fl 1 1) (fl_lit fl 0 1)"
  shows "normalized fl (normalized fl c) = normalized fl c"
proof -
  have "\<not> fl_lt fl (fl_lit fl n d) (fl_lit fl n d)" for n d using assms(1) unfolding float_order_def by blast
  then show ?thesis
    using assms(2) unfolding normalized_def
    by (simp add: fl_clamp_idem clamp_def)
qed

lemma map_of_extend_env:
  "map_of (extend_env env extra) k = or_else (map_of (rev extra) k) (map_of env k)"
proof (induction extra rule: rev_induct)
  case Nil
  then show ?case by (simp add: extend_env_def or_else_def)
next
  case (snoc e extra)
  have "extend_env env (extra @ [e]) = AList.update (fst e) (snd e) (extend_env env extra)"
    by (simp add: extend_env_def case_prod_beta)
  then show ?case using snoc by (simp add: update_conv or_else_def)
qed

lemma merge_no_overrides: "merge_with_overrides d no_overrides = d"
  by (simp add: merge_with_overrides_def no_overrides_def merge_memory_recall_def unwrap_or_def)

end
