(* ===== verification/Memory.thy ===== *)
theory Memory
  imports ExecConfig
begin

text \<open>
  \<open>src/memory/\<close>: the stored conversation, the long-term facts and the recall over both. The two
  SQLite files are one record of tables, each a list of rows in the order of insertion. SQLite
  executes a statement or fails it without effect: \<open>faults k\<close> is the error of the k-th database
  call of an operation, the first being the connection from the pool, and a failing transaction
  changes nothing. The embedding model and the nearest-neighbour search of the vector extension
  (the ids and distances of the \<open>k\<close> nearest vectors, nearest first) are arguments, as are time
  stamps, which are compared as texts.
\<close>

section \<open>Roles, messages and hits\<close>

datatype stored_role = StoredUser | StoredAssistant | StoredSystem | StoredTool

fun role_as_db_str :: "stored_role \<Rightarrow> rstr" where
  "role_as_db_str StoredUser = ''user''"
| "role_as_db_str StoredAssistant = ''assistant''"
| "role_as_db_str StoredSystem = ''system''"
| "role_as_db_str StoredTool = ''tool''"

definition role_from_db_str :: "rstr \<Rightarrow> stored_role option" where
  "role_from_db_str raw =
     (if raw = ''user'' then Some StoredUser
      else if raw = ''assistant'' then Some StoredAssistant
      else if raw = ''system'' then Some StoredSystem
      else if raw = ''tool'' then Some StoredTool
      else None)"

record stored_message =
  sm_role :: stored_role
  sm_content :: rstr
  sm_username :: "rstr option"

datatype memory_hit_store = LongTermHit | ShortTermHit
datatype memory_store_scope = CombinedScope | LongTermScope | ShortTermScope

record 'f memory_recall_hit =
  mh_store :: memory_hit_store
  mh_content :: rstr
  mh_kind :: "rstr option"
  mh_importance :: "int option"
  mh_context_messages :: "stored_message list option"
  mh_raw_similarity :: 'f
  mh_final_score :: 'f

section \<open>Tables\<close>

record message_row =
  mr_id :: int
  mr_session_id :: rstr
  mr_role :: rstr
  mr_content :: rstr
  mr_username :: "rstr option"
  mr_created_at :: rstr

record fact_row =
  ff_id :: int
  ff_source_session_id :: rstr
  ff_content :: rstr
  ff_kind :: rstr
  ff_importance :: int
  ff_embedding :: rstr
  ff_created_at :: rstr

text \<open>The last ids are those of the \<open>AUTOINCREMENT\<close> keys.\<close>

record memory_db =
  md_sessions :: "(rstr \<times> rstr) list"
  md_messages :: "message_row list"
  md_messages_vec :: "(int \<times> rstr) list"
  md_last_message_id :: int
  md_facts :: "fact_row list"
  md_facts_vec :: "(int \<times> rstr) list"
  md_last_fact_id :: int

definition empty_memory :: memory_db where
  "empty_memory = \<lparr>md_sessions = [], md_messages = [], md_messages_vec = [], md_last_message_id = 0,
     md_facts = [], md_facts_vec = [], md_last_fact_id = 0\<rparr>"

record 'f memory_env =
  me_float :: "'f float_ops"
  me_lowercase :: "rstr \<Rightarrow> rstr"   \<comment> \<open>the Unicode tables of \<open>to_lowercase\<close>\<close>
  me_embedder :: "(rstr \<Rightarrow> rstr + 'f list list) option"
  me_nearest :: "(int \<times> rstr) list \<Rightarrow> rstr \<Rightarrow> nat \<Rightarrow> (int \<times> 'f) list"

type_synonym faults = "nat \<Rightarrow> framework_error option"

definition db_call :: "faults \<Rightarrow> nat \<Rightarrow> unit res" where
  "db_call faults k = (case faults k of Some e \<Rightarrow> Inl e | None \<Rightarrow> Inr ())"

fun run_statements :: "faults \<Rightarrow> nat \<Rightarrow> ('d \<Rightarrow> 'd) list \<Rightarrow> 'd \<Rightarrow> 'd \<times> unit res" where
  "run_statements faults k [] db = (db, Inr ())"
| "run_statements faults k (s # ss) db =
     (case faults k of Some e \<Rightarrow> (db, Inl e) | None \<Rightarrow> run_statements faults (Suc k) ss (s db))"

definition run_transaction :: "faults \<Rightarrow> nat \<Rightarrow> ('d \<Rightarrow> 'd) list \<Rightarrow> 'd \<Rightarrow> 'd \<times> unit res" where
  "run_transaction faults k ss db =
     (case run_statements faults k (id # ss @ [id]) db of
        (db', Inr u) \<Rightarrow> (db', Inr u) | (db', Inl e) \<Rightarrow> (db, Inl e))"

section \<open>Embeddings\<close>

definition embed_text :: "(rstr \<Rightarrow> rstr + 'f list list) \<Rightarrow> rstr \<Rightarrow> 'f list res" where
  "embed_text model text =
     (case model text of
        Inl e \<Rightarrow> Inl (ConfigError (''embedding failed: '' @ e))
      | Inr embeddings \<Rightarrow>
          (case embeddings of [] \<Rightarrow> Inl (ConfigError ''embedder returned no vector'') | v # _ \<Rightarrow> Inr v))"

definition encode_f32_blob :: "'f float_ops \<Rightarrow> 'f list \<Rightarrow> rstr" where
  "encode_f32_blob fl values = concat (map (fl_bytes fl) values)"

definition embedder_ref :: "'f memory_env \<Rightarrow> (rstr \<Rightarrow> rstr + 'f list list) res" where
  "embedder_ref env =
     ok_or (ConfigError ''embedding model is unavailable; semantic memory features are disabled'') (me_embedder env)"

definition query_blob_of :: "'f memory_env \<Rightarrow> rstr \<Rightarrow> rstr res" where
  "query_blob_of env text =
     rbind (embedder_ref env) (\<lambda>model. rbind (embed_text model text) (\<lambda>v. Inr (encode_f32_blob (me_float env) v)))"

definition similarity_of :: "'f float_ops \<Rightarrow> 'f \<Rightarrow> 'f" where
  "similarity_of fl distance =
     fl_sub fl (fl_lit fl 1 1) (fl_div fl (fl_mul fl distance distance) (fl_lit fl 2 1))"

section \<open>The stored conversation\<close>

definition indexed_role :: "stored_role \<Rightarrow> bool" where
  "indexed_role role \<longleftrightarrow> role = StoredUser \<or> role = StoredAssistant"

definition insert_session :: "rstr \<Rightarrow> rstr \<Rightarrow> memory_db \<Rightarrow> memory_db" where
  "insert_session sid now db =
     (if map_of (md_sessions db) sid = None then db\<lparr>md_sessions := md_sessions db @ [(sid, now)]\<rparr> else db)"

definition insert_message :: "rstr \<Rightarrow> rstr \<Rightarrow> rstr \<Rightarrow> rstr option \<Rightarrow> rstr \<Rightarrow> memory_db \<Rightarrow> memory_db" where
  "insert_message sid role content username now db =
     (let row_id = md_last_message_id db + 1
      in db\<lparr>md_messages := md_messages db @
              [\<lparr>mr_id = row_id, mr_session_id = sid, mr_role = role, mr_content = content,
                mr_username = username, mr_created_at = now\<rparr>],
            md_last_message_id := row_id\<rparr>)"

definition index_message :: "rstr \<Rightarrow> memory_db \<Rightarrow> memory_db" where
  "index_message embedding db =
     db\<lparr>md_messages_vec := AList.update (md_last_message_id db) embedding (md_messages_vec db)\<rparr>"

definition message_embedding :: "'f memory_env \<Rightarrow> stored_role \<Rightarrow> rstr \<Rightarrow> rstr option" where
  "message_embedding env role content =
     (if indexed_role role
      then (case me_embedder env of
              Some model \<Rightarrow>
                (case embed_text model content of
                   Inr v \<Rightarrow> Some (encode_f32_blob (me_float env) v) | Inl _ \<Rightarrow> None)
            | None \<Rightarrow> None)
      else None)"

definition append_message ::
  "'f memory_env \<Rightarrow> faults \<Rightarrow> rstr \<Rightarrow> rstr \<Rightarrow> stored_role \<Rightarrow> rstr \<Rightarrow> rstr option \<Rightarrow> memory_db \<Rightarrow> memory_db \<times> unit res" where
  "append_message env faults now session_id role content username db =
     (case db_call faults 0 of
        Inl e \<Rightarrow> (db, Inl e)
      | Inr _ \<Rightarrow>
          run_statements faults 1
            ([insert_session session_id now,
              insert_message session_id (role_as_db_str role) content (Option.bind username non_empty_trim) now]
             @ (case message_embedding env role content of Some e \<Rightarrow> [index_message e] | None \<Rightarrow> []))
            db)"

definition conversation :: "rstr \<Rightarrow> memory_db \<Rightarrow> message_row list" where
  "conversation session_id db =
     filter (\<lambda>r. mr_session_id r = session_id \<and> (mr_role r = ''user'' \<or> mr_role r = ''assistant'')) (md_messages db)"

text \<open>\<open>ORDER BY id DESC LIMIT n\<close>.\<close>

definition newest :: "nat \<Rightarrow> message_row list \<Rightarrow> message_row list" where
  "newest n rows = take n (rev (sort_key mr_id rows))"

definition stored_message_of :: "message_row \<Rightarrow> stored_message res" where
  "stored_message_of row =
     rbind (ok_or (DbError ''Conversion error from type Text at index: 0, invalid role'') (role_from_db_str (mr_role row)))
       (\<lambda>role. Inr \<lparr>sm_role = role, sm_content = mr_content row, sm_username = mr_username row\<rparr>)"

definition recent_messages :: "faults \<Rightarrow> rstr \<Rightarrow> nat \<Rightarrow> memory_db \<Rightarrow> stored_message list res" where
  "recent_messages faults session_id limit db =
     (if limit = 0 then Inr []
      else rbind (db_call faults 0) (\<lambda>_. rbind (db_call faults 1) (\<lambda>_.
             rbind (rtraverse stored_message_of (newest limit (conversation session_id db)))
               (\<lambda>rows. Inr (rev rows)))))"

definition fetch_recent_short_term_ids :: "faults \<Rightarrow> rstr \<Rightarrow> nat \<Rightarrow> memory_db \<Rightarrow> int list res" where
  "fetch_recent_short_term_ids faults session_id history_window db =
     (if history_window = 0 then Inr []
      else rbind (db_call faults 1) (\<lambda>_. Inr (map mr_id (newest history_window (conversation session_id db)))))"

section \<open>Context spans\<close>

record 'f short_term_match =
  st_id :: int
  st_role :: rstr
  st_content :: rstr
  st_username :: "rstr option"
  st_similarity :: 'f

record context_span =
  sp_start_id :: int
  sp_end_id :: int

definition span_contains :: "context_span \<Rightarrow> int \<Rightarrow> bool" where
  "span_contains self i \<longleftrightarrow> sp_start_id self \<le> i \<and> i \<le> sp_end_id self"

definition i64_saturating :: "int \<Rightarrow> int" where
  "i64_saturating i = max (- (2 ^ 63)) (min (2 ^ 63 - 1) i)"

text \<open>The loop over the sorted spans; the merged ones are held in reverse, the last one first.\<close>

fun merge_spans :: "context_span list \<Rightarrow> context_span list \<Rightarrow> context_span list" where
  "merge_spans [] merged = rev merged"
| "merge_spans (span # spans) [] = merge_spans spans [span]"
| "merge_spans (span # spans) (prev # merged) =
     (if sp_start_id span \<le> i64_saturating (sp_end_id prev + 1)
      then merge_spans spans (prev\<lparr>sp_end_id := max (sp_end_id prev) (sp_end_id span)\<rparr> # merged)
      else merge_spans spans (span # prev # merged))"

definition match_span :: "nat \<Rightarrow> 'f short_term_match \<Rightarrow> context_span" where
  "match_span radius item =
     \<lparr>sp_start_id = i64_saturating (st_id item - int radius), sp_end_id = i64_saturating (st_id item + int radius)\<rparr>"

definition merge_short_term_context_spans :: "'f short_term_match list \<Rightarrow> nat \<Rightarrow> context_span list" where
  "merge_short_term_context_spans items context_radius =
     merge_spans (sort_key sp_start_id (map (match_span context_radius) items)) []"

definition span_messages :: "rstr \<Rightarrow> int list \<Rightarrow> memory_db \<Rightarrow> context_span \<Rightarrow> stored_message list res" where
  "span_messages session_id excluded db span =
     rbind (rtraverse (\<lambda>r. rbind (stored_message_of r) (\<lambda>m. Inr (if mr_id r \<in> set excluded then None else Some m)))
              (sort_key mr_id (filter (\<lambda>r. span_contains span (mr_id r)) (conversation session_id db))))
       (\<lambda>ms. Inr (List.map_filter id ms))"

fun fetch_short_term_context_messages ::
  "faults \<Rightarrow> nat \<Rightarrow> rstr \<Rightarrow> context_span list \<Rightarrow> int list \<Rightarrow> memory_db \<Rightarrow> (context_span \<times> stored_message list) list res" where
  "fetch_short_term_context_messages faults k session_id [] excluded db = Inr []"
| "fetch_short_term_context_messages faults k session_id (span # spans) excluded db =
     rbind (db_call faults k) (\<lambda>_.
     rbind (span_messages session_id excluded db span) (\<lambda>messages.
     rbind (fetch_short_term_context_messages faults (Suc k) session_id spans excluded db)
       (\<lambda>out. Inr ((span, messages) # out))))"

definition render_short_term_message :: "rstr \<Rightarrow> rstr \<Rightarrow> rstr option \<Rightarrow> rstr" where
  "render_short_term_message role content username =
     (if role = ''user''
      then (case Option.bind username non_empty_trim of
              Some name \<Rightarrow> ''['' @ name @ ''] '' @ content | None \<Rightarrow> content)
      else content)"

section \<open>Recall\<close>

text \<open>The rows that an \<open>id\<close> of the vector search joins with.\<close>

definition join_rows :: "('r \<Rightarrow> int) \<Rightarrow> 'r list \<Rightarrow> (int \<times> 'f) list \<Rightarrow> ('r \<times> 'f) list" where
  "join_rows key rows nearest =
     concat (map (\<lambda>(i, distance). map (\<lambda>r. (r, distance)) (filter (\<lambda>r. key r = i) rows)) nearest)"

definition long_term_hit :: "'f float_ops \<Rightarrow> 'f \<Rightarrow> fact_row \<times> 'f \<Rightarrow> 'f memory_recall_hit" where
  "long_term_hit fl weight x =
     (case x of (row, distance) \<Rightarrow>
        (let similarity = similarity_of fl distance;
             one = fl_lit fl 1 1;
             imp = fl_clamp fl one (fl_lit fl 5 1) (fl_lit fl (ff_importance row) 1);
             with_importance = fl_mul fl similarity
               (fl_add fl one (fl_mul fl (fl_sub fl imp one) (fl_lit fl 1 10)))
         in \<lparr>mh_store = LongTermHit, mh_content = ff_content row, mh_kind = Some (ff_kind row),
             mh_importance = Some (ff_importance row), mh_context_messages = None,
             mh_raw_similarity = similarity, mh_final_score = fl_mul fl with_importance weight\<rparr>))"

definition fetch_long_term_candidates ::
  "'f memory_env \<Rightarrow> faults \<Rightarrow> rstr \<Rightarrow> nat \<Rightarrow> 'f \<Rightarrow> memory_db \<Rightarrow> 'f memory_recall_hit list res" where
  "fetch_long_term_candidates env faults query_blob sql_limit weight db =
     rbind (db_call faults 0) (\<lambda>_. rbind (db_call faults 1) (\<lambda>_.
       Inr (map (long_term_hit (me_float env) weight)
              (join_rows ff_id (md_facts db) (me_nearest env (md_facts_vec db) query_blob sql_limit)))))"

definition short_term_match_of :: "'f float_ops \<Rightarrow> message_row \<times> 'f \<Rightarrow> 'f short_term_match" where
  "short_term_match_of fl x =
     (case x of (row, distance) \<Rightarrow>
        \<lparr>st_id = mr_id row, st_role = mr_role row, st_content = mr_content row, st_username = mr_username row,
         st_similarity = similarity_of fl distance\<rparr>)"

definition short_term_hit ::
  "(context_span \<times> stored_message list) list \<Rightarrow> 'f short_term_match \<Rightarrow> 'f memory_recall_hit" where
  "short_term_hit windows item =
     (let context_messages =
        (case find (\<lambda>(span, _). span_contains span (st_id item)) windows of
           Some (_, messages) \<Rightarrow> (if messages = [] then None else Some messages)
         | None \<Rightarrow> None)
      in \<lparr>mh_store = ShortTermHit,
          mh_content = render_short_term_message (st_role item) (st_content item) (st_username item),
          mh_kind = Some (st_role item), mh_importance = None, mh_context_messages = context_messages,
          mh_raw_similarity = st_similarity item, mh_final_score = st_similarity item\<rparr>)"

definition short_term_matches ::
  "'f memory_env \<Rightarrow> rstr \<Rightarrow> rstr \<Rightarrow> nat \<Rightarrow> int list \<Rightarrow> memory_db \<Rightarrow> 'f short_term_match list" where
  "short_term_matches env session_id query_blob sql_limit excluded db =
     filter (\<lambda>item. st_id item \<notin> set excluded)
       (map (short_term_match_of (me_float env))
          (join_rows mr_id (conversation session_id db) (me_nearest env (md_messages_vec db) query_blob sql_limit)))"

definition fetch_short_term_candidates ::
  "'f memory_env \<Rightarrow> faults \<Rightarrow> rstr \<Rightarrow> rstr \<Rightarrow> nat \<Rightarrow> nat \<Rightarrow> nat \<Rightarrow> memory_db \<Rightarrow> 'f memory_recall_hit list res" where
  "fetch_short_term_candidates env faults session_id query_blob sql_limit history_window context_radius db =
     rbind (db_call faults 0) (\<lambda>_.
     rbind (fetch_recent_short_term_ids faults session_id history_window db) (\<lambda>excluded.
     rbind (db_call faults 2) (\<lambda>_.
       (let items = short_term_matches env session_id query_blob sql_limit excluded db
        in if items = [] then Inr []
           else rbind (fetch_short_term_context_messages faults 3 session_id
                         (merge_short_term_context_spans items context_radius) excluded db)
                  (\<lambda>windows. Inr (map (short_term_hit windows) items))))))"

text \<open>
  \<open>sort_by\<close> is stable; the scores are compared with \<open>partial_cmp\<close>, incomparable ones as equal.
  For comparisons that are no total order the standard library promises nothing.
\<close>

fun insert_hit :: "'f float_ops \<Rightarrow> 'f memory_recall_hit \<Rightarrow> 'f memory_recall_hit list \<Rightarrow> 'f memory_recall_hit list" where
  "insert_hit fl h [] = [h]"
| "insert_hit fl h (x # xs) =
     (if fl_lt fl (mh_final_score x) (mh_final_score h) then h # x # xs else x # insert_hit fl h xs)"

definition sort_hits :: "'f float_ops \<Rightarrow> 'f memory_recall_hit list \<Rightarrow> 'f memory_recall_hit list" where
  "sort_hits fl hits = foldl (\<lambda>sorted h. insert_hit fl h sorted) [] hits"

definition normalize_memory_key :: "(rstr \<Rightarrow> rstr) \<Rightarrow> rstr \<Rightarrow> rstr" where
  "normalize_memory_key lowercase value = lowercase (join '' '' (split_whitespace value))"

fun rank_loop ::
  "'f memory_env \<Rightarrow> 'f memory_recall_config \<Rightarrow> 'f memory_recall_hit list \<Rightarrow> rstr list \<Rightarrow> 'f memory_recall_hit list \<Rightarrow>
   'f memory_recall_hit list" where
  "rank_loop env config [] dedupe out = out"
| "rank_loop env config (item # items) dedupe out =
     (if fl_lt (me_float env) (mh_raw_similarity item) (mc_min_score config)
      then rank_loop env config items dedupe out
      else (let key = normalize_memory_key (me_lowercase env) (mh_content item)
            in if key = [] then rank_loop env config items dedupe out
               else if key \<in> set dedupe then rank_loop env config items dedupe out
               else (let out = out @ [item]
                     in if length out \<ge> mc_top_k config then out
                        else rank_loop env config items (key # dedupe) out)))"

definition rank_recall_hits ::
  "'f memory_env \<Rightarrow> 'f memory_recall_hit list \<Rightarrow> 'f memory_recall_config \<Rightarrow> 'f memory_recall_hit list" where
  "rank_recall_hits env candidates config = rank_loop env config (sort_hits (me_float env) candidates) [] []"

text \<open>The two searches use their own connections: \<open>faults_long\<close> and \<open>faults_short\<close>.\<close>

definition query_recall_hits ::
  "'f memory_env \<Rightarrow> faults \<Rightarrow> faults \<Rightarrow> rstr \<Rightarrow> rstr \<Rightarrow> 'f memory_recall_config \<Rightarrow> nat \<Rightarrow> memory_store_scope \<Rightarrow> bool \<Rightarrow>
   memory_db \<Rightarrow> 'f memory_recall_hit list res" where
  "query_recall_hits env faults_long faults_short session_id query config history_window scope prefer_long_term db =
     (let config = normalized (me_float env) config
      in rbind (query_blob_of env query) (\<lambda>query_blob.
         (let sql_limit = max (mc_top_k config * 5) 1
          in rbind (if scope = CombinedScope \<or> scope = LongTermScope
                    then fetch_long_term_candidates env faults_long query_blob sql_limit (mc_long_term_weight config) db
                    else Inr []) (\<lambda>long_term_hits.
             rbind (if scope = CombinedScope \<or> scope = ShortTermScope
                    then fetch_short_term_candidates env faults_short session_id query_blob sql_limit history_window
                           (mc_short_term_context_radius config) db
                    else Inr []) (\<lambda>short_term_hits.
               Inr (if prefer_long_term \<and> scope = CombinedScope
                    then (let ranked_long = rank_recall_hits env long_term_hits config;
                              ranked_short = rank_recall_hits env short_term_hits config
                          in if length ranked_long < mc_top_k config
                             then ranked_long @ take (mc_top_k config - length ranked_long) ranked_short
                             else ranked_long)
                    else rank_recall_hits env (long_term_hits @ short_term_hits) config))))))"

definition semantic_query_combined ::
  "'f memory_env \<Rightarrow> faults \<Rightarrow> faults \<Rightarrow> rstr \<Rightarrow> rstr \<Rightarrow> nat \<Rightarrow> nat \<Rightarrow> memory_store_scope \<Rightarrow> memory_db \<Rightarrow> rstr list res" where
  "semantic_query_combined env faults_long faults_short session_id query top_k history_window scope db =
     (let fl = me_float env;
          config = \<lparr>mc_enabled = True, mc_top_k = min (max top_k 1) (2 ^ 32 - 1), mc_min_score = fl_lit fl 0 1,
            mc_long_term_weight = fl_lit fl 1 1, mc_recall_word_count_threshold = 1, mc_short_term_context_radius = 2,
            mc_long_term_max_chars = 4000, mc_short_term_max_chars = 4000\<rparr>
      in rbind (query_recall_hits env faults_long faults_short session_id query config history_window scope False db)
           (\<lambda>hits. Inr (map (\<lambda>hit.
              case mh_store hit of
                LongTermHit \<Rightarrow> ''[long-term/'' @ unwrap_or ''general'' (mh_kind hit) @ ''] '' @ mh_content hit
              | ShortTermHit \<Rightarrow> ''[short-term/'' @ unwrap_or ''message'' (mh_kind hit) @ ''] '' @ mh_content hit) hits)))"

section \<open>Long-term facts\<close>

definition normalize_memory_kind :: "rstr \<Rightarrow> rstr option" where
  "normalize_memory_kind value =
     (let normal = map (\<lambda>c. if c = CHR ''-'' \<or> c = CHR '' '' then CHR ''_'' else c) (to_ascii_lowercase (trim value))
      in if normal = [] then None
         else if normal = ''general'' then Some ''general''
         else if normal = ''profile'' then Some ''profile''
         else if normal = ''preferences'' then Some ''preferences''
         else if normal = ''project'' then Some ''project''
         else if normal = ''task'' then Some ''task''
         else if normal = ''constraint'' then Some ''constraint''
         else None)"

definition allowed_memory_kinds :: "rstr list" where
  "allowed_memory_kinds = [''general'', ''profile'', ''preferences'', ''project'', ''task'', ''constraint'']"

definition parse_memory_kind :: "rstr \<Rightarrow> rstr res" where
  "parse_memory_kind value =
     ok_or (ToolError (''invalid memory kind '' @ [SQ] @ value @ [SQ] @ ''. allowed kinds: '' @
              join ''|'' allowed_memory_kinds)) (normalize_memory_kind value)"

text \<open>\<open>kind_filter\<close>: a blank filter is none, another one must name a kind.\<close>

definition parse_kind_filter :: "rstr option \<Rightarrow> rstr option res" where
  "parse_kind_filter kind_filter =
     (case Option.bind kind_filter non_empty_trim of
        None \<Rightarrow> Inr None
      | Some value \<Rightarrow> rbind (parse_memory_kind value) (\<lambda>kind. Inr (Some kind)))"

text \<open>SQLite compares texts by their bytes.\<close>

fun text_le :: "rstr \<Rightarrow> rstr \<Rightarrow> bool" where
  "text_le [] _ = True"
| "text_le (_ # _) [] = False"
| "text_le (a # s) (b # t) =
     ((of_char a :: nat) < of_char b \<or> ((of_char a :: nat) = of_char b \<and> text_le s t))"

definition has_recent_long_term_fact :: "rstr \<Rightarrow> rstr \<Rightarrow> rstr \<Rightarrow> memory_db \<Rightarrow> bool" where
  "has_recent_long_term_fact kind content dedupe_cutoff db \<longleftrightarrow>
     list_ex (\<lambda>r. ff_kind r = kind \<and> ff_content r = content \<and> text_le dedupe_cutoff (ff_created_at r)) (md_facts db)"

definition insert_fact :: "rstr \<Rightarrow> rstr \<Rightarrow> rstr \<Rightarrow> int \<Rightarrow> rstr \<Rightarrow> rstr \<Rightarrow> memory_db \<Rightarrow> memory_db" where
  "insert_fact session_id content kind importance blob now db =
     (let row_id = md_last_fact_id db + 1
      in db\<lparr>md_facts := md_facts db @
              [\<lparr>ff_id = row_id, ff_source_session_id = session_id, ff_content = content, ff_kind = kind,
                ff_importance = importance, ff_embedding = blob, ff_created_at = now\<rparr>],
            md_last_fact_id := row_id\<rparr>)"

definition insert_fact_vec :: "int \<Rightarrow> rstr \<Rightarrow> memory_db \<Rightarrow> memory_db" where
  "insert_fact_vec fact_id blob db = db\<lparr>md_facts_vec := md_facts_vec db @ [(fact_id, blob)]\<rparr>"

definition delete_fact_vec :: "int \<Rightarrow> memory_db \<Rightarrow> memory_db" where
  "delete_fact_vec fact_id db = db\<lparr>md_facts_vec := AList.delete fact_id (md_facts_vec db)\<rparr>"

definition delete_fact :: "int \<Rightarrow> memory_db \<Rightarrow> memory_db" where
  "delete_fact fact_id db = db\<lparr>md_facts := filter (\<lambda>r. ff_id r \<noteq> fact_id) (md_facts db)\<rparr>"

definition update_fact :: "int \<Rightarrow> rstr \<Rightarrow> rstr \<Rightarrow> int \<Rightarrow> rstr \<Rightarrow> rstr \<Rightarrow> memory_db \<Rightarrow> memory_db" where
  "update_fact fact_id content blob importance now session_id db =
     db\<lparr>md_facts := map (\<lambda>r. if ff_id r = fact_id
         then r\<lparr>ff_content := content, ff_embedding := blob, ff_importance := importance,
                ff_created_at := now, ff_source_session_id := session_id\<rparr>
         else r) (md_facts db)\<rparr>"

text \<open>The nearest fact of all, if it is one of the kind.\<close>

definition similar_fact :: "'f memory_env \<Rightarrow> rstr \<Rightarrow> rstr \<Rightarrow> memory_db \<Rightarrow> (int \<times> rstr \<times> 'f) option" where
  "similar_fact env kind blob db =
     (case join_rows ff_id (filter (\<lambda>r. ff_kind r = kind) (md_facts db)) (me_nearest env (md_facts_vec db) blob 1) of
        [] \<Rightarrow> None
      | (row, distance) # _ \<Rightarrow> Some (ff_id row, ff_content row, similarity_of (me_float env) distance))"

definition superseded_fact :: "'f memory_env \<Rightarrow> rstr \<Rightarrow> rstr \<Rightarrow> memory_db \<Rightarrow> (int \<times> rstr) option" where
  "superseded_fact env kind blob db =
     (case similar_fact env kind blob db of
        Some (i, old_content, similarity) \<Rightarrow>
          (if fl_le (me_float env) (fl_lit (me_float env) 92 100) similarity then Some (i, old_content) else None)
      | None \<Rightarrow> None)"

text \<open>\<open>now\<close> and \<open>cutoff\<close>: the time and the time 300 seconds before it, printed.\<close>

definition store_fact ::
  "'f memory_env \<Rightarrow> faults \<Rightarrow> rstr \<Rightarrow> rstr \<Rightarrow> rstr \<Rightarrow> rstr \<Rightarrow> int \<Rightarrow> rstr \<Rightarrow> memory_db \<Rightarrow> memory_db \<times> memorize_result res" where
  "store_fact env faults now session_id fact1 kind importance blob db =
     (case superseded_fact env kind blob db of
        Some (existing_id, old_content) \<Rightarrow>
          (case run_transaction faults 3
                  [update_fact existing_id fact1 blob importance now session_id,
                   delete_fact_vec existing_id, insert_fact_vec existing_id blob] db of
             (db, r) \<Rightarrow> (db, rbind r (\<lambda>_. Inr (MemUpdated old_content))))
      | None \<Rightarrow>
          (case run_statements faults 3
                  [insert_fact session_id fact1 kind importance blob now,
                   \<lambda>db. insert_fact_vec (md_last_fact_id db) blob db] db of
             (db, r) \<Rightarrow> (db, rbind r (\<lambda>_. Inr MemInserted))))"

definition memorize_kind :: "rstr \<Rightarrow> rstr res" where
  "memorize_kind kind = (if trim kind = [] then Inr ''general'' else parse_memory_kind (trim kind))"

definition memorize ::
  "'f memory_env \<Rightarrow> faults \<Rightarrow> rstr \<Rightarrow> rstr \<Rightarrow> memory_db \<Rightarrow> rstr \<Rightarrow> rstr \<Rightarrow> rstr \<Rightarrow> nat \<Rightarrow> memory_db \<times> memorize_result res" where
  "memorize env faults now cutoff db session_id content kind importance =
     (let trimmed = trim content
      in if trimmed = [] then (db, Inl (ToolError ''memorize requires non-empty content''))
         else
           (case rbind (memorize_kind kind) (\<lambda>kind. rbind (db_call faults 0) (\<lambda>_.
                   rbind (db_call faults 1) (\<lambda>_. Inr kind))) of
              Inl e \<Rightarrow> (db, Inl e)
            | Inr kind \<Rightarrow>
                if has_recent_long_term_fact kind trimmed cutoff db then (db, Inr MemDuplicate)
                else
                  (case rbind (query_blob_of env trimmed) (\<lambda>blob. rbind (db_call faults 2) (\<lambda>_. Inr blob)) of
                     Inl e \<Rightarrow> (db, Inl e)
                   | Inr blob \<Rightarrow>
                       store_fact env faults now session_id trimmed kind (int (clamp 1 5 importance)) blob db)))"

record long_term_fact_summary =
  fs_id :: int
  fs_content :: rstr
  fs_kind :: rstr
  fs_importance :: int
  fs_created_at :: rstr

definition list_long_term_facts ::
  "faults \<Rightarrow> rstr option \<Rightarrow> nat \<Rightarrow> memory_db \<Rightarrow> long_term_fact_summary list res" where
  "list_long_term_facts faults kind_filter limit db =
     rbind (parse_kind_filter kind_filter) (\<lambda>kind.
     rbind (db_call faults 0) (\<lambda>_. rbind (db_call faults 1) (\<lambda>_.
       Inr (map (\<lambda>r. \<lparr>fs_id = ff_id r, fs_content = ff_content r, fs_kind = ff_kind r,
                   fs_importance = ff_importance r, fs_created_at = ff_created_at r\<rparr>)
              (take (clamp 1 200 limit)
                 (rev (sort_key ff_id (filter (\<lambda>r. kind = None \<or> kind = Some (ff_kind r)) (md_facts db)))))))))"

section \<open>Forgetting\<close>

record 'f long_term_forget_match =
  fm_id :: int
  fm_content :: rstr
  fm_kind :: rstr
  fm_importance :: int
  fm_similarity :: 'f

record 'f long_term_forget_result =
  fr_matches :: "'f long_term_forget_match list"
  fr_deleted_count :: nat
  fr_similarity_threshold :: 'f
  fr_max_matches :: nat
  fr_kind_filter :: "rstr option"

fun forget_loop ::
  "'f float_ops \<Rightarrow> 'f \<Rightarrow> rstr option \<Rightarrow> nat \<Rightarrow> (fact_row \<times> 'f) list \<Rightarrow> 'f long_term_forget_match list \<Rightarrow>
   'f long_term_forget_match list" where
  "forget_loop fl threshold kind max_matches [] out = out"
| "forget_loop fl threshold kind max_matches ((row, distance) # rows) out =
     (let similarity = similarity_of fl distance
      in if fl_lt fl similarity threshold then forget_loop fl threshold kind max_matches rows out
         else if kind \<noteq> None \<and> kind \<noteq> Some (ff_kind row) then forget_loop fl threshold kind max_matches rows out
         else (let out = out @ [\<lparr>fm_id = ff_id row, fm_content = ff_content row, fm_kind = ff_kind row,
                                 fm_importance = ff_importance row, fm_similarity = similarity\<rparr>]
               in if length out \<ge> max_matches then out
                  else forget_loop fl threshold kind max_matches rows out))"

text \<open>The number of deleted rows is what the statements report; a failure rolls all back.\<close>

fun delete_facts_steps :: "int list \<Rightarrow> (memory_db \<times> nat \<Rightarrow> memory_db \<times> nat) list" where
  "delete_facts_steps [] = []"
| "delete_facts_steps (i # ids) =
     (\<lambda>(db, deleted). (delete_fact i db, deleted + length (filter (\<lambda>r. ff_id r = i) (md_facts db)))) #
     (\<lambda>(db, deleted). (delete_fact_vec i db, deleted)) # delete_facts_steps ids"

definition delete_facts :: "faults \<Rightarrow> nat \<Rightarrow> int list \<Rightarrow> memory_db \<Rightarrow> memory_db \<times> nat res" where
  "delete_facts faults k ids db =
     (case run_transaction faults k (delete_facts_steps ids) (db, 0) of
        ((db, deleted), r) \<Rightarrow> (db, rbind r (\<lambda>_. Inr deleted)))"

definition semantic_forget_long_term ::
  "'f memory_env \<Rightarrow> faults \<Rightarrow> rstr \<Rightarrow> 'f \<Rightarrow> nat \<Rightarrow> rstr option \<Rightarrow> bool \<Rightarrow> memory_db \<Rightarrow>
   memory_db \<times> 'f long_term_forget_result res" where
  "semantic_forget_long_term env faults query similarity_threshold max_matches kind_filter commit db =
     (let trimmed = trim query; fl = me_float env
      in if trimmed = [] then (db, Inl (ToolError ''forget requires non-empty query''))
         else
           (let threshold = fl_clamp fl (fl_lit fl 0 1) (fl_lit fl 1 1) similarity_threshold;
                max_matches = clamp 1 50 max_matches
            in case rbind (query_blob_of env trimmed) (\<lambda>blob.
                    rbind (parse_kind_filter kind_filter) (\<lambda>kind.
                    rbind (db_call faults 0) (\<lambda>_. rbind (db_call faults 1) (\<lambda>_. Inr (blob, kind))))) of
                 Inl e \<Rightarrow> (db, Inl e)
               | Inr (blob, kind) \<Rightarrow>
                   (let fetch_limit = (if kind \<noteq> None then max_matches * 5 else max_matches);
                        matches = forget_loop fl threshold kind max_matches
                          (join_rows ff_id (md_facts db) (me_nearest env (md_facts_vec db) blob fetch_limit)) [];
                        result = (\<lambda>deleted. \<lparr>fr_matches = matches, fr_deleted_count = deleted,
                          fr_similarity_threshold = threshold, fr_max_matches = max_matches, fr_kind_filter = kind\<rparr>)
                    in if commit \<and> matches \<noteq> []
                       then (case delete_facts faults 2 (map fm_id matches) db of
                               (db, r) \<Rightarrow> (db, rbind r (\<lambda>deleted. Inr (result deleted))))
                       else (db, Inr (result 0)))))"

section \<open>The tools\<close>

text \<open>
  \<open>memory.rs\<close> and \<open>forget.rs\<close> under \<open>src/tools/builtin/\<close>. Reading a JSON number as a float and
  printing a float are arguments.
\<close>

record 'f float_io =
  fi_read :: "json \<Rightarrow> 'f option"
  fi_show :: "'f \<Rightarrow> rstr"

definition resolve_top_k :: "memory_tool_config \<Rightarrow> nat option \<Rightarrow> nat res" where
  "resolve_top_k config requested =
     (let effective = unwrap_or 5 (or_else requested (mc_default_top_k config));
          effective = (case mc_max_top_k config of Some max_top_k \<Rightarrow> min effective max_top_k | None \<Rightarrow> effective)
      in if effective = 0
         then Inl (ToolError (''memory top_k resolved to 0; configure tools.memory.default_top_k/max_top_k '' @
                ''to positive values''))
         else Inr effective)"

definition parse_store_scope :: "rstr option \<Rightarrow> memory_store_scope res" where
  "parse_store_scope raw =
     (case raw of
        None \<Rightarrow> Inr CombinedScope
      | Some raw \<Rightarrow>
          (let normal = map (\<lambda>c. if c = CHR ''-'' then CHR ''_'' else c) (to_ascii_lowercase (trim raw))
           in if normal = ''combined'' then Inr CombinedScope
              else if normal = ''long_term'' then Inr LongTermScope
              else if normal = ''short_term'' then Inr ShortTermScope
              else Inl (ToolError (''invalid memory store '' @ [SQ] @ raw @ [SQ] @
                ''. allowed values: combined|long_term|short_term''))))"

definition numbered :: "rstr list \<Rightarrow> rstr list" where
  "numbered hits = map (\<lambda>(i, hit). show_nat (i + 1) @ ''. '' @ hit) (List.enumerate 0 hits)"

definition fact_line :: "long_term_fact_summary \<Rightarrow> rstr" where
  "fact_line f = ''[id='' @ show_int (fs_id f) @ '' kind='' @ fs_kind f @ '' importance='' @ show_int (fs_importance f) @
     '' at='' @ fs_created_at f @ ''] '' @ fs_content f"

definition memory_tool ::
  "tool_io \<Rightarrow> 'f memory_env \<Rightarrow> faults \<Rightarrow> faults \<Rightarrow> memory_tool_config \<Rightarrow> nat \<Rightarrow> rstr \<Rightarrow> rstr \<Rightarrow> memory_db \<Rightarrow>
   'c execution_outcome res" where
  "memory_tool io env faults_long faults_short config history_messages args_json session_id db =
     (case parse_memory_args (io_parse io) args_json of
        MemQuery query top_k store \<Rightarrow>
          rbind (resolve_top_k config top_k) (\<lambda>top_k.
          rbind (parse_store_scope store) (\<lambda>store_scope.
          rbind (semantic_query_combined env faults_long faults_short session_id query top_k history_messages store_scope db)
            (\<lambda>results.
               if results = [] then completed_text ''no memory hits''
               else completed_text (join [NL] (numbered results)))))
      | MemList kind limit \<Rightarrow>
          rbind (list_long_term_facts faults_long kind limit db) (\<lambda>facts.
            if facts = [] then completed_text ''no long-term memories stored''
            else completed_text (show_nat (length facts) @ '' memories:'' @ [NL] @ join [NL] (map fact_line facts))))"

record 'f forget_args =
  fa_query :: rstr
  fa_commit :: bool
  fa_similarity_threshold :: 'f
  fa_max_matches :: nat
  fa_kind :: "rstr option"

definition parse_forget_args :: "json_parser \<Rightarrow> 'f float_ops \<Rightarrow> 'f float_io \<Rightarrow> rstr \<Rightarrow> 'f forget_args" where
  "parse_forget_args from_str fl fi args_json =
     (let plain = (\<lambda>query. \<lparr>fa_query = query, fa_commit = False, fa_similarity_threshold = fl_lit fl 82 100,
                            fa_max_matches = 5, fa_kind = None\<rparr>)
      in case from_str args_json of
           None \<Rightarrow> plain (trim_quotes args_json)
         | Some value1 \<Rightarrow>
             (case str_field ''query'' value1 of
                Some query \<Rightarrow>
                  \<lparr>fa_query = query, fa_commit = unwrap_or False (bool_field ''commit'' value1),
                   fa_similarity_threshold = fl_clamp fl (fl_lit fl 0 1) (fl_lit fl 1 1) (unwrap_or (fl_lit fl 82 100)
                     (Option.bind (or_else (json_get ''similarity_threshold'' value1) (json_get ''similarityThreshold'' value1))
                        (fi_read fi))),
                   fa_max_matches = clamp 1 50 (unwrap_or 5
                     (Option.bind (or_else (json_get ''max_matches'' value1) (json_get ''maxMatches'' value1)) as_u64)),
                   fa_kind = trimmed_field ''kind'' value1\<rparr>
              | None \<Rightarrow> plain (unwrap_or (trim_quotes args_json) (as_str value1))))"

definition truncate_preview :: "rstr \<Rightarrow> nat \<Rightarrow> rstr" where
  "truncate_preview text max_chars =
     (if char_count text \<le> max_chars then text else take_chars max_chars text @ ''...[truncated]'')"

definition forget_tool ::
  "tool_io \<Rightarrow> 'f memory_env \<Rightarrow> 'f float_io \<Rightarrow> faults \<Rightarrow> rstr \<Rightarrow> memory_db \<Rightarrow> memory_db \<times> 'c execution_outcome res" where
  "forget_tool io env fi faults args_json db =
     (let args = parse_forget_args (io_parse io) (me_float env) fi args_json
      in case semantic_forget_long_term env faults (fa_query args) (fa_similarity_threshold args)
                (fa_max_matches args) (fa_kind args) (fa_commit args) db of
           (db, r) \<Rightarrow>
             (db, rbind r (\<lambda>result. completed_text (io_render io (JObj
                [(''status'', JStr (if fa_commit args then ''deleted'' else ''preview'')),
                 (''query'', JStr (fa_query args)),
                 (''similarity_threshold'', JFloat (fi_show fi (fr_similarity_threshold result))),
                 (''max_matches'', JInt (int (fr_max_matches result))),
                 (''kind'', json_opt JStr (fr_kind_filter result)),
                 (''match_count'', JInt (int (length (fr_matches result)))),
                 (''deleted_count'', JInt (int (fr_deleted_count result))),
                 (''matches'', JArr (map (\<lambda>m. JObj
                    [(''id'', JInt (fm_id m)), (''kind'', JStr (fm_kind m)), (''importance'', JInt (fm_importance m)),
                     (''similarity'', JFloat (fi_show fi (fm_similarity m))),
                     (''content_preview'', JStr (truncate_preview (fm_content m) 180))]) (fr_matches result)))])))))"

section \<open>The tables stay well formed\<close>

definition role_texts :: "rstr list" where
  "role_texts = map role_as_db_str [StoredUser, StoredAssistant, StoredSystem, StoredTool]"

definition messages_ok :: "memory_db \<Rightarrow> bool" where
  "messages_ok db \<longleftrightarrow>
     sorted_wrt (<) (map mr_id (md_messages db)) \<and>
     (\<forall>r\<in>set (md_messages db). 1 \<le> mr_id r \<and> mr_id r \<le> md_last_message_id db \<and>
        mr_role r \<in> set role_texts \<and> mr_session_id r \<in> fst ` set (md_sessions db)) \<and>
     0 \<le> md_last_message_id db \<and>
     distinct (map fst (md_sessions db)) \<and> distinct (map fst (md_messages_vec db)) \<and>
     (\<forall>i\<in>fst ` set (md_messages_vec db). \<exists>r\<in>set (md_messages db). mr_id r = i \<and>
        (mr_role r = ''user'' \<or> mr_role r = ''assistant''))"

definition facts_ok :: "memory_db \<Rightarrow> bool" where
  "facts_ok db \<longleftrightarrow>
     sorted_wrt (<) (map ff_id (md_facts db)) \<and>
     (\<forall>r\<in>set (md_facts db). 1 \<le> ff_id r \<and> ff_id r \<le> md_last_fact_id db \<and> ff_content r \<noteq> [] \<and>
        ff_kind r \<in> set allowed_memory_kinds \<and> 1 \<le> ff_importance r \<and> ff_importance r \<le> 5) \<and>
     0 \<le> md_last_fact_id db \<and>
     distinct (map fst (md_facts_vec db)) \<and>
     (\<forall>x\<in>set (md_facts_vec db). \<exists>r\<in>set (md_facts db). ff_id r = fst x \<and> ff_embedding r = snd x)"

definition memory_ok :: "memory_db \<Rightarrow> bool" where
  "memory_ok db \<longleftrightarrow> messages_ok db \<and> facts_ok db"

lemma role_texts_as_db_str [simp]: "role_as_db_str role \<in> set role_texts"
  by (cases role) (simp_all add: role_texts_def)

lemma role_as_db_str_indexed:
  "role_as_db_str role = ''user'' \<or> role_as_db_str role = ''assistant'' \<longleftrightarrow> indexed_role role"
  by (cases role) (simp_all add: indexed_role_def)

lemma role_db_roundtrip [simp]: "role_from_db_str (role_as_db_str role) = Some role"
  by (cases role) (simp_all add: role_from_db_str_def)

lemma message_columns [simp]:
  "md_facts (insert_session sid now db) = md_facts db" "md_facts_vec (insert_session sid now db) = md_facts_vec db"
  "md_last_fact_id (insert_session sid now db) = md_last_fact_id db"
  "md_messages (insert_session sid now db) = md_messages db"
  "md_messages_vec (insert_session sid now db) = md_messages_vec db"
  "md_last_message_id (insert_session sid now db) = md_last_message_id db"
  "md_facts (insert_message sid role c u now db) = md_facts db"
  "md_facts_vec (insert_message sid role c u now db) = md_facts_vec db"
  "md_last_fact_id (insert_message sid role c u now db) = md_last_fact_id db"
  "md_sessions (insert_message sid role c u now db) = md_sessions db"
  "md_messages_vec (insert_message sid role c u now db) = md_messages_vec db"
  "md_facts (index_message b db) = md_facts db" "md_facts_vec (index_message b db) = md_facts_vec db"
  "md_last_fact_id (index_message b db) = md_last_fact_id db" "md_sessions (index_message b db) = md_sessions db"
  "md_messages (index_message b db) = md_messages db"
  "md_last_message_id (index_message b db) = md_last_message_id db"
  by (simp_all add: insert_session_def insert_message_def index_message_def Let_def)

lemma insert_session_ok:
  assumes "messages_ok db"
  shows "messages_ok (insert_session sid now db)" "sid \<in> fst ` set (md_sessions (insert_session sid now db))"
proof -
  have known: "sid \<in> fst ` set (md_sessions db) \<longleftrightarrow> map_of (md_sessions db) sid \<noteq> None"
    by (simp add: map_of_eq_None_iff)
  then show "sid \<in> fst ` set (md_sessions (insert_session sid now db))" by (auto simp: insert_session_def)
  show "messages_ok (insert_session sid now db)"
    using assms known unfolding messages_ok_def
    by (auto simp: insert_session_def split: if_splits)
qed

lemma insert_message_ok:
  assumes "messages_ok db" "sid \<in> fst ` set (md_sessions db)" "role \<in> set role_texts"
  shows "messages_ok (insert_message sid role content username now db)"
  using assms unfolding messages_ok_def
  by (auto simp: insert_message_def Let_def sorted_wrt_append)

lemma index_message_ok:
  assumes "messages_ok db" "md_messages db = rows @ [r]" "mr_id r = md_last_message_id db"
    "mr_role r = ''user'' \<or> mr_role r = ''assistant''"
  shows "messages_ok (index_message blob db)"
proof -
  let ?vec = "AList.update (md_last_message_id db) blob (md_messages_vec db)"
  have keys: "fst ` set ?vec = insert (md_last_message_id db) (fst ` set (md_messages_vec db))"
    by (simp add: dom_map_of_conv_image_fst[symmetric] update_conv')
  have "distinct (map fst ?vec)" using assms(1) by (simp add: messages_ok_def distinct_update)
  moreover have "\<forall>i\<in>fst ` set ?vec. \<exists>r\<in>set (md_messages db). mr_id r = i \<and> (mr_role r = ''user'' \<or> mr_role r = ''assistant'')"
    unfolding keys using assms unfolding messages_ok_def by auto
  ultimately show ?thesis using assms(1) unfolding messages_ok_def by (simp add: index_message_def)
qed

text \<open>The states an append can leave: nothing done, the session noted, the message stored, or indexed too.\<close>

definition appended :: "rstr \<Rightarrow> rstr \<Rightarrow> stored_role \<Rightarrow> rstr \<Rightarrow> rstr option \<Rightarrow> memory_db \<Rightarrow> memory_db" where
  "appended now session_id role content username db =
     insert_message session_id (role_as_db_str role) content (Option.bind username non_empty_trim) now
       (insert_session session_id now db)"

lemma append_message_cases:
  assumes "append_message env faults now session_id role content username db = (db', r)"
  obtains e where "r = Inl e" "db' = db"
  | e where "r = Inl e" "db' = insert_session session_id now db"
  | e where "r = Inl e" "db' = appended now session_id role content username db"
  | blob where "r = Inr ()" "indexed_role role" "db' = index_message blob (appended now session_id role content username db)"
  | "r = Inr ()" "db' = appended now session_id role content username db"
  using assms
  by (auto simp: append_message_def db_call_def appended_def message_embedding_def
      split: sum.splits option.splits if_splits)

lemma appended_ok:
  assumes "messages_ok db"
  shows "messages_ok (appended now session_id role content username db)"
  unfolding appended_def by (rule insert_message_ok) (simp_all add: insert_session_ok[OF assms])

lemma appended_indexed_ok:
  assumes "messages_ok db" "indexed_role role"
  shows "messages_ok (index_message blob (appended now session_id role content username db))"
  by (rule index_message_ok[OF appended_ok[OF assms(1)]])
     (use assms(2) role_as_db_str_indexed[of role] in \<open>auto simp: appended_def insert_message_def Let_def\<close>)

lemma append_message_messages_ok:
  assumes "messages_ok db"
  shows "messages_ok (fst (append_message env faults now session_id role content username db))"
proof -
  obtain db' r where run: "append_message env faults now session_id role content username db = (db', r)" by fastforce
  from run have "messages_ok db'"
    by (rule append_message_cases)
       (simp_all add: assms insert_session_ok appended_ok appended_indexed_ok)
  with run show ?thesis by simp
qed

lemma append_message_facts:
  "md_facts (fst (append_message env faults now session_id role content username db)) = md_facts db \<and>
   md_facts_vec (fst (append_message env faults now session_id role content username db)) = md_facts_vec db \<and>
   md_last_fact_id (fst (append_message env faults now session_id role content username db)) = md_last_fact_id db"
proof -
  obtain db' r where run: "append_message env faults now session_id role content username db = (db', r)" by fastforce
  from run show ?thesis by (rule append_message_cases) (simp_all add: run appended_def)
qed

section \<open>The log of a session\<close>

text \<open>
  What the rest of the program uses of the stored conversation: each session has a log, an append
  extends the log of its session by its message (also when it fails late), and \<open>recent\<close>
  reads the end of the log.
\<close>

locale session_log =
  fixes good :: "'m \<Rightarrow> bool"
    and log_of :: "rstr \<Rightarrow> 'm \<Rightarrow> stored_message list"
    and append :: "faults \<Rightarrow> rstr \<Rightarrow> rstr \<Rightarrow> stored_role \<Rightarrow> rstr \<Rightarrow> rstr option \<Rightarrow> 'm \<Rightarrow> 'm \<times> unit res"
    and recent :: "faults \<Rightarrow> rstr \<Rightarrow> nat \<Rightarrow> 'm \<Rightarrow> stored_message list res"
  assumes append_good: "good m \<Longrightarrow> good (fst (append faults now s role c u m))"
    and append_ok: "good m \<Longrightarrow> append faults now s role c u m = (m', Inr ()) \<Longrightarrow> indexed_role role \<Longrightarrow>
      log_of s' m' = log_of s' m @
        (if s' = s then [\<lparr>sm_role = role, sm_content = c, sm_username = Option.bind u non_empty_trim\<rparr>] else [])"
    and append_err: "good m \<Longrightarrow> append faults now s role c u m = (m', Inl e) \<Longrightarrow> indexed_role role \<Longrightarrow>
      log_of s' m' = log_of s' m \<or>
      (s' = s \<and> log_of s' m' = log_of s' m @ [\<lparr>sm_role = role, sm_content = c, sm_username = Option.bind u non_empty_trim\<rparr>])"
    and recent_ok: "good m \<Longrightarrow> recent faults s n m = Inr ms \<Longrightarrow> ms = drop (length (log_of s m) - n) (log_of s m)"
begin

lemma append_prefix:
  assumes "good m" "indexed_role role"
  shows "prefix (log_of s' m) (log_of s' (fst (append faults now s role c u m)))"
proof -
  obtain m' r where run: "append faults now s role c u m = (m', r)" by fastforce
  show ?thesis
  proof (cases r)
    case (Inl e)
    with append_err[OF assms(1) run[unfolded Inl] assms(2), of s'] run show ?thesis by auto
  next
    case (Inr v)
    with append_ok[OF assms(1) _ assms(2), of faults now s c u m' s'] run show ?thesis by simp
  qed
qed

lemma recent_after_append:
  assumes "good m" "append faults now s role c u m = (m', Inr ())" "indexed_role role"
    and "recent faults' s n m' = Inr ms" "0 < n"
  shows "\<exists>earlier. ms = earlier @ [\<lparr>sm_role = role, sm_content = c, sm_username = Option.bind u non_empty_trim\<rparr>] \<and>
    length ms \<le> n \<and> suffix earlier (log_of s m)"
proof -
  let ?m = "\<lparr>sm_role = role, sm_content = c, sm_username = Option.bind u non_empty_trim\<rparr>"
  have log: "log_of s m' = log_of s m @ [?m]" using append_ok[OF assms(1-3), of s] by simp
  have "good m'" using append_good[OF assms(1), of faults now s role c u] assms(2) by simp
  from recent_ok[OF this assms(4)] log assms(5)
  have "ms = drop (Suc (length (log_of s m)) - n) (log_of s m) @ [?m]" "length ms \<le> n"
    by (simp_all add: drop_append)
  then show ?thesis by (intro exI[of _ "drop (Suc (length (log_of s m)) - n) (log_of s m)"]) (simp add: suffix_drop)
qed

end

definition message_of :: "message_row \<Rightarrow> stored_message" where
  "message_of row = \<lparr>sm_role = unwrap_or StoredUser (role_from_db_str (mr_role row)), sm_content = mr_content row,
     sm_username = mr_username row\<rparr>"

definition session_messages :: "rstr \<Rightarrow> memory_db \<Rightarrow> stored_message list" where
  "session_messages session_id db = map message_of (conversation session_id db)"

lemma stored_message_of_conversation:
  "r \<in> set (conversation session_id db) \<Longrightarrow> stored_message_of r = Inr (message_of r)"
  by (auto simp: conversation_def stored_message_of_def message_of_def role_from_db_str_def unwrap_or_def)

lemma rtraverse_map: "\<forall>x\<in>set xs. f x = Inr (g x) \<Longrightarrow> rtraverse f xs = Inr (map g xs)"
  by (induction xs) simp_all

lemma sorted_wrt_filter_key: "sorted_wrt (<) (map f xs) \<Longrightarrow> sorted_wrt (<) (map f (filter P xs))"
  by (induction xs) auto

lemma sort_key_sorted: "sorted_wrt (<) (map f xs) \<Longrightarrow> sort_key f xs = xs" for f :: "'a \<Rightarrow> int"
  by (simp add: sort_key_id_if_sorted strict_sorted_iff)

lemma conversation_sorted: "messages_ok db \<Longrightarrow> sorted_wrt (<) (map mr_id (conversation session_id db))"
  unfolding messages_ok_def conversation_def by (blast intro: sorted_wrt_filter_key)

lemma newest_conversation:
  "messages_ok db \<Longrightarrow> newest n (conversation session_id db) = take n (rev (conversation session_id db))"
  by (simp add: newest_def sort_key_sorted[OF conversation_sorted])

lemma recent_messages_log:
  assumes "messages_ok db" "recent_messages faults session_id n db = Inr ms"
  shows "ms = drop (length (session_messages session_id db) - n) (session_messages session_id db)"
proof (cases "n = 0")
  case True
  then show ?thesis using assms(2) by (simp add: recent_messages_def)
next
  case False
  let ?c = "conversation session_id db"
  have "\<forall>r\<in>set (newest n ?c). stored_message_of r = Inr (message_of r)"
    by (auto simp: newest_def dest!: in_set_takeD intro: stored_message_of_conversation)
  from rtraverse_map[OF this] have "ms = rev (map message_of (newest n ?c))"
    using assms(2) False by (auto simp: recent_messages_def rbind_eq_Inr)
  then show ?thesis
    unfolding newest_conversation[OF assms(1)] session_messages_def
    by (simp add: rev_map take_rev drop_map)
qed

lemma conversation_insert_session [simp]:
  "conversation s (insert_session sid now db) = conversation s db"
  by (simp add: conversation_def)

lemma conversation_index_message [simp]: "conversation s (index_message blob db) = conversation s db"
  by (simp add: conversation_def)

lemma session_messages_columns [simp]:
  "session_messages s (insert_session sid now db) = session_messages s db"
  "session_messages s (index_message blob db) = session_messages s db"
  by (simp_all add: session_messages_def)

lemma session_messages_appended:
  assumes "indexed_role role"
  shows "session_messages s (appended now sid role content username db) =
    session_messages s db @ (if s = sid then [\<lparr>sm_role = role, sm_content = content, sm_username = Option.bind username non_empty_trim\<rparr>] else [])"
  using assms
  by (auto simp: appended_def session_messages_def conversation_def insert_message_def Let_def message_of_def
      indexed_role_def role_from_db_str_def unwrap_or_def)

interpretation memory_log: session_log messages_ok session_messages "append_message env" recent_messages
proof (unfold_locales, goal_cases)
  case 1
  then show ?case by (rule append_message_messages_ok)
next
  case (2 m faults now s role c u m' s')
  from 2(2) show ?case
    by (rule append_message_cases)
       (use 2(3) in \<open>simp_all add: session_messages_appended\<close>)
next
  case (3 m faults now s role c u m' e s')
  from 3(2) show ?case
    by (rule append_message_cases) (use 3(3) in \<open>simp_all add: session_messages_appended\<close>)
next
  case (4 m faults s n ms)
  then show ?case by (rule recent_messages_log)
qed

section \<open>Facts\<close>

lemma run_statements_done:
  "run_statements faults k ss db = (db', Inr u) \<Longrightarrow> db' = foldl (\<lambda>d s. s d) db ss"
  by (induction ss arbitrary: k db) (auto split: option.splits)

lemma run_transaction_cases:
  assumes "run_transaction faults k ss db = (db', r)"
  obtains e where "r = Inl e" "db' = db" | "r = Inr ()" "db' = foldl (\<lambda>d s. s d) db ss"
proof -
  obtain db1 r1 where run: "run_statements faults k (id # ss @ [id]) db = (db1, r1)" by fastforce
  show thesis
  proof (cases r1)
    case (Inl e)
    with assms run have "r = Inl e \<and> db' = db" by (auto simp: run_transaction_def simp del: run_statements.simps)
    then show ?thesis using that(1) by blast
  next
    case (Inr u)
    have "db1 = foldl (\<lambda>d s. s d) db (id # ss @ [id])" by (rule run_statements_done[OF run[unfolded Inr]])
    then have "db1 = foldl (\<lambda>d s. s d) db ss" by simp
    with assms run Inr have "r = Inr () \<and> db' = foldl (\<lambda>d s. s d) db ss"
      by (auto simp: run_transaction_def simp del: run_statements.simps)
    then show ?thesis using that(2) by blast
  qed
qed

lemma join_rows_member:
  "(r, d) \<in> set (join_rows key rows nearest) \<longleftrightarrow> r \<in> set rows \<and> (key r, d) \<in> set nearest"
  by (auto simp: join_rows_def)

lemma superseded_fact_row:
  assumes "superseded_fact env kind blob db = Some (i, old)"
  shows "\<exists>r\<in>set (md_facts db). ff_id r = i \<and> ff_content r = old \<and> ff_kind r = kind"
proof -
  from assms obtain s where "similar_fact env kind blob db = Some (i, old, s)"
    by (auto simp: superseded_fact_def split: option.splits if_splits)
  then obtain r d rest where
    "join_rows ff_id (filter (\<lambda>r. ff_kind r = kind) (md_facts db)) (me_nearest env (md_facts_vec db) blob 1) = (r, d) # rest"
    and r: "ff_id r = i" "ff_content r = old"
    by (auto simp: similar_fact_def split: list.splits)
  then have "(r, d) \<in> set (join_rows ff_id (filter (\<lambda>r. ff_kind r = kind) (md_facts db)) (me_nearest env (md_facts_vec db) blob 1))"
    by simp
  then show ?thesis using r unfolding join_rows_member by auto
qed

lemma fact_columns [simp]:
  "md_facts_vec (insert_fact sid c kind imp blob now db) = md_facts_vec db"
  "md_last_fact_id (insert_fact sid c kind imp blob now db) = md_last_fact_id db + 1"
  "md_facts (insert_fact_vec i blob db) = md_facts db" "md_last_fact_id (insert_fact_vec i blob db) = md_last_fact_id db"
  "md_facts (delete_fact_vec i db) = md_facts db" "md_last_fact_id (delete_fact_vec i db) = md_last_fact_id db"
  "md_facts_vec (delete_fact i db) = md_facts_vec db" "md_last_fact_id (delete_fact i db) = md_last_fact_id db"
  "md_facts_vec (update_fact i c blob imp now sid db) = md_facts_vec db"
  "md_last_fact_id (update_fact i c blob imp now sid db) = md_last_fact_id db"
  by (simp_all add: insert_fact_def insert_fact_vec_def delete_fact_vec_def delete_fact_def update_fact_def Let_def)

lemma insert_fact_ok:
  assumes "facts_ok db" "c \<noteq> []" "kind \<in> set allowed_memory_kinds" "1 \<le> imp" "imp \<le> 5"
  shows "facts_ok (insert_fact sid c kind imp blob now db)"
  using assms unfolding facts_ok_def
  by (auto simp: insert_fact_def Let_def sorted_wrt_append)

lemma insert_fact_vec_ok:
  assumes "facts_ok db" "r \<in> set (md_facts db)" "ff_id r = i" "ff_embedding r = blob"
    "i \<notin> fst ` set (md_facts_vec db)"
  shows "facts_ok (insert_fact_vec i blob db)"
  using assms unfolding facts_ok_def
  by (auto simp: insert_fact_vec_def)

lemma insert_indexed_fact_ok:
  assumes "facts_ok db" "c \<noteq> []" "kind \<in> set allowed_memory_kinds" "1 \<le> imp" "imp \<le> 5"
  shows "facts_ok (insert_fact_vec (md_last_fact_id db + 1) blob (insert_fact sid c kind imp blob now db))"
proof (rule insert_fact_vec_ok[OF insert_fact_ok[OF assms]])
  show "last (md_facts (insert_fact sid c kind imp blob now db)) \<in> set (md_facts (insert_fact sid c kind imp blob now db))"
    by (simp add: insert_fact_def Let_def)
  show "md_last_fact_id db + 1 \<notin> fst ` set (md_facts_vec (insert_fact sid c kind imp blob now db))"
    using assms(1) unfolding facts_ok_def by fastforce
qed (simp_all add: insert_fact_def Let_def)

lemma facts_ids_eq:
  "facts_ok db \<Longrightarrow> r \<in> set (md_facts db) \<Longrightarrow> r' \<in> set (md_facts db) \<Longrightarrow> ff_id r = ff_id r' \<Longrightarrow> r = r'"
  unfolding facts_ok_def by (metis distinct_map inj_onD strict_sorted_iff)

lemma supersede_ok:
  assumes "facts_ok db" "i \<in> ff_id ` set (md_facts db)" "c \<noteq> []" "1 \<le> imp" "imp \<le> 5"
  shows "facts_ok (insert_fact_vec i blob (delete_fact_vec i (update_fact i c blob imp now sid db)))"
proof -
  let ?upd = "\<lambda>r. if ff_id r = i then r\<lparr>ff_content := c, ff_embedding := blob, ff_importance := imp,
                ff_created_at := now, ff_source_session_id := sid\<rparr> else r"
  have ids: "map ff_id (map ?upd (md_facts db)) = map ff_id (md_facts db)" by simp
  have del: "set (AList.delete i (md_facts_vec db)) = {x \<in> set (md_facts_vec db). fst x \<noteq> i}"
    by (auto simp: AList.delete_eq)
  have vec: "\<forall>x\<in>set (AList.delete i (md_facts_vec db) @ [(i, blob)]). \<exists>r\<in>set (map ?upd (md_facts db)). ff_id r = fst x \<and> ff_embedding r = snd x"
  proof
    fix x assume "x \<in> set (AList.delete i (md_facts_vec db) @ [(i, blob)])"
    then consider "x = (i, blob)" | "x \<in> set (md_facts_vec db)" "fst x \<noteq> i" using del by auto
    then show "\<exists>r\<in>set (map ?upd (md_facts db)). ff_id r = fst x \<and> ff_embedding r = snd x"
    proof cases
      case 1
      from assms(2) obtain r where "r \<in> set (md_facts db)" "ff_id r = i" by blast
      then show ?thesis using 1 by (intro bexI[of _ "?upd r"]) simp_all
    next
      case 2
      then obtain r where "r \<in> set (md_facts db)" "ff_id r = fst x" "ff_embedding r = snd x"
        using assms(1) unfolding facts_ok_def by blast
      then show ?thesis using 2 by (intro bexI[of _ "?upd r"]) simp_all
    qed
  qed
  have "i \<notin> fst ` set (AList.delete i (md_facts_vec db))" unfolding del by auto
  then have dist: "distinct (map fst (AList.delete i (md_facts_vec db) @ [(i, blob)]))"
    using assms(1) unfolding facts_ok_def by (simp add: distinct_delete)
  have facts: "md_facts (insert_fact_vec i blob (delete_fact_vec i (update_fact i c blob imp now sid db))) = map ?upd (md_facts db)"
    "md_facts_vec (insert_fact_vec i blob (delete_fact_vec i (update_fact i c blob imp now sid db))) =
       AList.delete i (md_facts_vec db) @ [(i, blob)]"
    "md_last_fact_id (insert_fact_vec i blob (delete_fact_vec i (update_fact i c blob imp now sid db))) = md_last_fact_id db"
    by (simp_all add: update_fact_def insert_fact_vec_def delete_fact_vec_def)
  have old: "sorted_wrt (<) (map ff_id (md_facts db))" "0 \<le> md_last_fact_id db"
    using assms(1) unfolding facts_ok_def by blast+
  have rows: "\<forall>r\<in>set (map ?upd (md_facts db)). 1 \<le> ff_id r \<and> ff_id r \<le> md_last_fact_id db \<and> ff_content r \<noteq> [] \<and>
        ff_kind r \<in> set allowed_memory_kinds \<and> 1 \<le> ff_importance r \<and> ff_importance r \<le> 5"
    using assms(1,3-5) unfolding facts_ok_def by auto
  show ?thesis unfolding facts_ok_def facts ids using old rows dist vec by blast
qed

lemma memorize_kind_allowed: "memorize_kind kind = Inr k \<Longrightarrow> k \<in> set allowed_memory_kinds"
  by (auto simp: memorize_kind_def parse_memory_kind_def normalize_memory_kind_def allowed_memory_kinds_def Let_def
      split: if_splits)

lemma store_fact_facts_ok:
  assumes "facts_ok db" "c \<noteq> []" "kind \<in> set allowed_memory_kinds" "1 \<le> imp" "imp \<le> 5"
  shows "facts_ok (fst (store_fact env faults now sid c kind imp blob db))"
proof (cases "superseded_fact env kind blob db")
  case None
  then show ?thesis
    using assms by (auto simp: store_fact_def insert_fact_ok insert_indexed_fact_ok split: option.splits)
next
  case (Some x)
  obtain i old where x: "x = (i, old)" by fastforce
  from superseded_fact_row[OF Some[unfolded x]] have i: "i \<in> ff_id ` set (md_facts db)" by auto
  let ?ss = "[update_fact i c blob imp now sid, delete_fact_vec i, insert_fact_vec i blob]"
  obtain db' r where run: "run_transaction faults 3 ?ss db = (db', r)" by fastforce
  from run have "facts_ok db'"
    by (rule run_transaction_cases) (simp_all add: assms(1) supersede_ok[OF assms(1) i assms(2,4,5)])
  with run Some x show ?thesis by (simp add: store_fact_def)
qed

lemma memorize_facts_ok:
  assumes "facts_ok db"
  shows "facts_ok (fst (memorize env faults now cutoff db sid content kind importance))"
proof -
  have imp: "1 \<le> int (clamp 1 5 importance)" "int (clamp 1 5 importance) \<le> 5" by (simp_all add: clamp_def)
  show ?thesis
    using assms store_fact_facts_ok[OF assms _ memorize_kind_allowed imp]
    unfolding memorize_def Let_def
    by (auto simp: rbind_eq_Inr split: sum.splits)
qed

text \<open>Forgetting deletes rows of both tables together.\<close>

definition without_facts :: "int list \<Rightarrow> memory_db \<Rightarrow> memory_db" where
  "without_facts ids db =
     db\<lparr>md_facts := filter (\<lambda>r. ff_id r \<notin> set ids) (md_facts db),
        md_facts_vec := filter (\<lambda>x. fst x \<notin> set ids) (md_facts_vec db)\<rparr>"

lemma delete_one:
  "delete_fact_vec i (delete_fact i (without_facts ids db)) = without_facts (i # ids) db"
  unfolding without_facts_def delete_fact_vec_def delete_fact_def AList.delete_eq
  by (simp, intro arg_cong2[of _ _ _ _ "\<lambda>f v. db\<lparr>md_facts := f, md_facts_vec := v\<rparr>"] filter_cong refl) auto

lemma one_of_key: "distinct (map f xs) \<Longrightarrow> i \<in> f ` set xs \<Longrightarrow> length (filter (\<lambda>r. f r = i) xs) = 1"
proof (induction xs)
  case (Cons x xs)
  show ?case
  proof (cases "f x = i")
    case True
    then have "i \<notin> f ` set xs" using Cons.prems(1) by auto
    then have "filter (\<lambda>r. f r = i) xs = []" by (auto simp: filter_empty_conv)
    then show ?thesis using True by simp
  qed (use Cons in auto)
qed simp

lemma delete_facts_foldl:
  assumes "facts_ok db"
  shows "distinct ids \<Longrightarrow> set ids \<inter> set gone = {} \<Longrightarrow> set ids \<subseteq> ff_id ` set (md_facts db) \<Longrightarrow>
    foldl (\<lambda>d s. s d) (without_facts gone db, n) (delete_facts_steps ids) =
      (without_facts (rev ids @ gone) db, n + length ids)"
proof (induction ids arbitrary: gone n)
  case (Cons i ids)
  have dist: "distinct (map ff_id (md_facts db))" using assms by (simp add: facts_ok_def strict_sorted_iff)
  have "filter (\<lambda>r. ff_id r = i) (md_facts (without_facts gone db)) = filter (\<lambda>r. ff_id r = i) (md_facts db)"
    using Cons.prems(2) by (auto simp: without_facts_def intro!: filter_cong)
  moreover have "length (filter (\<lambda>r. ff_id r = i) (md_facts db)) = 1"
    by (rule one_of_key[OF dist]) (use Cons.prems(3) in auto)
  moreover have "foldl (\<lambda>d s. s d) (without_facts (i # gone) db, n + 1) (delete_facts_steps ids) =
      (without_facts (rev ids @ i # gone) db, n + 1 + length ids)"
    by (rule Cons.IH) (use Cons.prems in auto)
  ultimately show ?case by (simp add: delete_one)
qed simp

lemma without_no_facts [simp]: "without_facts [] db = db"
  by (simp add: without_facts_def)

lemma delete_facts_cases:
  assumes "facts_ok db" "distinct ids" "set ids \<subseteq> ff_id ` set (md_facts db)"
    and "delete_facts faults k ids db = (db', r)"
  obtains e where "r = Inl e" "db' = db" | "r = Inr (length ids)" "db' = without_facts ids db"
proof -
  obtain s r1 where run: "run_transaction faults k (delete_facts_steps ids) (db, 0) = (s, r1)" by fastforce
  from run show thesis
  proof (rule run_transaction_cases)
    fix e assume "r1 = Inl e" "s = (db, 0)"
    then show thesis using run assms(4) that(1) by (auto simp: delete_facts_def)
  next
    assume r1: "r1 = Inr ()" and s: "s = foldl (\<lambda>d s. s d) (db, 0) (delete_facts_steps ids)"
    have "s = (without_facts (rev ids) db, length ids)"
      unfolding s using delete_facts_foldl[OF assms(1,2) _ assms(3), of "[]" 0] by simp
    moreover have "without_facts (rev ids) db = without_facts ids db" by (simp add: without_facts_def)
    ultimately have "r = Inr (length ids) \<and> db' = without_facts ids db"
      using assms(4) unfolding delete_facts_def run r1 by simp
    then show thesis using that(2) by blast
  qed
qed

lemma without_facts_ok: "facts_ok db \<Longrightarrow> facts_ok (without_facts ids db)"
  unfolding facts_ok_def
  by (auto simp: without_facts_def sorted_wrt_filter_key distinct_map_filter) (metis fst_conv snd_conv)

lemma delete_facts_steps_ok:
  "facts_ok db \<Longrightarrow> facts_ok (fst (foldl (\<lambda>d s. s d) (without_facts gone db, n) (delete_facts_steps ids)))"
  by (induction ids arbitrary: gone n) (simp_all add: delete_one without_facts_ok)

lemma delete_facts_ok:
  assumes "facts_ok db"
  shows "facts_ok (fst (delete_facts faults k ids db))"
proof -
  obtain s r1 where run: "run_transaction faults k (delete_facts_steps ids) (db, 0) = (s, r1)" by fastforce
  from run have "facts_ok (fst s)"
    by (rule run_transaction_cases) (use assms delete_facts_steps_ok[OF assms, of "[]" 0 ids] in simp_all)
  with run show ?thesis by (cases s) (simp add: delete_facts_def)
qed

text \<open>What the loop over the candidates keeps.\<close>

definition forget_match_of :: "'f float_ops \<Rightarrow> fact_row \<times> 'f \<Rightarrow> 'f long_term_forget_match" where
  "forget_match_of fl x =
     \<lparr>fm_id = ff_id (fst x), fm_content = ff_content (fst x), fm_kind = ff_kind (fst x),
      fm_importance = ff_importance (fst x), fm_similarity = similarity_of fl (snd x)\<rparr>"

definition forget_wanted :: "'f float_ops \<Rightarrow> 'f \<Rightarrow> rstr option \<Rightarrow> fact_row \<times> 'f \<Rightarrow> bool" where
  "forget_wanted fl threshold kind x \<longleftrightarrow>
     \<not> fl_lt fl (similarity_of fl (snd x)) threshold \<and> (kind = None \<or> kind = Some (ff_kind (fst x)))"

lemma forget_loop_take:
  "length out < max_matches \<Longrightarrow>
   forget_loop fl threshold kind max_matches rows out =
     out @ take (max_matches - length out) (map (forget_match_of fl) (filter (forget_wanted fl threshold kind) rows))"
proof (induction rows arbitrary: out)
  case (Cons x rows)
  obtain row d where x: "x = (row, d)" by fastforce
  show ?case
  proof (cases "forget_wanted fl threshold kind x")
    case False
    then have "forget_loop fl threshold kind max_matches (x # rows) out = forget_loop fl threshold kind max_matches rows out"
      unfolding x by (auto simp: forget_wanted_def Let_def)
    then show ?thesis using Cons False by simp
  next
    case True
    let ?out = "out @ [forget_match_of fl x]"
    have "forget_loop fl threshold kind max_matches (x # rows) out =
        (if length ?out \<ge> max_matches then ?out else forget_loop fl threshold kind max_matches rows ?out)"
      using True unfolding x by (auto simp: forget_wanted_def forget_match_of_def Let_def)
    also have "\<dots> = out @ take (max_matches - length out) (forget_match_of fl x # map (forget_match_of fl) (filter (forget_wanted fl threshold kind) rows))"
    proof (cases "length ?out \<ge> max_matches")
      case True
      then have "max_matches - length out = Suc 0" using Cons.prems by simp
      then show ?thesis using True by simp
    next
      case False
      then have "max_matches - length out = Suc (max_matches - length ?out)" by simp
      then show ?thesis using False Cons.IH[of ?out] by simp
    qed
    finally show ?thesis using True by simp
  qed
qed simp

lemma join_rows_Cons:
  "join_rows key rows ((i, d) # nearest) = map (\<lambda>r. (r, d)) (filter (\<lambda>r. key r = i) rows) @ join_rows key rows nearest"
  by (simp add: join_rows_def)

lemma join_rows_keys: "key ` fst ` set (join_rows key rows nearest) \<subseteq> fst ` set nearest"
  by (force simp: join_rows_member)

lemma join_rows_distinct:
  assumes "distinct (map key rows)" "distinct (map fst nearest)"
  shows "distinct (map (\<lambda>x. key (fst x)) (join_rows key rows nearest))"
  using assms(2)
proof (induction nearest)
  case Nil
  then show ?case by (simp add: join_rows_def)
next
  case (Cons x nearest)
  obtain i d where x: "x = (i, d)" by fastforce
  have "distinct (map key (filter (\<lambda>r. key r = i) rows))" by (rule distinct_map_filter[OF assms(1)])
  moreover have "i \<notin> key ` fst ` set (join_rows key rows nearest)"
    using join_rows_keys[of key rows nearest] Cons.prems x by auto
  ultimately show ?case using Cons x by (auto simp: join_rows_Cons comp_def)
qed

definition honest_search :: "'f memory_env \<Rightarrow> bool" where
  "honest_search env \<longleftrightarrow> (\<forall>vectors blob k. distinct (map fst (me_nearest env vectors blob k)) \<and>
     fst ` set (me_nearest env vectors blob k) \<subseteq> fst ` set vectors)"

definition forgotten :: "'f memory_env \<Rightarrow> bool \<Rightarrow> memory_db \<Rightarrow> memory_db \<Rightarrow> 'f long_term_forget_result \<Rightarrow> bool" where
  "forgotten env commit db db' result \<longleftrightarrow>
     db' = (if commit then without_facts (map fm_id (fr_matches result)) db else db) \<and>
     fr_deleted_count result = (if commit then length (fr_matches result) else 0) \<and>
     length (fr_matches result) \<le> 50 \<and>
     (\<forall>m\<in>set (fr_matches result).
        \<not> fl_lt (me_float env) (fm_similarity m) (fr_similarity_threshold result) \<and>
        (fr_kind_filter result = None \<or> fr_kind_filter result = Some (fm_kind m)) \<and>
        (\<exists>r\<in>set (md_facts db). fm_id m = ff_id r \<and> fm_content m = ff_content r \<and> fm_kind m = ff_kind r))"

lemma forget_matches:
  fixes rows :: "(fact_row \<times> 'f) list"
  assumes "facts_ok db" "distinct (map fst nearest)" "0 < n"
    and rows: "rows = join_rows ff_id (md_facts db) nearest"
    and matches: "matches = forget_loop fl threshold kind n rows []"
  shows "distinct (map fm_id matches)" "set (map fm_id matches) \<subseteq> ff_id ` set (md_facts db)" "length matches \<le> n"
    "\<forall>m\<in>set matches. \<not> fl_lt fl (fm_similarity m) threshold \<and> (kind = None \<or> kind = Some (fm_kind m)) \<and>
        (\<exists>r\<in>set (md_facts db). fm_id m = ff_id r \<and> fm_content m = ff_content r \<and> fm_kind m = ff_kind r)"
proof -
  have m: "matches = take n (map (forget_match_of fl) (filter (forget_wanted fl threshold kind) rows))"
    using forget_loop_take[of "[]" n fl threshold kind rows] assms(3) matches by simp
  have dist: "distinct (map ff_id (md_facts db))" using assms(1) by (simp add: facts_ok_def strict_sorted_iff)
  have ids: "map fm_id matches = take n (map (\<lambda>x. ff_id (fst x)) (filter (forget_wanted fl threshold kind) rows))"
    unfolding m by (simp add: take_map forget_match_of_def)
  show "distinct (map fm_id matches)"
    unfolding ids rows by (rule distinct_take[OF distinct_map_filter[OF join_rows_distinct[OF dist assms(2)]]])
  have member: "\<exists>x\<in>set rows. m = forget_match_of fl x \<and> forget_wanted fl threshold kind x" if "m \<in> set matches" for m
    using in_set_takeD[OF that[unfolded m]] by auto
  have facts: "fst x \<in> set (md_facts db)" if "x \<in> set rows" for x
    using that join_rows_member[of "fst x" "snd x"] unfolding rows by simp
  show "set (map fm_id matches) \<subseteq> ff_id ` set (md_facts db)"
    using member facts by (fastforce simp: forget_match_of_def)
  show "length matches \<le> n" unfolding m by simp
  show "\<forall>m\<in>set matches. \<not> fl_lt fl (fm_similarity m) threshold \<and> (kind = None \<or> kind = Some (fm_kind m)) \<and>
        (\<exists>r\<in>set (md_facts db). fm_id m = ff_id r \<and> fm_content m = ff_content r \<and> fm_kind m = ff_kind r)"
  proof
    fix m assume "m \<in> set matches"
    from member[OF this] obtain x where x: "x \<in> set rows" "m = forget_match_of fl x" "forget_wanted fl threshold kind x" by blast
    show "\<not> fl_lt fl (fm_similarity m) threshold \<and> (kind = None \<or> kind = Some (fm_kind m)) \<and>
        (\<exists>r\<in>set (md_facts db). fm_id m = ff_id r \<and> fm_content m = ff_content r \<and> fm_kind m = ff_kind r)"
      using x(3) facts[OF x(1)] unfolding x(2) forget_wanted_def by (auto simp: forget_match_of_def)
  qed
qed

lemma forget_cases:
  assumes "facts_ok db" "honest_search env"
    and run: "semantic_forget_long_term env faults query similarity_threshold max_matches kind_filter commit db = (db', r)"
  shows "(\<exists>e. r = Inl e \<and> db' = db) \<or> (\<exists>result. r = Inr result \<and> forgotten env commit db db' result)"
proof (cases "trim query = []")
  case True
  then show ?thesis using run by (auto simp: semantic_forget_long_term_def Let_def)
next
  case False
  define threshold where "threshold = fl_clamp (me_float env) (fl_lit (me_float env) 0 1) (fl_lit (me_float env) 1 1) similarity_threshold"
  define n where "n = clamp 1 50 max_matches"
  have n: "0 < n" "n \<le> 50" by (simp_all add: n_def clamp_def)
  define query_result where "query_result = rbind (query_blob_of env (trim query)) (\<lambda>blob.
                    rbind (parse_kind_filter kind_filter) (\<lambda>kind.
                    rbind (db_call faults 0) (\<lambda>_. rbind (db_call faults 1) (\<lambda>_. Inr (blob, kind)))))"
  show ?thesis
  proof (cases query_result)
    case (Inl e)
    then have "r = Inl e \<and> db' = db"
      using run False by (auto simp: semantic_forget_long_term_def query_result_def)
    then show ?thesis by blast
  next
    case (Inr bk)
    obtain blob kind where bk: "bk = (blob, kind)" by fastforce
    define nearest where "nearest = me_nearest env (md_facts_vec db) blob (if kind \<noteq> None then n * 5 else n)"
    define matches where "matches = forget_loop (me_float env) threshold kind n (join_rows ff_id (md_facts db) nearest) []"
    define result where "result = (\<lambda>deleted. \<lparr>fr_matches = matches, fr_deleted_count = deleted,
                          fr_similarity_threshold = threshold, fr_max_matches = n, fr_kind_filter = kind\<rparr>)"
    have "distinct (map fst nearest)" using assms(2) unfolding honest_search_def nearest_def by blast
    note ms = forget_matches[OF assms(1) this n(1) refl matches_def]
    have run': "(if commit \<and> matches \<noteq> []
        then (case delete_facts faults 2 (map fm_id matches) db of (db, r) \<Rightarrow> (db, rbind r (\<lambda>total. Inr (result total))))
        else (db, Inr (result 0))) = (db', r)"
      using run False Inr
      unfolding semantic_forget_long_term_def Let_def query_result_def bk threshold_def n_def result_def matches_def nearest_def
      by simp
    have kept: "forgotten env commit db (if commit then without_facts (map fm_id matches) db else db)
        (result (if commit then length matches else 0))"
      using ms(3,4) n(2) by (simp add: forgotten_def result_def)
    show ?thesis
    proof (cases "commit \<and> matches \<noteq> []")
      case False
      then show ?thesis using run' kept by (cases commit) auto
    next
      case True
      obtain db1 r1 where del: "delete_facts faults 2 (map fm_id matches) db = (db1, r1)" by fastforce
      from del have "(\<exists>e. r1 = Inl e \<and> db1 = db) \<or> (r1 = Inr (length matches) \<and> db1 = without_facts (map fm_id matches) db)"
        by (rule delete_facts_cases[OF assms(1) ms(1,2)]) simp_all
      then show ?thesis using run' kept True del by auto
    qed
  qed
qed

lemma forget_facts_ok:
  assumes "facts_ok db"
  shows "facts_ok (fst (semantic_forget_long_term env faults query similarity_threshold max_matches kind_filter commit db))"
  using assms delete_facts_ok[OF assms]
  by (simp add: semantic_forget_long_term_def Let_def case_prod_beta split: sum.splits)

section \<open>Recall\<close>

lemma set_sort_hits [simp]: "set (sort_hits fl hits) = set hits"
proof -
  have "set (insert_hit fl h xs) = insert h (set xs)" for h and xs :: "'a memory_recall_hit list"
    by (induction xs) auto
  then have "set (foldl (\<lambda>sorted h. insert_hit fl h sorted) acc hits) = set acc \<union> set hits" for acc
    by (induction hits arbitrary: acc) auto
  then show ?thesis by (simp add: sort_hits_def)
qed

lemma rank_loop_set:
  "h \<in> set (rank_loop env config items dedupe out) \<Longrightarrow>
   h \<in> set out \<or> (h \<in> set items \<and> \<not> fl_lt (me_float env) (mh_raw_similarity h) (mc_min_score config))"
  by (induction env config items dedupe out rule: rank_loop.induct) (fastforce simp: Let_def split: if_splits)+

lemma rank_loop_length:
  "length out < mc_top_k config \<Longrightarrow> length (rank_loop env config items dedupe out) \<le> mc_top_k config"
  by (induction env config items dedupe out rule: rank_loop.induct) (auto simp: Let_def)

lemma rank_loop_keys:
  fixes env :: "'f memory_env"
  defines "key \<equiv> \<lambda>h :: 'f memory_recall_hit. normalize_memory_key (me_lowercase env) (mh_content h)"
  shows "distinct (map key out) \<Longrightarrow> set (map key out) = set dedupe \<Longrightarrow> distinct (map key (rank_loop env config items dedupe out))"
  unfolding key_def
  by (induction env config items dedupe out rule: rank_loop.induct) (auto simp: Let_def)

lemma rank_recall_hits_props:
  assumes "1 \<le> mc_top_k config" "ranked = rank_recall_hits env candidates config"
  shows "length ranked \<le> mc_top_k config"
    "h \<in> set ranked \<Longrightarrow> h \<in> set candidates \<and> \<not> fl_lt (me_float env) (mh_raw_similarity h) (mc_min_score config)"
    "distinct (map (\<lambda>h. normalize_memory_key (me_lowercase env) (mh_content h)) ranked)"
  using assms rank_loop_set[of h env config "sort_hits (me_float env) candidates" "[]" "[]"]
    rank_loop_length[of "[]" config env "sort_hits (me_float env) candidates" "[]"]
    rank_loop_keys[of env "[]" "[]" config "sort_hits (me_float env) candidates"]
  by (simp_all add: rank_recall_hits_def)

text \<open>The merged spans cover what the spans covered.\<close>

lemma merge_spans_cover:
  "sorted_wrt (\<lambda>a b. sp_start_id a \<le> sp_start_id b) spans \<Longrightarrow>
   (\<forall>m\<in>set merged. \<forall>sp\<in>set spans. sp_start_id m \<le> sp_start_id sp) \<Longrightarrow>
   (\<exists>sp\<in>set spans \<union> set merged. span_contains sp i) \<Longrightarrow>
   \<exists>sp\<in>set (merge_spans spans merged). span_contains sp i"
proof (induction spans merged rule: merge_spans.induct)
  case (3 span spans prev merged)
  show ?case
  proof (cases "sp_start_id span \<le> i64_saturating (sp_end_id prev + 1)")
    case True
    let ?grown = "prev\<lparr>sp_end_id := max (sp_end_id prev) (sp_end_id span)\<rparr>"
    have "\<exists>sp\<in>set spans \<union> set (?grown # merged). span_contains sp i"
    proof -
      from "3.prems"(3) obtain sp where sp: "sp \<in> set (span # spans) \<union> set (prev # merged)" "span_contains sp i" by blast
      have "span_contains ?grown i" if "sp = span \<or> sp = prev"
        using sp(2) that "3.prems"(2) by (fastforce simp: span_contains_def)
      then show ?thesis using sp by auto
    qed
    from "3.IH"(1)[OF True _ _ this] "3.prems"(1,2) True show ?thesis by simp
  next
    case False
    from "3.IH"(2)[OF False] "3.prems" False show ?thesis by auto
  qed
qed auto

lemma sorted_wrt_sort_key: "sorted_wrt (\<lambda>a b. f a \<le> f b) (sort_key f xs)" for f :: "'a \<Rightarrow> int"
  using sorted_sort_key[of f xs] by (simp add: sorted_wrt_map)

lemma merged_spans_contain:
  assumes "item \<in> set items" "1 \<le> st_id item" "st_id item < 2 ^ 63"
  shows "\<exists>sp\<in>set (merge_short_term_context_spans items radius). span_contains sp (st_id item)"
  unfolding merge_short_term_context_spans_def
proof (rule merge_spans_cover)
  have "span_contains (match_span radius item) (st_id item)"
    using assms(2,3) by (simp add: span_contains_def match_span_def i64_saturating_def)
  then show "\<exists>sp\<in>set (sort_key sp_start_id (map (match_span radius) items)) \<union> set []. span_contains sp (st_id item)"
    using assms(1) by auto
qed (simp_all add: sorted_wrt_sort_key)

text \<open>The context of each span: its messages outside the window.\<close>

lemma fetch_recent_ids:
  "fetch_recent_short_term_ids faults sid window db = Inr excluded \<Longrightarrow>
   excluded = map mr_id (newest window (conversation sid db))"
  by (auto simp: fetch_recent_short_term_ids_def newest_def rbind_eq_Inr split: if_splits)

definition context_rows :: "rstr \<Rightarrow> int list \<Rightarrow> memory_db \<Rightarrow> context_span \<Rightarrow> message_row list" where
  "context_rows sid excluded db span =
     filter (\<lambda>r. span_contains span (mr_id r) \<and> mr_id r \<notin> set excluded) (conversation sid db)"

lemma span_messages_rows:
  assumes "messages_ok db"
  shows "span_messages sid excluded db span = Inr (map message_of (context_rows sid excluded db span))"
proof -
  let ?rows = "filter (\<lambda>r. span_contains span (mr_id r)) (conversation sid db)"
  have sorted: "sort_key mr_id ?rows = ?rows"
    by (rule sort_key_sorted[OF sorted_wrt_filter_key[OF conversation_sorted[OF assms]]])
  have "rtraverse (\<lambda>r. rbind (stored_message_of r) (\<lambda>m. Inr (if mr_id r \<in> set excluded then None else Some m))) ?rows =
      Inr (map (\<lambda>r. if mr_id r \<in> set excluded then None else Some (message_of r)) ?rows)"
    by (rule rtraverse_map) (auto simp: stored_message_of_conversation[of _ sid db])
  moreover have "List.map_filter id (map (\<lambda>r. if mr_id r \<in> set excluded then None else Some (message_of r)) rows) =
      map message_of (filter (\<lambda>r. mr_id r \<notin> set excluded) rows)" for rows
    by (induction rows) (simp_all add: List.map_filter_def)
  ultimately show ?thesis by (simp add: span_messages_def sorted context_rows_def conj_commute)
qed

lemma fetch_context_windows:
  assumes "messages_ok db"
  shows "fetch_short_term_context_messages faults k sid spans excluded db = Inr windows \<Longrightarrow>
    windows = map (\<lambda>sp. (sp, map message_of (context_rows sid excluded db sp))) spans"
  by (induction spans arbitrary: k windows) (auto simp: rbind_eq_Inr span_messages_rows[OF assms])

definition outside_window :: "nat \<Rightarrow> rstr \<Rightarrow> memory_db \<Rightarrow> message_row set" where
  "outside_window window sid db = set (conversation sid db) - set (newest window (conversation sid db))"

definition recalled_message :: "nat \<Rightarrow> rstr \<Rightarrow> memory_db \<Rightarrow> 'f memory_recall_hit \<Rightarrow> bool" where
  "recalled_message window sid db h \<longleftrightarrow>
     (\<exists>r\<in>outside_window window sid db.
        mh_content h = render_short_term_message (mr_role r) (mr_content r) (mr_username r) \<and>
        (\<exists>ms. mh_context_messages h = Some ms \<and> message_of r \<in> set ms \<and>
           set ms \<subseteq> message_of ` outside_window window sid db))"

lemma short_candidates:
  assumes ok: "messages_ok db" "md_last_message_id db < 2 ^ 63"
    and run: "fetch_short_term_candidates env faults sid blob limit window radius db = Inr hits" and h: "h \<in> set hits"
  shows "mh_store h = ShortTermHit \<and> recalled_message window sid db h"
proof -
  let ?excluded = "map mr_id (newest window (conversation sid db))"
  let ?items = "short_term_matches env sid blob limit ?excluded db"
  let ?spans = "merge_short_term_context_spans ?items radius"
  let ?windows = "map (\<lambda>sp. (sp, map message_of (context_rows sid ?excluded db sp))) ?spans"
  have hits: "hits = map (short_term_hit ?windows) ?items"
    using run h
    by (auto simp: fetch_short_term_candidates_def rbind_eq_Inr Let_def dest!: fetch_recent_ids
        dest: fetch_context_windows[OF ok(1)] split: if_splits)
  with h obtain item where item: "item \<in> set ?items" "h = short_term_hit ?windows item" by auto
  then obtain r d where r: "r \<in> set (conversation sid db)" "item = short_term_match_of (me_float env) (r, d)"
    "mr_id r \<notin> set ?excluded"
    by (auto simp: short_term_matches_def join_rows_member short_term_match_of_def)
  have id: "st_id item = mr_id r" unfolding r(2) by (simp add: short_term_match_of_def)
  have "1 \<le> mr_id r" "mr_id r < 2 ^ 63"
    using ok r(1) unfolding messages_ok_def conversation_def by fastforce+
  with merged_spans_contain[OF item(1)] id
  have "\<exists>sp\<in>set ?spans. span_contains sp (mr_id r)" by simp
  then have "find (\<lambda>(span, _). span_contains span (mr_id r)) ?windows \<noteq> None"
    unfolding find_None_iff by auto
  then obtain w where w: "find (\<lambda>(span, _). span_contains span (mr_id r)) ?windows = Some w" by blast
  then have "w \<in> set ?windows" "span_contains (fst w) (mr_id r)" by (auto simp: find_Some_iff)
  then obtain sp where sp: "w = (sp, map message_of (context_rows sid ?excluded db sp))" "span_contains sp (mr_id r)" by auto
  have rows: "set (context_rows sid ?excluded db sp) \<subseteq> outside_window window sid db"
    by (auto simp: context_rows_def outside_window_def)
  have "r \<in> set (context_rows sid ?excluded db sp)" using r sp(2) by (simp add: context_rows_def)
  moreover from this have "context_rows sid ?excluded db sp \<noteq> []" by auto
  ultimately show ?thesis
    using rows w sp(1) unfolding item(2) recalled_message_def
    by (intro conjI bexI[of _ r]) (auto simp: short_term_hit_def id r(2) short_term_match_of_def)
qed

lemma long_candidates:
  assumes "fetch_long_term_candidates env faults blob limit weight db = Inr hits" "h \<in> set hits"
  shows "mh_store h = LongTermHit \<and> (\<exists>r\<in>set (md_facts db). mh_content h = ff_content r \<and> mh_kind h = Some (ff_kind r))"
proof -
  from assms obtain r d where "(r, d) \<in> set (join_rows ff_id (md_facts db) (me_nearest env (md_facts_vec db) blob limit))"
    "h = long_term_hit (me_float env) weight (r, d)"
    by (auto simp: fetch_long_term_candidates_def rbind_eq_Inr)
  then show ?thesis by (auto simp: join_rows_member long_term_hit_def Let_def)
qed

definition sound_hit :: "nat \<Rightarrow> rstr \<Rightarrow> memory_db \<Rightarrow> 'f memory_recall_hit \<Rightarrow> bool" where
  "sound_hit window sid db h \<longleftrightarrow>
     (case mh_store h of
        LongTermHit \<Rightarrow> \<exists>r\<in>set (md_facts db). mh_content h = ff_content r \<and> mh_kind h = Some (ff_kind r)
      | ShortTermHit \<Rightarrow> recalled_message window sid db h)"

lemma query_recall_hits_cases:
  assumes "query_recall_hits env fL fS sid query config window scope prefer db = Inr hits"
  obtains long short c where "c = normalized (me_float env) config"
    "long = [] \<or> (\<exists>blob limit. fetch_long_term_candidates env fL blob limit (mc_long_term_weight c) db = Inr long)"
    "short = [] \<or> (\<exists>blob limit. fetch_short_term_candidates env fS sid blob limit window (mc_short_term_context_radius c) db = Inr short)"
    "hits = rank_recall_hits env (long @ short) c \<or>
     (let rl = rank_recall_hits env long c; rs = rank_recall_hits env short c
      in hits = (if length rl < mc_top_k c then rl @ take (mc_top_k c - length rl) rs else rl))"
proof -
  let ?c = "normalized (me_float env) config"
  let ?n = "max (mc_top_k ?c * 5) 1"
  from assms obtain blob long short where r:
    "(if scope = CombinedScope \<or> scope = LongTermScope
      then fetch_long_term_candidates env fL blob ?n (mc_long_term_weight ?c) db else Inr []) = Inr long"
    "(if scope = CombinedScope \<or> scope = ShortTermScope
      then fetch_short_term_candidates env fS sid blob ?n window (mc_short_term_context_radius ?c) db else Inr []) = Inr short"
    "hits = (if prefer \<and> scope = CombinedScope
       then (let rl = rank_recall_hits env long ?c; rs = rank_recall_hits env short ?c
             in if length rl < mc_top_k ?c then rl @ take (mc_top_k ?c - length rl) rs else rl)
       else rank_recall_hits env (long @ short) ?c)"
    unfolding query_recall_hits_def Let_def rbind_eq_Inr by (auto simp del: max.absorb1 max.absorb2)
  show thesis
  proof (rule that[of ?c long short])
    show "long = [] \<or> (\<exists>blob limit. fetch_long_term_candidates env fL blob limit (mc_long_term_weight ?c) db = Inr long)"
      using r(1) by (auto split: if_splits)
    show "short = [] \<or> (\<exists>blob limit. fetch_short_term_candidates env fS sid blob limit window (mc_short_term_context_radius ?c) db = Inr short)"
      using r(2) by (auto split: if_splits)
    show "hits = rank_recall_hits env (long @ short) ?c \<or>
     (let rl = rank_recall_hits env long ?c; rs = rank_recall_hits env short ?c
      in hits = (if length rl < mc_top_k ?c then rl @ take (mc_top_k ?c - length rl) rs else rl))"
      using r(3) unfolding Let_def by (cases "prefer \<and> scope = CombinedScope") simp_all
  qed simp
qed

lemma recall_hits_props:
  assumes ok: "messages_ok db" "md_last_message_id db < 2 ^ 63"
    and run: "query_recall_hits env fL fS sid query config window scope prefer db = Inr hits"
  shows "length hits \<le> mc_top_k (normalized (me_float env) config)"
    "h \<in> set hits \<Longrightarrow> \<not> fl_lt (me_float env) (mh_raw_similarity h) (mc_min_score (normalized (me_float env) config)) \<and>
       sound_hit window sid db h"
proof -
  from run obtain long short c where c: "c = normalized (me_float env) config"
    and long: "long = [] \<or> (\<exists>blob limit. fetch_long_term_candidates env fL blob limit (mc_long_term_weight c) db = Inr long)"
    and short: "short = [] \<or> (\<exists>blob limit. fetch_short_term_candidates env fS sid blob limit window (mc_short_term_context_radius c) db = Inr short)"
    and hits: "hits = rank_recall_hits env (long @ short) c \<or>
     (let rl = rank_recall_hits env long c; rs = rank_recall_hits env short c
      in hits = (if length rl < mc_top_k c then rl @ take (mc_top_k c - length rl) rs else rl))"
    by (rule query_recall_hits_cases)
  have top: "1 \<le> mc_top_k c" unfolding c by (rule normalized_bounds(1))
  note props = rank_recall_hits_props[OF top refl, where env = env]
  show "length hits \<le> mc_top_k (normalized (me_float env) config)"
    using hits props(1)[of long] props(1)[of "long @ short"] unfolding c[symmetric] by (auto simp: Let_def)
  assume h: "h \<in> set hits"
  have ranked: "\<exists>cands. h \<in> set (rank_recall_hits env cands c) \<and> set cands \<subseteq> set long \<union> set short"
    using hits
  proof
    assume "hits = rank_recall_hits env (long @ short) c"
    then show ?thesis using h by (intro exI[of _ "long @ short"]) simp
  next
    assume "let rl = rank_recall_hits env long c; rs = rank_recall_hits env short c
      in hits = (if length rl < mc_top_k c then rl @ take (mc_top_k c - length rl) rs else rl)"
    then have "h \<in> set (rank_recall_hits env long c) \<or> h \<in> set (rank_recall_hits env short c)"
      using h by (auto simp: Let_def split: if_splits dest: in_set_takeD)
    then show ?thesis by blast
  qed
  then obtain cands where "h \<in> set (rank_recall_hits env cands c)" "set cands \<subseteq> set long \<union> set short" by blast
  with props(2)[of h cands] have mem: "h \<in> set long \<union> set short"
    and score: "\<not> fl_lt (me_float env) (mh_raw_similarity h) (mc_min_score c)" by auto
  have "sound_hit window sid db h"
    using mem
  proof
    assume "h \<in> set long"
    with long obtain blob limit where "fetch_long_term_candidates env fL blob limit (mc_long_term_weight c) db = Inr long" by auto
    from long_candidates[OF this \<open>h \<in> set long\<close>] show ?thesis by (simp add: sound_hit_def)
  next
    assume "h \<in> set short"
    with short obtain blob limit where
      "fetch_short_term_candidates env fS sid blob limit window (mc_short_term_context_radius c) db = Inr short" by auto
    from short_candidates[OF ok this \<open>h \<in> set short\<close>] show ?thesis by (simp add: sound_hit_def)
  qed
  with score show "\<not> fl_lt (me_float env) (mh_raw_similarity h) (mc_min_score (normalized (me_float env) config)) \<and>
       sound_hit window sid db h" by (simp add: c)
qed

text \<open>The columns an operation on facts leaves alone.\<close>

definition message_part :: "memory_db \<Rightarrow> (rstr \<times> rstr) list \<times> message_row list \<times> (int \<times> rstr) list \<times> int" where
  "message_part db = (md_sessions db, md_messages db, md_messages_vec db, md_last_message_id db)"

lemma message_part_simps [simp]:
  "message_part (insert_fact sid c kind imp blob now db) = message_part db"
  "message_part (insert_fact_vec i blob db) = message_part db"
  "message_part (delete_fact_vec i db) = message_part db"
  "message_part (delete_fact i db) = message_part db"
  "message_part (update_fact i c blob imp now sid db) = message_part db"
  "message_part (without_facts ids db) = message_part db"
  by (simp_all add: message_part_def insert_fact_def insert_fact_vec_def delete_fact_vec_def delete_fact_def
      update_fact_def without_facts_def Let_def)

lemma message_part_ok: "message_part db' = message_part db \<Longrightarrow> messages_ok db' = messages_ok db"
  by (simp add: message_part_def messages_ok_def)

lemma message_part_store_fact: "message_part (fst (store_fact env faults now sid c kind imp blob db)) = message_part db"
proof (cases "superseded_fact env kind blob db")
  case None
  then show ?thesis by (auto simp: store_fact_def split: option.splits)
next
  case (Some x)
  obtain i old where x: "x = (i, old)" by fastforce
  let ?ss = "[update_fact i c blob imp now sid, delete_fact_vec i, insert_fact_vec i blob]"
  obtain db' r where run: "run_transaction faults 3 ?ss db = (db', r)" by fastforce
  from run have "message_part db' = message_part db" by (rule run_transaction_cases) simp_all
  with run Some x show ?thesis by (simp add: store_fact_def)
qed

lemma message_part_memorize: "message_part (fst (memorize env faults now cutoff db sid content kind importance)) = message_part db"
  by (simp add: memorize_def Let_def message_part_store_fact split: sum.splits)

lemma message_part_delete_facts: "message_part (fst (delete_facts faults k ids db)) = message_part db"
proof -
  have steps: "message_part (fst (foldl (\<lambda>d s. s d) (db, n) (delete_facts_steps ids))) = message_part db" for n and db
    by (induction ids arbitrary: n db) simp_all
  obtain s r1 where run: "run_transaction faults k (delete_facts_steps ids) (db, 0) = (s, r1)" by fastforce
  from run have "message_part (fst s) = message_part db" by (rule run_transaction_cases) (simp_all add: steps)
  with run show ?thesis by (cases s) (simp add: delete_facts_def)
qed

lemma message_part_forget:
  "message_part (fst (semantic_forget_long_term env faults query threshold n kind commit db)) = message_part db"
  by (simp add: semantic_forget_long_term_def Let_def case_prod_beta message_part_delete_facts split: sum.splits)

section \<open>The properties\<close>

text \<open>A concrete memory: fixed-point numbers for floats, every text embedded alike.\<close>

abbreviation sample_floats :: "int float_ops" where
  "sample_floats \<equiv> \<lparr>fl_lit = (\<lambda>n d. 1000 * n div d), fl_add = (+), fl_sub = (-), fl_mul = (\<lambda>a b. a * b div 1000),
     fl_div = (\<lambda>a b. a * 1000 div b), fl_lt = (<), fl_le = (\<le>), fl_bytes = (\<lambda>_. ''x'')\<rparr>"

abbreviation sample_memory_env :: "int memory_env" where
  "sample_memory_env \<equiv> \<lparr>me_float = sample_floats, me_lowercase = to_ascii_lowercase,
     me_embedder = Some (\<lambda>_. Inr [[0]]),
     me_nearest = (\<lambda>vectors _ k. take k (map (\<lambda>i. (i, 0)) (remdups (map fst vectors))))\<rparr>"

abbreviation no_faults :: faults where "no_faults \<equiv> \<lambda>_. None"

lemma honest_sample: "honest_search sample_memory_env"
  by (auto simp: honest_search_def distinct_map inj_on_def take_map dest!: in_set_takeD)

lemma empty_memory_ok: "memory_ok empty_memory"
  by (simp add: memory_ok_def messages_ok_def facts_ok_def empty_memory_def)

text \<open>
  The tables stay well formed: appending a message, memorizing and forgetting, whatever
  database calls fail on the way, keep ids unique and ascending, roles and kinds among the known
  ones, importances from 1 to 5, every message in a known session, and every vector the vector
  of an existing message of the conversation or of exactly the fact that has it.
\<close>

theorem memory_tables_well_formed:
  assumes "memory_ok db"
  shows "memory_ok (fst (append_message env faults now sid role content username db)) \<and>
    memory_ok (fst (memorize env faults now cutoff db sid content kind importance)) \<and>
    memory_ok (fst (semantic_forget_long_term env faults query threshold n kind_filter commit db))"
proof -
  from assms have ok: "messages_ok db" "facts_ok db" by (simp_all add: memory_ok_def)
  have "facts_ok (fst (append_message env faults now sid role content username db))"
    using ok(2) append_message_facts[of env faults now sid role content username db] by (simp add: facts_ok_def)
  then show ?thesis
    unfolding memory_ok_def message_part_ok[OF message_part_memorize] message_part_ok[OF message_part_forget]
    by (intro conjI ok append_message_messages_ok memorize_facts_ok forget_facts_ok)
qed

theorem memory_tables_well_formed_witness:
  "memory_ok (fst (append_message sample_memory_env no_faults ''now'' ''s'' StoredUser ''hello'' None empty_memory))"
  by (rule memory_tables_well_formed[OF empty_memory_ok, THEN conjunct1])

text \<open>
  C25. Recall is sound: every hit reaches the configured score and there are at most ten; a hit from
  the facts is a stored fact of its kind; a hit from the conversation is a message of this very
  session outside the history window, it comes with its context, the context contains the message
  itself, and all of the context too are messages of this session outside the window.
\<close>

theorem recall_hits_sound:
  assumes "messages_ok db" "md_last_message_id db < 2 ^ 63"
    and "query_recall_hits env faults_long faults_short sid query config window scope prefer db = Inr hits"
  shows "length hits \<le> mc_top_k (normalized (me_float env) config) \<and> length hits \<le> 10 \<and>
    (\<forall>h\<in>set hits. \<not> fl_lt (me_float env) (mh_raw_similarity h) (mc_min_score (normalized (me_float env) config)) \<and>
       (case mh_store h of
          LongTermHit \<Rightarrow> \<exists>r\<in>set (md_facts db). mh_content h = ff_content r \<and> mh_kind h = Some (ff_kind r)
        | ShortTermHit \<Rightarrow> recalled_message window sid db h))"
  using recall_hits_props[OF assms] normalized_bounds(2)[of "me_float env" config]
  unfolding sound_hit_def by (meson le_trans)

abbreviation sample_conversation :: memory_db where
  "sample_conversation \<equiv>
     fst (append_message sample_memory_env no_faults ''t2'' ''s'' StoredAssistant ''hi'' None
     (fst (append_message sample_memory_env no_faults ''t1'' ''s'' StoredUser ''hello'' (Some ''ann'') empty_memory)))"

theorem recall_hits_sound_witness:
  "\<exists>hits. query_recall_hits sample_memory_env no_faults no_faults ''s'' ''hello'' (default_memory_recall sample_floats)
      1 CombinedScope True sample_conversation = Inr hits \<and> map mh_content hits = [''[ann] hello''] \<and>
      recalled_message 1 ''s'' sample_conversation (hd hits)"
proof -
  have "map_option (map (\<lambda>h. (mh_store h, mh_content h))) (case query_recall_hits sample_memory_env no_faults no_faults ''s'' ''hello'' (default_memory_recall sample_floats)
      1 CombinedScope True sample_conversation of Inr hits \<Rightarrow> Some hits | _ \<Rightarrow> None) = Some [(ShortTermHit, ''[ann] hello'')]"
    by code_simp
  then obtain hits where run: "query_recall_hits sample_memory_env no_faults no_faults ''s'' ''hello'' (default_memory_recall sample_floats)
      1 CombinedScope True sample_conversation = Inr hits"
    and hits: "map (\<lambda>h. (mh_store h, mh_content h)) hits = [(ShortTermHit, ''[ann] hello'')]"
    by (auto split: sum.splits)
  from hits obtain h where h: "hits = [h]" "mh_store h = ShortTermHit" "mh_content h = ''[ann] hello''" by auto
  have "messages_ok sample_conversation"
    using empty_memory_ok unfolding memory_ok_def by (intro append_message_messages_ok) blast
  moreover have "md_last_message_id sample_conversation < 2 ^ 63" by code_simp
  ultimately have "recalled_message 1 ''s'' sample_conversation h"
    using recall_hits_sound[OF _ _ run] h by fastforce
  then show ?thesis using run h by (intro exI[of _ hits]) simp
qed

text \<open>
  C26. Forgetting removes what it reports: a call that fails changes nothing, a preview changes
  nothing, and a committed call removes from both tables exactly the facts it lists, all of them
  counted; the listed facts are stored ones of the wanted kind that reach the threshold, at most 50.
\<close>

theorem forget_removes_what_it_reports:
  assumes "facts_ok db" "honest_search env"
    and "semantic_forget_long_term env faults query threshold max_matches kind_filter commit db = (db', r)"
  shows "(\<exists>e. r = Inl e \<and> db' = db) \<or> (\<exists>result. r = Inr result \<and> forgotten env commit db db' result)"
  by (rule forget_cases[OF assms])

abbreviation sample_facts :: memory_db where
  "sample_facts \<equiv> fst (memorize sample_memory_env no_faults ''t1'' ''t0'' empty_memory ''s'' ''likes tea'' ''profile'' 3)"

theorem forget_removes_what_it_reports_witness:
  "\<exists>db'. fst (semantic_forget_long_term sample_memory_env no_faults ''tea'' 800 5 None True sample_facts) = db' \<and>
     md_facts db' = [] \<and> map ff_content (md_facts sample_facts) = [''likes tea'']"
proof -
  have "facts_ok sample_facts"
    using empty_memory_ok unfolding memory_ok_def by (intro memorize_facts_ok) blast
  note cases = forget_removes_what_it_reports[OF this honest_sample, of no_faults "''tea''" 800 5 None True
      "fst (semantic_forget_long_term sample_memory_env no_faults ''tea'' 800 5 None True sample_facts)"
      "snd (semantic_forget_long_term sample_memory_env no_faults ''tea'' 800 5 None True sample_facts)"]
  have found: "(case snd (semantic_forget_long_term sample_memory_env no_faults ''tea'' 800 5 None True sample_facts) of
      Inr result \<Rightarrow> Some (map fm_id (fr_matches result)) | _ \<Rightarrow> None) = Some [1]" by code_simp
  have facts: "map (\<lambda>r. (ff_id r, ff_content r)) (md_facts sample_facts) = [(1, ''likes tea'')]" by code_simp
  from cases found obtain result where "snd (semantic_forget_long_term sample_memory_env no_faults ''tea'' 800 5 None True sample_facts) = Inr result"
    "forgotten sample_memory_env True sample_facts
       (fst (semantic_forget_long_term sample_memory_env no_faults ''tea'' 800 5 None True sample_facts)) result"
    by (auto split: sum.splits)
  moreover from this found have "map fm_id (fr_matches result) = [1]" by simp
  ultimately have "fst (semantic_forget_long_term sample_memory_env no_faults ''tea'' 800 5 None True sample_facts) = without_facts [1] sample_facts"
    by (simp add: forgotten_def)
  moreover have "md_facts (without_facts [1] sample_facts) = []" "map ff_content (md_facts sample_facts) = [''likes tea'']"
    using facts by (auto simp: without_facts_def filter_empty_conv map_eq_Cons_conv)
  ultimately show ?thesis by simp
qed

text \<open>A fact stored without its vector.\<close>

lemma find_after_unindexed:
  assumes "facts_ok db" "honest_search env"
  shows "fetch_long_term_candidates env f blob' limit weight (insert_fact sid c k imp blob now db) =
    fetch_long_term_candidates env f blob' limit weight db"
proof -
  have "md_last_fact_id db + 1 \<notin> fst ` set (me_nearest env (md_facts_vec db) blob' limit)"
    using assms unfolding facts_ok_def honest_search_def by fastforce
  then have "join_rows ff_id (md_facts (insert_fact sid c k imp blob now db)) (me_nearest env (md_facts_vec db) blob' limit) =
      join_rows ff_id (md_facts db) (me_nearest env (md_facts_vec db) blob' limit)"
    unfolding join_rows_def by (intro arg_cong[of _ _ concat] map_cong) (force simp: insert_fact_def Let_def)+
  then show ?thesis by (simp add: fetch_long_term_candidates_def)
qed

text \<open>
  A half-stored fact is lost: when the second of the two unprotected inserts of \<open>memorize\<close>
  fails, the call fails with the fact in the table but without its vector; recall finds exactly
  what it found before; and a retry whose window reaches back to the first attempt is
  answered with \<open>Duplicate\<close> and changes nothing, so the fact stays out of every recall.
\<close>

theorem half_stored_fact_is_lost:
  assumes "facts_ok db" "honest_search env" "trim content \<noteq> []" "memorize_kind kind = Inr k"
    and "\<not> has_recent_long_term_fact k (trim content) cutoff db"
    and "query_blob_of env (trim content) = Inr blob" "superseded_fact env k blob db = None"
    and "text_le cutoff' now" "faults' 0 = None" "faults' 1 = None"
  shows "\<exists>db'. memorize env ((\<lambda>_. None)(4 := Some e)) now cutoff db sid content kind importance = (db', Inl e) \<and>
     (\<forall>f blob' limit weight. fetch_long_term_candidates env f blob' limit weight db' =
        fetch_long_term_candidates env f blob' limit weight db) \<and>
     memorize env faults' now' cutoff' db' sid' content kind importance' = (db', Inr MemDuplicate)"
proof (intro exI conjI allI)
  let ?db = "insert_fact sid (trim content) k (int (clamp 1 5 importance)) blob now db"
  have run: "run_statements ((\<lambda>_. None)(4 := Some e)) 3
      [insert_fact sid (trim content) k (int (clamp 1 5 importance)) blob now,
       \<lambda>db. insert_fact_vec (md_last_fact_id db) blob db] db = (?db, Inl e)" by simp
  show "memorize env ((\<lambda>_. None)(4 := Some e)) now cutoff db sid content kind importance = (?db, Inl e)"
    using assms(3-7) run by (simp add: memorize_def store_fact_def db_call_def)
  show "fetch_long_term_candidates env f blob' limit weight ?db = fetch_long_term_candidates env f blob' limit weight db"
    for f blob' limit weight by (rule find_after_unindexed[OF assms(1,2)])
  have "has_recent_long_term_fact k (trim content) cutoff' ?db"
    using assms(8) by (simp add: has_recent_long_term_fact_def insert_fact_def Let_def)
  then show "memorize env faults' now' cutoff' ?db sid' content kind importance' = (?db, Inr MemDuplicate)"
    using assms(3,4,9,10) by (simp add: memorize_def db_call_def)
qed

theorem half_stored_fact_is_lost_witness:
  "\<exists>db'. memorize sample_memory_env ((\<lambda>_. None)(4 := Some (DbError ''disk full''))) ''t5'' ''t0'' empty_memory ''s'' ''likes tea'' ''profile'' 3
     = (db', Inl (DbError ''disk full'')) \<and>
   memorize sample_memory_env no_faults ''t6'' ''t1'' db' ''s'' ''likes tea'' ''profile'' 3 = (db', Inr MemDuplicate)"
proof -
  have "facts_ok empty_memory" using empty_memory_ok by (simp add: memory_ok_def)
  moreover have "trim ''likes tea'' \<noteq> []" by code_simp
  moreover have "memorize_kind ''profile'' = Inr ''profile''" by code_simp
  moreover have "\<not> has_recent_long_term_fact ''profile'' (trim ''likes tea'') ''t0'' empty_memory" by code_simp
  moreover have "query_blob_of sample_memory_env (trim ''likes tea'') = Inr ''x''" by code_simp
  moreover have "superseded_fact sample_memory_env ''profile'' ''x'' empty_memory = None" by code_simp
  moreover have "text_le ''t1'' ''t5''" by code_simp
  ultimately show ?thesis
    using half_stored_fact_is_lost[OF _ honest_sample, of empty_memory "''likes tea''" "''profile''" "''profile''" "''t0''" "''x''" "''t1''" "''t5''"
        no_faults "DbError ''disk full''" "''s''" 3 "''t6''" "''s''" 3] by blast
qed

end
