(* ===== verification/Turn.thy ===== *)
theory Turn
  imports Memory
begin

text \<open>
  \<open>src/turn/\<close> and \<open>src/reply_policy.rs\<close>: one turn of an agent. The user's message is stored, the
  history and the recalled memory become the prompt, the loop runs, and its reply is stored. The
  loop is an argument that may change the memory through its tools; a panic is an end of its own.
\<close>

section \<open>The recall query\<close>

definition is_no_reply :: "rstr \<Rightarrow> bool" where
  "is_no_reply reply \<longleftrightarrow> trim reply = ''NO_REPLY''"

definition strip_leading_discord_mention :: "rstr \<Rightarrow> rstr option" where
  "strip_leading_discord_mention text =
     (if prefix ''<@'' text
      then (let rest = drop 2 text
            in case find_sub ''>'' rest of None \<Rightarrow> None | Some close \<Rightarrow> Some (drop (close + 1) rest))
      else None)"

text \<open>From here \<open>None\<close> is the panic of a slice that does not fall on a character boundary.\<close>

definition starts_with_name_token :: "rstr \<Rightarrow> rstr \<Rightarrow> nat option option" where
  "starts_with_name_token text name =
     (if length text < length name then Some None
      else (case slice_to text (length name) of
              None \<Rightarrow> None
            | Some head \<Rightarrow>
                (if \<not> eq_ignore_ascii_case head name then Some None
                 else if length text = length name then Some (Some (length name))
                 else (case slice_from text (length name) of
                         None \<Rightarrow> None
                       | Some rest \<Rightarrow>
                           (case chars rest of
                              [] \<Rightarrow> Some None
                            | ch # _ \<Rightarrow>
                                (if is_ws ch \<or> ch \<in> {'':'', '','', ''!'', ''?'', ''.''}
                                 then Some (Some (length name)) else Some None))))))"

definition strip_leading_name_token :: "rstr \<Rightarrow> rstr \<Rightarrow> rstr option option" where
  "strip_leading_name_token text name =
     (if trim name = [] then Some None
      else (case starts_with_name_token text (trim name) of
              None \<Rightarrow> None
            | Some None \<Rightarrow> Some None
            | Some (Some prefix_len) \<Rightarrow> map_option Some (slice_from text prefix_len)))"

definition strip_leading_at_name :: "rstr \<Rightarrow> rstr \<Rightarrow> rstr option option" where
  "strip_leading_at_name text name =
     (if trim name = [] then Some None
      else if prefix ''@'' text then strip_leading_name_token (drop 1 text) (trim name)
      else Some None)"

text \<open>\<open>or_else\<close> over attempts that may panic.\<close>

definition or_try :: "'a option option \<Rightarrow> 'a option option \<Rightarrow> 'a option option" where
  "or_try a b = (case a of Some None \<Rightarrow> b | _ \<Rightarrow> a)"

definition strip_leading :: "rstr \<Rightarrow> rstr \<Rightarrow> rstr \<Rightarrow> rstr option option" where
  "strip_leading agent_name agent_id text =
     or_try (or_try (or_try (Some (strip_leading_discord_mention text))
       (strip_leading_at_name text agent_name))
       (strip_leading_name_token text agent_name))
       (strip_leading_name_token text agent_id)"

definition trim_separators :: "rstr \<Rightarrow> rstr" where
  "trim_separators text =
     concat (dropWhile (\<lambda>ch. is_ws ch \<or> ch \<in> {'':'', '','', ''!'', ''?'', ''.'', '';'', ''-''}) (chars text))"

lemma discord_shorter: "strip_leading_discord_mention text = Some t \<Longrightarrow> length t < length text"
  by (auto simp: strip_leading_discord_mention_def Let_def prefix_def split: if_splits option.splits)

lemma name_token_shorter:
  assumes "strip_leading_name_token text name = Some (Some t)"
  shows "length t < length text"
proof -
  from assms obtain n where n: "starts_with_name_token text (trim name) = Some (Some n)" "trim name \<noteq> []"
    "slice_from text n = Some t"
    by (auto simp: strip_leading_name_token_def split: option.splits if_splits)
  then have "n = length (trim name)" "length (trim name) \<le> length text"
    by (auto simp: starts_with_name_token_def split: option.splits if_splits list.splits)
  with n(2) have "0 < n" "n \<le> length text" by auto
  moreover have "t = drop n text" using n(3) by (simp add: slice_from_def split: if_splits)
  ultimately show ?thesis by simp
qed

lemma at_name_shorter: "strip_leading_at_name text name = Some (Some t) \<Longrightarrow> length t < length text"
  using name_token_shorter[of "drop 1 text"]
  by (fastforce simp: strip_leading_at_name_def split: if_splits)

lemma or_try_Some: "or_try a b = Some (Some t) \<Longrightarrow> a = Some (Some t) \<or> b = Some (Some t)"
  by (auto simp: or_try_def split: option.splits)

lemma strip_leading_shorter: "strip_leading agent_name agent_id text = Some (Some t) \<Longrightarrow> length t < length text"
  unfolding strip_leading_def
  by (auto dest!: or_try_Some dest: discord_shorter at_name_shorter name_token_shorter)

lemma trim_separators_le: "length (trim_separators text) \<le> length text"
proof -
  have "length (concat (dropWhile P xs)) \<le> length (concat xs)" for P and xs :: "rstr list"
    by (induction xs) auto
  from this[of _ "chars text"] show ?thesis by (simp add: trim_separators_def)
qed

function normalize_loop :: "rstr \<Rightarrow> rstr \<Rightarrow> rstr \<Rightarrow> rstr option" where
  "normalize_loop agent_name agent_id remaining =
     (case strip_leading agent_name agent_id remaining of
        None \<Rightarrow> None
      | Some None \<Rightarrow> Some remaining
      | Some (Some stripped) \<Rightarrow>
          (if stripped = remaining then Some remaining
           else if trim_separators stripped = [] then Some []
           else normalize_loop agent_name agent_id (trim_separators stripped)))"
  by pat_completeness auto
termination
  by (relation "measure (\<lambda>(agent_name, agent_id, remaining). length remaining)")
     (auto intro: le_less_trans[OF trim_separators_le strip_leading_shorter])

declare normalize_loop.simps [simp del]

definition normalize_recall_query :: "rstr \<Rightarrow> rstr \<Rightarrow> rstr \<Rightarrow> rstr option" where
  "normalize_recall_query query agent_name agent_id =
     (if trim query = [] then Some []
      else map_option trim (normalize_loop agent_name agent_id (trim query)))"

definition count_recall_words :: "rstr \<Rightarrow> nat" where
  "count_recall_words text = length (split_whitespace text)"

section \<open>The memory sections of the prompt\<close>

record memory_section =
  ps_section :: rstr
  ps_short_hits :: nat
  ps_long_hits :: nat

definition no_section :: memory_section where
  "no_section = \<lparr>ps_section = [], ps_short_hits = 0, ps_long_hits = 0\<rparr>"

text \<open>Lines are added in order until one does not fit; lengths are in bytes.\<close>

fun add_lines :: "rstr list \<Rightarrow> nat \<Rightarrow> rstr \<Rightarrow> nat \<Rightarrow> rstr \<times> nat" where
  "add_lines [] max_chars section1 n = (section1, n)"
| "add_lines (line # rest) max_chars section1 n =
     (if length section1 + length line > max_chars then (section1, n)
      else add_lines rest max_chars (section1 @ line) (Suc n))"

definition long_term_line :: "nat \<Rightarrow> 'f memory_recall_hit \<Rightarrow> rstr" where
  "long_term_line index hit =
     [NL] @ show_nat (index + 1) @ ''. ['' @ unwrap_or ''general'' (mh_kind hit) @ ''] '' @ trim (mh_content hit)"

definition long_term_base :: rstr where
  "long_term_base = ''# REMEMBERED FACTS'' @ [NL] @
     ''Persistent facts from long-term memory. Prioritize the current conversation over these.''"

definition short_term_base :: rstr where
  "short_term_base = ''# RECALLED CONVERSATIONS'' @ [NL] @
     ''Excerpts from earlier in this session that may be relevant.''"

definition build_long_term_memory_section :: "'f memory_recall_hit list \<Rightarrow> nat \<Rightarrow> memory_section" where
  "build_long_term_memory_section hits max_chars =
     (if hits = [] \<or> max_chars = 0 then no_section
      else (case add_lines (map (\<lambda>(i, hit). long_term_line i hit) (List.enumerate 0 hits)) max_chars long_term_base 0 of
              (section1, long_hits) \<Rightarrow>
                (if long_hits = 0 then no_section
                 else \<lparr>ps_section = section1, ps_short_hits = 0, ps_long_hits = long_hits\<rparr>)))"

definition render_context_message :: "stored_message \<Rightarrow> rstr" where
  "render_context_message message =
     (case sm_role message of
        StoredUser \<Rightarrow> ''['' @ unwrap_or ''user'' (Option.bind (sm_username message) non_empty_trim) @ '']: '' @
          trim (sm_content message)
      | StoredAssistant \<Rightarrow> ''[assistant]: '' @ trim (sm_content message)
      | StoredSystem \<Rightarrow> ''[system]: '' @ trim (sm_content message)
      | StoredTool \<Rightarrow> ''[tool]: '' @ trim (sm_content message))"

text \<open>\<open>show2\<close> prints a float with two decimals.\<close>

definition render_short_term_excerpt :: "('f \<Rightarrow> rstr) \<Rightarrow> 'f memory_recall_hit \<Rightarrow> rstr" where
  "render_short_term_excerpt show2 hit =
     [NL, NL] @ ''--- excerpt (similarity: '' @ show2 (mh_raw_similarity hit) @ '') ---'' @
     (case mh_context_messages hit of
        Some messages \<Rightarrow> concat (map (\<lambda>m. NL # render_context_message m) messages)
      | None \<Rightarrow> NL # trim (mh_content hit)) @
     [NL] @ ''---''"

definition build_short_term_memory_section ::
  "('f \<Rightarrow> rstr) \<Rightarrow> 'f memory_recall_hit list \<Rightarrow> nat \<Rightarrow> memory_section" where
  "build_short_term_memory_section show2 hits max_chars =
     (if hits = [] \<or> max_chars = 0 then no_section
      else (case add_lines (map (render_short_term_excerpt show2) hits) max_chars short_term_base 0 of
              (section1, short_hits) \<Rightarrow>
                (if short_hits = 0 then no_section
                 else \<lparr>ps_section = section1, ps_short_hits = short_hits, ps_long_hits = 0\<rparr>)))"

definition join_one :: "memory_section \<Rightarrow> memory_section \<Rightarrow> memory_section" where
  "join_one joined section1 =
     (if ps_section section1 = [] then joined
      else \<lparr>ps_section = (if ps_section joined = [] then ps_section section1
                          else ps_section joined @ [NL, NL] @ ps_section section1),
            ps_short_hits = ps_short_hits joined + ps_short_hits section1,
            ps_long_hits = ps_long_hits joined + ps_long_hits section1\<rparr>)"

definition join_memory_sections :: "memory_section list \<Rightarrow> memory_section" where
  "join_memory_sections sections = foldl join_one no_section sections"

definition format_recalled_memory :: "('f \<Rightarrow> rstr) \<Rightarrow> 'f memory_recall_hit list \<Rightarrow> nat \<Rightarrow> nat \<Rightarrow> memory_section" where
  "format_recalled_memory show2 hits long_term_max_chars short_term_max_chars =
     (if hits = [] \<or> (long_term_max_chars = 0 \<and> short_term_max_chars = 0) then no_section
      else join_memory_sections
        [build_long_term_memory_section (filter (\<lambda>h. mh_store h = LongTermHit) hits) long_term_max_chars,
         build_short_term_memory_section show2 (filter (\<lambda>h. mh_store h = ShortTermHit) hits) short_term_max_chars])"

section \<open>Preparing a turn\<close>

record 'f turn_agent = agent_runtime +
  tn_agent_id :: rstr
  tn_memory_recall :: "'f memory_recall_config"

text \<open>The database calls of a turn, in their order, and the times of its two messages.\<close>

record 'f turn_world =
  tx_env :: "'f memory_env"
  tx_show2 :: "'f \<Rightarrow> rstr"
  tx_user_faults :: faults
  tx_history_faults :: faults
  tx_long_faults :: faults
  tx_short_faults :: faults
  tx_reply_faults :: faults
  tx_user_time :: rstr
  tx_reply_time :: rstr

record prepared_turn =
  pp_system_prompt :: rstr
  pp_history :: "message list"
  pp_short_hits :: nat
  pp_long_hits :: nat

definition record_context :: "'f turn_world \<Rightarrow> inbound_message \<Rightarrow> rstr \<Rightarrow> memory_db \<Rightarrow> memory_db \<times> unit res" where
  "record_context w inbound session_id db =
     append_message (tx_env w) (tx_user_faults w) (tx_user_time w) session_id StoredUser
       (im_content inbound) (Some (im_username inbound)) db"

definition history_message :: "stored_message \<Rightarrow> message option" where
  "history_message item =
     (case sm_role item of
        StoredUser \<Rightarrow> Some (message_text User
          (case Option.bind (sm_username item) non_empty_trim of
             Some username \<Rightarrow> ''['' @ username @ ''] '' @ sm_content item | None \<Rightarrow> sm_content item))
      | StoredAssistant \<Rightarrow> Some (message_text Assistant (sm_content item))
      | _ \<Rightarrow> None)"

definition seeded_history :: "faults \<Rightarrow> nat \<Rightarrow> rstr \<Rightarrow> memory_db \<Rightarrow> message list res" where
  "seeded_history faults history_limit session_id db =
     rbind (recent_messages faults session_id history_limit db)
       (\<lambda>stored. Inr (List.map_filter history_message stored))"

record prompt_build =
  pb_system_prompt :: rstr
  pb_short_hits :: nat
  pb_long_hits :: nat

definition without_recall :: "rstr \<Rightarrow> prompt_build" where
  "without_recall system_prompt = \<lparr>pb_system_prompt = system_prompt, pb_short_hits = 0, pb_long_hits = 0\<rparr>"

definition build_turn_system_prompt ::
  "'f turn_world \<Rightarrow> 'f turn_agent \<Rightarrow> rstr \<Rightarrow> rstr \<Rightarrow> memory_db \<Rightarrow> prompt_build option" where
  "build_turn_system_prompt w agent session_id query db =
     (let config = normalized (me_float (tx_env w)) (tn_memory_recall agent);
          plain = without_recall (ar_system_prompt agent)
      in if \<not> mc_enabled config then Some plain
         else
           (case normalize_recall_query query (ar_agent_name agent) (tn_agent_id agent) of
              None \<Rightarrow> None
            | Some normalized_query \<Rightarrow>
                (if normalized_query = [] \<or> count_recall_words normalized_query < mc_recall_word_count_threshold config
                 then Some plain
                 else
                   (case query_recall_hits (tx_env w) (tx_long_faults w) (tx_short_faults w) session_id normalized_query
                           config (ar_history_messages agent) CombinedScope True db of
                      Inl _ \<Rightarrow> Some plain
                    | Inr hits \<Rightarrow>
                        (if hits = [] then Some plain
                         else
                           (let recalled = format_recalled_memory (tx_show2 w) hits
                                  (mc_long_term_max_chars config) (mc_short_term_max_chars config)
                            in if ps_section recalled = [] then Some plain
                               else Some \<lparr>pb_system_prompt = ar_system_prompt agent @ [NL, NL] @ ps_section recalled,
                                          pb_short_hits = ps_short_hits recalled,
                                          pb_long_hits = ps_long_hits recalled\<rparr>))))))"

definition inject_caller_context :: "rstr \<Rightarrow> inbound_message \<Rightarrow> rstr" where
  "inject_caller_context base inbound =
     (let chat_type = (if im_is_dm inbound then ''dm'' else ''group'');
          trigger_line = (if im_user_id inbound = ''system'' \<and> im_username inbound = ''cron''
                          then NL # ''trigger: scheduled_cron'' else []);
          guild_line = (case im_guild_id inbound of Some gid \<Rightarrow> NL # ''guild_id: '' @ gid | None \<Rightarrow> []);
          message_line = (case im_source_message_id inbound of
                            Some message_id \<Rightarrow> NL # ''message_id: '' @ message_id | None \<Rightarrow> [])
      in base @ [NL, NL] @ ''# CURRENT CONTEXT'' @ [NL] @ ''chat_type: '' @ chat_type @ [NL] @
         ''platform: '' @ channel_kind_as_str (im_source_channel inbound) @ [NL] @
         ''channel_id: '' @ im_channel_id inbound @ guild_line @ message_line @ trigger_line @ [NL] @
         ''Speaker: **'' @ im_username inbound @ ''** (id: '' @ im_user_id inbound @ '')'')"

datatype 'a turn_end =
    TurnDone "'a res"
  | TurnPanicked
  | TurnStuck   \<comment> \<open>the loop never returns\<close>

definition prepare_turn ::
  "'f turn_world \<Rightarrow> 'f turn_agent \<Rightarrow> inbound_message \<Rightarrow> rstr \<Rightarrow> memory_db \<Rightarrow> memory_db \<times> prepared_turn turn_end" where
  "prepare_turn w agent inbound session_id db =
     (case append_message (tx_env w) (tx_user_faults w) (tx_user_time w) session_id StoredUser
             (im_content inbound) (Some (im_username inbound)) db of
        (db, Inl e) \<Rightarrow> (db, TurnDone (Inl e))
      | (db, Inr _) \<Rightarrow>
          (case seeded_history (tx_history_faults w) (ar_history_messages agent) session_id db of
             Inl e \<Rightarrow> (db, TurnDone (Inl e))
           | Inr history \<Rightarrow>
               (case build_turn_system_prompt w agent session_id (im_content inbound) db of
                  None \<Rightarrow> (db, TurnPanicked)
                | Some prompt \<Rightarrow>
                    (db, TurnDone (Inr
                       \<lparr>pp_system_prompt = inject_caller_context (pb_system_prompt prompt) inbound,
                        pp_history = history, pp_short_hits = pb_short_hits prompt,
                        pp_long_hits = pb_long_hits prompt\<rparr>)))))"

section \<open>Executing a turn\<close>

definition completion_route_of :: "rstr \<Rightarrow> inbound_message \<Rightarrow> completion_route" where
  "completion_route_of agent_id inbound =
     \<lparr>cr_trace_id = im_trace_id inbound, cr_source_channel = im_source_channel inbound,
      cr_target_agent_id = agent_id, cr_session_key = im_session_key inbound,
      cr_source_message_id = im_source_message_id inbound, cr_channel_id = im_channel_id inbound,
      cr_guild_id = im_guild_id inbound, cr_is_dm = im_is_dm inbound\<rparr>"

record turn_run =
  tr_params :: run_params
  tr_env :: tool_env
  tr_history_messages :: nat

definition turn_run_of ::
  "'f turn_agent \<Rightarrow> inbound_message \<Rightarrow> rstr \<Rightarrow> bool \<Rightarrow> (rstr \<times> rstr) list \<Rightarrow> rstr \<Rightarrow> turn_run" where
  "turn_run_of agent inbound session_id on_text_delta execution_env system_prompt =
     (let env = \<lparr>ev_agent_id = tn_agent_id agent, ev_agent_name = ar_agent_name agent,
                 ev_user_id = im_user_id inbound, ev_owner_ids = ar_owner_ids agent, te_vars = execution_env,
                 te_persona_root = ar_persona_root agent, te_workspace_root = ar_workspace_root agent,
                 te_allow_async_tools = True, te_gateway = True, te_has_tx = True,
                 te_route = Some (completion_route_of (tn_agent_id agent) inbound)\<rparr>
      in \<lparr>tr_params = \<lparr>rp_provider_key = ar_provider_key agent, rp_system_prompt = system_prompt,
            rp_session_id = session_id, rp_max_steps = ar_max_steps agent, rp_tool_env = exec_env.truncate env,
            rp_tool_registry = ar_tool_registry agent, rp_source_message_id = im_source_message_id inbound,
            rp_on_text_delta = on_text_delta\<rparr>,
          tr_env = env, tr_history_messages = ar_history_messages agent\<rparr>)"

record turn_outcome =
  tq_reply :: rstr
  tq_tool_calls :: "execution_result list"
  tq_memory_recall_used :: bool
  tq_memory_recall_short_hits :: nat
  tq_memory_recall_long_hits :: nat

datatype turn_disposition = ContextRecorded | NoReply | Replied turn_outcome

definition finalize_turn ::
  "'f turn_world \<Rightarrow> rstr \<Rightarrow> run_outcome \<Rightarrow> nat \<Rightarrow> nat \<Rightarrow> memory_db \<Rightarrow> memory_db \<times> turn_disposition res" where
  "finalize_turn w session_id outcome short_hits long_hits db =
     (if is_no_reply (ro_reply outcome) then (db, Inr NoReply)
      else
        (case append_message (tx_env w) (tx_reply_faults w) (tx_reply_time w) session_id StoredAssistant
                (ro_reply outcome) None db of
           (db, r) \<Rightarrow>
             (db, rbind r (\<lambda>_. Inr (Replied
                \<lparr>tq_reply = ro_reply outcome, tq_tool_calls = ro_tool_calls outcome,
                 tq_memory_recall_used = (0 < short_hits + long_hits),
                 tq_memory_recall_short_hits = short_hits, tq_memory_recall_long_hits = long_hits\<rparr>)))))"

type_synonym turn_loop = "turn_run \<Rightarrow> message list \<Rightarrow> memory_db \<Rightarrow> memory_db \<times> run_outcome res option"

definition run_turn ::
  "'f turn_world \<Rightarrow> turn_loop \<Rightarrow> 'f turn_agent \<Rightarrow> inbound_message \<Rightarrow> rstr \<Rightarrow> bool \<Rightarrow> memory_db \<Rightarrow>
   memory_db \<times> turn_disposition turn_end" where
  "run_turn w loop agent inbound session_id on_text_delta db =
     (if \<not> im_invoke inbound
      then (case record_context w inbound session_id db of
              (db, r) \<Rightarrow> (db, TurnDone (rbind r (\<lambda>_. Inr ContextRecorded))))
      else
        (case prepare_turn w agent inbound session_id db of
           (db, TurnPanicked) \<Rightarrow> (db, TurnPanicked)
         | (db, TurnStuck) \<Rightarrow> (db, TurnStuck)
         | (db, TurnDone (Inl e)) \<Rightarrow> (db, TurnDone (Inl e))
         | (db, TurnDone (Inr prepared)) \<Rightarrow>
             (case resolved_env (ar_env agent) of
                Inl e \<Rightarrow> (db, TurnDone (Inl e))
              | Inr execution_env \<Rightarrow>
                  (case loop (turn_run_of agent inbound session_id on_text_delta execution_env (pp_system_prompt prepared))
                          (pp_history prepared) db of
                     (db, None) \<Rightarrow> (db, TurnStuck)
                   | (db, Some (Inl err)) \<Rightarrow> (db, TurnDone (Inl err))
                   | (db, Some (Inr outcome)) \<Rightarrow>
                       (case finalize_turn w session_id outcome (pp_short_hits prepared) (pp_long_hits prepared) db of
                          (db, r) \<Rightarrow> (db, TurnDone r))))))"

text \<open>\<open>TurnEngine::execute\<close>: the agent's memory is looked up first.\<close>

definition execute_turn ::
  "'f turn_world \<Rightarrow> turn_loop \<Rightarrow> 'f turn_agent \<Rightarrow> inbound_message \<Rightarrow> rstr \<Rightarrow> bool \<Rightarrow> (rstr \<times> memory_db) list \<Rightarrow>
   (rstr \<times> memory_db) list \<times> turn_disposition turn_end" where
  "execute_turn w loop agent inbound session_id on_text_delta memories =
     (case map_of memories (tn_agent_id agent) of
        None \<Rightarrow> (memories, TurnDone (Inl (ConfigError
                  (''missing memory store for agent '' @ [SQ] @ tn_agent_id agent @ [SQ]))))
      | Some db \<Rightarrow>
          (case run_turn w loop agent inbound session_id on_text_delta db of
             (db, r) \<Rightarrow> (AList.update (tn_agent_id agent) db memories, r)))"

section \<open>The recalled memory keeps to its budget\<close>

lemma add_lines_bound:
  "length section1 \<le> max_chars \<or> n = 0 \<Longrightarrow> add_lines ls max_chars section1 n = (s, m) \<Longrightarrow> m \<noteq> 0 \<Longrightarrow> length s \<le> max_chars"
proof (induction ls max_chars section1 n rule: add_lines.induct)
  case (2 l rest max_chars section1 n)
  show ?case
  proof (cases "length section1 + length l > max_chars")
    case True
    then show ?thesis using 2 by auto
  next
    case False
    then show ?thesis using 2 by simp
  qed
qed auto

lemma long_section_bound: "length (ps_section (build_long_term_memory_section hits n)) \<le> n"
  by (auto simp: build_long_term_memory_section_def no_section_def dest: add_lines_bound[rotated] split: prod.splits)

lemma short_section_bound: "length (ps_section (build_short_term_memory_section show2 hits n)) \<le> n"
  by (auto simp: build_short_term_memory_section_def no_section_def dest: add_lines_bound[rotated] split: prod.splits)

lemma recalled_section_bound: "length (ps_section (format_recalled_memory show2 hits long short)) \<le> long + short + 2"
  using long_section_bound[of "filter (\<lambda>h. mh_store h = LongTermHit) hits" long]
    short_section_bound[of show2 "filter (\<lambda>h. mh_store h = ShortTermHit) hits" short]
  by (auto simp: format_recalled_memory_def join_memory_sections_def join_one_def no_section_def)

section \<open>What a turn stores\<close>

definition user_message :: "inbound_message \<Rightarrow> stored_message" where
  "user_message inbound = \<lparr>sm_role = StoredUser, sm_content = im_content inbound,
     sm_username = non_empty_trim (im_username inbound)\<rparr>"

definition reply_message :: "rstr \<Rightarrow> stored_message" where
  "reply_message reply = \<lparr>sm_role = StoredAssistant, sm_content = reply, sm_username = None\<rparr>"

definition loop_keeps_log :: "turn_loop \<Rightarrow> bool" where
  "loop_keeps_log loop \<longleftrightarrow> (\<forall>r history db. messages_ok db \<longrightarrow> messages_ok (fst (loop r history db)) \<and>
     (\<forall>s. session_messages s (fst (loop r history db)) = session_messages s db))"

text \<open>\<open>added db db' ms\<close>: the session has got the messages \<open>ms\<close> and no other session anything.\<close>

definition log_added :: "rstr \<Rightarrow> memory_db \<Rightarrow> memory_db \<Rightarrow> stored_message list \<Rightarrow> bool" where
  "log_added sid db db' ms \<longleftrightarrow> messages_ok db' \<and>
     (\<forall>s. session_messages s db' = session_messages s db @ (if s = sid then ms else []))"

lemma log_added_refl: "messages_ok db \<Longrightarrow> log_added sid db db []"
  by (simp add: log_added_def)

lemma log_added_trans: "log_added sid db db1 ms \<Longrightarrow> log_added sid db1 db2 ms' \<Longrightarrow> log_added sid db db2 (ms @ ms')"
  by (simp add: log_added_def)

lemma append_adds:
  assumes "messages_ok db" "append_message env faults now sid role c u db = (db', r)" "indexed_role role"
  defines "m \<equiv> \<lparr>sm_role = role, sm_content = c, sm_username = Option.bind u non_empty_trim\<rparr>"
  shows "r = Inr () \<Longrightarrow> log_added sid db db' [m]"
    "r = Inl e \<Longrightarrow> log_added sid db db' [] \<or> log_added sid db db' [m]"
proof -
  have ok: "messages_ok db'"
    using memory_log.append_good[OF assms(1), of env faults now sid role c u] assms(2) by simp
  show "log_added sid db db' [m]" if "r = Inr ()"
    using memory_log.append_ok[OF assms(1) assms(2)[unfolded that] assms(3)] ok
    unfolding log_added_def m_def by simp
  have cases: "(\<forall>s. session_messages s db' = session_messages s db) \<or> db' = appended now sid role c u db" if "r = Inl e"
    using assms(2) unfolding that by (rule append_message_cases) simp_all
  show "log_added sid db db' [] \<or> log_added sid db db' [m]" if "r = Inl e"
    using cases[OF that]
  proof
    assume "\<forall>s. session_messages s db' = session_messages s db"
    then show ?thesis using ok by (simp add: log_added_def)
  next
    assume "db' = appended now sid role c u db"
    then show ?thesis using ok session_messages_appended[OF assms(3)] by (simp add: log_added_def m_def)
  qed
qed

lemma record_context_adds:
  assumes "messages_ok db" "record_context w inbound sid db = (db', r)"
  shows "r = Inr () \<Longrightarrow> log_added sid db db' [user_message inbound]"
    "r = Inl e \<Longrightarrow> log_added sid db db' [] \<or> log_added sid db db' [user_message inbound]"
  using append_adds[OF assms(1) assms(2)[unfolded record_context_def]]
  by (simp_all add: indexed_role_def user_message_def)

lemma prepare_turn_record:
  "prepare_turn w agent inbound sid db =
     (case record_context w inbound sid db of
        (db, Inl e) \<Rightarrow> (db, TurnDone (Inl e))
      | (db, Inr _) \<Rightarrow>
          (case seeded_history (tx_history_faults w) (ar_history_messages agent) sid db of
             Inl e \<Rightarrow> (db, TurnDone (Inl e))
           | Inr history \<Rightarrow>
               (case build_turn_system_prompt w agent sid (im_content inbound) db of
                  None \<Rightarrow> (db, TurnPanicked)
                | Some prompt \<Rightarrow>
                    (db, TurnDone (Inr
                       \<lparr>pp_system_prompt = inject_caller_context (pb_system_prompt prompt) inbound,
                        pp_history = history, pp_short_hits = pb_short_hits prompt,
                        pp_long_hits = pb_long_hits prompt\<rparr>)))))"
  by (simp add: prepare_turn_def record_context_def)

lemma prepare_turn_adds:
  assumes "messages_ok db" "prepare_turn w agent inbound sid db = (db', r)"
  shows "(log_added sid db db' [] \<and> (\<exists>e. r = TurnDone (Inl e))) \<or> log_added sid db db' [user_message inbound]"
    "r \<noteq> TurnStuck"
proof -
  obtain db1 r1 where run: "record_context w inbound sid db = (db1, r1)" by fastforce
  note adds = record_context_adds[OF assms(1) run]
  show "(log_added sid db db' [] \<and> (\<exists>e. r = TurnDone (Inl e))) \<or> log_added sid db db' [user_message inbound]"
  proof (cases r1)
    case (Inl e)
    then show ?thesis using adds(2) assms(2) run by (auto simp: prepare_turn_record)
  next
    case (Inr x)
    then have "db' = db1" using assms(2) run by (auto simp: prepare_turn_record split: sum.splits option.splits)
    then show ?thesis using adds(1) Inr by simp
  qed
  show "r \<noteq> TurnStuck" using assms(2) by (auto simp: prepare_turn_record split: prod.splits sum.splits option.splits)
qed

definition turn_log :: "rstr \<Rightarrow> inbound_message \<Rightarrow> memory_db \<Rightarrow> memory_db \<Rightarrow> turn_disposition turn_end \<Rightarrow> bool" where
  "turn_log sid inbound db db' r \<longleftrightarrow>
     (case r of
        TurnDone (Inr ContextRecorded) \<Rightarrow> \<not> im_invoke inbound \<and> log_added sid db db' [user_message inbound]
      | TurnDone (Inr NoReply) \<Rightarrow> im_invoke inbound \<and> log_added sid db db' [user_message inbound]
      | TurnDone (Inr (Replied out)) \<Rightarrow> im_invoke inbound \<and> \<not> is_no_reply (tq_reply out) \<and>
          log_added sid db db' [user_message inbound, reply_message (tq_reply out)]
      | TurnDone (Inl e) \<Rightarrow> log_added sid db db' [] \<or> log_added sid db db' [user_message inbound] \<or>
          (\<exists>reply. log_added sid db db' [user_message inbound, reply_message reply])
      | _ \<Rightarrow> im_invoke inbound \<and> log_added sid db db' [user_message inbound])"

lemma finalize_turn_log:
  assumes base: "log_added sid db0 db [user_message inbound]" and inv: "im_invoke inbound"
    and run: "finalize_turn w sid outcome short long db = (db', r)"
  shows "turn_log sid inbound db0 db' (TurnDone r)"
proof (cases "is_no_reply (ro_reply outcome)")
  case True
  then show ?thesis using assms by (auto simp: finalize_turn_def turn_log_def)
next
  case False
  obtain db1 r1 where app: "append_message (tx_env w) (tx_reply_faults w) (tx_reply_time w) sid StoredAssistant
      (ro_reply outcome) None db = (db1, r1)" by fastforce
  have ok: "messages_ok db" using base by (simp add: log_added_def)
  note adds = append_adds[OF ok app, unfolded indexed_role_def, simplified]
  have m: "\<lparr>sm_role = StoredAssistant, sm_content = ro_reply outcome, sm_username = None\<rparr> = reply_message (ro_reply outcome)"
    by (simp add: reply_message_def)
  show ?thesis
  proof (cases r1)
    case (Inl e)
    then have "db' = db1" "r = Inl e" using run False app by (auto simp: finalize_turn_def)
    moreover have "log_added sid db db1 [] \<or> log_added sid db db1 [reply_message (ro_reply outcome)]"
      using adds(2) Inl m by simp
    ultimately show ?thesis using log_added_trans[OF base, of db1] by (auto simp: turn_log_def)
  next
    case (Inr x)
    then have "db' = db1" "\<exists>out. r = Inr (Replied out) \<and> tq_reply out = ro_reply outcome"
      using run False app by (auto simp: finalize_turn_def)
    moreover have "log_added sid db db1 [reply_message (ro_reply outcome)]" using adds(1) Inr m by simp
    ultimately show ?thesis using log_added_trans[OF base, of db1] False inv by (auto simp: turn_log_def)
  qed
qed

lemma run_turn_log:
  assumes ok: "messages_ok db" and loop: "loop_keeps_log loop"
    and run: "run_turn w loop agent inbound sid on_text_delta db = (db', r)"
  shows "turn_log sid inbound db db' r"
proof (cases "im_invoke inbound")
  case False
  obtain db1 r1 where rec: "record_context w inbound sid db = (db1, r1)" by fastforce
  show ?thesis
    using record_context_adds[OF ok rec] run rec False
    by (cases r1) (auto simp: run_turn_def turn_log_def)
next
  case True
  obtain db1 p where prep: "prepare_turn w agent inbound sid db = (db1, p)" by fastforce
  note adds = prepare_turn_adds[OF ok prep]
  show ?thesis
  proof (cases "\<exists>prepared env. p = TurnDone (Inr prepared) \<and> resolved_env (ar_env agent) = Inr env")
    case False
    then have "db' = db1 \<and> (r = TurnPanicked \<and> p = TurnPanicked \<or> (\<exists>e. r = TurnDone (Inl e)))"
      using run True prep adds(2) by (auto simp: run_turn_def split: turn_end.splits sum.splits)
    then show ?thesis using adds(1) True by (auto simp: turn_log_def)
  next
    case prepared: True
    then obtain prepared env where p: "p = TurnDone (Inr prepared)" "resolved_env (ar_env agent) = Inr env" by blast
    from adds(1) p(1) have base: "log_added sid db db1 [user_message inbound]" by auto
    obtain db2 out where lp: "loop (turn_run_of agent inbound sid on_text_delta env (pp_system_prompt prepared))
        (pp_history prepared) db1 = (db2, out)" by fastforce
    have "messages_ok db1" using base by (simp add: log_added_def)
    with loop lp have "messages_ok db2" "\<And>s. session_messages s db2 = session_messages s db1"
      unfolding loop_keeps_log_def by (metis fst_conv)+
    with base have base2: "log_added sid db db2 [user_message inbound]" by (simp add: log_added_def)
    show ?thesis
    proof (cases "\<exists>outcome. out = Some (Inr outcome)")
      case False
      then have "db' = db2 \<and> (r = TurnStuck \<or> (\<exists>e. r = TurnDone (Inl e)))"
        using run True prep p lp by (auto simp: run_turn_def split: option.splits sum.splits)
      then show ?thesis using base2 True by (auto simp: turn_log_def)
    next
      case finished: True
      then obtain outcome where "out = Some (Inr outcome)" by blast
      then obtain r1 where "finalize_turn w sid outcome (pp_short_hits prepared) (pp_long_hits prepared) db2 = (db', r1)" "r = TurnDone r1"
        using run True prep p lp by (auto simp: run_turn_def split: prod.splits)
      then show ?thesis using finalize_turn_log[OF base2 True] by blast
    qed
  qed
qed

section \<open>The history and the recall query\<close>

lemma map_filter_append: "List.map_filter f (xs @ ys) = List.map_filter f xs @ List.map_filter f ys"
  by (simp add: List.map_filter_def)

lemma length_map_filter: "length (List.map_filter f xs) \<le> length xs"
  by (simp add: List.map_filter_def)

lemma prepared_history:
  assumes ok: "messages_ok db" and run: "prepare_turn w agent inbound sid db = (db', TurnDone (Inr prepared))"
    and window: "0 < ar_history_messages agent"
  shows "\<exists>earlier. pp_history prepared = earlier @ [message_text User
      (case non_empty_trim (im_username inbound) of Some name \<Rightarrow> ''['' @ name @ ''] '' @ im_content inbound | None \<Rightarrow> im_content inbound)]"
    "length (pp_history prepared) \<le> ar_history_messages agent"
proof -
  obtain db1 r1 where rec: "record_context w inbound sid db = (db1, r1)" by fastforce
  from run rec have r1: "r1 = Inr ()" "seeded_history (tx_history_faults w) (ar_history_messages agent) sid db1 = Inr (pp_history prepared)"
    by (auto simp: prepare_turn_record split: sum.splits option.splits)
  from r1(2) obtain stored where st: "recent_messages (tx_history_faults w) sid (ar_history_messages agent) db1 = Inr stored"
    "pp_history prepared = List.map_filter history_message stored"
    by (auto simp: seeded_history_def rbind_eq_Inr)
  from memory_log.recent_after_append[OF ok rec[unfolded record_context_def r1(1)] _ st(1) window]
  obtain earlier where e: "stored = earlier @ [user_message inbound]" "length stored \<le> ar_history_messages agent"
    by (auto simp: indexed_role_def user_message_def)
  show "\<exists>earlier. pp_history prepared = earlier @ [message_text User
      (case non_empty_trim (im_username inbound) of Some name \<Rightarrow> ''['' @ name @ ''] '' @ im_content inbound | None \<Rightarrow> im_content inbound)]"
    unfolding st(2) e(1) map_filter_append
    by (simp add: List.map_filter_def history_message_def user_message_def split: option.splits)
  show "length (pp_history prepared) \<le> ar_history_messages agent"
    unfolding st(2) using length_map_filter[of history_message stored] e(2) by (rule le_trans)
qed

text \<open>A name that ends inside a character of the message.\<close>

lemma cont_no_boundary: "n < length s \<Longrightarrow> is_cont (s ! n) \<Longrightarrow> 0 < n \<Longrightarrow> \<not> is_char_boundary s n"
  by (simp add: is_char_boundary_def)

lemma unaligned_name_token:
  assumes "trim name \<noteq> []" "length (trim name) < length text" "is_cont (text ! length (trim name))"
  shows "strip_leading_name_token text name = None"
  using assms cont_no_boundary[OF assms(2,3)]
  by (simp add: strip_leading_name_token_def starts_with_name_token_def slice_to_def)

lemma unaligned_query:
  assumes "\<not> prefix ''<@'' (trim query)" "\<not> prefix ''@'' (trim query)" "trim name \<noteq> []"
    and "length (trim name) < length (trim query)" "is_cont (trim query ! length (trim name))"
  shows "normalize_recall_query query name agent_id = None"
proof -
  have "trim query \<noteq> []" using assms(4) by auto
  have "strip_leading name agent_id (trim query) = None"
    using assms(1,2) unaligned_name_token[OF assms(3-5)]
    by (simp add: strip_leading_def or_try_def strip_leading_discord_mention_def strip_leading_at_name_def)
  then have "normalize_loop name agent_id (trim query) = None" by (subst normalize_loop.simps) simp
  with \<open>trim query \<noteq> []\<close> show ?thesis by (simp add: normalize_recall_query_def)
qed

text \<open>Without continuation bytes nothing panics.\<close>

definition ascii_like :: "rstr \<Rightarrow> bool" where
  "ascii_like s \<longleftrightarrow> (\<forall>c\<in>set s. \<not> is_cont c)"

lemma ascii_like_boundary: "ascii_like s \<Longrightarrow> n \<le> length s \<Longrightarrow> is_char_boundary s n"
  by (auto simp: ascii_like_def is_char_boundary_def)

lemma ascii_like_suffix: "suffix t s \<Longrightarrow> ascii_like s \<Longrightarrow> ascii_like t"
  by (auto simp: ascii_like_def suffix_def)

lemma suffix_concat_dropWhile: "suffix (concat (dropWhile P xs)) (concat xs)"
  by (induction xs) (auto simp: suffix_appendI)

lemma set_concat_dropWhile_rev: "set (concat (rev (dropWhile P (rev xs)))) \<subseteq> set (concat xs)"
proof -
  have "set (rev (dropWhile P (rev xs))) \<subseteq> set xs" using set_dropWhileD[of _ P "rev xs"] by auto
  then show ?thesis unfolding set_concat by blast
qed

lemma ascii_like_trim: "ascii_like s \<Longrightarrow> ascii_like (trim s)"
proof -
  have "set (trim s) \<subseteq> set (concat (dropWhile is_ws (chars s)))" unfolding trim_def by (rule set_concat_dropWhile_rev)
  also have "\<dots> \<subseteq> set s" using set_mono_suffix[OF suffix_concat_dropWhile[of is_ws "chars s"]] by (simp only: concat_chars)
  finally show "ascii_like s \<Longrightarrow> ascii_like (trim s)" by (auto simp: ascii_like_def)
qed

lemma ascii_name_token:
  assumes "ascii_like text"
  shows "\<exists>r. strip_leading_name_token text name = Some r \<and> (\<forall>t. r = Some t \<longrightarrow> ascii_like t)"
proof (cases "trim name = [] \<or> length text < length (trim name)")
  case True
  then show ?thesis by (auto simp: strip_leading_name_token_def starts_with_name_token_def)
next
  case False
  then have b: "is_char_boundary text (length (trim name))" using ascii_like_boundary[OF assms] by simp
  have "ascii_like (drop n text)" for n using assms by (auto simp: ascii_like_def dest: in_set_dropD)
  moreover have "ascii_like []" by (simp add: ascii_like_def)
  ultimately show ?thesis
    using False b
    by (auto simp: strip_leading_name_token_def starts_with_name_token_def slice_to_def slice_from_def
        split: list.splits)
qed

lemma ascii_strip_leading:
  assumes "ascii_like text"
  shows "\<exists>r. strip_leading name agent_id text = Some r \<and> (\<forall>t. r = Some t \<longrightarrow> ascii_like t)"
proof -
  have drop: "ascii_like (drop n text)" for n using assms by (auto simp: ascii_like_def dest: in_set_dropD)
  have disc: "ascii_like t" if "strip_leading_discord_mention text = Some t" for t
    using that drop by (auto simp: strip_leading_discord_mention_def Let_def split: if_splits option.splits)
  have at: "\<exists>r. strip_leading_at_name text name = Some r \<and> (\<forall>t. r = Some t \<longrightarrow> ascii_like t)"
    using ascii_name_token[OF drop, of 1 "trim name"] by (auto simp: strip_leading_at_name_def)
  have or1: "\<exists>r. or_try a b = Some r \<and> (\<forall>t. r = Some t \<longrightarrow> ascii_like t)"
    if "\<exists>r. a = Some r \<and> (\<forall>t. r = Some t \<longrightarrow> ascii_like t)" "\<exists>r. b = Some r \<and> (\<forall>t. r = Some t \<longrightarrow> ascii_like t)" for a b :: "rstr option option"
    using that by (auto simp: or_try_def split: option.splits)
  show ?thesis
    unfolding strip_leading_def
    by (intro or1 at ascii_name_token[OF assms]) (use disc in auto)
qed

lemma ascii_normalize_loop: "ascii_like remaining \<Longrightarrow> normalize_loop name agent_id remaining \<noteq> None"
proof (induction name agent_id remaining rule: normalize_loop.induct)
  case (1 name agent_id remaining)
  from ascii_strip_leading[OF "1.prems"] obtain r where r: "strip_leading name agent_id remaining = Some r"
    "\<forall>t. r = Some t \<longrightarrow> ascii_like t" by blast
  show ?case
  proof (cases r)
    case None
    then show ?thesis using r(1) by (subst normalize_loop.simps) simp
  next
    case (Some t)
    have "ascii_like (trim_separators t)"
      using r(2) Some suffix_concat_dropWhile[of _ "chars t"] by (auto simp: trim_separators_def intro: ascii_like_suffix)
    then show ?thesis
      using r(1) Some "1.IH"[OF r(1) Some] by (subst normalize_loop.simps) auto
  qed
qed

lemma ascii_query: "ascii_like query \<Longrightarrow> normalize_recall_query query name agent_id \<noteq> None"
  using ascii_normalize_loop[OF ascii_like_trim] by (simp add: normalize_recall_query_def)

section \<open>The properties\<close>

abbreviation sample_turn_agent :: "rstr \<Rightarrow> int turn_agent" where
  "sample_turn_agent name \<equiv>
     \<lparr>ar_provider_key = ''p'', ar_system_prompt = ''You help.'', ar_agent_name = name, ar_max_steps = 3,
      ar_history_messages = 4, ar_env = [], ar_owner_ids = [], ar_exec_enabled = True,
      ar_tool_registry = \<lparr>rg_ordered = [], rg_by_name = []\<rparr>, ar_persona_root = [], ar_workspace_root = [],
      tn_agent_id = ''main'', tn_memory_recall = default_memory_recall sample_floats\<rparr>"

abbreviation sample_turn_world :: "int turn_world" where
  "sample_turn_world \<equiv>
     \<lparr>tx_env = sample_memory_env, tx_show2 = (\<lambda>_. ''0.00''), tx_user_faults = no_faults, tx_history_faults = no_faults,
      tx_long_faults = no_faults, tx_short_faults = no_faults, tx_reply_faults = no_faults,
      tx_user_time = ''t1'', tx_reply_time = ''t2''\<rparr>"

abbreviation sample_inbound :: "rstr \<Rightarrow> inbound_message" where
  "sample_inbound content \<equiv>
     \<lparr>im_trace_id = ''x'', im_source_channel = Discord, im_target_agent_id = ''main'', im_session_key = ''k'',
      im_source_message_id = Some ''m'', im_channel_id = ''c'', im_guild_id = None, im_is_dm = True, im_user_id = ''u'',
      im_username = ''ann'', im_mentioned_bot = False, im_invoke = True, im_content = content\<rparr>"

abbreviation sample_turn_loop :: "rstr \<Rightarrow> turn_loop" where
  "sample_turn_loop reply \<equiv> \<lambda>_ _ db. (db, Some (Inr \<lparr>ro_reply = reply, ro_tool_calls = [],
     ro_memory_recall_used = False, ro_memory_recall_short_hits = 0, ro_memory_recall_long_hits = 0\<rparr>))"

lemma empty_messages_ok: "messages_ok empty_memory"
  using empty_memory_ok by (simp add: memory_ok_def)

text \<open>
  C24. A turn stores its exchange: a message that is only context is stored and nothing else
  happens; otherwise the user's message is stored before the loop runs and the reply after it,
  exactly the reply that is given back, and nothing when the reply is the no-reply sentinel; a
  turn that fails, panics or waits forever has stored the user's message at most, or also a
  reply if its own append failed late; no other session is touched.
\<close>

theorem turn_stores_the_exchange:
  assumes "messages_ok db" "loop_keeps_log loop"
    and "run_turn w loop agent inbound sid on_text_delta db = (db', r)"
  shows "case r of
      TurnDone (Inr ContextRecorded) \<Rightarrow> \<not> im_invoke inbound \<and> log_added sid db db' [user_message inbound]
    | TurnDone (Inr NoReply) \<Rightarrow> im_invoke inbound \<and> log_added sid db db' [user_message inbound]
    | TurnDone (Inr (Replied out)) \<Rightarrow> im_invoke inbound \<and> \<not> is_no_reply (tq_reply out) \<and>
        log_added sid db db' [user_message inbound, reply_message (tq_reply out)]
    | TurnDone (Inl e) \<Rightarrow> log_added sid db db' [] \<or> log_added sid db db' [user_message inbound] \<or>
        (\<exists>reply. log_added sid db db' [user_message inbound, reply_message reply])
    | TurnPanicked \<Rightarrow> im_invoke inbound \<and> log_added sid db db' [user_message inbound]
    | TurnStuck \<Rightarrow> im_invoke inbound \<and> log_added sid db db' [user_message inbound]"
  using run_turn_log[OF assms] unfolding turn_log_def by (simp split: turn_end.splits sum.splits turn_disposition.splits)

theorem turn_stores_the_exchange_witness:
  "\<exists>db' out. run_turn sample_turn_world (sample_turn_loop ''hi'') (sample_turn_agent ''Bob'') (sample_inbound ''hello'') ''s'' False empty_memory
     = (db', TurnDone (Inr (Replied out))) \<and> session_messages ''s'' db' =
       [\<lparr>sm_role = StoredUser, sm_content = ''hello'', sm_username = Some ''ann''\<rparr>,
        \<lparr>sm_role = StoredAssistant, sm_content = ''hi'', sm_username = None\<rparr>]"
proof -
  let ?run = "run_turn sample_turn_world (sample_turn_loop ''hi'') (sample_turn_agent ''Bob'') (sample_inbound ''hello'') ''s'' False empty_memory"
  have "(case snd ?run of TurnDone (Inr (Replied out)) \<Rightarrow> Some (tq_reply out) | _ \<Rightarrow> None) = Some ''hi''" by code_simp
  then obtain out where out: "snd ?run = TurnDone (Inr (Replied out))" "tq_reply out = ''hi''"
    by (auto split: turn_end.splits sum.splits turn_disposition.splits)
  have "loop_keeps_log (sample_turn_loop ''hi'')" by (simp add: loop_keeps_log_def)
  moreover have "?run = (fst ?run, TurnDone (Inr (Replied out)))" using out(1) by (simp add: prod_eq_iff)
  ultimately have "case TurnDone (Inr (Replied out)) of TurnDone (Inr (Replied out)) \<Rightarrow>
      log_added ''s'' empty_memory (fst ?run) [user_message (sample_inbound ''hello''), reply_message (tq_reply out)] | _ \<Rightarrow> True"
    using turn_stores_the_exchange[OF empty_messages_ok, of "sample_turn_loop ''hi''"] by fastforce
  with out(2)
  have "log_added ''s'' empty_memory (fst ?run) [user_message (sample_inbound ''hello''), reply_message ''hi'']" by simp
  moreover have "session_messages ''s'' empty_memory = []" by (simp add: session_messages_def conversation_def empty_memory_def)
  moreover have "non_empty_trim ''ann'' = Some ''ann''" by code_simp
  ultimately have "session_messages ''s'' (fst ?run) = [\<lparr>sm_role = StoredUser, sm_content = ''hello'', sm_username = Some ''ann''\<rparr>,
        \<lparr>sm_role = StoredAssistant, sm_content = ''hi'', sm_username = None\<rparr>]"
    by (simp add: log_added_def user_message_def reply_message_def)
  then show ?thesis using out(1) by (intro exI[of _ "fst ?run"] exI[of _ out]) (simp add: prod_eq_iff)
qed

text \<open>
  The loop is asked about the message just stored: the history that a prepared turn starts
  with ends with the user's message, marked with the name of the user if there is one, and has
  at most as many messages as configured.
\<close>

theorem history_ends_with_the_message:
  assumes "messages_ok db" "prepare_turn w agent inbound sid db = (db', TurnDone (Inr prepared))"
    and "0 < ar_history_messages agent"
  shows "(\<exists>earlier. pp_history prepared = earlier @ [message_text User
      (case non_empty_trim (im_username inbound) of
         Some name \<Rightarrow> ''['' @ name @ ''] '' @ im_content inbound | None \<Rightarrow> im_content inbound)]) \<and>
    length (pp_history prepared) \<le> ar_history_messages agent"
  using prepared_history[OF assms] by blast

theorem history_ends_with_the_message_witness:
  "\<exists>db' prepared earlier. prepare_turn sample_turn_world (sample_turn_agent ''Bob'') (sample_inbound ''hello'') ''s'' empty_memory =
     (db', TurnDone (Inr prepared)) \<and> pp_history prepared = earlier @ [message_text User ''[ann] hello'']"
proof -
  let ?run = "prepare_turn sample_turn_world (sample_turn_agent ''Bob'') (sample_inbound ''hello'') ''s'' empty_memory"
  have "(case snd ?run of TurnDone (Inr _) \<Rightarrow> True | _ \<Rightarrow> False)" by code_simp
  then obtain prepared where p: "?run = (fst ?run, TurnDone (Inr prepared))"
    by (cases ?run) (auto split: turn_end.splits sum.splits)
  have name: "non_empty_trim ''ann'' = Some ''ann''" by code_simp
  from history_ends_with_the_message[OF empty_messages_ok p]
  have "\<exists>earlier. pp_history prepared = earlier @ [message_text User ''[ann] hello'']" by (simp add: name)
  with p show ?thesis by blast
qed

text \<open>
  An ordinary message can crash a turn: with recall enabled, if the byte position where the
  agent's name would end lies inside a character of the (trimmed) message, then the turn panics,
  whatever the loop would do; the user's message has been stored and gets no answer.
\<close>

theorem unaligned_name_panics_turn:
  assumes "messages_ok db" "im_invoke inbound" "mc_enabled (tn_memory_recall agent)"
    and "record_context w inbound sid db = (db', Inr ())"
    and "seeded_history (tx_history_faults w) (ar_history_messages agent) sid db' = Inr history"
    and "trim (ar_agent_name agent) = name" "name \<noteq> []" "trim (im_content inbound) = msg"
    and "\<not> prefix ''<@'' msg" "\<not> prefix ''@'' msg"
    and "length name < length msg" "is_cont (msg ! length name)"
  shows "run_turn w loop agent inbound sid on_text_delta db = (db', TurnPanicked) \<and>
    log_added sid db db' [user_message inbound]"
proof
  have "normalize_recall_query (im_content inbound) (ar_agent_name agent) (tn_agent_id agent) = None"
    by (rule unaligned_query) (use assms(6-12) in auto)
  then have "build_turn_system_prompt w agent sid (im_content inbound) db' = None"
    using assms(3) by (simp add: build_turn_system_prompt_def normalized_def Let_def)
  then have "prepare_turn w agent inbound sid db = (db', TurnPanicked)"
    using assms(4,5) by (simp add: prepare_turn_record)
  then show "run_turn w loop agent inbound sid on_text_delta db = (db', TurnPanicked)"
    using assms(2) by (simp add: run_turn_def)
  show "log_added sid db db' [user_message inbound]"
    by (rule record_context_adds(1)[OF assms(1,4) refl])
qed

text \<open>An agent named Bob, and the two letters \<open>ca\<close> before an accented e, two bytes long.\<close>

abbreviation accented :: rstr where
  "accented \<equiv> ''ca'' @ [CHR 0xC3, CHR 0xA9]"

theorem unaligned_name_panics_turn_witness:
  "\<exists>db'. run_turn sample_turn_world (sample_turn_loop ''hi'') (sample_turn_agent ''Bob'')
     (sample_inbound accented) ''s'' False empty_memory = (db', TurnPanicked)"
proof -
  let ?rec = "record_context sample_turn_world (sample_inbound accented) ''s'' empty_memory"
  have "(case snd ?rec of Inr _ \<Rightarrow> True | _ \<Rightarrow> False)" by code_simp
  then have rec: "?rec = (fst ?rec, Inr ())" by (cases ?rec) (auto split: sum.splits)
  have "(case seeded_history no_faults 4 ''s'' (fst ?rec) of Inr _ \<Rightarrow> True | _ \<Rightarrow> False)" by code_simp
  then obtain history where h: "seeded_history no_faults 4 ''s'' (fst ?rec) = Inr history" by (auto split: sum.splits)
  have t: "trim ''Bob'' = ''Bob''" "trim accented = accented" "is_cont (accented ! length ''Bob'')" by code_simp+
  have "run_turn sample_turn_world (sample_turn_loop ''hi'') (sample_turn_agent ''Bob'')
     (sample_inbound accented) ''s'' False empty_memory = (fst ?rec, TurnPanicked) \<and>
     log_added ''s'' empty_memory (fst ?rec) [user_message (sample_inbound accented)]"
    by (rule unaligned_name_panics_turn[OF empty_messages_ok _ _ rec, where history = history and name = "''Bob''" and msg = accented])
       (use h t in \<open>simp_all add: default_memory_recall_def recall_default_defs\<close>)
  then show ?thesis by blast
qed

end
