(* ===== verification/ConfigLoad.thy ===== *)
theory ConfigLoad
  imports ExecConfig Routing
begin

text \<open>
  \<open>src/config/\<close> and \<open>src/paths.rs\<close>: the configuration as it is loaded, with its defaults, the
  resolution of its secrets, the normalization of its paths and its validation. The YAML parser,
  the files and the environment are arguments; maps are association lists in the order in which
  the code iterates over them. A panic is \<open>None\<close>.
\<close>

section \<open>Results that may panic\<close>

definition pbind :: "'a res option \<Rightarrow> ('a \<Rightarrow> 'b res option) \<Rightarrow> 'b res option" where
  "pbind m f = (case m of None \<Rightarrow> None | Some (Inl e) \<Rightarrow> Some (Inl e) | Some (Inr v) \<Rightarrow> f v)"

fun ptraverse :: "('a \<Rightarrow> 'b res option) \<Rightarrow> 'a list \<Rightarrow> 'b list res option" where
  "ptraverse f [] = Some (Inr [])"
| "ptraverse f (x # xs) = pbind (f x) (\<lambda>y. pbind (ptraverse f xs) (\<lambda>ys. Some (Inr (y # ys))))"

lemma pbind_simps [simp]:
  "pbind None f = None" "pbind (Some (Inl e)) f = Some (Inl e)" "pbind (Some (Inr v)) f = f v"
  by (simp_all add: pbind_def)

lemma pbind_ok: "pbind m f = Some (Inr y) \<longleftrightarrow> (\<exists>v. m = Some (Inr v) \<and> f v = Some (Inr y))"
  by (auto simp: pbind_def split: option.splits sum.splits)

lemma ptraverse_ok: "ptraverse f xs = Some (Inr ys) \<longleftrightarrow> list_all2 (\<lambda>x y. f x = Some (Inr y)) xs ys"
  by (induction xs arbitrary: ys) (auto simp: pbind_ok list_all2_Cons1)

section \<open>Paths of the application\<close>

text \<open>\<open>PathBuf::push\<close> on the text of a path.\<close>

definition path_push :: "rstr \<Rightarrow> rstr \<Rightarrow> rstr" where
  "path_push p q =
     (if prefix ''/'' q then q else if p = [] \<or> last p = CHR ''/'' then p @ q else p @ CHR ''/'' # q)"

record app_paths =
  ap_base_dir :: rstr
  ap_config_path :: rstr
  ap_secrets_path :: rstr
  ap_db_path :: rstr
  ap_long_term_db_path :: rstr
  ap_session_db_path :: rstr
  ap_cron_db_path :: rstr
  ap_fastembed_cache_dir :: rstr
  ap_logs_dir :: rstr
  ap_log_path :: rstr
  ap_run_dir :: rstr
  ap_pid_path :: rstr

type_synonym environment = "rstr \<Rightarrow> rstr option"

definition home_dir :: "environment \<Rightarrow> rstr option" where
  "home_dir env = or_else (env ''HOME'') (env ''USERPROFILE'')"

definition resolve_app_paths :: "environment \<Rightarrow> app_paths res" where
  "resolve_app_paths env =
     rbind (ok_or (ConfigError ''failed to resolve home directory; cannot resolve ~/.simpleclaw'') (home_dir env)) (\<lambda>home.
       (let base_dir = path_push home ''.simpleclaw''; db_dir = path_push base_dir ''db'';
            logs_dir = path_push base_dir ''logs''; run_dir = path_push base_dir ''run''
        in Inr \<lparr>ap_base_dir = base_dir, ap_config_path = path_push base_dir ''config.yaml'',
             ap_secrets_path = path_push base_dir ''secrets.yaml'',
             ap_db_path = path_push db_dir ''short_term_memory.db'',
             ap_long_term_db_path = path_push db_dir ''long_term_memory.db'',
             ap_session_db_path = path_push db_dir ''sessions.db'', ap_cron_db_path = path_push db_dir ''cron.db'',
             ap_fastembed_cache_dir = path_push base_dir ''.fastembed_cache'', ap_logs_dir = logs_dir,
             ap_log_path = path_push logs_dir ''service.log'', ap_run_dir = run_dir,
             ap_pid_path = path_push run_dir ''service.pid''\<rparr>))"

section \<open>The configuration\<close>

record database_config =
  dbc_path :: rstr
  dbc_long_term_path :: rstr
  dbc_pool_size :: nat
  dbc_busy_timeout_ms :: nat

text \<open>The defaults of \<open>src/config/defaults.rs\<close>.\<close>

definition default_db_path :: "environment \<Rightarrow> rstr" where
  "default_db_path env =
     (case resolve_app_paths env of Inr paths \<Rightarrow> ap_db_path paths | Inl _ \<Rightarrow> ''~/.simpleclaw/db/short_term_memory.db'')"

definition default_long_term_db_path :: "environment \<Rightarrow> rstr" where
  "default_long_term_db_path env =
     (case resolve_app_paths env of Inr paths \<Rightarrow> ap_long_term_db_path paths | Inl _ \<Rightarrow> ''~/.simpleclaw/db/long_term_memory.db'')"

definition default_pool_size :: nat where
  "default_pool_size = 16"

definition default_busy_timeout_ms :: nat where
  "default_busy_timeout_ms = 5000"

definition default_provider_key :: rstr where
  "default_provider_key = ''default''"

definition default_provider_model :: rstr where
  "default_provider_model = ''gemini-2.0-flash''"

definition default_provider_api_base :: rstr where
  "default_provider_api_base = ''https://generativelanguage.googleapis.com/v1beta''"

definition default_openai_codex_model :: rstr where
  "default_openai_codex_model = ''gpt-5.3-codex''"

definition default_oauth_redirect_host :: rstr where
  "default_oauth_redirect_host = ''127.0.0.1''"

definition default_oauth_redirect_port :: nat where
  "default_oauth_redirect_port = 8765"

definition default_oauth_callback_path :: rstr where
  "default_oauth_callback_path = ''/oauth/callback''"

definition default_oauth_timeout_secs :: nat where
  "default_oauth_timeout_secs = 180"

definition default_embedding_model :: rstr where
  "default_embedding_model = ''all-MiniLM-L6-v2''"

definition default_database :: "environment \<Rightarrow> database_config" where
  "default_database env =
     \<lparr>dbc_path = default_db_path env, dbc_long_term_path = default_long_term_db_path env,
      dbc_pool_size = default_pool_size, dbc_busy_timeout_ms = default_busy_timeout_ms\<rparr>"

record oauth_config =
  oau_client_id :: rstr
  oau_client_secret :: "rstr option"
  oau_authorize_url :: rstr
  oau_token_url :: rstr
  oau_scopes :: "rstr list"
  oau_redirect_host :: rstr
  oau_redirect_port :: nat
  oau_callback_path :: rstr
  oau_timeout_secs :: nat

definition default_oauth :: oauth_config where
  "default_oauth = \<lparr>oau_client_id = [], oau_client_secret = None, oau_authorize_url = [], oau_token_url = [],
     oau_scopes = [], oau_redirect_host = default_oauth_redirect_host, oau_redirect_port = default_oauth_redirect_port,
     oau_callback_path = default_oauth_callback_path, oau_timeout_secs = default_oauth_timeout_secs\<rparr>"

record gemini_config =
  gem_model :: rstr
  gem_api_base :: rstr
  gem_api_key :: "secret option"

definition default_gemini :: gemini_config where
  "default_gemini = \<lparr>gem_model = default_provider_model,
     gem_api_base = default_provider_api_base, gem_api_key = None\<rparr>"

datatype provider_auth_mode = AuthApiKey | AuthOauth

record moonshot_config =
  moon_model :: rstr
  moon_api_base :: rstr
  moon_mode :: provider_auth_mode
  moon_api_key :: "rstr option"
  moon_oauth :: "oauth_config option"

definition default_moonshot :: moonshot_config where
  "default_moonshot = \<lparr>moon_model = [], moon_api_base = [], moon_mode = AuthApiKey, moon_api_key = None, moon_oauth = None\<rparr>"

record codex_config =
  codex_model :: rstr

definition default_codex :: codex_config where
  "default_codex = \<lparr>codex_model = default_openai_codex_model\<rparr>"

datatype provider_entry =
    GeminiEntry gemini_config
  | MoonshotEntry moonshot_config
  | OpenAiCodexEntry codex_config

datatype provider_kind = KindGemini | KindMoonshot | KindOpenAiCodex

fun provider_kind_as_str :: "provider_kind \<Rightarrow> rstr" where
  "provider_kind_as_str KindGemini = ''gemini''"
| "provider_kind_as_str KindMoonshot = ''moonshot''"
| "provider_kind_as_str KindOpenAiCodex = ''openai_codex''"

fun entry_kind :: "provider_entry \<Rightarrow> provider_kind" where
  "entry_kind (GeminiEntry _) = KindGemini"
| "entry_kind (MoonshotEntry _) = KindMoonshot"
| "entry_kind (OpenAiCodexEntry _) = KindOpenAiCodex"

fun entry_model :: "provider_entry \<Rightarrow> rstr" where
  "entry_model (GeminiEntry config) = gem_model config"
| "entry_model (MoonshotEntry config) = moon_model config"
| "entry_model (OpenAiCodexEntry config) = codex_model config"

record providers_config =
  prov_default :: rstr
  prov_entries :: "(rstr \<times> provider_entry) list"

definition default_providers :: providers_config where
  "default_providers = \<lparr>prov_default = default_provider_key, prov_entries = [(default_provider_key, GeminiEntry default_gemini)]\<rparr>"

record channel_config =
  chan_enabled :: bool
  chan_output :: channel_output_mode
  chan_token :: "secret option"

definition default_channel :: channel_config where
  "default_channel = \<lparr>chan_enabled = True, chan_output = Streaming, chan_token = None\<rparr>"

record gateway_config =
  gate_channels :: "(gateway_channel_kind \<times> channel_config) list"
  gate_routing :: routing_config

definition default_gateway :: gateway_config where
  "default_gateway = \<lparr>gate_channels = [(Discord, default_channel)], gate_routing = default_routing\<rparr>"

record 'f agent_inner_config =
  inner_model :: "rstr option"
  inner_provider :: "rstr option"
  inner_execution :: "'f execution_overrides"
  inner_tools :: tools_config

definition default_inner :: "'f agent_inner_config" where
  "default_inner = \<lparr>inner_model = None, inner_provider = None, inner_execution = no_overrides, inner_tools = default_tools\<rparr>"

record 'f agent_entry_config =
  agt_id :: rstr
  agt_name :: rstr
  agt_persona :: rstr
  agt_workspace :: rstr
  agt_config :: "'f agent_inner_config"

record 'f agents_config =
  agts_default :: rstr
  agts_list :: "'f agent_entry_config list"

definition default_agents_list :: "'f agent_entry_config list" where
  "default_agents_list =
     [\<lparr>agt_id = default_agent_id, agt_name = ''Default'', agt_persona = ''./personas/default'',
       agt_workspace = ''./workspace'', agt_config = default_inner\<rparr>]"

definition default_agents :: "'f agents_config" where
  "default_agents = \<lparr>agts_default = default_agent_id, agts_list = default_agents_list\<rparr>"

datatype summon_mode = Synchronous | Queued

record 'f execution_config =
  exe_summon_mode :: summon_mode
  exe_owner_ids :: "rstr list"
  exe_log_level :: log_level
  exe_defaults :: "'f execution_defaults"

definition default_execution_config :: "'f float_ops \<Rightarrow> 'f execution_config" where
  "default_execution_config fl = \<lparr>exe_summon_mode = Synchronous, exe_owner_ids = [], exe_log_level = LogInfo,
     exe_defaults = default_execution fl\<rparr>"

record 'f global_config =
  glob_database :: database_config
  glob_providers :: providers_config
  glob_execution :: "'f execution_config"
  glob_gateway :: gateway_config
  glob_agents :: "'f agents_config"
  glob_embedding_model :: rstr

definition default_global :: "environment \<Rightarrow> 'f float_ops \<Rightarrow> 'f global_config" where
  "default_global env fl = \<lparr>glob_database = default_database env, glob_providers = default_providers,
     glob_execution = default_execution_config fl, glob_gateway = default_gateway,
     glob_agents = default_agents, glob_embedding_model = default_embedding_model\<rparr>"

section \<open>Resolving the secrets\<close>

definition resolved_secret :: "environment \<Rightarrow> secret_resolver \<Rightarrow> rstr \<Rightarrow> secret \<Rightarrow> secret res" where
  "resolved_secret env resolver field_path s =
     (case secret_resolve env resolver field_path s of (s', r) \<Rightarrow> rbind r (\<lambda>_. Inr s'))"

definition resolve_opt_secret :: "environment \<Rightarrow> secret_resolver \<Rightarrow> rstr \<Rightarrow> secret option \<Rightarrow> secret option res" where
  "resolve_opt_secret env resolver field_path s =
     (case s of None \<Rightarrow> Inr None | Some s \<Rightarrow> rbind (resolved_secret env resolver field_path s) (\<lambda>s. Inr (Some s)))"

definition resolve_secret_field ::
  "environment \<Rightarrow> secret_resolver \<Rightarrow> rstr \<Rightarrow> rstr option \<Rightarrow> rstr option res option" where
  "resolve_secret_field env resolver path text =
     (case text of
        None \<Rightarrow> Some (Inr None)
      | Some raw \<Rightarrow>
          pbind (parse_secret_reference path raw) (\<lambda>secret_name.
            (case resolve_name env resolver secret_name of
               Inl err \<Rightarrow> Some (Inl (ConfigError (path @ '' failed to resolve: '' @ error_to_string err)))
             | Inr resolved \<Rightarrow> Some (Inr (Some resolved)))))"

definition provider_path :: "rstr \<Rightarrow> rstr" where
  "provider_path key = ''providers.entries.'' @ key"

definition resolve_gemini :: "environment \<Rightarrow> secret_resolver \<Rightarrow> rstr \<Rightarrow> gemini_config \<Rightarrow> gemini_config res" where
  "resolve_gemini env resolver key self =
     rbind (resolve_opt_secret env resolver (provider_path key @ ''.api_key'') (gem_api_key self))
       (\<lambda>s. Inr (self\<lparr>gem_api_key := s\<rparr>))"

definition resolve_oauth ::
  "environment \<Rightarrow> secret_resolver \<Rightarrow> rstr \<Rightarrow> oauth_config \<Rightarrow> oauth_config res option" where
  "resolve_oauth env resolver key self =
     pbind (resolve_secret_field env resolver (provider_path key @ ''.oauth.client_secret'') (oau_client_secret self))
       (\<lambda>s. Some (Inr (self\<lparr>oau_client_secret := s\<rparr>)))"

definition resolve_moonshot ::
  "environment \<Rightarrow> secret_resolver \<Rightarrow> rstr \<Rightarrow> moonshot_config \<Rightarrow> moonshot_config res option" where
  "resolve_moonshot env resolver key self =
     pbind (resolve_secret_field env resolver (provider_path key @ ''.api_key'') (moon_api_key self)) (\<lambda>api_key.
       (let self = self\<lparr>moon_api_key := api_key\<rparr>
        in case moon_oauth self of
             None \<Rightarrow> Some (Inr self)
           | Some oauth \<Rightarrow> pbind (resolve_oauth env resolver key oauth) (\<lambda>oauth. Some (Inr (self\<lparr>moon_oauth := Some oauth\<rparr>)))))"

fun resolve_provider_entry ::
  "environment \<Rightarrow> secret_resolver \<Rightarrow> rstr \<times> provider_entry \<Rightarrow> (rstr \<times> provider_entry) res option" where
  "resolve_provider_entry env resolver (key, GeminiEntry config) =
     Some (rbind (resolve_gemini env resolver key config) (\<lambda>c. Inr (key, GeminiEntry c)))"
| "resolve_provider_entry env resolver (key, MoonshotEntry config) =
     pbind (resolve_moonshot env resolver key config) (\<lambda>c. Some (Inr (key, MoonshotEntry c)))"
| "resolve_provider_entry env resolver (key, OpenAiCodexEntry config) = Some (Inr (key, OpenAiCodexEntry config))"

definition resolve_providers ::
  "environment \<Rightarrow> secret_resolver \<Rightarrow> providers_config \<Rightarrow> providers_config res option" where
  "resolve_providers env resolver self =
     pbind (ptraverse (resolve_provider_entry env resolver) (prov_entries self))
       (\<lambda>entries. Some (Inr (self\<lparr>prov_entries := entries\<rparr>)))"

definition resolve_execution_env_secrets ::
  "environment \<Rightarrow> secret_resolver \<Rightarrow> rstr \<Rightarrow> (rstr \<times> secret) list \<Rightarrow> (rstr \<times> secret) list res" where
  "resolve_execution_env_secrets env resolver field_path vars =
     rtraverse (\<lambda>(key, s). rbind (resolved_secret env resolver (field_path @ ''.'' @ key) s) (\<lambda>s. Inr (key, s))) vars"

definition resolve_agent_tool_secrets ::
  "environment \<Rightarrow> secret_resolver \<Rightarrow> 'f agent_entry_config \<Rightarrow> 'f agent_entry_config res" where
  "resolve_agent_tool_secrets env resolver agent =
     (let config = agt_config agent; tools = inner_tools config
      in case t_web_search tools of
           None \<Rightarrow> Inr agent
         | Some web_search \<Rightarrow>
             rbind (resolve_opt_secret env resolver
                      (''agents.list['' @ agt_id agent @ ''].config.tools.web_search.api_key'') (wc_api_key web_search))
               (\<lambda>s. Inr (agent\<lparr>agt_config := config\<lparr>inner_tools := tools\<lparr>t_web_search := Some (web_search\<lparr>wc_api_key := s\<rparr>)\<rparr>\<rparr>\<rparr>)))"

definition resolve_agent_secrets ::
  "environment \<Rightarrow> secret_resolver \<Rightarrow> 'f agent_entry_config \<Rightarrow> 'f agent_entry_config res" where
  "resolve_agent_secrets env resolver agent =
     (let config = agt_config agent; execution = inner_execution config
      in rbind (case eo_env execution of
                  None \<Rightarrow> Inr None
                | Some vars \<Rightarrow>
                    rbind (resolve_execution_env_secrets env resolver
                             (''agents.list['' @ agt_id agent @ ''].config.execution.env'') vars)
                      (\<lambda>vars. Inr (Some vars)))
           (\<lambda>vars. resolve_agent_tool_secrets env resolver
              (agent\<lparr>agt_config := config\<lparr>inner_execution := execution\<lparr>eo_env := vars\<rparr>\<rparr>\<rparr>)))"

definition resolve_channel_secrets ::
  "environment \<Rightarrow> secret_resolver \<Rightarrow> gateway_channel_kind \<times> channel_config \<Rightarrow>
   (gateway_channel_kind \<times> channel_config) res" where
  "resolve_channel_secrets env resolver entry =
     (case entry of (kind, channel) \<Rightarrow>
        rbind (resolve_opt_secret env resolver (''gateway.channels.'' @ channel_kind_as_str kind @ ''.token'') (chan_token channel))
          (\<lambda>s. Inr (kind, channel\<lparr>chan_token := s\<rparr>)))"

definition resolve_secrets :: "environment \<Rightarrow> secret_resolver \<Rightarrow> 'f global_config \<Rightarrow> 'f global_config res option" where
  "resolve_secrets env resolver self =
     (let execution = glob_execution self; gateway = glob_gateway self; agents = glob_agents self
      in pbind (resolve_providers env resolver (glob_providers self)) (\<lambda>providers.
         pbind (Some (resolve_execution_env_secrets env resolver ''execution.defaults.env'' (ed_env (exe_defaults execution)))) (\<lambda>vars.
         pbind (Some (rtraverse (resolve_channel_secrets env resolver) (gate_channels gateway))) (\<lambda>channels.
         pbind (Some (rtraverse (resolve_agent_secrets env resolver) (agts_list agents))) (\<lambda>entries.
           Some (Inr (self\<lparr>glob_providers := providers,
             glob_execution := execution\<lparr>exe_defaults := (exe_defaults execution)\<lparr>ed_env := vars\<rparr>\<rparr>,
             glob_gateway := gateway\<lparr>gate_channels := channels\<rparr>,
             glob_agents := agents\<lparr>agts_list := entries\<rparr>\<rparr>)))))))"

section \<open>Normalizing paths\<close>

definition is_env_key_char :: "rstr \<Rightarrow> bool \<Rightarrow> bool" where
  "is_env_key_char ch first \<longleftrightarrow>
     (case ch of
        [c] \<Rightarrow> (if first then c = CHR ''_'' \<or> is_ascii_alpha c else c = CHR ''_'' \<or> is_ascii_alnum c)
      | _ \<Rightarrow> False)"

definition is_valid_env_key :: "rstr list \<Rightarrow> bool" where
  "is_valid_env_key key =
     (case key of [] \<Rightarrow> False
      | ch # rest \<Rightarrow> is_env_key_char ch True \<and> list_all (\<lambda>c. is_env_key_char c False) rest)"

text \<open>The scan over the characters; the text of a variable that is not set stays.\<close>

function expand_var_chars :: "environment \<Rightarrow> rstr list \<Rightarrow> rstr" where
  "expand_var_chars env [] = []"
| "expand_var_chars env (ch # cs) =
     (if ch \<noteq> ''$'' then ch @ expand_var_chars env cs
      else (case cs of
              [] \<Rightarrow> ''$''
            | next_ch # rest \<Rightarrow>
                (if next_ch = ''{'' \<and> dropWhile (\<lambda>c. c \<noteq> ''}'') rest \<noteq> [] \<and>
                    is_valid_env_key (takeWhile (\<lambda>c. c \<noteq> ''}'') rest)
                 then (let key = concat (takeWhile (\<lambda>c. c \<noteq> ''}'') rest)
                       in (case env key of Some v \<Rightarrow> v | None \<Rightarrow> ''${'' @ key @ ''}'')) @
                      expand_var_chars env (tl (dropWhile (\<lambda>c. c \<noteq> ''}'') rest))
                 else if next_ch \<noteq> ''{'' \<and> is_env_key_char next_ch True
                 then (let key = next_ch @ concat (takeWhile (\<lambda>c. is_env_key_char c False) rest)
                       in (case env key of Some v \<Rightarrow> v | None \<Rightarrow> ''$'' @ key)) @
                      expand_var_chars env (dropWhile (\<lambda>c. is_env_key_char c False) rest)
                 else ''$'' @ expand_var_chars env cs)))"
  by pat_completeness auto
termination
proof (relation "measure (\<lambda>(env, cs). length cs)", goal_cases)
  case (3 env ch cs next_ch rest)
  have "length (dropWhile (\<lambda>c. c \<noteq> ''}'') rest) \<le> length rest" by (rule length_dropWhile_le)
  then show ?case using 3 by simp
next
  case (4 env ch cs next_ch rest)
  have "length (dropWhile (\<lambda>c. is_env_key_char c False) rest) \<le> length rest" by (rule length_dropWhile_le)
  then show ?case using 4 by simp
qed simp_all

definition expand_config_env_vars :: "environment \<Rightarrow> rstr \<Rightarrow> rstr" where
  "expand_config_env_vars env input = expand_var_chars env (chars input)"

definition expand_home_dir :: "environment \<Rightarrow> rstr \<Rightarrow> rstr option" where
  "expand_home_dir env text =
     (if \<not> prefix ''~'' text then None
      else if 1 < length text \<and> text ! 1 \<noteq> CHR ''/'' \<and> text ! 1 \<noteq> BSL then None
      else (case home_dir env of
              None \<Rightarrow> None
            | Some home \<Rightarrow>
                (if text = ''~'' then Some home
                 else if drop 2 text = [] then Some home else Some (path_push home (drop 2 text)))))"

definition normalize_workspace_path :: "environment \<Rightarrow> rstr \<Rightarrow> rstr" where
  "normalize_workspace_path env p =
     (let expanded = expand_config_env_vars env p in unwrap_or expanded (expand_home_dir env expanded))"

definition normalize_agent_directory_paths :: "environment \<Rightarrow> 'f agents_config \<Rightarrow> 'f agents_config" where
  "normalize_agent_directory_paths env agents =
     agents\<lparr>agts_list := map (\<lambda>agent. agent\<lparr>agt_persona := normalize_workspace_path env (agt_persona agent),
       agt_workspace := normalize_workspace_path env (agt_workspace agent)\<rparr>) (agts_list agents)\<rparr>"

section \<open>Validation\<close>

definition config_check :: "bool \<Rightarrow> rstr \<Rightarrow> unit res" where
  "config_check ok message = (if ok then Inr () else Inl (ConfigError message))"

definition env_name_ok :: "rstr \<Rightarrow> bool" where
  "env_name_ok key =
     (case chars key of [] \<Rightarrow> False
      | ch # rest \<Rightarrow> is_env_key_char ch True \<and> list_all (\<lambda>c. is_env_key_char c False) rest)"

definition validate_execution_env :: "rstr \<Rightarrow> (rstr \<times> secret) list option \<Rightarrow> unit res" where
  "validate_execution_env field_path vars =
     (case vars of
        None \<Rightarrow> Inr ()
      | Some vars \<Rightarrow> rforeach (\<lambda>key. config_check (env_name_ok key)
          (field_path @ ''.'' @ key @ '' is invalid; expected env key matching [A-Za-z_][A-Za-z0-9_]*'')) (map fst vars))"

definition validate_agent_path :: "rstr \<Rightarrow> rstr \<Rightarrow> rstr \<Rightarrow> unit res" where
  "validate_agent_path agent_id field p =
     config_check (p \<noteq> [] \<and> trim p \<noteq> []) (''agents.list['' @ agent_id @ ''].'' @ field @ '' must be non-empty'')"

definition validate_optional_nonzero :: "rstr \<Rightarrow> rstr \<Rightarrow> nat option \<Rightarrow> unit res" where
  "validate_optional_nonzero agent_id field n =
     config_check (n \<noteq> Some 0) (''agents.list['' @ agent_id @ ''].config.'' @ field @ '' must be > 0 when provided'')"

definition timeout_check :: "rstr \<Rightarrow> rstr \<Rightarrow> 'a sandboxed_config_scheme option \<Rightarrow> unit res" where
  "timeout_check agent_id tool cfg =
     (case cfg of None \<Rightarrow> Inr ()
      | Some c \<Rightarrow> validate_optional_nonzero agent_id (''tools.'' @ tool @ ''.timeout_seconds'') (tc_timeout_seconds c))"

definition validate_web_search :: "rstr \<Rightarrow> web_search_tool_config \<Rightarrow> unit res" where
  "validate_web_search agent_id w =
     (case wc_provider w of
        Brave \<Rightarrow> config_check (\<not> (tc_enabled w \<and> wc_api_key w = None))
          (''agents.list['' @ agent_id @ ''].config.tools.web_search.api_key is required when '' @
           ''tools.web_search.provider=brave and enabled=true'')
      | Duckduckgo \<Rightarrow> config_check (wc_api_key w = None)
          (''agents.list['' @ agent_id @ ''].config.tools.web_search.api_key is not allowed when '' @
           ''tools.web_search.provider=duckduckgo''))"

definition validate_tools_config :: "rstr \<Rightarrow> tools_config \<Rightarrow> unit res" where
  "validate_tools_config agent_id tools =
     rforeach id
       [case t_memory tools of None \<Rightarrow> Inr ()
        | Some m \<Rightarrow> rbind (validate_optional_nonzero agent_id ''tools.memory.default_top_k'' (mc_default_top_k m))
            (\<lambda>_. validate_optional_nonzero agent_id ''tools.memory.max_top_k'' (mc_max_top_k m)),
        timeout_check agent_id ''web_search'' (t_web_search tools),
        case t_web_search tools of None \<Rightarrow> Inr () | Some w \<Rightarrow> validate_web_search agent_id w,
        timeout_check agent_id ''web_fetch'' (t_web_fetch tools),
        case t_web_fetch tools of None \<Rightarrow> Inr ()
        | Some w \<Rightarrow> validate_optional_nonzero agent_id ''tools.web_fetch.max_chars'' (fc_max_chars w),
        timeout_check agent_id ''read'' (t_read tools), timeout_check agent_id ''edit'' (t_edit tools),
        timeout_check agent_id ''glob'' (t_glob tools), timeout_check agent_id ''grep'' (t_grep tools),
        timeout_check agent_id ''list'' (t_list tools), timeout_check agent_id ''exec'' (t_exec tools)]"

text \<open>The loop over the agents with the ids seen so far.\<close>

fun validate_agent_list :: "'f agent_entry_config list \<Rightarrow> rstr list \<Rightarrow> unit res" where
  "validate_agent_list [] ids = Inr ()"
| "validate_agent_list (agent # agents) ids =
     rbind (config_check (trim (agt_id agent) \<noteq> []) ''agents.list entries must have a non-empty id'') (\<lambda>_.
     rbind (config_check (trim (agt_name agent) \<noteq> []) ''agents.list entries must have a non-empty name'') (\<lambda>_.
     rbind (config_check (agt_id agent \<notin> set ids) (''agents.list contains duplicate id: '' @ agt_id agent)) (\<lambda>_.
     rbind (validate_agent_path (agt_id agent) ''persona'' (agt_persona agent)) (\<lambda>_.
     rbind (validate_agent_path (agt_id agent) ''workspace'' (agt_workspace agent)) (\<lambda>_.
     rbind (validate_execution_env (''agents.list['' @ agt_id agent @ ''].config.execution.env'')
              (eo_env (inner_execution (agt_config agent)))) (\<lambda>_.
     rbind (validate_tools_config (agt_id agent) (inner_tools (agt_config agent))) (\<lambda>_.
       validate_agent_list agents (agt_id agent # ids))))))))"

definition validate_agents_config :: "'f agents_config \<Rightarrow> unit res" where
  "validate_agents_config agents =
     rbind (config_check (agts_list agents \<noteq> []) ''agents.list must include at least one agent'') (\<lambda>_.
     rbind (validate_agent_list (agts_list agents) []) (\<lambda>_.
       config_check (agts_default agents \<in> set (map agt_id (agts_list agents)))
         (''agents.default '' @ [SQ] @ agts_default agents @ [SQ] @ '' does not match any agents.list id'')))"

definition validate_model_and_base :: "rstr \<Rightarrow> rstr \<Rightarrow> rstr \<Rightarrow> unit res" where
  "validate_model_and_base key model api_base =
     rbind (config_check (trim model \<noteq> []) (provider_path key @ ''.model must be non-empty'')) (\<lambda>_.
       config_check (trim api_base \<noteq> []) (provider_path key @ ''.api_base must be non-empty''))"

definition validate_moonshot :: "rstr \<Rightarrow> moonshot_config \<Rightarrow> unit res" where
  "validate_moonshot key self =
     rbind (validate_model_and_base key (moon_model self) (moon_api_base self)) (\<lambda>_.
       (case moon_mode self of
          AuthApiKey \<Rightarrow>
            (case moon_api_key self of
               None \<Rightarrow> Inl (ConfigError (provider_path key @ ''.api_key is required when mode is api_key''))
             | Some api_key \<Rightarrow> config_check (trim api_key \<noteq> [])
                 (provider_path key @ ''.api_key must be non-empty when mode is api_key''))
        | AuthOauth \<Rightarrow> Inl (ConfigError (provider_path key @ ''.mode oauth is not supported for kind moonshot''))))"

fun validate_provider_entry :: "rstr \<times> provider_entry \<Rightarrow> unit res" where
  "validate_provider_entry (key, GeminiEntry config) = validate_model_and_base key (gem_model config) (gem_api_base config)"
| "validate_provider_entry (key, MoonshotEntry config) = validate_moonshot key config"
| "validate_provider_entry (key, OpenAiCodexEntry config) =
     config_check (trim (codex_model config) \<noteq> []) (provider_path key @ ''.model must be non-empty'')"

definition validate_providers_config :: "providers_config \<Rightarrow> unit res" where
  "validate_providers_config providers =
     rbind (config_check (prov_entries providers \<noteq> []) ''providers.entries must include at least one provider'') (\<lambda>_.
     rbind (config_check (prov_default providers \<in> fst ` set (prov_entries providers))
              (''providers.default '' @ [SQ] @ prov_default providers @ [SQ] @ '' does not match any providers.entries key'')) (\<lambda>_.
       rforeach validate_provider_entry (prov_entries providers)))"

definition reconcile_routing_default_agent :: "routing_config \<Rightarrow> 'f agents_config \<Rightarrow> routing_config" where
  "reconcile_routing_default_agent routing agents =
     (let with_default = routing\<lparr>rc_defaults := (rc_defaults routing)\<lparr>pc_agent := Some (agts_default agents)\<rparr>\<rparr>;
          listed = (\<lambda>i. list_ex (\<lambda>agent. agt_id agent = i) (agts_list agents))
      in case pc_agent (rc_defaults routing) of
           None \<Rightarrow> with_default
         | Some raw \<Rightarrow>
             (if trim raw = [] then with_default
              else if trim raw \<noteq> default_agent_id then routing
              else if listed default_agent_id then routing
              else if listed (agts_default agents) then with_default else routing))"

definition validate_gateway_config :: "gateway_config \<Rightarrow> unit res" where
  "validate_gateway_config gateway =
     config_check (gate_channels gateway \<noteq> [] \<and> list_ex (\<lambda>(_, ch). chan_enabled ch) (gate_channels gateway))
       ''gateway.channels must include at least one enabled channel''"

definition validate_optional_policy_agent :: "rstr \<Rightarrow> inbound_policy_config \<Rightarrow> unit res" where
  "validate_optional_policy_agent path policy =
     (case pc_agent policy of None \<Rightarrow> Inr ()
      | Some agent \<Rightarrow> config_check (trim agent \<noteq> []) (path @ ''.agent must be non-empty when provided''))"

definition validate_workspace :: "rstr \<Rightarrow> rstr \<times> workspace_routing_config \<Rightarrow> unit res" where
  "validate_workspace path entry =
     (case entry of (workspace_id, workspace) \<Rightarrow>
        (let here = path @ ''.workspaces.'' @ workspace_id
         in rbind (validate_optional_policy_agent (here @ ''.defaults'') (wr_defaults workspace)) (\<lambda>_.
            rforeach (\<lambda>(channel_id, policy). validate_optional_policy_agent (here @ ''.channels.'' @ channel_id) policy)
              (wr_channels workspace))))"

definition validate_routing_config :: "routing_config \<Rightarrow> unit res" where
  "validate_routing_config routing =
     rbind (config_check (Option.bind (pc_agent (rc_defaults routing)) non_empty_trim \<noteq> None)
              ''gateway.routing.defaults.agent is required and must be non-empty'') (\<lambda>_.
     rbind (validate_optional_policy_agent ''gateway.routing.defaults'' (rc_defaults routing)) (\<lambda>_.
       rforeach (\<lambda>(kind, channel).
         (let path = ''gateway.routing.channels.'' @ channel_kind_as_str kind
          in rbind (validate_optional_policy_agent (path @ ''.defaults'') (cr_defaults channel)) (\<lambda>_.
             rbind (validate_optional_policy_agent (path @ ''.dm'') (cr_dm channel)) (\<lambda>_.
               rforeach (validate_workspace path) (cr_workspaces channel))))) (rc_channels routing)))"

section \<open>Loading\<close>

text \<open>
  What loading reads: the environment, whether the base directory could be made, the two files
  (\<open>None\<close> if they do not exist) and the two parsers.
\<close>

record 'f config_world =
  cfw_env :: environment
  cfw_float :: "'f float_ops"
  cfw_ensure_base_dir :: "unit res"
  cfw_config_file :: "rstr res option"
  cfw_secrets_file :: "rstr res option"
  cfw_parse_config :: "rstr \<Rightarrow> 'f global_config res"
  cfw_parse_secrets :: "rstr \<Rightarrow> rstr + (rstr \<rightharpoonup> rstr)"

definition read_global :: "'f config_world \<Rightarrow> 'f global_config res" where
  "read_global w =
     (case cfw_config_file w of
        None \<Rightarrow> Inr (default_global (cfw_env w) (cfw_float w))
      | Some content \<Rightarrow> rbind content (cfw_parse_config w))"

fun set_workspace :: "rstr \<Rightarrow> rstr \<Rightarrow> 'f agent_entry_config list \<Rightarrow> 'f agent_entry_config list option" where
  "set_workspace default_id workspace [] = None"
| "set_workspace default_id workspace (agent # agents) =
     (if agt_id agent = default_id then Some (agent\<lparr>agt_workspace := workspace\<rparr> # agents)
      else map_option (\<lambda>agents. agent # agents) (set_workspace default_id workspace agents))"

definition apply_workspace_override :: "environment \<Rightarrow> rstr option \<Rightarrow> 'f agents_config \<Rightarrow> 'f agents_config res" where
  "apply_workspace_override env workspace_override agents =
     (case workspace_override of
        None \<Rightarrow> Inr agents
      | Some p \<Rightarrow>
          rbind (ok_or (ConfigError (''agents.default '' @ [SQ] @ agts_default agents @ [SQ] @ '' does not match any agents.list id''))
                   (set_workspace (agts_default agents) (normalize_workspace_path env p) (agts_list agents)))
            (\<lambda>entries. Inr (agents\<lparr>agts_list := entries\<rparr>)))"

definition check_global :: "'f global_config \<Rightarrow> 'f global_config res" where
  "check_global g =
     rbind (validate_execution_env ''execution.defaults.env'' (Some (ed_env (exe_defaults (glob_execution g))))) (\<lambda>_.
     rbind (validate_providers_config (glob_providers g)) (\<lambda>_.
     rbind (validate_agents_config (glob_agents g)) (\<lambda>_.
     (let routing = reconcile_routing_default_agent (gate_routing (glob_gateway g)) (glob_agents g);
          g = g\<lparr>glob_gateway := (glob_gateway g)\<lparr>gate_routing := routing\<rparr>\<rparr>
      in rbind (validate_gateway_config (glob_gateway g)) (\<lambda>_.
         rbind (validate_routing_config routing) (\<lambda>_. Inr g))))))"

definition load_config :: "'f config_world \<Rightarrow> rstr option \<Rightarrow> 'f global_config res option" where
  "load_config w workspace_override =
     pbind (Some (resolve_app_paths (cfw_env w))) (\<lambda>paths.
     pbind (Some (cfw_ensure_base_dir w)) (\<lambda>_.
     pbind (Some (read_global w)) (\<lambda>g.
     pbind (Some (resolver_new (cfw_parse_secrets w) (ap_secrets_path paths) (cfw_secrets_file w))) (\<lambda>resolver.
     pbind (resolve_secrets (cfw_env w) resolver g) (\<lambda>g.
     (let g = g\<lparr>glob_database := (glob_database g)\<lparr>dbc_path := ap_db_path paths, dbc_long_term_path := ap_long_term_db_path paths\<rparr>\<rparr>;
          agents = normalize_agent_directory_paths (cfw_env w) (glob_agents g)
      in pbind (Some (apply_workspace_override (cfw_env w) workspace_override agents)) (\<lambda>agents.
           Some (check_global (g\<lparr>glob_agents := agents\<rparr>)))))))))"

section \<open>What loading establishes\<close>

lemma config_check_ok [simp]: "config_check ok message = Inr u \<longleftrightarrow> ok"
  by (simp add: config_check_def)

definition secret_ready :: "secret \<Rightarrow> bool" where
  "secret_ready s \<longleftrightarrow> (\<exists>v. exposed s = Some v \<and> trim v \<noteq> [])"

lemma resolve_name_nonempty: "resolve_name env resolver name = Inr v \<Longrightarrow> trim v \<noteq> []"
  by (auto simp: resolve_name_def ensure_nonempty_def split: if_splits option.splits)

lemma resolved_secret_ready: "resolved_secret env resolver path s = Inr s' \<Longrightarrow> secret_ready s'"
  by (auto simp: resolved_secret_def secret_resolve_def secret_ready_def exposed_def
      dest: resolve_name_nonempty split: sum.splits)

lemma resolve_opt_ready: "resolve_opt_secret env resolver path s = Inr (Some s') \<Longrightarrow> secret_ready s'"
  by (auto simp: resolve_opt_secret_def rbind_eq_Inr dest: resolved_secret_ready split: option.splits)

definition env_ready :: "(rstr \<times> secret) list \<Rightarrow> bool" where
  "env_ready vars \<longleftrightarrow> (\<forall>x\<in>set vars. secret_ready (snd x))"

lemma list_all2_result: "list_all2 P xs ys \<Longrightarrow> (\<And>x y. P x y \<Longrightarrow> Q y) \<Longrightarrow> \<forall>y\<in>set ys. Q y"
  by (induction rule: list_all2_induct) auto

lemma resolve_env_ready: "resolve_execution_env_secrets env resolver path vars = Inr vars' \<Longrightarrow> env_ready vars'"
  unfolding resolve_execution_env_secrets_def rtraverse_eq_Inr env_ready_def
  by (erule list_all2_result) (auto simp: rbind_eq_Inr dest: resolved_secret_ready split: prod.splits)

text \<open>An agent whose own secrets are resolved.\<close>

definition agent_ready :: "'f agent_entry_config \<Rightarrow> bool" where
  "agent_ready agent \<longleftrightarrow>
     (\<forall>vars. eo_env (inner_execution (agt_config agent)) = Some vars \<longrightarrow> env_ready vars) \<and>
     (\<forall>ws s. t_web_search (inner_tools (agt_config agent)) = Some ws \<longrightarrow> wc_api_key ws = Some s \<longrightarrow> secret_ready s)"

lemma resolve_tool_secrets_ready:
  assumes "resolve_agent_tool_secrets env resolver agent = Inr agent'"
    and "\<forall>vars. eo_env (inner_execution (agt_config agent)) = Some vars \<longrightarrow> env_ready vars"
  shows "agent_ready agent'"
proof (cases "t_web_search (inner_tools (agt_config agent))")
  case None
  then show ?thesis using assms by (simp add: resolve_agent_tool_secrets_def agent_ready_def)
next
  case (Some ws)
  then obtain k where k: "resolve_opt_secret env resolver
      (''agents.list['' @ agt_id agent @ ''].config.tools.web_search.api_key'') (wc_api_key ws) = Inr k"
    and agent': "agent' = agent\<lparr>agt_config := (agt_config agent)\<lparr>inner_tools :=
        (inner_tools (agt_config agent))\<lparr>t_web_search := Some (ws\<lparr>wc_api_key := k\<rparr>)\<rparr>\<rparr>\<rparr>"
    using assms(1) by (auto simp: resolve_agent_tool_secrets_def rbind_eq_Inr Let_def)
  have "\<forall>s. k = Some s \<longrightarrow> secret_ready s" using resolve_opt_ready k by blast
  then show ?thesis using assms(2) unfolding agent' agent_ready_def by simp
qed

lemma resolve_agent_ready:
  assumes "resolve_agent_secrets env resolver agent = Inr agent'"
  shows "agent_ready agent'"
proof -
  from assms obtain vars where v: "(case eo_env (inner_execution (agt_config agent)) of
        None \<Rightarrow> Inr None
      | Some vars \<Rightarrow> rbind (resolve_execution_env_secrets env resolver
          (''agents.list['' @ agt_id agent @ ''].config.execution.env'') vars) (\<lambda>vars. Inr (Some vars))) = Inr vars"
    and a: "resolve_agent_tool_secrets env resolver (agent\<lparr>agt_config := (agt_config agent)\<lparr>inner_execution :=
       (inner_execution (agt_config agent))\<lparr>eo_env := vars\<rparr>\<rparr>\<rparr>) = Inr agent'"
    unfolding resolve_agent_secrets_def Let_def rbind_eq_Inr by blast
  have "\<forall>x. vars = Some x \<longrightarrow> env_ready x"
    using v by (auto simp: rbind_eq_Inr dest: resolve_env_ready split: option.splits)
  then show ?thesis by (intro resolve_tool_secrets_ready[OF a]) simp
qed

definition secrets_ready :: "'f global_config \<Rightarrow> bool" where
  "secrets_ready g \<longleftrightarrow>
     env_ready (ed_env (exe_defaults (glob_execution g))) \<and>
     (\<forall>x\<in>set (gate_channels (glob_gateway g)). \<forall>s. chan_token (snd x) = Some s \<longrightarrow> secret_ready s) \<and>
     (\<forall>agent\<in>set (agts_list (glob_agents g)). agent_ready agent) \<and>
     (\<forall>key c s. (key, GeminiEntry c) \<in> set (prov_entries (glob_providers g)) \<longrightarrow> gem_api_key c = Some s \<longrightarrow> secret_ready s)"

lemma resolve_provider_ready:
  assumes "resolve_provider_entry env resolver x = Some (Inr y)"
  shows "\<forall>c s. snd y = GeminiEntry c \<longrightarrow> gem_api_key c = Some s \<longrightarrow> secret_ready s"
proof (intro allI impI)
  fix c s assume y: "snd y = GeminiEntry c" "gem_api_key c = Some s"
  obtain key e where x: "x = (key, e)" by fastforce
  from y(1) x assms obtain config where "e = GeminiEntry config"
    by (cases e) (auto simp: pbind_ok)
  with assms x y obtain k where "resolve_opt_secret env resolver (provider_path key @ ''.api_key'') (gem_api_key config) = Inr k"
    "c = config\<lparr>gem_api_key := k\<rparr>"
    by (auto simp: rbind_eq_Inr resolve_gemini_def)
  with y(2) show "secret_ready s" by (simp add: resolve_opt_ready)
qed

lemma resolve_channel_ready:
  assumes "resolve_channel_secrets env resolver x = Inr y"
  shows "\<forall>s. chan_token (snd y) = Some s \<longrightarrow> secret_ready s"
proof -
  obtain kind ch where x: "x = (kind, ch)" by fastforce
  with assms obtain k where "resolve_opt_secret env resolver (''gateway.channels.'' @ channel_kind_as_str kind @ ''.token'') (chan_token ch) = Inr k"
    "y = (kind, ch\<lparr>chan_token := k\<rparr>)"
    by (auto simp: resolve_channel_secrets_def rbind_eq_Inr)
  then show ?thesis using resolve_opt_ready by simp blast
qed

lemma resolve_secrets_ready:
  assumes "resolve_secrets env resolver g = Some (Inr g')"
  shows "secrets_ready g'"
proof -
  from assms obtain providers vars channels entries where
    p: "resolve_providers env resolver (glob_providers g) = Some (Inr providers)"
    and v: "resolve_execution_env_secrets env resolver ''execution.defaults.env'' (ed_env (exe_defaults (glob_execution g))) = Inr vars"
    and c: "rtraverse (resolve_channel_secrets env resolver) (gate_channels (glob_gateway g)) = Inr channels"
    and e: "rtraverse (resolve_agent_secrets env resolver) (agts_list (glob_agents g)) = Inr entries"
    and g': "g' = g\<lparr>glob_providers := providers,
             glob_execution := (glob_execution g)\<lparr>exe_defaults := (exe_defaults (glob_execution g))\<lparr>ed_env := vars\<rparr>\<rparr>,
             glob_gateway := (glob_gateway g)\<lparr>gate_channels := channels\<rparr>,
             glob_agents := (glob_agents g)\<lparr>agts_list := entries\<rparr>\<rparr>"
    unfolding resolve_secrets_def Let_def pbind_ok by auto
  from p obtain ps where ps: "ptraverse (resolve_provider_entry env resolver) (prov_entries (glob_providers g)) = Some (Inr ps)"
    "prov_entries providers = ps"
    by (auto simp: resolve_providers_def pbind_ok)
  have "\<forall>y\<in>set ps. \<forall>c s. snd y = GeminiEntry c \<longrightarrow> gem_api_key c = Some s \<longrightarrow> secret_ready s"
    using ps(1) unfolding ptraverse_ok by (rule list_all2_result) (rule resolve_provider_ready)
  moreover have "\<forall>y\<in>set channels. \<forall>s. chan_token (snd y) = Some s \<longrightarrow> secret_ready s"
    using c unfolding rtraverse_eq_Inr by (rule list_all2_result) (rule resolve_channel_ready)
  moreover have "\<forall>y\<in>set entries. agent_ready y"
    using e unfolding rtraverse_eq_Inr by (rule list_all2_result) (rule resolve_agent_ready)
  moreover have "env_ready vars" using v by (rule resolve_env_ready)
  ultimately show ?thesis unfolding secrets_ready_def g' using ps(2) by fastforce
qed

text \<open>Normalization and the override of the workspace keep the agents' settings.\<close>

lemma set_workspace_config:
  "set_workspace i p agents = Some agents' \<Longrightarrow> map agt_config agents' = map agt_config agents"
  by (induction i p agents arbitrary: agents' rule: set_workspace.induct) (auto split: if_splits)

lemma agents_ready_config:
  "map agt_config agents' = map agt_config agents \<Longrightarrow> (\<forall>a\<in>set agents. agent_ready a) \<Longrightarrow> (\<forall>a\<in>set agents'. agent_ready a)"
proof -
  assume m: "map agt_config agents' = map agt_config agents" and r: "\<forall>a\<in>set agents. agent_ready a"
  have "agt_config ` set agents' = agt_config ` set agents" using m by (metis set_map)
  then have "\<exists>b\<in>set agents. agt_config a = agt_config b" if "a \<in> set agents'" for a using that by (metis (mono_tags) image_iff)
  then show ?thesis using r unfolding agent_ready_def by fastforce
qed

lemma validate_agent_list_ok:
  "validate_agent_list agents ids = Inr u \<Longrightarrow>
   distinct (map agt_id agents) \<and> set (map agt_id agents) \<inter> set ids = {} \<and>
   (\<forall>a\<in>set agents. trim (agt_id a) \<noteq> [] \<and> trim (agt_name a) \<noteq> [] \<and> trim (agt_persona a) \<noteq> [] \<and> trim (agt_workspace a) \<noteq> [])"
  by (induction agents ids arbitrary: u rule: validate_agent_list.induct)
     (auto simp: rbind_eq_Inr validate_agent_path_def)

lemma check_global_ok:
  assumes "check_global g = Inr g'"
  shows "\<exists>routing. g' = g\<lparr>glob_gateway := (glob_gateway g)\<lparr>gate_routing := routing\<rparr>\<rparr> \<and> validate_routing_config routing = Inr ()"
    "validate_providers_config (glob_providers g) = Inr ()" "validate_agents_config (glob_agents g) = Inr ()"
    "validate_gateway_config (glob_gateway g') = Inr ()"
  using assms by (auto simp: check_global_def Let_def rbind_eq_Inr)

lemma update_env_subset: "set (AList.update k v m) \<subseteq> insert (k, v) (set m)"
  by (induction m) auto

lemma extend_env_ready:
  assumes "env_ready m" "env_ready extra"
  shows "env_ready (extend_env m extra)"
proof -
  have "set (foldl (\<lambda>m (k, v). AList.update k v m) m extra) \<subseteq> set m \<union> set extra" for m
  proof (induction extra arbitrary: m)
    case (Cons e extra)
    obtain k v where e: "e = (k, v)" by fastforce
    have "set (foldl (\<lambda>m (k, v). AList.update k v m) (AList.update k v m) extra) \<subseteq> set (AList.update k v m) \<union> set extra"
      by (rule Cons.IH)
    then show ?case using update_env_subset[of k v m] unfolding e by auto
  qed simp
  then show ?thesis using assms unfolding env_ready_def extend_env_def by blast
qed

lemma resolved_env_ready:
  assumes "env_ready vars"
  shows "\<exists>vals. resolved_env vars = Inr vals"
  using assms
proof (induction vars)
  case (Cons x vars)
  obtain key s where x: "x = (key, s)" by fastforce
  from Cons.prems obtain v where "exposed s = Some v" by (auto simp: env_ready_def x secret_ready_def)
  moreover from Cons obtain vals where "resolved_env vars = Inr vals" by (auto simp: env_ready_def)
  ultimately show ?case by (simp add: resolved_env_def x)
qed (simp add: resolved_env_def)

definition runtime_ready :: "'f global_config \<Rightarrow> 'f agent_entry_config \<Rightarrow> bool" where
  "runtime_ready g agent \<longleftrightarrow>
     (\<exists>vals. resolved_env (ed_env (merge_with_overrides (exe_defaults (glob_execution g))
        (inner_execution (agt_config agent)))) = Inr vals) \<and>
     (\<forall>ws. t_web_search (inner_tools (agt_config agent)) = Some ws \<longrightarrow> (\<exists>rt. web_search_to_runtime ws = Inr rt))"

lemma agent_runtime_ready:
  assumes "env_ready (ed_env (exe_defaults (glob_execution g)))" "agent_ready agent"
  shows "runtime_ready g agent"
proof -
  have "env_ready (ed_env (merge_with_overrides (exe_defaults (glob_execution g)) (inner_execution (agt_config agent))))"
    using assms extend_env_ready by (auto simp: merge_with_overrides_def agent_ready_def split: option.splits)
  moreover have "\<exists>rt. web_search_to_runtime ws = Inr rt" if "t_web_search (inner_tools (agt_config agent)) = Some ws" for ws
    using that assms(2) by (cases "wc_api_key ws") (auto simp: web_search_to_runtime_def agent_ready_def secret_ready_def)
  ultimately show ?thesis unfolding runtime_ready_def using resolved_env_ready by blast
qed

definition config_usable :: "'f global_config \<Rightarrow> bool" where
  "config_usable g \<longleftrightarrow>
     (let agents = agts_list (glob_agents g)
      in agts_default (glob_agents g) \<in> set (map agt_id agents) \<and> distinct (map agt_id agents) \<and>
         (\<forall>a\<in>set agents. trim (agt_id a) \<noteq> [] \<and> trim (agt_name a) \<noteq> [] \<and> trim (agt_persona a) \<noteq> [] \<and>
            trim (agt_workspace a) \<noteq> [] \<and> runtime_ready g a)) \<and>
     prov_default (glob_providers g) \<in> fst ` set (prov_entries (glob_providers g)) \<and>
     (\<exists>x\<in>set (gate_channels (glob_gateway g)). chan_enabled (snd x)) \<and>
     (\<exists>agent. pc_agent (rc_defaults (gate_routing (glob_gateway g))) = Some agent \<and> trim agent \<noteq> []) \<and>
     (\<forall>x\<in>set (gate_channels (glob_gateway g)). \<forall>s. chan_token (snd x) = Some s \<longrightarrow> secret_ready s)"

lemma load_config_usable:
  assumes "load_config w workspace_override = Some (Inr g)"
  shows "config_usable g"
proof -
  have "\<exists>paths resolver g0 g1 agents. resolve_app_paths (cfw_env w) = Inr paths \<and> resolve_secrets (cfw_env w) resolver g0 = Some (Inr g1) \<and>
      apply_workspace_override (cfw_env w) workspace_override
        (normalize_agent_directory_paths (cfw_env w) (glob_agents
          (g1\<lparr>glob_database := (glob_database g1)\<lparr>dbc_path := ap_db_path paths, dbc_long_term_path := ap_long_term_db_path paths\<rparr>\<rparr>))) = Inr agents \<and>
      check_global (g1\<lparr>glob_database := (glob_database g1)\<lparr>dbc_path := ap_db_path paths, dbc_long_term_path := ap_long_term_db_path paths\<rparr>,
        glob_agents := agents\<rparr>) = Inr g"
    using assms unfolding load_config_def Let_def pbind_ok option.inject
    by (elim exE conjE) (intro exI conjI, assumption+)
  then obtain paths resolver g0 g1 agents where
    "resolve_app_paths (cfw_env w) = Inr paths" and
    sec: "resolve_secrets (cfw_env w) resolver g0 = Some (Inr g1)"
    and ov: "apply_workspace_override (cfw_env w) workspace_override
       (normalize_agent_directory_paths (cfw_env w) (glob_agents
          (g1\<lparr>glob_database := (glob_database g1)\<lparr>dbc_path := ap_db_path paths, dbc_long_term_path := ap_long_term_db_path paths\<rparr>\<rparr>))) = Inr agents"
    and chk: "check_global (g1\<lparr>glob_database := (glob_database g1)\<lparr>dbc_path := ap_db_path paths, dbc_long_term_path := ap_long_term_db_path paths\<rparr>,
       glob_agents := agents\<rparr>) = Inr g"
    by (elim exE conjE)
  let ?g2 = "g1\<lparr>glob_database := (glob_database g1)\<lparr>dbc_path := ap_db_path paths, dbc_long_term_path := ap_long_term_db_path paths\<rparr>,
       glob_agents := agents\<rparr>"
  from check_global_ok[OF chk] obtain routing where
    g: "g = ?g2\<lparr>glob_gateway := (glob_gateway ?g2)\<lparr>gate_routing := routing\<rparr>\<rparr>" "validate_routing_config routing = Inr ()"
    "validate_providers_config (glob_providers ?g2) = Inr ()" "validate_agents_config (glob_agents ?g2) = Inr ()"
    "validate_gateway_config (glob_gateway g) = Inr ()" by blast
  have ready: "secrets_ready g1" by (rule resolve_secrets_ready[OF sec])
  have config: "map agt_config (agts_list agents) = map agt_config (agts_list (glob_agents g1))"
    using ov by (auto simp: apply_workspace_override_def normalize_agent_directory_paths_def rbind_eq_Inr
        dest: set_workspace_config split: option.splits)
  have agents: "\<forall>a\<in>set (agts_list agents). agent_ready a"
    by (rule agents_ready_config[OF config]) (use ready in \<open>simp add: secrets_ready_def\<close>)
  have exe: "glob_execution g = glob_execution g1" "glob_agents g = agents" "glob_providers g = glob_providers g1"
    "gate_channels (glob_gateway g) = gate_channels (glob_gateway g1)" "gate_routing (glob_gateway g) = routing"
    unfolding g(1) by simp_all
  have "env_ready (ed_env (exe_defaults (glob_execution g)))" using ready exe(1) by (simp add: secrets_ready_def)
  then have runtime: "\<forall>a\<in>set (agts_list agents). runtime_ready g a" using agents agent_runtime_ready by blast
  have valid: "agts_default agents \<in> set (map agt_id (agts_list agents))" "validate_agent_list (agts_list agents) [] = Inr ()"
    using g(4) by (auto simp: validate_agents_config_def rbind_eq_Inr)
  note ids = validate_agent_list_ok[OF valid(2)]
  have prov: "prov_default (glob_providers g) \<in> fst ` set (prov_entries (glob_providers g))"
    using g(3) exe(3) by (auto simp: validate_providers_config_def rbind_eq_Inr)
  have chan: "\<exists>x\<in>set (gate_channels (glob_gateway g)). chan_enabled (snd x)"
    using g(5) by (auto simp: validate_gateway_config_def list_ex_iff case_prod_beta)
  have rout: "\<exists>agent. pc_agent (rc_defaults (gate_routing (glob_gateway g))) = Some agent \<and> trim agent \<noteq> []"
    using g(2) exe(5) by (auto simp: validate_routing_config_def rbind_eq_Inr non_empty_trim_def bind_eq_Some_conv split: if_splits)
  have tok: "\<forall>x\<in>set (gate_channels (glob_gateway g)). \<forall>s. chan_token (snd x) = Some s \<longrightarrow> secret_ready s"
    using ready exe(4) by (simp add: secrets_ready_def)
  show ?thesis
    unfolding config_usable_def Let_def exe(2)
    using valid(1) ids runtime prov chan rout tok by blast
qed

lemma loaded_value: "(case r of Some (Inr g) \<Rightarrow> Some (f g) | _ \<Rightarrow> None) = Some v \<Longrightarrow> \<exists>g. r = Some (Inr g) \<and> f g = v"
  by (auto split: option.splits sum.splits)

text \<open>
  A loaded configuration is usable: whatever the files hold, if loading succeeds then agent ids
  are distinct and not blank and the default agent is one of them; the default provider exists; a
  channel is enabled; routing has a default agent; and every secret the runtime reads is there, so
  that for every agent the merged environment resolves, the web search has its key, and every
  channel token is a text that is not blank.
\<close>

theorem loaded_config_is_usable:
  assumes "load_config w workspace_override = Some (Inr g)"
  shows "config_usable g"
  by (rule load_config_usable[OF assms])

abbreviation sample_config_world :: "int config_world" where
  "sample_config_world \<equiv>
     \<lparr>cfw_env = (\<lambda>k. if k = ''HOME'' then Some ''/h'' else None),
      cfw_float = \<lparr>fl_lit = (\<lambda>n d. n div d), fl_add = (+), fl_sub = (-), fl_mul = (*), fl_div = (div), fl_lt = (<),
        fl_le = (\<le>), fl_bytes = (\<lambda>_. [])\<rparr>,
      cfw_ensure_base_dir = Inr (), cfw_config_file = None, cfw_secrets_file = None,
      cfw_parse_config = (\<lambda>_. Inl (YamlError [])), cfw_parse_secrets = (\<lambda>_. Inl [])\<rparr>"

theorem loaded_config_is_usable_witness:
  "\<exists>g. load_config sample_config_world (Some ''~/ws'') = Some (Inr g) \<and> config_usable g \<and>
     map agt_workspace (agts_list (glob_agents g)) = [''/h/ws'']"
proof -
  have "(case load_config sample_config_world (Some ''~/ws'') of
      Some (Inr g) \<Rightarrow> Some (map agt_workspace (agts_list (glob_agents g))) | _ \<Rightarrow> None) = Some [''/h/ws'']" by code_simp
  from loaded_value[OF this] obtain g where g: "load_config sample_config_world (Some ''~/ws'') = Some (Inr g)"
    "map agt_workspace (agts_list (glob_agents g)) = [''/h/ws'']" by (elim exE conjE)
  show ?thesis
    by (rule exI, intro conjI, rule g(1), rule loaded_config_is_usable[OF g(1)], rule g(2))
qed

end
