(* ===== verification/Streaming.thy ===== *)
theory Streaming
  imports Errors
begin

text \<open>
  \<open>src/run.rs\<close>: the display of a reply while it is generated. The text seen so far is shown in
  messages of the channel of at most its limit of characters; the last message is edited as the
  text grows. The state sits behind a lock; each critical section of the code is a step here, and
  the sends and edits are tasks whose outcome the channel decides. Times are milliseconds.
\<close>

section \<open>Segments\<close>

definition streaming_edit_interval :: int where
  "streaming_edit_interval = 1500"

fun char_starts :: "nat \<Rightarrow> rstr list \<Rightarrow> nat list" where
  "char_starts i [] = []"
| "char_starts i (c # cs) = i # char_starts (i + length c) cs"

definition byte_index_for_char_offset :: "rstr \<Rightarrow> nat \<Rightarrow> nat" where
  "byte_index_for_char_offset content char_offset =
     (if char_offset = 0 then 0
      else (let starts = char_starts 0 (chars content)
            in if char_offset < length starts then starts ! char_offset else length content))"

record streaming_segment =
  seg_content :: rstr
  seg_visible :: nat
  seg_overflow :: bool

definition active_streaming_segment :: "rstr \<Rightarrow> nat \<Rightarrow> nat option \<Rightarrow> streaming_segment option" where
  "active_streaming_segment latest_content committed channel_limit =
     (let tail = drop (byte_index_for_char_offset latest_content committed) latest_content
      in if tail = [] then None
         else (let tail_chars = char_count tail;
                   visible = (case channel_limit of None \<Rightarrow> tail_chars | Some limit \<Rightarrow> min limit tail_chars)
               in Some \<lparr>seg_content = take (byte_index_for_char_offset tail visible) tail,
                        seg_visible = visible, seg_overflow = visible < tail_chars\<rparr>))"

section \<open>The state of a display\<close>

record streaming_display =
  sd_limit :: "nat option"
  sd_latest :: rstr
  sd_committed :: nat
  sd_displayed :: "rstr option"
  sd_message_id :: "rstr option"
  sd_last_edit :: int
  sd_send_attempted :: bool
  sd_send_in_flight :: bool
  sd_edit_in_flight :: bool
  sd_finalized :: bool
  sd_terminal_failure :: bool
  sd_error :: "rstr option"

definition streaming_new :: "nat option \<Rightarrow> int \<Rightarrow> streaming_display" where
  "streaming_new limit now =
     \<lparr>sd_limit = limit, sd_latest = [], sd_committed = 0, sd_displayed = None, sd_message_id = None,
      sd_last_edit = now - streaming_edit_interval, sd_send_attempted = False,
      sd_send_in_flight = False, sd_edit_in_flight = False, sd_finalized = False,
      sd_terminal_failure = False, sd_error = None\<rparr>"

definition active_segment :: "streaming_display \<Rightarrow> streaming_segment option" where
  "active_segment d = active_streaming_segment (sd_latest d) (sd_committed d) (sd_limit d)"

definition try_rollover :: "streaming_display \<Rightarrow> streaming_display" where
  "try_rollover d =
     (if sd_send_in_flight d \<or> sd_edit_in_flight d \<or> sd_terminal_failure d then d
      else (case active_segment d of
              None \<Rightarrow> d
            | Some segment \<Rightarrow>
                (if \<not> seg_overflow segment \<or> sd_displayed d \<noteq> Some (seg_content segment) then d
                 else d\<lparr>sd_committed := sd_committed d + seg_visible segment, sd_displayed := None,
                        sd_message_id := None, sd_send_attempted := False, sd_error := None\<rparr>)))"

datatype display_action =
    SendInitial rstr
  | EditShown rstr rstr

definition next_display_action :: "int \<Rightarrow> streaming_display \<Rightarrow> streaming_display \<times> display_action option" where
  "next_display_action now d =
     (if sd_terminal_failure d \<or> sd_latest d = [] then (d, None)
      else (let d = try_rollover d
            in case active_segment d of
                 None \<Rightarrow> (d, None)
               | Some segment \<Rightarrow>
                   (case sd_message_id d of
                      None \<Rightarrow>
                        (if sd_send_in_flight d \<or> sd_displayed d \<noteq> None \<or> sd_send_attempted d then (d, None)
                         else (d\<lparr>sd_send_attempted := True, sd_send_in_flight := True\<rparr>,
                               Some (SendInitial (seg_content segment))))
                    | Some message_id \<Rightarrow>
                        (if sd_edit_in_flight d \<or> sd_displayed d = Some (seg_content segment) \<or>
                            \<not> sd_finalized d \<and> now - sd_last_edit d < streaming_edit_interval then (d, None)
                         else (d\<lparr>sd_edit_in_flight := True\<rparr>, Some (EditShown message_id (seg_content segment)))))))"

text \<open>The answer to a send and to an edit; the flag says that the code looks for the next action.\<close>

definition send_completed ::
  "int \<Rightarrow> rstr \<Rightarrow> rstr option res \<Rightarrow> streaming_display \<Rightarrow> streaming_display \<times> bool" where
  "send_completed now content result d =
     (let d = d\<lparr>sd_send_in_flight := False\<rparr>
      in case result of
           Inr (Some message_id) \<Rightarrow>
             (d\<lparr>sd_message_id := Some message_id, sd_displayed := Some content, sd_last_edit := now, sd_error := None\<rparr>, True)
         | Inr None \<Rightarrow> (d\<lparr>sd_displayed := Some content, sd_error := None\<rparr>, False)
         | Inl err \<Rightarrow> (d\<lparr>sd_error := Some (error_to_string err), sd_terminal_failure := True\<rparr>, False))"

definition edit_completed ::
  "int \<Rightarrow> rstr \<Rightarrow> unit res \<Rightarrow> streaming_display \<Rightarrow> streaming_display \<times> bool" where
  "edit_completed now content result d =
     (let d = d\<lparr>sd_edit_in_flight := False\<rparr>
      in case result of
           Inl err \<Rightarrow> (d\<lparr>sd_error := Some (error_to_string err), sd_terminal_failure := True\<rparr>, False)
         | Inr _ \<Rightarrow> (d\<lparr>sd_displayed := Some content, sd_last_edit := now, sd_error := None\<rparr>, True))"

section \<open>Finalization\<close>

datatype poll = PollDone "unit res" | PollFallback | PollWait

definition poll_display :: "rstr \<Rightarrow> streaming_display \<Rightarrow> poll" where
  "poll_display content d =
     (let idle = \<not> sd_send_in_flight d \<and> \<not> sd_edit_in_flight d
      in if idle \<and> sd_terminal_failure d \<and> sd_error d \<noteq> None \<and>
            (sd_message_id d \<noteq> None \<or> sd_displayed d \<noteq> None \<or> 0 < sd_committed d)
         then PollDone (Inl (ToolError (the (sd_error d))))
         else if idle \<and> sd_committed d = char_count content then PollDone (Inr ())
         else if idle \<and> (case active_segment d of None \<Rightarrow> False | Some s \<Rightarrow> sd_displayed d = Some (seg_content s)) \<and>
            sd_committed d + (case active_segment d of None \<Rightarrow> 0 | Some s \<Rightarrow> seg_visible s) = char_count content
         then PollDone (Inr ())
         else if idle \<and> sd_message_id d = None \<and> sd_displayed d = None then PollFallback
         else PollWait)"

section \<open>The display, its tasks and the channel\<close>

text \<open>
  The messages of the channel are pairs of an identifier, if the channel reports one, and a text.
\<close>

record stream_sys =
  st_display :: streaming_display
  st_tasks :: "display_action list"
  st_posted :: "(rstr option \<times> rstr) list"
  st_final :: "rstr option"
  st_result :: "unit res option"

datatype stream_event =
    EvText rstr int
  | EvNext int
  | EvSent int "rstr option res"
  | EvEdited int "unit res"
  | EvFinalize rstr int
  | EvPoll "unit res"

definition stream_next :: "int \<Rightarrow> stream_sys \<Rightarrow> stream_sys" where
  "stream_next now x =
     (case next_display_action now (st_display x) of
        (d, None) \<Rightarrow> x\<lparr>st_display := d\<rparr>
      | (d, Some action) \<Rightarrow> x\<lparr>st_display := d, st_tasks := st_tasks x @ [action]\<rparr>)"

definition post_edit :: "rstr \<Rightarrow> rstr \<Rightarrow> (rstr option \<times> rstr) list \<Rightarrow> (rstr option \<times> rstr) list" where
  "post_edit message_id content posted =
     map (\<lambda>(i, shown). if i = Some message_id then (i, content) else (i, shown)) posted"

text \<open>
  A step: the text grew (\<open>spawn_streaming_display_update\<close>), the next action is looked for, the
  oldest task got its answer, \<open>finalize_streaming_display\<close> starts, and its loop looks once. The
  identifier of a new message is new.
\<close>

fun stream_step :: "stream_event \<Rightarrow> stream_sys \<Rightarrow> stream_sys option" where
  "stream_step (EvText content now) x =
     (if st_final x \<noteq> None then None
      else Some (stream_next now (x\<lparr>st_display := (st_display x)\<lparr>sd_latest := content\<rparr>\<rparr>)))"
| "stream_step (EvNext now) x = (if st_result x \<noteq> None then None else Some (stream_next now x))"
| "stream_step (EvSent now outcome) x =
     (case st_tasks x of
        SendInitial content # tasks \<Rightarrow>
          (case outcome of
             Inr i \<Rightarrow>
               (if i \<noteq> None \<and> i \<in> fst ` set (st_posted x) then None
                else Some (x\<lparr>st_display := fst (send_completed now content outcome (st_display x)), st_tasks := tasks,
                             st_posted := st_posted x @ [(i, content)]\<rparr>))
           | Inl _ \<Rightarrow> Some (x\<lparr>st_display := fst (send_completed now content outcome (st_display x)), st_tasks := tasks\<rparr>))
      | _ \<Rightarrow> None)"
| "stream_step (EvEdited now outcome) x =
     (case st_tasks x of
        EditShown message_id content # tasks \<Rightarrow>
          Some (x\<lparr>st_display := fst (edit_completed now content outcome (st_display x)), st_tasks := tasks,
                  st_posted := (if is_ok outcome then post_edit message_id content (st_posted x) else st_posted x)\<rparr>)
      | _ \<Rightarrow> None)"
| "stream_step (EvFinalize content now) x =
     (if st_final x \<noteq> None then None
      else Some (stream_next now
             (x\<lparr>st_display := (st_display x)\<lparr>sd_latest := content, sd_finalized := True\<rparr>, st_final := Some content\<rparr>)))"
| "stream_step (EvPoll sent) x =
     (case st_final x of
        None \<Rightarrow> None
      | Some content \<Rightarrow>
          (if st_result x \<noteq> None then None
           else (case poll_display content (st_display x) of
                   PollDone r \<Rightarrow> Some (x\<lparr>st_result := Some r\<rparr>)
                 | PollFallback \<Rightarrow>
                     Some (x\<lparr>st_result := Some sent,
                             st_posted := (if is_ok sent then st_posted x @ [(None, content)] else st_posted x)\<rparr>)
                 | PollWait \<Rightarrow> Some x)))"

definition stream_start :: "nat option \<Rightarrow> int \<Rightarrow> stream_sys" where
  "stream_start limit now =
     \<lparr>st_display = streaming_new limit now, st_tasks = [], st_posted = [], st_final = None, st_result = None\<rparr>"

fun stream_run :: "stream_event list \<Rightarrow> stream_sys \<Rightarrow> stream_sys option" where
  "stream_run [] x = Some x"
| "stream_run (e # es) x = Option.bind (stream_step e x) (stream_run es)"

section \<open>Segments of the text\<close>

lemma length_char_starts [simp]: "length (char_starts i cs) = length cs"
  by (induction cs arbitrary: i) auto

lemma char_starts_nth: "k < length cs \<Longrightarrow> char_starts i cs ! k = i + length (concat (take k cs))"
proof (induction cs arbitrary: i k)
  case (Cons c cs)
  then show ?case by (cases k) simp_all
qed simp

lemma byte_index_is: "byte_index_for_char_offset s k = length (concat (take k (chars s)))"
proof -
  have "length (concat (take k (chars s))) = length s" if "length (chars s) \<le> k"
    using that by simp
  then show ?thesis by (simp add: byte_index_for_char_offset_def Let_def char_starts_nth)
qed

lemma concat_take_drop: "concat (take k cs) @ concat (drop k cs) = concat cs"
  by (metis append_take_drop_id concat_append)

lemma drop_byte_index: "drop (byte_index_for_char_offset s k) s = concat (drop k (chars s))"
proof -
  have "s = concat (take k (chars s)) @ concat (drop k (chars s))" by (simp add: concat_take_drop)
  then show ?thesis unfolding byte_index_is by (metis append_eq_conv_conj)
qed

lemma take_byte_index: "take (byte_index_for_char_offset s k) s = concat (take k (chars s))"
proof -
  have "s = concat (take k (chars s)) @ concat (drop k (chars s))" by (simp add: concat_take_drop)
  then show ?thesis unfolding byte_index_is by (metis append_eq_conv_conj)
qed

lemma chars_of_drop: "chars (concat (drop k (chars s))) = drop k (chars s)"
proof -
  have "char_list (drop k (chars s))"
    using char_list_chars[of s] char_list_suffix[of "take k (chars s)" "drop k (chars s)"] by simp
  then show ?thesis by (rule chars_concat)
qed

text \<open>What a segment is, on the characters of the text.\<close>

definition fitting :: "nat option \<Rightarrow> rstr list \<Rightarrow> nat" where
  "fitting limit cs = (case limit of None \<Rightarrow> length cs | Some l \<Rightarrow> min l (length cs))"

lemma active_streaming_segment_is:
  "active_streaming_segment s c limit =
     (let tail = drop c (chars s); v = fitting limit tail
      in if tail = [] then None
         else Some \<lparr>seg_content = concat (take v tail), seg_visible = v, seg_overflow = v < length tail\<rparr>)"
proof -
  have "concat (drop c (chars s)) = [] \<longleftrightarrow> drop c (chars s) = []"
    by (metis chars_Nil_iff chars_of_drop)
  then show ?thesis
    by (cases limit) (simp_all add: active_streaming_segment_def drop_byte_index take_byte_index Let_def chars_of_drop
        char_count_def fitting_def)
qed

lemma fitting_le [simp]: "fitting limit cs \<le> length cs"
  by (auto simp: fitting_def split: option.split)

lemma char_count_take_drop: "k \<le> length (chars s) - c \<Longrightarrow> char_count (concat (take k (drop c (chars s)))) = k"
proof -
  assume k: "k \<le> length (chars s) - c"
  have "char_list (drop c (chars s))"
    using char_list_chars[of s] char_list_suffix[of "take c (chars s)" "drop c (chars s)"] by simp
  then have "char_list (take k (drop c (chars s)))"
    by (metis append_take_drop_id char_list_prefix)
  then show ?thesis using k by (simp add: char_count_def chars_concat)
qed

section \<open>What the channel shows\<close>

definition flat :: "(rstr option \<times> rstr) list \<Rightarrow> rstr" where
  "flat posted = concat (map snd posted)"

lemma flat_simps [simp]: "flat [] = []" "flat (P @ Q) = flat P @ flat Q" "flat [p] = snd p"
  by (simp_all add: flat_def)

definition rest :: "streaming_display \<Rightarrow> rstr list" where
  "rest d = drop (sd_committed d) (chars (sd_latest d))"

definition committed_text :: "streaming_display \<Rightarrow> rstr" where
  "committed_text d = concat (take (sd_committed d) (chars (sd_latest d)))"

text \<open>A piece is a start of the rest that fits into one message.\<close>

definition piece :: "streaming_display \<Rightarrow> rstr \<Rightarrow> bool" where
  "piece d s \<longleftrightarrow> (\<exists>k\<le>fitting (sd_limit d) (rest d). s = concat (take k (rest d)))"

lemma active_segment_is:
  "active_segment d =
     (if rest d = [] then None
      else Some \<lparr>seg_content = concat (take (fitting (sd_limit d) (rest d)) (rest d)),
                 seg_visible = fitting (sd_limit d) (rest d),
                 seg_overflow = fitting (sd_limit d) (rest d) < length (rest d)\<rparr>)"
  by (simp add: active_segment_def active_streaming_segment_is rest_def Let_def)

lemma active_segment_piece: "active_segment d = Some g \<Longrightarrow> piece d (seg_content g)"
  by (auto simp: active_segment_is piece_def split: if_splits)

definition mode_empty :: "streaming_display \<Rightarrow> display_action list \<Rightarrow> (rstr option \<times> rstr) list \<Rightarrow> bool" where
  "mode_empty d T P \<longleftrightarrow>
     sd_message_id d = None \<and> sd_displayed d = None \<and> \<not> sd_edit_in_flight d \<and> flat P = committed_text d \<and>
     (if sd_send_in_flight d then \<exists>s. T = [SendInitial s] \<and> piece d s else T = [])"

definition mode_plain :: "streaming_display \<Rightarrow> display_action list \<Rightarrow> (rstr option \<times> rstr) list \<Rightarrow> bool" where
  "mode_plain d T P \<longleftrightarrow>
     sd_message_id d = None \<and> \<not> sd_send_in_flight d \<and> \<not> sd_edit_in_flight d \<and> T = [] \<and>
     (\<exists>s ps. sd_displayed d = Some s \<and> P = ps @ [(None, s)] \<and> flat ps = committed_text d \<and> piece d s)"

definition mode_live :: "streaming_display \<Rightarrow> display_action list \<Rightarrow> (rstr option \<times> rstr) list \<Rightarrow> bool" where
  "mode_live d T P \<longleftrightarrow>
     \<not> sd_send_in_flight d \<and>
     (\<exists>m s ps. sd_message_id d = Some m \<and> sd_displayed d = Some s \<and> P = ps @ [(Some m, s)] \<and> Some m \<notin> fst ` set ps \<and>
        flat ps = committed_text d \<and> piece d s \<and>
        (if sd_edit_in_flight d then \<exists>s'. T = [EditShown m s'] \<and> piece d s' else T = []))"

definition in_view :: "streaming_display \<Rightarrow> display_action list \<Rightarrow> (rstr option \<times> rstr) list \<Rightarrow> bool" where
  "in_view d T P \<longleftrightarrow>
     sd_committed d \<le> length (chars (sd_latest d)) \<and>
     (sd_terminal_failure d \<longrightarrow> sd_error d \<noteq> None \<and> \<not> sd_send_in_flight d \<and> \<not> sd_edit_in_flight d) \<and>
     (mode_empty d T P \<or> mode_plain d T P \<or> mode_live d T P)"

text \<open>Before the first send nothing is committed: every later segment is sent as soon as it is begun.\<close>

definition settled :: "streaming_display \<Rightarrow> bool" where
  "settled d \<longleftrightarrow>
     (sd_message_id d = None \<and> sd_displayed d = None \<and> \<not> sd_send_in_flight d \<and> \<not> sd_terminal_failure d \<longrightarrow>
      sd_committed d = 0 \<and> \<not> sd_send_attempted d)"

lemmas display_views = rest_def committed_text_def piece_def

lemma views_cong [simp]:
  "rest (d\<lparr>sd_displayed := a\<rparr>) = rest d" "rest (d\<lparr>sd_message_id := b\<rparr>) = rest d"
  "rest (d\<lparr>sd_send_attempted := u\<rparr>) = rest d" "rest (d\<lparr>sd_send_in_flight := v\<rparr>) = rest d"
  "rest (d\<lparr>sd_edit_in_flight := w\<rparr>) = rest d" "rest (d\<lparr>sd_error := e\<rparr>) = rest d"
  "rest (d\<lparr>sd_last_edit := i\<rparr>) = rest d" "rest (d\<lparr>sd_terminal_failure := f\<rparr>) = rest d"
  "rest (d\<lparr>sd_finalized := g\<rparr>) = rest d"
  "committed_text (d\<lparr>sd_displayed := a\<rparr>) = committed_text d" "committed_text (d\<lparr>sd_message_id := b\<rparr>) = committed_text d"
  "committed_text (d\<lparr>sd_send_attempted := u\<rparr>) = committed_text d" "committed_text (d\<lparr>sd_send_in_flight := v\<rparr>) = committed_text d"
  "committed_text (d\<lparr>sd_edit_in_flight := w\<rparr>) = committed_text d" "committed_text (d\<lparr>sd_error := e\<rparr>) = committed_text d"
  "committed_text (d\<lparr>sd_last_edit := i\<rparr>) = committed_text d" "committed_text (d\<lparr>sd_terminal_failure := f\<rparr>) = committed_text d"
  "committed_text (d\<lparr>sd_finalized := g\<rparr>) = committed_text d"
  by (simp_all add: display_views)

lemma piece_cong: "rest d' = rest d \<Longrightarrow> sd_limit d' = sd_limit d \<Longrightarrow> piece d' s = piece d s"
  by (simp add: piece_def)

text \<open>Beginning the next segment.\<close>

lemma rollover_in_view:
  assumes "in_view d T P"
  shows "try_rollover d = d \<or>
    (in_view (try_rollover d) T P \<and> sd_message_id (try_rollover d) = None \<and> sd_displayed (try_rollover d) = None \<and>
     \<not> sd_send_in_flight (try_rollover d) \<and> \<not> sd_edit_in_flight (try_rollover d) \<and> T = [] \<and>
     \<not> sd_send_attempted (try_rollover d) \<and> active_segment (try_rollover d) \<noteq> None)"
proof (cases "try_rollover d = d")
  case False
  let ?v = "fitting (sd_limit d) (rest d)"
  let ?d = "d\<lparr>sd_committed := sd_committed d + ?v, sd_displayed := None, sd_message_id := None,
        sd_send_attempted := False, sd_error := None\<rparr>"
  from False have idle: "\<not> sd_send_in_flight d" "\<not> sd_edit_in_flight d" "\<not> sd_terminal_failure d"
    and seg: "?v < length (rest d)" "sd_displayed d = Some (concat (take ?v (rest d)))" and new: "try_rollover d = ?d"
    by (auto simp: try_rollover_def active_segment_is split: if_splits)
  from assms idle seg obtain m ps where P: "P = ps @ [(m, concat (take ?v (rest d)))]" "flat ps = committed_text d" and T: "T = []"
    by (auto simp: in_view_def mode_empty_def mode_plain_def mode_live_def)
  have c: "committed_text (d\<lparr>sd_committed := sd_committed d + ?v\<rparr>) = committed_text d @ concat (take ?v (rest d))"
    by (simp add: display_views take_add)
  have r: "rest ?d = drop ?v (rest d)" by (simp add: display_views add.commute)
  have "sd_committed d + ?v \<le> length (chars (sd_latest d))" using seg(1) by (simp add: rest_def)
  then have "in_view ?d T P" using P T idle by (simp add: in_view_def mode_empty_def c)
  moreover have "active_segment ?d \<noteq> None" using seg(1) r by (simp add: active_segment_is)
  ultimately show ?thesis unfolding new using idle T by simp
qed simp

lemma next_action_in_view:
  assumes "in_view d T P" "settled d" "next_display_action now d = (d', a)"
  shows "in_view d' (case a of None \<Rightarrow> T | Some x \<Rightarrow> T @ [x]) P \<and> settled d'"
proof (cases "sd_terminal_failure d \<or> sd_latest d = []")
  case True
  then show ?thesis using assms by (auto simp: next_display_action_def)
next
  case False
  let ?r = "try_rollover d"
  have r: "in_view ?r T P" "?r = d \<or> sd_message_id ?r = None \<and> sd_displayed ?r = None \<and> \<not> sd_send_in_flight ?r \<and> \<not> sd_edit_in_flight ?r \<and>
      T = [] \<and> \<not> sd_send_attempted ?r \<and> active_segment ?r \<noteq> None"
    using rollover_in_view[OF assms(1)] assms(1) by auto
  show ?thesis
  proof (cases "active_segment ?r")
    case None
    then show ?thesis using False assms r by (auto simp: next_display_action_def)
  next
    case (Some g)
    have p: "piece ?r (seg_content g)" by (rule active_segment_piece[OF Some])
    show ?thesis
    proof (cases "sd_message_id ?r")
      case None
      show ?thesis
      proof (cases "sd_send_in_flight ?r \<or> sd_displayed ?r \<noteq> None \<or> sd_send_attempted ?r")
        case True
        then have "d' = ?r" "a = None" "?r = d" using False assms(3) Some None r(2)
          by (auto simp: next_display_action_def)
        then show ?thesis using r(1) assms(2) by simp
      next
        case no: False
        then have d': "d' = ?r\<lparr>sd_send_attempted := True, sd_send_in_flight := True\<rparr>" "a = Some (SendInitial (seg_content g))"
          using False assms(3) Some None by (auto simp: next_display_action_def)
        have "T = []" "flat P = committed_text ?r" "\<not> sd_edit_in_flight ?r" "sd_displayed ?r = None"
          using r(1) no None by (auto simp: in_view_def mode_empty_def mode_plain_def mode_live_def)
        moreover have "\<not> sd_terminal_failure ?r" using False by (auto simp: try_rollover_def split: option.splits)
        ultimately show ?thesis using r(1) p None unfolding d'
          by (simp add: in_view_def mode_empty_def settled_def piece_cong[of "?r\<lparr>sd_send_attempted := True, sd_send_in_flight := True\<rparr>" ?r])
      qed
    next
      case (Some m)
      then have same: "?r = d" using r(2) by auto
      show ?thesis
      proof (cases "sd_edit_in_flight d \<or> sd_displayed d = Some (seg_content g) \<or>
            \<not> sd_finalized d \<and> now - sd_last_edit d < streaming_edit_interval")
        case True
        then have "d' = d" "a = None" using False assms(3) Some \<open>active_segment ?r = Some g\<close> same
          by (auto simp: next_display_action_def)
        then show ?thesis using assms by simp
      next
        case no: False
        then have d': "d' = d\<lparr>sd_edit_in_flight := True\<rparr>" "a = Some (EditShown m (seg_content g))"
          using False assms(3) Some \<open>active_segment ?r = Some g\<close> same by (auto simp: next_display_action_def)
        have "mode_live d T P" using assms(1) Some same by (auto simp: in_view_def mode_empty_def mode_plain_def)
        then have "mode_live d' (T @ [EditShown m (seg_content g)]) P"
          using Some same no p unfolding d' by (auto simp: mode_live_def piece_def)
        then show ?thesis using assms(1,2) False Some same unfolding d'(2)
          by (simp add: in_view_def settled_def d'(1))
      qed
    qed
  qed
qed

text \<open>The text grows.\<close>

lemma fitting_mono: "length a \<le> length b \<Longrightarrow> fitting l a \<le> fitting l b"
  by (auto simp: fitting_def split: option.split)

lemma grow_in_view:
  assumes "in_view d T P" "prefix (chars (sd_latest d)) (chars t)"
  shows "in_view (d\<lparr>sd_latest := t\<rparr>) T P"
proof -
  let ?d = "d\<lparr>sd_latest := t\<rparr>"
  from assms(2) obtain zs where zs: "chars t = chars (sd_latest d) @ zs" by (auto simp: prefix_def)
  have c: "sd_committed d \<le> length (chars (sd_latest d))" using assms(1) by (simp add: in_view_def)
  then have r: "rest ?d = rest d @ zs" and ct: "committed_text ?d = committed_text d"
    using zs by (simp_all add: display_views)
  have f: "fitting (sd_limit d) (rest d) \<le> fitting (sd_limit d) (rest d @ zs)" by (rule fitting_mono) simp
  have p: "piece ?d u" if "piece d u" for u
  proof -
    from that obtain k where k: "k \<le> fitting (sd_limit d) (rest d)" "u = concat (take k (rest d))" by (auto simp: piece_def)
    moreover have "k \<le> length (rest d)" using k(1) fitting_le le_trans by blast
    ultimately show ?thesis using f unfolding piece_def r by (intro exI[of _ k]) simp
  qed
  have "mode_empty d T P \<Longrightarrow> mode_empty ?d T P" using p by (auto simp: mode_empty_def ct)
  moreover have "mode_plain d T P \<Longrightarrow> mode_plain ?d T P" using p by (auto simp: mode_plain_def ct)
  moreover have "mode_live d T P \<Longrightarrow> mode_live ?d T P" using p by (cases "sd_edit_in_flight d") (auto simp: mode_live_def ct)
  ultimately show ?thesis using assms(1) c zs by (auto simp: in_view_def)
qed

text \<open>A message fits into the channel.\<close>

definition within :: "nat option \<Rightarrow> rstr \<Rightarrow> bool" where
  "within limit s \<longleftrightarrow> (case limit of None \<Rightarrow> True | Some l \<Rightarrow> char_count s \<le> l)"

lemma piece_within: "piece d s \<Longrightarrow> within (sd_limit d) s"
proof -
  assume "piece d s"
  then obtain k where k: "k \<le> fitting (sd_limit d) (rest d)" "s = concat (take k (rest d))" by (auto simp: piece_def)
  then have "k \<le> length (rest d)" using fitting_le le_trans by blast
  then have "char_count s = k" using k(2) char_count_take_drop[of k "sd_latest d" "sd_committed d"] by (simp add: rest_def)
  then show ?thesis using k(1) by (auto simp: within_def fitting_def split: option.split)
qed

definition all_within :: "nat option \<Rightarrow> (rstr option \<times> rstr) list \<Rightarrow> bool" where
  "all_within limit P \<longleftrightarrow> (\<forall>p\<in>set P. within limit (snd p))"

lemma all_within_append [simp]: "all_within limit (P @ Q) \<longleftrightarrow> all_within limit P \<and> all_within limit Q"
  by (auto simp: all_within_def)

text \<open>Answers of the channel.\<close>

lemma sent_in_view:
  assumes "in_view d (SendInitial s # T) P"
  shows "case r of
      Inr i \<Rightarrow> (i \<noteq> None \<longrightarrow> i \<notin> fst ` set P) \<longrightarrow> in_view (fst (send_completed now s r d)) T (P @ [(i, s)])
    | Inl e \<Rightarrow> in_view (fst (send_completed now s r d)) T P"
proof -
  from assms have e: "sd_message_id d = None" "sd_displayed d = None" "\<not> sd_edit_in_flight d" "sd_send_in_flight d"
    "flat P = committed_text d" "piece d s" "T = []"
    by (auto simp: in_view_def mode_empty_def mode_plain_def mode_live_def split: if_splits)
  have base: "sd_committed d \<le> length (chars (sd_latest d))" "\<not> sd_terminal_failure d"
    using assms e by (auto simp: in_view_def)
  show ?thesis
  proof (cases r)
    case (Inl err)
    then have "mode_empty (fst (send_completed now s r d)) T P" using e by (simp add: send_completed_def mode_empty_def)
    then show ?thesis using Inl base e by (simp add: in_view_def send_completed_def)
  next
    case (Inr i)
    show ?thesis
    proof (cases i)
      case None
      then have "mode_plain (fst (send_completed now s r d)) T (P @ [(i, s)])" using e Inr
        by (simp add: send_completed_def mode_plain_def piece_def)
      then show ?thesis using Inr None base by (simp add: in_view_def send_completed_def)
    next
      case (Some m)
      then have "i \<notin> fst ` set P \<Longrightarrow> mode_live (fst (send_completed now s r d)) T (P @ [(i, s)])" using e Inr
        by (simp add: send_completed_def mode_live_def piece_def)
      then show ?thesis using Inr Some base by (simp add: in_view_def send_completed_def)
    qed
  qed
qed

lemma edited_in_view:
  assumes "in_view d (EditShown m s # T) P"
  shows "in_view (fst (edit_completed now s r d)) T (if is_ok r then post_edit m s P else P)"
proof -
  from assms obtain s0 ps where e: "sd_message_id d = Some m" "sd_displayed d = Some s0" "\<not> sd_send_in_flight d" "sd_edit_in_flight d"
    "P = ps @ [(Some m, s0)]" "Some m \<notin> fst ` set ps" "flat ps = committed_text d" "piece d s" "piece d s0" "T = []"
    by (auto simp: in_view_def mode_empty_def mode_plain_def mode_live_def split: if_splits)
  have base: "sd_committed d \<le> length (chars (sd_latest d))" "\<not> sd_terminal_failure d"
    using assms e by (auto simp: in_view_def)
  have "map (\<lambda>(i, shown). if i = Some m then (i, s) else (i, shown)) ps = ps"
    using e(6) by (intro map_idI) (auto split: prod.splits simp: image_iff)
  then have "post_edit m s P = ps @ [(Some m, s)]" using e(5) by (simp add: post_edit_def)
  then have "mode_live (fst (edit_completed now s r d)) T (if is_ok r then post_edit m s P else P)" using e
    by (cases r) (simp_all add: edit_completed_def mode_live_def piece_def)
  then show ?thesis using base e(3) by (cases r) (simp_all add: in_view_def edit_completed_def)
qed

section \<open>Runs\<close>

text \<open>A run in which the text only grows, up to the text that is finalized.\<close>

fun grows :: "stream_event \<Rightarrow> stream_sys \<Rightarrow> bool" where
  "grows (EvText content now) x = prefix (chars (sd_latest (st_display x))) (chars content)"
| "grows (EvFinalize content now) x = prefix (chars (sd_latest (st_display x))) (chars content)"
| "grows _ x = True"

fun growing_run :: "stream_event list \<Rightarrow> stream_sys \<Rightarrow> stream_sys option" where
  "growing_run [] x = Some x"
| "growing_run (e # es) x = (if grows e x then Option.bind (stream_step e x) (growing_run es) else None)"

definition stream_inv :: "nat option \<Rightarrow> stream_sys \<Rightarrow> bool" where
  "stream_inv limit x \<longleftrightarrow>
     (let d = st_display x
      in sd_limit d = limit \<and> (\<forall>c. st_final x = Some c \<longrightarrow> sd_latest d = c \<and> sd_finalized d) \<and>
         (case st_result x of
            None \<Rightarrow> in_view d (st_tasks x) (st_posted x) \<and> settled d \<and> all_within limit (st_posted x)
          | Some r \<Rightarrow> st_tasks x = [] \<and> st_final x \<noteq> None \<and> (r = Inr () \<longrightarrow> flat (st_posted x) = sd_latest d)))"

lemma next_action_keeps:
  assumes "next_display_action now d = (d', a)"
  shows "sd_limit d' = sd_limit d" "sd_latest d' = sd_latest d" "sd_finalized d' = sd_finalized d"
proof -
  have "sd_limit (try_rollover d) = sd_limit d \<and> sd_latest (try_rollover d) = sd_latest d \<and>
      sd_finalized (try_rollover d) = sd_finalized d"
    by (auto simp: try_rollover_def split: option.splits)
  then show "sd_limit d' = sd_limit d" "sd_latest d' = sd_latest d" "sd_finalized d' = sd_finalized d"
    using assms by (auto simp: next_display_action_def Let_def split: if_splits option.splits)
qed

lemma stream_next_inv:
  assumes "stream_inv limit x" "st_result x = None"
  shows "stream_inv limit (stream_next now x)"
proof -
  obtain d' a where a: "next_display_action now (st_display x) = (d', a)" by fastforce
  have "in_view (st_display x) (st_tasks x) (st_posted x)" "settled (st_display x)"
    using assms by (simp_all add: stream_inv_def Let_def)
  from next_action_in_view[OF this a] have "in_view d' (case a of None \<Rightarrow> st_tasks x | Some y \<Rightarrow> st_tasks x @ [y]) (st_posted x)" "settled d'"
    by auto
  then show ?thesis using assms next_action_keeps[OF a]
    by (auto simp: stream_inv_def stream_next_def a Let_def split: option.splits)
qed

lemma grow_inv:
  assumes "stream_inv limit x" "st_final x = None" "prefix (chars (sd_latest (st_display x))) (chars t)"
  shows "stream_inv limit (x\<lparr>st_display := (st_display x)\<lparr>sd_latest := t\<rparr>\<rparr>)"
    "stream_inv limit (x\<lparr>st_display := (st_display x)\<lparr>sd_latest := t, sd_finalized := True\<rparr>, st_final := Some t\<rparr>)"
proof -
  have r: "st_result x = None" using assms(1,2) by (auto simp: stream_inv_def Let_def split: option.splits)
  then have i: "in_view ((st_display x)\<lparr>sd_latest := t\<rparr>) (st_tasks x) (st_posted x)"
    using assms(1,3) by (intro grow_in_view) (simp_all add: stream_inv_def Let_def)
  then show "stream_inv limit (x\<lparr>st_display := (st_display x)\<lparr>sd_latest := t\<rparr>\<rparr>)"
    using assms r by (simp add: stream_inv_def Let_def settled_def)
  have "in_view ((st_display x)\<lparr>sd_latest := t, sd_finalized := True\<rparr>) (st_tasks x) (st_posted x)"
    using i by (simp add: in_view_def mode_empty_def mode_plain_def mode_live_def piece_def display_views cong: if_cong)
  then show "stream_inv limit (x\<lparr>st_display := (st_display x)\<lparr>sd_latest := t, sd_finalized := True\<rparr>, st_final := Some t\<rparr>)"
    using assms r by (simp add: stream_inv_def Let_def settled_def)
qed

lemma poll_done_shown:
  assumes "in_view d T P" "settled d" "poll_display (sd_latest d) d = PollDone r"
  shows "T = [] \<and> (r = Inr () \<longrightarrow> flat P = sd_latest d)"
proof -
  from assms(3) have idle: "\<not> sd_send_in_flight d" "\<not> sd_edit_in_flight d"
    by (auto simp: poll_display_def Let_def split: if_splits)
  then have T: "T = []" using assms(1) by (auto simp: in_view_def mode_empty_def mode_plain_def mode_live_def)
  have "flat P = sd_latest d" if "r = Inr ()"
  proof (cases "sd_committed d = char_count (sd_latest d)")
    case True
    then have "rest d = []" "committed_text d = sd_latest d" by (simp_all add: display_views char_count_def)
    moreover have "s = []" if "piece d s" for s using that \<open>rest d = []\<close> by (simp add: piece_def)
    ultimately show ?thesis using assms(1) idle by (auto simp: in_view_def mode_empty_def mode_plain_def mode_live_def)
  next
    case False
    let ?v = "fitting (sd_limit d) (rest d)"
    from assms(3) False that have seg: "sd_displayed d = Some (concat (take ?v (rest d)))"
      "sd_committed d + ?v = char_count (sd_latest d)"
      by (auto simp: poll_display_def Let_def active_segment_is split: if_splits option.splits)
    have "committed_text d @ concat (take ?v (rest d)) = concat (take (sd_committed d + ?v) (chars (sd_latest d)))"
      by (simp add: display_views take_add)
    also have "\<dots> = sd_latest d" using seg(2) by (simp add: char_count_def)
    finally show ?thesis using assms(1) seg(1) by (auto simp: in_view_def mode_empty_def mode_plain_def mode_live_def)
  qed
  then show ?thesis using T by simp
qed

lemma poll_fallback_nothing:
  assumes "in_view d T P" "settled d" "poll_display content d = PollFallback"
  shows "T = [] \<and> flat P = []"
proof -
  from assms(3) have e: "\<not> sd_send_in_flight d" "\<not> sd_edit_in_flight d" "sd_message_id d = None" "sd_displayed d = None"
    "\<not> (sd_terminal_failure d \<and> sd_error d \<noteq> None \<and> 0 < sd_committed d)"
    by (auto simp: poll_display_def Let_def split: if_splits)
  then have "sd_committed d = 0" using assms(1,2) by (auto simp: in_view_def settled_def)
  then have "committed_text d = []" by (simp add: committed_text_def)
  then show ?thesis using assms(1) e by (auto simp: in_view_def mode_empty_def mode_plain_def mode_live_def)
qed

lemma completed_eqs [simp]:
  "fst (send_completed now s (Inl e) d) =
     d\<lparr>sd_send_in_flight := False, sd_error := Some (error_to_string e), sd_terminal_failure := True\<rparr>"
  "fst (send_completed now s (Inr None) d) = d\<lparr>sd_send_in_flight := False, sd_displayed := Some s, sd_error := None\<rparr>"
  "fst (send_completed now s (Inr (Some m)) d) =
     d\<lparr>sd_send_in_flight := False, sd_message_id := Some m, sd_displayed := Some s, sd_last_edit := now, sd_error := None\<rparr>"
  "fst (edit_completed now s (Inl e) d) =
     d\<lparr>sd_edit_in_flight := False, sd_error := Some (error_to_string e), sd_terminal_failure := True\<rparr>"
  "fst (edit_completed now s (Inr u) d) =
     d\<lparr>sd_edit_in_flight := False, sd_displayed := Some s, sd_last_edit := now, sd_error := None\<rparr>"
  by (simp_all add: send_completed_def edit_completed_def)

lemma settled_sent: "settled (fst (send_completed now s r d))"
proof (cases r)
  case (Inr i)
  then show ?thesis by (cases i) (simp_all add: settled_def)
qed (simp add: settled_def)

lemma settled_edited: "settled (fst (edit_completed now s r d))"
  by (cases r) (simp_all add: settled_def)

lemma completed_keeps:
  "sd_limit (fst (send_completed now s r d)) = sd_limit d" "sd_latest (fst (send_completed now s r d)) = sd_latest d"
  "sd_finalized (fst (send_completed now s r d)) = sd_finalized d"
proof -
  have "sd_limit (fst (send_completed now s r d)) = sd_limit d \<and> sd_latest (fst (send_completed now s r d)) = sd_latest d \<and>
      sd_finalized (fst (send_completed now s r d)) = sd_finalized d"
  proof (cases r)
    case (Inr i)
    then show ?thesis by (cases i) simp_all
  qed simp
  then show "sd_limit (fst (send_completed now s r d)) = sd_limit d" "sd_latest (fst (send_completed now s r d)) = sd_latest d"
    "sd_finalized (fst (send_completed now s r d)) = sd_finalized d" by simp_all
qed

lemma edited_keeps:
  "sd_limit (fst (edit_completed now s r' d)) = sd_limit d" "sd_latest (fst (edit_completed now s r' d)) = sd_latest d"
  "sd_finalized (fst (edit_completed now s r' d)) = sd_finalized d"
  by (cases r'; simp)+

lemma sent_inv:
  assumes inv: "stream_inv limit x" and step: "stream_step (EvSent now r) x = Some y"
  shows "stream_inv limit y"
proof -
  from step obtain s T where T: "st_tasks x = SendInitial s # T"
    by (auto split: list.splits display_action.splits)
  then have res: "st_result x = None" using inv by (auto simp: stream_inv_def Let_def split: option.splits)
  then have v: "in_view (st_display x) (SendInitial s # T) (st_posted x)" using inv T by (simp add: stream_inv_def Let_def)
  then have "piece (st_display x) s" by (auto simp: in_view_def mode_empty_def mode_plain_def mode_live_def split: if_splits)
  then have w: "within limit s" using piece_within inv by (fastforce simp: stream_inv_def Let_def)
  show ?thesis
  proof (cases r)
    case (Inl e)
    then show ?thesis using inv step T res sent_in_view[OF v, of now r] settled_sent[of now s r "st_display x"]
      by (auto simp: stream_inv_def Let_def completed_keeps)
  next
    case (Inr i)
    then show ?thesis using inv step T res w sent_in_view[OF v, of now r] settled_sent[of now s r "st_display x"]
      by (auto simp: stream_inv_def Let_def completed_keeps all_within_def split: if_splits)
  qed
qed

lemma edited_inv:
  assumes inv: "stream_inv limit x" and step: "stream_step (EvEdited now r) x = Some y"
  shows "stream_inv limit y"
proof -
  from step obtain m s T where T: "st_tasks x = EditShown m s # T"
    and y: "y = x\<lparr>st_display := fst (edit_completed now s r (st_display x)), st_tasks := T,
      st_posted := (if is_ok r then post_edit m s (st_posted x) else st_posted x)\<rparr>"
    by (auto split: list.splits display_action.splits)
  then have res: "st_result x = None" using inv by (auto simp: stream_inv_def Let_def split: option.splits)
  then have v: "in_view (st_display x) (EditShown m s # T) (st_posted x)" using inv T by (simp add: stream_inv_def Let_def)
  then have p: "piece (st_display x) s" "sd_message_id (st_display x) \<noteq> None"
    by (auto simp: in_view_def mode_empty_def mode_plain_def mode_live_def split: if_splits)
  then have w: "within limit s" using piece_within inv by (fastforce simp: stream_inv_def Let_def)
  then have "all_within limit (post_edit m s (st_posted x))"
    using inv res by (auto simp: stream_inv_def Let_def all_within_def post_edit_def)
  then show ?thesis using inv res edited_in_view[OF v, of now r] settled_edited[of now s r "st_display x"] unfolding y
    by (auto simp: stream_inv_def Let_def edited_keeps)
qed

lemma poll_inv:
  assumes inv: "stream_inv limit x" and step: "stream_step (EvPoll sent) x = Some y"
  shows "stream_inv limit y"
proof -
  from step obtain c where c: "st_final x = Some c" "st_result x = None" by (auto split: option.splits if_splits)
  then have v: "in_view (st_display x) (st_tasks x) (st_posted x)" "settled (st_display x)" "sd_latest (st_display x) = c"
    using inv by (simp_all add: stream_inv_def Let_def)
  show ?thesis
  proof (cases "poll_display c (st_display x)")
    case (PollDone r)
    then show ?thesis using inv step c v poll_done_shown[OF v(1,2), of r] by (auto simp: stream_inv_def Let_def)
  next
    case PollFallback
    then show ?thesis using inv step c v poll_fallback_nothing[OF v(1,2), of c] by (auto simp: stream_inv_def Let_def)
  next
    case PollWait
    then show ?thesis using inv step c by simp
  qed
qed

lemma stream_step_inv:
  assumes "stream_inv limit x" "grows e x" "stream_step e x = Some y"
  shows "stream_inv limit y"
proof (cases e)
  case (EvText content now)
  then have f: "st_final x = None" and y: "y = stream_next now (x\<lparr>st_display := (st_display x)\<lparr>sd_latest := content\<rparr>\<rparr>)"
    using assms(3) by (auto split: if_splits)
  from f have "st_result x = None" using assms(1) by (auto simp: stream_inv_def Let_def split: option.splits)
  then show ?thesis unfolding y using grow_inv(1)[OF assms(1) f] assms(2) EvText by (intro stream_next_inv) simp_all
next
  case (EvNext now)
  then show ?thesis using assms stream_next_inv by (auto split: if_splits)
next
  case (EvSent now r)
  then show ?thesis using assms sent_inv by blast
next
  case (EvEdited now r)
  then show ?thesis using assms edited_inv by blast
next
  case (EvFinalize content now)
  then have f: "st_final x = None" and y: "y = stream_next now
      (x\<lparr>st_display := (st_display x)\<lparr>sd_latest := content, sd_finalized := True\<rparr>, st_final := Some content\<rparr>)"
    using assms(3) by (auto split: if_splits)
  from f have "st_result x = None" using assms(1) by (auto simp: stream_inv_def Let_def split: option.splits)
  then show ?thesis unfolding y using grow_inv(2)[OF assms(1) f] assms(2) EvFinalize by (intro stream_next_inv) simp_all
next
  case (EvPoll sent)
  then show ?thesis using assms poll_inv by blast
qed

lemma stream_start_inv: "stream_inv limit (stream_start limit now)"
  by (simp add: stream_inv_def stream_start_def streaming_new_def in_view_def mode_empty_def settled_def
      display_views all_within_def)

lemma growing_run_inv: "growing_run es x = Some y \<Longrightarrow> stream_inv limit x \<Longrightarrow> stream_inv limit y"
  by (induction es arbitrary: x) (auto split: if_splits bind_splits intro: stream_step_inv)

lemma growing_run_is_run: "growing_run es x = Some y \<Longrightarrow> stream_run es x = Some y"
  by (induction es arbitrary: x) (auto split: if_splits bind_splits)

lemma in_view_prefix: "in_view d T P \<Longrightarrow> prefix (flat P) (sd_latest d)"
proof -
  assume v: "in_view d T P"
  have whole: "committed_text d @ concat (rest d) = sd_latest d"
    by (simp add: display_views concat_take_drop)
  have "prefix (committed_text d @ u) (sd_latest d)" if "piece d u" for u
  proof -
    from that obtain k where "u = concat (take k (rest d))" by (auto simp: piece_def)
    then have "concat (rest d) = u @ concat (drop k (rest d))" by (simp add: concat_take_drop)
    then show ?thesis using whole by (metis append.assoc prefixI)
  qed
  moreover have "prefix (committed_text d) (sd_latest d)" using whole by (metis prefixI)
  ultimately show ?thesis using v by (auto simp: in_view_def mode_empty_def mode_plain_def mode_live_def)
qed

lemma option_view: "map_option (\<lambda>x. (f x, g x)) r = Some (a, b) \<Longrightarrow> \<exists>x. r = Some x \<and> f x = a \<and> g x = b"
  by auto

lemma option_view4: "map_option (\<lambda>x. ((f x, g x), (h x, k x))) r = Some ((a, b), (c, d)) \<Longrightarrow>
    \<exists>x. r = Some x \<and> f x = a \<and> g x = b \<and> h x = c \<and> k x = d"
  by auto

lemma stream_run_append: "stream_run (es @ fs) x = Option.bind (stream_run es x) (stream_run fs)"
proof (induction es arbitrary: x)
  case (Cons e es)
  then show ?case by (cases "stream_step e x") (simp_all del: stream_step.simps)
qed simp

text \<open>
  C27. The channel shows the reply: in every run in which the text only grows, whatever the
  channel answers and in whatever order, the messages of the channel together are always a start
  of the text so far and each fits into the channel's limit; and if the finalization succeeds, the
  messages together are exactly the final text.
\<close>

theorem streamed_text_is_shown:
  assumes "growing_run es (stream_start limit now) = Some x"
  shows "(st_result x = None \<longrightarrow> prefix (flat (st_posted x)) (sd_latest (st_display x)) \<and> all_within limit (st_posted x)) \<and>
    (st_result x = Some (Inr ()) \<longrightarrow> st_final x = Some (flat (st_posted x)))"
proof -
  have "stream_inv limit x" by (rule growing_run_inv[OF assms stream_start_inv])
  then show ?thesis using in_view_prefix by (fastforce simp: stream_inv_def Let_def)
qed

theorem streamed_text_is_shown_witness:
  "\<exists>x. growing_run [EvText ''ab'' 0, EvText ''abcd'' 1, EvSent 2 (Inr (Some ''m'')), EvNext 2, EvFinalize ''abcde'' 3,
        EvEdited 4 (Inr ()), EvNext 4, EvSent 5 (Inr (Some ''n'')), EvNext 5, EvPoll (Inr ())] (stream_start (Some 3) 0) = Some x \<and>
     st_result x = Some (Inr ()) \<and> map snd (st_posted x) = [''abc'', ''de''] \<and> st_final x = Some (flat (st_posted x))"
proof -
  let ?es = "[EvText ''ab'' 0, EvText ''abcd'' 1, EvSent 2 (Inr (Some ''m'')), EvNext 2, EvFinalize ''abcde'' 3,
        EvEdited 4 (Inr ()), EvNext 4, EvSent 5 (Inr (Some ''n'')), EvNext 5, EvPoll (Inr ())]"
  have "map_option (\<lambda>x. (st_result x, map snd (st_posted x))) (growing_run ?es (stream_start (Some 3) 0)) =
      Some (Some (Inr ()), [''abc'', ''de''])" by code_simp
  from option_view[OF this] obtain x where x: "growing_run ?es (stream_start (Some 3) 0) = Some x" "st_result x = Some (Inr ())"
    "map snd (st_posted x) = [''abc'', ''de'']" by (elim exE conjE)
  from streamed_text_is_shown[OF x(1)] x(2) have "st_final x = Some (flat (st_posted x))" by blast
  then show ?thesis by (intro exI[of _ x] conjI x)
qed

section \<open>Finalization finishes\<close>

definition healthy :: "streaming_display \<Rightarrow> bool" where
  "healthy d \<longleftrightarrow> \<not> sd_terminal_failure d \<and> (sd_displayed d \<noteq> None \<longrightarrow> sd_message_id d \<noteq> None)"

text \<open>
  One round: the channel answers the pending call well, the next action is looked for and the
  loop looks. What is left is measured by the characters that are not committed and the kind of
  the pending call.
\<close>

definition stream_round :: "int \<times> rstr \<Rightarrow> stream_sys \<Rightarrow> stream_sys option" where
  "stream_round r x =
     (case r of (now, i) \<Rightarrow>
        Option.bind (case st_tasks x of
             [] \<Rightarrow> Some x
           | SendInitial _ # _ \<Rightarrow> stream_step (EvSent now (Inr (Some i))) x
           | EditShown _ _ # _ \<Rightarrow> stream_step (EvEdited now (Inr ())) x)
          (\<lambda>x. Option.bind (stream_step (EvNext now) x) (stream_step (EvPoll (Inr ())))))"

fun stream_rounds :: "(int \<times> rstr) list \<Rightarrow> stream_sys \<Rightarrow> stream_sys option" where
  "stream_rounds [] x = Some x"
| "stream_rounds (r # rs) x =
     (if st_result x \<noteq> None then Some x else Option.bind (stream_round r x) (stream_rounds rs))"

definition pending_weight :: "streaming_display \<Rightarrow> display_action list \<Rightarrow> nat" where
  "pending_weight d T =
     (case T of
        [] \<Rightarrow> 3
      | EditShown m s # _ \<Rightarrow> if s = concat (take (fitting (sd_limit d) (rest d)) (rest d)) then 1 else 2
      | SendInitial s # _ \<Rightarrow> 2)"

definition left_over :: "stream_sys \<Rightarrow> nat" where
  "left_over x = 3 * length (rest (st_display x)) + pending_weight (st_display x) (st_tasks x)"

lemma fitting_pos: "limit \<noteq> Some 0 \<Longrightarrow> cs \<noteq> [] \<Longrightarrow> 0 < fitting limit cs"
  by (auto simp: fitting_def split: option.splits)

lemma try_rollover_same: "sd_displayed d = None \<Longrightarrow> try_rollover d = d"
  by (auto simp: try_rollover_def split: option.splits)

text \<open>Looking for the next action when nothing is pending: everything is shown, or something is done.\<close>

lemma idle_next:
  assumes v: "in_view d [] P" and "settled d" "healthy d" "sd_finalized d" "sd_limit d \<noteq> Some 0"
    and nxt: "next_display_action now d = (d', a)"
  shows "healthy d' \<and> (case a of
       None \<Rightarrow> poll_display (sd_latest d) d' = PollDone (Inr ())
     | Some act \<Rightarrow> 3 * length (rest d') + pending_weight d' [act] \<le>
         3 * length (rest d) +
         (if sd_message_id d \<noteq> None \<and> sd_displayed d \<noteq> Some (concat (take (fitting (sd_limit d) (rest d)) (rest d))) then 1
          else if sd_message_id d \<noteq> None then 0 else 2))"
proof (cases "sd_message_id d")
  case None
  then have e: "sd_displayed d = None" "\<not> sd_send_in_flight d" "\<not> sd_edit_in_flight d" "\<not> sd_terminal_failure d"
    using v assms(3) by (auto simp: in_view_def mode_empty_def mode_plain_def mode_live_def healthy_def split: if_splits)
  then have z: "sd_committed d = 0" "\<not> sd_send_attempted d" using assms(2) None by (auto simp: settled_def)
  show ?thesis
  proof (cases "sd_latest d = []")
    case True
    then have "d' = d" "a = None" using nxt by (auto simp: next_display_action_def)
    then show ?thesis using True assms(3) e z by (simp add: poll_display_def char_count_def)
  next
    case False
    then have r: "rest d \<noteq> []" using z by (simp add: rest_def)
    then have "d' = d\<lparr>sd_send_attempted := True, sd_send_in_flight := True\<rparr>"
      "a = Some (SendInitial (concat (take (fitting (sd_limit d) (rest d)) (rest d))))"
      using nxt False e z None by (auto simp: next_display_action_def try_rollover_same active_segment_is)
    then show ?thesis using assms(3) None by (simp add: healthy_def pending_weight_def)
  qed
next
  case (Some m)
  let ?v = "fitting (sd_limit d) (rest d)"
  let ?seg = "concat (take ?v (rest d))"
  have e: "\<not> sd_send_in_flight d" "\<not> sd_edit_in_flight d" "\<not> sd_terminal_failure d"
    and c: "sd_committed d \<le> length (chars (sd_latest d))"
    using v assms(3) Some by (auto simp: in_view_def mode_empty_def mode_plain_def mode_live_def healthy_def split: if_splits)
  have count: "char_count (sd_latest d) = sd_committed d + length (rest d)" using c by (simp add: char_count_def rest_def)
  show ?thesis
  proof (cases "rest d = []")
    case True
    then have "try_rollover d = d" "active_segment d = None" by (simp_all add: try_rollover_def active_segment_is)
    then have "next_display_action now d = (d, None)" by (simp add: next_display_action_def)
    then have "d' = d" "a = None" using nxt by simp_all
    then show ?thesis using True assms(3) e count by (simp add: poll_display_def)
  next
    case ne: False
    then have "sd_latest d \<noteq> []" by (auto simp: rest_def)
    note seg = active_segment_is[of d] ne
    show ?thesis
    proof (cases "sd_displayed d = Some ?seg")
      case False
      then have "try_rollover d = d" using seg by (simp add: try_rollover_def)
      then have "d' = d\<lparr>sd_edit_in_flight := True\<rparr>" "a = Some (EditShown m ?seg)"
        using nxt \<open>sd_latest d \<noteq> []\<close> e Some False assms(4) seg by (auto simp: next_display_action_def)
      then show ?thesis using assms(3) Some False by (simp add: healthy_def pending_weight_def)
    next
      case shown: True
      show ?thesis
      proof (cases "?v < length (rest d)")
        case False
        then have "?v = length (rest d)" using fitting_le le_antisym not_less by blast
        moreover have "try_rollover d = d" using False seg by (simp add: try_rollover_def)
        then have "d' = d" "a = None" using nxt \<open>sd_latest d \<noteq> []\<close> e Some shown seg by (auto simp: next_display_action_def)
        ultimately show ?thesis using assms(3) e count shown seg by (simp add: poll_display_def)
      next
        case True
        let ?d = "d\<lparr>sd_committed := sd_committed d + ?v, sd_displayed := None, sd_message_id := None,
          sd_send_attempted := False, sd_error := None\<rparr>"
        have roll: "try_rollover d = ?d" using True seg e shown by (simp add: try_rollover_def)
        have r: "rest ?d = drop ?v (rest d)" by (simp add: display_views add.commute)
        then have "rest ?d \<noteq> []" using True by simp
        then obtain s where "d' = ?d\<lparr>sd_send_attempted := True, sd_send_in_flight := True\<rparr>" "a = Some (SendInitial s)"
          using nxt \<open>sd_latest d \<noteq> []\<close> e roll by (auto simp: next_display_action_def active_segment_is[of ?d])
        moreover have "0 < ?v" using assms(5) ne by (rule fitting_pos)
        ultimately show ?thesis using assms(3) Some shown True r by (simp add: healthy_def pending_weight_def)
      qed
    qed
  qed
qed

lemma stream_next_idle:
  assumes inv: "stream_inv limit x" and x: "st_tasks x = []" "st_result x = None" "st_final x = Some content"
    and h: "healthy (st_display x)" and lim: "limit \<noteq> Some 0"
  shows "healthy (st_display (stream_next now x)) \<and>
     (if st_tasks (stream_next now x) = [] then poll_display content (st_display (stream_next now x)) = PollDone (Inr ())
      else left_over (stream_next now x) \<le> 3 * length (rest (st_display x)) +
        (if sd_message_id (st_display x) \<noteq> None \<and> sd_displayed (st_display x) \<noteq>
            Some (concat (take (fitting limit (rest (st_display x))) (rest (st_display x)))) then 1
         else if sd_message_id (st_display x) \<noteq> None then 0 else 2))"
proof -
  let ?d = "st_display x"
  obtain d' a where a: "next_display_action now ?d = (d', a)" by fastforce
  have "in_view ?d [] (st_posted x)" "settled ?d" "sd_finalized ?d" "sd_limit ?d = limit" "sd_latest ?d = content"
    using inv x by (simp_all add: stream_inv_def Let_def)
  then show ?thesis using idle_next[of ?d "st_posted x" now d' a] h lim a x
    by (auto simp: stream_next_def left_over_def split: option.splits)
qed

lemma stream_next_busy:
  assumes inv: "stream_inv limit x" and x: "st_tasks x \<noteq> []" "st_result x = None"
  shows "stream_next now x = x"
proof -
  let ?d = "st_display x"
  have v: "in_view ?d (st_tasks x) (st_posted x)" using inv x by (simp add: stream_inv_def Let_def)
  then have "sd_send_in_flight ?d \<or> sd_edit_in_flight ?d"
    using x(1) by (auto simp: in_view_def mode_empty_def mode_plain_def mode_live_def split: if_splits)
  moreover have "try_rollover ?d = ?d" using calculation by (auto simp: try_rollover_def)
  moreover have "sd_send_in_flight ?d \<Longrightarrow> sd_message_id ?d = None" "sd_edit_in_flight ?d \<Longrightarrow> sd_message_id ?d \<noteq> None"
    using v by (auto simp: in_view_def mode_empty_def mode_plain_def mode_live_def)
  ultimately have "next_display_action now ?d = (?d, None)"
    by (auto simp: next_display_action_def Let_def split: option.splits)
  then show ?thesis by (simp add: stream_next_def)
qed

text \<open>A pending call that is answered well.\<close>

lemma answered_step:
  assumes inv: "stream_inv limit x" and x: "st_result x = None" "st_final x = Some content"
    and h: "healthy (st_display x)" and i: "Some i \<notin> fst ` set (st_posted x)"
    and y: "(case st_tasks x of [] \<Rightarrow> Some x | SendInitial _ # _ \<Rightarrow> stream_step (EvSent now (Inr (Some i))) x
       | EditShown _ _ # _ \<Rightarrow> stream_step (EvEdited now (Inr ())) x) = Some y"
  shows "stream_inv limit y \<and> st_tasks y = [] \<and> st_result y = None \<and> st_final y = Some content \<and> healthy (st_display y) \<and>
     rest (st_display y) = rest (st_display x) \<and> fst ` set (st_posted y) \<subseteq> insert (Some i) (fst ` set (st_posted x)) \<and>
     (st_tasks x = [] \<or> sd_message_id (st_display y) \<noteq> None \<and>
       (pending_weight (st_display x) (st_tasks x) = 1 \<longrightarrow> sd_displayed (st_display y) =
          Some (concat (take (fitting limit (rest (st_display x))) (rest (st_display x))))))"
proof -
  have v: "in_view (st_display x) (st_tasks x) (st_posted x)" "sd_limit (st_display x) = limit"
    using inv x by (simp_all add: stream_inv_def Let_def)
  show ?thesis
  proof (cases "st_tasks x")
    case Nil
    then show ?thesis using assms by auto
  next
    case (Cons act T)
    then have T: "T = []" using v by (auto simp: in_view_def mode_empty_def mode_plain_def mode_live_def split: if_splits)
    show ?thesis
    proof (cases act)
      case (SendInitial s)
      then have st: "stream_step (EvSent now (Inr (Some i))) x = Some y" using y Cons by simp
      then have "stream_inv limit y" by (rule sent_inv[OF inv])
      then show ?thesis using st Cons SendInitial T x h i
        by (auto simp: healthy_def pending_weight_def)
    next
      case (EditShown m s)
      then have st: "stream_step (EvEdited now (Inr ())) x = Some y" using y Cons by simp
      then have "stream_inv limit y" by (rule edited_inv[OF inv])
      moreover have "sd_message_id (st_display x) = Some m"
        using v Cons EditShown by (auto simp: in_view_def mode_empty_def mode_plain_def mode_live_def split: if_splits)
      moreover have "map fst (post_edit m s (st_posted x)) = map fst (st_posted x)"
        by (simp add: post_edit_def case_prod_beta)
      then have "fst ` set (post_edit m s (st_posted x)) \<subseteq> insert (Some i) (fst ` set (st_posted x))"
        by (metis set_map subset_insertI)
      moreover have "y = x\<lparr>st_display := (st_display x)\<lparr>sd_edit_in_flight := False, sd_displayed := Some s, sd_last_edit := now,
          sd_error := None\<rparr>, st_tasks := [], st_posted := post_edit m s (st_posted x)\<rparr>"
        using st Cons EditShown T by simp
      ultimately show ?thesis using Cons EditShown T x h v(2)
        by (simp add: healthy_def pending_weight_def)
    qed
  qed
qed

lemma round_progress:
  assumes inv: "stream_inv limit x" and x: "st_result x = None" "st_final x = Some content"
    and h: "healthy (st_display x)" and lim: "limit \<noteq> Some 0" and i: "Some i \<notin> fst ` set (st_posted x)"
  shows "\<exists>y. stream_round (now, i) x = Some y \<and> stream_inv limit y \<and> st_final y = Some content \<and>
     (st_result y = Some (Inr ()) \<or>
      st_result y = None \<and> healthy (st_display y) \<and> left_over y < left_over x \<and>
      fst ` set (st_posted y) \<subseteq> insert (Some i) (fst ` set (st_posted x)))"
proof -
  let ?answer = "case st_tasks x of [] \<Rightarrow> Some x | SendInitial _ # _ \<Rightarrow> stream_step (EvSent now (Inr (Some i))) x
       | EditShown _ _ # _ \<Rightarrow> stream_step (EvEdited now (Inr ())) x"
  have "\<exists>z. ?answer = Some z"
  proof (cases "st_tasks x")
    case (Cons act T)
    then show ?thesis using i by (cases act) simp_all
  qed simp
  then obtain z where z: "?answer = Some z" ..
  note a = answered_step[OF inv x h i z]
  let ?y = "stream_next now z"
  have inv_y: "stream_inv limit ?y" using a by (intro stream_next_inv) auto
  have keep: "st_result ?y = None" "st_final ?y = Some content" "st_posted ?y = st_posted z"
    using a by (auto simp: stream_next_def split: prod.splits option.splits)
  have lat: "sd_latest (st_display ?y) = content" using inv_y keep by (simp add: stream_inv_def Let_def)
  have step: "stream_round (now, i) x = stream_step (EvPoll (Inr ())) ?y"
    unfolding stream_round_def prod.case z using a by simp
  have "stream_inv limit z" "st_tasks z = []" "st_result z = None" "st_final z = Some content" "healthy (st_display z)"
    using a by auto
  note n = stream_next_idle[OF this lim, of now]
  show ?thesis
  proof (cases "st_tasks ?y = []")
    case True
    then have "stream_round (now, i) x = Some (?y\<lparr>st_result := Some (Inr ())\<rparr>)" using n step keep by simp
    moreover from this have "stream_inv limit (?y\<lparr>st_result := Some (Inr ())\<rparr>)" using step poll_inv[OF inv_y] by metis
    ultimately show ?thesis using keep by simp
  next
    case False
    have v: "in_view (st_display ?y) (st_tasks ?y) (st_posted ?y)" using inv_y keep by (simp add: stream_inv_def Let_def)
    then have "sd_send_in_flight (st_display ?y) \<or> sd_edit_in_flight (st_display ?y)"
      using False by (auto simp: in_view_def mode_empty_def mode_plain_def mode_live_def split: if_splits)
    then have "poll_display content (st_display ?y) = PollWait" by (auto simp: poll_display_def Let_def)
    then have y: "stream_round (now, i) x = Some ?y" using step keep by simp
    have less: "left_over ?y < left_over x"
    proof (cases "st_tasks x = []")
      case True
      then show ?thesis using n False a by (auto simp: left_over_def pending_weight_def split: if_splits)
    next
      case busy: False
      then have w: "pending_weight (st_display x) (st_tasks x) = 1 \<or> pending_weight (st_display x) (st_tasks x) = 2"
        by (auto simp: pending_weight_def split: list.split display_action.split)
      have lim_x: "sd_limit (st_display x) = limit" using inv by (simp add: stream_inv_def Let_def)
      from w show ?thesis
      proof
        assume w1: "pending_weight (st_display x) (st_tasks x) = 1"
        then have "sd_displayed (st_display z) = Some (concat (take (fitting limit (rest (st_display z))) (rest (st_display z))))"
          "sd_message_id (st_display z) \<noteq> None" using a busy by auto
        then show ?thesis using n False a w1 by (simp add: left_over_def)
      next
        assume w2: "pending_weight (st_display x) (st_tasks x) = 2"
        have "sd_message_id (st_display z) \<noteq> None" using a busy by auto
        then show ?thesis using n False a w2 by (simp add: left_over_def split: if_splits)
      qed
    qed
    then show ?thesis using y inv_y keep n a by auto
  qed
qed

lemma rounds_finish:
  "stream_inv limit x \<Longrightarrow> st_result x = None \<Longrightarrow> st_final x = Some content \<Longrightarrow> healthy (st_display x) \<Longrightarrow>
   limit \<noteq> Some 0 \<Longrightarrow> left_over x < length rs \<Longrightarrow> distinct (map snd rs) \<Longrightarrow>
   (\<forall>r\<in>set rs. Some (snd r) \<notin> fst ` set (st_posted x)) \<Longrightarrow>
   \<exists>y. stream_rounds rs x = Some y \<and> stream_inv limit y \<and> st_final y = Some content \<and> st_result y = Some (Inr ())"
proof (induction rs arbitrary: x)
  case (Cons r rs)
  obtain now i where r: "r = (now, i)" by fastforce
  have "Some i \<notin> fst ` set (st_posted x)" using Cons.prems(8) r by simp
  from round_progress[OF Cons.prems(1-5) this] obtain y where y: "stream_round (now, i) x = Some y" "stream_inv limit y"
    "st_final y = Some content"
    "st_result y = Some (Inr ()) \<or> st_result y = None \<and> healthy (st_display y) \<and> left_over y < left_over x \<and>
      fst ` set (st_posted y) \<subseteq> insert (Some i) (fst ` set (st_posted x))" by blast
  from y(4) show ?case
  proof
    assume fin: "st_result y = Some (Inr ())"
    then have "stream_rounds rs y = Some y" by (cases rs) simp_all
    then show ?thesis using y fin Cons.prems(2) r by simp
  next
    assume more: "st_result y = None \<and> healthy (st_display y) \<and> left_over y < left_over x \<and>
      fst ` set (st_posted y) \<subseteq> insert (Some i) (fst ` set (st_posted x))"
    have "\<forall>q\<in>set rs. Some (snd q) \<notin> fst ` set (st_posted y)"
    proof
      fix q assume q: "q \<in> set rs"
      then have "snd q \<noteq> i" using Cons.prems(7) r by (metis distinct.simps(2) imageI list.simps(9) set_map snd_conv)
      moreover have "Some (snd q) \<notin> fst ` set (st_posted x)" using Cons.prems(8) q by (meson list.set_intros(2))
      ultimately have "Some (snd q) \<notin> insert (Some i) (fst ` set (st_posted x))" by simp
      then show "Some (snd q) \<notin> fst ` set (st_posted y)" using more by blast
    qed
    then have "\<exists>y'. stream_rounds rs y = Some y' \<and> stream_inv limit y' \<and> st_final y' = Some content \<and> st_result y' = Some (Inr ())"
      using more y Cons.prems by (intro Cons.IH) auto
    then show ?thesis using y(1) Cons.prems(2) r by simp
  qed
qed simp

lemma left_over_bound: "stream_inv limit x \<Longrightarrow> st_final x = Some content \<Longrightarrow> left_over x \<le> 3 * char_count content + 3"
  by (auto simp: left_over_def pending_weight_def rest_def char_count_def stream_inv_def Let_def
      split: list.splits display_action.splits)

text \<open>
  C28. Finalization finishes: from any state that a run with a growing text reached without a
  failed call and in which the finalization waits, a channel that answers each call with a new
  identifier ends the loop with success after at most three rounds per character and four more,
  and then the channel shows exactly the final text.
\<close>

theorem finalization_finishes:
  assumes "growing_run es (stream_start limit t0) = Some x" and "st_final x = Some content" and "st_result x = None"
    and "healthy (st_display x)" and "limit \<noteq> Some 0"
    and "3 * char_count content + 4 \<le> length rs" and "distinct (map snd rs)"
    and "\<forall>r\<in>set rs. Some (snd r) \<notin> fst ` set (st_posted x)"
  shows "\<exists>y. stream_rounds rs x = Some y \<and> st_result y = Some (Inr ()) \<and> flat (st_posted y) = content"
proof -
  have inv: "stream_inv limit x" by (rule growing_run_inv[OF assms(1) stream_start_inv])
  have "left_over x < length rs" using left_over_bound[OF inv assms(2)] assms(6) by simp
  from rounds_finish[OF inv assms(3,2,4,5) this assms(7,8)] obtain y where
    "stream_rounds rs x = Some y" "stream_inv limit y" "st_final y = Some content" "st_result y = Some (Inr ())" by blast
  then show ?thesis by (auto simp: stream_inv_def Let_def)
qed

theorem finalization_finishes_witness:
  "\<exists>x y. growing_run [EvText ''ab'' 0, EvSent 1 (Inr (Some ''m'')), EvFinalize ''abc'' 2] (stream_start (Some 2) 0) = Some x \<and>
     stream_rounds (map (\<lambda>n. (int n, replicate n CHR ''x'')) [0..<13]) x = Some y \<and>
     st_result y = Some (Inr ()) \<and> flat (st_posted y) = ''abc''"
proof -
  let ?run = "growing_run [EvText ''ab'' 0, EvSent 1 (Inr (Some ''m'')), EvFinalize ''abc'' 2] (stream_start (Some 2) 0)"
  let ?rs = "map (\<lambda>n. (int n, replicate n CHR ''x'')) [0..<13]"
  have "map_option (\<lambda>x. ((st_final x, st_result x), (healthy (st_display x), map fst (st_posted x)))) ?run =
      Some ((Some ''abc'', None), (True, [Some ''m'']))" by code_simp
  from option_view4[OF this, unfolded eq_True] obtain x where x: "?run = Some x" "st_final x = Some ''abc''" "st_result x = None"
    "healthy (st_display x)" "map fst (st_posted x) = [Some ''m'']" by (elim exE conjE)
  have c: "3 * char_count ''abc'' + 4 \<le> length ?rs" "distinct (map snd ?rs)" by code_simp+
  have "\<forall>r\<in>set ?rs. Some (snd r) \<notin> fst ` set (st_posted x)"
    unfolding arg_cong[OF x(5), of set, unfolded set_map] by code_simp
  have "Some (2::nat) \<noteq> Some 0" by simp
  from finalization_finishes[OF x(1-4) this c \<open>\<forall>r\<in>set ?rs. Some (snd r) \<notin> fst ` set (st_posted x)\<close>]
  obtain y where y: "stream_rounds ?rs x = Some y" "st_result y = Some (Inr ())" "flat (st_posted y) = ''abc''" by (elim exE conjE)
  show ?thesis by (intro exI[of _ x] exI[of _ y] conjI x(1) y)
qed

section \<open>A reply that gets shorter\<close>

text \<open>
  The loop calls the observer with the text of each step from its start, so after a step with a
  long text and a tool call the text of the next step is shorter. What was committed stays.
\<close>

lemma first_send:
  assumes "latest \<noteq> []"
  shows "next_display_action now ((streaming_new limit t)\<lparr>sd_latest := latest\<rparr>) =
     ((streaming_new limit t)\<lparr>sd_latest := latest, sd_send_attempted := True, sd_send_in_flight := True\<rparr>,
      Some (SendInitial (concat (take (fitting limit (chars latest)) (chars latest)))))"
proof -
  let ?d = "(streaming_new limit t)\<lparr>sd_latest := latest\<rparr>"
  have "rest ?d = chars latest" by (simp add: rest_def streaming_new_def)
  then have "active_segment ?d = Some \<lparr>seg_content = concat (take (fitting limit (chars latest)) (chars latest)),
      seg_visible = fitting limit (chars latest), seg_overflow = fitting limit (chars latest) < length (chars latest)\<rparr>"
    using assms by (simp add: active_segment_is streaming_new_def)
  moreover have "try_rollover ?d = ?d" by (rule try_rollover_same) (simp add: streaming_new_def)
  ultimately show ?thesis using assms by (simp add: next_display_action_def streaming_new_def)
qed

definition stuck_state :: "nat \<Rightarrow> rstr \<Rightarrow> rstr \<Rightarrow> stream_sys" where
  "stuck_state l long short =
     \<lparr>st_display =
        \<lparr>sd_limit = Some l, sd_latest = short, sd_committed = l,
         sd_displayed = Some (concat (take l (drop l (chars long)))), sd_message_id = Some ''b'', sd_last_edit = 2,
         sd_send_attempted = True, sd_send_in_flight = False, sd_edit_in_flight = False, sd_finalized = True,
         sd_terminal_failure = False, sd_error = None\<rparr>,
      st_tasks = [],
      st_posted = [(Some ''a'', concat (take l (chars long))), (Some ''b'', concat (take l (drop l (chars long))))],
      st_final = Some short, st_result = None\<rparr>"

lemma stuck_state_stays:
  assumes "char_count short < l"
  shows "stream_step e (stuck_state l long short) \<in> {None, Some (stuck_state l long short)}"
proof -
  let ?d = "st_display (stuck_state l long short)"
  have "active_segment ?d = None" using assms by (simp add: active_segment_is rest_def stuck_state_def char_count_def)
  moreover have "try_rollover ?d = ?d" using calculation by (simp add: try_rollover_def)
  ultimately have n: "next_display_action now ?d = (?d, None)" for now by (simp add: next_display_action_def)
  have p: "poll_display short ?d = PollWait"
    using assms \<open>active_segment ?d = None\<close> by (simp add: poll_display_def) (simp add: stuck_state_def)
  have f: "st_tasks (stuck_state l long short) = []" "st_final (stuck_state l long short) = Some short"
    "st_result (stuck_state l long short) = None"
    by (simp_all add: stuck_state_def)
  show ?thesis using n p f by (cases e) (simp_all add: stream_next_def)
qed

lemma stuck_state_reached:
  assumes "0 < l" "l < char_count long" "char_count short < l"
  shows "stream_run [EvText long 0, EvSent 1 (Inr (Some ''a'')), EvNext 1, EvSent 2 (Inr (Some ''b'')), EvFinalize short 3]
     (stream_start (Some l) 0) = Some (stuck_state l long short)"
proof -
  let ?cs = "chars long"
  let ?d0 = "(streaming_new (Some l) 0)\<lparr>sd_latest := long\<rparr>"
  have cs: "l < length ?cs" "long \<noteq> []" using assms by (auto simp: char_count_def)
  have fit: "fitting (Some l) ?cs = l" using cs by (simp add: fitting_def)
  let ?d1 = "?d0\<lparr>sd_send_attempted := True, sd_message_id := Some ''a'', sd_displayed := Some (concat (take l ?cs)), sd_last_edit := 1, sd_error := None\<rparr>"
  let ?d2 = "?d0\<lparr>sd_send_attempted := True, sd_send_in_flight := True, sd_committed := l, sd_last_edit := 1\<rparr>"
  let ?B = "concat (take l (drop l ?cs))"
  have seg1: "active_segment ?d1 = Some \<lparr>seg_content = concat (take l ?cs), seg_visible = l, seg_overflow = True\<rparr>"
    using cs by (simp add: active_segment_is rest_def streaming_new_def fitting_def)
  have roll: "try_rollover ?d1 = ?d0\<lparr>sd_committed := l, sd_last_edit := 1\<rparr>"
    using seg1 by (simp add: try_rollover_def) (simp add: streaming_new_def)
  have seg2: "\<exists>v ov. active_segment (?d0\<lparr>sd_committed := l, sd_last_edit := 1\<rparr>) =
      Some \<lparr>seg_content = ?B, seg_visible = v, seg_overflow = ov\<rparr>"
    using cs by (auto simp: active_segment_is rest_def streaming_new_def fitting_def min_def)
  then have next1: "next_display_action 1 ?d1 = (?d2, Some (SendInitial ?B))"
    using cs(2) unfolding next_display_action_def roll Let_def by (auto simp: streaming_new_def)
  let ?x1 = "\<lparr>st_display = ?d1, st_tasks = [], st_posted = [(Some ''a'', concat (take l ?cs))], st_final = None, st_result = None\<rparr>"
  have s1: "stream_run [EvText long 0, EvSent 1 (Inr (Some ''a''))] (stream_start (Some l) 0) = Some ?x1"
    using first_send[OF cs(2), of 0 "Some l" 0] fit
    by (simp add: stream_start_def stream_next_def) (simp add: streaming_new_def)
  let ?x2 = "?x1\<lparr>st_display := ?d2, st_tasks := [SendInitial ?B]\<rparr>"
  have s2: "stream_step (EvNext 1) ?x1 = Some ?x2" using next1 by (simp add: stream_next_def)
  let ?d3 = "?d0\<lparr>sd_send_attempted := True, sd_committed := l, sd_message_id := Some ''b'', sd_displayed := Some ?B, sd_last_edit := 2\<rparr>"
  let ?x3 = "?x1\<lparr>st_display := ?d3, st_posted := [(Some ''a'', concat (take l ?cs)), (Some ''b'', ?B)]\<rparr>"
  have s3: "stream_step (EvSent 2 (Inr (Some ''b''))) ?x2 = Some ?x3" by (simp add: streaming_new_def)
  let ?d4 = "?d3\<lparr>sd_latest := short, sd_finalized := True\<rparr>"
  have "active_segment ?d4 = None" using assms(3) by (simp add: active_segment_is rest_def streaming_new_def char_count_def)
  moreover have "try_rollover ?d4 = ?d4" using calculation by (simp add: try_rollover_def)
  ultimately have "next_display_action 3 ?d4 = (?d4, None)" by (simp add: next_display_action_def)
  then have s4: "stream_step (EvFinalize short 3) ?x3 = Some (stuck_state l long short)"
    by (simp add: stream_next_def) (simp add: stuck_state_def streaming_new_def)
  have "stream_run [EvNext 1, EvSent 2 (Inr (Some ''b'')), EvFinalize short 3] ?x1 = Some (stuck_state l long short)"
    using s2 s3 s4 by (simp del: stream_step.simps)
  then show ?thesis
    using s1 stream_run_append[of "[EvText long 0, EvSent 1 (Inr (Some ''a''))]" "[EvNext 1, EvSent 2 (Inr (Some ''b'')), EvFinalize short 3]"]
    by (simp del: stream_step.simps stream_run.simps)
qed

text \<open>
  A reply that gets shorter never finishes: when the text of one step filled a message and went
  on, and the final text is shorter than the channel's limit, the finalization reaches a state
  without a result that no step leaves, whatever the channel does and however long it waits; the
  session's worker hangs and the channel keeps the old text.
\<close>

theorem shrunk_reply_never_finishes:
  assumes "0 < l" "l < char_count long" "char_count short < l"
  shows "\<exists>x. stream_run [EvText long 0, EvSent 1 (Inr (Some ''a'')), EvNext 1, EvSent 2 (Inr (Some ''b'')), EvFinalize short 3]
      (stream_start (Some l) 0) = Some x \<and> st_final x = Some short \<and> st_result x = None \<and>
    (\<forall>e. stream_step e x \<in> {None, Some x})"
proof (intro exI conjI allI)
  show "stream_run [EvText long 0, EvSent 1 (Inr (Some ''a'')), EvNext 1, EvSent 2 (Inr (Some ''b'')), EvFinalize short 3]
      (stream_start (Some l) 0) = Some (stuck_state l long short)" by (rule stuck_state_reached[OF assms])
  show "st_final (stuck_state l long short) = Some short" "st_result (stuck_state l long short) = None"
    by (simp_all add: stuck_state_def)
  show "stream_step e (stuck_state l long short) \<in> {None, Some (stuck_state l long short)}" for e
    by (rule stuck_state_stays[OF assms(3)])
qed

theorem shrunk_reply_never_finishes_witness:
  "\<exists>x. stream_run [EvText ''abc'' 0, EvSent 1 (Inr (Some ''a'')), EvNext 1, EvSent 2 (Inr (Some ''b'')), EvFinalize ''x'' 3]
      (stream_start (Some 2) 0) = Some x \<and> st_final x = Some ''x'' \<and> st_result x = None \<and>
    (\<forall>e. stream_step e x \<in> {None, Some x})"
proof -
  have "0 < (2::nat)" "2 < char_count ''abc''" "char_count ''x'' < 2" by code_simp+
  from shrunk_reply_never_finishes[OF this] show ?thesis .
qed

end
