(* ===== verification/Transparency.thy ===== *)
theory Transparency
  imports Dispatch ChannelTypes
begin

text \<open>
  \<open>src/run/transparency.rs\<close>: the footer of a reply that tells which tools ran and what was recalled.
\<close>

datatype render_style = PlainFooter | DiscordSubtext

fun style_for_channel :: "gateway_channel_kind \<Rightarrow> render_style option" where
  "style_for_channel Discord = Some DiscordSubtext"

record summary_group =
  sg_name :: rstr
  sg_ok :: nat
  sg_accepted :: nat
  sg_err :: nat

record transparency_summary =
  su_groups :: "summary_group list"
  su_hits :: "(nat \<times> nat) option"

definition summary_is_empty :: "transparency_summary \<Rightarrow> bool" where
  "summary_is_empty s \<longleftrightarrow> su_groups s = [] \<and> su_hits s = None"

text \<open>Nested calls come after the call they belong to.\<close>

fun flatten_call :: "execution_result \<Rightarrow> execution_result list" where
  "flatten_call (ExecutionResult n a out st ms i nested) =
     ExecutionResult n a out st ms i nested # concat (map flatten_call nested)"

definition flatten_tool_calls :: "execution_result list \<Rightarrow> execution_result list" where
  "flatten_tool_calls calls = concat (map flatten_call calls)"

text \<open>The names in the order of their first call and the counts by name.\<close>

type_synonym call_counts = "rstr list \<times> (rstr \<rightharpoonup> nat \<times> nat \<times> nat)"

fun bump :: "execution_status \<Rightarrow> nat \<times> nat \<times> nat \<Rightarrow> nat \<times> nat \<times> nat" where
  "bump StatusOk (ok, accepted, err) = (ok + 1, accepted, err)"
| "bump StatusAccepted (ok, accepted, err) = (ok, accepted + 1, err)"
| "bump StatusToolError (ok, accepted, err) = (ok, accepted, err + 1)"

definition count_call :: "execution_result \<Rightarrow> call_counts \<Rightarrow> call_counts" where
  "count_call call x =
     (case x of (order, counts) \<Rightarrow>
        (case counts (er_name call) of
           None \<Rightarrow> (order @ [er_name call], counts(er_name call \<mapsto> bump (er_status call) (0, 0, 0)))
         | Some c \<Rightarrow> (order, counts(er_name call \<mapsto> bump (er_status call) c))))"

definition group_of :: "(rstr \<rightharpoonup> nat \<times> nat \<times> nat) \<Rightarrow> rstr \<Rightarrow> summary_group" where
  "group_of counts name =
     (case the (counts name) of (ok, accepted, err) \<Rightarrow>
        \<lparr>sg_name = name, sg_ok = ok, sg_accepted = accepted, sg_err = err\<rparr>)"

definition tool_summary_groups :: "execution_result list \<Rightarrow> summary_group list" where
  "tool_summary_groups calls =
     (case fold count_call (flatten_tool_calls calls) ([], Map.empty) of
        (order, counts) \<Rightarrow> map (group_of counts) order)"

definition summarize_transparency ::
  "execution_result list \<Rightarrow> bool \<Rightarrow> bool \<Rightarrow> bool \<Rightarrow> nat \<Rightarrow> nat \<Rightarrow> transparency_summary" where
  "summarize_transparency calls tools_on recall_on recall_used short_hits long_hits =
     \<lparr>su_groups = (if tools_on \<and> calls \<noteq> [] then tool_summary_groups calls else []),
      su_hits = (if recall_on \<and> recall_used then Some (short_hits, long_hits) else None)\<rparr>"

abbreviation times_sign :: rstr where "times_sign \<equiv> [CHR 0xC3, CHR 0x97]"
abbreviation bullet_sign :: rstr where "bullet_sign \<equiv> [CHR 0xE2, CHR 0x80, CHR 0xA2]"

definition group_parts :: "rstr \<Rightarrow> summary_group \<Rightarrow> rstr list" where
  "group_parts mark g =
     (if 0 < sg_ok g then [mark @ ''ok'' @ times_sign @ show_nat (sg_ok g) @ mark] else []) @
     (if 0 < sg_accepted g then [mark @ ''accepted'' @ times_sign @ show_nat (sg_accepted g) @ mark] else []) @
     (if 0 < sg_err g then [mark @ ''err'' @ times_sign @ show_nat (sg_err g) @ mark] else [])"

definition render_group :: "rstr \<Rightarrow> summary_group \<Rightarrow> rstr" where
  "render_group mark g = ''['' @ sg_name g @ '' '' @ join '' '' (group_parts mark g) @ '']''"

definition format_tool_summary_plain :: "summary_group list \<Rightarrow> rstr" where
  "format_tool_summary_plain groups =
     (if groups = [] then ''tools: [none]'' else ''tools: '' @ join '' '' (map (render_group []) groups))"

definition format_tool_summary_discord :: "summary_group list \<Rightarrow> rstr" where
  "format_tool_summary_discord groups =
     (if groups = [] then ''tools [none]'' else ''tools '' @ join '' '' (map (render_group ''`'') groups))"

definition escape_discord_subtext :: "rstr \<Rightarrow> rstr" where
  "escape_discord_subtext line = str_replace ''_'' [BSL, CHR ''_''] line"

definition render_for_style :: "rstr \<Rightarrow> transparency_summary \<Rightarrow> render_style \<Rightarrow> rstr" where
  "render_for_style reply summary style =
     (if summary_is_empty summary then reply
      else (case style of
              PlainFooter \<Rightarrow>
                (let parts = (if su_groups summary \<noteq> [] then [format_tool_summary_plain (su_groups summary)] else []) @
                       (case su_hits summary of None \<Rightarrow> []
                        | Some (short, long) \<Rightarrow> [''recall: short='' @ show_nat short @ '' long='' @ show_nat long])
                 in reply @ [NL] @ ''---'' @ [NL] @ join '' | '' parts)
            | DiscordSubtext \<Rightarrow>
                (let parts = (if su_groups summary \<noteq> [] then [format_tool_summary_discord (su_groups summary)] else []) @
                       (case su_hits summary of None \<Rightarrow> []
                        | Some (short, long) \<Rightarrow> [''recall `short='' @ show_nat short @ '' long='' @ show_nat long @ ''`''])
                 in reply @ [NL] @ ''-# '' @ escape_discord_subtext (join ('' '' @ bullet_sign @ '' '') parts))))"

definition render_tool_call_transparency ::
  "rstr \<Rightarrow> execution_result list \<Rightarrow> bool \<Rightarrow> bool \<Rightarrow> bool \<Rightarrow> nat \<Rightarrow> nat \<Rightarrow> gateway_channel_kind \<Rightarrow> rstr" where
  "render_tool_call_transparency reply calls tools_on recall_on recall_used short_hits long_hits kind =
     (let summary = summarize_transparency calls tools_on recall_on recall_used short_hits long_hits
      in if summary_is_empty summary then reply
         else render_for_style reply summary
                (case style_for_channel kind of Some style \<Rightarrow> style | None \<Rightarrow> PlainFooter))"

section \<open>Every call is counted once\<close>

definition calls_with :: "rstr \<Rightarrow> execution_status \<Rightarrow> execution_result list \<Rightarrow> nat" where
  "calls_with name st calls = length (filter (\<lambda>c. er_name c = name \<and> er_status c = st) calls)"

text \<open>The reference: the distinct names in the order of their first call, with their counts.\<close>

definition first_seen :: "rstr list \<Rightarrow> rstr list" where
  "first_seen names = rev (remdups (rev names))"

lemma first_seen_snoc: "first_seen (ns @ [n]) = (if n \<in> set ns then first_seen ns else first_seen ns @ [n])"
proof -
  have "remdups (n # rev ns) = (if n \<in> set ns then remdups (rev ns) else n # remdups (rev ns))" by simp
  then show ?thesis by (simp add: first_seen_def)
qed

lemma set_first_seen [simp]: "set (first_seen ns) = set ns" by (simp add: first_seen_def)

definition counted :: "execution_result list \<Rightarrow> rstr \<Rightarrow> nat \<times> nat \<times> nat" where
  "counted calls n = (calls_with n StatusOk calls, calls_with n StatusAccepted calls, calls_with n StatusToolError calls)"

lemma counted_snoc: "counted (calls @ [c]) n = (if er_name c = n then bump (er_status c) (counted calls n) else counted calls n)"
  by (cases "er_status c") (auto simp: counted_def calls_with_def)

lemma counted_none: "n \<notin> er_name ` set calls \<Longrightarrow> counted calls n = (0, 0, 0)"
  by (auto simp: counted_def calls_with_def filter_empty_conv)

lemma fold_count_call:
  "fold count_call calls ([], Map.empty) =
     (first_seen (map er_name calls), \<lambda>n. if n \<in> er_name ` set calls then Some (counted calls n) else None)"
proof (induction calls rule: rev_induct)
  case Nil
  show ?case by (simp add: first_seen_def)
next
  case (snoc c calls)
  have step: "fold count_call (calls @ [c]) ([], Map.empty) = count_call c
      (first_seen (map er_name calls), \<lambda>n. if n \<in> er_name ` set calls then Some (counted calls n) else None)"
    unfolding fold_append comp_apply snoc by simp
  show ?case
  proof (cases "er_name c \<in> er_name ` set calls")
    case True
    then show ?thesis unfolding step
      by (simp add: count_call_def first_seen_snoc counted_snoc fun_eq_iff)
  next
    case False
    then show ?thesis unfolding step
      by (simp add: count_call_def first_seen_snoc counted_snoc counted_none fun_eq_iff)
  qed
qed

lemma tool_summary_groups_is:
  "tool_summary_groups calls =
     map (\<lambda>n. \<lparr>sg_name = n, sg_ok = calls_with n StatusOk (flatten_tool_calls calls),
             sg_accepted = calls_with n StatusAccepted (flatten_tool_calls calls),
             sg_err = calls_with n StatusToolError (flatten_tool_calls calls)\<rparr>)
       (first_seen (map er_name (flatten_tool_calls calls)))"
  unfolding tool_summary_groups_def fold_count_call prod.case
  by (rule map_cong) (auto simp: group_of_def counted_def)

text \<open>
  The summary of the tool calls counts every call, nested ones included, exactly once: its
  groups are the names of the calls in the order in which they are first seen, each with the
  numbers of its calls by status.
\<close>

theorem transparency_counts_calls:
  "tool_summary_groups calls =
     map (\<lambda>n. \<lparr>sg_name = n, sg_ok = calls_with n StatusOk (flatten_tool_calls calls),
             sg_accepted = calls_with n StatusAccepted (flatten_tool_calls calls),
             sg_err = calls_with n StatusToolError (flatten_tool_calls calls)\<rparr>)
       (first_seen (map er_name (flatten_tool_calls calls)))"
  by (rule tool_summary_groups_is)

lemma rendered_prefix:
  "prefix reply (render_tool_call_transparency reply calls tools_on recall_on used short long kind)"
  by (auto simp: render_tool_call_transparency_def render_for_style_def Let_def split: render_style.split)

end
