(* ===== verification/MessageHandling.thy ===== *)
theory MessageHandling
  imports Streaming Transparency Turn GatewayService ConfigLoad
begin

text \<open>
  \<open>src/run.rs\<close>: what the service does with one inbound message, from the agent's turn to the
  delivery of the reply, the acknowledgement of queued messages, and the report on an agent's
  memory. Calls of the gateway are recorded in their order; a failed send is only logged.
\<close>

section \<open>One message\<close>

text \<open>The channel of a kind, if there is one: whether it can edit messages, and its limit.\<close>

record 'f handling_world =
  hw_runtimes :: "(rstr \<times> 'f turn_agent \<times> transparency_config) list"
  hw_setup :: gateway_setup
  hw_channels :: "(gateway_channel_kind \<times> bool \<times> nat option) list"
  hw_safe_error_reply :: rstr

datatype handling_act =
    BroadcastTyping
  | ObserveText rstr
  | SendText rstr
  | FinalizeText rstr

datatype handling_end = Handled | HandlerPanicked | HandlerStuck

definition route_error_reply :: rstr where
  "route_error_reply = ''I couldn'' @ [SQ] @ ''t route that message due to a configuration error.''"

definition supports_message_editing :: "'f handling_world \<Rightarrow> inbound_message \<Rightarrow> bool res" where
  "supports_message_editing w inbound =
     rbind (channel_for_source (hw_channels w) (im_source_channel inbound)) (\<lambda>c. Inr (fst c))"

definition message_char_limit :: "'f handling_world \<Rightarrow> inbound_message \<Rightarrow> nat option res" where
  "message_char_limit w inbound =
     rbind (channel_for_source (hw_channels w) (im_source_channel inbound)) (\<lambda>c. Inr (snd c))"

text \<open>The limit of the display, if the reply is streamed.\<close>

definition streaming_limit :: "'f handling_world \<Rightarrow> inbound_message \<Rightarrow> nat option option" where
  "streaming_limit w inbound =
     (if output_mode (hw_setup w) inbound = Streaming \<and> supports_message_editing w inbound = Inr True
      then Some (case message_char_limit w inbound of Inr limit \<Rightarrow> limit | Inl _ \<Rightarrow> None)
      else None)"

definition deliver :: "bool \<Rightarrow> rstr \<Rightarrow> handling_act" where
  "deliver streams content = (if streams then FinalizeText content else SendText content)"

definition reply_acts ::
  "'f handling_world \<Rightarrow> inbound_message \<Rightarrow> transparency_config \<Rightarrow> bool \<Rightarrow> turn_disposition res \<Rightarrow> handling_act list" where
  "reply_acts w inbound transparency streams result =
     (case result of
        Inr ContextRecorded \<Rightarrow> []
      | Inr NoReply \<Rightarrow> []
      | Inr (Replied outcome) \<Rightarrow>
          (if is_no_reply (tq_reply outcome) then []
           else [deliver streams
                   (render_tool_call_transparency (tq_reply outcome) (tq_tool_calls outcome)
                      (tp_tool_calls transparency) (tp_memory_recall transparency)
                      (tq_memory_recall_used outcome) (tq_memory_recall_short_hits outcome)
                      (tq_memory_recall_long_hits outcome) (im_source_channel inbound))])
      | Inl err \<Rightarrow> [deliver streams (hw_safe_error_reply w)])"

text \<open>\<open>texts\<close> are the texts the loop shows its observer during the turn.\<close>

definition handle_inbound_once ::
  "'f handling_world \<Rightarrow> 'f turn_world \<Rightarrow> turn_loop \<Rightarrow> rstr list \<Rightarrow> inbound_message \<Rightarrow> (rstr \<times> memory_db) list \<Rightarrow>
   (rstr \<times> memory_db) list \<times> handling_act list \<times> handling_end" where
  "handle_inbound_once w tw loop texts inbound memories =
     (case map_of (hw_runtimes w) (im_target_agent_id inbound) of
        None \<Rightarrow> (memories, if im_invoke inbound then [SendText route_error_reply] else [], Handled)
      | Some (agent, transparency) \<Rightarrow>
          (let typing = (if im_invoke inbound \<and> im_user_id inbound \<noteq> ''system'' then [BroadcastTyping] else []);
               streams = streaming_limit w inbound \<noteq> None;
               shown = (if streams then map ObserveText texts else [])
           in case execute_turn tw loop agent inbound (im_session_key inbound) streams memories of
                (memories, TurnDone result) \<Rightarrow>
                  (memories, typing @ shown @ reply_acts w inbound transparency streams result, Handled)
              | (memories, TurnPanicked) \<Rightarrow> (memories, typing @ shown, HandlerPanicked)
              | (memories, TurnStuck) \<Rightarrow> (memories, typing @ shown, HandlerStuck)))"

section \<open>Acknowledging a queued message\<close>

definition inbound_ack_reaction :: rstr where
  "inbound_ack_reaction = [CHR 0xF0, CHR 0x9F, CHR 0x91, CHR 0x80]"

text \<open>The reaction added once the coordinator answered whether the message is queued.\<close>

definition dispatch_inbound_with_ack ::
  "bool \<Rightarrow> inbound_message \<Rightarrow> (gateway_channel_kind \<times> rstr \<times> rstr \<times> rstr) option" where
  "dispatch_inbound_with_ack queued inbound =
     (if \<not> queued \<or> \<not> im_invoke inbound \<or> im_user_id inbound = ''system'' then None
      else map_option (\<lambda>message_id. (im_source_channel inbound, im_channel_id inbound, message_id, inbound_ack_reaction))
             (im_source_message_id inbound))"

section \<open>The report on an agent's memory\<close>

datatype memory_mode = MemoryShort | MemoryLong | MemoryBoth

fun memory_mode_name :: "memory_mode \<Rightarrow> rstr" where
  "memory_mode_name MemoryShort = ''short''"
| "memory_mode_name MemoryLong = ''long''"
| "memory_mode_name MemoryBoth = ''both''"

definition parse_limit :: "rstr \<Rightarrow> (rstr \<Rightarrow> nat option) \<Rightarrow> rstr + nat" where
  "parse_limit raw parse_usize =
     (case parse_usize raw of
        None \<Rightarrow> Inl (''invalid integer value '' @ [SQ] @ raw @ [SQ])
      | Some v \<Rightarrow> (if v = 0 then Inl ''limit must be greater than 0'' else Inr v))"

definition resolve_agent :: "'f agent_entry_config list \<Rightarrow> rstr \<Rightarrow> rstr + 'f agent_entry_config" where
  "resolve_agent agents agent_id =
     (case find (\<lambda>agent. agt_id agent = agent_id) agents of
        Some agent \<Rightarrow> Inr agent
      | None \<Rightarrow> Inl (''unknown agent id '' @ [SQ] @ agent_id @ [SQ] @ ''. configured agents: '' @
                  join '', '' (map agt_id agents)))"

definition agent_persona_memory_paths :: "rstr \<Rightarrow> rstr \<times> rstr \<times> rstr" where
  "agent_persona_memory_paths persona_root =
     (let memory_dir = path_push (path_push persona_root ''.simpleclaw'') ''memory''
      in (memory_dir, path_push memory_dir ''short_term_memory.db'', path_push memory_dir ''long_term_memory.db''))"

text \<open>\<open>limit as i64\<close>; a negative limit is none for SQLite.\<close>

definition as_i64 :: "nat \<Rightarrow> int" where
  "as_i64 n = (if n mod 2 ^ 64 < 2 ^ 63 then int (n mod 2 ^ 64) else int (n mod 2 ^ 64) - 2 ^ 64)"

definition sql_limit :: "int \<Rightarrow> 'a list \<Rightarrow> 'a list" where
  "sql_limit limit rows = (if limit < 0 then rows else take (nat limit) rows)"

definition open_readonly_connection :: "(rstr \<Rightarrow> (rstr + memory_db) option) \<Rightarrow> rstr \<Rightarrow> rstr + memory_db" where
  "open_readonly_connection files p =
     (case files p of
        None \<Rightarrow> Inl (''memory database does not exist: '' @ p)
      | Some (Inl _) \<Rightarrow> Inl (''failed to open database read-only: '' @ p)
      | Some (Inr db) \<Rightarrow> Inr db)"

definition query_short_memory :: "(rstr \<Rightarrow> (rstr + memory_db) option) \<Rightarrow> rstr \<Rightarrow> nat \<Rightarrow> rstr + message_row list" where
  "query_short_memory files p limit =
     (case open_readonly_connection files p of
        Inl e \<Rightarrow> Inl e
      | Inr db \<Rightarrow> Inr (sql_limit (as_i64 limit) (rev (sort_key mr_id (md_messages db)))))"

definition query_long_memory :: "(rstr \<Rightarrow> (rstr + memory_db) option) \<Rightarrow> rstr \<Rightarrow> nat \<Rightarrow> rstr + fact_row list" where
  "query_long_memory files p limit =
     (case open_readonly_connection files p of
        Inl e \<Rightarrow> Inl e
      | Inr db \<Rightarrow> Inr (sql_limit (as_i64 limit) (rev (sort_key ff_id (md_facts db)))))"

record agent_memory_response =
  amr_agent :: rstr
  amr_memory :: rstr
  amr_limit :: nat
  amr_short :: "message_row list option"
  amr_long :: "fact_row list option"

definition optionally :: "bool \<Rightarrow> (rstr + 'a) \<Rightarrow> (rstr + 'a option)" where
  "optionally wanted r = (if wanted then map_sum id Some r else Inr None)"

definition show_agent_memory ::
  "'f config_world \<Rightarrow> rstr option \<Rightarrow> (rstr \<Rightarrow> (rstr + memory_db) option) \<Rightarrow> rstr \<Rightarrow> memory_mode \<Rightarrow> nat \<Rightarrow>
   (rstr + agent_memory_response) option" where
  "show_agent_memory w workspace files agent_id mode limit =
     (case load_config w workspace of
        None \<Rightarrow> None
      | Some (Inl _) \<Rightarrow> Some (Inl ''failed to load configuration for agent memory command'')
      | Some (Inr loaded) \<Rightarrow>
          Some (case resolve_agent (agts_list (glob_agents loaded)) agent_id of
             Inl e \<Rightarrow> Inl e
           | Inr agent \<Rightarrow>
               (case agent_persona_memory_paths (agt_persona agent) of (_, short_term_path, long_term_path) \<Rightarrow>
                  (case optionally (mode \<noteq> MemoryLong) (query_short_memory files short_term_path limit) of
                     Inl e \<Rightarrow> Inl e
                   | Inr short \<Rightarrow>
                       (case optionally (mode \<noteq> MemoryShort) (query_long_memory files long_term_path limit) of
                          Inl e \<Rightarrow> Inl e
                        | Inr long \<Rightarrow>
                            Inr \<lparr>amr_agent = agent_id, amr_memory = memory_mode_name mode, amr_limit = limit,
                                 amr_short = short, amr_long = long\<rparr>)))))"

section \<open>Replies\<close>

fun deliveries :: "handling_act list \<Rightarrow> rstr list" where
  "deliveries [] = []"
| "deliveries (SendText s # acts) = s # deliveries acts"
| "deliveries (FinalizeText s # acts) = s # deliveries acts"
| "deliveries (_ # acts) = deliveries acts"

lemma deliveries_append [simp]: "deliveries (a @ b) = deliveries a @ deliveries b"
  by (induction a rule: deliveries.induct) auto

lemma deliveries_observe [simp]: "deliveries (map ObserveText ts) = []"
  by (induction ts) auto

lemma deliveries_deliver [simp]: "deliveries [deliver streams s] = [s]"
  by (simp add: deliver_def)

lemma turn_reply_is_no_sentinel:
  assumes "execute_turn tw loop agent inbound sid streams memories = (m, TurnDone (Inr (Replied outcome)))"
  shows "\<not> is_no_reply (tq_reply outcome)"
  using assms
  by (auto simp: execute_turn_def run_turn_def finalize_turn_def rbind_eq_Inr
      split: option.splits prod.splits if_splits turn_end.splits sum.splits)

text \<open>The texts the code may send for a turn's result.\<close>

definition reply_texts :: "'f handling_world \<Rightarrow> inbound_message \<Rightarrow> transparency_config \<Rightarrow> turn_disposition res \<Rightarrow> rstr list" where
  "reply_texts w inbound tp result =
     (case result of
        Inl err \<Rightarrow> [hw_safe_error_reply w]
      | Inr (Replied outcome) \<Rightarrow>
          [render_tool_call_transparency (tq_reply outcome) (tq_tool_calls outcome) (tp_tool_calls tp)
             (tp_memory_recall tp) (tq_memory_recall_used outcome) (tq_memory_recall_short_hits outcome)
             (tq_memory_recall_long_hits outcome) (im_source_channel inbound)]
      | Inr _ \<Rightarrow> [])"

lemma handled_deliveries:
  assumes "map_of (hw_runtimes w) (im_target_agent_id inbound) = Some (agent, tp)"
    and "execute_turn tw loop agent inbound (im_session_key inbound) (streaming_limit w inbound \<noteq> None) memories = (m, TurnDone r)"
  shows "\<exists>acts. handle_inbound_once w tw loop texts inbound memories = (m, acts, Handled) \<and>
    deliveries acts = reply_texts w inbound tp r"
proof -
  have "reply_acts w inbound tp (streaming_limit w inbound \<noteq> None) r =
      map (deliver (streaming_limit w inbound \<noteq> None)) (reply_texts w inbound tp r)"
    using turn_reply_is_no_sentinel[of tw loop agent inbound "im_session_key inbound" "streaming_limit w inbound \<noteq> None" memories m] assms(2)
    by (auto simp: reply_acts_def reply_texts_def split: sum.split turn_disposition.split)
  moreover have "deliveries (map (deliver b) ts) = ts" for b ts
    by (cases b; induction ts) (simp_all add: deliver_def)
  ultimately show ?thesis using assms by (simp add: handle_inbound_once_def Let_def)
qed

definition handled_agent :: "int turn_agent" where
  "handled_agent = sample_turn_agent ''Bob''"

definition handled_world :: "int turn_world" where
  "handled_world = sample_turn_world"

definition quiet_transparency :: transparency_config where
  "quiet_transparency = \<lparr>tp_tool_calls = False, tp_memory_recall = False\<rparr>"

definition sample_handling :: "nat option \<Rightarrow> rstr \<Rightarrow> int handling_world" where
  "sample_handling limit safe =
     \<lparr>hw_runtimes = [(''main'', handled_agent, quiet_transparency)],
      hw_setup = \<lparr>gt_policy = default_routing, gt_agents = [], gt_output_modes = []\<rparr>,
      hw_channels = [(Discord, True, limit)], hw_safe_error_reply = safe\<rparr>"

definition streamed_inbound :: inbound_message where
  "streamed_inbound = Turn.sample_inbound ''hello''"

definition sample_memories :: "(rstr \<times> memory_db) list" where
  "sample_memories = [(''main'', empty_memory)]"

definition failing_loop :: turn_loop where
  "failing_loop = (\<lambda>_ _ db. (db, Some (Inl (ProviderError ''broken''))))"

definition sentinel_loop :: turn_loop where
  "sentinel_loop = sample_turn_loop ''NO_REPLY''"

lemma sample_handling_facts:
  "map_of (hw_runtimes (sample_handling limit safe)) (im_target_agent_id streamed_inbound) =
     Some (handled_agent, quiet_transparency)"
  "streaming_limit (sample_handling limit safe) streamed_inbound = Some limit"
  "hw_safe_error_reply (sample_handling limit safe) = safe"
  by (simp_all add: sample_handling_def streamed_inbound_def streaming_limit_def output_mode_def
      supports_message_editing_def message_char_limit_def channel_for_source_def)

lemma pair_with_snd: "snd p = r \<Longrightarrow> \<exists>m. p = (m, r)"
  by (cases p) simp

lemma failing_turn:
  "\<exists>m. execute_turn handled_world failing_loop (handled_agent) streamed_inbound
     (im_session_key streamed_inbound) True sample_memories = (m, TurnDone (Inl (ProviderError ''broken'')))"
proof -
  have "snd (execute_turn handled_world failing_loop (handled_agent) streamed_inbound
     (im_session_key streamed_inbound) True sample_memories) = TurnDone (Inl (ProviderError ''broken''))" by code_simp
  then show ?thesis by (rule pair_with_snd)
qed

lemma sentinel_turn:
  "\<exists>m. execute_turn handled_world sentinel_loop (handled_agent) streamed_inbound
     (im_session_key streamed_inbound) True sample_memories = (m, TurnDone (Inr NoReply))"
proof -
  have "snd (execute_turn handled_world sentinel_loop (handled_agent) streamed_inbound
     (im_session_key streamed_inbound) True sample_memories) = TurnDone (Inr NoReply)" by code_simp
  then show ?thesis by (rule pair_with_snd)
qed

text \<open>
  Each handled message of a known agent gets at most one reply, and which one depends only on
  the end of its turn: the reply with its footer, the safe error text for a failed turn, whatever
  the error was, and nothing for a recorded message or a reply that is the sentinel; the reply
  that is sent is never the sentinel.
\<close>

theorem one_reply_per_message:
  assumes "map_of (hw_runtimes w) (im_target_agent_id inbound) = Some (agent, tp)"
    and "execute_turn tw loop agent inbound (im_session_key inbound) (streaming_limit w inbound \<noteq> None) memories = (m, TurnDone r)"
  shows "\<exists>acts. handle_inbound_once w tw loop texts inbound memories = (m, acts, Handled) \<and>
    deliveries acts =
      (case r of
         Inl err \<Rightarrow> [hw_safe_error_reply w]
       | Inr ContextRecorded \<Rightarrow> []
       | Inr NoReply \<Rightarrow> []
       | Inr (Replied outcome) \<Rightarrow>
           [render_tool_call_transparency (tq_reply outcome) (tq_tool_calls outcome) (tp_tool_calls tp)
              (tp_memory_recall tp) (tq_memory_recall_used outcome) (tq_memory_recall_short_hits outcome)
              (tq_memory_recall_long_hits outcome) (im_source_channel inbound)]) \<and>
    (case r of Inr (Replied outcome) \<Rightarrow> trim (tq_reply outcome) \<noteq> ''NO_REPLY'' | _ \<Rightarrow> True)"
proof -
  from handled_deliveries[OF assms, of texts] obtain acts where acts:
    "handle_inbound_once w tw loop texts inbound memories = (m, acts, Handled)" "deliveries acts = reply_texts w inbound tp r"
    by blast
  moreover have "case r of Inr (Replied outcome) \<Rightarrow> trim (tq_reply outcome) \<noteq> ''NO_REPLY'' | _ \<Rightarrow> True"
    using turn_reply_is_no_sentinel assms(2) unfolding is_no_reply_def
    by (fastforce split: sum.split turn_disposition.split)
  ultimately show ?thesis unfolding reply_texts_def
    by (intro exI[of _ acts]) (simp split: sum.split turn_disposition.split)
qed

theorem one_reply_per_message_witness:
  "\<exists>m acts. handle_inbound_once (sample_handling (Some 4) ''oh no'') handled_world failing_loop [] streamed_inbound sample_memories
      = (m, acts, Handled) \<and> deliveries acts = [''oh no'']"
proof -
  from failing_turn obtain m where m: "execute_turn handled_world failing_loop (handled_agent) streamed_inbound
     (im_session_key streamed_inbound) True sample_memories = (m, TurnDone (Inl (ProviderError ''broken'')))" ..
  have "streaming_limit (sample_handling (Some 4) ''oh no'') streamed_inbound \<noteq> None \<longleftrightarrow> True"
    by (simp add: sample_handling_facts)
  from one_reply_per_message[OF sample_handling_facts(1), of handled_world failing_loop "Some 4" "''oh no''" sample_memories m _ "[]",
      unfolded this, OF m]
  show ?thesis unfolding sum.case sample_handling_facts(3) by (elim exE conjE) (intro exI conjI, assumption+)
qed

section \<open>Streaming and the end of the turn\<close>

lemma streamed_acts:
  assumes "map_of (hw_runtimes w) (im_target_agent_id inbound) = Some (agent, tp)"
    and "streaming_limit w inbound = Some limit"
    and "execute_turn tw loop agent inbound (im_session_key inbound) True memories = (m, TurnDone r)"
  shows "\<exists>typing. typing \<in> {[], [BroadcastTyping]} \<and> handle_inbound_once w tw loop texts inbound memories =
    (m, typing @ map ObserveText texts @ map FinalizeText (reply_texts w inbound tp r), Handled)"
proof -
  have "reply_acts w inbound tp True r = map FinalizeText (reply_texts w inbound tp r)"
    using turn_reply_is_no_sentinel[of tw loop agent inbound "im_session_key inbound" True memories m] assms(3)
    by (auto simp: reply_acts_def reply_texts_def deliver_def split: sum.split turn_disposition.split)
  then show ?thesis using assms by (simp add: handle_inbound_once_def Let_def)
qed



text \<open>
  With a streamed reply the sentinel is posted: when the model answers with the sentinel that
  asks for no message, nothing is finalized, but the text has been shown while it was generated,
  and the channel keeps a message with the sentinel.
\<close>

theorem streamed_sentinel_is_posted:
  assumes "map_of (hw_runtimes w) (im_target_agent_id inbound) = Some (agent, tp)"
    and "streaming_limit w inbound = Some (Some 2000)"
    and "execute_turn tw loop agent inbound (im_session_key inbound) True memories = (m, TurnDone (Inr NoReply))"
  shows "\<exists>typing x. typing \<in> {[], [BroadcastTyping]} \<and>
    handle_inbound_once w tw loop [''NO_REPLY''] inbound memories = (m, typing @ [ObserveText ''NO_REPLY''], Handled) \<and>
    stream_run [EvText ''NO_REPLY'' 0, EvSent 1 (Inr (Some ''a''))] (stream_start (Some 2000) 0) = Some x \<and>
    st_posted x = [(Some ''a'', ''NO_REPLY'')] \<and> st_tasks x = []"
proof -
  have "map_option (\<lambda>x. (st_posted x, st_tasks x))
      (stream_run [EvText ''NO_REPLY'' 0, EvSent 1 (Inr (Some ''a''))] (stream_start (Some 2000) 0)) =
      Some ([(Some ''a'', ''NO_REPLY'')], [])" by code_simp
  from option_view[OF this] obtain x where
    "stream_run [EvText ''NO_REPLY'' 0, EvSent 1 (Inr (Some ''a''))] (stream_start (Some 2000) 0) = Some x"
    "st_posted x = [(Some ''a'', ''NO_REPLY'')]" "st_tasks x = []" by (elim exE conjE)
  moreover obtain typing where "typing \<in> {[], [BroadcastTyping]}"
    "handle_inbound_once w tw loop [''NO_REPLY''] inbound memories = (m, typing @ [ObserveText ''NO_REPLY''], Handled)"
    using streamed_acts[OF assms, of "[''NO_REPLY'']"] by (auto simp: reply_texts_def)
  ultimately show ?thesis by blast
qed

theorem streamed_sentinel_is_posted_witness:
  "\<exists>m typing x. typing \<in> {[], [BroadcastTyping]} \<and>
    handle_inbound_once (sample_handling (Some 2000) ''oh'') handled_world sentinel_loop [''NO_REPLY''] streamed_inbound sample_memories =
      (m, typing @ [ObserveText ''NO_REPLY''], Handled) \<and>
    stream_run [EvText ''NO_REPLY'' 0, EvSent 1 (Inr (Some ''a''))] (stream_start (Some 2000) 0) = Some x \<and>
    st_posted x = [(Some ''a'', ''NO_REPLY'')] \<and> st_tasks x = []"
proof -
  from sentinel_turn obtain m where m: "execute_turn handled_world sentinel_loop (handled_agent) streamed_inbound
     (im_session_key streamed_inbound) True sample_memories = (m, TurnDone (Inr NoReply))" ..
  show ?thesis by (rule exI, rule streamed_sentinel_is_posted[OF sample_handling_facts(1,2) m])
qed

text \<open>
  A message that only is context is answered when it cannot be recorded: the failed write of a
  message the agent was not asked about posts the safe error text.
\<close>

theorem failed_context_is_answered:
  assumes "map_of (hw_runtimes w) (im_target_agent_id inbound) = Some (agent, tp)"
    and "\<not> im_invoke inbound" and "map_of memories (tn_agent_id agent) = Some db"
    and "record_context tw inbound (im_session_key inbound) db = (db', Inl err)"
  shows "\<exists>m acts. handle_inbound_once w tw loop texts inbound memories = (m, acts, Handled) \<and>
    deliveries acts = [hw_safe_error_reply w]"
proof -
  have "execute_turn tw loop agent inbound (im_session_key inbound) (streaming_limit w inbound \<noteq> None) memories =
      (AList.update (tn_agent_id agent) db' memories, TurnDone (Inl err))"
    using assms by (simp add: execute_turn_def run_turn_def)
  from handled_deliveries[OF assms(1) this, of texts] show ?thesis by (simp add: reply_texts_def) blast
qed

section \<open>The newest rows\<close>

text \<open>
  The report shows the newest messages first: the ids fall strictly, and every message that is
  left out has a smaller id than each one shown.
\<close>

theorem report_shows_newest:
  assumes "files p = Some (Inr db)" and "distinct (map mr_id (md_messages db))" and "0 < limit" "limit < 2 ^ 63"
  shows "\<exists>rows. query_short_memory files p limit = Inr rows \<and> length rows = min limit (length (md_messages db)) \<and>
    sorted_wrt (\<lambda>a b. mr_id b < mr_id a) rows \<and> set rows \<subseteq> set (md_messages db) \<and>
    (\<forall>r\<in>set rows. \<forall>q\<in>set (md_messages db) - set rows. mr_id q < mr_id r)"
proof -
  let ?rows = "rev (sort_key mr_id (md_messages db))"
  have "as_i64 limit = int limit" using assms(4) by (simp add: as_i64_def)
  then have q: "query_short_memory files p limit = Inr (take limit ?rows)"
    using assms(1) by (simp add: query_short_memory_def open_readonly_connection_def sql_limit_def)
  have "distinct (map mr_id (sort_key mr_id (md_messages db)))" using assms(2)
    by (metis distinct_map distinct_sort set_sort)
  then have s: "sorted_wrt (\<lambda>a b. mr_id b < mr_id a) ?rows"
    using sorted_sort_key[of mr_id "md_messages db"] by (simp add: sorted_wrt_rev strict_sorted_iff sorted_wrt_map[symmetric, of "(<)" mr_id])
  have app: "sorted_wrt (\<lambda>a b. mr_id b < mr_id a) (take limit ?rows @ drop limit ?rows)" using s by simp
  then have "\<forall>r\<in>set (take limit ?rows). \<forall>q\<in>set (drop limit ?rows). mr_id q < mr_id r"
    "sorted_wrt (\<lambda>a b. mr_id b < mr_id a) (take limit ?rows)"
    unfolding sorted_wrt_append by blast+
  moreover have "set (md_messages db) - set (take limit ?rows) \<subseteq> set (drop limit ?rows)"
  proof -
    have "set (md_messages db) = set (take limit ?rows) \<union> set (drop limit ?rows)"
      by (simp only: set_append[symmetric] append_take_drop_id set_rev set_sort)
    then show ?thesis by blast
  qed
  moreover have "set (take limit ?rows) \<subseteq> set (md_messages db)" using set_take_subset[of limit ?rows] by simp
  ultimately show ?thesis unfolding q by (intro exI[of _ "take limit ?rows"]) auto
qed

end
