(* ===== verification/Ordered.thy ===== *)
theory Ordered
  imports Prelude
begin

text \<open>
  The order of Rust's strings (byte by byte) and \<open>BTreeMap\<close>s with string keys: lists of entries
  in the order of their keys, each key once. The order in which the code walks such a map, and the
  entry it takes as the first of several, depend on it. At the end the lines of a text.
\<close>

section \<open>The order of strings\<close>

fun byte_le :: "rstr \<Rightarrow> rstr \<Rightarrow> bool" where
  "byte_le [] t = True"
| "byte_le (c # s) [] = False"
| "byte_le (c # s) (d # t) \<longleftrightarrow> (of_char c :: nat) < of_char d \<or> c = d \<and> byte_le s t"

lemma byte_le_refl [simp]: "byte_le s s" by (induction s) auto

lemma byte_le_total: "byte_le s t \<or> byte_le t s"
proof (induction s t rule: byte_le.induct)
  case (3 c s d t)
  have "(of_char c :: nat) = of_char d \<Longrightarrow> c = d" by simp
  then show ?case using 3 by (cases "(of_char c :: nat)" "of_char d :: nat" rule: linorder_cases) auto
qed auto

lemma byte_le_trans: "byte_le s t \<Longrightarrow> byte_le t u \<Longrightarrow> byte_le s u"
proof (induction s t arbitrary: u rule: byte_le.induct)
  case (2 c s)
  then show ?case by simp
next
  case (3 c s d t)
  then obtain e v where u: "u = e # v" by (cases u) auto
  from "3.prems" have a: "(of_char c :: nat) < of_char d \<or> c = d \<and> byte_le s t"
    and b: "(of_char d :: nat) < of_char e \<or> d = e \<and> byte_le t v" by (simp_all add: u)
  from a b show ?case
  proof (elim disjE conjE)
    assume "(of_char c :: nat) < of_char d" "(of_char d :: nat) < of_char e"
    then show ?thesis by (simp add: u)
  next
    assume "c = d" "byte_le s t" "d = e" "byte_le t v"
    then show ?thesis using "3.IH" by (simp add: u)
  qed (simp_all add: u)
qed simp

lemma byte_le_antisym: "byte_le s t \<Longrightarrow> byte_le t s \<Longrightarrow> s = t"
proof (induction s t rule: byte_le.induct)
  case (1 t)
  then show ?case by (cases t) auto
next
  case (3 c s d t)
  from "3.prems" have a: "(of_char c :: nat) < of_char d \<or> c = d \<and> byte_le s t"
    and b: "(of_char d :: nat) < of_char c \<or> d = c \<and> byte_le t s" by (simp_all only: byte_le.simps)
  then have "c = d \<and> byte_le s t \<and> byte_le t s" by (elim disjE conjE) (simp_all del: of_char_eq_iff)
  then show ?case using "3.IH" by simp
qed auto

definition byte_less :: "rstr \<Rightarrow> rstr \<Rightarrow> bool" where
  "byte_less s t \<longleftrightarrow> byte_le s t \<and> s \<noteq> t"

lemma byte_less_trans: "byte_less s t \<Longrightarrow> byte_less t u \<Longrightarrow> byte_less s u"
  unfolding byte_less_def using byte_le_trans byte_le_antisym by blast

lemma sorted_byte_less_distinct: "sorted_wrt byte_less ks \<Longrightarrow> distinct ks"
  by (induction ks) (auto simp: byte_less_def)

section \<open>Ordered maps\<close>

fun bt_insert :: "rstr \<Rightarrow> 'v \<Rightarrow> (rstr \<times> 'v) list \<Rightarrow> (rstr \<times> 'v) list" where
  "bt_insert k v [] = [(k, v)]"
| "bt_insert k v ((k', v') # m) =
     (if k = k' then (k, v) # m
      else if byte_le k k' then (k, v) # (k', v') # m
      else (k', v') # bt_insert k v m)"

definition bt_remove :: "rstr \<Rightarrow> (rstr \<times> 'v) list \<Rightarrow> (rstr \<times> 'v) list" where
  "bt_remove k m = filter (\<lambda>e. fst e \<noteq> k) m"

definition bt_ordered :: "(rstr \<times> 'v) list \<Rightarrow> bool" where
  "bt_ordered m \<longleftrightarrow> sorted_wrt byte_less (map fst m)"

lemma bt_ordered_Nil [simp]: "bt_ordered []"
  by (simp add: bt_ordered_def)

lemma bt_ordered_distinct: "bt_ordered m \<Longrightarrow> distinct (map fst m)"
  by (simp add: bt_ordered_def sorted_byte_less_distinct)

lemma map_of_bt_insert [simp]: "map_of (bt_insert k v m) = (map_of m)(k \<mapsto> v)"
  by (induction k v m rule: bt_insert.induct) auto

lemma map_of_bt_remove [simp]: "map_of (bt_remove k m) = (map_of m)(k := None)"
proof (induction m)
  case (Cons e m)
  then show ?case by (cases e) (auto simp: bt_remove_def)
qed (simp add: bt_remove_def)

lemma set_bt_remove: "set (bt_remove k m) = {e \<in> set m. fst e \<noteq> k}"
  by (simp add: bt_remove_def)

lemma set_bt_insert: "set (bt_insert k v m) \<subseteq> insert (k, v) (set m)"
  by (induction k v m rule: bt_insert.induct) auto

lemma fst_set_bt_insert: "fst ` set (bt_insert k v m) = insert k (fst ` set m)"
  by (induction k v m rule: bt_insert.induct) auto

lemma bt_ordered_insert: "bt_ordered m \<Longrightarrow> bt_ordered (bt_insert k v m)"
proof (induction m)
  case (Cons e m)
  obtain k' v' where e: "e = (k', v')" by fastforce
  have m: "bt_ordered m" and after: "\<forall>z\<in>fst ` set m. byte_less k' z"
    using Cons.prems by (auto simp: bt_ordered_def e)
  have tail: "bt_ordered (bt_insert k v m)" using Cons.IH[OF m] .
  consider "k = k'" | "k \<noteq> k'" "byte_less k k'" | "k \<noteq> k'" "byte_less k' k" "\<not> byte_le k k'"
    using byte_le_total[of k k'] by (auto simp: byte_less_def)
  then show ?case
  proof cases
    case 1
    then show ?thesis using Cons.prems by (simp add: e bt_ordered_def)
  next
    case 2
    have "\<forall>z\<in>fst ` set m. byte_less k z" using after byte_less_trans[OF 2(2)] by blast
    then show ?thesis using Cons.prems 2 by (simp add: e bt_ordered_def byte_less_def[of k k'])
  next
    case 3
    have "\<forall>z\<in>fst ` set (bt_insert k v m). byte_less k' z" using after 3 by (simp add: fst_set_bt_insert)
    then show ?thesis using tail 3 by (simp add: e bt_ordered_def)
  qed
qed (simp add: bt_ordered_def)

lemma bt_ordered_remove: "bt_ordered m \<Longrightarrow> bt_ordered (bt_remove k m)"
  unfolding bt_ordered_def bt_remove_def by (induction m) auto

section \<open>The lines of a text\<close>

text \<open>\<open>str::lines\<close>: the parts between line feeds, without a carriage return at their end.\<close>

fun split_lines :: "rstr \<Rightarrow> rstr \<Rightarrow> rstr list" where
  "split_lines acc [] = (if acc = [] then [] else [rev acc])"
| "split_lines acc (c # s) =
     (if c = NL then rev (if acc \<noteq> [] \<and> hd acc = CR then tl acc else acc) # split_lines [] s
      else split_lines (c # acc) s)"

definition str_lines :: "rstr \<Rightarrow> rstr list" where
  "str_lines s = split_lines [] s"

end
