(* ===== verification/Persona.thy ===== *)
theory Persona
  imports ConfigLoad ToolRegistry Ordered
begin

text \<open>
  \<open>src/prompt.rs\<close> and \<open>src/tools/skill.rs\<close>: what an agent gets from the files of its persona, the
  layers of its system prompt and its skills. The file system is an argument; a directory entry is
  its name and whether it is a directory.
\<close>

record persona_fs =
  pfs_exists :: "rstr \<Rightarrow> bool"
  pfs_size :: "rstr \<Rightarrow> nat res"
  pfs_read :: "rstr \<Rightarrow> rstr res"
  pfs_dir :: "rstr \<Rightarrow> (rstr \<times> bool) res list res option"

section \<open>The layers of the system prompt\<close>

record prompt_layer_info =
  pl_title :: rstr
  pl_file :: rstr
  pl_path :: rstr
  pl_exists :: bool
  pl_bytes :: nat

definition prompt_layers :: "(rstr \<times> rstr) list" where
  "prompt_layers = [(''IDENTITY'', ''IDENTITY.md''), (''AGENT'', ''AGENT.md''), (''USER'', ''USER.md''),
     (''MEMORY'', ''MEMORY.md''), (''SOUL'', ''SOUL.md'')]"

definition inspect_layer :: "persona_fs \<Rightarrow> rstr \<Rightarrow> rstr \<times> rstr \<Rightarrow> prompt_layer_info res" where
  "inspect_layer fs persona_root layer =
     (case layer of (title, file) \<Rightarrow>
        (let p = path_push persona_root file
         in if \<not> pfs_exists fs p
            then Inr \<lparr>pl_title = title, pl_file = file, pl_path = p, pl_exists = False, pl_bytes = 0\<rparr>
            else rbind (pfs_size fs p) (\<lambda>bytes.
                   Inr \<lparr>pl_title = title, pl_file = file, pl_path = p, pl_exists = True, pl_bytes = bytes\<rparr>)))"

definition inspect_persona :: "persona_fs \<Rightarrow> rstr \<Rightarrow> prompt_layer_info list res" where
  "inspect_persona fs persona_root = rtraverse (inspect_layer fs persona_root) prompt_layers"

definition append_layer :: "persona_fs \<Rightarrow> rstr list \<Rightarrow> rstr \<Rightarrow> bool \<Rightarrow> nat \<Rightarrow> rstr list res" where
  "append_layer fs sections p exists bytes =
     (if \<not> exists \<or> bytes = 0 then Inr sections
      else rbind (pfs_read fs p) (\<lambda>content.
             if trim content = [] then Inr sections else Inr (sections @ [trim_end content])))"

fun append_layers :: "persona_fs \<Rightarrow> prompt_layer_info list \<Rightarrow> rstr list \<Rightarrow> rstr list res" where
  "append_layers fs [] sections = Inr sections"
| "append_layers fs (layer # layers) sections =
     rbind (append_layer fs sections (pl_path layer) (pl_exists layer) (pl_bytes layer))
       (append_layers fs layers)"

definition from_persona :: "persona_fs \<Rightarrow> rstr \<Rightarrow> rstr res" where
  "from_persona fs persona_root =
     rbind (inspect_persona fs persona_root) (\<lambda>layers.
     rbind (append_layers fs layers []) (\<lambda>sections. Inr (join [NL, NL] sections)))"

section \<open>Skills\<close>

record skill_stats =
  ss_requested :: nat
  ss_loaded :: nat
  ss_skipped_missing :: nat
  ss_skipped_empty :: nat

record skill_definition =
  sl_id :: rstr
  sl_description :: rstr
  sl_content :: rstr

record skill_catalog =
  sc_skills :: "skill_definition list"
  sc_stats :: skill_stats

definition is_valid_skill_id :: "rstr \<Rightarrow> bool" where
  "is_valid_skill_id skill_id \<longleftrightarrow> list_all (\<lambda>c. is_ascii_alnum c \<or> c = CHR ''-'' \<or> c = CHR ''_'') skill_id"

definition invalid_skill_id :: "rstr \<Rightarrow> framework_error" where
  "invalid_skill_id skill_id = ConfigError (''invalid skill id '' @ [SQ] @ skill_id @ [SQ] @
     ''; only letters, numbers, '' @ [SQ] @ ''-'' @ [SQ] @ '' and '' @ [SQ] @ ''_'' @ [SQ] @ '' are allowed'')"

fun normalized_disabled_skill_ids :: "rstr list \<Rightarrow> rstr set \<Rightarrow> rstr set res" where
  "normalized_disabled_skill_ids [] seen = Inr seen"
| "normalized_disabled_skill_ids (raw_id # raw_ids) seen =
     (let skill_id = trim raw_id
      in if skill_id = [] then Inl (ConfigError ''tools.skills.disabled_skills entries must be non-empty'')
         else if \<not> is_valid_skill_id skill_id then Inl (invalid_skill_id skill_id)
         else normalized_disabled_skill_ids raw_ids (insert skill_id seen))"

definition skill_file :: "rstr \<Rightarrow> rstr \<Rightarrow> rstr" where
  "skill_file root skill_id = path_push (path_push (path_push root ''skills'') skill_id) ''SKILL.md''"

text \<open>The ordered set of the ids found so far is a sorted list without repetition.\<close>

fun id_insert :: "rstr \<Rightarrow> rstr list \<Rightarrow> rstr list" where
  "id_insert x [] = [x]"
| "id_insert x (y # ys) = (if x = y then y # ys else if byte_le x y then x # y # ys else y # id_insert x ys)"

fun collect_skill_entries :: "persona_fs \<Rightarrow> rstr \<Rightarrow> (rstr \<times> bool) res list \<Rightarrow> rstr list \<Rightarrow> rstr list res" where
  "collect_skill_entries fs root [] discovered = Inr discovered"
| "collect_skill_entries fs root (entry # entries) discovered =
     rbind entry (\<lambda>(skill_id, is_dir).
       if \<not> is_dir then collect_skill_entries fs root entries discovered
       else if \<not> pfs_exists fs (path_push (path_push root skill_id) ''SKILL.md'')
            then collect_skill_entries fs root entries discovered
       else if \<not> is_valid_skill_id skill_id then Inl (invalid_skill_id skill_id)
       else collect_skill_entries fs root entries (id_insert skill_id discovered))"

definition collect_skill_ids_from_root :: "persona_fs \<Rightarrow> rstr \<Rightarrow> rstr list \<Rightarrow> rstr list res" where
  "collect_skill_ids_from_root fs root discovered =
     (case pfs_dir fs root of
        None \<Rightarrow> Inr discovered
      | Some entries \<Rightarrow> rbind entries (\<lambda>entries. collect_skill_entries fs root entries discovered))"

definition discover_skill_ids :: "persona_fs \<Rightarrow> rstr \<Rightarrow> rstr \<Rightarrow> rstr list res" where
  "discover_skill_ids fs persona_root base_dir =
     rbind (collect_skill_ids_from_root fs (path_push persona_root ''skills'') [])
       (collect_skill_ids_from_root fs (path_push base_dir ''skills''))"

definition active_skill_ids :: "persona_fs \<Rightarrow> skills_tool_config \<Rightarrow> rstr \<Rightarrow> rstr \<Rightarrow> rstr list res" where
  "active_skill_ids fs skills persona_root base_dir =
     (if \<not> kl_enabled skills then Inr []
      else rbind (normalized_disabled_skill_ids (kl_disabled_skills skills) {}) (\<lambda>disabled.
           rbind (discover_skill_ids fs persona_root base_dir) (\<lambda>discovered.
             Inr (filter (\<lambda>skill_id. skill_id \<notin> disabled) discovered))))"

definition resolve_skill_path :: "persona_fs \<Rightarrow> rstr \<Rightarrow> rstr \<Rightarrow> rstr \<Rightarrow> rstr option" where
  "resolve_skill_path fs persona_root base_dir skill_id =
     (if pfs_exists fs (skill_file persona_root skill_id) then Some (skill_file persona_root skill_id)
      else if pfs_exists fs (skill_file base_dir skill_id) then Some (skill_file base_dir skill_id)
      else None)"

definition trim_matches :: "char \<Rightarrow> rstr \<Rightarrow> rstr" where
  "trim_matches c s = rev (dropWhile (\<lambda>d. d = c) (rev (dropWhile (\<lambda>d. d = c) s)))"

fun first_description :: "rstr list \<Rightarrow> rstr option" where
  "first_description [] = None"
| "first_description (line # ls) =
     (let line = trim line
      in if prefix ''description:'' line
         then (let v = trim_matches SQ (trim_matches DQ (trim (drop (length ''description:'') line)))
               in if v \<noteq> [] then Some v else first_description ls)
         else first_description ls)"

definition extract_description :: "rstr \<Rightarrow> rstr \<Rightarrow> rstr" where
  "extract_description content skill_id =
     (let fallback = ''Skill `'' @ skill_id @ ''` - call `skill` with this name to load it.'';
          trimmed = trim_start content
      in if \<not> prefix ''---'' trimmed then fallback
         else (let after_open = drop 3 trimmed
               in case find_sub (NL # ''---'') after_open of
                    None \<Rightarrow> fallback
                  | Some e \<Rightarrow>
                      (case first_description (str_lines (take e after_open)) of Some d \<Rightarrow> d | None \<Rightarrow> fallback)))"

text \<open>The loop over the ids with the skills and counts so far.\<close>

fun load_skills ::
  "persona_fs \<Rightarrow> rstr \<Rightarrow> rstr \<Rightarrow> rstr list \<Rightarrow> skill_catalog \<Rightarrow> skill_catalog res" where
  "load_skills fs persona_root base_dir [] catalog = Inr catalog"
| "load_skills fs persona_root base_dir (skill_id # ids) catalog =
     (let stats = sc_stats catalog
      in case resolve_skill_path fs persona_root base_dir skill_id of
           None \<Rightarrow> load_skills fs persona_root base_dir ids
                      (catalog\<lparr>sc_stats := stats\<lparr>ss_skipped_missing := ss_skipped_missing stats + 1\<rparr>\<rparr>)
         | Some p \<Rightarrow>
             rbind (pfs_read fs p) (\<lambda>content.
               if trim content = []
               then load_skills fs persona_root base_dir ids
                      (catalog\<lparr>sc_stats := stats\<lparr>ss_skipped_empty := ss_skipped_empty stats + 1\<rparr>\<rparr>)
               else load_skills fs persona_root base_dir ids
                      \<lparr>sc_skills = sc_skills catalog @
                         [\<lparr>sl_id = skill_id, sl_description = extract_description content skill_id, sl_content = content\<rparr>],
                       sc_stats = stats\<lparr>ss_loaded := ss_loaded stats + 1\<rparr>\<rparr>))"

definition load_skill_catalog :: "persona_fs \<Rightarrow> skills_tool_config \<Rightarrow> rstr \<Rightarrow> rstr \<Rightarrow> skill_catalog res" where
  "load_skill_catalog fs skills persona_root base_dir =
     rbind (active_skill_ids fs skills persona_root base_dir) (\<lambda>ids.
       load_skills fs persona_root base_dir ids
         \<lparr>sc_skills = [], sc_stats = \<lparr>ss_requested = length ids, ss_loaded = 0, ss_skipped_missing = 0, ss_skipped_empty = 0\<rparr>\<rparr>)"

definition load_for_agent :: "persona_fs \<Rightarrow> rstr \<Rightarrow> 'f agent_inner_config \<Rightarrow> rstr \<Rightarrow> skill_catalog res" where
  "load_for_agent fs app_base_dir config persona_root =
     load_skill_catalog fs (skills_config (inner_tools config)) persona_root app_base_dir"

definition prompt_section :: "skill_catalog \<Rightarrow> rstr" where
  "prompt_section self =
     (if sc_skills self = [] then []
      else join [NL]
             ([''# Available Skills'',
               ''You can call the `skill` tool to load the full instructions for one of these skills:''] @
              map (\<lambda>skill. ''- `'' @ sl_id skill @ ''`: '' @ sl_description skill) (sc_skills self)))"

text \<open>The tool and its call: the text of each skill by its id; a later skill replaces an earlier one.\<close>

definition skill_tool :: "skill_catalog \<Rightarrow> direct_tool option" where
  "skill_tool self =
     (if sc_skills self = [] then None
      else Some \<lparr>dt_name = ''skill'', dt_kinds = [Direct], dt_takes_config = False, dt_config = None\<rparr>)"

definition skills_by_id :: "skill_definition list \<Rightarrow> rstr \<rightharpoonup> rstr" where
  "skills_by_id skills = foldl (\<lambda>m skill. m(sl_id skill \<mapsto> sl_content skill)) Map.empty skills"

definition execute_skill :: "skill_definition list \<Rightarrow> (rstr \<Rightarrow> rstr + rstr) \<Rightarrow> rstr \<Rightarrow> rstr res" where
  "execute_skill skills parse_name args_json =
     (case parse_name args_json of
        Inl err \<Rightarrow> Inl (ToolError (''invalid arguments for skill tool: '' @ err))
      | Inr name \<Rightarrow>
          (let skill_id = trim name
           in case skills_by_id skills skill_id of
                None \<Rightarrow> Inl (ToolError (''unknown skill '' @ [SQ] @ skill_id @ [SQ]))
              | Some content \<Rightarrow> Inr content))"

section \<open>The ordered set of ids\<close>

lemma set_id_insert [simp]: "set (id_insert x ys) = insert x (set ys)"
  by (induction ys) auto

lemma sorted_id_insert: "sorted_wrt byte_less ys \<Longrightarrow> sorted_wrt byte_less (id_insert x ys)"
proof (induction ys)
  case (Cons y ys)
  have tail: "sorted_wrt byte_less (id_insert x ys)" using Cons by simp
  consider "x = y" | "x \<noteq> y" "byte_less x y" | "x \<noteq> y" "byte_less y x" "\<not> byte_le x y"
    using byte_le_total[of x y] by (auto simp: byte_less_def)
  then show ?case
  proof cases
    case 1
    then show ?thesis using Cons.prems by simp
  next
    case 2
    have "\<forall>z\<in>set ys. byte_less x z" using Cons.prems byte_less_trans[OF 2(2)] by simp
    then show ?thesis using Cons.prems 2 by (simp add: byte_less_def[of x y])
  next
    case 3
    then show ?thesis using Cons.prems tail by simp
  qed
qed simp

section \<open>What the catalog holds\<close>

definition has_skill :: "persona_fs \<Rightarrow> rstr \<Rightarrow> rstr \<Rightarrow> bool" where
  "has_skill fs root skill_id \<longleftrightarrow>
     (case pfs_dir fs (path_push root ''skills'') of
        Some (Inr entries) \<Rightarrow> Inr (skill_id, True) \<in> set entries \<and> pfs_exists fs (skill_file root skill_id)
      | _ \<Rightarrow> False)"

definition listed :: "persona_fs \<Rightarrow> rstr \<Rightarrow> (rstr \<times> bool) res list \<Rightarrow> rstr set" where
  "listed fs root entries =
     {i. Inr (i, True) \<in> set entries \<and> pfs_exists fs (path_push (path_push root i) ''SKILL.md'')}"

lemma listed_Cons:
  "listed fs root (Inr (i, is_dir) # entries) =
     (if is_dir \<and> pfs_exists fs (path_push (path_push root i) ''SKILL.md'') then insert i (listed fs root entries)
      else listed fs root entries)"
  by (auto simp: listed_def)

lemma collect_entries_ok:
  "collect_skill_entries fs root entries d = Inr d' \<Longrightarrow>
   set d' = set d \<union> listed fs root entries \<and>
   (sorted_wrt byte_less d \<longrightarrow> sorted_wrt byte_less d') \<and> (list_all is_valid_skill_id d \<longrightarrow> list_all is_valid_skill_id d')"
proof (induction entries arbitrary: d)
  case Nil
  then show ?case by (simp add: listed_def)
next
  case (Cons entry entries)
  from Cons.prems obtain i is_dir where e: "entry = Inr (i, is_dir)" by (auto simp: rbind_eq_Inr)
  show ?case
  proof (cases "is_dir \<and> pfs_exists fs (path_push (path_push root i) ''SKILL.md'')")
    case False
    then have "collect_skill_entries fs root entries d = Inr d'" using Cons.prems e by (auto split: if_splits)
    moreover have "listed fs root (entry # entries) = listed fs root entries" unfolding e listed_Cons by (rule if_not_P[OF False])
    ultimately show ?thesis using Cons.IH[of d] by simp
  next
    case True
    then have v: "is_valid_skill_id i" and c: "collect_skill_entries fs root entries (id_insert i d) = Inr d'"
      using Cons.prems e by (auto split: if_splits)
    have l: "list_all is_valid_skill_id (id_insert i d)" if "list_all is_valid_skill_id d"
      using that v by (simp add: list_all_iff)
    have "listed fs root (entry # entries) = insert i (listed fs root entries)" unfolding e listed_Cons by (rule if_P[OF True])
    then show ?thesis using Cons.IH[OF c] sorted_id_insert[of d i] l by auto
  qed
qed

lemma collect_root_ok:
  assumes "collect_skill_ids_from_root fs (path_push root ''skills'') d = Inr d'"
  shows "set d' = set d \<union> {i. has_skill fs root i}" "sorted_wrt byte_less d \<Longrightarrow> sorted_wrt byte_less d'"
    "list_all is_valid_skill_id d \<Longrightarrow> list_all is_valid_skill_id d'"
proof -
  have "set d' = set d \<union> {i. has_skill fs root i} \<and> (sorted_wrt byte_less d \<longrightarrow> sorted_wrt byte_less d') \<and>
      (list_all is_valid_skill_id d \<longrightarrow> list_all is_valid_skill_id d')"
  proof (cases "pfs_dir fs (path_push root ''skills'')")
    case None
    then show ?thesis using assms by (simp add: collect_skill_ids_from_root_def has_skill_def)
  next
    case (Some r)
    then obtain entries where e: "r = Inr entries" and c: "collect_skill_entries fs (path_push root ''skills'') entries d = Inr d'"
      using assms by (auto simp: collect_skill_ids_from_root_def rbind_eq_Inr)
    show ?thesis using collect_entries_ok[OF c] by (simp add: has_skill_def Some e skill_file_def listed_def)
  qed
  then show "set d' = set d \<union> {i. has_skill fs root i}" "sorted_wrt byte_less d \<Longrightarrow> sorted_wrt byte_less d'"
    "list_all is_valid_skill_id d \<Longrightarrow> list_all is_valid_skill_id d'" by auto
qed

lemma disabled_ok:
  "normalized_disabled_skill_ids ids seen = Inr r \<Longrightarrow> r = seen \<union> trim ` set ids"
  by (induction ids seen rule: normalized_disabled_skill_ids.induct) (auto simp: Let_def split: if_splits)

lemma discovered_ok:
  assumes "discover_skill_ids fs persona base = Inr d"
  shows "set d = {i. has_skill fs persona i \<or> has_skill fs base i}" "sorted_wrt byte_less d" "list_all is_valid_skill_id d"
proof -
  from assms obtain d0 where d0: "collect_skill_ids_from_root fs (path_push persona ''skills'') [] = Inr d0"
    "collect_skill_ids_from_root fs (path_push base ''skills'') d0 = Inr d"
    by (auto simp: discover_skill_ids_def rbind_eq_Inr)
  note a = collect_root_ok[OF d0(1)] and b = collect_root_ok[OF d0(2)]
  show "set d = {i. has_skill fs persona i \<or> has_skill fs base i}" using a(1) b(1) by auto
  show "sorted_wrt byte_less d" using a(2) b(2) by simp
  show "list_all is_valid_skill_id d" using a(3) b(3) by simp
qed

definition skill_text :: "persona_fs \<Rightarrow> rstr \<Rightarrow> rstr \<Rightarrow> rstr \<Rightarrow> rstr res" where
  "skill_text fs persona base i =
     pfs_read fs (if pfs_exists fs (skill_file persona i) then skill_file persona i else skill_file base i)"

definition loadable :: "persona_fs \<Rightarrow> rstr \<Rightarrow> rstr \<Rightarrow> rstr \<Rightarrow> bool" where
  "loadable fs persona base i \<longleftrightarrow> (\<exists>content. skill_text fs persona base i = Inr content \<and> trim content \<noteq> [])"

lemma has_skill_file: "has_skill fs root i \<Longrightarrow> pfs_exists fs (skill_file root i)"
  by (simp add: has_skill_def split: option.splits sum.splits)

lemma load_skills_ok:
  "load_skills fs persona base ids c = Inr c' \<Longrightarrow> \<forall>i\<in>set ids. resolve_skill_path fs persona base i \<noteq> None \<Longrightarrow>
   \<exists>new. sc_skills c' = sc_skills c @ new \<and> map sl_id new = filter (loadable fs persona base) ids \<and>
     (\<forall>k\<in>set new. skill_text fs persona base (sl_id k) = Inr (sl_content k) \<and>
        sl_description k = extract_description (sl_content k) (sl_id k)) \<and>
     ss_requested (sc_stats c') = ss_requested (sc_stats c) \<and> ss_loaded (sc_stats c') = ss_loaded (sc_stats c) + length new \<and>
     ss_skipped_missing (sc_stats c') = ss_skipped_missing (sc_stats c) \<and>
     ss_skipped_empty (sc_stats c') + length new = ss_skipped_empty (sc_stats c) + length ids"
proof (induction ids arbitrary: c)
  case (Cons i ids)
  from Cons.prems(2) obtain p where p: "resolve_skill_path fs persona base i = Some p" by auto
  then have t: "skill_text fs persona base i = pfs_read fs p"
    by (auto simp: resolve_skill_path_def skill_text_def split: if_splits)
  from Cons.prems(1) p obtain content where r: "pfs_read fs p = Inr content" by (auto simp: Let_def rbind_eq_Inr)
  have rest: "\<forall>i\<in>set ids. resolve_skill_path fs persona base i \<noteq> None" using Cons.prems(2) by simp
  show ?case
  proof (cases "trim content = []")
    case True
    then have l: "\<not> loadable fs persona base i" using t r by (simp add: loadable_def)
    from True Cons.prems(1) p r have "load_skills fs persona base ids
        (c\<lparr>sc_stats := (sc_stats c)\<lparr>ss_skipped_empty := ss_skipped_empty (sc_stats c) + 1\<rparr>\<rparr>) = Inr c'" by (simp add: Let_def)
    from Cons.IH[OF this rest] l show ?thesis by auto
  next
    case False
    then have l: "loadable fs persona base i" using t r by (simp add: loadable_def)
    let ?k = "\<lparr>sl_id = i, sl_description = extract_description content i, sl_content = content\<rparr>"
    from False Cons.prems(1) p r have "load_skills fs persona base ids
        \<lparr>sc_skills = sc_skills c @ [?k], sc_stats = (sc_stats c)\<lparr>ss_loaded := ss_loaded (sc_stats c) + 1\<rparr>\<rparr> = Inr c'"
      by (simp add: Let_def)
    from Cons.IH[OF this rest] obtain new where new: "sc_skills c' = sc_skills c @ ?k # new"
      "map sl_id new = filter (loadable fs persona base) ids"
      "\<forall>k\<in>set new. skill_text fs persona base (sl_id k) = Inr (sl_content k) \<and>
        sl_description k = extract_description (sl_content k) (sl_id k)"
      "ss_requested (sc_stats c') = ss_requested (sc_stats c)" "ss_loaded (sc_stats c') = ss_loaded (sc_stats c) + 1 + length new"
      "ss_skipped_missing (sc_stats c') = ss_skipped_missing (sc_stats c)"
      "ss_skipped_empty (sc_stats c') + length new = ss_skipped_empty (sc_stats c) + length ids" by auto
    then show ?thesis using l t r by (intro exI[of _ "?k # new"]) simp
  qed
qed simp

lemma catalog_exact:
  assumes "load_skill_catalog fs skills persona base = Inr catalog"
  shows "sorted_wrt byte_less (map sl_id (sc_skills catalog)) \<and>
    (\<forall>i. i \<in> set (map sl_id (sc_skills catalog)) \<longleftrightarrow>
       kl_enabled skills \<and> (has_skill fs persona i \<or> has_skill fs base i) \<and> i \<notin> trim ` set (kl_disabled_skills skills) \<and>
       loadable fs persona base i) \<and>
    (\<forall>k\<in>set (sc_skills catalog). is_valid_skill_id (sl_id k) \<and> skill_text fs persona base (sl_id k) = Inr (sl_content k)) \<and>
    ss_skipped_missing (sc_stats catalog) = 0 \<and> ss_loaded (sc_stats catalog) = length (sc_skills catalog) \<and>
    ss_loaded (sc_stats catalog) + ss_skipped_empty (sc_stats catalog) = ss_requested (sc_stats catalog)"
proof -
  let ?start = "\<lambda>ids. \<lparr>sc_skills = [], sc_stats = \<lparr>ss_requested = length ids, ss_loaded = 0, ss_skipped_missing = 0, ss_skipped_empty = 0\<rparr>\<rparr>"
  from assms obtain ids where ids: "active_skill_ids fs skills persona base = Inr ids"
    and load: "load_skills fs persona base ids (?start ids) = Inr catalog"
    by (auto simp: load_skill_catalog_def rbind_eq_Inr)
  have act: "sorted_wrt byte_less ids \<and> list_all is_valid_skill_id ids \<and> (\<forall>i. i \<in> set ids \<longleftrightarrow>
      kl_enabled skills \<and> (has_skill fs persona i \<or> has_skill fs base i) \<and> i \<notin> trim ` set (kl_disabled_skills skills))"
  proof (cases "kl_enabled skills")
    case False
    then show ?thesis using ids by (simp add: active_skill_ids_def)
  next
    case True
    then obtain disabled d where d: "normalized_disabled_skill_ids (kl_disabled_skills skills) {} = Inr disabled"
      "discover_skill_ids fs persona base = Inr d" "ids = filter (\<lambda>i. i \<notin> disabled) d"
      using ids by (auto simp: active_skill_ids_def rbind_eq_Inr)
    then show ?thesis using True discovered_ok[OF d(2)] disabled_ok[OF d(1)]
      by (auto simp: list_all_iff sorted_wrt_filter)
  qed
  have "\<forall>i\<in>set ids. resolve_skill_path fs persona base i \<noteq> None"
    using act has_skill_file[of fs persona] has_skill_file[of fs base] by (auto simp: resolve_skill_path_def)
  from load_skills_ok[OF load this] obtain new where new: "sc_skills catalog = new"
    "map sl_id new = filter (loadable fs persona base) ids"
    "\<forall>k\<in>set new. skill_text fs persona base (sl_id k) = Inr (sl_content k)"
    "ss_requested (sc_stats catalog) = length ids" "ss_loaded (sc_stats catalog) = length new"
    "ss_skipped_missing (sc_stats catalog) = 0" "ss_skipped_empty (sc_stats catalog) + length new = length ids" by auto
  have "is_valid_skill_id (sl_id k)" if "k \<in> set new" for k
  proof -
    have "sl_id k \<in> set (map sl_id new)" using that by simp
    then have "sl_id k \<in> set ids" unfolding new(2) by simp
    then show ?thesis using act by (simp add: list_all_iff)
  qed
  moreover have "sorted_wrt byte_less (map sl_id new)" unfolding new(2) using act by (simp add: sorted_wrt_filter)
  moreover have "\<forall>i. i \<in> set (map sl_id new) \<longleftrightarrow> i \<in> set ids \<and> loadable fs persona base i" unfolding new(2) by auto
  ultimately show ?thesis using new act by simp
qed

section \<open>The layers that reach the prompt\<close>

definition layer_text :: "persona_fs \<Rightarrow> prompt_layer_info \<Rightarrow> rstr list" where
  "layer_text fs layer =
     (if pl_exists layer \<and> pl_bytes layer \<noteq> 0
      then (case pfs_read fs (pl_path layer) of
              Inr content \<Rightarrow> if trim content = [] then [] else [trim_end content]
            | Inl _ \<Rightarrow> [])
      else [])"

lemma append_layers_ok:
  "append_layers fs layers sections = Inr r \<Longrightarrow> r = sections @ concat (map (layer_text fs) layers)"
proof (induction layers arbitrary: sections)
  case (Cons layer layers)
  then obtain sections' where a: "append_layer fs sections (pl_path layer) (pl_exists layer) (pl_bytes layer) = Inr sections'"
    and b: "append_layers fs layers sections' = Inr r" by (auto simp: rbind_eq_Inr)
  have "sections' = sections @ layer_text fs layer"
    using a by (auto simp: append_layer_def layer_text_def rbind_eq_Inr split: if_splits)
  with Cons.IH[OF b] show ?case by simp
qed simp

text \<open>A persona without any file gives an empty prompt, never an error.\<close>

lemma empty_persona_prompt:
  assumes "\<And>p. \<not> pfs_exists fs p"
  shows "from_persona fs root = Inr []"
proof -
  have l: "inspect_layer fs root (t, f) = Inr \<lparr>pl_title = t, pl_file = f, pl_path = path_push root f,
      pl_exists = False, pl_bytes = 0\<rparr>" for t f
    using assms by (simp add: inspect_layer_def Let_def)
  show ?thesis
    by (simp add: from_persona_def inspect_persona_def prompt_layers_def rbind_def l append_layer_def)
qed

section \<open>Properties\<close>

text \<open>
  C30. Whatever the directories hold, a catalog that is built lists, in the order of the ids and
  without repetition, exactly the skills that are found in the persona or in the base directory,
  are not disabled and have a text that is not blank, and none when skills are turned off; each
  with a valid id and the text of the persona's file where it has one, else of the base
  directory's file. No skill is ever counted as missing, and every skill that was asked for is
  either loaded or skipped as empty.
\<close>

theorem skill_catalog_exact:
  assumes "load_skill_catalog fs skills persona base = Inr catalog"
  shows "sorted_wrt byte_less (map sl_id (sc_skills catalog)) \<and>
    (\<forall>i. i \<in> set (map sl_id (sc_skills catalog)) \<longleftrightarrow>
       kl_enabled skills \<and> (has_skill fs persona i \<or> has_skill fs base i) \<and> i \<notin> trim ` set (kl_disabled_skills skills) \<and>
       loadable fs persona base i) \<and>
    (\<forall>k\<in>set (sc_skills catalog). is_valid_skill_id (sl_id k) \<and> skill_text fs persona base (sl_id k) = Inr (sl_content k)) \<and>
    ss_skipped_missing (sc_stats catalog) = 0 \<and> ss_loaded (sc_stats catalog) = length (sc_skills catalog) \<and>
    ss_loaded (sc_stats catalog) + ss_skipped_empty (sc_stats catalog) = ss_requested (sc_stats catalog)"
  by (rule catalog_exact[OF assms])

definition sample_fs :: persona_fs where
  "sample_fs = \<lparr>
     pfs_exists = (\<lambda>p. p \<in> {''p/skills/b/SKILL.md'', ''g/skills/b/SKILL.md'', ''g/skills/a/SKILL.md'', ''g/skills/c/SKILL.md''}),
     pfs_size = (\<lambda>_. Inr 1),
     pfs_read = (\<lambda>p. if p = ''p/skills/b/SKILL.md'' then Inr ''own'' else if p = ''g/skills/c/SKILL.md'' then Inr '' '' else Inr ''shared''),
     pfs_dir = (\<lambda>p. if p = ''p/skills'' then Some (Inr [Inr (''b'', True)])
                    else if p = ''g/skills'' then Some (Inr [Inr (''c'', True), Inr (''b'', True), Inr (''a'', True), Inr (''x'', False)])
                    else None)\<rparr>"

definition sample_skills :: skills_tool_config where
  "sample_skills = default_skills\<lparr>kl_enabled := True, kl_disabled_skills := []\<rparr>"

lemma sample_catalog:
  "load_skill_catalog sample_fs sample_skills ''p'' ''g'' = Inr
     \<lparr>sc_skills = [\<lparr>sl_id = ''a'', sl_description = ''Skill `a` - call `skill` with this name to load it.'', sl_content = ''shared''\<rparr>,
        \<lparr>sl_id = ''b'', sl_description = ''Skill `b` - call `skill` with this name to load it.'', sl_content = ''own''\<rparr>],
      sc_stats = \<lparr>ss_requested = 3, ss_loaded = 2, ss_skipped_missing = 0, ss_skipped_empty = 1\<rparr>\<rparr>"
  by code_simp

theorem skill_catalog_exact_witness:
  "\<exists>catalog. load_skill_catalog sample_fs sample_skills ''p'' ''g'' = Inr catalog \<and>
     length (sc_skills catalog) = 2 \<and> sorted_wrt byte_less (map sl_id (sc_skills catalog)) \<and>
     ss_skipped_missing (sc_stats catalog) = 0"
  using skill_catalog_exact[OF sample_catalog] sample_catalog by simp

end
