(* ===== verification/Auth.thy ===== *)
theory Auth
  imports ConfigLoad ToolArgs Ordered
begin

text \<open>
  \<open>src/auth/mod.rs\<close> and \<open>src/auth/openai_oauth.rs\<close>: the file with the login profiles, its lock,
  the operations on it and the tokens of OpenAI. The JSON, base64, hash, URL and HTTP libraries,
  the terminal, the clock and the failures of system calls are arguments.
\<close>

section \<open>Profiles\<close>

record token_set =
  tk_access_token :: rstr
  tk_refresh_token :: "rstr option"
  tk_id_token :: "rstr option"
  tk_expires_at_unix :: "int option"
  tk_token_type :: "rstr option"
  tk_scope :: "rstr option"

definition i64_saturating_add :: "int \<Rightarrow> int \<Rightarrow> int" where
  "i64_saturating_add a b = max (- (2 ^ 63)) (min (2 ^ 63 - 1) (a + b))"

definition is_expiring_within :: "int \<Rightarrow> token_set \<Rightarrow> int \<Rightarrow> bool" where
  "is_expiring_within now self skew =
     (case tk_expires_at_unix self of None \<Rightarrow> False | Some expires \<Rightarrow> i64_saturating_add now skew \<ge> expires)"

record auth_profile =
  ap_id :: rstr
  ap_provider :: rstr
  ap_profile_name :: rstr
  ap_account_id :: "rstr option"
  ap_token_set :: token_set
  ap_created_at_unix :: int
  ap_updated_at_unix :: int

record auth_data =
  ad_schema_version :: nat
  ad_updated_at_unix :: int
  ad_active_profiles :: "(rstr \<times> rstr) list"
  ad_profiles :: "(rstr \<times> auth_profile) list"

definition auth_schema_version :: nat where
  "auth_schema_version = 1"

definition openai_refresh_skew_secs :: int where
  "openai_refresh_skew_secs = 90"

definition default_auth_data :: "int \<Rightarrow> auth_data" where
  "default_auth_data now = \<lparr>ad_schema_version = auth_schema_version, ad_updated_at_unix = now,
     ad_active_profiles = [], ad_profiles = []\<rparr>"

definition openai_codex_provider :: rstr where
  "openai_codex_provider = ''openai_codex''"

definition auth_profile_id :: "rstr \<Rightarrow> rstr \<Rightarrow> rstr" where
  "auth_profile_id provider profile_name = provider @ '':'' @ profile_name"

definition normalize_profile_name :: "rstr \<Rightarrow> rstr res" where
  "normalize_profile_name profile_name =
     (if trim profile_name = [] then Inl (ConfigError ''profile name cannot be empty'')
      else Inr (trim profile_name))"

text \<open>\<open>min_by\<close> keeps the first of several least elements.\<close>

fun min_profile :: "auth_profile list \<Rightarrow> auth_profile option" where
  "min_profile [] = None"
| "min_profile (p # ps) =
     (case min_profile ps of
        None \<Rightarrow> Some p
      | Some q \<Rightarrow> Some (if byte_le (ap_profile_name p) (ap_profile_name q) then p else q))"

definition provider_profiles :: "auth_data \<Rightarrow> rstr \<Rightarrow> auth_profile list" where
  "provider_profiles data provider = filter (\<lambda>p. ap_provider p = provider) (map snd (ad_profiles data))"

definition first_profile_id_for_provider :: "auth_data \<Rightarrow> rstr \<Rightarrow> rstr option" where
  "first_profile_id_for_provider data provider = map_option ap_id (min_profile (provider_profiles data provider))"

definition repair_stale_active_profile :: "auth_data \<Rightarrow> rstr \<Rightarrow> auth_data \<times> bool" where
  "repair_stale_active_profile data provider =
     (case map_of (ad_active_profiles data) provider of
        None \<Rightarrow> (data, False)
      | Some active_id \<Rightarrow>
          if map_of (ad_profiles data) active_id \<noteq> None then (data, False)
          else (case first_profile_id_for_provider data provider of
                  Some fallback_id \<Rightarrow>
                    (data\<lparr>ad_active_profiles := bt_insert provider fallback_id (ad_active_profiles data)\<rparr>, True)
                | None \<Rightarrow> (data\<lparr>ad_active_profiles := bt_remove provider (ad_active_profiles data)\<rparr>, True)))"

section \<open>The file of the store\<close>

text \<open>
  What the outside does during one critical section: the lock file, the attempts at the lock (each
  with the milliseconds since the start), the reading and the writing of the file, the clock.
\<close>

datatype lock_attempt = Acquired | WouldBlock | Interrupted | LockError rstr

record store_env =
  sn_path :: rstr
  sn_create_dir :: "rstr option"
  sn_open_lock :: "rstr option"
  sn_attempts :: "(lock_attempt \<times> nat) list"
  sn_unlock :: "rstr option"
  sn_read :: "rstr option"
  sn_write :: "rstr option"       \<comment> \<open>a failure before the new file replaces the old one\<close>
  sn_permissions :: "rstr option" \<comment> \<open>a failure after it\<close>
  sn_now :: int
  sn_parse :: "rstr \<Rightarrow> rstr + auth_data"
  sn_print :: "auth_data \<Rightarrow> rstr + rstr"

definition lock_path_for_auth_store :: "rstr \<Rightarrow> rstr" where
  "lock_path_for_auth_store path = path @ ''.lock''"

definition auth_lock_timeout_ms :: nat where
  "auth_lock_timeout_ms = 5000"

definition auth_lock_retry_interval_ms :: nat where
  "auth_lock_retry_interval_ms = 25"

text \<open>\<open>None\<close>: the attempts given are not enough.\<close>

fun acquire_lock_with_timeout :: "(lock_attempt \<times> nat) list \<Rightarrow> rstr \<Rightarrow> nat \<Rightarrow> unit res option" where
  "acquire_lock_with_timeout [] lock_path timeout = None"
| "acquire_lock_with_timeout ((Acquired, elapsed) # attempts) lock_path timeout = Some (Inr ())"
| "acquire_lock_with_timeout ((WouldBlock, elapsed) # attempts) lock_path timeout =
     (if elapsed \<ge> timeout
      then Some (Inl (IoError (''timed out acquiring auth lock '' @ lock_path @ '' after '' @ show_nat elapsed @ ''ms'')))
      else acquire_lock_with_timeout attempts lock_path timeout)"
| "acquire_lock_with_timeout ((Interrupted, elapsed) # attempts) lock_path timeout =
     acquire_lock_with_timeout attempts lock_path timeout"
| "acquire_lock_with_timeout ((LockError err, elapsed) # attempts) lock_path timeout =
     Some (Inl (IoError (''failed to acquire auth lock '' @ lock_path @ '': '' @ err)))"

text \<open>The file is its text, or absent.\<close>

type_synonym auth_file = "rstr option"

definition load_unlocked :: "store_env \<Rightarrow> auth_file \<Rightarrow> auth_data res" where
  "load_unlocked env disk =
     (case sn_read env of
        Some err \<Rightarrow> Inl (IoError err)
      | None \<Rightarrow>
          (case disk of
             None \<Rightarrow> Inr (default_auth_data (sn_now env))
           | Some content \<Rightarrow>
               if trim content = [] then Inr (default_auth_data (sn_now env))
               else (case sn_parse env content of
                       Inl err \<Rightarrow> Inl (ConfigError (''failed to parse auth store '' @ sn_path env @ '': '' @ err))
                     | Inr data \<Rightarrow> Inr data)))"

definition auth_write_file_atomic :: "store_env \<Rightarrow> rstr \<Rightarrow> auth_file \<Rightarrow> auth_file \<times> unit res" where
  "auth_write_file_atomic env content disk =
     (case sn_write env of
        Some err \<Rightarrow> (disk, Inl (IoError err))
      | None \<Rightarrow>
          (case sn_permissions env of
             Some err \<Rightarrow> (Some content, Inl (IoError err))
           | None \<Rightarrow> (Some content, Inr ())))"

definition save_unlocked :: "store_env \<Rightarrow> auth_data \<Rightarrow> auth_file \<Rightarrow> auth_file \<times> unit res" where
  "save_unlocked env data disk =
     (case sn_print env data of
        Inl err \<Rightarrow> (disk, Inl (ConfigError (''failed to serialize auth store: '' @ err)))
      | Inr serialized \<Rightarrow> auth_write_file_atomic env serialized disk)"

definition with_lock :: "store_env \<Rightarrow> (auth_file \<Rightarrow> auth_file \<times> 'a res) \<Rightarrow> auth_file \<Rightarrow> auth_file \<times> 'a res option" where
  "with_lock env f disk =
     (case sn_create_dir env of
        Some err \<Rightarrow> (disk, Some (Inl (IoError err)))
      | None \<Rightarrow>
     (let lock_path = lock_path_for_auth_store (sn_path env)
      in case sn_open_lock env of
           Some err \<Rightarrow> (disk, Some (Inl (IoError (''failed to open auth lock file '' @ lock_path @ '': '' @ err))))
         | None \<Rightarrow>
      (case acquire_lock_with_timeout (sn_attempts env) lock_path auth_lock_timeout_ms of
         None \<Rightarrow> (disk, None)
       | Some (Inl e) \<Rightarrow> (disk, Some (Inl e))
       | Some (Inr _) \<Rightarrow>
           (case f disk of
              (disk', result) \<Rightarrow>
                (case (result, sn_unlock env) of
                   (Inr v, None) \<Rightarrow> (disk', Some (Inr v))
                 | (Inl e, _) \<Rightarrow> (disk', Some (Inl e))
                 | (Inr _, Some err) \<Rightarrow>
                     (disk', Some (Inl (IoError (''failed to release auth lock '' @ lock_path @ '': '' @ err)))))))))"

definition with_exclusive_data ::
  "store_env \<Rightarrow> (auth_data \<Rightarrow> (auth_data \<times> bool \<times> 'a) res) \<Rightarrow> auth_file \<Rightarrow> auth_file \<times> 'a res option" where
  "with_exclusive_data env f =
     with_lock env (\<lambda>disk.
       case rbind (load_unlocked env disk) f of
         Inl e \<Rightarrow> (disk, Inl e)
       | Inr (data, changed, v) \<Rightarrow>
           if changed
           then (case save_unlocked env (data\<lparr>ad_updated_at_unix := sn_now env\<rparr>) disk of
                   (disk', r) \<Rightarrow> (disk', rbind r (\<lambda>_. Inr v)))
           else (disk, Inr v))"

section \<open>The operations of the store\<close>

fun insert_by_name :: "auth_profile \<Rightarrow> auth_profile list \<Rightarrow> auth_profile list" where
  "insert_by_name p [] = [p]"
| "insert_by_name p (q # qs) =
     (if byte_le (ap_profile_name p) (ap_profile_name q) then p # q # qs else q # insert_by_name p qs)"

definition list_profiles ::
  "store_env \<Rightarrow> rstr \<Rightarrow> auth_file \<Rightarrow> auth_file \<times> (rstr option \<times> auth_profile list) res option" where
  "list_profiles env provider =
     with_exclusive_data env (\<lambda>data.
       (case repair_stale_active_profile data provider of
          (data, changed) \<Rightarrow>
            Inr (data, changed, map_of (ad_active_profiles data) provider,
                 foldr insert_by_name (provider_profiles data provider) [])))"

definition get_profile :: "store_env \<Rightarrow> rstr \<Rightarrow> rstr option \<Rightarrow> auth_file \<Rightarrow> auth_file \<times> auth_profile option res option" where
  "get_profile env provider profile_override =
     with_exclusive_data env (\<lambda>data.
       (case repair_stale_active_profile data provider of
          (data, changed) \<Rightarrow>
            (case profile_override of
               Some profile_name \<Rightarrow>
                 rbind (normalize_profile_name profile_name) (\<lambda>name.
                   Inr (data, changed, map_of (ad_profiles data) (auth_profile_id provider name)))
             | None \<Rightarrow>
                 (case map_of (ad_active_profiles data) provider of
                    Some active \<Rightarrow> Inr (data, changed, map_of (ad_profiles data) active)
                  | None \<Rightarrow>
                      (case first_profile_id_for_provider data provider of
                         Some f \<Rightarrow> Inr (data, changed, map_of (ad_profiles data) f)
                       | None \<Rightarrow> Inr (data, changed, None))))))"

definition upsert_oauth_profile ::
  "store_env \<Rightarrow> rstr \<Rightarrow> rstr \<Rightarrow> token_set \<Rightarrow> rstr option \<Rightarrow> bool \<Rightarrow> auth_file \<Rightarrow> auth_file \<times> unit res option" where
  "upsert_oauth_profile env provider profile_name token_set account_id set_active =
     with_lock env (\<lambda>disk.
       case load_unlocked env disk of
         Inl e \<Rightarrow> (disk, Inl e)
       | Inr data \<Rightarrow>
           (let now = sn_now env;
                i = auth_profile_id provider profile_name;
                created = (case map_of (ad_profiles data) i of Some existing \<Rightarrow> ap_created_at_unix existing | None \<Rightarrow> now);
                profile = \<lparr>ap_id = i, ap_provider = provider, ap_profile_name = profile_name, ap_account_id = account_id,
                           ap_token_set = token_set, ap_created_at_unix = created, ap_updated_at_unix = now\<rparr>;
                data = data\<lparr>ad_profiles := bt_insert i profile (ad_profiles data)\<rparr>;
                data = (if set_active then data\<lparr>ad_active_profiles := bt_insert provider i (ad_active_profiles data)\<rparr> else data)
            in save_unlocked env (data\<lparr>ad_updated_at_unix := now\<rparr>) disk))"

text \<open>Without a profile; when it was the active one, the first of the others takes its place.\<close>

definition drop_profile :: "auth_data \<Rightarrow> rstr \<Rightarrow> rstr \<Rightarrow> auth_data" where
  "drop_profile data provider i =
     (let data = data\<lparr>ad_profiles := bt_remove i (ad_profiles data)\<rparr>
      in if map_of (ad_active_profiles data) provider = Some i
         then (let data = data\<lparr>ad_active_profiles := bt_remove provider (ad_active_profiles data)\<rparr>
               in case first_profile_id_for_provider data provider of
                    Some n \<Rightarrow> data\<lparr>ad_active_profiles := bt_insert provider n (ad_active_profiles data)\<rparr>
                  | None \<Rightarrow> data)
         else data)"

definition remove_profile :: "store_env \<Rightarrow> rstr \<Rightarrow> rstr option \<Rightarrow> auth_file \<Rightarrow> auth_file \<times> bool res option" where
  "remove_profile env provider profile_name =
     with_lock env (\<lambda>disk.
       case load_unlocked env disk of
         Inl e \<Rightarrow> (disk, Inl e)
       | Inr data \<Rightarrow>
           (let data = fst (repair_stale_active_profile data provider);
                target = (case profile_name of
                            Some name \<Rightarrow> rbind (normalize_profile_name name) (\<lambda>n. Inr (Some (auth_profile_id provider n)))
                          | None \<Rightarrow> Inr (map_of (ad_active_profiles data) provider))
            in case target of
                 Inl e \<Rightarrow> (disk, Inl e)
               | Inr None \<Rightarrow> (disk, Inr False)
               | Inr (Some i) \<Rightarrow>
                   if map_of (ad_profiles data) i = None then (disk, Inr False)
                   else
                     (case save_unlocked env ((drop_profile data provider i)\<lparr>ad_updated_at_unix := sn_now env\<rparr>) disk of
                        (disk', r) \<Rightarrow> (disk', rbind r (\<lambda>_. Inr True)))))"

definition update_profile :: "store_env \<Rightarrow> auth_profile \<Rightarrow> auth_file \<Rightarrow> auth_file \<times> unit res option" where
  "update_profile env profile =
     with_lock env (\<lambda>disk.
       case load_unlocked env disk of
         Inl e \<Rightarrow> (disk, Inl e)
       | Inr data \<Rightarrow>
           save_unlocked env (data\<lparr>ad_profiles := bt_insert (ap_id profile) profile (ad_profiles data),
                                   ad_updated_at_unix := sn_now env\<rparr>) disk)"

section \<open>The OAuth requests\<close>

record token_response =
  tn_access_token :: rstr
  tn_refresh_token :: "rstr option"
  tn_id_token :: "rstr option"
  tn_expires_in :: "int option"
  tn_token_type :: "rstr option"
  tn_scope :: "rstr option"

record http_response =
  hp_status :: nat
  hp_status_text :: rstr          \<comment> \<open>the status as it is printed\<close>
  hp_body :: "rstr + rstr"        \<comment> \<open>the whole body, or why it cannot be read\<close>

record oauth_library =
  ol_sha256 :: "rstr \<Rightarrow> rstr"
  ol_base64url :: "rstr \<Rightarrow> rstr"
  ol_unbase64url :: "rstr \<Rightarrow> rstr option"
  ol_form :: "(rstr \<times> rstr) list \<Rightarrow> rstr"
  ol_unform :: "rstr \<Rightarrow> (rstr \<times> rstr) list"
  ol_url :: "rstr \<Rightarrow> rstr + (rstr \<times> rstr option)"   \<comment> \<open>path and query\<close>
  ol_json :: json_parser
  ol_error_response :: "rstr \<Rightarrow> (rstr \<times> rstr option) option"
  ol_token_response :: "http_response \<Rightarrow> rstr + token_response"

type_synonym oauth_http = "rstr \<Rightarrow> (rstr \<times> rstr) list \<Rightarrow> rstr + http_response"

definition is_http_success :: "http_response \<Rightarrow> bool" where
  "is_http_success response \<longleftrightarrow> 200 \<le> hp_status response \<and> hp_status response < 300"

definition oauth_client_id :: rstr where
  "oauth_client_id = ''app_EMoamEEZ73f0CkXaXp7hrann''"

definition oauth_authorize_url :: rstr where
  "oauth_authorize_url = ''https://auth.openai.com/oauth/authorize''"

definition oauth_token_url :: rstr where
  "oauth_token_url = ''https://auth.openai.com/oauth/token''"

definition oauth_redirect_uri :: rstr where
  "oauth_redirect_uri = ''http://localhost:1455/auth/callback''"

definition oauth_error :: "rstr \<Rightarrow> framework_error" where
  "oauth_error message = ProviderError (''OpenAI OAuth '' @ message)"

record pkce_state =
  pk_code_verifier :: rstr
  pk_code_challenge :: rstr
  pk_state :: rstr

text \<open>The random bytes are arguments: 48 for the verifier, 24 for the state.\<close>

definition generate_pkce_state :: "oauth_library \<Rightarrow> rstr \<Rightarrow> rstr \<Rightarrow> pkce_state" where
  "generate_pkce_state lib verifier_bytes state_bytes =
     (let code_verifier = ol_base64url lib verifier_bytes
      in \<lparr>pk_code_verifier = code_verifier,
          pk_code_challenge = ol_base64url lib (ol_sha256 lib code_verifier),
          pk_state = ol_base64url lib state_bytes\<rparr>)"

definition build_authorize_url :: "oauth_library \<Rightarrow> pkce_state \<Rightarrow> rstr" where
  "build_authorize_url lib pkce =
     oauth_authorize_url @ ''?'' @ ol_form lib
       [(''response_type'', ''code''), (''client_id'', oauth_client_id), (''redirect_uri'', oauth_redirect_uri),
        (''scope'', ''openid profile email offline_access''), (''code_challenge'', pk_code_challenge pkce),
        (''code_challenge_method'', ''S256''), (''state'', pk_state pkce),
        (''codex_cli_simplified_flow'', ''true''), (''id_token_add_organizations'', ''true'')]"

definition parse_token_response :: "oauth_library \<Rightarrow> int \<Rightarrow> http_response \<Rightarrow> token_set res" where
  "parse_token_response lib now response =
     (if \<not> is_http_success response
      then (let body = (case hp_body response of Inr body \<Rightarrow> body | Inl _ \<Rightarrow> []);
                detail = (case ol_error_response lib body of
                            Some (err, description) \<Rightarrow> (case description of Some d \<Rightarrow> d | None \<Rightarrow> err)
                          | None \<Rightarrow> body)
            in Inl (oauth_error (''token request failed ('' @ hp_status_text response @ ''): '' @ detail)))
      else (case ol_token_response lib response of
              Inl err \<Rightarrow> Inl (oauth_error (''failed to parse token response: '' @ err))
            | Inr token \<Rightarrow>
                Inr \<lparr>tk_access_token = tn_access_token token, tk_refresh_token = tn_refresh_token token,
                     tk_id_token = tn_id_token token,
                     tk_expires_at_unix = Option.bind (tn_expires_in token)
                       (\<lambda>seconds. if seconds \<le> 0 then None else Some (i64_saturating_add now seconds)),
                     tk_token_type = tn_token_type token, tk_scope = tn_scope token\<rparr>))"

definition exchange_code_for_tokens ::
  "oauth_library \<Rightarrow> oauth_http \<Rightarrow> int \<Rightarrow> rstr \<Rightarrow> pkce_state \<Rightarrow> token_set res" where
  "exchange_code_for_tokens lib post now code pkce =
     (case post oauth_token_url
             [(''grant_type'', ''authorization_code''), (''code'', code), (''client_id'', oauth_client_id),
              (''redirect_uri'', oauth_redirect_uri), (''code_verifier'', pk_code_verifier pkce)] of
        Inl err \<Rightarrow> Inl (oauth_error (''failed to exchange auth code: '' @ err))
      | Inr response \<Rightarrow> parse_token_response lib now response)"

definition refresh_access_token :: "oauth_library \<Rightarrow> oauth_http \<Rightarrow> int \<Rightarrow> rstr \<Rightarrow> token_set res" where
  "refresh_access_token lib post now refresh_token =
     (case post oauth_token_url
             [(''grant_type'', ''refresh_token''), (''refresh_token'', refresh_token), (''client_id'', oauth_client_id)] of
        Inl err \<Rightarrow> Inl (oauth_error (''failed to refresh token: '' @ err))
      | Inr response \<Rightarrow> parse_token_response lib now response)"

text \<open>The pairs of the query as a map, in which the last pair of a name counts.\<close>

definition parse_code_from_redirect :: "oauth_library \<Rightarrow> rstr \<Rightarrow> rstr option \<Rightarrow> rstr res" where
  "parse_code_from_redirect lib input expected_state =
     (let query = (case dropWhile (\<lambda>c. c \<noteq> CHR ''?'') input of [] \<Rightarrow> input | _ # q \<Rightarrow> q);
          params = map_of (rev (ol_unform lib query))
      in case params ''error'' of
           Some err \<Rightarrow>
             Inl (oauth_error (''authorization failed: '' @ err @ '' ('' @
               (case params ''error_description'' of Some d \<Rightarrow> d | None \<Rightarrow> ''OAuth authorization failed'') @ '')''))
         | None \<Rightarrow>
             rbind (case expected_state of
                      None \<Rightarrow> Inr ()
                    | Some expected \<Rightarrow>
                        (case params ''state'' of
                           Some state \<Rightarrow> if state = expected then Inr () else Inl (oauth_error ''state mismatch'')
                         | None \<Rightarrow> Inl (oauth_error ''missing state in callback'')))
               (\<lambda>_. case params ''code'' of
                      Some code \<Rightarrow> if trim code \<noteq> [] then Inr code else Inl (oauth_error ''missing code in callback'')
                    | None \<Rightarrow> Inl (oauth_error ''missing code in callback'')))"

definition parse_code_from_callback_url_input :: "oauth_library \<Rightarrow> rstr \<Rightarrow> rstr option \<Rightarrow> rstr res" where
  "parse_code_from_callback_url_input lib input expected_state =
     (if trim input = [] then Inl (oauth_error ''missing callback URL'')
      else (case ol_url lib (trim input) of
              Inl err \<Rightarrow> Inl (oauth_error (''invalid callback URL: '' @ err))
            | Inr (path, query) \<Rightarrow>
                parse_code_from_redirect lib (path @ (case query of Some q \<Rightarrow> CHR ''?'' # q | None \<Rightarrow> [])) expected_state))"

fun first_claim :: "json \<Rightarrow> rstr list \<Rightarrow> rstr option" where
  "first_claim claims [] = None"
| "first_claim claims (key # keys) =
     (case str_field key claims of
        Some v \<Rightarrow> if trim v \<noteq> [] then Some v else first_claim claims keys
      | None \<Rightarrow> first_claim claims keys)"

text \<open>The part between the first and the second dot; \<open>None\<close> without a dot.\<close>

definition second_part :: "rstr \<Rightarrow> rstr option" where
  "second_part token =
     (case dropWhile (\<lambda>c. c \<noteq> CHR ''.'') token of
        [] \<Rightarrow> None
      | _ # tail \<Rightarrow> Some (takeWhile (\<lambda>c. c \<noteq> CHR ''.'') tail))"

definition extract_account_id_from_jwt :: "oauth_library \<Rightarrow> rstr \<Rightarrow> rstr option" where
  "extract_account_id_from_jwt lib token =
     Option.bind (second_part token) (\<lambda>payload.
     Option.bind (ol_unbase64url lib payload) (\<lambda>decoded.
     Option.bind (ol_json lib decoded) (\<lambda>claims.
       first_claim claims [''account_id'', ''accountId'', ''acct'', ''sub'', ''https://api.openai.com/account_id''])))"

section \<open>The service\<close>

definition resolve_auth_store_path_from :: "app_paths res \<Rightarrow> rstr res" where
  "resolve_auth_store_path_from paths = rbind paths (\<lambda>p. Inr (path_push (ap_base_dir p) ''auth.json''))"

definition require_interactive_terminal :: "bool \<Rightarrow> bool \<Rightarrow> unit res" where
  "require_interactive_terminal stdin_is_terminal stdout_is_terminal =
     (if stdin_is_terminal \<and> stdout_is_terminal then Inr ()
      else Inl (ProviderError ''OpenAI OAuth login requires an interactive terminal to paste the callback URL''))"

text \<open>The prompt may fail to be written or flushed; the line may fail to be read.\<close>

definition read_callback_url :: "rstr option \<Rightarrow> rstr option \<Rightarrow> rstr + rstr \<Rightarrow> rstr res" where
  "read_callback_url write_error flush_error line =
     (case write_error of
        Some err \<Rightarrow> Inl (ProviderError (''OpenAI OAuth failed to write callback prompt: '' @ err))
      | None \<Rightarrow>
     (case flush_error of
        Some err \<Rightarrow> Inl (ProviderError (''OpenAI OAuth failed to flush callback prompt: '' @ err))
      | None \<Rightarrow>
     (case line of
        Inl err \<Rightarrow> Inl (ProviderError (''OpenAI OAuth failed to read callback URL: '' @ err))
      | Inr callback_url \<Rightarrow>
          if trim callback_url = [] then Inl (ProviderError ''OpenAI OAuth callback URL cannot be empty'')
          else Inr callback_url)))"

record terminal_env =
  tr_stdin :: bool
  tr_stdout :: bool
  tr_write_error :: "rstr option"
  tr_flush_error :: "rstr option"
  tr_line :: "rstr + rstr"

definition read_callback_url_from_terminal :: "terminal_env \<Rightarrow> rstr res" where
  "read_callback_url_from_terminal tty =
     rbind (require_interactive_terminal (tr_stdin tty) (tr_stdout tty)) (\<lambda>_.
       read_callback_url (tr_write_error tty) (tr_flush_error tty) (tr_line tty))"

text \<open>A result that may not come, followed by the rest on the file.\<close>

definition file_error :: "framework_error \<Rightarrow> auth_file \<Rightarrow> auth_file \<times> 'a res option" where
  "file_error e disk = (disk, Some (Inl e))"

definition login_openai_codex ::
  "oauth_library \<Rightarrow> oauth_http \<Rightarrow> store_env \<Rightarrow> terminal_env \<Rightarrow> rstr \<Rightarrow> rstr \<Rightarrow> rstr \<Rightarrow> auth_file \<Rightarrow>
   auth_file \<times> unit res option" where
  "login_openai_codex lib post env tty verifier_bytes state_bytes profile_name disk =
     (case rbind (normalize_profile_name profile_name) (\<lambda>name.
           rbind (read_callback_url_from_terminal tty) (\<lambda>callback_url.
             (let pkce = generate_pkce_state lib verifier_bytes state_bytes
              in rbind (parse_code_from_callback_url_input lib callback_url (Some (pk_state pkce))) (\<lambda>code.
                 rbind (exchange_code_for_tokens lib post (sn_now env) code pkce) (\<lambda>token_set.
                   Inr (name, token_set)))))) of
        Inl e \<Rightarrow> file_error e disk
      | Inr (name, token_set) \<Rightarrow>
          upsert_oauth_profile env openai_codex_provider name token_set
            (extract_account_id_from_jwt lib (tk_access_token token_set)) True disk)"

definition logout_openai_codex :: "store_env \<Rightarrow> rstr option \<Rightarrow> auth_file \<Rightarrow> auth_file \<times> bool res option" where
  "logout_openai_codex env profile_name = remove_profile env openai_codex_provider profile_name"

definition status_openai_codex ::
  "store_env \<Rightarrow> auth_file \<Rightarrow> auth_file \<times> (rstr option \<times> auth_profile list) res option" where
  "status_openai_codex env = list_profiles env openai_codex_provider"

text \<open>
  The profile after a refresh, and the access token: the lookup and the update are two critical
  sections; in between the token is refreshed and other processes may change the file.
\<close>

definition refreshed_profile :: "oauth_library \<Rightarrow> int \<Rightarrow> auth_profile \<Rightarrow> rstr \<Rightarrow> token_set \<Rightarrow> auth_profile" where
  "refreshed_profile lib now profile refresh_token refreshed =
     (let refreshed = (if tk_refresh_token refreshed = None then refreshed\<lparr>tk_refresh_token := Some refresh_token\<rparr> else refreshed)
      in profile\<lparr>ap_token_set := refreshed,
                 ap_account_id := or_else (extract_account_id_from_jwt lib (tk_access_token refreshed)) (ap_account_id profile),
                 ap_updated_at_unix := now\<rparr>)"

definition get_valid_openai_access_token ::
  "oauth_library \<Rightarrow> oauth_http \<Rightarrow> store_env \<Rightarrow> (auth_file \<Rightarrow> auth_file) \<Rightarrow> store_env \<Rightarrow> rstr option \<Rightarrow> auth_file \<Rightarrow>
   auth_file \<times> rstr option res option" where
  "get_valid_openai_access_token lib post env between env' profile_override disk =
     (case get_profile env openai_codex_provider profile_override disk of
        (disk, None) \<Rightarrow> (disk, None)
      | (disk, Some (Inl e)) \<Rightarrow> (disk, Some (Inl e))
      | (disk, Some (Inr None)) \<Rightarrow> (disk, Some (Inr None))
      | (disk, Some (Inr (Some profile))) \<Rightarrow>
          if \<not> is_expiring_within (sn_now env) (ap_token_set profile) openai_refresh_skew_secs
          then (disk, Some (Inr (Some (tk_access_token (ap_token_set profile)))))
          else (case tk_refresh_token (ap_token_set profile) of
                  None \<Rightarrow> (disk, Some (Inr (Some (tk_access_token (ap_token_set profile)))))
                | Some refresh_token \<Rightarrow>
                    (case refresh_access_token lib post (sn_now env') refresh_token of
                       Inl e \<Rightarrow> (between disk, Some (Inl e))
                     | Inr refreshed \<Rightarrow>
                         (let profile = refreshed_profile lib (sn_now env') profile refresh_token refreshed
                          in case update_profile env' profile (between disk) of
                               (disk, r) \<Rightarrow>
                                 (disk, map_option (\<lambda>r. rbind r (\<lambda>_. Inr (Some (tk_access_token (ap_token_set profile))))) r)))))"

text \<open>
  The wait for the lock ends: an attempt that is neither interrupted nor a refusal within the
  time limit ends it, and the first refusal after five seconds is the last attempt.
\<close>

lemma lock_wait_ends:
  "(a, t) \<in> set attempts \<Longrightarrow> a \<noteq> Interrupted \<Longrightarrow> a = WouldBlock \<Longrightarrow> timeout \<le> t \<Longrightarrow>
   acquire_lock_with_timeout attempts path timeout \<noteq> None"
  by (induction attempts path timeout rule: acquire_lock_with_timeout.induct) auto

lemma callback_is_checked:
  assumes "parse_code_from_redirect lib input (Some expected) = Inr code"
  shows "\<exists>query. map_of (rev (ol_unform lib query)) ''state'' = Some expected \<and>
           map_of (rev (ol_unform lib query)) ''error'' = None \<and>
           map_of (rev (ol_unform lib query)) ''code'' = Some code \<and> trim code \<noteq> []"
  using assms by (auto simp: parse_code_from_redirect_def Let_def rbind_eq_Inr split: option.splits if_splits)

section \<open>Well-formed stores\<close>

definition profile_ok :: "auth_profile \<Rightarrow> bool" where
  "profile_ok p \<longleftrightarrow> ap_provider p = openai_codex_provider \<and>
     ap_id p = auth_profile_id openai_codex_provider (ap_profile_name p) \<and>
     trim (ap_profile_name p) = ap_profile_name p \<and> ap_profile_name p \<noteq> []"

definition auth_ok :: "auth_data \<Rightarrow> bool" where
  "auth_ok data \<longleftrightarrow>
     bt_ordered (ad_active_profiles data) \<and> bt_ordered (ad_profiles data) \<and>
     (\<forall>e\<in>set (ad_profiles data). fst e = ap_id (snd e) \<and> profile_ok (snd e)) \<and>
     (\<forall>e\<in>set (ad_active_profiles data).
        fst e = openai_codex_provider \<and> map_of (ad_profiles data) (snd e) \<noteq> None)"

lemma auth_ok_updated_at [simp]: "auth_ok (data\<lparr>ad_updated_at_unix := t\<rparr>) = auth_ok data"
  by (simp add: auth_ok_def)

lemma auth_ok_default [simp]: "auth_ok (default_auth_data now)"
  by (simp add: auth_ok_def default_auth_data_def)

lemma min_profile_in: "min_profile ps = Some p \<Longrightarrow> p \<in> set ps"
  by (induction ps arbitrary: p) (auto split: option.splits if_splits)

lemma min_profile_None: "min_profile ps = None \<longleftrightarrow> ps = []"
  by (cases ps) (auto split: option.splits)

lemma first_profile_found:
  assumes "auth_ok data" "first_profile_id_for_provider data provider = Some i"
  shows "map_of (ad_profiles data) i \<noteq> None"
proof -
  from assms(2) obtain p where p: "min_profile (provider_profiles data provider) = Some p" "i = ap_id p"
    by (auto simp: first_profile_id_for_provider_def)
  from min_profile_in[OF p(1)] obtain k where k: "(k, p) \<in> set (ad_profiles data)"
    by (auto simp: provider_profiles_def)
  then have "k = i" using assms(1) p(2) by (auto simp: auth_ok_def)
  then show ?thesis using k by (metis map_of_eq_None_iff fst_conv image_eqI)
qed

lemma auth_ok_active:
  assumes "auth_ok data" "map_of (ad_profiles data) i \<noteq> None"
  shows "auth_ok (data\<lparr>ad_active_profiles := bt_insert openai_codex_provider i (ad_active_profiles data)\<rparr>)"
  using assms set_bt_insert[of openai_codex_provider i "ad_active_profiles data"]
  by (auto simp: auth_ok_def bt_ordered_insert)

lemma auth_ok_no_active:
  assumes "auth_ok data"
  shows "auth_ok (data\<lparr>ad_active_profiles := bt_remove provider (ad_active_profiles data)\<rparr>)"
  using assms by (auto simp: auth_ok_def bt_ordered_remove set_bt_remove)

lemma auth_ok_profile:
  assumes "auth_ok data" "profile_ok p" "i = ap_id p"
  shows "auth_ok (data\<lparr>ad_profiles := bt_insert i p (ad_profiles data)\<rparr>)"
  using assms set_bt_insert[of "ap_id p" p "ad_profiles data"] by (auto simp: auth_ok_def bt_ordered_insert)

lemma auth_ok_insert:
  assumes "auth_ok data" "profile_ok p" "i = ap_id p"
  shows "auth_ok (if act then data\<lparr>ad_profiles := bt_insert i p (ad_profiles data)\<rparr>
                        \<lparr>ad_active_profiles := bt_insert openai_codex_provider i
                            (ad_active_profiles (data\<lparr>ad_profiles := bt_insert i p (ad_profiles data)\<rparr>))\<rparr>
                  else data\<lparr>ad_profiles := bt_insert i p (ad_profiles data)\<rparr>)"
proof -
  note new = auth_ok_profile[OF assms]
  have "map_of (ad_profiles (data\<lparr>ad_profiles := bt_insert i p (ad_profiles data)\<rparr>)) i \<noteq> None" by simp
  from auth_ok_active[OF new this] new show ?thesis by simp
qed

lemma auth_ok_repair:
  assumes "auth_ok data"
  shows "auth_ok (fst (repair_stale_active_profile data openai_codex_provider))"
  using assms first_profile_found[OF assms, of openai_codex_provider]
  by (simp add: repair_stale_active_profile_def auth_ok_active auth_ok_no_active split: option.split)

text \<open>Removing a profile: its active entry goes first, so that no other entry names it.\<close>

lemma auth_ok_remove:
  assumes ok: "auth_ok data" and free: "map_of (ad_active_profiles data) openai_codex_provider \<noteq> Some i"
  shows "auth_ok (data\<lparr>ad_profiles := bt_remove i (ad_profiles data)\<rparr>)"
proof -
  have "snd e \<noteq> i" if e: "e \<in> set (ad_active_profiles data)" for e
  proof -
    have "bt_ordered (ad_active_profiles data)" "fst e = openai_codex_provider" using ok e by (auto simp: auth_ok_def)
    then have "map_of (ad_active_profiles data) openai_codex_provider = Some (snd e)"
      using e bt_ordered_distinct by (metis map_of_is_SomeI prod.collapse)
    then show ?thesis using free by auto
  qed
  then show ?thesis using ok by (auto simp: auth_ok_def bt_ordered_remove set_bt_remove)
qed

section \<open>What the operations leave in the file\<close>

type_synonym auth_codec = "(rstr \<Rightarrow> rstr + auth_data) \<times> (auth_data \<Rightarrow> rstr + rstr)"

definition env_codec :: "store_env \<Rightarrow> auth_codec" where
  "env_codec env = (sn_parse env, sn_print env)"

text \<open>What is written can be read back.\<close>

definition codec_ok :: "auth_codec \<Rightarrow> bool" where
  "codec_ok codec \<longleftrightarrow> (\<forall>data c. snd codec data = Inr c \<longrightarrow> fst codec c = Inr data \<and> trim c \<noteq> [])"

definition file_ok :: "auth_codec \<Rightarrow> auth_file \<Rightarrow> bool" where
  "file_ok codec disk \<longleftrightarrow>
     (case disk of None \<Rightarrow> True | Some c \<Rightarrow> trim c = [] \<or> (\<exists>data. fst codec c = Inr data \<and> auth_ok data))"

lemma load_ok: "file_ok (env_codec env) disk \<Longrightarrow> load_unlocked env disk = Inr data \<Longrightarrow> auth_ok data"
  by (auto simp: load_unlocked_def file_ok_def env_codec_def split: option.splits sum.splits if_splits)

lemma save_ok:
  assumes "codec_ok (env_codec env)" "file_ok (env_codec env) disk" "auth_ok data"
  shows "file_ok (env_codec env) (fst (save_unlocked env data disk))"
proof (cases "sn_print env data")
  case (Inr c)
  have "file_ok (env_codec env) (Some c)" using assms Inr by (simp add: file_ok_def codec_ok_def env_codec_def)
  then show ?thesis using assms(2) Inr
    by (simp add: save_unlocked_def auth_write_file_atomic_def split: option.split)
qed (simp add: save_unlocked_def assms)

lemma with_lock_file: "fst (with_lock env f disk) = disk \<or> fst (with_lock env f disk) = fst (f disk)"
  by (simp add: with_lock_def Let_def split: option.split sum.split prod.split)

lemma with_lock_ok:
  "file_ok codec disk \<Longrightarrow> file_ok codec (fst (f disk)) \<Longrightarrow> file_ok codec (fst (with_lock env f disk))"
  using with_lock_file[of env f disk] by auto

lemma exclusive_ok:
  assumes "codec_ok (env_codec env)" "file_ok (env_codec env) disk"
    and keeps: "\<And>data d ch v. auth_ok data \<Longrightarrow> f data = Inr (d, ch, v) \<Longrightarrow> auth_ok d"
  shows "file_ok (env_codec env) (fst (with_exclusive_data env f disk))"
  unfolding with_exclusive_data_def
proof (rule with_lock_ok[OF assms(2)])
  show "file_ok (env_codec env) (fst (case rbind (load_unlocked env disk) f of
         Inl e \<Rightarrow> (disk, Inl e)
       | Inr (data, changed, v) \<Rightarrow>
           if changed
           then (case save_unlocked env (data\<lparr>ad_updated_at_unix := sn_now env\<rparr>) disk of
                   (disk', r) \<Rightarrow> (disk', rbind r (\<lambda>_. Inr v)))
           else (disk, Inr v)))"
  proof (cases "rbind (load_unlocked env disk) f")
    case (Inr x)
    obtain d ch v where x: "x = (d, ch, v)" by (cases x) auto
    from Inr obtain data where "load_unlocked env disk = Inr data" "f data = Inr (d, ch, v)"
      by (auto simp: rbind_eq_Inr x)
    then have "auth_ok d" using keeps load_ok[OF assms(2)] by blast
    then have "file_ok (env_codec env) (fst (save_unlocked env (d\<lparr>ad_updated_at_unix := sn_now env\<rparr>) disk))"
      using save_ok[OF assms(1,2)] by simp
    then show ?thesis using assms(2) by (simp add: Inr x case_prod_beta)
  qed (simp add: assms)
qed

lemma list_profiles_ok:
  assumes "codec_ok (env_codec env)" "file_ok (env_codec env) disk"
  shows "file_ok (env_codec env) (fst (list_profiles env openai_codex_provider disk))"
  unfolding list_profiles_def
  by (rule exclusive_ok[OF assms]) (auto dest: auth_ok_repair split: prod.splits)

lemma get_profile_ok:
  assumes "codec_ok (env_codec env)" "file_ok (env_codec env) disk"
  shows "file_ok (env_codec env) (fst (get_profile env openai_codex_provider over disk))"
  unfolding get_profile_def
  by (rule exclusive_ok[OF assms])
    (auto dest: auth_ok_repair simp: rbind_eq_Inr split: prod.splits option.splits)

lemma upsert_ok:
  assumes c: "codec_ok (env_codec env)" and f: "file_ok (env_codec env) disk" and n: "trim name = name" "name \<noteq> []"
  shows "file_ok (env_codec env) (fst (upsert_oauth_profile env openai_codex_provider name tok acc act disk))"
  unfolding upsert_oauth_profile_def
proof (rule with_lock_ok[OF f], cases "load_unlocked env disk")
  case (Inr data)
  then have ok: "auth_ok data" by (rule load_ok[OF f])
  show "file_ok (env_codec env) (fst (case load_unlocked env disk of
         Inl e \<Rightarrow> (disk, Inl e)
       | Inr data \<Rightarrow>
           (let now = sn_now env;
                i = auth_profile_id openai_codex_provider name;
                created = (case map_of (ad_profiles data) i of Some existing \<Rightarrow> ap_created_at_unix existing | None \<Rightarrow> now);
                profile = \<lparr>ap_id = i, ap_provider = openai_codex_provider, ap_profile_name = name, ap_account_id = acc,
                           ap_token_set = tok, ap_created_at_unix = created, ap_updated_at_unix = now\<rparr>;
                data = data\<lparr>ad_profiles := bt_insert i profile (ad_profiles data)\<rparr>;
                data = (if act then data\<lparr>ad_active_profiles := bt_insert openai_codex_provider i (ad_active_profiles data)\<rparr> else data)
            in save_unlocked env (data\<lparr>ad_updated_at_unix := now\<rparr>) disk)))"
    unfolding Inr Let_def sum.case
    by (rule save_ok[OF c f], simp only: auth_ok_updated_at, rule auth_ok_insert[OF ok]) (simp_all add: profile_ok_def n)
qed (simp add: f)

lemma update_profile_ok:
  assumes c: "codec_ok (env_codec env)" and f: "file_ok (env_codec env) disk" and p: "profile_ok profile"
  shows "file_ok (env_codec env) (fst (update_profile env profile disk))"
  unfolding update_profile_def
proof (rule with_lock_ok[OF f], cases "load_unlocked env disk")
  case (Inr data)
  have "auth_ok (data\<lparr>ad_profiles := bt_insert (ap_id profile) profile (ad_profiles data), ad_updated_at_unix := sn_now env\<rparr>)"
    using auth_ok_profile[OF load_ok[OF f Inr] p refl] by simp
  then show "file_ok (env_codec env) (fst (case load_unlocked env disk of
         Inl e \<Rightarrow> (disk, Inl e)
       | Inr data \<Rightarrow>
           save_unlocked env (data\<lparr>ad_profiles := bt_insert (ap_id profile) profile (ad_profiles data),
                                   ad_updated_at_unix := sn_now env\<rparr>) disk))"
    unfolding Inr sum.case by (rule save_ok[OF c f])
qed (simp add: f)

lemma drop_profile_ok:
  assumes "auth_ok data"
  shows "auth_ok (drop_profile data openai_codex_provider i)"
proof (cases "map_of (ad_active_profiles data) openai_codex_provider = Some i")
  case False
  then show ?thesis using auth_ok_remove[OF assms False] by (simp add: drop_profile_def Let_def)
next
  case True
  let ?d = "data\<lparr>ad_profiles := bt_remove i (ad_profiles data),
                  ad_active_profiles := bt_remove openai_codex_provider (ad_active_profiles data)\<rparr>"
  have "auth_ok (data\<lparr>ad_active_profiles := bt_remove openai_codex_provider (ad_active_profiles data)\<rparr>)"
    by (rule auth_ok_no_active[OF assms])
  from auth_ok_remove[OF this, of i] have d: "auth_ok ?d" by (simp add: auth_ok_def)
  show ?thesis
  proof (cases "first_profile_id_for_provider ?d openai_codex_provider")
    case None
    then show ?thesis using True d by (simp add: drop_profile_def Let_def)
  next
    case (Some n)
    then show ?thesis using True auth_ok_active[OF d first_profile_found[OF d Some]]
      by (simp add: drop_profile_def Let_def)
  qed
qed

lemma remove_profile_ok:
  assumes c: "codec_ok (env_codec env)" and f: "file_ok (env_codec env) disk"
  shows "file_ok (env_codec env) (fst (remove_profile env openai_codex_provider name disk))"
  unfolding remove_profile_def
proof (rule with_lock_ok[OF f])
  have new: "file_ok (env_codec env) (fst (save_unlocked env
      ((drop_profile (fst (repair_stale_active_profile data openai_codex_provider)) openai_codex_provider i)
         \<lparr>ad_updated_at_unix := sn_now env\<rparr>) disk))" if "load_unlocked env disk = Inr data" for data i
    using save_ok[OF c f] drop_profile_ok[OF auth_ok_repair[OF load_ok[OF f that]]] by simp
  show "file_ok (env_codec env) (fst (case load_unlocked env disk of
         Inl e \<Rightarrow> (disk, Inl e)
       | Inr data \<Rightarrow>
           (let data = fst (repair_stale_active_profile data openai_codex_provider);
                target = (case name of
                            Some name \<Rightarrow> rbind (normalize_profile_name name) (\<lambda>n. Inr (Some (auth_profile_id openai_codex_provider n)))
                          | None \<Rightarrow> Inr (map_of (ad_active_profiles data) openai_codex_provider))
            in case target of
                 Inl e \<Rightarrow> (disk, Inl e)
               | Inr None \<Rightarrow> (disk, Inr False)
               | Inr (Some i) \<Rightarrow>
                   if map_of (ad_profiles data) i = None then (disk, Inr False)
                   else
                     (case save_unlocked env ((drop_profile data openai_codex_provider i)\<lparr>ad_updated_at_unix := sn_now env\<rparr>) disk of
                        (disk', r) \<Rightarrow> (disk', rbind r (\<lambda>_. Inr True))))))"
    unfolding Let_def using f new by (simp add: case_prod_beta split: sum.split option.split)
qed

text \<open>The profile looked up is one of the well-formed ones.\<close>

lemma with_lock_result: "snd (with_lock env f disk) = Some (Inr v) \<Longrightarrow> snd (f disk) = Inr v"
  by (simp add: with_lock_def Let_def split: option.splits sum.splits prod.splits)

lemma exclusive_result:
  assumes "snd (with_exclusive_data env f disk) = Some (Inr v)"
  obtains data d ch where "load_unlocked env disk = Inr data" "f data = Inr (d, ch, v)"
proof -
  from with_lock_result[OF assms[unfolded with_exclusive_data_def]]
  have "\<exists>data d ch. load_unlocked env disk = Inr data \<and> f data = Inr (d, ch, v)"
    by (cases "load_unlocked env disk") (auto simp: rbind_def case_prod_beta split: sum.splits prod.splits if_splits)
  then show thesis using that by blast
qed

lemma map_of_profile_ok: "auth_ok data \<Longrightarrow> map_of (ad_profiles data) i = Some p \<Longrightarrow> profile_ok p \<and> ap_id p = i"
  using map_of_SomeD[of "ad_profiles data" i p] unfolding auth_ok_def by force

lemma get_profile_result:
  assumes "file_ok (env_codec env) disk" "snd (get_profile env openai_codex_provider over disk) = Some (Inr (Some p))"
  shows "profile_ok p"
proof -
  from exclusive_result[OF assms(2)[unfolded get_profile_def]] obtain data d ch where
    l: "load_unlocked env disk = Inr data" and
    r: "(case repair_stale_active_profile data openai_codex_provider of
          (data, changed) \<Rightarrow>
            (case over of
               Some profile_name \<Rightarrow>
                 rbind (normalize_profile_name profile_name) (\<lambda>name.
                   Inr (data, changed, map_of (ad_profiles data) (auth_profile_id openai_codex_provider name)))
             | None \<Rightarrow>
                 (case map_of (ad_active_profiles data) openai_codex_provider of
                    Some active \<Rightarrow> Inr (data, changed, map_of (ad_profiles data) active)
                  | None \<Rightarrow>
                      (case first_profile_id_for_provider data openai_codex_provider of
                         Some f \<Rightarrow> Inr (data, changed, map_of (ad_profiles data) f)
                       | None \<Rightarrow> Inr (data, changed, None))))) = Inr (d, ch, Some p)" by blast
  obtain d' ch' where rep: "repair_stale_active_profile data openai_codex_provider = (d', ch')" by fastforce
  have "auth_ok d'" using auth_ok_repair[OF load_ok[OF assms(1) l]] by (simp add: rep)
  moreover obtain i where "map_of (ad_profiles d') i = Some p"
    using r by (auto simp: rep rbind_eq_Inr split: option.splits)
  ultimately show ?thesis using map_of_profile_ok by blast
qed

section \<open>The service and other processes\<close>

text \<open>
  What users and the running program do to the file, in any order. A token request is two critical
  sections, with other operations in between.
\<close>

datatype auth_op =
    LoginOp oauth_library oauth_http store_env terminal_env rstr rstr rstr
  | LogoutOp store_env "rstr option"
  | StatusOp store_env
  | ProfileOp store_env "rstr option"
  | TokenOp oauth_library oauth_http store_env "auth_op list" store_env "rstr option"

primrec run_auth_op :: "auth_op \<Rightarrow> auth_file \<Rightarrow> auth_file" where
  "run_auth_op (LoginOp lib post env tty verifier state name) = (\<lambda>disk.
     fst (login_openai_codex lib post env tty verifier state name disk))"
| "run_auth_op (LogoutOp env name) = (\<lambda>disk. fst (logout_openai_codex env name disk))"
| "run_auth_op (StatusOp env) = (\<lambda>disk. fst (status_openai_codex env disk))"
| "run_auth_op (ProfileOp env name) = (\<lambda>disk. fst (get_profile env openai_codex_provider name disk))"
| "run_auth_op (TokenOp lib post env ops env' name) = (\<lambda>disk.
     fst (get_valid_openai_access_token lib post env (fold (\<lambda>step. step) (map run_auth_op ops)) env' name disk))"

fun op_codec :: "auth_codec \<Rightarrow> auth_op \<Rightarrow> bool" where
  "op_codec codec (LoginOp lib post env tty verifier state name) \<longleftrightarrow> env_codec env = codec"
| "op_codec codec (LogoutOp env name) \<longleftrightarrow> env_codec env = codec"
| "op_codec codec (StatusOp env) \<longleftrightarrow> env_codec env = codec"
| "op_codec codec (ProfileOp env name) \<longleftrightarrow> env_codec env = codec"
| "op_codec codec (TokenOp lib post env ops env' name) \<longleftrightarrow>
     env_codec env = codec \<and> env_codec env' = codec \<and> list_all (op_codec codec) ops"

lemma login_ok:
  assumes "codec_ok (env_codec env)" "file_ok (env_codec env) disk"
  shows "file_ok (env_codec env) (fst (login_openai_codex lib post env tty verifier state name disk))"
proof -
  have "file_ok (env_codec env) (fst (upsert_oauth_profile env openai_codex_provider n tok acc True disk))"
    if "normalize_profile_name name = Inr n" for n tok acc
    by (rule upsert_ok[OF assms]) (use that in \<open>auto simp: normalize_profile_name_def split: if_splits\<close>)
  then show ?thesis using assms(2)
    by (auto simp: login_openai_codex_def file_error_def Let_def rbind_eq_Inr split: sum.split)
qed

lemma refreshed_profile_ok: "profile_ok p \<Longrightarrow> profile_ok (refreshed_profile lib now p rt tok)"
  by (simp add: profile_ok_def refreshed_profile_def Let_def)

lemma token_ok:
  assumes c: "codec_ok (env_codec env)" "env_codec env' = env_codec env" and f: "file_ok (env_codec env) disk"
    and b: "\<And>d. file_ok (env_codec env) d \<Longrightarrow> file_ok (env_codec env) (between d)"
  shows "file_ok (env_codec env) (fst (get_valid_openai_access_token lib post env between env' over disk))"
proof -
  obtain d r where g: "get_profile env openai_codex_provider over disk = (d, r)" by fastforce
  have d: "file_ok (env_codec env) d" using get_profile_ok[OF c(1) f, of over] by (simp add: g)
  have u: "file_ok (env_codec env) (fst (update_profile env' p (between d)))" if "profile_ok p" for p
    using update_profile_ok[of env' "between d" p] that c b[OF d] by simp
  have p: "profile_ok p" if "r = Some (Inr (Some p))" for p
    using get_profile_result[OF f, of over p] that by (simp add: g)
  show ?thesis
  proof (cases "\<exists>p rt. r = Some (Inr (Some p)) \<and> is_expiring_within (sn_now env) (ap_token_set p) openai_refresh_skew_secs \<and>
      tk_refresh_token (ap_token_set p) = Some rt")
    case False
    then show ?thesis using d
      by (auto simp: get_valid_openai_access_token_def g split: option.split sum.split)
  next
    case True
    then obtain pr rt where r: "r = Some (Inr (Some pr))"
      "is_expiring_within (sn_now env) (ap_token_set pr) openai_refresh_skew_secs"
      "tk_refresh_token (ap_token_set pr) = Some rt" by blast
    show ?thesis using b[OF d] u[OF refreshed_profile_ok[OF p[OF r(1)]]] r
      by (auto simp: get_valid_openai_access_token_def g Let_def case_prod_beta split: sum.split)
  qed
qed

lemma op_keeps_file:
  assumes "codec_ok codec"
  shows "op_codec codec p \<Longrightarrow> file_ok codec disk \<Longrightarrow> file_ok codec (run_auth_op p disk)"
proof (induction p arbitrary: disk)
  case (LoginOp lib post env tty verifier state name)
  then show ?case using login_ok[of env] assms by auto
next
  case (LogoutOp env name)
  then show ?case using remove_profile_ok[of env disk name] assms by (auto simp: logout_openai_codex_def)
next
  case (StatusOp env)
  then show ?case using list_profiles_ok[of env disk] assms by (auto simp: status_openai_codex_def)
next
  case (ProfileOp env name)
  then show ?case using get_profile_ok[of env disk name] assms by auto
next
  case (TokenOp lib post env ops env' name)
  have "file_ok codec (fold (\<lambda>step. step) (map run_auth_op qs) d)" if "set qs \<subseteq> set ops" "file_ok codec d" for qs d
    using that
  proof (induction qs arbitrary: d)
    case (Cons q qs)
    then have "file_ok codec (run_auth_op q d)" using TokenOp.IH TokenOp.prems(1) by (auto simp: list_all_iff)
    then show ?case using Cons by simp
  qed simp
  from this[of ops] have "\<And>d. file_ok codec d \<Longrightarrow> file_ok codec (fold (\<lambda>step. step) (map run_auth_op ops) d)" by simp
  then show ?case using token_ok[of env env' disk "fold (\<lambda>step. step) (map run_auth_op ops)"] TokenOp.prems assms by auto
qed

lemma ops_keep_file:
  "codec_ok codec \<Longrightarrow> list_all (op_codec codec) ops \<Longrightarrow> file_ok codec disk \<Longrightarrow> file_ok codec (fold run_auth_op ops disk)"
  by (induction ops arbitrary: disk) (auto simp: op_keeps_file)

section \<open>Lookups and refreshes\<close>

lemma provider_profiles_all:
  "auth_ok data \<Longrightarrow> provider_profiles data openai_codex_provider = map snd (ad_profiles data)"
  by (auto simp: provider_profiles_def auth_ok_def profile_ok_def filter_id_conv)

lemma auth_ok_no_repair:
  assumes "auth_ok data"
  shows "repair_stale_active_profile data openai_codex_provider = (data, False)"
proof (cases "map_of (ad_active_profiles data) openai_codex_provider")
  case (Some i)
  then have "(openai_codex_provider, i) \<in> set (ad_active_profiles data)" by (rule map_of_SomeD)
  then have "map_of (ad_profiles data) i \<noteq> None" using assms unfolding auth_ok_def by force
  then show ?thesis using Some by (simp add: repair_stale_active_profile_def)
qed (simp add: repair_stale_active_profile_def)

definition default_profile :: "auth_data \<Rightarrow> auth_profile option" where
  "default_profile data =
     (case or_else (map_of (ad_active_profiles data) openai_codex_provider)
                   (first_profile_id_for_provider data openai_codex_provider) of
        Some i \<Rightarrow> map_of (ad_profiles data) i
      | None \<Rightarrow> None)"

lemma default_profile_None:
  assumes ok: "auth_ok data"
  shows "default_profile data = None \<longleftrightarrow> ad_profiles data = []"
proof
  assume n: "default_profile data = None"
  show "ad_profiles data = []"
  proof (cases "map_of (ad_active_profiles data) openai_codex_provider")
    case (Some i)
    then have "(openai_codex_provider, i) \<in> set (ad_active_profiles data)" by (rule map_of_SomeD)
    then have "map_of (ad_profiles data) i \<noteq> None" using ok unfolding auth_ok_def by force
    then show ?thesis using n Some by (simp add: default_profile_def or_else_def)
  next
    case None
    then have "first_profile_id_for_provider data openai_codex_provider = None"
      using n first_profile_found[OF ok, of openai_codex_provider]
      by (cases "first_profile_id_for_provider data openai_codex_provider") (simp_all add: default_profile_def or_else_def)
    then show ?thesis
      by (simp add: first_profile_id_for_provider_def min_profile_None provider_profiles_all[OF ok])
  qed
next
  assume "ad_profiles data = []"
  then show "default_profile data = None"
    by (simp add: default_profile_def split: option.split)
qed

lemma default_lookup:
  assumes "file_ok (env_codec env) disk" "snd (get_profile env openai_codex_provider None disk) = Some (Inr r)"
  obtains data where "load_unlocked env disk = Inr data" "auth_ok data" "r = default_profile data"
proof -
  from exclusive_result[OF assms(2)[unfolded get_profile_def]] obtain data d ch where
    l: "load_unlocked env disk = Inr data" and
    r: "(case repair_stale_active_profile data openai_codex_provider of
          (data, changed) \<Rightarrow>
            (case None of
               Some profile_name \<Rightarrow>
                 rbind (normalize_profile_name profile_name) (\<lambda>name.
                   Inr (data, changed, map_of (ad_profiles data) (auth_profile_id openai_codex_provider name)))
             | None \<Rightarrow>
                 (case map_of (ad_active_profiles data) openai_codex_provider of
                    Some active \<Rightarrow> Inr (data, changed, map_of (ad_profiles data) active)
                  | None \<Rightarrow>
                      (case first_profile_id_for_provider data openai_codex_provider of
                         Some f \<Rightarrow> Inr (data, changed, map_of (ad_profiles data) f)
                       | None \<Rightarrow> Inr (data, changed, None))))) = Inr (d, ch, r)" by blast
  have ok: "auth_ok data" by (rule load_ok[OF assms(1) l])
  have "r = default_profile data"
    using r by (auto simp: auth_ok_no_repair[OF ok] default_profile_def or_else_def split: option.splits)
  then show thesis using that l ok by blast
qed

lemma with_lock_success:
  "with_lock env f disk = (disk', Some (Inr v)) \<Longrightarrow> f disk = (disk', Inr v)"
  by (auto simp: with_lock_def Let_def split: option.splits sum.splits prod.splits)

lemma update_profile_stores:
  assumes "codec_ok (env_codec env)" "update_profile env p disk = (disk', Some (Inr v))"
  shows "\<exists>c data. disk' = Some c \<and> sn_parse env c = Inr data \<and> trim c \<noteq> [] \<and> map_of (ad_profiles data) (ap_id p) = Some p"
proof -
  from with_lock_success[OF assms(2)[unfolded update_profile_def]] obtain data where
    s: "save_unlocked env (data\<lparr>ad_profiles := bt_insert (ap_id p) p (ad_profiles data), ad_updated_at_unix := sn_now env\<rparr>) disk = (disk', Inr v)"
    by (auto split: sum.splits)
  then show ?thesis using assms(1)
    by (auto simp: save_unlocked_def auth_write_file_atomic_def codec_ok_def env_codec_def split: sum.splits option.splits)
qed

lemma refresh_stores:
  assumes "codec_ok (env_codec env')"
    and g: "get_profile env openai_codex_provider over disk = (disk1, Some (Inr (Some p)))"
    and e: "is_expiring_within (sn_now env) (ap_token_set p) openai_refresh_skew_secs"
      "tk_refresh_token (ap_token_set p) = Some rt"
    and t: "get_valid_openai_access_token lib post env between env' over disk = (disk', Some (Inr (Some tok)))"
  shows "\<exists>c data p'. disk' = Some c \<and> sn_parse env' c = Inr data \<and> trim c \<noteq> [] \<and> map_of (ad_profiles data) (ap_id p) = Some p' \<and>
      tk_access_token (ap_token_set p') = tok \<and> tk_refresh_token (ap_token_set p') \<noteq> None"
proof -
  from t e obtain refreshed where r: "refresh_access_token lib post (sn_now env') rt = Inr refreshed"
    by (auto simp: get_valid_openai_access_token_def g split: sum.splits)
  let ?p = "refreshed_profile lib (sn_now env') p rt refreshed"
  obtain v where u: "update_profile env' ?p (between disk1) = (disk', Some (Inr v))"
    and a: "tok = tk_access_token (ap_token_set ?p)"
    using t e by (auto simp: get_valid_openai_access_token_def g r Let_def rbind_eq_Inr split: prod.splits)
  have "ap_id ?p = ap_id p" "tk_refresh_token (ap_token_set ?p) \<noteq> None"
    by (auto simp: refreshed_profile_def Let_def)
  with update_profile_stores[OF assms(1) u] a show ?thesis by metis
qed

section \<open>Properties\<close>

text \<open>
  C31. Whatever logins, logouts, status queries and token requests ran on a store that did not
  exist before, with whatever failures and with other operations inside the token requests: a
  lookup of the profile in use that succeeds finds nothing only if no profile is stored at all,
  and else gives a stored profile of the provider, under the id made of its name. (The JSON
  library reads back what it has written.)
\<close>

theorem stored_login_is_found:
  assumes "codec_ok (env_codec env)" "list_all (op_codec (env_codec env)) ops"
    and "snd (get_profile env openai_codex_provider None (fold run_auth_op ops None)) = Some (Inr r)"
  shows "\<exists>data. load_unlocked env (fold run_auth_op ops None) = Inr data \<and>
           (r = None \<longleftrightarrow> ad_profiles data = []) \<and>
           (\<forall>p. r = Some p \<longrightarrow> profile_ok p \<and> map_of (ad_profiles data) (ap_id p) = Some p)"
proof -
  have f: "file_ok (env_codec env) (fold run_auth_op ops None)"
    using ops_keep_file[OF assms(1,2)] by (simp add: file_ok_def)
  from default_lookup[OF f assms(3)] obtain data where d: "load_unlocked env (fold run_auth_op ops None) = Inr data"
    "auth_ok data" "r = default_profile data" .
  have "profile_ok p \<and> map_of (ad_profiles data) (ap_id p) = Some p" if "r = Some p" for p
  proof -
    from that d(3) obtain i where i: "map_of (ad_profiles data) i = Some p"
      by (auto simp: default_profile_def split: option.splits)
    with map_of_profile_ok[OF d(2) i] show ?thesis by simp
  qed
  moreover have "r = None \<longleftrightarrow> ad_profiles data = []" unfolding d(3) by (rule default_profile_None[OF d(2)])
  ultimately show ?thesis using d(1) by (intro exI[of _ data] conjI allI impI) simp_all
qed

text \<open>
  The token request looks the profile up, refreshes the token and then writes the profile
  back, without the lock in between. A user who logs this profile out in that time, and is told
  that it is gone, finds it in the store again, with a new access token and a refresh token: the
  refresh undoes the logout.
\<close>

theorem refresh_undoes_logout:
  assumes "codec_ok (env_codec env)" "codec_ok (env_codec env')" "env_codec env'' = env_codec env'"
    and "get_profile env openai_codex_provider None disk = (disk1, Some (Inr (Some p)))"
    and "is_expiring_within (sn_now env) (ap_token_set p) openai_refresh_skew_secs"
      "tk_refresh_token (ap_token_set p) = Some rt"
    and "logout_openai_codex env'' (Some name) disk1 = (disk2, Some (Inr True))"
      "normalize_profile_name name = Inr (ap_profile_name p)"
    and "get_valid_openai_access_token lib post env (\<lambda>d. fst (logout_openai_codex env'' (Some name) d)) env' None disk =
           (disk', Some (Inr (Some tok)))"
  shows "\<exists>c data p'. disk' = Some c \<and> sn_parse env' c = Inr data \<and> map_of (ad_profiles data) (ap_id p) = Some p' \<and>
           tk_access_token (ap_token_set p') = tok \<and> tk_refresh_token (ap_token_set p') \<noteq> None"
  using refresh_stores[OF assms(2) assms(4) assms(5) assms(6) assms(9)] by blast

definition sample_profile :: "rstr \<Rightarrow> int \<Rightarrow> int \<Rightarrow> auth_profile" where
  "sample_profile tok expires updated =
     \<lparr>ap_id = ''openai_codex:default'', ap_provider = ''openai_codex'', ap_profile_name = ''default'', ap_account_id = None,
      ap_token_set = \<lparr>tk_access_token = tok, tk_refresh_token = Some ''r'', tk_id_token = None,
        tk_expires_at_unix = Some expires, tk_token_type = None, tk_scope = None\<rparr>,
      ap_created_at_unix = 1000, ap_updated_at_unix = updated\<rparr>"

definition sample_data :: "nat \<Rightarrow> auth_data" where
  "sample_data k =
     (if k = 0 then \<lparr>ad_schema_version = 1, ad_updated_at_unix = 1000,
         ad_active_profiles = [(''openai_codex'', ''openai_codex:default'')],
         ad_profiles = [(''openai_codex:default'', sample_profile ''t'' 4600 1000)]\<rparr>
      else if k = 1 then \<lparr>ad_schema_version = 1, ad_updated_at_unix = 5000, ad_active_profiles = [], ad_profiles = []\<rparr>
      else \<lparr>ad_schema_version = 1, ad_updated_at_unix = 5000, ad_active_profiles = [],
         ad_profiles = [(''openai_codex:default'', sample_profile ''t'' 8600 5000)]\<rparr>)"

definition sample_store_env :: "int \<Rightarrow> store_env" where
  "sample_store_env now = \<lparr>sn_path = ''auth.json'', sn_create_dir = None, sn_open_lock = None,
     sn_attempts = [(WouldBlock, 0), (Acquired, 25)], sn_unlock = None, sn_read = None, sn_write = None, sn_permissions = None,
     sn_now = now,
     sn_parse = (\<lambda>c. if c = ''a'' then Inr (sample_data 0) else if c = ''b'' then Inr (sample_data 1)
                    else if c = ''c'' then Inr (sample_data 2) else Inl ''eof''),
     sn_print = (\<lambda>d. if d = sample_data 0 then Inr ''a'' else if d = sample_data 1 then Inr ''b''
                    else if d = sample_data 2 then Inr ''c'' else Inl ''large'')\<rparr>"

definition sample_oauth :: oauth_library where
  "sample_oauth = \<lparr>ol_sha256 = id, ol_base64url = id, ol_unbase64url = Some, ol_form = (\<lambda>_. []),
     ol_unform = (\<lambda>q. [(''state'', q), (''code'', ''x'')]), ol_url = (\<lambda>u. Inr ([], Some u)), ol_json = (\<lambda>_. None),
     ol_error_response = (\<lambda>_. None),
     ol_token_response = (\<lambda>_. Inr \<lparr>tn_access_token = ''t'', tn_refresh_token = Some ''r'', tn_id_token = None,
        tn_expires_in = Some 3600, tn_token_type = None, tn_scope = None\<rparr>)\<rparr>"

definition sample_post :: oauth_http where
  "sample_post = (\<lambda>_ _. Inr \<lparr>hp_status = 200, hp_status_text = ''200 OK'', hp_body = Inr []\<rparr>)"

definition sample_login :: auth_op where
  "sample_login = LoginOp sample_oauth sample_post (sample_store_env 1000)
     \<lparr>tr_stdin = True, tr_stdout = True, tr_write_error = None, tr_flush_error = None, tr_line = Inr ''abc''\<rparr>
     ''v'' ''abc'' ''default''"

lemma sample_codec_ok: "codec_ok (env_codec (sample_store_env now))"
proof -
  have "sn_parse (sample_store_env now) c = Inr d \<and> trim c \<noteq> []"
    if "sn_print (sample_store_env now) d = Inr c" for d c
  proof -
    from that consider "d = sample_data 0" "c = ''a''" | "d = sample_data 1" "c = ''b''" | "d = sample_data 2" "c = ''c''"
      by (auto simp: sample_store_env_def split: if_splits)
    moreover have "trim ''a'' \<noteq> []" "trim ''b'' \<noteq> []" "trim ''c'' \<noteq> []" by code_simp+
    ultimately show ?thesis by cases (simp_all add: sample_store_env_def)
  qed
  then show ?thesis by (simp add: codec_ok_def env_codec_def)
qed

lemma sample_codec: "env_codec (sample_store_env now) = env_codec (sample_store_env 1000)"
  by (simp add: env_codec_def sample_store_env_def)

lemma sample_logged_in: "run_auth_op sample_login None = Some ''a''"
  by code_simp

lemma sample_lookup:
  "get_profile (sample_store_env 5000) openai_codex_provider None (Some ''a'') =
     (Some ''a'', Some (Inr (Some (sample_profile ''t'' 4600 1000))))"
  by code_simp

lemma sample_logout:
  "logout_openai_codex (sample_store_env 5000) (Some ''default'') (Some ''a'') = (Some ''b'', Some (Inr True))"
  by code_simp

lemma sample_refresh:
  "get_valid_openai_access_token sample_oauth sample_post (sample_store_env 5000)
     (\<lambda>d. fst (logout_openai_codex (sample_store_env 5000) (Some ''default'') d)) (sample_store_env 5000) None (Some ''a'') =
     (Some ''c'', Some (Inr (Some ''t'')))"
  by code_simp

theorem stored_login_is_found_witness:
  "\<exists>data. load_unlocked (sample_store_env 5000) (fold run_auth_op [sample_login] None) = Inr data \<and> ad_profiles data \<noteq> []"
proof -
  have c: "list_all (op_codec (env_codec (sample_store_env 5000))) [sample_login]"
    by (simp add: sample_login_def sample_codec[of 5000])
  have "snd (get_profile (sample_store_env 5000) openai_codex_provider None (fold run_auth_op [sample_login] None)) =
      Some (Inr (Some (sample_profile ''t'' 4600 1000)))"
    by (simp add: sample_logged_in sample_lookup)
  from stored_login_is_found[OF sample_codec_ok c this] show ?thesis by auto
qed

theorem refresh_undoes_logout_witness:
  "\<exists>c data p'. fst (get_valid_openai_access_token sample_oauth sample_post (sample_store_env 5000)
     (\<lambda>d. fst (logout_openai_codex (sample_store_env 5000) (Some ''default'') d)) (sample_store_env 5000) None (Some ''a'')) = Some c \<and>
     sn_parse (sample_store_env 5000) c = Inr data \<and> map_of (ad_profiles data) ''openai_codex:default'' = Some p'"
proof -
  have e: "is_expiring_within (sn_now (sample_store_env 5000)) (ap_token_set (sample_profile ''t'' 4600 1000)) openai_refresh_skew_secs"
    "tk_refresh_token (ap_token_set (sample_profile ''t'' 4600 1000)) = Some ''r''"
    "normalize_profile_name ''default'' = Inr (ap_profile_name (sample_profile ''t'' 4600 1000))"
    "ap_id (sample_profile ''t'' 4600 1000) = ''openai_codex:default''"
    by code_simp+
  from refresh_undoes_logout[OF sample_codec_ok sample_codec_ok refl sample_lookup e(1,2) sample_logout e(3) sample_refresh]
  show ?thesis unfolding sample_refresh e(4) fst_conv by blast
qed

end
