(* ===== verification/SseLines.thy ===== *)
theory SseLines
  imports React ToolArgs Auth
begin

text \<open>
  What the provider adapters share: the JSON library, the answers of the HTTP library, and the
  reading of a stream of server-sent events line by line, which \<open>src/providers/gemini.rs\<close> and
  \<open>src/providers/openai_codex.rs\<close> both contain. An accumulator returns the events it has pushed;
  its caller sends them on or, after an error, drops them.
\<close>

section \<open>Libraries\<close>

record json_codec =
  jc_parse :: "rstr \<Rightarrow> rstr + json"
  jc_text :: "json \<Rightarrow> rstr"

definition parse_opt :: "json_codec \<Rightarrow> rstr \<Rightarrow> json option" where
  "parse_opt jc s = (case jc_parse jc s of Inr v \<Rightarrow> Some v | Inl _ \<Rightarrow> None)"

text \<open>The message of \<open>str::from_utf8\<close>: where the text stops being UTF-8, and why.\<close>

fun utf8_error_len :: "rstr \<Rightarrow> nat option" where
  "utf8_error_len [] = None"
| "utf8_error_len (a # s) =
     (if byte_in 0xC2 0xDF a then (case s of [] \<Rightarrow> None | _ \<Rightarrow> Some 1)
      else if byte_in 0xE0 0xEF a then
        (case s of
           [] \<Rightarrow> None
         | b # s \<Rightarrow>
             if \<not> byte_in (if byte_in 0xE0 0xE0 a then 0xA0 else 0x80) (if byte_in 0xED 0xED a then 0x9F else 0xBF) b then Some 1
             else (case s of [] \<Rightarrow> None | _ \<Rightarrow> Some 2))
      else if byte_in 0xF0 0xF4 a then
        (case s of
           [] \<Rightarrow> None
         | b # s \<Rightarrow>
             if \<not> byte_in (if byte_in 0xF0 0xF0 a then 0x90 else 0x80) (if byte_in 0xF4 0xF4 a then 0x8F else 0xBF) b then Some 1
             else (case s of
                     [] \<Rightarrow> None
                   | c # s \<Rightarrow> if \<not> byte_in 0x80 0xBF c then Some 2 else (case s of [] \<Rightarrow> None | _ \<Rightarrow> Some 3)))
      else Some 1)"

function valid_up_to :: "rstr \<Rightarrow> nat" where
  "valid_up_to s = (case utf8_step s of None \<Rightarrow> 0 | Some t \<Rightarrow> length s - length t + valid_up_to t)"
  by pat_completeness auto
termination by (relation "measure length") (auto dest: utf8_step_length)

declare valid_up_to.simps [simp del]

definition utf8_error :: "rstr \<Rightarrow> rstr" where
  "utf8_error s =
     (let at = valid_up_to s
      in case utf8_error_len (drop at s) of
           Some n \<Rightarrow> ''invalid utf-8 sequence of '' @ show_nat n @ '' bytes from index '' @ show_nat at
         | None \<Rightarrow> ''incomplete utf-8 byte sequence from index '' @ show_nat at)"

record http_request =
  hq_url :: rstr
  hq_query :: "(rstr \<times> rstr) list"
  hq_headers :: "(rstr \<times> rstr) list"
  hq_body :: json

fun is_object :: "json \<Rightarrow> bool" where
  "is_object (JObj _) = True"
| "is_object _ = False"

definition array_field :: "rstr \<Rightarrow> json \<Rightarrow> json list" where
  "array_field key v = (case Option.bind (json_get key v) as_array of Some items \<Rightarrow> items | None \<Rightarrow> [])"

text \<open>The response a tool result carries, and \<open>text.chars().take(n)\<close> of an error body.\<close>

definition response_json :: "tool_result_message \<Rightarrow> json" where
  "response_json r = JObj [(''status'', JStr (tm_status r)), (''content'', JStr (tm_content r))]"

definition error_body_preview_chars :: nat where
  "error_body_preview_chars = 1000"

text \<open>A streamed answer: its chunks, each possibly a failure to read.\<close>

record stream_response =
  sp_head :: http_response
  sp_chunks :: "(rstr + rstr) list"

section \<open>Lines and data lines\<close>

record sse_acc =
  sa_line_buffer :: rstr
  sa_event_data_lines :: "rstr list"
  sa_indices :: "(rstr \<times> nat) list"
  sa_tool_calls :: "tool_call list"

type_synonym 's step = "'s \<Rightarrow> ('s \<times> stream_event list) res"

definition strip_cr :: "rstr \<Rightarrow> rstr" where
  "strip_cr line = (if line \<noteq> [] \<and> last line = CR then butlast line else line)"

definition sse_process_line :: "'a sse_acc_scheme step \<Rightarrow> rstr \<Rightarrow> 'a sse_acc_scheme step" where
  "sse_process_line flush_event line self =
     (if line = [] then flush_event self
      else if prefix ''data:'' line
      then Inr (self\<lparr>sa_event_data_lines := sa_event_data_lines self @ [trim_start (drop (length ''data:'') line)]\<rparr>, [])
      else Inr (self, []))"

function sse_drain :: "(rstr \<Rightarrow> 'a sse_acc_scheme step) \<Rightarrow> rstr \<Rightarrow> 'a sse_acc_scheme step" where
  "sse_drain process_line buffer self =
     (case dropWhile (\<lambda>c. c \<noteq> NL) buffer of
        [] \<Rightarrow> Inr (self\<lparr>sa_line_buffer := buffer\<rparr>, [])
      | _ # tail \<Rightarrow>
          rbind (process_line (strip_cr (takeWhile (\<lambda>c. c \<noteq> NL) buffer)) (self\<lparr>sa_line_buffer := tail\<rparr>)) (\<lambda>(self, pushed).
          rbind (sse_drain process_line tail self) (\<lambda>(self, more_pushed). Inr (self, pushed @ more_pushed))))"
  by pat_completeness auto
termination
proof (relation "measure (\<lambda>(p, b, s). length b)")
  fix process_line :: "rstr \<Rightarrow> 'a sse_acc_scheme step" and buffer c tail and self :: "'a sse_acc_scheme" and x y s
  assume "dropWhile (\<lambda>c. c \<noteq> NL) buffer = c # tail"
  then have "length (c # tail) \<le> length buffer" by (metis length_dropWhile_le)
  then show "((process_line, tail, s), (process_line, buffer, self)) \<in> measure (\<lambda>(p, b, s). length b)" by simp
qed simp

declare sse_drain.simps [simp del]

definition sse_push_bytes :: "rstr \<Rightarrow> 'a sse_acc_scheme step \<Rightarrow> rstr \<Rightarrow> 'a sse_acc_scheme step" where
  "sse_push_bytes name flush_event bytes self =
     (if \<not> valid_utf8 bytes then Inl (ProviderError (''invalid '' @ name @ '' stream bytes: '' @ utf8_error bytes))
      else sse_drain (sse_process_line flush_event) (sa_line_buffer self @ bytes) self)"

definition sse_finish :: "'a sse_acc_scheme step \<Rightarrow> 'a sse_acc_scheme \<Rightarrow> stream_event list res" where
  "sse_finish flush_event self =
     rbind (if sa_line_buffer self \<noteq> []
            then sse_process_line flush_event (strip_cr (sa_line_buffer self)) (self\<lparr>sa_line_buffer := []\<rparr>)
            else Inr (self, [])) (\<lambda>(self, pushed).
     rbind (flush_event self) (\<lambda>(self, more_pushed).
       Inr (pushed @ more_pushed @ map ToolCallComplete (sa_tool_calls self) @ [StreamDone])))"

text \<open>A call with an id seen before replaces the earlier one.\<close>

definition record_tool_call :: "tool_call \<Rightarrow> 'a sse_acc_scheme \<Rightarrow> 'a sse_acc_scheme" where
  "record_tool_call tool_call self =
     (case tl_id tool_call of
        Some i \<Rightarrow>
          (case map_of (sa_indices self) i of
             Some index \<Rightarrow> self\<lparr>sa_tool_calls := (sa_tool_calls self)[index := tool_call]\<rparr>
           | None \<Rightarrow> self\<lparr>sa_indices := bt_insert i (length (sa_tool_calls self)) (sa_indices self),
                          sa_tool_calls := sa_tool_calls self @ [tool_call]\<rparr>)
      | None \<Rightarrow> self\<lparr>sa_tool_calls := sa_tool_calls self @ [tool_call]\<rparr>)"

definition sse_whole :: "rstr \<Rightarrow> 'a sse_acc_scheme step \<Rightarrow> rstr \<Rightarrow> 'a sse_acc_scheme \<Rightarrow> stream_event list res" where
  "sse_whole name flush_event body self =
     rbind (sse_push_bytes name flush_event body self) (\<lambda>(self, pushed).
     rbind (sse_finish flush_event self) (\<lambda>ending. Inr (pushed @ ending)))"

text \<open>The task that feeds the stream: the events of each chunk, then the end; an error is the last event.\<close>

fun sse_feed :: "rstr \<Rightarrow> rstr \<Rightarrow> 'a sse_acc_scheme step \<Rightarrow> (rstr + rstr) list \<Rightarrow> 'a sse_acc_scheme \<Rightarrow> stream_event list" where
  "sse_feed name reader flush_event [] accumulator =
     (case sse_finish flush_event accumulator of
        Inr events \<Rightarrow> events
      | Inl err \<Rightarrow> [StreamError (error_to_string err)])"
| "sse_feed name reader flush_event (Inr bytes # chunks) accumulator =
     (case sse_push_bytes name flush_event bytes accumulator of
        Inr (accumulator, events) \<Rightarrow> events @ sse_feed name reader flush_event chunks accumulator
      | Inl err \<Rightarrow> [StreamError (error_to_string err)])"
| "sse_feed name reader flush_event (Inl err # chunks) accumulator =
     [StreamError (reader @ '' stream read failed: '' @ err)]"

lemma line_fields_commute:
  "self\<lparr>sa_line_buffer := b, sa_event_data_lines := d\<rparr> = self\<lparr>sa_event_data_lines := d, sa_line_buffer := b\<rparr>"
  by (cases self) simp

section \<open>Events that do not depend on the chunks\<close>

text \<open>
  What both accumulators promise: handling a complete event reads and writes nothing of the line
  buffer, and pushes texts only.
\<close>

definition with_buffer :: "rstr \<Rightarrow> ('a sse_acc_scheme \<times> stream_event list) res \<Rightarrow> ('a sse_acc_scheme \<times> stream_event list) res" where
  "with_buffer b r = rbind r (\<lambda>(self, pushed). Inr (self\<lparr>sa_line_buffer := b\<rparr>, pushed))"

lemma with_buffer_simps [simp]:
  "with_buffer b (Inl e) = Inl e" "with_buffer b (Inr (s, ev)) = Inr (s\<lparr>sa_line_buffer := b\<rparr>, ev)"
  by (simp_all add: with_buffer_def)

definition texts_only :: "stream_event list \<Rightarrow> bool" where
  "texts_only pushed \<longleftrightarrow> (\<forall>e\<in>set pushed. \<exists>t. e = TextDelta t)"

lemma texts_only_Nil [simp]: "texts_only []"
  by (simp add: texts_only_def)

lemma texts_only_Cons [simp]: "texts_only (TextDelta t # ev) \<longleftrightarrow> texts_only ev"
  by (simp add: texts_only_def)

lemma texts_only_append [simp]: "texts_only (a @ b) \<longleftrightarrow> texts_only a \<and> texts_only b"
  by (auto simp: texts_only_def)

lemma drain_no_newline:
  "dropWhile (\<lambda>c. c \<noteq> NL) x = [] \<Longrightarrow> sse_drain p x self = Inr (self\<lparr>sa_line_buffer := x\<rparr>, [])"
  unfolding sse_drain.simps[of p x self] by (simp only: list.case)

lemma drain_newline:
  "dropWhile (\<lambda>c. c \<noteq> NL) x = c # t \<Longrightarrow> sse_drain p x self =
     rbind (p (strip_cr (takeWhile (\<lambda>c. c \<noteq> NL) x)) (self\<lparr>sa_line_buffer := t\<rparr>)) (\<lambda>(self, pushed).
     rbind (sse_drain p t self) (\<lambda>(self, more_pushed). Inr (self, pushed @ more_pushed)))"
  unfolding sse_drain.simps[of p x self] by (simp only: list.case)

lemma newline_append:
  assumes "dropWhile (\<lambda>c. c \<noteq> NL) x = c # t"
  shows "dropWhile (\<lambda>c. c \<noteq> NL) (x @ y) = c # (t @ y)" "takeWhile (\<lambda>c. c \<noteq> NL) (x @ y) = takeWhile (\<lambda>c. c \<noteq> NL) x"
    "length t < length x"
proof -
  have "\<exists>z\<in>set x. \<not> z \<noteq> NL" using assms dropWhile_eq_Nil_conv[of "\<lambda>c. c \<noteq> NL" x] by auto
  then obtain z where z: "z \<in> set x" "\<not> z \<noteq> NL" by blast
  show "dropWhile (\<lambda>c. c \<noteq> NL) (x @ y) = c # (t @ y)" using dropWhile_append1[of z x  "\<lambda>c. c \<noteq> NL"  y] z assms by simp
  show "takeWhile (\<lambda>c. c \<noteq> NL) (x @ y) = takeWhile (\<lambda>c. c \<noteq> NL) x" using takeWhile_append1[of z x "\<lambda>c. c \<noteq> NL" y] z by simp
  show "length t < length x" using length_dropWhile_le[of "\<lambda>c. c \<noteq> NL" x] assms by simp
qed

lemma drain_leaves_no_newline: "sse_drain p x self = Inr (self', pushed) \<Longrightarrow> NL \<notin> set (sa_line_buffer self')"
proof (induction "length x" arbitrary: x self self' pushed rule: less_induct)
  case less
  show ?case
  proof (cases "dropWhile (\<lambda>c. c \<noteq> NL) x")
    case Nil
    then have x: "NL \<notin> set x" unfolding dropWhile_eq_Nil_conv by blast
    have "self' = self\<lparr>sa_line_buffer := x\<rparr>" using less.prems unfolding drain_no_newline[OF Nil] by simp
    then show ?thesis using x by simp
  next
    case (Cons c t)
    from less.prems obtain s1 more where "sse_drain p t s1 = Inr (self', more)"
      unfolding drain_newline[OF Cons] by (auto simp: rbind_eq_Inr)
    then show ?thesis by (rule less.hyps[OF newline_append(3)[OF Cons]])
  qed
qed

text \<open>The text that events add to the output.\<close>

fun texts_of :: "stream_event list \<Rightarrow> rstr" where
  "texts_of [] = []"
| "texts_of (TextDelta t # ev) = t @ texts_of ev"
| "texts_of (_ # ev) = texts_of ev"

lemma read_texts:
  "texts_only ev \<Longrightarrow> snd (read_stream (ev @ s) so_far calls) = snd (read_stream s (so_far @ texts_of ev) calls)"
  by (induction ev arbitrary: so_far) (auto simp: texts_only_def case_prod_beta)

lemma valid_utf8_append: "valid_utf8 x \<Longrightarrow> valid_utf8 y \<Longrightarrow> valid_utf8 (x @ y)"
proof (induction x rule: valid_utf8.induct)
  case (1 x)
  show ?case
  proof (cases "x = []")
    case False
    with 1(2) obtain t where t: "utf8_step x = Some t" "valid_utf8 t"
      by (subst (asm) valid_utf8.simps) (auto split: option.splits)
    have "utf8_step (x @ y) = Some (t @ y)"
      using t(1) by (cases x) (auto split: if_splits list.splits)
    then show ?thesis using 1(1)[OF t(1) t(2) 1(3)] by (subst valid_utf8.simps) simp
  qed (use 1 in simp)
qed

lemma valid_utf8_concat: "\<forall>c\<in>set chunks. valid_utf8 c \<Longrightarrow> valid_utf8 (concat chunks)"
  by (induction chunks) (auto intro: valid_utf8_append)

locale event_source =
  fixes flush_event :: "'a sse_acc_scheme \<Rightarrow> ('a sse_acc_scheme \<times> stream_event list) res"
  assumes flush_buffer: "flush_event (self\<lparr>sa_line_buffer := b\<rparr>) = with_buffer b (flush_event self)"
    and flush_texts: "flush_event self = Inr (self', pushed) \<Longrightarrow> texts_only pushed"
begin

abbreviation process_line where
  "process_line \<equiv> sse_process_line flush_event"

lemma process_buffer: "process_line l (self\<lparr>sa_line_buffer := b\<rparr>) = with_buffer b (process_line l self)"
  by (simp add: sse_process_line_def flush_buffer)

lemma process_texts: "process_line l self = Inr (self', pushed) \<Longrightarrow> texts_only pushed"
  by (auto simp: sse_process_line_def dest: flush_texts split: if_splits)

lemma drain_ignores_buffer: "sse_drain process_line x (self\<lparr>sa_line_buffer := b\<rparr>) = sse_drain process_line x self"
proof (cases "dropWhile (\<lambda>c. c \<noteq> NL) x")
  case Nil
  then show ?thesis by (simp add: drain_no_newline)
next
  case (Cons c t)
  then show ?thesis by (simp add: drain_newline)
qed

lemma drain_append:
  "sse_drain process_line (x @ y) self =
     rbind (sse_drain process_line x self) (\<lambda>(self, pushed).
     rbind (sse_drain process_line (sa_line_buffer self @ y) self) (\<lambda>(self, more_pushed). Inr (self, pushed @ more_pushed)))"
proof (induction "length x" arbitrary: x self rule: less_induct)
  case less
  show ?case
  proof (cases "dropWhile (\<lambda>c. c \<noteq> NL) x")
    case Nil
    show ?thesis unfolding drain_no_newline[OF Nil]
      by (cases "sse_drain process_line (x @ y) self") (auto simp: drain_ignores_buffer)
  next
    case (Cons c t)
    note n = newline_append(1,2)[OF Cons, of y] newline_append(3)[OF Cons]
    show ?thesis
    proof (cases "process_line (strip_cr (takeWhile (\<lambda>c. c \<noteq> NL) x)) self")
      case (Inl e)
      then show ?thesis by (simp add: drain_newline[OF Cons] drain_newline[OF n(1)] n(2) process_buffer)
    next
      case (Inr r)
      obtain s1 ev where r: "process_line (strip_cr (takeWhile (\<lambda>c. c \<noteq> NL) x)) self = Inr (s1, ev)"
        using Inr by (cases r) auto
      have l: "sse_drain process_line (x @ y) self =
          rbind (sse_drain process_line (t @ y) s1) (\<lambda>(self, more_pushed). Inr (self, ev @ more_pushed))"
        by (simp add: drain_newline[OF n(1)] n(2) process_buffer r drain_ignores_buffer)
      have m: "sse_drain process_line x self =
          rbind (sse_drain process_line t s1) (\<lambda>(self, more_pushed). Inr (self, ev @ more_pushed))"
        by (simp add: drain_newline[OF Cons] process_buffer r drain_ignores_buffer)
      show ?thesis unfolding l m less.hyps[OF n(3), of s1]
        by (simp add: rbind_def split: sum.split prod.split)
    qed
  qed
qed

lemma drain_texts: "sse_drain process_line x self = Inr (self', pushed) \<Longrightarrow> texts_only pushed"
proof (induction "length x" arbitrary: x self self' pushed rule: less_induct)
  case less
  show ?case
  proof (cases "dropWhile (\<lambda>c. c \<noteq> NL) x")
    case Nil
    then show ?thesis using less.prems by (simp add: drain_no_newline)
  next
    case (Cons c t)
    from less.prems obtain s1 ev more where
      p: "process_line (strip_cr (takeWhile (\<lambda>c. c \<noteq> NL) x)) (self\<lparr>sa_line_buffer := t\<rparr>) = Inr (s1, ev)"
      and d: "sse_drain process_line t s1 = Inr (self', more)" "pushed = ev @ more"
      unfolding drain_newline[OF Cons] by (auto simp: rbind_eq_Inr)
    show ?thesis using process_texts[OF p] less.hyps[OF newline_append(3)[OF Cons] d(1)] d(2) by simp
  qed
qed

text \<open>Two chunks are read like one.\<close>

lemma push_append:
  assumes "valid_utf8 x" "valid_utf8 y" "valid_utf8 (x @ y)"
  shows "sse_push_bytes name flush_event (x @ y) self =
     rbind (sse_push_bytes name flush_event x self) (\<lambda>(self, pushed).
     rbind (sse_push_bytes name flush_event y self) (\<lambda>(self, more_pushed). Inr (self, pushed @ more_pushed)))"
  using drain_append[of "sa_line_buffer self @ x" y self] assms by (simp add: sse_push_bytes_def)

lemma push_texts: "sse_push_bytes name flush_event x self = Inr (self', pushed) \<Longrightarrow> texts_only pushed"
  by (auto simp: sse_push_bytes_def dest: drain_texts split: if_splits)

text \<open>
  The consumer of the stream sees of chunks that end at characters what it sees of the whole body;
  of other chunks it sees an error.
\<close>

lemma feed_valid:
  assumes "\<forall>c\<in>set chunks. valid_utf8 c" "NL \<notin> set (sa_line_buffer self)"
  shows "snd (read_stream (sse_feed name reader flush_event (map Inr chunks) self) so_far calls) =
    (case sse_whole name flush_event (concat chunks) self of
       Inr events \<Rightarrow> snd (read_stream events so_far calls)
     | Inl e \<Rightarrow> Inl (ProviderError (error_to_string e)))"
  using assms
proof (induction chunks arbitrary: self so_far)
  case Nil
  have "sse_push_bytes name flush_event [] self = Inr (self, [])"
    using drain_no_newline[of "sa_line_buffer self" process_line self] Nil(2)
    by (auto simp: sse_push_bytes_def dropWhile_eq_Nil_conv)
  then show ?case by (simp add: sse_whole_def split: sum.split)
next
  case (Cons c chunks)
  have v: "valid_utf8 c" "valid_utf8 (concat chunks)" "valid_utf8 (c @ concat chunks)"
    using Cons.prems(1) valid_utf8_concat[of chunks] valid_utf8_append[of c "concat chunks"] by simp_all
  show ?case
  proof (cases "sse_push_bytes name flush_event c self")
    case (Inl e)
    then show ?thesis using push_append[OF v, of name self] by (simp add: sse_whole_def)
  next
    case (Inr r)
    obtain s1 ev where r: "sse_push_bytes name flush_event c self = Inr (s1, ev)" using Inr by (cases r) auto
    have "NL \<notin> set (sa_line_buffer s1)" using r v(1) by (auto simp: sse_push_bytes_def dest: drain_leaves_no_newline)
    note ih = Cons.IH[OF _ this, of "so_far @ texts_of ev"]
    have "sse_whole name flush_event (c @ concat chunks) self =
        rbind (sse_whole name flush_event (concat chunks) s1) (\<lambda>events. Inr (ev @ events))"
      using push_append[OF v, of name self] by (simp add: sse_whole_def r rbind_def split: sum.split prod.split)
    then show ?thesis using ih Cons.prems(1) read_texts[OF push_texts[OF r]]
      by (simp add: r split: sum.split)
  qed
qed

lemma feed_invalid:
  assumes "\<not> (\<forall>c\<in>set chunks. valid_utf8 c)"
  shows "\<exists>e. snd (read_stream (sse_feed name reader flush_event (map Inr chunks) self) so_far calls) = Inl (ProviderError e)"
  using assms
proof (induction chunks arbitrary: self so_far)
  case (Cons c chunks)
  show ?case
  proof (cases "sse_push_bytes name flush_event c self")
    case (Inr r)
    obtain s1 ev where r: "sse_push_bytes name flush_event c self = Inr (s1, ev)" using Inr by (cases r) auto
    then have "valid_utf8 c" by (simp add: sse_push_bytes_def split: if_splits)
    then show ?thesis using Cons read_texts[OF push_texts[OF r]] by (simp add: r)
  qed simp
qed simp

lemma whole_events:
  assumes "sse_whole name flush_event body self = Inr events"
  shows "\<exists>ev calls. events = ev @ map ToolCallComplete calls @ [StreamDone] \<and> texts_only ev"
proof -
  from assms obtain s1 ev1 ending where a: "sse_push_bytes name flush_event body self = Inr (s1, ev1)"
    "sse_finish flush_event s1 = Inr ending" "events = ev1 @ ending" by (auto simp: sse_whole_def rbind_eq_Inr)
  from a(2) obtain s2 ev2 s3 ev3 where b: "(if sa_line_buffer s1 \<noteq> []
            then process_line (strip_cr (sa_line_buffer s1)) (s1\<lparr>sa_line_buffer := []\<rparr>)
            else Inr (s1, [])) = Inr (s2, ev2)" "flush_event s2 = Inr (s3, ev3)"
    "ending = ev2 @ ev3 @ map ToolCallComplete (sa_tool_calls s3) @ [StreamDone]"
    by (auto simp: sse_finish_def rbind_eq_Inr)
  have "texts_only ev2" using b(1) by (auto split: if_splits dest: process_texts)
  then have "texts_only (ev1 @ ev2 @ ev3)" using push_texts[OF a(1)] flush_texts[OF b(2)] by simp
  then show ?thesis using a(3) b(3) by (intro exI[of _ "ev1 @ ev2 @ ev3"] exI[of _ "sa_tool_calls s3"]) simp
qed

end

end
