(* ===== verification/Codex.thy ===== *)
theory Codex
  imports SseLines Persona
begin

text \<open>
  \<open>src/providers/openai_codex.rs\<close>: the requests to the model service of OpenAI, and the reading of
  its answers, whole or streamed. HTTP, JSON and the stored login are arguments.
\<close>

section \<open>Requests\<close>

definition max_identifier_len :: nat where
  "max_identifier_len = 64"

definition resolve_instructions :: "rstr \<Rightarrow> rstr" where
  "resolve_instructions system_prompt =
     (if trim system_prompt = [] then ''You are SimpleClaw, a concise and helpful coding assistant.'' else system_prompt)"

definition is_identifier_char :: "char \<Rightarrow> bool" where
  "is_identifier_char c \<longleftrightarrow> is_ascii_alnum c \<or> c = CHR ''_'' \<or> c = CHR ''-''"

definition sanitize_identifier :: "rstr \<Rightarrow> rstr \<Rightarrow> rstr" where
  "sanitize_identifier raw fallback =
     (let sanitized = map (\<lambda>ch. if length ch = 1 \<and> is_identifier_char (hd ch) then hd ch else CHR ''_'') (chars (trim raw));
          trimmed = trim_matches (CHR ''_'') sanitized
      in if trimmed = [] then fallback else take_chars max_identifier_len trimmed)"

definition normalize_tool_arguments :: "json_codec \<Rightarrow> rstr \<Rightarrow> rstr" where
  "normalize_tool_arguments jc args_json =
     (case jc_parse jc args_json of
        Inr (JObj members) \<Rightarrow> jc_text jc (JObj members)
      | _ \<Rightarrow> ''{}'')"

definition normalize_tool_result_output :: "json_codec \<Rightarrow> json \<Rightarrow> json" where
  "normalize_tool_result_output jc v =
     (case v of
        JStr t \<Rightarrow> JStr t
      | JArr items \<Rightarrow> if list_all is_object items then JArr items else JStr (jc_text jc v)
      | _ \<Rightarrow> JStr (jc_text jc v))"

text \<open>The id of a call or a result: its own, when not blank, else one made of the tool's name.\<close>

definition codex_call_id :: "rstr option \<Rightarrow> rstr \<Rightarrow> rstr" where
  "codex_call_id own_id name =
     (let raw = (case own_id of Some i \<Rightarrow> if trim i \<noteq> [] then i else ''call_'' @ name | None \<Rightarrow> ''call_'' @ name)
      in sanitize_identifier raw (''call_'' @ name))"

definition function_call_item :: "json_codec \<Rightarrow> tool_call \<Rightarrow> json" where
  "function_call_item jc call =
     (let name = sanitize_identifier (tl_name call) ''tool''
      in JObj [(''type'', JStr ''function_call''), (''name'', JStr name),
               (''call_id'', JStr (codex_call_id (tl_id call) name)),
               (''arguments'', JStr (normalize_tool_arguments jc (tl_args_json call)))])"

definition function_output_item :: "json_codec \<Rightarrow> tool_result_message \<Rightarrow> json" where
  "function_output_item jc r =
     JObj [(''type'', JStr ''function_call_output''),
           (''call_id'', JStr (codex_call_id (tm_call_id r) (sanitize_identifier (tm_name r) ''tool''))),
           (''output'', normalize_tool_result_output jc (response_json r))]"

fun codex_role :: "role \<Rightarrow> rstr \<times> rstr" where
  "codex_role System = (''system'', ''input_text'')"
| "codex_role User = (''user'', ''input_text'')"
| "codex_role Assistant = (''assistant'', ''output_text'')"
| "codex_role ToolRole = (''user'', ''input_text'')"

definition text_item :: "message \<Rightarrow> json" where
  "text_item m =
     (case codex_role (ms_role m) of
        (role, content_type) \<Rightarrow>
          JObj [(''type'', JStr ''message''), (''role'', JStr role),
                (''content'', JArr [JObj [(''type'', JStr content_type), (''text'', JStr (ms_content m))]])])"

definition message_input :: "json_codec \<Rightarrow> message \<Rightarrow> json list" where
  "message_input jc m =
     (let blank = (trim (ms_content m) = []);
          body = (if blank then [] else [text_item m]);
          results = (if ms_tool_results m \<noteq> []
                     then map (function_output_item jc) (ms_tool_results m) @ body
                     else body)
      in if ms_tool_calls m \<noteq> []
         then map (function_call_item jc) (ms_tool_calls m) @ (if blank then [] else results)
         else results)"

definition codex_build_input :: "json_codec \<Rightarrow> message list \<Rightarrow> json list" where
  "codex_build_input jc history = concat (map (message_input jc) history)"

definition default_tool_schema :: json where
  "default_tool_schema = JObj [(''type'', JStr ''object''), (''properties'', JObj [])]"

lemma size_snd_member: "(k, v) \<in> set members \<Longrightarrow> size v < Suc (size_list (size_prod (\<lambda>_. 0) size) members)"
  by (induction members) auto

lemma size_nested_object:
  "(k, JObj ps) \<in> set members \<Longrightarrow> (k', e) \<in> set ps \<Longrightarrow> size e < Suc (size_list (size_prod (\<lambda>_. 0) size) members)"
  using size_snd_member[of k "JObj ps" members] size_snd_member[of k' e ps] by simp

lemma size_nested_array:
  "(k, JArr es) \<in> set members \<Longrightarrow> e \<in> set es \<Longrightarrow> size e < Suc (size_list (size_prod (\<lambda>_. 0) size) members)"
  using size_snd_member[of k "JArr es" members] size_list_estimation'[of e es "size e" size] by simp

text \<open>
  Each member of an object is normalized for itself, by its key; the keys are pairwise different.
\<close>

function normalize_schema_node :: "json \<Rightarrow> json" where
  "normalize_schema_node (JObj members) =
     JObj (map (\<lambda>(key, v).
       (key,
        if key = ''properties''
        then (case v of JObj ps \<Rightarrow> JObj (map (\<lambda>(k, e). (k, normalize_schema_node e)) ps) | _ \<Rightarrow> JObj [])
        else if key = ''required''
        then (case v of JArr items \<Rightarrow> JArr (filter (\<lambda>i. as_str i \<noteq> None) items) | _ \<Rightarrow> JArr [])
        else if key = ''items'' then normalize_schema_node v
        else if key = ''additionalProperties'' then (if is_object v then normalize_schema_node v else v)
        else if key = ''anyOf'' \<or> key = ''oneOf'' \<or> key = ''allOf''
        then (case v of JArr entries \<Rightarrow> JArr (map (\<lambda>e. if is_object e then normalize_schema_node e else e) entries)
                      | _ \<Rightarrow> JArr [])
        else v)) members)"
| "normalize_schema_node JNull = default_tool_schema"
| "normalize_schema_node (JBool b) = default_tool_schema"
| "normalize_schema_node (JInt i) = default_tool_schema"
| "normalize_schema_node (JFloat t) = default_tool_schema"
| "normalize_schema_node (JStr t) = default_tool_schema"
| "normalize_schema_node (JArr items) = default_tool_schema"
  by pat_completeness auto
termination
  apply (relation "measure size")
  apply simp_all
  subgoal by (clarify, erule (1) size_nested_object)
  subgoal by (clarify, erule size_snd_member)
  subgoal by (clarify, erule size_snd_member)
  subgoal by (clarify, erule (1) size_nested_array)
  done

text \<open>\<open>map.insert(key, v)\<close>.\<close>

fun json_set :: "rstr \<Rightarrow> json \<Rightarrow> (rstr \<times> json) list \<Rightarrow> (rstr \<times> json) list" where
  "json_set key v [] = [(key, v)]"
| "json_set key v ((k, w) # members) = (if k = key then (key, v) # members else (k, w) # json_set key v members)"

definition normalize_tool_schema :: "json \<Rightarrow> json" where
  "normalize_tool_schema schema =
     (case schema of
        JObj members \<Rightarrow>
          (let members = (if str_field ''type'' (JObj members) \<noteq> Some ''object''
                          then json_set ''type'' (JStr ''object'') members else members);
               members = (case map_of members ''properties'' of
                            Some (JObj _) \<Rightarrow> members
                          | _ \<Rightarrow> json_set ''properties'' (JObj []) members)
           in normalize_schema_node (JObj members))
      | _ \<Rightarrow> default_tool_schema)"

definition tool_item :: "json_codec \<Rightarrow> tool_definition \<Rightarrow> json option" where
  "tool_item jc tool =
     (let name = sanitize_identifier (td_name tool) []
      in if name = [] then None
         else Some (JObj [(''type'', JStr ''function''), (''name'', JStr name), (''description'', JStr (td_description tool)),
                (''parameters'', normalize_tool_schema
                   (case jc_parse jc (td_input_schema_json tool) of Inr v \<Rightarrow> v | Inl _ \<Rightarrow> default_tool_schema))]))"

definition codex_build_tools :: "json_codec \<Rightarrow> tool_definition list \<Rightarrow> json list" where
  "codex_build_tools jc tools = List.map_filter (tool_item jc) tools"

definition codex_request_body :: "rstr \<Rightarrow> rstr \<Rightarrow> json list \<Rightarrow> json list \<Rightarrow> bool \<Rightarrow> json" where
  "codex_request_body model instructions input tools stream =
     JObj ([(''model'', JStr model), (''input'', JArr input), (''instructions'', JStr instructions), (''store'', JBool False),
            (''stream'', JBool stream), (''text'', JObj [(''verbosity'', JStr ''medium'')]),
            (''reasoning'', JObj [(''effort'', JStr ''high''), (''summary'', JStr ''auto'')]),
            (''include'', JArr [JStr ''reasoning.encrypted_content''])] @
           (if tools \<noteq> []
            then [(''tools'', JArr tools), (''tool_choice'', JStr ''auto''), (''parallel_tool_calls'', JBool True)] else []))"

section \<open>Answers\<close>

definition first_nonempty_str :: "rstr option \<Rightarrow> rstr option" where
  "first_nonempty_str v = Option.bind v (\<lambda>t. if trim t = [] then None else Some (trim t))"

definition part_text :: "json \<Rightarrow> rstr list" where
  "part_text part =
     (if str_field ''type'' part \<in> {Some ''output_text'', Some ''input_text'', Some ''text''}
      then (case first_nonempty_str (str_field ''text'' part) of Some t \<Rightarrow> [t] | None \<Rightarrow> []) else [])"

definition item_texts :: "json \<Rightarrow> rstr list" where
  "item_texts item =
     (case first_nonempty_str (str_field ''text'' item) of Some t \<Rightarrow> [t] | None \<Rightarrow> []) @
     concat (map part_text (array_field ''content'' item))"

definition parse_output_text :: "json \<Rightarrow> rstr option" where
  "parse_output_text response =
     (case first_nonempty_str (str_field ''output_text'' response) of
        Some t \<Rightarrow> Some t
      | None \<Rightarrow>
          (let chunks = concat (map item_texts (array_field ''output'' response))
           in if chunks = [] then None else Some (join [NL] chunks)))"

definition parse_tool_call :: "json_codec \<Rightarrow> json \<Rightarrow> tool_call option" where
  "parse_tool_call jc item =
     (if str_field ''type'' item \<notin> {Some ''function_call'', Some ''tool_call''} then None
      else
        (let name = unwrap_or [] (Option.bind
               (or_else (json_get ''name'' item) (Option.bind (json_get ''function'' item) (json_get ''name''))) as_str)
         in if name = [] then None
            else
              (let i = Option.bind (or_else (json_get ''call_id'' item) (json_get ''id'' item)) as_str;
                   args_value = or_else (json_get ''arguments'' item)
                     (or_else (Option.bind (json_get ''function'' item) (json_get ''arguments'')) (json_get ''args'' item));
                   args_json = (case args_value of
                       Some (JStr raw) \<Rightarrow> normalize_tool_arguments jc raw
                     | Some (JObj members) \<Rightarrow> jc_text jc (JObj members)
                     | _ \<Rightarrow> ''{}'')
               in Some \<lparr>tl_id = i, tl_name = name, tl_args_json = args_json\<rparr>)))"

lemma size_array_field: "x \<in> set (array_field key v) \<Longrightarrow> size x < size v"
proof -
  assume x: "x \<in> set (array_field key v)"
  then obtain members items where v: "v = JObj members" "map_of members key = Some (JArr items)" "x \<in> set items"
    by (cases v; cases "json_get key v"; cases "the (json_get key v)") (auto simp: array_field_def)
  from map_of_SomeD[OF v(2)] v(3) show "size x < size v" using size_nested_array[of key items members x] v(1) by simp
qed

function collect_tool_calls :: "json_codec \<Rightarrow> json \<Rightarrow> tool_call list" where
  "collect_tool_calls jc node =
     (case parse_tool_call jc node of Some call \<Rightarrow> [call] | None \<Rightarrow> []) @
     concat (map (collect_tool_calls jc) (array_field ''output'' node)) @
     concat (map (collect_tool_calls jc) (array_field ''content'' node)) @
     concat (map (collect_tool_calls jc) (array_field ''tool_calls'' node))"
  by pat_completeness auto
termination by (relation "measure (\<lambda>(jc, node). size node)") (auto intro: size_array_field)

declare collect_tool_calls.simps [simp del]

definition codex_parse_response :: "json_codec \<Rightarrow> json \<Rightarrow> provider_response" where
  "codex_parse_response jc response =
     \<lparr>pr_output_text = parse_output_text response, pr_tool_calls = collect_tool_calls jc response\<rparr>"

definition extract_stream_error_message :: "json \<Rightarrow> rstr option" where
  "extract_stream_error_message event =
     (if str_field ''type'' event = Some ''error''
      then first_nonempty_str (or_else (str_field ''message'' event) (or_else (str_field ''code'' event)
             (Option.bind (json_get ''error'' event) (str_field ''message''))))
      else if str_field ''type'' event = Some ''response.failed''
      then first_nonempty_str (Option.bind (json_get ''response'' event) (\<lambda>response.
             Option.bind (json_get ''error'' response) (str_field ''message'')))
      else None)"

section \<open>The stream\<close>

record codex_acc = sse_acc +
  ca_saw_text_delta :: bool
  ca_emitted_fallback_text :: bool

definition new_codex_acc :: codex_acc where
  "new_codex_acc = \<lparr>sa_line_buffer = [], sa_event_data_lines = [], sa_indices = [], sa_tool_calls = [],
     ca_saw_text_delta = False, ca_emitted_fallback_text = False\<rparr>"

text \<open>A text that stands in for the deltas, once and only without any.\<close>

definition fallback_text :: "rstr option \<Rightarrow> codex_acc \<Rightarrow> codex_acc \<times> stream_event list" where
  "fallback_text found self =
     (if \<not> ca_saw_text_delta self \<and> \<not> ca_emitted_fallback_text self
      then (case found of Some t \<Rightarrow> (self\<lparr>ca_emitted_fallback_text := True\<rparr>, [TextDelta t]) | None \<Rightarrow> (self, []))
      else (self, []))"

definition event_delta :: "json \<Rightarrow> codex_acc \<Rightarrow> codex_acc \<times> stream_event list" where
  "event_delta event self =
     (case str_field ''delta'' event of
        Some delta \<Rightarrow>
          if str_field ''type'' event = Some ''response.output_text.delta'' \<and> delta \<noteq> []
          then (self\<lparr>ca_saw_text_delta := True\<rparr>, [TextDelta delta]) else (self, [])
      | None \<Rightarrow> (self, []))"

definition event_text :: "json \<Rightarrow> codex_acc \<Rightarrow> codex_acc \<times> stream_event list" where
  "event_text event self =
     (if str_field ''type'' event = Some ''response.output_text.done''
      then fallback_text (first_nonempty_str (str_field ''text'' event)) self else (self, []))"

definition event_item :: "json_codec \<Rightarrow> json \<Rightarrow> codex_acc \<Rightarrow> codex_acc" where
  "event_item jc event self =
     (if str_field ''type'' event \<in> {Some ''response.output_item.done'', Some ''response.output_item.added''}
      then (case Option.bind (json_get ''item'' event) (parse_tool_call jc) of
              Some tool_call \<Rightarrow> record_tool_call tool_call self | None \<Rightarrow> self)
      else self)"

definition event_response :: "json_codec \<Rightarrow> json \<Rightarrow> codex_acc \<Rightarrow> codex_acc \<times> stream_event list" where
  "event_response jc event self =
     (if str_field ''type'' event \<in> {Some ''response.completed'', Some ''response.done''}
      then (case json_get ''response'' event of
              Some response_payload \<Rightarrow>
                (let parsed = codex_parse_response jc response_payload;
                     (self, pushed) = fallback_text (pr_output_text parsed) self
                 in (fold record_tool_call (pr_tool_calls parsed) self, pushed))
            | None \<Rightarrow> (self, []))
      else (self, []))"

definition codex_process_event :: "json_codec \<Rightarrow> json \<Rightarrow> codex_acc step" where
  "codex_process_event jc event self =
     (case extract_stream_error_message event of
        Some message \<Rightarrow> Inl (ProviderError (''openai_codex stream error: '' @ message))
      | None \<Rightarrow>
          (let (self, deltas) = event_delta event self;
               (self, complete) = event_text event self;
               self = event_item jc event self;
               (self, final) = event_response jc event self
           in Inr (self, deltas @ complete @ final)))"

fun codex_process_events :: "json_codec \<Rightarrow> json list \<Rightarrow> codex_acc step" where
  "codex_process_events jc [] self = Inr (self, [])"
| "codex_process_events jc (event # events) self =
     rbind (codex_process_event jc event self) (\<lambda>(self, pushed).
     rbind (codex_process_events jc events self) (\<lambda>(self, more_pushed). Inr (self, pushed @ more_pushed)))"

definition payload_events :: "json_codec \<Rightarrow> rstr \<Rightarrow> json list" where
  "payload_events jc payload =
     (case jc_parse jc (trim payload) of
        Inr v \<Rightarrow> [v]
      | Inl _ \<Rightarrow> List.map_filter (\<lambda>line. if trim line = [] \<or> trim line = ''[DONE]'' then None else parse_opt jc (trim line))
                   (str_lines payload))"

definition codex_flush_event :: "json_codec \<Rightarrow> codex_acc step" where
  "codex_flush_event jc self =
     (if sa_event_data_lines self = [] then Inr (self, [])
      else
        (let payload = join [NL] (sa_event_data_lines self);
             self = self\<lparr>sa_event_data_lines := []\<rparr>
         in if trim payload = [] \<or> trim payload = ''[DONE]'' then Inr (self, [])
            else codex_process_events jc (payload_events jc payload) self))"

definition codex_push_bytes :: "json_codec \<Rightarrow> rstr \<Rightarrow> codex_acc step" where
  "codex_push_bytes jc = sse_push_bytes ''codex'' (codex_flush_event jc)"

definition codex_finish :: "json_codec \<Rightarrow> codex_acc \<Rightarrow> stream_event list res" where
  "codex_finish jc = sse_finish (codex_flush_event jc)"

text \<open>The events collected into an answer.\<close>

fun collect_events :: "stream_event list \<Rightarrow> rstr \<Rightarrow> tool_call list \<Rightarrow> provider_response res" where
  "collect_events [] output_text tool_calls =
     Inr \<lparr>pr_output_text = (if output_text \<noteq> [] then Some output_text else None), pr_tool_calls = tool_calls\<rparr>"
| "collect_events (TextDelta delta # events) output_text tool_calls = collect_events events (output_text @ delta) tool_calls"
| "collect_events (ToolCallComplete tool_call # events) output_text tool_calls =
     collect_events events output_text (tool_calls @ [tool_call])"
| "collect_events (StreamDone # events) output_text tool_calls = collect_events events output_text tool_calls"
| "collect_events (StreamError message # events) output_text tool_calls = Inl (ProviderError message)"

definition parse_sse_provider_response :: "json_codec \<Rightarrow> rstr \<Rightarrow> provider_response res" where
  "parse_sse_provider_response jc body =
     rbind (codex_push_bytes jc body new_codex_acc) (\<lambda>(accumulator, pushed).
     rbind (codex_finish jc accumulator) (\<lambda>ending. collect_events (pushed @ ending) [] []))"

section \<open>The provider\<close>

definition sanitize_body_for_error :: "rstr \<Rightarrow> rstr" where
  "sanitize_body_for_error body = take_chars error_body_preview_chars (join '' '' (split_whitespace body))"

definition decode_responses_body :: "json_codec \<Rightarrow> http_response \<Rightarrow> provider_response res" where
  "decode_responses_body jc response =
     (case hp_body response of
        Inl err \<Rightarrow> Inl (ProviderError (''failed to read openai_codex response body: '' @ err))
      | Inr body \<Rightarrow>
          if prefix ''data:'' (trim_start body) \<or> prefix ''event:'' (trim_start body)
          then parse_sse_provider_response jc body
          else (case jc_parse jc body of
                  Inl err \<Rightarrow> Inl (ProviderError (''invalid openai_codex JSON response: '' @ err @ ''. Payload: '' @
                                  sanitize_body_for_error body))
                | Inr v \<Rightarrow> Inr (codex_parse_response jc v)))"

definition summarize_openai_codex_error :: "json_codec \<Rightarrow> rstr \<Rightarrow> rstr" where
  "summarize_openai_codex_error jc body =
     (case Option.bind (parse_opt jc body) (\<lambda>v. Option.bind (json_get ''error'' v) (\<lambda>e.
             if is_object e then str_field ''message'' e else None)) of
        Some message \<Rightarrow> if trim message \<noteq> [] then trim message else sanitize_body_for_error body
      | None \<Rightarrow> sanitize_body_for_error body)"

record request_context =
  rx_access_token :: rstr
  rx_account_id :: "rstr option"
  rx_input :: "json list"
  rx_tools :: "json list"
  rx_instructions :: rstr

text \<open>The two answers of the login store and the HTTP library.\<close>

record codex_env =
  ce_oauth :: oauth_library
  ce_token :: "rstr option res"
  ce_profile :: "auth_profile option res"
  ce_send :: "http_request \<Rightarrow> rstr + stream_response"

definition build_request_context ::
  "json_codec \<Rightarrow> codex_env \<Rightarrow> rstr \<Rightarrow> message list \<Rightarrow> tool_definition list \<Rightarrow> request_context res" where
  "build_request_context jc env system_prompt history tools =
     (case ce_token env of
        Inl err \<Rightarrow> Inl (ProviderError (''openai_codex auth token lookup failed: '' @ error_to_string err))
      | Inr None \<Rightarrow>
          Inl (ProviderError (''OpenAI Codex auth profile not found. Run `simpleclaw auth login --provider openai_codex`.''))
      | Inr (Some access_token) \<Rightarrow>
     (case ce_profile env of
        Inl err \<Rightarrow> Inl (ProviderError (''openai_codex auth profile lookup failed: '' @ error_to_string err))
      | Inr profile \<Rightarrow>
          Inr \<lparr>rx_access_token = access_token,
               rx_account_id = or_else (Option.bind profile ap_account_id)
                                       (extract_account_id_from_jwt (ce_oauth env) access_token),
               rx_input = codex_build_input jc history, rx_tools = codex_build_tools jc tools,
               rx_instructions = resolve_instructions system_prompt\<rparr>))"

definition send_request_attempt ::
  "codex_env \<Rightarrow> rstr \<Rightarrow> rstr option \<Rightarrow> json \<Rightarrow> bool \<Rightarrow> stream_response res" where
  "send_request_attempt env access_token account_id body stream =
     (case ce_send env \<lparr>hq_url = ''https://chatgpt.com/backend-api/codex/responses'', hq_query = [],
             hq_headers = [(''authorization'', ''Bearer '' @ access_token), (''OpenAI-Beta'', ''responses=experimental''),
               (''originator'', ''pi''), (''accept'', if stream then ''text/event-stream'' else ''application/json''),
               (''Content-Type'', ''application/json'')] @
               (case account_id of Some a \<Rightarrow> [(''chatgpt-account-id'', a)] | None \<Rightarrow> []),
             hq_body = body\<rparr> of
        Inl err \<Rightarrow> Inl (ProviderError (''openai_codex request failed: '' @ err))
      | Inr response \<Rightarrow> Inr response)"

definition codex_send :: "json_codec \<Rightarrow> codex_env \<Rightarrow> rstr \<Rightarrow> provider_query \<Rightarrow> bool \<Rightarrow> stream_response res" where
  "codex_send jc env model query stream =
     (case query of (system_prompt, history, tools) \<Rightarrow>
        rbind (build_request_context jc env system_prompt history tools) (\<lambda>context.
        rbind (send_request_attempt env (rx_access_token context) (rx_account_id context)
                 (codex_request_body model (rx_instructions context) (rx_input context) (rx_tools context) stream) stream)
          (\<lambda>response.
             let head = sp_head response
             in if \<not> is_http_success head
                then Inl (ProviderError (''openai_codex returned '' @ hp_status_text head @ '': '' @
                       summarize_openai_codex_error jc (case hp_body head of Inr body \<Rightarrow> body | Inl _ \<Rightarrow> [])))
                else Inr response)))"

definition codex_generate :: "json_codec \<Rightarrow> codex_env \<Rightarrow> rstr \<Rightarrow> provider_query \<Rightarrow> provider_response res" where
  "codex_generate jc env model query =
     rbind (codex_send jc env model query False) (\<lambda>response. decode_responses_body jc (sp_head response))"

definition codex_stream :: "json_codec \<Rightarrow> (rstr + rstr) list \<Rightarrow> stream_event list" where
  "codex_stream jc chunks = sse_feed ''codex'' ''openai_codex'' (codex_flush_event jc) chunks new_codex_acc"

definition codex_generate_stream :: "json_codec \<Rightarrow> codex_env \<Rightarrow> rstr \<Rightarrow> provider_query \<Rightarrow> stream_event list res" where
  "codex_generate_stream jc env model query =
     rbind (codex_send jc env model query True) (\<lambda>response. Inr (codex_stream jc (sp_chunks response)))"

definition codex_provider :: "json_codec \<Rightarrow> codex_env \<Rightarrow> codex_config \<Rightarrow> provider" where
  "codex_provider jc env config =
     \<lparr>pv_generate = codex_generate jc env (codex_model config),
      pv_generate_stream = codex_generate_stream jc env (codex_model config)\<rparr>"

section \<open>The stream and the whole body\<close>

lemma fallback_buffer:
  "fallback_text t (self\<lparr>sa_line_buffer := b\<rparr>) = apfst (sa_line_buffer_update (\<lambda>_. b)) (fallback_text t self)"
  by (simp add: fallback_text_def split: option.split)

lemma fallback_texts: "texts_only (snd (fallback_text t self))"
  by (simp add: fallback_text_def split: option.split)

lemma record_buffer:
  "record_tool_call c (self\<lparr>sa_line_buffer := b\<rparr>) = (record_tool_call c self)\<lparr>sa_line_buffer := b\<rparr>"
  by (simp add: record_tool_call_def split: option.split)

lemma record_all_buffer:
  "fold record_tool_call cs (self\<lparr>sa_line_buffer := b\<rparr>) = (fold record_tool_call cs self)\<lparr>sa_line_buffer := b\<rparr>"
  by (induction cs arbitrary: self) (simp_all add: record_buffer)

lemma parts_buffer:
  "event_delta e (self\<lparr>sa_line_buffer := b\<rparr>) = apfst (sa_line_buffer_update (\<lambda>_. b)) (event_delta e self)"
  "event_text e (self\<lparr>sa_line_buffer := b\<rparr>) = apfst (sa_line_buffer_update (\<lambda>_. b)) (event_text e self)"
  "event_item jc e (self\<lparr>sa_line_buffer := b\<rparr>) = (event_item jc e self)\<lparr>sa_line_buffer := b\<rparr>"
  "event_response jc e (self\<lparr>sa_line_buffer := b\<rparr>) = apfst (sa_line_buffer_update (\<lambda>_. b)) (event_response jc e self)"
     apply (simp add: event_delta_def split: option.split)
    apply (simp add: event_text_def fallback_buffer)
   apply (simp add: event_item_def record_buffer split: option.split)
  apply (simp add: event_response_def fallback_buffer record_all_buffer case_prod_beta Let_def split: option.split)
  done

lemma parts_texts:
  "texts_only (snd (event_delta e self))" "texts_only (snd (event_text e self))" "texts_only (snd (event_response jc e self))"
    apply (simp add: event_delta_def split: option.split)
   apply (simp add: event_text_def fallback_texts)
  apply (simp add: event_response_def fallback_texts case_prod_beta Let_def split: option.split)
  done

lemma process_event_buffer:
  "codex_process_event jc e (self\<lparr>sa_line_buffer := b\<rparr>) = with_buffer b (codex_process_event jc e self)"
  by (simp add: codex_process_event_def Let_def parts_buffer case_prod_beta split: option.split)

lemma process_event_texts: "codex_process_event jc e self = Inr (self', pushed) \<Longrightarrow> texts_only pushed"
  by (auto simp: codex_process_event_def Let_def case_prod_beta parts_texts split: option.splits)

lemma process_events_buffer:
  "codex_process_events jc es (self\<lparr>sa_line_buffer := b\<rparr>) = with_buffer b (codex_process_events jc es self)"
proof (induction es arbitrary: self)
  case (Cons e es)
  show ?case
  proof (cases "codex_process_event jc e self")
    case (Inr r)
    obtain s ev where r: "codex_process_event jc e self = Inr (s, ev)" using Inr by (cases r) auto
    show ?thesis using Cons.IH[of s]
      by (cases "codex_process_events jc es s") (auto simp: process_event_buffer r)
  qed (simp add: process_event_buffer)
qed simp

lemma process_events_texts: "codex_process_events jc es self = Inr (self', pushed) \<Longrightarrow> texts_only pushed"
proof (induction es arbitrary: self self' pushed)
  case (Cons e es)
  then show ?case by (auto simp: rbind_eq_Inr dest: process_event_texts)
qed simp

interpretation codex: event_source "codex_flush_event jc" for jc
proof
  show "codex_flush_event jc (self\<lparr>sa_line_buffer := b\<rparr>) = with_buffer b (codex_flush_event jc self)" for self b
    unfolding codex_flush_event_def Let_def
    by (simp add: process_events_buffer [symmetric] line_fields_commute)
  show "codex_flush_event jc self = Inr (self', pushed) \<Longrightarrow> texts_only pushed" for self self' pushed
    by (auto simp: codex_flush_event_def Let_def dest: process_events_texts split: if_splits)
qed

lemma collect_whole:
  assumes "texts_only ev"
  shows "collect_events (ev @ map ToolCallComplete calls @ [StreamDone]) so_far seen =
    Inr \<lparr>pr_output_text = (if so_far @ texts_of ev \<noteq> [] then Some (so_far @ texts_of ev) else None), pr_tool_calls = seen @ calls\<rparr>"
  using assms
proof (induction ev arbitrary: so_far)
  case Nil
  show ?case by (induction calls arbitrary: seen) auto
qed (auto simp: texts_only_def)

lemma read_whole:
  assumes "texts_only ev"
  shows "snd (read_stream (ev @ map ToolCallComplete calls @ [StreamDone]) so_far seen) =
    Inr \<lparr>pr_output_text = (if so_far @ texts_of ev \<noteq> [] then Some (so_far @ texts_of ev) else None), pr_tool_calls = seen @ calls\<rparr>"
  unfolding read_texts[OF assms] by (induction calls arbitrary: seen) auto

lemma parse_sse_whole:
  "parse_sse_provider_response jc body =
     rbind (sse_whole ''codex'' (codex_flush_event jc) body new_codex_acc) (\<lambda>events. collect_events events [] [])"
  by (simp add: parse_sse_provider_response_def sse_whole_def codex_push_bytes_def codex_finish_def rbind_def
      split: sum.split prod.split)

lemma codex_stream_valid:
  assumes "\<forall>c\<in>set chunks. valid_utf8 c"
  shows "snd (read_stream (codex_stream jc (map Inr chunks)) [] []) =
    (case parse_sse_provider_response jc (concat chunks) of
       Inr r \<Rightarrow> Inr r
     | Inl e \<Rightarrow> Inl (ProviderError (error_to_string e)))"
proof -
  let ?w = "sse_whole ''codex'' (codex_flush_event jc) (concat chunks) new_codex_acc"
  have f: "snd (read_stream (codex_stream jc (map Inr chunks)) [] []) =
      (case ?w of Inr events \<Rightarrow> snd (read_stream events [] []) | Inl e \<Rightarrow> Inl (ProviderError (error_to_string e)))"
    unfolding codex_stream_def by (rule codex.feed_valid[OF assms]) (simp add: new_codex_acc_def)
  show ?thesis
  proof (cases ?w)
    case (Inr events)
    then obtain ev calls where e: "events = ev @ map ToolCallComplete calls @ [StreamDone]" "texts_only ev"
      using codex.whole_events by blast
    show ?thesis unfolding f parse_sse_whole Inr using e by (simp add: collect_whole read_whole)
  qed (simp add: f parse_sse_whole)
qed

section \<open>Ids and names\<close>

lemma codex_ids_match:
  "tl_id c = tm_call_id r \<Longrightarrow> tl_name c = tm_name r \<Longrightarrow>
   str_field ''call_id'' (function_call_item jc c) = str_field ''call_id'' (function_output_item jc r)"
  by (simp add: function_call_item_def function_output_item_def Let_def json_simps)

lemma identifier_not_cont: "is_identifier_char c \<Longrightarrow> \<not> is_cont c"
  by (auto simp: is_identifier_char_def is_ascii_alnum_def is_ascii_alpha_def is_ascii_digit_def is_cont_def)

lemma chars_ascii: "\<forall>c\<in>set t. \<not> is_cont c \<Longrightarrow> chars t = map (\<lambda>c. [c]) t"
proof (induction t)
  case (Cons c t)
  then have "takeWhile is_cont t = []" "dropWhile is_cont t = t" by (cases t; auto)+
  then show ?case using Cons by simp
qed simp

lemma concat_singletons: "concat (map (\<lambda>c. [c]) t) = t"
  by (induction t) auto

lemma take_chars_ascii: "\<forall>c\<in>set t. \<not> is_cont c \<Longrightarrow> take_chars n t = take n t"
  by (simp add: take_chars_def chars_ascii take_map concat_singletons)

definition ident_ok :: "nat \<Rightarrow> rstr \<Rightarrow> bool" where
  "ident_ok n s \<longleftrightarrow> s \<noteq> [] \<and> length s \<le> n \<and> list_all is_identifier_char s"

lemma sanitized_identifier:
  "sanitize_identifier raw fallback = fallback \<or> ident_ok 64 (sanitize_identifier raw fallback)"
proof -
  let ?s = "map (\<lambda>ch. if length ch = 1 \<and> is_identifier_char (hd ch) then hd ch else CHR ''_'') (chars (trim raw))"
  let ?t = "trim_matches (CHR ''_'') ?s"
  have s: "x \<in> set ?s \<Longrightarrow> is_identifier_char x" for x by (auto simp: is_identifier_char_def)
  have t: "x \<in> set ?t \<Longrightarrow> is_identifier_char x" for x
    using s[of x] by (auto simp: trim_matches_def dest!: set_dropWhileD simp del: set_map)
  then have "take_chars 64 ?t = take 64 ?t" by (intro take_chars_ascii) (use identifier_not_cont in blast)
  moreover have "list_all is_identifier_char (take 64 ?t)" unfolding list_all_iff using t in_set_takeD by fast
  ultimately show ?thesis
    by (auto simp: sanitize_identifier_def ident_ok_def max_identifier_len_def Let_def)
qed

lemma sanitized_name: "ident_ok 64 (sanitize_identifier raw ''tool'')"
proof -
  have "ident_ok 64 ''tool''" by code_simp
  then show ?thesis using sanitized_identifier[of raw "''tool''"] by auto
qed

lemma call_id_identifier:
  assumes "ident_ok 64 name"
  shows "ident_ok 69 (codex_call_id own_id name)"
proof -
  have c: "list_all is_identifier_char ''call_''" by code_simp
  have f: "ident_ok 69 (''call_'' @ name)" using assms c unfolding ident_ok_def list_all_append by simp
  have short: "ident_ok 69 s" if "ident_ok 64 s" for s using that by (simp add: ident_ok_def)
  have "ident_ok 69 (sanitize_identifier raw (''call_'' @ name))" for raw
    using sanitized_identifier[of raw "''call_'' @ name"]
  proof
    assume "sanitize_identifier raw (''call_'' @ name) = ''call_'' @ name"
    then show ?thesis using f by (simp only:)
  qed (rule short)
  then show ?thesis unfolding codex_call_id_def Let_def by blast
qed

text \<open>The limit of 64 is passed when an id has no usable character.\<close>

lemma long_call_id: "length (codex_call_id (Some ''!'') (replicate 64 CHR ''a'')) = 69"
  by code_simp

lemma item_call_ids:
  "\<exists>s. str_field ''call_id'' (function_call_item jc c) = Some s \<and> ident_ok 69 s"
  "\<exists>s. str_field ''call_id'' (function_output_item jc r) = Some s \<and> ident_ok 69 s"
  by (simp_all add: function_call_item_def function_output_item_def Let_def str_field_def call_id_identifier sanitized_name)

lemma history_input:
  assumes "calls \<noteq> []" "length results = length calls"
  shows "codex_build_input jc (native_format_for_history js calls results) =
    map (function_call_item jc) (map (\<lambda>c. \<lparr>tl_id = pl_tool_call_id c, tl_name = pl_name c,
                                       tl_args_json = js_text js (pl_arguments c)\<rparr>) calls) @
    map (function_output_item jc) (map (\<lambda>r. \<lparr>tm_call_id = er_tool_call_id r, tm_name = er_name r,
                                      tm_status = status_as_str (er_status r), tm_content = er_output r\<rparr>) results)"
proof -
  have "results \<noteq> []" using assms by auto
  moreover have "trim [] = []" by (simp add: trim_def)
  ultimately show ?thesis using assms
    by (simp add: codex_build_input_def native_format_for_history_def message_input_def assistant_tool_calls_def
        tool_results_message_def Let_def)
qed

section \<open>Schemas\<close>

definition normal_member :: "rstr \<Rightarrow> json \<Rightarrow> json" where
  "normal_member key v =
     (if key = ''properties''
      then (case v of JObj ps \<Rightarrow> JObj (map (\<lambda>(k, e). (k, normalize_schema_node e)) ps) | _ \<Rightarrow> JObj [])
      else if key = ''required''
      then (case v of JArr items \<Rightarrow> JArr (filter (\<lambda>i. as_str i \<noteq> None) items) | _ \<Rightarrow> JArr [])
      else if key = ''items'' then normalize_schema_node v
      else if key = ''additionalProperties'' then (if is_object v then normalize_schema_node v else v)
      else if key = ''anyOf'' \<or> key = ''oneOf'' \<or> key = ''allOf''
      then (case v of JArr entries \<Rightarrow> JArr (map (\<lambda>e. if is_object e then normalize_schema_node e else e) entries)
                    | _ \<Rightarrow> JArr [])
      else v)"

lemma normalize_object:
  "normalize_schema_node (JObj members) = JObj (map (\<lambda>(key, v). (key, normal_member key v)) members)"
  by (simp only: normalize_schema_node.simps normal_member_def)

lemma normalize_is_object [simp]: "is_object (normalize_schema_node s)"
  by (cases s) (simp_all add: normalize_object default_tool_schema_def del: normalize_schema_node.simps(1))

lemma normal_member_idem:
  assumes "\<And>x. size x \<le> size v \<Longrightarrow> normalize_schema_node (normalize_schema_node x) = normalize_schema_node x"
  shows "normal_member key (normal_member key v) = normal_member key v"
proof -
  have o: "size e \<le> size (JObj ps)" if "(k, e) \<in> set ps" for k e ps using size_snd_member[OF that] by simp
  have a: "size e \<le> size (JArr es)" if "e \<in> set es" for e es
    using size_list_estimation'[OF that order_refl, of size] by simp
  consider "key = ''properties''" | "key = ''anyOf'' \<or> key = ''oneOf'' \<or> key = ''allOf''"
    | "key \<noteq> ''properties''" "\<not> (key = ''anyOf'' \<or> key = ''oneOf'' \<or> key = ''allOf'')" by blast
  then show ?thesis
  proof cases
    case 1
    show ?thesis
    proof (cases v)
      case (JObj ps)
      have "map ((\<lambda>(k, e). (k, normalize_schema_node e)) \<circ> (\<lambda>(k, e). (k, normalize_schema_node e))) ps =
          map (\<lambda>(k, e). (k, normalize_schema_node e)) ps"
        using assms o by (intro map_cong) (auto simp: JObj)
      then show ?thesis by (simp add: normal_member_def 1 JObj del: normalize_schema_node.simps)
    qed (simp_all add: normal_member_def 1)
  next
    case 2
    show ?thesis
    proof (cases v)
      case (JArr es)
      have "map ((\<lambda>e. if is_object e then normalize_schema_node e else e) \<circ> (\<lambda>e. if is_object e then normalize_schema_node e else e)) es =
          map (\<lambda>e. if is_object e then normalize_schema_node e else e) es"
        using assms a by (intro map_cong) (auto simp: JArr)
      then show ?thesis using 2 by (auto simp: normal_member_def JArr simp del: normalize_schema_node.simps)
    qed (use 2 in \<open>auto simp: normal_member_def\<close>)
  next
    case 3
    then show ?thesis using assms[of v]
      by (auto simp: normal_member_def simp del: normalize_schema_node.simps split: json.split)
  qed
qed

lemma normalize_idem: "normalize_schema_node (normalize_schema_node s) = normalize_schema_node s"
proof (induction "size s" arbitrary: s rule: less_induct)
  case less
  show ?case
  proof (cases s)
    case (JObj members)
    have "normal_member k (normal_member k v) = normal_member k v" if "(k, v) \<in> set members" for k v
    proof (rule normal_member_idem)
      fix x :: json
      assume "size x \<le> size v"
      then have "size x < size s" using size_snd_member[OF that] JObj by simp
      then show "normalize_schema_node (normalize_schema_node x) = normalize_schema_node x" by (rule less)
    qed
    then have "map ((\<lambda>(key, v). (key, normal_member key v)) \<circ> (\<lambda>(key, v). (key, normal_member key v))) members =
        map (\<lambda>(key, v). (key, normal_member key v)) members" by (intro map_cong) auto
    then show ?thesis unfolding JObj normalize_object by simp
  qed (simp_all add: default_tool_schema_def)
qed

lemma map_of_json_set [simp]: "map_of (json_set key v members) = (map_of members)(key \<mapsto> v)"
  by (induction key v members rule: json_set.induct) auto

lemma map_of_normal: "map_of (map (\<lambda>(key, v). (key, normal_member key v)) members) k = map_option (normal_member k) (map_of members k)"
  by (induction members) auto

text \<open>What the service requires of a tool's parameters holds of every schema sent.\<close>

definition service_schema :: "json \<Rightarrow> bool" where
  "service_schema s \<longleftrightarrow> str_field ''type'' s = Some ''object'' \<and>
     (case json_get ''properties'' s of Some (JObj ps) \<Rightarrow> list_all (\<lambda>e. is_object (snd e)) ps | _ \<Rightarrow> False)"

lemma tool_schema_object:
  obtains members where "normalize_tool_schema s = normalize_schema_node (JObj members)"
    "map_of members ''type'' = Some (JStr ''object'')" "\<exists>ps. map_of members ''properties'' = Some (JObj ps)"
proof (cases s)
  case (JObj ms)
  define m1 where "m1 = (if str_field ''type'' (JObj ms) \<noteq> Some ''object'' then json_set ''type'' (JStr ''object'') ms else ms)"
  define m2 where "m2 = (case map_of m1 ''properties'' of Some (JObj _) \<Rightarrow> m1 | _ \<Rightarrow> json_set ''properties'' (JObj []) m1)"
  have n: "normalize_tool_schema s = normalize_schema_node (JObj m2)"
    by (simp only: normalize_tool_schema_def JObj json.case Let_def m1_def m2_def)
  have t1: "map_of m1 ''type'' = Some (JStr ''object'')"
  proof (cases "str_field ''type'' (JObj ms) = Some ''object''")
    case True
    then obtain w where "map_of ms ''type'' = Some w" "as_str w = Some ''object''"
      by (auto simp: str_field_def bind_eq_Some_conv)
    then show ?thesis using True by (cases w) (simp_all add: m1_def)
  qed (simp add: m1_def)
  have "map_of m2 ''type'' = Some (JStr ''object'')" using t1 by (auto simp: m2_def split: option.split json.split)
  moreover have "\<exists>ps. map_of m2 ''properties'' = Some (JObj ps)" by (auto simp: m2_def split: option.split json.split)
  ultimately show thesis using that n by blast
next
  have d: "default_tool_schema = normalize_schema_node default_tool_schema"
    by (simp add: default_tool_schema_def)
  case JNull
  then show thesis using that[of "[(''type'', JStr ''object''), (''properties'', JObj [])]"] d
    by (simp add: normalize_tool_schema_def default_tool_schema_def)
next
  case (JBool b)
  then show thesis using that[of "[(''type'', JStr ''object''), (''properties'', JObj [])]"]
    by (simp add: normalize_tool_schema_def default_tool_schema_def)
next
  case (JInt b)
  then show thesis using that[of "[(''type'', JStr ''object''), (''properties'', JObj [])]"]
    by (simp add: normalize_tool_schema_def default_tool_schema_def)
next
  case (JFloat b)
  then show thesis using that[of "[(''type'', JStr ''object''), (''properties'', JObj [])]"]
    by (simp add: normalize_tool_schema_def default_tool_schema_def)
next
  case (JStr b)
  then show thesis using that[of "[(''type'', JStr ''object''), (''properties'', JObj [])]"]
    by (simp add: normalize_tool_schema_def default_tool_schema_def)
next
  case (JArr b)
  then show thesis using that[of "[(''type'', JStr ''object''), (''properties'', JObj [])]"]
    by (simp add: normalize_tool_schema_def default_tool_schema_def)
qed

theorem tool_schema_normal:
  "service_schema (normalize_tool_schema s) \<and> normalize_tool_schema (normalize_tool_schema s) = normalize_tool_schema s"
proof -
  obtain ms ps where n: "normalize_tool_schema s = normalize_schema_node (JObj ms)"
    "map_of ms ''type'' = Some (JStr ''object'')" "map_of ms ''properties'' = Some (JObj ps)"
    using tool_schema_object[of s] by blast
  let ?ms = "map (\<lambda>(key, v). (key, normal_member key v)) ms"
  have o: "normalize_tool_schema s = JObj ?ms" using n(1) by (simp only: normalize_object)
  have t: "map_of ?ms ''type'' = Some (JStr ''object'')" unfolding map_of_normal n(2) by (simp add: normal_member_def)
  have p: "map_of ?ms ''properties'' = Some (JObj (map (\<lambda>(k, e). (k, normalize_schema_node e)) ps))"
    unfolding map_of_normal n(3) by (simp add: normal_member_def)
  have a: "service_schema (JObj ?ms)"
    using t p by (auto simp: service_schema_def str_field_def list_all_iff)
  have "normalize_tool_schema (JObj ?ms) = normalize_schema_node (JObj ?ms)"
    using t p by (simp only: normalize_tool_schema_def json.case str_field_def json_get.simps Let_def Option.bind.bind_lunit
        as_str.simps option.case simp_thms if_False)
  also have "... = JObj ?ms" using normalize_idem[of "JObj ms"] by (simp only: normalize_object[of ms])
  finally show ?thesis using o a by simp
qed

section \<open>Properties\<close>

text \<open>
  C32. A streamed answer is the answer of the whole body: however the body is cut into chunks, as
  long as no chunk ends inside a character, the consumer of the stream ends with exactly the text
  and the calls that the non-streaming path reads from the whole body, and fails exactly when that
  path fails. A chunk that does end inside a character makes the answer an error, whatever the
  body.
\<close>

theorem codex_stream_equals_body:
  "((\<forall>c\<in>set chunks. valid_utf8 c) \<longrightarrow>
      snd (read_stream (codex_stream jc (map Inr chunks)) [] []) =
        (case parse_sse_provider_response jc (concat chunks) of
           Inr r \<Rightarrow> Inr r
         | Inl e \<Rightarrow> Inl (ProviderError (error_to_string e)))) \<and>
   (\<not> (\<forall>c\<in>set chunks. valid_utf8 c) \<longrightarrow>
      (\<exists>e. snd (read_stream (codex_stream jc (map Inr chunks)) [] []) = Inl (ProviderError e)))"
  using codex_stream_valid[of chunks jc] codex.feed_invalid[of chunks "''codex''" "''openai_codex''" jc new_codex_acc "[]" "[]"]
  unfolding codex_stream_def by blast


definition sample_delta_codec :: json_codec where
  "sample_delta_codec = \<lparr>jc_parse = (\<lambda>s. Inr (JObj [(''type'', JStr ''response.output_text.delta''), (''delta'', JStr s)])),
     jc_text = (\<lambda>_. ''{}'')\<rparr>"

abbreviation e_acute :: rstr where
  "e_acute \<equiv> [CHR 0xC3, CHR 0xA9]"

lemma sample_whole_body:
  "parse_sse_provider_response sample_delta_codec (''data: '' @ e_acute @ [NL, NL]) =
     Inr \<lparr>pr_output_text = Some e_acute, pr_tool_calls = []\<rparr>"
  by code_simp

theorem codex_stream_equals_body_witness:
  "snd (read_stream (codex_stream sample_delta_codec (map Inr [''data: '', e_acute, [NL, NL]])) [] []) =
     Inr \<lparr>pr_output_text = Some e_acute, pr_tool_calls = []\<rparr> \<and>
   (\<exists>e. snd (read_stream (codex_stream sample_delta_codec (map Inr [''data: '' @ [CHR 0xC3], [CHR 0xA9, NL, NL]])) [] []) =
     Inl (ProviderError e))"
proof -
  have v: "\<forall>c\<in>set [''data: '', e_acute, [NL, NL]]. valid_utf8 c" by code_simp
  have i: "\<not> (\<forall>c\<in>set [''data: '' @ [CHR 0xC3], [CHR 0xA9, NL, NL]]. valid_utf8 c)" by code_simp
  have c: "concat [''data: '', e_acute, [NL, NL]] = ''data: '' @ e_acute @ [NL, NL]" by simp
  from codex_stream_equals_body[of "[''data: '', e_acute, [NL, NL]]" sample_delta_codec] v
  have a: "snd (read_stream (codex_stream sample_delta_codec (map Inr [''data: '', e_acute, [NL, NL]])) [] []) =
     Inr \<lparr>pr_output_text = Some e_acute, pr_tool_calls = []\<rparr>"
    unfolding c sample_whole_body by (simp only: simp_thms sum.case)
  from codex_stream_equals_body[of "[''data: '' @ [CHR 0xC3], [CHR 0xA9, NL, NL]]" sample_delta_codec] i
  have "\<exists>e. snd (read_stream (codex_stream sample_delta_codec (map Inr [''data: '' @ [CHR 0xC3], [CHR 0xA9, NL, NL]])) [] []) =
     Inl (ProviderError e)" by blast
  with a show ?thesis by (rule conjI)
qed

definition sample_parsed_call :: "rstr parsed_call" where
  "sample_parsed_call = \<lparr>pl_name = ''clock'', pl_arguments = ''{}'', pl_tool_call_id = Some ''c 1''\<rparr>"


end
