(* ===== verification/Providers.thy ===== *)
theory Providers
  imports Codex
begin

text \<open>
  \<open>src/providers/gemini.rs\<close>, \<open>src/providers/moonshot_compatible.rs\<close> and the rest of
  \<open>src/providers/registry.rs\<close>: the requests to the services of Google and Moonshot, the reading of
  their answers, and the providers made of the configuration.
\<close>

record http_library =
  hl_send :: "http_request \<Rightarrow> rstr + stream_response"
  hl_json :: "http_response \<Rightarrow> rstr + json"
  hl_status_error :: "http_response \<Rightarrow> rstr"

definition trim_end_slashes :: "rstr \<Rightarrow> rstr" where
  "trim_end_slashes s = rev (dropWhile (\<lambda>c. c = CHR ''/'') (rev s))"

definition missing_api_key :: framework_error where
  "missing_api_key = ConfigError
     ''missing provider API key: set providers.entries.<key>.api_key to a ${secret:<name>} reference''"

section \<open>Gemini: requests\<close>

definition gemini_api_key :: "gemini_config \<Rightarrow> rstr res" where
  "gemini_api_key config =
     (case Option.bind (gem_api_key config) exposed of
        Some v \<Rightarrow> if trim v \<noteq> [] then Inr v else Inl missing_api_key
      | None \<Rightarrow> Inl missing_api_key)"

definition gemini_endpoint :: "gemini_config \<Rightarrow> rstr" where
  "gemini_endpoint config = trim_end_slashes (gem_api_base config) @ ''/models/'' @ gem_model config @ '':generateContent''"

definition gemini_stream_endpoint :: "gemini_config \<Rightarrow> rstr" where
  "gemini_stream_endpoint config = trim_end_slashes (gem_api_base config) @ ''/models/'' @ gem_model config @ '':streamGenerateContent''"

definition gemini_call_part :: "json_codec \<Rightarrow> tool_call \<Rightarrow> json" where
  "gemini_call_part jc call =
     JObj [(''functionCall'', JObj ([(''name'', JStr (tl_name call)),
        (''args'', case jc_parse jc (tl_args_json call) of Inr v \<Rightarrow> v | Inl _ \<Rightarrow> JObj [])] @
        (case tl_id call of Some i \<Rightarrow> [(''id'', JStr i)] | None \<Rightarrow> [])))]"

definition gemini_result_part :: "tool_result_message \<Rightarrow> json" where
  "gemini_result_part r =
     JObj [(''functionResponse'', JObj ([(''name'', JStr (tm_name r)), (''response'', response_json r)] @
        (case tm_call_id r of Some i \<Rightarrow> [(''id'', JStr i)] | None \<Rightarrow> [])))]"

definition gemini_content :: "json_codec \<Rightarrow> message \<Rightarrow> json option" where
  "gemini_content jc m =
     (let role = (if ms_role m = Assistant then ''model'' else ''user'');
          parts = (if ms_tool_calls m \<noteq> [] then map (gemini_call_part jc) (ms_tool_calls m)
                   else if ms_tool_results m \<noteq> [] then map gemini_result_part (ms_tool_results m)
                   else if trim (ms_content m) = [] then []
                   else [JObj [(''text'', JStr (ms_content m))]])
      in if parts = [] then None else Some (JObj [(''role'', JStr role), (''parts'', JArr parts)]))"

definition build_gemini_contents :: "json_codec \<Rightarrow> message list \<Rightarrow> json list" where
  "build_gemini_contents jc history = List.map_filter (gemini_content jc) history"

definition parsed_schema :: "json_codec \<Rightarrow> tool_definition \<Rightarrow> json" where
  "parsed_schema jc tool =
     (case jc_parse jc (td_input_schema_json tool) of Inr v \<Rightarrow> v | Inl _ \<Rightarrow> JObj [(''type'', JStr ''object'')])"

definition gemini_request_body :: "json_codec \<Rightarrow> provider_query \<Rightarrow> json" where
  "gemini_request_body jc query =
     (case query of (system_prompt, history, tools) \<Rightarrow>
        JObj [(''system_instruction'', JObj [(''parts'', JArr [JObj [(''text'', JStr system_prompt)]])]),
              (''contents'', JArr (build_gemini_contents jc history)),
              (''tools'', JArr [JObj [(''functionDeclarations'', JArr (map (\<lambda>tool.
                 JObj [(''name'', JStr (td_name tool)), (''description'', JStr (td_description tool)),
                       (''parameters'', parsed_schema jc tool)]) tools))]])])"

definition summarize_gemini_error_body :: "json_codec \<Rightarrow> rstr \<Rightarrow> rstr" where
  "summarize_gemini_error_body jc body =
     (let trimmed = trim body
      in if trimmed = [] then ''empty response body''
         else
           (let parts =
                  (case Option.bind (parse_opt jc trimmed) (json_get ''error'') of
                     Some e \<Rightarrow>
                       if is_object e
                       then filter (\<lambda>t. t \<noteq> []) [unwrap_or [] (str_field ''status'' e), unwrap_or [] (str_field ''message'' e)]
                       else []
                   | None \<Rightarrow> [])
            in if parts \<noteq> [] then join '': '' parts else take_chars error_body_preview_chars trimmed))"

section \<open>Gemini: answers\<close>

definition gemini_parts :: "json \<Rightarrow> json list" where
  "gemini_parts v =
     (case array_field ''candidates'' v of
        [] \<Rightarrow> []
      | candidate # _ \<Rightarrow>
          (case json_get ''content'' candidate of Some content \<Rightarrow> array_field ''parts'' content | None \<Rightarrow> []))"

definition parse_tool_call_part :: "json_codec \<Rightarrow> json \<Rightarrow> tool_call option" where
  "parse_tool_call_part jc part =
     Option.bind (json_get ''functionCall'' part) (\<lambda>function_call.
       (let name = unwrap_or [] (str_field ''name'' function_call)
        in if name = [] then None
           else Some \<lparr>tl_id = Option.bind (or_else (json_get ''id'' function_call) (json_get ''callId'' function_call)) as_str,
                      tl_name = name,
                      tl_args_json = jc_text jc (unwrap_or (JObj []) (json_get ''args'' function_call))\<rparr>))"

definition add_part_text :: "rstr option \<Rightarrow> json \<Rightarrow> rstr option" where
  "add_part_text output_text part =
     (case str_field ''text'' part of
        None \<Rightarrow> output_text
      | Some t \<Rightarrow>
          (case output_text of
             Some existing \<Rightarrow> if existing \<noteq> [] then Some (existing @ NL # t) else Some (existing @ t)
           | None \<Rightarrow> Some t))"

definition gemini_parse_response :: "json_codec \<Rightarrow> json \<Rightarrow> provider_response" where
  "gemini_parse_response jc response_value =
     \<lparr>pr_output_text = foldl add_part_text None (gemini_parts response_value),
      pr_tool_calls = List.map_filter (parse_tool_call_part jc) (gemini_parts response_value)\<rparr>"

definition new_gemini_acc :: sse_acc where
  "new_gemini_acc = \<lparr>sa_line_buffer = [], sa_event_data_lines = [], sa_indices = [], sa_tool_calls = []\<rparr>"

fun gemini_add_parts :: "json_codec \<Rightarrow> json list \<Rightarrow> sse_acc \<Rightarrow> sse_acc \<times> stream_event list" where
  "gemini_add_parts jc [] self = (self, [])"
| "gemini_add_parts jc (part # parts) self =
     (let delta = (case str_field ''text'' part of Some t \<Rightarrow> if t \<noteq> [] then [TextDelta t] else [] | None \<Rightarrow> []);
          self = (case parse_tool_call_part jc part of Some tool_call \<Rightarrow> record_tool_call tool_call self | None \<Rightarrow> self);
          (self, more_pushed) = gemini_add_parts jc parts self
      in (self, delta @ more_pushed))"

definition gemini_flush_event :: "json_codec \<Rightarrow> sse_acc step" where
  "gemini_flush_event jc self =
     (if sa_event_data_lines self = [] then Inr (self, [])
      else
        (let payload = join [NL] (sa_event_data_lines self);
             self = self\<lparr>sa_event_data_lines := []\<rparr>
         in if trim payload = ''[DONE]'' then Inr (self, [])
            else (case jc_parse jc payload of
                    Inl err \<Rightarrow> Inl (ProviderError (''invalid gemini stream event: '' @ err))
                  | Inr v \<Rightarrow> Inr (gemini_add_parts jc (gemini_parts v) self))))"

definition gemini_push_bytes :: "json_codec \<Rightarrow> rstr \<Rightarrow> sse_acc step" where
  "gemini_push_bytes jc = sse_push_bytes ''gemini'' (gemini_flush_event jc)"

definition gemini_finish :: "json_codec \<Rightarrow> sse_acc \<Rightarrow> stream_event list res" where
  "gemini_finish jc = sse_finish (gemini_flush_event jc)"

definition gemini_stream :: "json_codec \<Rightarrow> (rstr + rstr) list \<Rightarrow> stream_event list" where
  "gemini_stream jc chunks = sse_feed ''gemini'' ''gemini'' (gemini_flush_event jc) chunks new_gemini_acc"

definition gemini_check_status :: "json_codec \<Rightarrow> stream_response \<Rightarrow> stream_response res" where
  "gemini_check_status jc response =
     (let head = sp_head response
      in if \<not> is_http_success head
         then Inl (ProviderError (''gemini returned '' @ hp_status_text head @ '': '' @
                summarize_gemini_error_body jc (case hp_body head of Inr body \<Rightarrow> body | Inl _ \<Rightarrow> [])))
         else Inr response)"

definition gemini_generate :: "json_codec \<Rightarrow> http_library \<Rightarrow> gemini_config \<Rightarrow> provider_query \<Rightarrow> provider_response res" where
  "gemini_generate jc http config query =
     rbind (gemini_api_key config) (\<lambda>api_key.
     (case hl_send http \<lparr>hq_url = gemini_endpoint config, hq_query = [(''key'', api_key)], hq_headers = [],
                        hq_body = gemini_request_body jc query\<rparr> of
        Inl e \<Rightarrow> Inl (ProviderError (''gemini request failed: '' @ e))
      | Inr response \<Rightarrow>
          rbind (gemini_check_status jc response) (\<lambda>response.
            case hl_json http (sp_head response) of
              Inl e \<Rightarrow> Inl (ProviderError (''invalid gemini response: '' @ e))
            | Inr v \<Rightarrow> Inr (gemini_parse_response jc v))))"

definition gemini_generate_stream :: "json_codec \<Rightarrow> http_library \<Rightarrow> gemini_config \<Rightarrow> provider_query \<Rightarrow> stream_event list res" where
  "gemini_generate_stream jc http config query =
     rbind (gemini_api_key config) (\<lambda>api_key.
     (case hl_send http \<lparr>hq_url = gemini_stream_endpoint config, hq_query = [(''alt'', ''sse''), (''key'', api_key)], hq_headers = [],
                        hq_body = gemini_request_body jc query\<rparr> of
        Inl e \<Rightarrow> Inl (ProviderError (''gemini stream request failed: '' @ e))
      | Inr response \<Rightarrow>
          rbind (gemini_check_status jc response) (\<lambda>response. Inr (gemini_stream jc (sp_chunks response)))))"

section \<open>Moonshot\<close>

record moonshot_provider =
  mp_model :: rstr
  mp_api_base :: rstr
  mp_api_key :: rstr

definition from_moonshot_config :: "moonshot_config \<Rightarrow> moonshot_provider res" where
  "from_moonshot_config config =
     (if moon_mode config = AuthOauth then Inl (ConfigError ''moonshot mode oauth is not supported'')
      else (case moon_api_key config of
              Some k \<Rightarrow>
                if trim k \<noteq> [] then Inr \<lparr>mp_model = moon_model config, mp_api_base = moon_api_base config, mp_api_key = k\<rparr>
                else Inl missing_api_key
            | None \<Rightarrow> Inl missing_api_key))"

definition moonshot_call :: "tool_call \<Rightarrow> json" where
  "moonshot_call call =
     JObj [(''id'', JStr (case tl_id call of Some i \<Rightarrow> i | None \<Rightarrow> ''call_'' @ tl_name call)), (''type'', JStr ''function''),
           (''function'', JObj [(''name'', JStr (tl_name call)), (''arguments'', JStr (tl_args_json call))])]"

definition moonshot_result :: "json_codec \<Rightarrow> tool_result_message \<Rightarrow> json" where
  "moonshot_result jc r =
     JObj [(''role'', JStr ''tool''),
           (''tool_call_id'', JStr (case tm_call_id r of Some i \<Rightarrow> i | None \<Rightarrow> ''call_'' @ tm_name r)),
           (''name'', JStr (tm_name r)), (''content'', JStr (jc_text jc (response_json r)))]"

fun moonshot_role :: "role \<Rightarrow> rstr" where
  "moonshot_role System = ''system''"
| "moonshot_role User = ''user''"
| "moonshot_role Assistant = ''assistant''"
| "moonshot_role ToolRole = ''user''"

definition moonshot_messages_of :: "json_codec \<Rightarrow> message \<Rightarrow> json list" where
  "moonshot_messages_of jc m =
     (if ms_tool_calls m \<noteq> []
      then [JObj [(''role'', JStr ''assistant''),
                  (''content'', if trim (ms_content m) = [] then JNull else JStr (ms_content m)),
                  (''tool_calls'', JArr (map moonshot_call (ms_tool_calls m)))]]
      else if ms_tool_results m \<noteq> [] then map (moonshot_result jc) (ms_tool_results m)
      else if trim (ms_content m) = [] then []
      else [JObj [(''role'', JStr (moonshot_role (ms_role m))), (''content'', JStr (ms_content m))]])"

definition moonshot_build_messages :: "json_codec \<Rightarrow> rstr \<Rightarrow> message list \<Rightarrow> json list" where
  "moonshot_build_messages jc system_prompt history =
     (if trim system_prompt \<noteq> [] then [JObj [(''role'', JStr ''system''), (''content'', JStr system_prompt)]] else []) @
     concat (map (moonshot_messages_of jc) history)"

definition moonshot_tool :: "json_codec \<Rightarrow> tool_definition \<Rightarrow> json" where
  "moonshot_tool jc tool =
     JObj [(''type'', JStr ''function''),
           (''function'', JObj [(''name'', JStr (td_name tool)), (''description'', JStr (td_description tool)),
                                (''parameters'', parsed_schema jc tool)])]"

definition moonshot_body :: "json_codec \<Rightarrow> moonshot_provider \<Rightarrow> provider_query \<Rightarrow> json" where
  "moonshot_body jc self query =
     (case query of (system_prompt, history, tools) \<Rightarrow>
        JObj ([(''model'', JStr (mp_model self)), (''messages'', JArr (moonshot_build_messages jc system_prompt history))] @
              (if tools \<noteq> [] then [(''tools'', JArr (map (moonshot_tool jc) tools)), (''tool_choice'', JStr ''auto'')] else [])))"

definition parse_content :: "json \<Rightarrow> rstr option" where
  "parse_content content =
     (case content of
        JStr t \<Rightarrow> if trim t \<noteq> [] then Some t else None
      | JArr parts \<Rightarrow>
          (let merged = List.map_filter (\<lambda>part. first_nonempty_str (str_field ''text'' part)) parts
           in if merged = [] then None else Some (join [NL] merged))
      | _ \<Rightarrow> None)"

definition moonshot_answer_call :: "json_codec \<Rightarrow> json \<Rightarrow> tool_call option" where
  "moonshot_answer_call jc call =
     (let name = unwrap_or [] (Option.bind (json_get ''function'' call) (str_field ''name''))
      in if name = [] then None
         else Some \<lparr>tl_id = str_field ''id'' call, tl_name = name,
                    tl_args_json = (case Option.bind (json_get ''function'' call) (json_get ''arguments'') of
                        Some (JStr raw) \<Rightarrow> raw | Some v \<Rightarrow> jc_text jc v | None \<Rightarrow> ''{}'')\<rparr>)"

definition moonshot_parse_response :: "json_codec \<Rightarrow> json \<Rightarrow> provider_response" where
  "moonshot_parse_response jc v =
     (let m = (case array_field ''choices'' v of choice # _ \<Rightarrow> json_get ''message'' choice | [] \<Rightarrow> None)
      in \<lparr>pr_output_text = Option.bind (Option.bind m (json_get ''content'')) parse_content,
          pr_tool_calls = (case m of Some m \<Rightarrow> List.map_filter (moonshot_answer_call jc) (array_field ''tool_calls'' m) | None \<Rightarrow> [])\<rparr>)"

definition moonshot_generate ::
  "json_codec \<Rightarrow> http_library \<Rightarrow> moonshot_provider \<Rightarrow> provider_query \<Rightarrow> provider_response res" where
  "moonshot_generate jc http self query =
     (case hl_send http \<lparr>hq_url = trim_end_slashes (mp_api_base self) @ ''/chat/completions'', hq_query = [],
                        hq_headers = [(''authorization'', ''Bearer '' @ mp_api_key self)], hq_body = moonshot_body jc self query\<rparr> of
        Inl e \<Rightarrow> Inl (ProviderError (''moonshot request failed: '' @ e))
      | Inr response \<Rightarrow>
          (let head = sp_head response
           in if 400 \<le> hp_status head \<and> hp_status head < 600
              then Inl (ProviderError (''moonshot returned error: '' @ hl_status_error http head))
              else (case hl_json http head of
                      Inl e \<Rightarrow> Inl (ProviderError (''invalid moonshot response: '' @ e))
                    | Inr v \<Rightarrow> Inr (moonshot_parse_response jc v))))"

section \<open>The registry\<close>

record provider_metadata =
  pm_kind :: provider_kind
  pm_supports_native_tools :: bool
  pm_known_models :: "rstr list"

datatype provider_instance =
    GeminiProvider gemini_config
  | MoonshotProvider moonshot_provider
  | OpenAiCodexProvider codex_config rstr   \<comment> \<open>with the path of the login store\<close>

fun adapter_metadata :: "provider_kind \<Rightarrow> provider_metadata" where
  "adapter_metadata KindGemini = \<lparr>pm_kind = KindGemini, pm_supports_native_tools = True,
     pm_known_models = [''gemini-2.5-flash'', ''gemini-2.5-pro'', ''gemini-2.0-flash'', ''gemini-2.0-flash-lite'']\<rparr>"
| "adapter_metadata KindMoonshot = \<lparr>pm_kind = KindMoonshot, pm_supports_native_tools = True, pm_known_models = []\<rparr>"
| "adapter_metadata KindOpenAiCodex = \<lparr>pm_kind = KindOpenAiCodex, pm_supports_native_tools = True,
     pm_known_models = [''gpt-5.3-codex'', ''gpt-5-codex'', ''gpt-5.1-codex-mini'']\<rparr>"

definition gemini_from_entry :: "provider_entry \<Rightarrow> provider_instance res" where
  "gemini_from_entry entry =
     (case entry of
        GeminiEntry config \<Rightarrow> Inr (GeminiProvider config)
      | _ \<Rightarrow> Inl (ConfigError ''gemini provider received wrong provider config variant''))"

definition create_moonshot :: "provider_entry \<Rightarrow> provider_instance res" where
  "create_moonshot entry =
     (case entry of
        MoonshotEntry config \<Rightarrow> rbind (from_moonshot_config config) (\<lambda>p. Inr (MoonshotProvider p))
      | _ \<Rightarrow> Inl (ConfigError ''moonshot provider adapter received wrong provider config variant''))"

definition create_openai_codex :: "app_paths res \<Rightarrow> provider_entry \<Rightarrow> provider_instance res" where
  "create_openai_codex paths entry =
     (case entry of
        OpenAiCodexEntry config \<Rightarrow> rbind (resolve_auth_store_path_from paths) (\<lambda>store. Inr (OpenAiCodexProvider config store))
      | _ \<Rightarrow> Inl (ConfigError ''openai_codex provider adapter received wrong provider config variant''))"

text \<open>A registry is the set of the kinds that have an adapter.\<close>

definition new_provider_registry :: "provider_kind set" where
  "new_provider_registry = {KindGemini, KindMoonshot, KindOpenAiCodex}"

fun adapter_create :: "app_paths res \<Rightarrow> provider_kind \<Rightarrow> provider_entry \<Rightarrow> provider_instance res" where
  "adapter_create paths KindGemini entry = gemini_from_entry entry"
| "adapter_create paths KindMoonshot entry = create_moonshot entry"
| "adapter_create paths KindOpenAiCodex entry = create_openai_codex paths entry"

definition kind_not_registered :: "provider_kind \<Rightarrow> framework_error" where
  "kind_not_registered kind = ConfigError (''provider kind '' @ [SQ] @ provider_kind_as_str kind @ [SQ] @ '' is not registered'')"

definition create_provider :: "app_paths res \<Rightarrow> provider_kind set \<Rightarrow> provider_entry \<Rightarrow> provider_instance res" where
  "create_provider paths registry entry =
     (if entry_kind entry \<notin> registry then Inl (kind_not_registered (entry_kind entry))
      else adapter_create paths (entry_kind entry) entry)"

definition metadata_for_kind :: "provider_kind set \<Rightarrow> provider_kind \<Rightarrow> provider_metadata res" where
  "metadata_for_kind registry kind =
     (if kind \<notin> registry then Inl (kind_not_registered kind) else Inr (adapter_metadata kind))"

definition provider_factory_from_config :: "app_paths res \<Rightarrow> providers_config \<Rightarrow> provider_instance provider_factory res" where
  "provider_factory_from_config paths config =
     rtraverse (\<lambda>(key, entry).
       rbind (create_provider paths new_provider_registry entry) (\<lambda>provider.
       rbind (metadata_for_kind new_provider_registry (entry_kind entry)) (\<lambda>metadata.
         Inr (key, provider, pm_supports_native_tools metadata)))) (prov_entries config)"

text \<open>What the loop calls: the two functions of the trait.\<close>

fun provider_of :: "json_codec \<Rightarrow> http_library \<Rightarrow> codex_env \<Rightarrow> provider_instance \<Rightarrow> provider" where
  "provider_of jc http env (GeminiProvider config) =
     \<lparr>pv_generate = gemini_generate jc http config, pv_generate_stream = gemini_generate_stream jc http config\<rparr>"
| "provider_of jc http env (MoonshotProvider p) =
     \<lparr>pv_generate = moonshot_generate jc http p, pv_generate_stream = default_generate_stream (moonshot_generate jc http p)\<rparr>"
| "provider_of jc http env (OpenAiCodexProvider config store) = codex_provider jc env config"

section \<open>The stream of Gemini\<close>

lemma gemini_parts_buffer:
  "gemini_add_parts jc ps (self\<lparr>sa_line_buffer := b\<rparr>) = apfst (sa_line_buffer_update (\<lambda>_. b)) (gemini_add_parts jc ps self)"
  by (induction ps arbitrary: self) (simp_all add: Let_def record_buffer case_prod_beta split: option.split)

lemma gemini_parts_texts: "texts_only (snd (gemini_add_parts jc ps self))"
  by (induction ps arbitrary: self) (auto simp: Let_def case_prod_beta split: option.split)

interpretation gemini: event_source "gemini_flush_event jc" for jc
proof
  show "gemini_flush_event jc (self\<lparr>sa_line_buffer := b\<rparr>) = with_buffer b (gemini_flush_event jc self)" for self b
    by (simp add: gemini_flush_event_def Let_def line_fields_commute gemini_parts_buffer with_buffer_def case_prod_beta prod_eq_iff split: sum.split)
  show "gemini_flush_event jc self = Inr (self', pushed) \<Longrightarrow> texts_only pushed" for self self' pushed
    using gemini_parts_texts[of jc] by (auto simp: gemini_flush_event_def Let_def split: if_splits sum.splits) (metis snd_conv)
qed

theorem gemini_stream_equals_body:
  assumes "\<forall>c\<in>set chunks. valid_utf8 c"
  shows "snd (read_stream (gemini_stream jc (map Inr chunks)) [] []) = snd (read_stream (gemini_stream jc [Inr (concat chunks)]) [] [])"
proof -
  have v: "\<forall>c\<in>set [concat chunks]. valid_utf8 c" using valid_utf8_concat[OF assms] by simp
  have n: "NL \<notin> set (sa_line_buffer new_gemini_acc)" by (simp add: new_gemini_acc_def)
  show ?thesis unfolding gemini_stream_def
    using gemini.feed_valid[OF assms n] gemini.feed_valid[OF v n] by simp
qed

text \<open>
  Without streaming the texts of several parts are joined by line feeds, with streaming they follow
  each other directly: the same answer has two texts.
\<close>

lemma gemini_texts_differ:
  "\<exists>jc v. pr_output_text (gemini_parse_response jc v) = Some (''a'' @ [NL] @ ''b'') \<and>
     texts_of (snd (gemini_add_parts jc (gemini_parts v) new_gemini_acc)) = ''ab''"
proof (intro exI conjI)
  let ?jc = "\<lparr>jc_parse = \<lambda>_. Inr JNull, jc_text = \<lambda>_. []\<rparr>"
  let ?v = "JObj [(''candidates'', JArr [JObj [(''content'', JObj [(''parts'',
     JArr [JObj [(''text'', JStr ''a'')], JObj [(''text'', JStr ''b'')]])])]])]"
  show "pr_output_text (gemini_parse_response ?jc ?v) = Some (''a'' @ [NL] @ ''b'')" by code_simp
  show "texts_of (snd (gemini_add_parts ?jc (gemini_parts ?v) new_gemini_acc)) = ''ab''" by code_simp
qed

section \<open>The providers of a loaded configuration\<close>

lemma load_config_providers:
  assumes "load_config w workspace_override = Some (Inr g)"
  shows "\<exists>paths. resolve_app_paths (cfw_env w) = Inr paths \<and> validate_providers_config (glob_providers g) = Inr ()"
proof -
  have "\<exists>paths g2. resolve_app_paths (cfw_env w) = Inr paths \<and> check_global g2 = Inr g"
    using assms unfolding load_config_def Let_def pbind_ok option.inject
    by (elim exE conjE) (intro exI conjI, assumption+)
  then obtain paths g2 where p: "resolve_app_paths (cfw_env w) = Inr paths" and c: "check_global g2 = Inr g"
    by (elim exE conjE)
  from check_global_ok[OF c] obtain routing where
    "g = g2\<lparr>glob_gateway := (glob_gateway g2)\<lparr>gate_routing := routing\<rparr>\<rparr>" "validate_providers_config (glob_providers g2) = Inr ()"
    by blast
  then show ?thesis using p by simp
qed

lemma valid_entry_created:
  assumes "validate_provider_entry (key, entry) = Inr ()" "paths = Inr ps"
  shows "\<exists>p. create_provider paths new_provider_registry entry = Inr p"
proof (cases entry)
  case (MoonshotEntry config)
  then show ?thesis using assms
    by (cases "moon_mode config"; cases "moon_api_key config")
      (auto simp: create_provider_def new_provider_registry_def create_moonshot_def from_moonshot_config_def validate_moonshot_def
        rbind_eq_Inr config_check_def split: if_splits)
qed (auto simp: create_provider_def new_provider_registry_def gemini_from_entry_def create_openai_codex_def
      resolve_auth_store_path_from_def assms(2))

definition made_entry :: "app_paths res \<Rightarrow> rstr \<times> provider_entry \<Rightarrow> (rstr \<times> provider_instance \<times> bool) res" where
  "made_entry paths = (\<lambda>(key, entry).
       rbind (create_provider paths new_provider_registry entry) (\<lambda>provider.
       rbind (metadata_for_kind new_provider_registry (entry_kind entry)) (\<lambda>metadata.
         Inr (key, provider, pm_supports_native_tools metadata))))"

lemma kind_registered: "metadata_for_kind new_provider_registry kind = Inr (adapter_metadata kind)"
  by (cases kind) (simp_all add: metadata_for_kind_def new_provider_registry_def)

lemma all_native: "pm_supports_native_tools (adapter_metadata kind)"
  by (cases kind) simp_all

lemma factory_made:
  assumes "\<forall>e\<in>set entries. validate_provider_entry e = Inr ()"
  shows "\<exists>factory. rtraverse (made_entry (Inr ps)) entries = Inr factory \<and>
           fst ` set factory = fst ` set entries \<and> (\<forall>e\<in>set factory. snd (snd e))"
  using assms
proof (induction entries)
  case (Cons e entries)
  obtain key entry where e: "e = (key, entry)" by fastforce
  from Cons.prems valid_entry_created[of key entry "Inr ps" ps] obtain p where
    p: "create_provider (Inr ps) new_provider_registry entry = Inr p" by (auto simp: e)
  from Cons obtain factory where f: "rtraverse (made_entry (Inr ps)) entries = Inr factory"
    "fst ` set factory = fst ` set entries" "\<forall>e\<in>set factory. snd (snd e)" by auto
  have m: "made_entry (Inr ps) (key, entry) = Inr (key, p, True)"
    using all_native[of "entry_kind entry"] by (simp add: made_entry_def p kind_registered)
  show ?case by (simp add: f m e)
qed simp

text \<open>
  A loaded configuration has its providers: whatever the files hold, if loading succeeds, then
  the factory is made without an error, it has a provider with native tools under every configured
  key, and the default provider is one of them.
\<close>

lemma loaded_providers_exist:
  assumes "load_config w workspace_override = Some (Inr g)"
  shows "\<exists>factory. provider_factory_from_config (resolve_app_paths (cfw_env w)) (glob_providers g) = Inr factory \<and>
    (\<forall>key\<in>fst ` set (prov_entries (glob_providers g)).
       (\<exists>p. get_provider factory key = Inr p) \<and> supports_native_tools factory key) \<and>
    prov_default (glob_providers g) \<in> fst ` set (prov_entries (glob_providers g))"
proof -
  from load_config_providers[OF assms] obtain ps where ps: "resolve_app_paths (cfw_env w) = Inr ps"
    and v: "validate_providers_config (glob_providers g) = Inr ()" by blast
  have e: "\<forall>e\<in>set (prov_entries (glob_providers g)). validate_provider_entry e = Inr ()"
    and d: "prov_default (glob_providers g) \<in> fst ` set (prov_entries (glob_providers g))"
    using v by (auto simp: validate_providers_config_def rbind_eq_Inr config_check_def split: if_splits)
  from factory_made[OF e] obtain factory where f: "rtraverse (made_entry (Inr ps)) (prov_entries (glob_providers g)) = Inr factory"
    "fst ` set factory = fst ` set (prov_entries (glob_providers g))" "\<forall>e\<in>set factory. snd (snd e)" by blast
  have "(\<exists>p. get_provider factory key = Inr p) \<and> supports_native_tools factory key"
    if "key \<in> fst ` set (prov_entries (glob_providers g))" for key
  proof -
    from that f(2) have "key \<in> fst ` set factory" by simp
    then obtain x where x: "map_of factory key = Some x" by (cases "map_of factory key") (auto simp: map_of_eq_None_iff)
    with f(3) map_of_SomeD[OF x] show ?thesis by (auto simp: get_provider_def supports_native_tools_def)
  qed
  moreover have "provider_factory_from_config (resolve_app_paths (cfw_env w)) (glob_providers g) = Inr factory"
    using f(1) unfolding ps provider_factory_from_config_def made_entry_def .
  ultimately show ?thesis using d by blast
qed

lemma loaded_providers_exist_witness:
  "\<exists>g factory. load_config sample_config_world (Some ''~/ws'') = Some (Inr g) \<and>
     provider_factory_from_config (resolve_app_paths (cfw_env sample_config_world)) (glob_providers g) = Inr factory \<and>
     supports_native_tools factory ''default''"
proof -
  have "(case load_config sample_config_world (Some ''~/ws'') of
      Some (Inr g) \<Rightarrow> Some (map fst (prov_entries (glob_providers g))) | _ \<Rightarrow> None) = Some [''default'']" by code_simp
  from loaded_value[OF this] obtain g where g: "load_config sample_config_world (Some ''~/ws'') = Some (Inr g)"
    "map fst (prov_entries (glob_providers g)) = [''default'']" by (elim exE conjE)
  from loaded_providers_exist[OF g(1)] obtain factory where
    f: "provider_factory_from_config (resolve_app_paths (cfw_env sample_config_world)) (glob_providers g) = Inr factory"
    "\<forall>key\<in>fst ` set (prov_entries (glob_providers g)).
       (\<exists>p. get_provider factory key = Inr p) \<and> supports_native_tools factory key" by (elim exE conjE)
  have "''default'' \<in> fst ` set (prov_entries (glob_providers g))"
    using g(2) by (metis list.set_intros(1) list.set_map)
  from bspec[OF f(2) this] have "supports_native_tools factory ''default''" by (elim conjE)
  then show ?thesis using g(1) f(1) by (intro exI conjI)
qed

end
