(* ===== verification/DiscordChannel.thy ===== *)
theory DiscordChannel
  imports GatewayService
begin

text \<open>
  \<open>src/channels/discord.rs\<close> and the default operations of \<open>src/channels/mod.rs\<close>: what becomes of
  the events of the Discord client, and the calls the channel makes. The client library is an
  argument: the outcome of each call, and the events it reports. (Its id types refuse the number
  zero, which Discord never uses.)
\<close>

section \<open>Texts and ids\<close>

definition parse_u64 :: "rstr \<Rightarrow> nat option" where
  "parse_u64 s =
     (let digits = (case s of c # t \<Rightarrow> if c = CHR ''+'' then t else s | [] \<Rightarrow> [])
      in if digits \<noteq> [] \<and> list_all is_ascii_digit digits \<and> read_digits digits < 2 ^ 64 then Some (read_digits digits) else None)"

definition parse_channel_id :: "rstr \<Rightarrow> nat res" where
  "parse_channel_id raw = ok_or (ToolError (''invalid discord channel id: '' @ raw)) (parse_u64 raw)"

definition parse_message_id :: "rstr \<Rightarrow> nat res" where
  "parse_message_id raw = ok_or (ToolError (''invalid discord message id: '' @ raw)) (parse_u64 raw)"

datatype reaction_type = CustomReaction bool nat "rstr option" | UnicodeReaction rstr

text \<open>\<open>split\<close> at a character: the parts between its occurrences, at least one.\<close>

fun split_char :: "char \<Rightarrow> rstr \<Rightarrow> rstr list" where
  "split_char c [] = [[]]"
| "split_char c (x # s) =
     (if x = c then [] # split_char c s
      else (case split_char c s of p # ps \<Rightarrow> (x # p) # ps | [] \<Rightarrow> [[x]]))"

definition invalid_custom_emoji :: "rstr \<Rightarrow> framework_error" where
  "invalid_custom_emoji emoji = ToolError (''invalid custom emoji format: '' @ emoji)"

definition custom_reaction :: "rstr \<Rightarrow> bool \<Rightarrow> rstr \<Rightarrow> reaction_type option res" where
  "custom_reaction emoji animated tail =
     (case split_char (CHR '':'') tail of
        [name, id_raw] \<Rightarrow>
          rbind (ok_or (ToolError (''invalid custom emoji id: '' @ id_raw)) (parse_u64 id_raw)) (\<lambda>i.
            Inr (Some (CustomReaction animated i (Some name))))
      | _ \<Rightarrow> Inl (invalid_custom_emoji emoji))"

definition parse_custom_reaction_type :: "rstr \<Rightarrow> reaction_type option res" where
  "parse_custom_reaction_type emoji =
     (if \<not> (prefix ''<'' emoji \<and> emoji \<noteq> ''<'' \<and> last emoji = CHR ''>'') then Inr None
      else
        (let stripped = butlast (tl emoji)
         in if prefix ''a:'' stripped then custom_reaction emoji True (drop 2 stripped)
            else if prefix '':'' stripped then custom_reaction emoji False (drop 1 stripped)
            else Inr None))"

definition parse_reaction_type :: "rstr \<Rightarrow> reaction_type res" where
  "parse_reaction_type raw =
     (let emoji = trim raw
      in if emoji = [] then Inl (ToolError ''emoji is required to add a reaction'')
         else rbind (parse_custom_reaction_type emoji) (\<lambda>parsed.
                case parsed of Some r \<Rightarrow> Inr r | None \<Rightarrow> Inr (UnicodeReaction emoji)))"

section \<open>Inbound messages\<close>

record discord_message =
  dm_id :: nat
  dm_channel_id :: nat
  dm_guild_id :: "nat option"
  dm_author_id :: nat
  dm_author_bot :: bool
  dm_author_name :: rstr
  dm_global_name :: "rstr option"
  dm_nick :: "rstr option"          \<comment> \<open>of the member, where there is one\<close>
  dm_mentions :: "nat list"
  dm_content :: rstr

definition message_mentions_user :: "discord_message \<Rightarrow> nat \<Rightarrow> bool" where
  "message_mentions_user msg user_id \<longleftrightarrow>
     user_id \<in> set (dm_mentions msg) \<or>
     str_contains (dm_content msg) (''<@'' @ show_nat user_id @ ''>'') \<or>
     str_contains (dm_content msg) (''<@!'' @ show_nat user_id @ ''>'')"

definition message_username :: "discord_message \<Rightarrow> rstr" where
  "message_username msg =
     (case Option.bind (dm_nick msg) non_empty_trim of
        Some n \<Rightarrow> n
      | None \<Rightarrow>
          (case Option.bind (dm_global_name msg) non_empty_trim of
             Some n \<Rightarrow> n
           | None \<Rightarrow>
               if trim (dm_author_name msg) = [] then show_nat (dm_author_id msg) else trim (dm_author_name msg)))"

definition discord_inbound :: "nat option \<Rightarrow> discord_message \<Rightarrow> channel_inbound option" where
  "discord_inbound bot_user_id msg =
     (if dm_author_bot msg \<or> trim (dm_content msg) = [] then None
      else Some \<lparr>ci_message_id = show_nat (dm_id msg), ci_channel_id = show_nat (dm_channel_id msg),
                 ci_guild_id = map_option show_nat (dm_guild_id msg), ci_is_dm = (dm_guild_id msg = None),
                 ci_user_id = show_nat (dm_author_id msg), ci_username = message_username msg,
                 ci_mentioned_bot = (case bot_user_id of Some i \<Rightarrow> message_mentions_user msg i | None \<Rightarrow> False),
                 ci_content = dm_content msg\<rparr>)"

section \<open>Slash commands\<close>

definition slash_command_kind :: "rstr \<Rightarrow> channel_command_kind option" where
  "slash_command_kind name =
     (if name = ''new'' then Some CmdNewSession else if name = ''status'' then Some CmdStatus
      else if name = ''stop'' then Some CmdStop else if name = ''tools'' then Some CmdTools else None)"

text \<open>The commands the bot registers when it is ready.\<close>

definition registered_commands :: "rstr list" where
  "registered_commands = [''new'', ''status'', ''stop'', ''tools'']"

fun fallback_response :: "channel_command_kind \<Rightarrow> rstr \<Rightarrow> command_response" where
  "fallback_response CmdNewSession message = RespNewSession message"
| "fallback_response CmdStatus message = RespStatus message"
| "fallback_response CmdStop message = RespStop 0 message"
| "fallback_response CmdTools message = RespTools message"

definition discord_limit :: nat where
  "discord_limit = 2000"

definition truncate_discord_response :: "rstr \<Rightarrow> rstr" where
  "truncate_discord_response message =
     (if char_count message \<le> discord_limit then message
      else take_chars (discord_limit - 3) message @ ''...'')"

text \<open>The wait for the answer of the gateway, of ten seconds.\<close>

datatype command_wait = Answered command_response | SenderDropped | WaitTimedOut

record slash_command =
  sh_name :: rstr
  sh_channel_id :: nat
  sh_guild_id :: "nat option"
  sh_user_id :: nat

text \<open>The command that reaches the gateway, if one does, and the text shown, if one is.\<close>

definition handle_slash_command ::
  "bool \<Rightarrow> bool \<Rightarrow> (channel_command \<Rightarrow> command_wait) \<Rightarrow> slash_command \<Rightarrow> channel_command option \<times> rstr option" where
  "handle_slash_command defer_ok queue_open answer command =
     (case slash_command_kind (sh_name command) of
        None \<Rightarrow> (None, None)
      | Some kind \<Rightarrow>
          if \<not> defer_ok then (None, None)
          else
            (let request = \<lparr>cc_kind = kind, cc_source = Discord, cc_channel_id = show_nat (sh_channel_id command),
                            cc_guild_id = map_option show_nat (sh_guild_id command),
                            cc_user_id = show_nat (sh_user_id command), cc_is_dm = (sh_guild_id command = None)\<rparr>
             in if \<not> queue_open
                then (None, Some (truncate_discord_response
                       (response_message (fallback_response kind ''Failed to dispatch the command.''))))
                else
                  (let response =
                         (case answer request of
                            Answered r \<Rightarrow> r
                          | SenderDropped \<Rightarrow> fallback_response kind ''The command response channel closed.''
                          | WaitTimedOut \<Rightarrow> fallback_response kind ''The command timed out.'')
                   in (Some request, Some (truncate_discord_response (response_message response))))))"

section \<open>Approvals\<close>

definition format_discord_user :: "rstr \<Rightarrow> rstr" where
  "format_discord_user user_id =
     (if list_all is_ascii_digit user_id then ''<@'' @ user_id @ ''>'' else user_id)"

definition render_approval_request :: "pending_approval_request \<Rightarrow> rstr" where
  "render_approval_request request =
     ''**Approval required**'' @ [NL] @ pq_agent_name request @ '' wants to run `'' @ pq_tool_name request @
     ''` outside the sandbox.'' @ [NL, NL] @ ''Requested by: '' @ format_discord_user (pq_requesting_user_id request) @ [NL] @
     ''Action: `'' @ pq_action_summary request @ ''`'' @ [NL] @ ''Why: '' @ pq_reason request"

definition approval_custom_id :: "rstr \<Rightarrow> rstr \<Rightarrow> rstr" where
  "approval_custom_id approval_id choice = ''simpleclaw:approval:'' @ approval_id @ '':'' @ choice"

text \<open>The two buttons of the message, with their labels.\<close>

definition approval_buttons :: "pending_approval_request \<Rightarrow> (rstr \<times> rstr) list" where
  "approval_buttons request =
     [(approval_custom_id (pq_approval_id request) ''approve'', ''Approve''),
      (approval_custom_id (pq_approval_id request) ''deny'', ''Deny'')]"

definition parse_approval_custom_id :: "rstr \<Rightarrow> (rstr \<times> approval_decision) option" where
  "parse_approval_custom_id custom_id =
     (case split_char (CHR '':'') custom_id of
        [pre, kind, approval_id, choice] \<Rightarrow>
          if pre \<noteq> ''simpleclaw'' \<or> kind \<noteq> ''approval'' then None
          else if choice = ''approve'' then Some (approval_id, Approved)
          else if choice = ''deny'' then Some (approval_id, Denied)
          else None
      | _ \<Rightarrow> None)"

datatype interaction_result =
    Inactive rstr
  | Unauthorized rstr
  | Authorized approval_resolution rstr

definition evaluate_approval_interaction ::
  "pending_approval_request option \<Rightarrow> rstr \<Rightarrow> rstr \<Rightarrow> approval_decision \<Rightarrow> interaction_result" where
  "evaluate_approval_interaction pending actor_user_id approval_id decision =
     (case pending of
        None \<Rightarrow> Inactive ''This approval request expired.''
      | Some request \<Rightarrow>
          if pq_requesting_user_id request \<noteq> actor_user_id
          then Unauthorized ''Only the requester can use these buttons.''
          else Authorized \<lparr>ap_approval_id = approval_id, ap_decision = decision, ap_user_id = actor_user_id\<rparr>
                 ''**Approval request closed**'')"

text \<open>
  What a press of a button does: a resolution for the gateway, an answer only the presser sees, or
  the message replaced by a text without buttons.
\<close>

datatype button_act = SendResolution approval_resolution | Whisper rstr | ReplaceMessage rstr

definition handle_approval_interaction ::
  "bool \<Rightarrow> approval_registry \<Rightarrow> rstr \<Rightarrow> nat \<Rightarrow> button_act list" where
  "handle_approval_interaction queue_open registry custom_id actor =
     (case parse_approval_custom_id custom_id of
        None \<Rightarrow> []
      | Some (approval_id, decision) \<Rightarrow>
          (case evaluate_approval_interaction (pending_request approval_id registry) (show_nat actor) approval_id decision of
             Inactive message \<Rightarrow> [Whisper message]
           | Unauthorized message \<Rightarrow> [Whisper message]
           | Authorized resolution rendered_message \<Rightarrow>
               if queue_open then [SendResolution resolution, ReplaceMessage rendered_message]
               else [Whisper ''Failed to record the approval response. Please try again.'']))"

section \<open>Calls\<close>

text \<open>What the channel asks of the client library, with the outcome as an argument.\<close>

datatype discord_call =
    Say nat rstr
  | SendButtons nat rstr "(rstr \<times> rstr) list"
  | EditMessage nat nat rstr
  | DeleteMessage nat nat
  | FetchMessage nat nat
  | CreateReaction nat nat reaction_type
  | DeleteReaction nat nat reaction_type
  | BroadcastTyping nat

record discord_client =
  dl_message :: "discord_call \<Rightarrow> rstr + nat"                        \<comment> \<open>the id of the new message\<close>
  dl_unit :: "discord_call \<Rightarrow> rstr + unit"
  dl_reactions :: "discord_call \<Rightarrow> rstr + (bool \<times> reaction_type) list" \<comment> \<open>each with whether it is the bot's own\<close>

definition discord_error :: "rstr \<Rightarrow> rstr + 'a \<Rightarrow> 'a res" where
  "discord_error what r = (case r of Inl e \<Rightarrow> Inl (ConfigError (''discord '' @ what @ '' failed: '' @ e)) | Inr v \<Rightarrow> Inr v)"

definition discord_send_message_with_id :: "discord_client \<Rightarrow> rstr \<Rightarrow> rstr \<Rightarrow> rstr option res" where
  "discord_send_message_with_id client channel_id content =
     rbind (parse_channel_id channel_id) (\<lambda>channel.
     rbind (discord_error ''send'' (dl_message client (Say channel content))) (\<lambda>i. Inr (Some (show_nat i))))"

definition discord_send_message :: "discord_client \<Rightarrow> rstr \<Rightarrow> rstr \<Rightarrow> unit res" where
  "discord_send_message client channel_id content =
     rbind (parse_channel_id channel_id) (\<lambda>channel.
     rbind (discord_error ''send'' (dl_message client (Say channel content))) (\<lambda>_. Inr ()))"

definition discord_send_approval_request :: "discord_client \<Rightarrow> rstr \<Rightarrow> pending_approval_request \<Rightarrow> rstr option res" where
  "discord_send_approval_request client channel_id request =
     rbind (parse_channel_id channel_id) (\<lambda>channel.
     rbind (discord_error ''approval send''
              (dl_message client (SendButtons channel (render_approval_request request) (approval_buttons request)))) (\<lambda>i.
       Inr (Some (show_nat i))))"

definition discord_edit_message :: "discord_client \<Rightarrow> rstr \<Rightarrow> rstr \<Rightarrow> rstr \<Rightarrow> unit res" where
  "discord_edit_message client channel_id message_id content =
     rbind (parse_channel_id channel_id) (\<lambda>channel.
     rbind (parse_message_id message_id) (\<lambda>message.
       discord_error ''edit'' (dl_unit client (EditMessage channel message content))))"

definition discord_delete_message :: "discord_client \<Rightarrow> rstr \<Rightarrow> rstr \<Rightarrow> unit res" where
  "discord_delete_message client channel_id message_id =
     rbind (parse_channel_id channel_id) (\<lambda>channel.
     rbind (parse_message_id message_id) (\<lambda>message.
       discord_error ''delete'' (dl_unit client (DeleteMessage channel message))))"

definition collect_bot_reaction_types :: "(bool \<times> reaction_type) list \<Rightarrow> reaction_type list" where
  "collect_bot_reaction_types reactions = map snd (filter fst reactions)"

text \<open>The result with the calls that were made; a failed removal of an old reaction is only logged.\<close>

definition discord_add_reaction :: "discord_client \<Rightarrow> rstr \<Rightarrow> rstr \<Rightarrow> rstr \<Rightarrow> discord_call list \<times> unit res" where
  "discord_add_reaction client channel_id message_id emoji =
     (case rbind (parse_channel_id channel_id) (\<lambda>channel. rbind (parse_message_id message_id) (\<lambda>message.
           rbind (parse_reaction_type emoji) (\<lambda>reaction. Inr (channel, message, reaction)))) of
        Inl e \<Rightarrow> ([], Inl e)
      | Inr (channel, message, reaction) \<Rightarrow>
          (case dl_reactions client (FetchMessage channel message) of
             Inl e \<Rightarrow> ([FetchMessage channel message], Inl (ToolError (''discord fetch message failed: '' @ e)))
           | Inr reactions \<Rightarrow>
               (case dl_unit client (CreateReaction channel message reaction) of
                  Inl e \<Rightarrow> ([FetchMessage channel message, CreateReaction channel message reaction],
                            Inl (ToolError (''discord add reaction failed: '' @ e)))
                | Inr _ \<Rightarrow>
                    ([FetchMessage channel message, CreateReaction channel message reaction] @
                     map (DeleteReaction channel message)
                       (filter (\<lambda>existing. existing \<noteq> reaction) (collect_bot_reaction_types reactions)), Inr ()))))"

definition discord_broadcast_typing :: "discord_client \<Rightarrow> rstr \<Rightarrow> unit res" where
  "discord_broadcast_typing client channel_id =
     rbind (parse_channel_id channel_id) (\<lambda>channel. discord_error ''typing'' (dl_unit client (BroadcastTyping channel)))"

text \<open>One turn of a listener on a queue; \<open>None\<close> once all senders are gone.\<close>

definition discord_listen :: "rstr \<Rightarrow> 'm option \<Rightarrow> 'm res" where
  "discord_listen what received = ok_or (ConfigError (''discord '' @ what @ '' channel closed'')) received"

definition discord_token :: "secret option \<Rightarrow> rstr res" where
  "discord_token token =
     (case Option.bind token exposed of
        Some t \<Rightarrow> if trim t \<noteq> [] then Inr t
                  else Inl (ConfigError ''missing Discord token: set gateway.channels.discord.token to a ${secret:<name>} reference'')
      | None \<Rightarrow> Inl (ConfigError ''missing Discord token: set gateway.channels.discord.token to a ${secret:<name>} reference''))"

section \<open>The default operations of a channel\<close>

definition default_send_message_with_id :: "(rstr \<Rightarrow> rstr \<Rightarrow> unit res) \<Rightarrow> rstr \<Rightarrow> rstr \<Rightarrow> rstr option res" where
  "default_send_message_with_id send channel_id content = rbind (send channel_id content) (\<lambda>_. Inr None)"

definition default_send_approval_request ::
  "(rstr \<Rightarrow> rstr \<Rightarrow> rstr option res) \<Rightarrow> rstr \<Rightarrow> pending_approval_request \<Rightarrow> rstr option res" where
  "default_send_approval_request send_with_id channel_id request = send_with_id channel_id (format_approval_request request)"

text \<open>What a channel can do: by default nothing, on Discord everything.\<close>

record channel_features =
  cf_editing :: bool
  cf_char_limit :: "nat option"
  cf_approval_resolution :: bool
  cf_commands :: bool

definition default_features :: channel_features where
  "default_features = \<lparr>cf_editing = False, cf_char_limit = None, cf_approval_resolution = False, cf_commands = False\<rparr>"

definition discord_features :: channel_features where
  "discord_features = \<lparr>cf_editing = True, cf_char_limit = Some 2000, cf_approval_resolution = True, cf_commands = True\<rparr>"

definition default_edit_message :: "unit res" where
  "default_edit_message = Inl (ToolError ''channel does not support editing messages'')"

definition default_delete_message :: "unit res" where
  "default_delete_message = Inl (ToolError ''channel does not support deleting messages'')"

section \<open>Ids and limits\<close>

lemma split_char_alone: "c \<notin> set s \<Longrightarrow> split_char c s = [s]"
  by (induction s) auto

lemma split_char_first: "c \<notin> set s \<Longrightarrow> split_char c (s @ c # t) = s # split_char c t"
  by (induction s) auto

lemma custom_id_roundtrip:
  assumes "CHR '':'' \<notin> set approval_id"
  shows "parse_approval_custom_id (approval_custom_id approval_id ''approve'') = Some (approval_id, Approved)"
    "parse_approval_custom_id (approval_custom_id approval_id ''deny'') = Some (approval_id, Denied)"
proof -
  have "split_char (CHR '':'') (approval_custom_id approval_id choice) = [''simpleclaw'', ''approval'', approval_id, choice]"
    if "CHR '':'' \<notin> set choice" for choice
  proof -
    have "approval_custom_id approval_id choice = ''simpleclaw'' @ CHR '':'' # (''approval'' @ CHR '':'' # (approval_id @ CHR '':'' # choice))"
      by (simp add: approval_custom_id_def)
    moreover have "CHR '':'' \<notin> set ''simpleclaw''" "CHR '':'' \<notin> set ''approval''" by code_simp+
    ultimately show ?thesis
      by (simp only: split_char_first[of "CHR '':''" "''simpleclaw''"] split_char_first[of "CHR '':''" "''approval''"]
          split_char_first[OF assms] split_char_alone[OF that] not_False_eq_True)
  qed
  then show "parse_approval_custom_id (approval_custom_id approval_id ''approve'') = Some (approval_id, Approved)"
    "parse_approval_custom_id (approval_custom_id approval_id ''deny'') = Some (approval_id, Denied)"
    by (simp_all add: parse_approval_custom_id_def)
qed

lemma approval_key_no_colon: "CHR '':'' \<notin> set (approval_key n)"
proof -
  have "\<not> is_ascii_digit (CHR '':'')" "CHR '':'' \<notin> set ''approval-''" by code_simp+
  then show ?thesis using show_nat_digits[of "CHR '':''" n] by (auto simp: approval_key_def)
qed

lemma take_chars_count: "char_count (take_chars n s) \<le> n"
proof -
  have "char_list (take n (chars s) @ drop n (chars s))" using char_list_chars[of s] by simp
  then have "chars (concat (take n (chars s))) = take n (chars s)" by (intro chars_concat) (rule char_list_prefix)
  then show ?thesis by (simp add: char_count_def take_chars_def)
qed

lemma truncated_fits: "char_count (truncate_discord_response message) \<le> discord_limit"
proof (cases "char_count message \<le> discord_limit")
  case False
  have "\<not> is_cont (hd ''...'')" by code_simp
  then have "chars (take_chars (discord_limit - 3) message @ ''...'') = chars (take_chars (discord_limit - 3) message) @ chars ''...''"
    by (intro chars_append) simp
  moreover have "length (chars ''...'') = 3" by code_simp
  ultimately show ?thesis using False take_chars_count[of "discord_limit - 3" message]
    by (simp add: truncate_discord_response_def char_count_def discord_limit_def)
qed (simp add: truncate_discord_response_def)

lemma chars_lower_bound: "length (filter (\<lambda>c. \<not> is_cont c) s) \<le> char_count s"
proof (induction s rule: chars.induct)
  case (2 c cs)
  have "filter (\<lambda>c. \<not> is_cont c) cs = filter (\<lambda>c. \<not> is_cont c) (takeWhile is_cont cs @ dropWhile is_cont cs)" by simp
  also have "... = filter (\<lambda>c. \<not> is_cont c) (dropWhile is_cont cs)"
    by (auto simp only: filter_append) (auto simp: filter_empty_conv dest: set_takeWhileD)
  finally show ?case using 2 by (simp add: char_count_def)
qed simp

text \<open>
  A message on Discord has at most 2000 characters, but the action shown in an approval request is
  the whole command: a long one cannot be sent, hence never be approved.
\<close>

lemma long_action_does_not_fit:
  assumes "discord_limit < length (filter (\<lambda>c. \<not> is_cont c) (pq_action_summary r))"
  shows "discord_limit < char_count (render_approval_request r)"
proof -
  have "length (filter (\<lambda>c. \<not> is_cont c) (pq_action_summary r)) \<le>
      length (filter (\<lambda>c. \<not> is_cont c) (render_approval_request r))"
    unfolding render_approval_request_def filter_append length_append by linarith
  then show ?thesis using assms chars_lower_bound[of "render_approval_request r"] by linarith
qed

section \<open>Properties\<close>

lemma button_decision:
  assumes "(custom_id, label) \<in> set (approval_buttons r)" "pq_approval_id r = approval_key n"
  shows "parse_approval_custom_id custom_id = Some (approval_key n, if label = ''Approve'' then Approved else Denied)"
  using assms custom_id_roundtrip[OF approval_key_no_colon[of n]] by (auto simp: approval_buttons_def)

text \<open>
  C34. The buttons under an approval request decide it, for its requester only: while a request is
  pending in the registry, a press of one of its buttons by the requesting user produces a
  resolution that the gateway's listener applies, and the waiting requester then gets the decision
  written on the button; a press by anybody else produces no resolution, only an answer that
  nobody but the presser sees.
\<close>

theorem approval_buttons_decide:
  assumes "ar_pending s (approval_key n) = Some \<lparr>pa_request = r, pa_response_tx = Some rx\<rparr>"
    and "rx < length (ar_channels s)" "pq_approval_id r = approval_key n"
    and "(custom_id, label) \<in> set (approval_buttons r)"
  shows "(pq_requesting_user_id r = show_nat actor \<longrightarrow>
      (\<exists>res shown. handle_approval_interaction True s custom_id actor = [SendResolution res, ReplaceMessage shown] \<and>
         snd (approval_listen_step (Inr res) s) = Resolved \<and>
         wait_outcome rx elapsed (fst (approval_listen_step (Inr res) s)) =
           Some (if label = ''Approve'' then Approved else Denied))) \<and>
    (pq_requesting_user_id r \<noteq> show_nat actor \<longrightarrow>
      (\<exists>m. handle_approval_interaction queue_open s custom_id actor = [Whisper m]))"
proof -
  note d = button_decision[OF assms(4,3)]
  have p: "pending_request (approval_key n) s = Some r" by (simp add: pending_request_def assms(1))
  show ?thesis using assms(1,2)
    by (simp add: handle_approval_interaction_def d p evaluate_approval_interaction_def approval_listen_step_def
        resolve_approval_def wait_outcome_def Let_def)
qed

definition sample_approval :: approval_request where
  "sample_approval = \<lparr>aq_agent_id = ''a'', aq_agent_name = ''A'', aq_session_id = ''s'', aq_requesting_user_id = ''7'',
     aq_tool_name = ''exec'', aq_execution_kind = ''preflight_escalation'', aq_capability = CapExec, aq_reason = ''r'',
     aq_action_summary = ''ls'', aq_diagnostic = ''d''\<rparr>"

theorem approval_buttons_decide_witness:
  "\<exists>res shown. handle_approval_interaction True (fst (register sample_approval registry_new)) ''simpleclaw:approval:approval-1:approve'' 7 =
     [SendResolution res, ReplaceMessage shown] \<and>
     wait_outcome 0 False (fst (approval_listen_step (Inr res) (fst (register sample_approval registry_new)))) = Some Approved"
proof -
  let ?s = "fst (register sample_approval registry_new)"
  let ?r = "fst (snd (register sample_approval registry_new))"
  have k: "approval_key (Suc 0) = ''approval-1''" by code_simp
  have p: "ar_pending ?s (approval_key 1) = Some \<lparr>pa_request = ?r, pa_response_tx = Some 0\<rparr>" "0 < length (ar_channels ?s)"
    "pq_approval_id ?r = approval_key 1" "pq_requesting_user_id ?r = ''7''"
    by (simp_all add: register_def registry_new_def Let_def drop_entry_def sample_approval_def)
  have b: "(''simpleclaw:approval:approval-1:approve'', ''Approve'') \<in> set (approval_buttons ?r)"
    by (simp add: approval_buttons_def approval_custom_id_def p(3) k)
  have u: "pq_requesting_user_id ?r = show_nat 7" unfolding p(4) by code_simp
  from approval_buttons_decide[OF p(1-3) b, THEN conjunct1, rule_format, OF u, of False] show ?thesis by auto
qed

end
