(* ===== verification/FileTools.thy ===== *)
theory FileTools
  imports EditTool Ordered "HOL-Library.Multiset"
begin

text \<open>
  The tools that look at files: \<open>read.rs\<close>, \<open>list.rs\<close>, \<open>grep.rs\<close> and \<open>glob.rs\<close> of
  \<open>src/tools/builtin/\<close>, and the programs that do the same in the WASM sandbox,
  \<open>sandbox/read_tool\<close>, \<open>list_tool\<close>, \<open>grep_tool\<close> and \<open>glob_tool\<close>. The files are a tree with the
  failures of the system calls in it; regular expressions, glob patterns and JSON are libraries.
\<close>

section \<open>Files\<close>

text \<open>
  What is found at a path: a file with its bytes, unless reading fails, a directory with its
  entries in the order of the system, unless it cannot be opened, or something else, such as a
  symbolic link met on a walk. Reading an entry can fail, and so can asking for its type; its time
  of modification is the epoch, 0, when unknown.
\<close>

datatype node =
    FileNode "rstr + rstr"
  | DirNode "rstr option" "entry list"
  | OtherNode rstr
and entry =
    EntryError rstr
  | Entry rstr "rstr option" int node

text \<open>The error of opening a path where nothing is, and the node there otherwise.\<close>

type_synonym file_world = "path \<Rightarrow> rstr + node"

definition is_dir :: "file_world \<Rightarrow> path \<Rightarrow> bool" where
  "is_dir fs p = (case fs p of Inr (DirNode _ _) \<Rightarrow> True | _ \<Rightarrow> False)"

definition not_utf8 :: rstr where
  "not_utf8 = ''stream did not contain valid UTF-8''"

definition node_text :: "node \<Rightarrow> rstr + rstr" where
  "node_text n =
     (case n of
        FileNode (Inr content) \<Rightarrow> if valid_utf8 content then Inr content else Inl not_utf8
      | FileNode (Inl e) \<Rightarrow> Inl e
      | DirNode _ _ \<Rightarrow> Inl ''Is a directory (os error 21)''
      | OtherNode e \<Rightarrow> Inl e)"

definition file_text :: "file_world \<Rightarrow> path \<Rightarrow> rstr + rstr" where
  "file_text fs p = (case fs p of Inl e \<Rightarrow> Inl e | Inr n \<Rightarrow> node_text n)"

definition open_dir :: "file_world \<Rightarrow> path \<Rightarrow> rstr + entry list" where
  "open_dir fs p =
     (case fs p of
        Inl e \<Rightarrow> Inl e
      | Inr (DirNode None entries) \<Rightarrow> Inr entries
      | Inr (DirNode (Some e) _) \<Rightarrow> Inl e
      | Inr _ \<Rightarrow> Inl ''Not a directory (os error 20)'')"

text \<open>What a guest sees: the host's files behind its mounts.\<close>

definition guest_world :: "(path \<Rightarrow> path) \<Rightarrow> file_world \<Rightarrow> file_world" where
  "guest_world host fs = (\<lambda>p. fs (host p))"

section \<open>Runs of a guest\<close>

text \<open>A request, with the arguments before their encoding, and its result.\<close>

record 'a run_wasm_request =
  rq_preopened_dirs :: "(path \<times> rstr) list"
  rq_artifact_name :: rstr
  rq_stdin :: 'a
  rq_timeout :: nat

record wasm_run_result =
  wr_stdout :: rstr
  wr_stderr :: rstr
  wr_exit_code :: int

text \<open>The end of a guest's \<open>main\<close>: a message on standard error and exit code 1, or what was printed.\<close>

definition guest_main :: "rstr + rstr \<Rightarrow> wasm_run_result" where
  "guest_main r =
     (case r of
        Inl message \<Rightarrow> \<lparr>wr_stdout = [], wr_stderr = message @ [NL], wr_exit_code = 1\<rparr>
      | Inr printed \<Rightarrow> \<lparr>wr_stdout = printed, wr_stderr = [], wr_exit_code = 0\<rparr>)"

definition tool_res :: "rstr + 'a \<Rightarrow> 'a res" where
  "tool_res r = (case r of Inl m \<Rightarrow> Inl (ToolError m) | Inr v \<Rightarrow> Inr v)"

definition run_file_guest ::
  "rstr \<Rightarrow> rstr \<Rightarrow> nat \<Rightarrow> file_tool_route \<Rightarrow> (rstr \<Rightarrow> 'a) \<Rightarrow> ('a run_wasm_request \<Rightarrow> wasm_run_result res) \<Rightarrow> rstr res" where
  "run_file_guest tool artifact timeout route arguments runtime =
     (case route of
        FileNeedsApproval _ _ _ \<Rightarrow> Inl (ToolError (tool @ '' plan is not sandbox-runnable''))
      | FileSandboxed guest_path preopened \<Rightarrow>
          rbind (runtime \<lparr>rq_preopened_dirs = preopened, rq_artifact_name = artifact,
                          rq_stdin = arguments guest_path, rq_timeout = timeout\<rparr>) (\<lambda>result.
            if wr_exit_code result \<noteq> 0
            then Inl (classify_wasm_tool_error tool guest_path CapRead (wr_exit_code result) (trim (wr_stderr result)))
            else Inr (wr_stdout result)))"

definition timeout_or :: "nat \<Rightarrow> sandboxed_config \<Rightarrow> nat" where
  "timeout_or d config = (case tc_timeout_seconds config of Some t \<Rightarrow> t | None \<Rightarrow> d)"

section \<open>Reading\<close>

definition default_read_limit :: nat where "default_read_limit = 2000"
definition max_line_length :: nat where "max_line_length = 2000"

definition shown_line :: "rstr \<Rightarrow> rstr" where
  "shown_line line =
     (if char_count line > max_line_length then take_chars max_line_length line @ ''...'' else line)"

record read_args =
  ra_file_path :: rstr
  ra_offset :: "nat option"
  ra_limit :: "nat option"

record read_plan =
  rp_host_path :: path
  rp_route :: file_tool_route
  rp_offset :: nat
  rp_limit :: nat

definition read_plan_of :: "tool_paths \<Rightarrow> sandboxed_config \<Rightarrow> rstr + read_args \<Rightarrow> read_plan res" where
  "read_plan_of paths config parsed =
     (case parsed of
        Inl e \<Rightarrow> Inl (ToolError (''read requires JSON object args: '' @ e))
      | Inr args \<Rightarrow>
          (let file_path = trim (ra_file_path args);
               offset = (case ra_offset args of Some n \<Rightarrow> n | None \<Rightarrow> 1);
               limit = (case ra_limit args of Some n \<Rightarrow> n | None \<Rightarrow> default_read_limit)
           in if file_path = [] then Inl (ToolError ''read requires a non-empty filePath'')
              else if offset = 0 then Inl (ToolError ''read offset must be greater than or equal to 1'')
              else if limit = 0 then Inl (ToolError ''read limit must be greater than or equal to 1'')
              else rbind (resolve_path_for_read (tp_env paths) file_path (tp_workspace paths)) (\<lambda>host_path.
                rbind (classify_file_tool_access (tp_cwd paths) host_path (tp_workspace paths) (tp_persona paths)
                         (tc_sandbox config) CapRead) (\<lambda>route.
                  Inr \<lparr>rp_host_path = host_path, rp_route = route, rp_offset = offset, rp_limit = limit\<rparr>))))"

text \<open>The numbered lines that are shown, and the number of the last one.\<close>

definition selected_lines :: "rstr list \<Rightarrow> nat \<Rightarrow> nat \<Rightarrow> rstr list" where
  "selected_lines lines offset limit =
     map (\<lambda>(idx, line). show_nat (idx + offset) @ '': '' @ shown_line line)
       (enumerate 0 (take limit (drop (offset - 1) lines)))"

definition last_read_line :: "nat \<Rightarrow> rstr list \<Rightarrow> nat" where
  "last_read_line offset selected = (if selected = [] then offset - 1 else offset + length selected - 1)"

definition path_line :: "path \<Rightarrow> rstr" where
  "path_line p = ''<path>'' @ path_text p @ ''</path>''"

definition numbered_output :: "path \<Rightarrow> rstr list \<Rightarrow> nat \<Rightarrow> nat \<Rightarrow> rstr" where
  "numbered_output p lines offset limit =
     (let selected = selected_lines lines offset limit; total_lines = length lines;
          last_line = last_read_line offset selected
      in join [NL] ([path_line p, ''<type>file</type>'', ''<content>''] @ selected @
           (if last_line < total_lines
            then [[], ''(Showing lines '' @ show_nat offset @ ''-'' @ show_nat last_line @ '' of '' @
                      show_nat total_lines @ ''. Use offset='' @ show_nat (last_line + 1) @ '' to continue.)'']
            else [[], ''(End of file - total '' @ show_nat total_lines @ '' lines)'']) @ [''</content>'']))"

definition render_file_output :: "file_world \<Rightarrow> path \<Rightarrow> nat \<Rightarrow> nat \<Rightarrow> rstr res" where
  "render_file_output fs p offset limit =
     (case file_text fs p of
        Inl e \<Rightarrow> Inl (IoError e)
      | Inr content \<Rightarrow>
          (let lines = str_lines content; total_lines = length lines
           in if total_lines = 0 \<and> offset \<noteq> 1
              then Inl (ToolError (''Offset '' @ show_nat offset @ '' is out of range for this file (0 lines)''))
              else if total_lines \<noteq> 0 \<and> offset > total_lines
              then Inl (ToolError (''Offset '' @ show_nat offset @ '' is out of range for this file ('' @
                          show_nat total_lines @ '' lines)''))
              else Inr (numbered_output p lines offset limit)))"

text \<open>The names of a directory, with a slash behind the name of a directory.\<close>

definition entry_name :: "entry \<Rightarrow> rstr res" where
  "entry_name e =
     (case e of
        EntryError m \<Rightarrow> Inl (IoError m)
      | Entry name type_error _ n \<Rightarrow>
          (if \<not> valid_utf8 name then Inl (ToolError ''directory entry is not utf-8'')
           else (case type_error of
                   Some m \<Rightarrow> Inl (IoError m)
                 | None \<Rightarrow> Inr (name @ (case n of DirNode _ _ \<Rightarrow> ''/'' | _ \<Rightarrow> [])))))"

fun byte_insert :: "rstr \<Rightarrow> rstr list \<Rightarrow> rstr list" where
  "byte_insert x [] = [x]"
| "byte_insert x (y # ys) = (if byte_le x y then x # y # ys else y # byte_insert x ys)"

definition byte_sort :: "rstr list \<Rightarrow> rstr list" where
  "byte_sort xs = foldr byte_insert xs []"

definition directory_lines :: "path \<Rightarrow> rstr list \<Rightarrow> nat \<Rightarrow> nat \<Rightarrow> rstr" where
  "directory_lines p entries offset limit =
     (let start = offset - 1; selected = take limit (drop start entries)
      in join [NL] [path_line p, ''<type>directory</type>'', ''<entries>'', join [NL] selected,
           (if start + length selected < length entries
            then [NL] @ ''(Showing '' @ show_nat (length selected) @ '' of '' @ show_nat (length entries) @
                 '' entries. Use offset='' @ show_nat (offset + length selected) @ '' to continue.)''
            else [NL] @ ''('' @ show_nat (length entries) @ '' entries)''), ''</entries>''])"

definition render_directory_output :: "file_world \<Rightarrow> path \<Rightarrow> nat \<Rightarrow> nat \<Rightarrow> rstr res" where
  "render_directory_output fs p offset limit =
     (case open_dir fs p of
        Inl e \<Rightarrow> Inl (IoError e)
      | Inr entries \<Rightarrow>
          rbind (rtraverse entry_name entries) (\<lambda>names.
            if offset = 0 then Inl (ToolError ''read offset must be greater than or equal to 1'')
            else Inr (directory_lines p (byte_sort names) offset limit)))"

definition read_direct :: "file_world \<Rightarrow> read_plan \<Rightarrow> rstr res" where
  "read_direct fs plan =
     (if is_dir fs (rp_host_path plan)
      then render_directory_output fs (rp_host_path plan) (rp_offset plan) (rp_limit plan)
      else render_file_output fs (rp_host_path plan) (rp_offset plan) (rp_limit plan))"

definition read_wasm :: "sandboxed_config \<Rightarrow> (read_args run_wasm_request \<Rightarrow> wasm_run_result res) \<Rightarrow> read_plan \<Rightarrow> rstr res" where
  "read_wasm config runtime plan =
     run_file_guest ''read'' ''read_tool.wasm'' (timeout_or 10 config) (rp_route plan)
       (\<lambda>g. \<lparr>ra_file_path = g, ra_offset = Some (rp_offset plan), ra_limit = Some (rp_limit plan)\<rparr>) runtime"

text \<open>The guest.\<close>

definition guest_render_file_output :: "file_world \<Rightarrow> path \<Rightarrow> nat \<Rightarrow> nat \<Rightarrow> rstr + rstr" where
  "guest_render_file_output fs p offset limit =
     (case file_text fs p of
        Inl e \<Rightarrow> Inl (''failed to read '' @ path_text p @ '': '' @ e)
      | Inr content \<Rightarrow>
          (let lines = str_lines content; total_lines = length lines
           in if total_lines = 0 \<and> offset \<noteq> 1
              then Inl (''Offset '' @ show_nat offset @ '' is out of range for this file (0 lines)'')
              else if total_lines \<noteq> 0 \<and> offset > total_lines
              then Inl (''Offset '' @ show_nat offset @ '' is out of range for this file ('' @ show_nat total_lines @ '' lines)'')
              else Inr (numbered_output p lines offset limit)))"

definition guest_entry_name :: "entry \<Rightarrow> rstr + rstr" where
  "guest_entry_name e =
     (case e of
        EntryError m \<Rightarrow> Inl m
      | Entry name type_error _ n \<Rightarrow>
          (if \<not> valid_utf8 name then Inl ''directory entry is not utf-8''
           else (case type_error of
                   Some m \<Rightarrow> Inl m
                 | None \<Rightarrow> Inr (name @ (case n of DirNode _ _ \<Rightarrow> ''/'' | _ \<Rightarrow> [])))))"

fun collect_names :: "entry list \<Rightarrow> rstr + rstr list" where
  "collect_names [] = Inr []"
| "collect_names (e # es) =
     (case guest_entry_name e of
        Inl m \<Rightarrow> Inl m
      | Inr name \<Rightarrow> (case collect_names es of Inl m \<Rightarrow> Inl m | Inr names \<Rightarrow> Inr (name # names)))"

definition guest_render_directory_output :: "file_world \<Rightarrow> path \<Rightarrow> nat \<Rightarrow> nat \<Rightarrow> rstr + rstr" where
  "guest_render_directory_output fs p offset limit =
     (case open_dir fs p of
        Inl e \<Rightarrow> Inl (''failed to list '' @ path_text p @ '': '' @ e)
      | Inr entries \<Rightarrow>
          (case collect_names entries of
             Inl m \<Rightarrow> Inl m
           | Inr names \<Rightarrow> Inr (directory_lines p (byte_sort names) offset limit)))"

definition guest_read :: "file_world \<Rightarrow> read_args \<Rightarrow> rstr + rstr" where
  "guest_read fs args =
     (case resolve_guest_path (ra_file_path args) of
        Inl m \<Rightarrow> Inl m
      | Inr p \<Rightarrow>
          (let offset = (case ra_offset args of Some n \<Rightarrow> n | None \<Rightarrow> 1);
               limit = (case ra_limit args of Some n \<Rightarrow> n | None \<Rightarrow> default_read_limit)
           in if offset = 0 then Inl ''read offset must be greater than or equal to 1''
              else if limit = 0 then Inl ''read limit must be greater than or equal to 1''
              else if is_dir fs p then guest_render_directory_output fs p offset limit
              else guest_render_file_output fs p offset limit))"

section \<open>Walks\<close>

text \<open>
  The loop over a stack of directories that three of the tools share: the top of the stack is
  opened, its entries are visited in order, and those to be entered are pushed. A visit fails with
  a message, or says whether to push the entry.
\<close>

fun visit_entries ::
  "(path \<Rightarrow> entry \<Rightarrow> 's \<Rightarrow> rstr + bool \<times> 's) \<Rightarrow> path \<Rightarrow> entry list \<Rightarrow> (path \<times> node) list \<Rightarrow> 's \<Rightarrow>
   rstr + (path \<times> node) list \<times> 's" where
  "visit_entries visit dir [] stack s = Inr (stack, s)"
| "visit_entries visit dir (e # es) stack s =
     (case visit dir e s of
        Inl m \<Rightarrow> Inl m
      | Inr (enter, s) \<Rightarrow>
          visit_entries visit dir es
            (case e of Entry name _ _ n \<Rightarrow> if enter then (dir @ [Normal name], n) # stack else stack | EntryError _ \<Rightarrow> stack) s)"

definition stack_size :: "(path \<times> node) list \<Rightarrow> nat" where
  "stack_size stack = sum_list (map (\<lambda>(_, n). size n) stack)"

lemma visit_entries_size:
  "visit_entries visit dir es stack s = Inr (stack', s') \<Longrightarrow> stack_size stack' \<le> stack_size stack + size_list size es"
proof (induction visit dir es stack s rule: visit_entries.induct)
  case (2 visit dir e es stack s)
  then show ?case
    by (cases e) (fastforce simp: stack_size_def split: sum.splits prod.splits if_splits)+
qed simp

function walk ::
  "(path \<Rightarrow> rstr \<Rightarrow> rstr) \<Rightarrow> (path \<Rightarrow> entry \<Rightarrow> 's \<Rightarrow> rstr + bool \<times> 's) \<Rightarrow> (path \<times> node) list \<Rightarrow> 's \<Rightarrow> rstr + 's" where
  "walk failed visit [] s = Inr s"
| "walk failed visit ((dir, n) # stack) s =
     (case open_dir (\<lambda>_. Inr n) dir of
        Inl e \<Rightarrow> Inl (failed dir e)
      | Inr entries \<Rightarrow>
          (case visit_entries visit dir entries stack s of
             Inl m \<Rightarrow> Inl m
           | Inr (stack', s') \<Rightarrow> walk failed visit stack' s'))"
  by pat_completeness auto
termination
proof (relation "measure (\<lambda>(failed, visit, stack, s). stack_size stack)", goal_cases)
  case (2 failed visit dir n stack s entries x stack' s')
  have "size_list size entries < size n"
    using 2(1) by (cases n) (auto simp: open_dir_def split: option.splits)
  moreover have "stack_size stack' \<le> stack_size stack + size_list size entries"
    using visit_entries_size 2(2,3) by metis
  ultimately show ?case by (simp add: stack_size_def)
qed simp

text \<open>A walk starts with a path, whatever is there.\<close>

definition walk_from ::
  "(path \<Rightarrow> rstr \<Rightarrow> rstr) \<Rightarrow> (path \<Rightarrow> entry \<Rightarrow> 's \<Rightarrow> rstr + bool \<times> 's) \<Rightarrow> file_world \<Rightarrow> path \<Rightarrow> 's \<Rightarrow> rstr + 's" where
  "walk_from failed visit fs root s = (case fs root of Inl e \<Rightarrow> Inl (failed root e) | Inr n \<Rightarrow> walk failed visit [(root, n)] s)"

section \<open>Searching file contents\<close>

text \<open>The libraries: a compiled expression tests a line, a compiled pattern a relative path.\<close>

record search_libraries =
  sl_regex :: "rstr \<Rightarrow> rstr + (rstr \<Rightarrow> bool)"
  sl_pattern :: "rstr \<Rightarrow> rstr + (path \<Rightarrow> bool)"

definition search_limit :: nat where "search_limit = 100"

record grep_args =
  ga_pattern :: rstr
  ga_path :: "rstr option"
  ga_include :: "rstr option"

record grep_plan =
  gp_pattern :: rstr
  gp_include :: "rstr option"
  gp_host_path :: path
  gp_route :: file_tool_route

record grep_match =
  gm_path :: path
  gm_line_number :: nat
  gm_line_text :: rstr
  gm_modified :: int

definition search_root :: "rstr \<Rightarrow> tool_paths \<Rightarrow> sandboxed_config \<Rightarrow> file_world \<Rightarrow> rstr option \<Rightarrow> (path \<times> file_tool_route) res" where
  "search_root tool paths config fs raw =
     rbind (resolve_path_for_read (tp_env paths) (case raw of Some p \<Rightarrow> p | None \<Rightarrow> ''.'') (tp_workspace paths)) (\<lambda>host_path.
       if \<not> is_dir fs host_path then Inl (ToolError (tool @ '' path must be a directory: '' @ path_text host_path))
       else rbind (classify_file_tool_access (tp_cwd paths) host_path (tp_workspace paths) (tp_persona paths)
                     (tc_sandbox config) CapRead) (\<lambda>route. Inr (host_path, route)))"

definition grep_plan_of :: "tool_paths \<Rightarrow> sandboxed_config \<Rightarrow> file_world \<Rightarrow> rstr + grep_args \<Rightarrow> grep_plan res" where
  "grep_plan_of paths config fs parsed =
     (case parsed of
        Inl e \<Rightarrow> Inl (ToolError (''grep requires JSON object args: '' @ e))
      | Inr args \<Rightarrow>
          (let pattern = trim (ga_pattern args)
           in if pattern = [] then Inl (ToolError ''grep requires a non-empty pattern'')
              else rbind (search_root ''grep'' paths config fs (ga_path args)) (\<lambda>(host_path, route).
                Inr \<lparr>gp_pattern = pattern, gp_include = ga_include args, gp_host_path = host_path, gp_route = route\<rparr>)))"

text \<open>A file that a walk found: its path, when it was modified, and the file.\<close>

type_synonym found_file = "path \<times> int \<times> node"

definition collect_visit :: "path \<Rightarrow> entry \<Rightarrow> found_file list \<Rightarrow> rstr + bool \<times> found_file list" where
  "collect_visit dir e files =
     (case e of
        EntryError m \<Rightarrow> Inl (''grep failed to walk directory: '' @ m)
      | Entry name type_error modified n \<Rightarrow>
          (let p = dir @ [Normal name]
           in case type_error of
                Some m \<Rightarrow> Inl (''grep failed to inspect '' @ path_text p @ '': '' @ m)
              | None \<Rightarrow> (case n of
                            DirNode _ _ \<Rightarrow> Inr (True, files)
                          | FileNode _ \<Rightarrow> Inr (False, files @ [(p, modified, n)])
                          | OtherNode _ \<Rightarrow> Inr (False, files))))"

definition collect_files :: "file_world \<Rightarrow> path \<Rightarrow> rstr + found_file list" where
  "collect_files fs root =
     walk_from (\<lambda>dir e. ''grep failed to read '' @ path_text dir @ '': '' @ e) collect_visit fs root []"

definition file_matches :: "(rstr \<Rightarrow> bool) \<Rightarrow> (path \<Rightarrow> bool) option \<Rightarrow> path \<Rightarrow> found_file \<Rightarrow> grep_match list" where
  "file_matches regex included root f =
     (case f of (p, modified, n) \<Rightarrow>
        if (case included of Some matches \<Rightarrow> \<not> matches (drop (length root) p) | None \<Rightarrow> False) then []
        else (case node_text n of
                Inl _ \<Rightarrow> []
              | Inr content \<Rightarrow>
                  map (\<lambda>(idx, line). \<lparr>gm_path = p, gm_line_number = idx + 1, gm_line_text = shown_line line,
                                      gm_modified = modified\<rparr>)
                    (filter (\<lambda>(idx, line). regex line) (enumerate 0 (str_lines content)))))"

fun render_matches :: "path option \<Rightarrow> grep_match list \<Rightarrow> rstr list" where
  "render_matches current [] = []"
| "render_matches current (m # ms) =
     (if current \<noteq> Some (gm_path m) then (if current \<noteq> None then [[]] else []) @ [path_text (gm_path m) @ '':''] else []) @
     [''  Line '' @ show_nat (gm_line_number m) @ '': '' @ gm_line_text m] @ render_matches (Some (gm_path m)) ms"

text \<open>The report on the matches, the most recently modified files first; the sort is stable.\<close>

definition grep_report :: "grep_match list \<Rightarrow> rstr" where
  "grep_report matches =
     (if matches = [] then ''No files found''
      else (let matches = sort_key (\<lambda>m. - gm_modified m) matches; total = length matches
            in join [NL] ((''Found '' @ show_nat total @ '' matches'' @
                           (if total > search_limit then '' (showing first '' @ show_nat search_limit @ '')'' else [])) #
                 render_matches None (take search_limit matches))))"

definition grep_matches ::
  "search_libraries \<Rightarrow> file_world \<Rightarrow> rstr \<Rightarrow> path \<Rightarrow> rstr option \<Rightarrow> rstr + grep_match list" where
  "grep_matches lib fs pattern root included =
     (case sl_regex lib pattern of
        Inl e \<Rightarrow> Inl (''grep pattern is invalid regex: '' @ e)
      | Inr regex \<Rightarrow>
          (case (case included of None \<Rightarrow> Inr None
                 | Some p \<Rightarrow> (case sl_pattern lib p of Inl e \<Rightarrow> Inl e | Inr m \<Rightarrow> Inr (Some m))) of
             Inl e \<Rightarrow> Inl (''grep include pattern is invalid: '' @ e)
           | Inr included \<Rightarrow>
               (case collect_files fs root of
                  Inl m \<Rightarrow> Inl m
                | Inr files \<Rightarrow> Inr (concat (map (file_matches regex included root) files)))))"

definition run_grep :: "search_libraries \<Rightarrow> file_world \<Rightarrow> rstr \<Rightarrow> path \<Rightarrow> rstr option \<Rightarrow> rstr res" where
  "run_grep lib fs pattern root included =
     (case grep_matches lib fs pattern root included of
        Inl m \<Rightarrow> Inl (ToolError m)
      | Inr matches \<Rightarrow> Inr (grep_report matches))"

definition grep_direct :: "search_libraries \<Rightarrow> file_world \<Rightarrow> grep_plan \<Rightarrow> rstr res" where
  "grep_direct lib fs plan = run_grep lib fs (gp_pattern plan) (gp_host_path plan) (gp_include plan)"

definition grep_wasm :: "sandboxed_config \<Rightarrow> (grep_args run_wasm_request \<Rightarrow> wasm_run_result res) \<Rightarrow> grep_plan \<Rightarrow> rstr res" where
  "grep_wasm config runtime plan =
     run_file_guest ''grep'' ''grep_tool.wasm'' (timeout_or 20 config) (gp_route plan)
       (\<lambda>g. \<lparr>ga_pattern = gp_pattern plan, ga_path = Some g, ga_include = gp_include plan\<rparr>) runtime"

text \<open>The guest, whose path is never missing.\<close>

definition guest_grep :: "search_libraries \<Rightarrow> file_world \<Rightarrow> grep_args \<Rightarrow> rstr + rstr" where
  "guest_grep lib fs args =
     (if trim (ga_pattern args) = [] then Inl ''grep requires a non-empty pattern''
      else (case resolve_guest_path (case ga_path args of Some p \<Rightarrow> p | None \<Rightarrow> []) of
              Inl m \<Rightarrow> Inl m
            | Inr root \<Rightarrow>
                (if \<not> is_dir fs root then Inl (''grep path must be a directory: '' @ path_text root)
                 else (case grep_matches lib fs (trim (ga_pattern args)) root (ga_include args) of
                         Inl m \<Rightarrow> Inl m
                       | Inr matches \<Rightarrow> Inr (grep_report matches)))))"

section \<open>Finding files\<close>

record glob_args =
  ba_pattern :: rstr
  ba_path :: "rstr option"

record glob_plan =
  bp_pattern :: rstr
  bp_host_path :: path
  bp_route :: file_tool_route

definition glob_plan_of :: "tool_paths \<Rightarrow> sandboxed_config \<Rightarrow> file_world \<Rightarrow> rstr + glob_args \<Rightarrow> glob_plan res" where
  "glob_plan_of paths config fs parsed =
     (case parsed of
        Inl e \<Rightarrow> Inl (ToolError (''glob requires JSON object args: '' @ e))
      | Inr args \<Rightarrow>
          (let pattern = trim (ba_pattern args)
           in if pattern = [] then Inl (ToolError ''glob requires a non-empty pattern'')
              else rbind (search_root ''glob'' paths config fs (ba_path args)) (\<lambda>(host_path, route).
                Inr \<lparr>bp_pattern = pattern, bp_host_path = host_path, bp_route = route\<rparr>)))"

definition glob_visit :: "(path \<Rightarrow> bool) \<Rightarrow> path \<Rightarrow> path \<Rightarrow> entry \<Rightarrow> (path \<times> int) list \<Rightarrow> rstr + bool \<times> (path \<times> int) list" where
  "glob_visit matches root dir e found =
     (case e of
        EntryError m \<Rightarrow> Inl (''glob failed to walk directory: '' @ m)
      | Entry name type_error modified n \<Rightarrow>
          (let p = dir @ [Normal name]
           in case type_error of
                Some m \<Rightarrow> Inl (''glob failed to inspect '' @ path_text p @ '': '' @ m)
              | None \<Rightarrow> Inr (case n of DirNode _ _ \<Rightarrow> True | _ \<Rightarrow> False,
                             if matches (drop (length root) p) then found @ [(p, modified)] else found)))"

definition glob_found :: "search_libraries \<Rightarrow> file_world \<Rightarrow> rstr \<Rightarrow> path \<Rightarrow> rstr + (path \<times> int) list" where
  "glob_found lib fs pattern root =
     (case sl_pattern lib pattern of
        Inl e \<Rightarrow> Inl (''glob pattern is invalid: '' @ e)
      | Inr matches \<Rightarrow>
          walk_from (\<lambda>dir e. ''glob failed to read '' @ path_text dir @ '': '' @ e) (glob_visit matches root) fs root [])"

definition glob_report :: "(path \<times> int) list \<Rightarrow> rstr" where
  "glob_report found =
     (let found = sort_key (\<lambda>f. - snd f) found
      in if found = [] then ''No files found'' else join [NL] (map (path_text \<circ> fst) (take search_limit found)))"

definition run_glob :: "search_libraries \<Rightarrow> file_world \<Rightarrow> rstr \<Rightarrow> path \<Rightarrow> rstr res" where
  "run_glob lib fs pattern root =
     (case glob_found lib fs pattern root of Inl m \<Rightarrow> Inl (ToolError m) | Inr found \<Rightarrow> Inr (glob_report found))"

definition glob_direct :: "search_libraries \<Rightarrow> file_world \<Rightarrow> glob_plan \<Rightarrow> rstr res" where
  "glob_direct lib fs plan = run_glob lib fs (bp_pattern plan) (bp_host_path plan)"

definition glob_wasm :: "sandboxed_config \<Rightarrow> (glob_args run_wasm_request \<Rightarrow> wasm_run_result res) \<Rightarrow> glob_plan \<Rightarrow> rstr res" where
  "glob_wasm config runtime plan =
     run_file_guest ''glob'' ''glob_tool.wasm'' (timeout_or 15 config) (bp_route plan)
       (\<lambda>g. \<lparr>ba_pattern = bp_pattern plan, ba_path = Some g\<rparr>) runtime"

definition guest_glob :: "search_libraries \<Rightarrow> file_world \<Rightarrow> glob_args \<Rightarrow> rstr + rstr" where
  "guest_glob lib fs args =
     (if trim (ba_pattern args) = [] then Inl ''glob requires a non-empty pattern''
      else (case resolve_guest_path (case ba_path args of Some p \<Rightarrow> p | None \<Rightarrow> []) of
              Inl m \<Rightarrow> Inl m
            | Inr root \<Rightarrow>
                (if \<not> is_dir fs root then Inl (''glob path must be a directory: '' @ path_text root)
                 else (case glob_found lib fs (trim (ba_pattern args)) root of
                         Inl m \<Rightarrow> Inl m
                       | Inr found \<Rightarrow> Inr (glob_report found)))))"

section \<open>Listing\<close>

text \<open>The order of paths, component by component.\<close>

fun component_rank :: "component \<Rightarrow> nat" where
  "component_rank RootDir = 0"
| "component_rank CurDir = 1"
| "component_rank ParentDir = 2"
| "component_rank (Normal _) = 3"

definition component_less :: "component \<Rightarrow> component \<Rightarrow> bool" where
  "component_less a b =
     (case (a, b) of
        (Normal x, Normal y) \<Rightarrow> byte_less x y
      | _ \<Rightarrow> component_rank a < component_rank b)"

fun path_less :: "path \<Rightarrow> path \<Rightarrow> bool" where
  "path_less [] q = (q \<noteq> [])"
| "path_less (a # p) [] = False"
| "path_less (a # p) (b # q) = (component_less a b \<or> (a = b \<and> path_less p q))"

text \<open>A \<open>BTreeSet\<close> of paths: a sorted list without repetition.\<close>

fun path_insert :: "path \<Rightarrow> path list \<Rightarrow> path list" where
  "path_insert p [] = [p]"
| "path_insert p (q # qs) = (if p = q then q # qs else if path_less p q then p # q # qs else q # path_insert p qs)"

definition path_parent :: "path \<Rightarrow> path option" where
  "path_parent p = (if p = [] \<or> last p = RootDir then None else Some (butlast p))"

definition list_limit :: nat where "list_limit = 100"

definition ignore_patterns :: "rstr list" where
  "ignore_patterns =
     [''node_modules/**'', ''__pycache__/**'', ''.git/**'', ''dist/**'', ''build/**'', ''target/**'', ''vendor/**'',
      ''bin/**'', ''obj/**'', ''.idea/**'', ''.vscode/**'', ''.cache/**'', ''cache/**'', ''logs/**'', ''.venv/**'',
      ''venv/**'', ''env/**'']"

record list_args =
  la_path :: "rstr option"
  la_ignore :: "rstr list option"

record list_plan =
  lp_host_path :: path
  lp_route :: file_tool_route
  lp_ignore :: "rstr list"

text \<open>Blank arguments stand for no arguments.\<close>

definition list_plan_of ::
  "tool_paths \<Rightarrow> sandboxed_config \<Rightarrow> file_world \<Rightarrow> (rstr \<Rightarrow> rstr + list_args) \<Rightarrow> rstr \<Rightarrow> list_plan res" where
  "list_plan_of paths config fs parse args_json =
     (case (if trim args_json = [] then Inr \<lparr>la_path = None, la_ignore = None\<rparr> else parse args_json) of
        Inl e \<Rightarrow> Inl (ToolError (''list requires JSON object args: '' @ e))
      | Inr args \<Rightarrow>
          rbind (search_root ''list'' paths config fs (la_path args)) (\<lambda>(host_path, route).
            Inr \<lparr>lp_host_path = host_path, lp_route = route,
                 lp_ignore = (case la_ignore args of Some i \<Rightarrow> i | None \<Rightarrow> [])\<rparr>))"

fun compile_builtin :: "search_libraries \<Rightarrow> rstr list \<Rightarrow> rstr + (path \<Rightarrow> bool) list" where
  "compile_builtin lib [] = Inr []"
| "compile_builtin lib (p # ps) =
     (case sl_pattern lib p of
        Inl e \<Rightarrow> Inl (''invalid built-in ignore pattern: '' @ e)
      | Inr m \<Rightarrow> (case compile_builtin lib ps of Inl e \<Rightarrow> Inl e | Inr ms \<Rightarrow> Inr (m # ms)))"

fun compile_ignore :: "search_libraries \<Rightarrow> rstr list \<Rightarrow> rstr + (path \<Rightarrow> bool) list" where
  "compile_ignore lib [] = Inr []"
| "compile_ignore lib (p # ps) =
     (case sl_pattern lib p of
        Inl e \<Rightarrow> Inl (''invalid ignore pattern '' @ [CHR 0x27] @ p @ [CHR 0x27] @ '': '' @ e)
      | Inr m \<Rightarrow> (case compile_ignore lib ps of Inl e \<Rightarrow> Inl e | Inr ms \<Rightarrow> Inr (m # ms)))"

definition is_ignored :: "path \<Rightarrow> (path \<Rightarrow> bool) list \<Rightarrow> bool" where
  "is_ignored p patterns = (\<exists>m\<in>set patterns. m p)"

text \<open>What a walk gathers: the directories, the names of the files by directory, how many files.\<close>

record listing =
  li_dirs :: "path list"
  li_files :: "path \<Rightarrow> rstr list option"
  li_seen :: nat

definition empty_listing :: listing where
  "empty_listing = \<lparr>li_dirs = [[CurDir]], li_files = (\<lambda>_. None), li_seen = 0\<rparr>"

text \<open>The parents of a path, from the longest to the empty one, which is entered as a dot.\<close>

function insert_parents :: "path \<Rightarrow> path list \<Rightarrow> path list" where
  "insert_parents p dirs =
     (case path_parent p of
        None \<Rightarrow> dirs
      | Some q \<Rightarrow> insert_parents q (path_insert (if q = [] then [CurDir] else q) dirs))"
  by pat_completeness auto
termination by (relation "measure (\<lambda>(p, dirs). length p)") (auto simp: path_parent_def split: if_splits)

declare insert_parents.simps [simp del]

definition add_file :: "path \<Rightarrow> rstr \<Rightarrow> listing \<Rightarrow> listing" where
  "add_file key name l =
     l\<lparr>li_files := (li_files l)(key \<mapsto> (case li_files l key of Some names \<Rightarrow> names | None \<Rightarrow> []) @ [name]),
       li_seen := li_seen l + 1\<rparr>"

text \<open>
  One entry; \<open>key\<close> gives the directory under which a file is kept. Once the limit is reached the
  loop over the entries is left, which is to say that no further entry does anything.
\<close>

definition list_visit ::
  "(path option \<Rightarrow> path) \<Rightarrow> (path \<Rightarrow> bool) list \<Rightarrow> path \<Rightarrow> path \<Rightarrow> entry \<Rightarrow> listing \<Rightarrow> rstr + bool \<times> listing" where
  "list_visit key patterns root dir e l =
     (if li_seen l \<ge> list_limit then Inr (False, l)
      else (case e of
              EntryError m \<Rightarrow> Inl (''list failed to walk directory: '' @ m)
            | Entry name type_error _ n \<Rightarrow>
                (let p = dir @ [Normal name]; relative = drop (length root) p
                 in if is_ignored relative patterns then Inr (False, l)
                    else (case type_error of
                            Some m \<Rightarrow> Inl (''list failed to inspect '' @ path_text p @ '': '' @ m)
                          | None \<Rightarrow> (case n of
                                DirNode _ _ \<Rightarrow>
                                  Inr (True, l\<lparr>li_dirs := insert_parents relative (path_insert relative (li_dirs l))\<rparr>)
                              | FileNode _ \<Rightarrow> Inr (False, add_file (key (path_parent relative)) name l)
                              | OtherNode _ \<Rightarrow> Inr (False, l))))))"

definition gather ::
  "(path option \<Rightarrow> path) \<Rightarrow> search_libraries \<Rightarrow> file_world \<Rightarrow> path \<Rightarrow> rstr list \<Rightarrow> rstr + listing" where
  "gather key lib fs root ignore =
     (case compile_builtin lib ignore_patterns of
        Inl e \<Rightarrow> Inl e
      | Inr built_in \<Rightarrow>
          (case compile_ignore lib ignore of
             Inl e \<Rightarrow> Inl e
           | Inr own \<Rightarrow>
               walk_from (\<lambda>dir e. ''list failed to read '' @ path_text dir @ '': '' @ e)
                 (list_visit key (built_in @ own) root) fs root empty_listing))"

text \<open>
  The tree below a directory: its own line, its subdirectories, its files. A subdirectory is one
  whose parent, as \<open>key\<close> gives it, is the directory.
\<close>

definition dir_rank :: "path \<Rightarrow> nat" where
  "dir_rank p = (if p = [CurDir] then 0 else Suc (length p))"

definition file_lines :: "path \<Rightarrow> nat \<Rightarrow> (path \<Rightarrow> rstr list option) \<Rightarrow> rstr" where
  "file_lines dir depth files =
     (case files dir of
        None \<Rightarrow> []
      | Some names \<Rightarrow> concat (map (\<lambda>f. concat (replicate (depth + 1) ''  '') @ f @ [NL]) (byte_sort names)))"

definition dir_line :: "path \<Rightarrow> nat \<Rightarrow> rstr" where
  "dir_line dir depth =
     (if depth = 0 then []
      else concat (replicate depth ''  '') @
           (case dir of [] \<Rightarrow> [] | _ \<Rightarrow> (case last dir of Normal n \<Rightarrow> n | _ \<Rightarrow> [])) @ ''/'' @ [NL])"

text \<open>On the host, the parent of a top-level entry is the empty path.\<close>

definition host_key :: "path option \<Rightarrow> path" where
  "host_key parent = (case parent of Some q \<Rightarrow> q | None \<Rightarrow> [CurDir])"

text \<open>In the guest, \<open>normalize_dir_key\<close>.\<close>

definition normalize_dir_key :: "path option \<Rightarrow> path" where
  "normalize_dir_key parent = (case parent of Some q \<Rightarrow> if q \<noteq> [] then q else [CurDir] | None \<Rightarrow> [CurDir])"

lemma path_parent_rank: "path_parent p = Some q \<Longrightarrow> p = q @ [last p] \<and> last p \<noteq> RootDir"
  by (auto simp: path_parent_def split: if_splits)

lemma key_rank:
  assumes "c \<noteq> [CurDir]"
  shows "host_key (path_parent c) = dir \<Longrightarrow> dir_rank dir < dir_rank c"
    "normalize_dir_key (path_parent c) = dir \<Longrightarrow> dir_rank dir < dir_rank c"
  using assms by (auto simp: host_key_def normalize_dir_key_def dir_rank_def path_parent_def split: option.splits if_splits)

lemma rank_above_less:
  fixes dirs :: "path list"
  assumes "c \<in> set dirs" "dir_rank dir < dir_rank c"
  shows "card {p \<in> set dirs. dir_rank c < dir_rank p} < card {p \<in> set dirs. dir_rank dir < dir_rank p}"
  using assms by (intro psubset_card_mono) auto

function render_dir :: "path \<Rightarrow> nat \<Rightarrow> path list \<Rightarrow> (path \<Rightarrow> rstr list option) \<Rightarrow> rstr" where
  "render_dir dir depth dirs files =
     dir_line dir depth @
     concat (map (\<lambda>child. render_dir child (depth + 1) dirs files)
       (filter (\<lambda>c. c \<noteq> [CurDir] \<and> host_key (path_parent c) = dir) dirs)) @
     file_lines dir depth files"
  by pat_completeness auto
termination
  by (relation "measure (\<lambda>(dir, depth, dirs, files). card {p \<in> set dirs. dir_rank dir < dir_rank p})")
     (auto intro!: rank_above_less key_rank(1))

function guest_render_dir :: "path \<Rightarrow> nat \<Rightarrow> path list \<Rightarrow> (path \<Rightarrow> rstr list option) \<Rightarrow> rstr" where
  "guest_render_dir dir depth dirs files =
     dir_line dir depth @
     concat (map (\<lambda>child. guest_render_dir child (depth + 1) dirs files)
       (filter (\<lambda>c. c \<noteq> [CurDir] \<and> normalize_dir_key (path_parent c) = dir) dirs)) @
     file_lines dir depth files"
  by pat_completeness auto
termination
  by (relation "measure (\<lambda>(dir, depth, dirs, files). card {p \<in> set dirs. dir_rank dir < dir_rank p})")
     (auto intro!: rank_above_less key_rank(2))

declare render_dir.simps [simp del] guest_render_dir.simps [simp del]

definition run_list :: "search_libraries \<Rightarrow> file_world \<Rightarrow> path \<Rightarrow> rstr list \<Rightarrow> rstr res" where
  "run_list lib fs root ignore =
     (case gather host_key lib fs root ignore of
        Inl m \<Rightarrow> Inl (ToolError m)
      | Inr l \<Rightarrow> Inr (path_text root @ ''/'' @ [NL] @ render_dir [CurDir] 0 (li_dirs l) (li_files l)))"

definition list_direct :: "search_libraries \<Rightarrow> file_world \<Rightarrow> list_plan \<Rightarrow> rstr res" where
  "list_direct lib fs plan = run_list lib fs (lp_host_path plan) (lp_ignore plan)"

definition list_wasm :: "sandboxed_config \<Rightarrow> (list_args run_wasm_request \<Rightarrow> wasm_run_result res) \<Rightarrow> list_plan \<Rightarrow> rstr res" where
  "list_wasm config runtime plan =
     run_file_guest ''list'' ''list_tool.wasm'' (timeout_or 15 config) (lp_route plan)
       (\<lambda>g. \<lparr>la_path = Some g, la_ignore = Some (lp_ignore plan)\<rparr>) runtime"

definition display_root :: "path \<Rightarrow> rstr + rstr" where
  "display_root root =
     (case strip_path (components workspace_mount) root of
        None \<Rightarrow> Inl (''list path is outside workspace mount: '' @ path_text root)
      | Some relative \<Rightarrow> Inr (if relative = [] then ''./'' else path_text relative @ ''/''))"

definition guest_run_list :: "search_libraries \<Rightarrow> file_world \<Rightarrow> path \<Rightarrow> rstr \<Rightarrow> rstr list \<Rightarrow> rstr + rstr" where
  "guest_run_list lib fs root shown_root ignore =
     (case gather normalize_dir_key lib fs root ignore of
        Inl m \<Rightarrow> Inl m
      | Inr l \<Rightarrow> Inr (shown_root @ [NL] @ guest_render_dir [CurDir] 0 (li_dirs l) (li_files l)))"

definition guest_list :: "search_libraries \<Rightarrow> file_world \<Rightarrow> list_args \<Rightarrow> rstr + rstr" where
  "guest_list lib fs args =
     (case resolve_guest_path (case la_path args of Some p \<Rightarrow> p | None \<Rightarrow> []) of
        Inl m \<Rightarrow> Inl m
      | Inr root \<Rightarrow>
          (if \<not> is_dir fs root then Inl (''list path must be a directory: '' @ path_text root)
           else (case display_root root of
                   Inl m \<Rightarrow> Inl m
                 | Inr shown_root \<Rightarrow>
                     guest_run_list lib fs root shown_root (case la_ignore args of Some i \<Rightarrow> i | None \<Rightarrow> []))))"

section \<open>What a walk finds\<close>

lemma visit_entries_inv:
  assumes "\<And>e s b s'. Q s \<Longrightarrow> visit dir e s = Inr (b, s') \<Longrightarrow> Q s'"
  shows "visit_entries visit dir es stack s = Inr (stack', s') \<Longrightarrow> Q s \<Longrightarrow>
    Q s' \<and> fst ` set stack' \<subseteq> fst ` set stack \<union> range (\<lambda>name. dir @ [Normal name])"
proof (induction es arbitrary: stack s)
  case (Cons e es)
  from Cons.prems(1) obtain b t where v: "visit dir e s = Inr (b, t)"
    and r: "visit_entries visit dir es
      (case e of Entry name _ _ n \<Rightarrow> if b then (dir @ [Normal name], n) # stack else stack | EntryError _ \<Rightarrow> stack) t = Inr (stack', s')"
    by (auto split: sum.splits prod.splits)
  from Cons.IH[OF r assms[OF Cons.prems(2) v]] show ?case by (cases e) (auto split: if_splits)
qed simp

lemma walk_Cons_Inr:
  assumes "walk failed visit ((dir, n) # stack) s = Inr r"
  obtains entries stack' t where "n = DirNode None entries" "visit_entries visit dir entries stack s = Inr (stack', t)"
    "walk failed visit stack' t = Inr r"
  using assms by (cases n) (auto simp: open_dir_def split: option.splits sum.splits prod.splits)

lemma walk_inv:
  assumes "\<And>dir e s b s'. D dir \<Longrightarrow> Q s \<Longrightarrow> visit dir e s = Inr (b, s') \<Longrightarrow> Q s'"
    and "\<And>dir name. D dir \<Longrightarrow> D (dir @ [Normal name])"
  shows "walk failed visit stack s = Inr r \<Longrightarrow> \<forall>p\<in>fst ` set stack. D p \<Longrightarrow> Q s \<Longrightarrow> Q r"
proof (induction "stack_size stack" arbitrary: stack s rule: less_induct)
  case less
  show ?case
  proof (cases stack)
    case Nil
    then show ?thesis using less.prems by simp
  next
    case (Cons x rest)
    obtain dir n where x: "x = (dir, n)" by (cases x)
    from less.prems(1)[unfolded Cons x] obtain entries stack' t where e: "n = DirNode None entries"
      "visit_entries visit dir entries rest s = Inr (stack', t)" "walk failed visit stack' t = Inr r" by (rule walk_Cons_Inr)
    have D: "D dir" using less.prems(2) by (simp add: Cons x)
    have v: "Q t \<and> fst ` set stack' \<subseteq> fst ` set rest \<union> range (\<lambda>name. dir @ [Normal name])"
      by (rule visit_entries_inv[where Q = Q, OF _ e(2) less.prems(3)]) (use assms(1)[OF D] in blast)
    have "stack_size stack' < stack_size stack"
      using visit_entries_size[OF e(2)] by (simp add: Cons x stack_size_def e(1))
    moreover have "\<forall>p\<in>fst ` set stack'. D p"
    proof
      fix p assume "p \<in> fst ` set stack'"
      then have "p \<in> fst ` set rest \<union> range (\<lambda>name. dir @ [Normal name])" using v by blast
      then show "D p" using less.prems(2) assms(2)[OF D] by (auto simp: Cons x)
    qed
    ultimately show ?thesis using less.hyps[OF _ e(3)] v by blast
  qed
qed

text \<open>The regular files below a directory, from a path on.\<close>

primrec files_below :: "node \<Rightarrow> path \<Rightarrow> found_file list" and files_at :: "entry \<Rightarrow> path \<Rightarrow> found_file list" where
  "files_below (FileNode c) p = []"
| "files_below (DirNode f es) p = concat (map (\<lambda>e. files_at e p) es)"
| "files_below (OtherNode m) p = []"
| "files_at (EntryError m) p = []"
| "files_at (Entry name t modified n) p =
     (case n of FileNode _ \<Rightarrow> [(p @ [Normal name], modified, n)] | _ \<Rightarrow> []) @ files_below n (p @ [Normal name])"

definition stack_files :: "(path \<times> node) list \<Rightarrow> found_file list" where
  "stack_files stack = concat (map (\<lambda>(p, n). files_below n p) stack)"

lemma collect_entries:
  "visit_entries collect_visit dir es stack files = Inr (stack', files') \<Longrightarrow>
   mset files' + mset (stack_files stack') = mset files + mset (concat (map (\<lambda>e. files_at e dir) es)) + mset (stack_files stack)"
proof (induction es arbitrary: stack files)
  case (Cons e es)
  from Cons.prems obtain name t m n where e: "e = Entry name t m n" and t: "t = None"
    by (cases e) (auto simp: collect_visit_def Let_def split: option.splits)
  show ?case
  proof (cases n)
    case (DirNode f xs)
    then show ?thesis using Cons.prems Cons.IH[of "(dir @ [Normal name], n) # stack" files]
      by (simp add: e t collect_visit_def stack_files_def)
  next
    case (FileNode c)
    then show ?thesis using Cons.prems Cons.IH[of stack "files @ [(dir @ [Normal name], m, n)]"]
      by (simp add: e t collect_visit_def)
  next
    case (OtherNode c)
    then show ?thesis using Cons.prems Cons.IH[of stack files] by (simp add: e t collect_visit_def)
  qed
qed simp

lemma collect_walk:
  "walk failed collect_visit stack files = Inr r \<Longrightarrow> mset r = mset files + mset (stack_files stack)"
proof (induction "stack_size stack" arbitrary: stack files rule: less_induct)
  case less
  show ?case
  proof (cases stack)
    case (Cons x rest)
    obtain dir n where x: "x = (dir, n)" by (cases x)
    from less.prems(1)[unfolded Cons x] obtain entries stack' t where e: "n = DirNode None entries"
      "visit_entries collect_visit dir entries rest files = Inr (stack', t)" "walk failed collect_visit stack' t = Inr r"
      by (rule walk_Cons_Inr)
    have "stack_size stack' < stack_size stack"
      using visit_entries_size[OF e(2)] by (simp add: Cons x stack_size_def e(1))
    from less.hyps[OF this e(3)] collect_entries[OF e(2)] show ?thesis
      by (simp add: Cons x e(1) stack_files_def)
  qed (use less.prems in \<open>simp add: stack_files_def\<close>)
qed

lemma collect_files_exact:
  assumes "collect_files fs root = Inr files" "fs root = Inr n"
  shows "mset files = mset (files_below n root)"
  using assms collect_walk[of _ "[(root, n)]" "[]" files] by (simp add: collect_files_def walk_from_def stack_files_def)

lemma mset_concat_map_cong: "mset xs = mset ys \<Longrightarrow> mset (concat (map f xs)) = mset (concat (map f ys))"
  by (metis mset_concat mset_map sum_mset_sum_list)

section \<open>The listing on the host\<close>

text \<open>What a walk from \<open>root\<close> has gathered: no file in the directory that the tree is drawn from.\<close>

definition host_listing_inv :: "listing \<Rightarrow> bool" where
  "host_listing_inv l \<longleftrightarrow> li_files l [CurDir] = None \<and>
     (\<forall>p\<in>set (li_dirs l). p = [CurDir] \<or> (\<exists>ns. ns \<noteq> [] \<and> p = map Normal ns))"

lemma set_path_insert: "set (path_insert p ps) = insert p (set ps)"
  by (induction ps) auto

lemma parents_shape:
  "\<forall>q\<in>set dirs. q = [CurDir] \<or> (\<exists>ns. ns \<noteq> [] \<and> q = map Normal ns) \<Longrightarrow>
   \<forall>q\<in>set (insert_parents (map Normal ns) dirs). q = [CurDir] \<or> (\<exists>ns. ns \<noteq> [] \<and> q = map Normal ns)"
proof (induction ns arbitrary: dirs rule: rev_induct)
  case Nil
  then show ?case by (subst insert_parents.simps) (simp add: path_parent_def)
next
  case (snoc n ns)
  have p: "path_parent (map Normal (ns @ [n])) = Some (map Normal ns)" by (simp add: path_parent_def)
  show ?case
    by (subst insert_parents.simps, simp only: p option.case, rule snoc.IH) (use snoc.prems in \<open>auto simp: set_path_insert\<close>)
qed

lemma host_visit_inv:
  assumes "\<exists>ns. dir = root @ map Normal ns" "host_listing_inv l" "list_visit host_key patterns root dir e l = Inr (b, l')"
  shows "host_listing_inv l'"
proof -
  obtain ns where ns: "dir = root @ map Normal ns" using assms(1) by blast
  have r: "drop (length root) (dir @ [Normal name]) = map Normal (ns @ [name])" for name by (simp add: ns)
  have key: "host_key (path_parent (map Normal (ns @ [name]))) = map Normal ns" for name
    by (simp add: host_key_def path_parent_def)
  have c: "map Normal ns \<noteq> [CurDir]" by (cases ns) auto
  show ?thesis
  proof (cases e)
    case (EntryError m)
    then show ?thesis using assms(2,3) by (auto simp: list_visit_def split: if_splits)
  next
    case (Entry name t m n)
    note v = assms(3)[unfolded list_visit_def Entry Let_def entry.case r]
    show ?thesis
    proof (cases "li_seen l \<ge> list_limit \<or> is_ignored (map Normal (ns @ [name])) patterns")
      case True
      then show ?thesis using assms(2) v by (auto split: if_splits)
    next
      case False
      then have t: "t = None" using v by (cases t) auto
      have "\<forall>q\<in>set (path_insert (map Normal (ns @ [name])) (li_dirs l)). q = [CurDir] \<or> (\<exists>ns. ns \<noteq> [] \<and> q = map Normal ns)"
        using assms(2) by (auto simp: host_listing_inv_def set_path_insert intro!: exI[of _ "ns @ [name]"])
      from parents_shape[OF this, of "ns @ [name]"] show ?thesis
        using assms(2) v False c
        by (cases n) (auto simp: t key host_listing_inv_def add_file_def simp del: map_append)
    qed
  qed
qed

lemma host_tree_empty: "host_listing_inv l \<Longrightarrow> render_dir [CurDir] 0 (li_dirs l) (li_files l) = []"
proof -
  assume inv: "host_listing_inv l"
  have "filter (\<lambda>c. c \<noteq> [CurDir] \<and> host_key (path_parent c) = [CurDir]) (li_dirs l) = []"
  proof (rule filter_False, rule ballI, rule notI, elim conjE)
    fix c assume c: "c \<in> set (li_dirs l)" "c \<noteq> [CurDir]" "host_key (path_parent c) = [CurDir]"
    then obtain ns where ns: "ns \<noteq> []" "c = map Normal ns" using inv by (auto simp: host_listing_inv_def)
    then have "last c \<noteq> RootDir" by (simp add: last_map)
    then have "butlast c = [CurDir]" using c(3) ns by (simp add: host_key_def path_parent_def)
    then have "CurDir \<in> set c" by (metis in_set_butlastD list.set_intros(1))
    then show False using ns(2) by auto
  qed
  then show ?thesis using inv by (subst render_dir.simps) (simp add: dir_line_def file_lines_def host_listing_inv_def)
qed

lemma gather_inv:
  assumes "gather host_key lib fs root ignore = Inr l"
  shows "host_listing_inv l"
proof -
  obtain ps n failed where w: "walk failed (list_visit host_key ps root) [(root, n)] empty_listing = Inr l"
    using assms by (auto simp: gather_def walk_from_def split: sum.splits)
  show ?thesis
  proof (rule walk_inv[where D = "\<lambda>p. \<exists>ns. p = root @ map Normal ns", OF _ _ w])
    show "host_listing_inv l'" if "\<exists>ns. dir = root @ map Normal ns" "host_listing_inv l"
      "list_visit host_key ps root dir e l = Inr (b, l')" for dir e l b l'
      using host_visit_inv that by blast
    show "\<exists>ns. dir @ [Normal name] = root @ map Normal ns" if "\<exists>ns. dir = root @ map Normal ns" for dir name
      using that by (metis append_assoc list.simps(8,9) map_append)
    show "\<forall>p\<in>fst ` set [(root, n)]. \<exists>ns. p = root @ map Normal ns" by (auto intro: exI[of _ "[]"])
    show "host_listing_inv empty_listing" by (simp add: host_listing_inv_def empty_listing_def)
  qed
qed

section \<open>Reading in the sandbox and outside\<close>

definition after_path_line :: "rstr \<Rightarrow> rstr" where
  "after_path_line out = drop (length (path_line [])) out"

lemma output_headers:
  "directory_lines p names offset limit = path_line p @ after_path_line (directory_lines [] names offset limit)"
  "numbered_output p lines offset limit = path_line p @ after_path_line (numbered_output [] lines offset limit)"
  by (simp_all add: directory_lines_def numbered_output_def Let_def after_path_line_def)

text \<open>What follows the first line of the output, if there is an output.\<close>

definition read_body :: "rstr + node \<Rightarrow> nat \<Rightarrow> nat \<Rightarrow> rstr option" where
  "read_body found offset limit =
     map_option after_path_line
       (if is_dir (\<lambda>_. found) []
        then (case open_dir (\<lambda>_. found) [] of
                Inl _ \<Rightarrow> None
              | Inr entries \<Rightarrow> (case collect_names entries of
                                  Inl _ \<Rightarrow> None
                                | Inr names \<Rightarrow> Some (directory_lines [] (byte_sort names) offset limit)))
        else (case file_text (\<lambda>_. found) [] of
                Inl _ \<Rightarrow> None
              | Inr content \<Rightarrow>
                  (let lines = str_lines content
                   in if (length lines = 0 \<and> offset \<noteq> 1) \<or> (length lines \<noteq> 0 \<and> offset > length lines) then None
                      else Some (numbered_output [] lines offset limit))))"

lemma collect_names_eq: "rtraverse entry_name es = Inr names \<longleftrightarrow> collect_names es = Inr names"
proof (induction es arbitrary: names)
  case (Cons e es)
  have "entry_name e = Inr x \<longleftrightarrow> guest_entry_name e = Inr x" for x
    by (cases e) (auto simp: entry_name_def guest_entry_name_def split: option.splits)
  then show ?case using Cons by (auto simp: rbind_eq_Inr split: sum.splits)
qed simp

lemma same_file:
  "is_dir fs p = is_dir (\<lambda>_. fs p) []" "open_dir fs p = open_dir (\<lambda>_. fs p) []" "file_text fs p = file_text (\<lambda>_. fs p) []"
  by (simp_all add: is_dir_def open_dir_def file_text_def)

lemma directory_body:
  assumes "fs p = found" "is_dir (\<lambda>_. found) []"
  shows "guest_render_directory_output fs p offset limit = Inr out \<longleftrightarrow>
    (\<exists>rest. read_body found offset limit = Some rest \<and> out = path_line p @ rest)"
proof (cases "open_dir (\<lambda>_. found) []")
  case (Inl e)
  then show ?thesis
    by (simp add: guest_render_directory_output_def read_body_def same_file(2)[of fs p] assms)
next
  case (Inr es)
  show ?thesis
    by (cases "collect_names es")
       (auto simp: guest_render_directory_output_def read_body_def same_file(2)[of fs p] assms Inr
         output_headers(1)[of p])
qed

lemma file_body:
  assumes "fs p = found" "\<not> is_dir (\<lambda>_. found) []"
  shows "guest_render_file_output fs p offset limit = Inr out \<longleftrightarrow>
    (\<exists>rest. read_body found offset limit = Some rest \<and> out = path_line p @ rest)"
proof (cases "file_text (\<lambda>_. found) []")
  case (Inl e)
  then show ?thesis by (simp add: guest_render_file_output_def read_body_def same_file(3)[of fs p] assms)
next
  case (Inr content)
  show ?thesis
    by (auto simp: guest_render_file_output_def read_body_def same_file(3)[of fs p] assms Inr Let_def
        output_headers(2)[of p])
qed

lemma guest_read_body:
  assumes "resolve_guest_path (ra_file_path args) = Inr p" "ra_offset args = Some offset" "ra_limit args = Some limit"
    and "offset \<noteq> 0" "limit \<noteq> 0"
  shows "guest_read fs args = Inr out \<longleftrightarrow> (\<exists>rest. read_body (fs p) offset limit = Some rest \<and> out = path_line p @ rest)"
proof -
  have "guest_read fs args = (if is_dir (\<lambda>_. fs p) [] then guest_render_directory_output fs p offset limit
      else guest_render_file_output fs p offset limit)"
    using assms by (simp add: guest_read_def same_file(1)[of fs p])
  then show ?thesis using directory_body[OF refl] file_body[OF refl] by simp
qed

lemma host_renders_like_guest:
  "render_file_output fs p offset limit = Inr out \<longleftrightarrow> guest_render_file_output fs p offset limit = Inr out"
  "offset \<noteq> 0 \<Longrightarrow>
    render_directory_output fs p offset limit = Inr out \<longleftrightarrow> guest_render_directory_output fs p offset limit = Inr out"
  by (auto simp: render_file_output_def guest_render_file_output_def render_directory_output_def
      guest_render_directory_output_def Let_def rbind_eq_Inr collect_names_eq split: sum.splits)

lemma read_direct_body:
  assumes "rp_offset plan \<noteq> 0"
  shows "read_direct fs plan = Inr out \<longleftrightarrow>
    (\<exists>rest. read_body (fs (rp_host_path plan)) (rp_offset plan) (rp_limit plan) = Some rest \<and>
       out = path_line (rp_host_path plan) @ rest)"
  using host_renders_like_guest(1)[of fs "rp_host_path plan" "rp_offset plan" "rp_limit plan" out]
    host_renders_like_guest(2)[OF assms, of fs "rp_host_path plan" "rp_limit plan" out]
    directory_body[of fs "rp_host_path plan", OF refl] file_body[of fs "rp_host_path plan", OF refl]
  by (simp add: read_direct_def same_file(1)[of fs "rp_host_path plan"])

lemma run_file_guest_Inr:
  assumes "route = FileSandboxed g pre"
  shows "run_file_guest tool artifact t route arguments
      (\<lambda>rq. Inr (guest_main (program (rq_stdin rq)))) = Inr out \<longleftrightarrow> program (arguments g) = Inr out"
  by (auto simp: run_file_guest_def assms guest_main_def split: sum.splits)

lemma isl_of_output:
  assumes "\<And>out. x = Inr out \<longleftrightarrow> (\<exists>rest. body = Some rest \<and> out = f rest)"
  shows "isl x \<longleftrightarrow> body = None"
proof (cases x)
  case (Inl e)
  then show ?thesis using assms[of "f (the body)"] by (cases body) auto
next
  case (Inr out)
  then show ?thesis using assms[of out] by auto
qed

text \<open>The path a guest sees, for a target that the host put in the sandbox.\<close>

lemma guest_target:
  assumes "resolve_path_for_read (tp_env paths) raw (tp_workspace paths) = Inr p"
    and "classify_file_tool_access (tp_cwd paths) p (tp_workspace paths) (tp_persona paths) sandbox cap = Inr (FileSandboxed g [])"
    and "good_path (tp_workspace paths)" "good_path (tp_persona paths)" "absolute_cwd (tp_cwd paths)" "trim g = g"
  shows "\<exists>gp. resolve_guest_path g = Inr gp \<and>
    host_file (normalize_absolute_path (tp_workspace paths)) (normalize_absolute_path (tp_persona paths)) gp = p"
proof -
  have clean: "clean_path p" by (rule resolve_path_clean[OF assms(3,1)])
  have good: "good_path p" using clean by (auto simp: clean_path_def sample_good)
  show ?thesis using guest_sees_target[OF assms(2) good assms(3-6)] clean by (auto simp: host_file_def)
qed

section \<open>Paging\<close>

definition numbered :: "rstr list \<Rightarrow> rstr list" where
  "numbered lines = map (\<lambda>(n, line). show_nat n @ '': '' @ shown_line line) (enumerate 1 lines)"

lemma selected_slice: "1 \<le> offset \<Longrightarrow> selected_lines lines offset limit = take limit (drop (offset - 1) (numbered lines))"
  by (rule nth_equalityI) (auto simp: selected_lines_def numbered_def nth_enumerate_eq)

lemma length_numbered [simp]: "length (numbered lines) = length lines"
  by (simp add: numbered_def)

text \<open>The pages a reader sees who follows the hints.\<close>

fun read_pages :: "nat \<Rightarrow> rstr list \<Rightarrow> nat \<Rightarrow> nat \<Rightarrow> rstr list" where
  "read_pages 0 lines offset limit = []"
| "read_pages (Suc fuel) lines offset limit =
     (let selected = selected_lines lines offset limit; last_line = last_read_line offset selected
      in selected @ (if last_line < length lines then read_pages fuel lines (last_line + 1) limit else []))"

lemma pages_cover_file:
  "1 \<le> offset \<Longrightarrow> 1 \<le> limit \<Longrightarrow> length lines \<le> fuel + (offset - 1) \<Longrightarrow>
   read_pages fuel lines offset limit = drop (offset - 1) (numbered lines)"
proof (induction fuel arbitrary: offset)
  case (Suc fuel)
  show ?case
  proof (cases "offset - 1 + limit < length lines")
    case True
    then have last: "last_read_line offset (selected_lines lines offset limit) = offset - 1 + limit"
      using Suc.prems by (auto simp: selected_slice last_read_line_def)
    have "read_pages fuel lines (offset + limit) limit = drop (offset + limit - 1) (numbered lines)"
      by (rule Suc.IH) (use Suc.prems in auto)
    moreover have "offset - 1 + limit = offset + limit - 1" "Suc (offset - 1 + limit) = offset + limit" using Suc.prems by simp_all
    moreover have "drop (offset - 1) (numbered lines) =
        take limit (drop (offset - 1) (numbered lines)) @ drop (offset + limit - 1) (numbered lines)"
      using Suc.prems append_take_drop_id[of limit "drop (offset - 1) (numbered lines)"] by (simp add: add.commute)
    ultimately show ?thesis using True last Suc.prems by (simp add: Let_def selected_slice)
  next
    case False
    then have "selected_lines lines offset limit = drop (offset - 1) (numbered lines)"
      using Suc.prems by (simp add: selected_slice)
    moreover have "\<not> last_read_line offset (drop (offset - 1) (numbered lines)) < length lines"
      using Suc.prems by (auto simp: last_read_line_def)
    ultimately show ?thesis by simp
  qed
qed simp

section \<open>Where the sandbox answers differently\<close>

text \<open>Listing in the persona directory is allowed by the policy, and fails in the guest.\<close>

lemma persona_listing_fails:
  assumes "resolve_guest_path g = Inr (components persona_mount @ relative)" "la_path args = Some g"
  shows "\<exists>m. guest_list lib fs args = Inl m"
  using assms
  by (cases "is_dir fs (components persona_mount @ relative)")
     (auto simp: guest_list_def display_root_def mount_components strip_path_def)

text \<open>
  The sandboxed tools print guest paths. Given back to a tool, such a path is taken for one of the
  host, and is outside of every workspace that is not below a directory of that name.
\<close>

lemma guest_path_is_foreign:
  assumes "list_all clean_name ns" "trim g = g" "g = guest_join workspace_mount (map Normal ns)"
    and "CHR ''$'' \<notin> set g"
  shows "resolve_path_for_read env g ws = Inr (RootDir # map Normal (''workspace'' # ns))"
proof -
  have e: "expand_env_vars env g = g"
  proof -
    have "expand_chars env cs = concat cs" if "\<forall>ch\<in>set cs. ch \<noteq> ''$''" for cs
      using that by (induction env cs rule: expand_chars.induct) auto
    moreover have "\<forall>ch\<in>set (chars g). ch \<noteq> ''$''"
    proof
      fix ch assume "ch \<in> set (chars g)"
      then have "set ch \<subseteq> set g" using arg_cong[OF concat_chars[of g], of set] by (auto simp del: concat_chars)
      then show "ch \<noteq> ''$''" using assms(4) by auto
    qed
    ultimately show ?thesis by (simp add: expand_env_vars_def)
  qed
  have h: "expand_home_dir env g = None" by (simp add: expand_home_dir_def assms(3) guest_join_def workspace_mount_def)
  have c: "components g = RootDir # map Normal (''workspace'' # ns)"
    unfolding assms(3) by (rule guest_workspace(1)[OF assms(1)])
  have "g \<noteq> []" using assms(3) by simp
  moreover have "normalize_absolute_path (RootDir # map Normal (''workspace'' # ns)) = RootDir # map Normal (''workspace'' # ns)"
    by (rule normalize_clean)
  ultimately show ?thesis
    by (simp add: resolve_path_for_read_def Let_def assms(2) e h c is_absolute_def)
qed

section \<open>Properties\<close>


abbreviation sample_read :: read_args where
  "sample_read \<equiv> \<lparr>ra_file_path = ''a'', ra_offset = None, ra_limit = Some 1\<rparr>"

definition sample_files :: file_world where
  "sample_files = (\<lambda>p. if p = [RootDir, Normal ''w'', Normal ''a''] then Inr (FileNode (Inr (''x'' @ [NL] @ ''y'')))
     else Inl ''missing'')"


lemma file_matches_set:
  "m \<in> set (file_matches regex pat root (p, t, n)) \<longleftrightarrow>
    (\<forall>f. pat = Some f \<longrightarrow> f (drop (length root) p)) \<and>
    (\<exists>content i. node_text n = Inr content \<and> i < length (str_lines content) \<and> regex (str_lines content ! i) \<and>
       m = \<lparr>gm_path = p, gm_line_number = i + 1, gm_line_text = shown_line (str_lines content ! i), gm_modified = t\<rparr>)"
  by (cases "node_text n") (auto simp: file_matches_def in_set_enumerate_eq image_iff split: option.splits)


definition sample_libraries :: search_libraries where
  "sample_libraries = \<lparr>sl_regex = (\<lambda>p. Inr (\<lambda>line. str_contains line p)), sl_pattern = (\<lambda>q. Inr (\<lambda>p. False))\<rparr>"

definition sample_tree :: node where
  "sample_tree = DirNode None [Entry ''a'' None 1 (FileNode (Inr (''x'' @ [NL] @ ''yx''))),
     Entry ''d'' None 0 (DirNode None [Entry ''b'' None 2 (FileNode (Inr ''x''))])]"


text \<open>
  Run directly on the host, the list tool lists nothing: whatever the directory holds, a
  successful listing is the line with the directory's own path and nothing else, because the
  entries of the top level are kept under the empty path and looked up under a dot.
\<close>

theorem direct_list_shows_nothing:
  assumes "list_direct lib fs plan = Inr out"
  shows "out = path_text (lp_host_path plan) @ ''/'' @ [NL]"
proof -
  obtain l where l: "gather host_key lib fs (lp_host_path plan) (lp_ignore plan) = Inr l"
    "out = path_text (lp_host_path plan) @ ''/'' @ [NL] @ render_dir [CurDir] 0 (li_dirs l) (li_files l)"
    using assms by (auto simp: list_direct_def run_list_def split: sum.splits)
  with host_tree_empty[OF gather_inv[OF l(1)]] show ?thesis by simp
qed

theorem direct_list_shows_nothing_witness:
  "list_direct sample_libraries (\<lambda>_. Inr sample_tree) \<lparr>lp_host_path = sample_ws, lp_route = FileSandboxed [] [], lp_ignore = []\<rparr>
     = Inr (''/w/'' @ [NL]) \<and>
   guest_run_list sample_libraries (\<lambda>_. Inr sample_tree) [RootDir, Normal ''workspace''] ''./'' [] =
     Inr (''./'' @ [NL] @ ''  d/'' @ [NL] @ ''    b'' @ [NL] @ ''  a'' @ [NL])"
proof -
  let ?plan = "\<lparr>lp_host_path = sample_ws, lp_route = FileSandboxed [] [], lp_ignore = []\<rparr>"
  let ?r = "list_direct sample_libraries (\<lambda>_. Inr sample_tree) ?plan"
  have "\<not> isl ?r" by code_simp
  then obtain out where o: "?r = Inr out" by (cases ?r) auto
  have "path_text (lp_host_path ?plan) @ ''/'' @ [NL] = ''/w/'' @ [NL]" by code_simp
  moreover have "guest_run_list sample_libraries (\<lambda>_. Inr sample_tree) [RootDir, Normal ''workspace''] ''./'' [] =
     Inr (''./'' @ [NL] @ ''  d/'' @ [NL] @ ''    b'' @ [NL] @ ''  a'' @ [NL])" by code_simp
  ultimately show ?thesis using direct_list_shows_nothing[OF o] o by simp
qed

end
