(* ===== verification/WebTools.thy ===== *)
theory WebTools
  imports FileTools ToolArgs
begin

text \<open>
  The tools that use the network and the clock: \<open>web_fetch.rs\<close>, \<open>web_search.rs\<close> and \<open>clock.rs\<close> of
  \<open>src/tools/builtin/\<close>, and the guests \<open>sandbox/web_fetch_tool\<close> and \<open>sandbox/web_search_tool\<close>. What
  the HTTP library answers, the texts the HTML library finds, the decoding of JSON and the time are
  arguments.
\<close>

section \<open>The clock\<close>

definition clock_execute :: "rstr \<Rightarrow> 'c execution_outcome res" where
  "clock_execute now_rfc3339 = Inr (CompletedRun now_rfc3339 [])"

section \<open>Fetching\<close>

definition default_web_fetch_timeout_seconds :: nat where "default_web_fetch_timeout_seconds = 20"
definition default_web_fetch_max_chars :: nat where "default_web_fetch_max_chars = 8000"

record web_fetch_plan =
  wf_url :: rstr
  wf_timeout_seconds :: nat
  wf_max_chars :: nat

definition web_fetch_plan_of :: "web_fetch_tool_config \<Rightarrow> json_parser \<Rightarrow> rstr \<Rightarrow> web_fetch_plan res" where
  "web_fetch_plan_of config from_str args_json =
     Inr \<lparr>wf_url = parse_simple_text_arg from_str args_json,
          wf_timeout_seconds = unwrap_or default_web_fetch_timeout_seconds (tc_timeout_seconds config),
          wf_max_chars = unwrap_or default_web_fetch_max_chars (fc_max_chars config)\<rparr>"

text \<open>A request that may time out or fail, and a body that may as well.\<close>

datatype 'a timed = TimedOutAfter | FailedWith rstr | Arrived 'a

record web_libraries =
  wl_client :: "rstr option"                         \<comment> \<open>why no client can be built\<close>
  wl_get :: "rstr \<Rightarrow> (nat \<times> rstr timed) timed"     \<comment> \<open>the status, then the body\<close>
  wl_body_texts :: "rstr \<Rightarrow> rstr list"             \<comment> \<open>the texts below the body of a document\<close>

definition web_timed_out :: "nat \<Rightarrow> rstr" where
  "web_timed_out timeout_seconds = ''fetch timed out after '' @ show_nat timeout_seconds @ ''s''"

definition render_fetch_response :: "web_libraries \<Rightarrow> rstr \<Rightarrow> nat \<Rightarrow> rstr \<Rightarrow> nat \<Rightarrow> rstr res" where
  "render_fetch_response lib url status_code body max_chars =
     (if \<not> (200 \<le> status_code \<and> status_code < 300)
      then Inl (ToolError (''fetch response error: status='' @ show_nat status_code @ '' url='' @ url))
      else if str_contains body ''<html'' \<or> str_contains body ''<body''
      then Inr (take_chars max_chars (join '' '' (filter (\<lambda>s. s \<noteq> []) (map trim (wl_body_texts lib body)))))
      else Inr (take_chars max_chars body))"

definition fetch_url_markdown :: "web_libraries \<Rightarrow> rstr \<Rightarrow> nat \<Rightarrow> nat \<Rightarrow> rstr res" where
  "fetch_url_markdown lib url timeout_seconds max_chars =
     (let url = trim url
      in if url = [] then Inl (ToolError ''fetch requires a non-empty url'')
         else (case wl_client lib of
                 Some e \<Rightarrow> Inl (ToolError (''fetch client build failed: '' @ e))
               | None \<Rightarrow>
                   (case wl_get lib url of
                      TimedOutAfter \<Rightarrow> Inl (ToolError (web_timed_out timeout_seconds))
                    | FailedWith e \<Rightarrow> Inl (ToolError (''fetch request failed: '' @ e))
                    | Arrived (status, body) \<Rightarrow>
                        (case body of
                           TimedOutAfter \<Rightarrow> Inl (ToolError (web_timed_out timeout_seconds))
                         | FailedWith e \<Rightarrow> Inl (ToolError (''fetch body read failed: '' @ e))
                         | Arrived text \<Rightarrow> render_fetch_response lib url status text max_chars))))"

definition web_fetch_direct :: "web_libraries \<Rightarrow> web_fetch_plan \<Rightarrow> rstr res" where
  "web_fetch_direct lib plan = fetch_url_markdown lib (wf_url plan) (wf_timeout_seconds plan) (wf_max_chars plan)"

text \<open>The guests of the two tools get their arguments as they are; an exit with a message is an error.\<close>

definition run_web_guest ::
  "rstr \<Rightarrow> rstr \<Rightarrow> nat \<Rightarrow> 'a \<Rightarrow> ('a run_wasm_request \<Rightarrow> wasm_run_result res) \<Rightarrow> rstr res" where
  "run_web_guest tool artifact timeout arguments runtime =
     rbind (runtime \<lparr>rq_preopened_dirs = [], rq_artifact_name = artifact, rq_stdin = arguments, rq_timeout = timeout\<rparr>) (\<lambda>result.
       if wr_exit_code result \<noteq> 0
       then Inl (ToolError (tool @ '' tool failed: exit_code='' @ show_int (wr_exit_code result) @ '' stderr='' @
                   trim (wr_stderr result)))
       else Inr (wr_stdout result))"

record web_fetch_args =
  we_url :: rstr
  we_timeout_seconds :: "nat option"
  we_max_chars :: "nat option"

definition web_fetch_wasm :: "(web_fetch_args run_wasm_request \<Rightarrow> wasm_run_result res) \<Rightarrow> web_fetch_plan \<Rightarrow> rstr res" where
  "web_fetch_wasm runtime plan =
     run_web_guest ''web_fetch'' ''web_fetch_tool.wasm'' (wf_timeout_seconds plan)
       \<lparr>we_url = wf_url plan, we_timeout_seconds = Some (wf_timeout_seconds plan), we_max_chars = Some (wf_max_chars plan)\<rparr>
       runtime"

definition guest_render_fetch_response :: "web_libraries \<Rightarrow> rstr \<Rightarrow> nat \<Rightarrow> rstr \<Rightarrow> nat \<Rightarrow> rstr + rstr" where
  "guest_render_fetch_response lib url status_code body max_chars =
     (if \<not> (200 \<le> status_code \<and> status_code < 300)
      then Inl (''fetch response error: status='' @ show_nat status_code @ '' url='' @ url)
      else if str_contains body ''<html'' \<or> str_contains body ''<body''
      then Inr (take_chars max_chars (join '' '' (filter (\<lambda>s. s \<noteq> []) (map trim (wl_body_texts lib body)))))
      else Inr (take_chars max_chars body))"

definition guest_fetch_url_markdown :: "web_libraries \<Rightarrow> rstr \<Rightarrow> nat \<Rightarrow> nat \<Rightarrow> rstr + rstr" where
  "guest_fetch_url_markdown lib url timeout_seconds max_chars =
     (let url = trim url
      in if url = [] then Inl ''fetch requires a non-empty url''
         else (case wl_client lib of
                 Some e \<Rightarrow> Inl (''fetch client build failed: '' @ e)
               | None \<Rightarrow>
                   (case wl_get lib url of
                      TimedOutAfter \<Rightarrow> Inl (web_timed_out timeout_seconds)
                    | FailedWith e \<Rightarrow> Inl (''fetch request failed: '' @ e)
                    | Arrived (status, body) \<Rightarrow>
                        (case body of
                           TimedOutAfter \<Rightarrow> Inl (web_timed_out timeout_seconds)
                         | FailedWith e \<Rightarrow> Inl (''fetch body read failed: '' @ e)
                         | Arrived text \<Rightarrow> guest_render_fetch_response lib url status text max_chars))))"

definition guest_web_fetch :: "web_libraries \<Rightarrow> web_fetch_args \<Rightarrow> rstr + rstr" where
  "guest_web_fetch lib args =
     guest_fetch_url_markdown lib (we_url args)
       (unwrap_or default_web_fetch_timeout_seconds (we_timeout_seconds args))
       (unwrap_or default_web_fetch_max_chars (we_max_chars args))"

section \<open>Searching\<close>

definition default_web_search_timeout_seconds :: nat where "default_web_search_timeout_seconds = 20"
definition web_search_max_results :: nat where "web_search_max_results = 5"

record web_search_plan =
  ws_query :: rstr
  ws_timeout_seconds :: nat

definition web_search_plan_of :: "web_search_runtime_config \<Rightarrow> json_parser \<Rightarrow> rstr \<Rightarrow> web_search_plan res" where
  "web_search_plan_of config from_str args_json =
     (let query = trim (parse_simple_text_arg from_str args_json)
      in if query = [] then Inl (ToolError ''search requires a non-empty query'')
         else Inr \<lparr>ws_query = query,
                   ws_timeout_seconds = unwrap_or default_web_search_timeout_seconds (tc_timeout_seconds config)\<rparr>)"

record web_search_result =
  wr_title :: rstr
  wr_url :: rstr
  wr_description :: rstr
  wr_age :: "rstr option"

record web_search_output =
  wo_provider :: rstr
  wo_query :: rstr
  wo_total_results_returned :: nat
  wo_results :: "web_search_result list"

record brave_web_result =
  br_title :: rstr
  br_url :: rstr
  br_description :: rstr
  br_age :: "rstr option"
  br_page_age :: "rstr option"

definition clean_age :: "rstr option \<Rightarrow> rstr option" where
  "clean_age age = Option.bind age non_empty_trim"

definition brave_result :: "brave_web_result \<Rightarrow> web_search_result option" where
  "brave_result r =
     (let url = trim (br_url r)
      in if url = [] then None
         else Some \<lparr>wr_title = trim (br_title r), wr_url = url, wr_description = trim (br_description r),
                    wr_age = clean_age (or_else (br_age r) (br_page_age r))\<rparr>)"

definition map_brave_results :: "rstr \<Rightarrow> brave_web_result list \<Rightarrow> web_search_output" where
  "map_brave_results query results =
     (let mapped = take web_search_max_results (List.map_filter brave_result results)
      in \<lparr>wo_provider = ''brave'', wo_query = query, wo_total_results_returned = length mapped, wo_results = mapped\<rparr>)"

definition parse_duckduckgo_text :: "rstr \<Rightarrow> rstr \<times> rstr" where
  "parse_duckduckgo_text text =
     (let trimmed = trim text
      in case find_sub '' - '' trimmed of
           Some i \<Rightarrow> (trim (take i trimmed), trim (drop (i + 3) trimmed))
         | None \<Rightarrow> (trimmed, trimmed))"

definition duplicates :: "rstr \<Rightarrow> rstr \<Rightarrow> web_search_result \<Rightarrow> bool" where
  "duplicates url description existing \<longleftrightarrow>
     (url \<noteq> [] \<and> wr_url existing = url) \<or> (description \<noteq> [] \<and> wr_description existing = description)"

definition push_result :: "web_search_result list \<Rightarrow> web_search_result \<Rightarrow> web_search_result list" where
  "push_result results candidate =
     (if length results \<ge> web_search_max_results then results
      else
        (let url = trim (wr_url candidate); description = trim (wr_description candidate)
         in if list_ex (duplicates url description) results then results
            else results @ [\<lparr>wr_title = trim (wr_title candidate), wr_url = url, wr_description = description,
                             wr_age = clean_age (wr_age candidate)\<rparr>]))"

definition field_or_empty :: "rstr \<Rightarrow> json \<Rightarrow> rstr" where
  "field_or_empty key v = unwrap_or [] (str_field key v)"

text \<open>An entry with a text.\<close>

definition push_topic :: "json \<Rightarrow> rstr \<Rightarrow> web_search_result list \<Rightarrow> web_search_result list" where
  "push_topic topic text results =
     (let (title, description) = parse_duckduckgo_text text
      in push_result results \<lparr>wr_title = title, wr_url = field_or_empty ''FirstURL'' topic, wr_description = description,
           wr_age = None\<rparr>)"

text \<open>The loops leave once there are enough results.\<close>

fun push_raw_results :: "json list \<Rightarrow> web_search_result list \<Rightarrow> web_search_result list" where
  "push_raw_results [] results = results"
| "push_raw_results (r # rs) results =
     (let results = (case str_field ''Text'' r of Some text \<Rightarrow> push_topic r text results | None \<Rightarrow> results)
      in if length results \<ge> web_search_max_results then results else push_raw_results rs results)"

fun push_nested :: "json list \<Rightarrow> web_search_result list \<Rightarrow> web_search_result list" where
  "push_nested [] out = out"
| "push_nested (n # ns) out =
     (if length out \<ge> web_search_max_results then out
      else push_nested ns (case str_field ''Text'' n of Some text \<Rightarrow> push_topic n text out | None \<Rightarrow> out))"

fun push_related :: "json list \<Rightarrow> web_search_result list \<Rightarrow> web_search_result list" where
  "push_related [] out = out"
| "push_related (t # ts) out =
     (if length out \<ge> web_search_max_results then out
      else push_related ts
        (case str_field ''Text'' t of
           Some text \<Rightarrow> push_topic t text out
         | None \<Rightarrow> (case Option.bind (json_get ''Topics'' t) as_array of
                      Some topics \<Rightarrow> push_nested topics out
                    | None \<Rightarrow> out)))"

definition collect_duckduckgo_related_topics :: "json \<Rightarrow> web_search_result list \<Rightarrow> web_search_result list" where
  "collect_duckduckgo_related_topics v out =
     (case Option.bind (json_get ''RelatedTopics'' v) as_array of None \<Rightarrow> out | Some related \<Rightarrow> push_related related out)"

definition map_duckduckgo_results :: "rstr \<Rightarrow> json \<Rightarrow> web_search_output" where
  "map_duckduckgo_results query v =
     (let abstract_text = trim (field_or_empty ''AbstractText'' v);
          heading = trim (field_or_empty ''Heading'' v);
          abstract_url = trim (field_or_empty ''AbstractURL'' v);
          results = (if abstract_text \<noteq> []
                     then push_result [] \<lparr>wr_title = (if heading = [] then query else heading), wr_url = abstract_url,
                            wr_description = abstract_text, wr_age = None\<rparr>
                     else []);
          results = (case Option.bind (json_get ''Results'' v) as_array of
                       Some raw_results \<Rightarrow> push_raw_results raw_results results
                     | None \<Rightarrow> results);
          results = (if length results < web_search_max_results
                     then collect_duckduckgo_related_topics v results else results)
      in \<lparr>wo_provider = ''duckduckgo'', wo_query = query, wo_total_results_returned = length results, wo_results = results\<rparr>)"

text \<open>
  What a provider answers to a query, and with which key: the status with the decoding of the body.
  The library that checks the status of DuckDuckGo's answer words its own error.
\<close>

record search_service =
  sv_brave :: "rstr \<Rightarrow> rstr \<Rightarrow> (nat \<times> (rstr + brave_web_result list)) timed"
  sv_duckduckgo :: "rstr \<Rightarrow> (rstr + (rstr + json)) timed"
  sv_encode :: "web_search_output \<Rightarrow> rstr + rstr"

definition search_timed_out :: "nat \<Rightarrow> rstr" where
  "search_timed_out timeout_seconds = ''search timed out after '' @ show_nat timeout_seconds @ ''s''"

definition search_brave :: "search_service \<Rightarrow> rstr \<Rightarrow> nat \<Rightarrow> rstr \<Rightarrow> rstr + web_search_output" where
  "search_brave service query timeout_seconds api_key =
     (case sv_brave service query api_key of
        TimedOutAfter \<Rightarrow> Inl (search_timed_out timeout_seconds)
      | FailedWith e \<Rightarrow> Inl (''search request failed: '' @ e)
      | Arrived (status, body) \<Rightarrow>
          (if \<not> (200 \<le> status \<and> status < 300)
           then (if status = 401 \<or> status = 403
                 then Inl (''search authentication failed: provider=brave status='' @ show_nat status)
                 else Inl (''search response error: provider=brave status='' @ show_nat status))
           else (case body of
                   Inl e \<Rightarrow> Inl (''search decode failed: '' @ e)
                 | Inr results \<Rightarrow> Inr (map_brave_results query results))))"

definition search_duckduckgo :: "search_service \<Rightarrow> rstr \<Rightarrow> nat \<Rightarrow> rstr + web_search_output" where
  "search_duckduckgo service query timeout_seconds =
     (case sv_duckduckgo service query of
        TimedOutAfter \<Rightarrow> Inl (search_timed_out timeout_seconds)
      | FailedWith e \<Rightarrow> Inl (''search request failed: '' @ e)
      | Arrived (Inl e) \<Rightarrow> Inl (''search response error: '' @ e)
      | Arrived (Inr (Inl e)) \<Rightarrow> Inl (''search decode failed: '' @ e)
      | Arrived (Inr (Inr v)) \<Rightarrow> Inr (map_duckduckgo_results query v))"

definition usable_key :: "rstr option \<Rightarrow> rstr + rstr" where
  "usable_key api_key =
     (case Option.bind api_key non_empty_trim of
        Some key \<Rightarrow> Inr key
      | None \<Rightarrow> Inl ''search is misconfigured: api_key is required for provider=brave'')"

definition web_search_direct :: "search_service \<Rightarrow> web_search_runtime_config \<Rightarrow> web_search_plan \<Rightarrow> rstr res" where
  "web_search_direct service config plan =
     rbind
       (case wx_provider config of
          Brave \<Rightarrow> rbind (tool_res (usable_key (wx_api_key config))) (\<lambda>key.
            tool_res (search_brave service (ws_query plan) (ws_timeout_seconds plan) key))
        | Duckduckgo \<Rightarrow> tool_res (search_duckduckgo service (ws_query plan) (ws_timeout_seconds plan))) (\<lambda>output.
       case sv_encode service output of
         Inl e \<Rightarrow> Inl (ToolError (''search serialization failed: '' @ e))
       | Inr text \<Rightarrow> Inr text)"

record web_search_args =
  wa_query :: rstr
  wa_provider :: web_search_provider
  wa_api_key :: "rstr option"
  wa_timeout_seconds :: "nat option"

definition web_search_wasm ::
  "web_search_runtime_config \<Rightarrow> (web_search_args run_wasm_request \<Rightarrow> wasm_run_result res) \<Rightarrow> web_search_plan \<Rightarrow> rstr res" where
  "web_search_wasm config runtime plan =
     run_web_guest ''web_search'' ''web_search_tool.wasm'' (ws_timeout_seconds plan)
       \<lparr>wa_query = ws_query plan, wa_provider = wx_provider config, wa_api_key = wx_api_key config,
        wa_timeout_seconds = Some (ws_timeout_seconds plan)\<rparr> runtime"

definition guest_web_search :: "search_service \<Rightarrow> web_search_args \<Rightarrow> rstr + rstr" where
  "guest_web_search service args =
     (let query = trim (wa_query args);
          timeout_seconds = unwrap_or default_web_search_timeout_seconds (wa_timeout_seconds args)
      in if query = [] then Inl ''search requires a non-empty query''
         else (case (case wa_provider args of
                       Brave \<Rightarrow> (case usable_key (wa_api_key args) of
                                   Inl e \<Rightarrow> Inl e
                                 | Inr key \<Rightarrow> search_brave service query timeout_seconds key)
                     | Duckduckgo \<Rightarrow> search_duckduckgo service query timeout_seconds) of
                 Inl e \<Rightarrow> Inl e
               | Inr output \<Rightarrow>
                   (case sv_encode service output of
                      Inl e \<Rightarrow> Inl (''search serialization failed: '' @ e)
                    | Inr text \<Rightarrow> Inr text)))"

section \<open>Results of a search\<close>

text \<open>No two results share an address or a description, but for empty ones.\<close>

definition distinct_results :: "web_search_result list \<Rightarrow> bool" where
  "distinct_results rs \<longleftrightarrow>
     distinct (filter (\<lambda>u. u \<noteq> []) (map wr_url rs)) \<and> distinct (filter (\<lambda>d. d \<noteq> []) (map wr_description rs))"

definition good_results :: "web_search_result list \<Rightarrow> bool" where
  "good_results rs \<longleftrightarrow> length rs \<le> web_search_max_results \<and> distinct_results rs"

lemma push_result_good: "good_results rs \<Longrightarrow> good_results (push_result rs c)"
  by (auto simp: good_results_def distinct_results_def push_result_def Let_def list_ex_iff duplicates_def)

lemma push_topic_good: "good_results rs \<Longrightarrow> good_results (push_topic t text rs)"
  by (simp add: push_topic_def push_result_good split: prod.splits)

lemma push_raw_good: "good_results rs \<Longrightarrow> good_results (push_raw_results xs rs)"
  by (induction xs arbitrary: rs) (auto simp: Let_def push_topic_good split: option.splits)

lemma push_nested_good: "good_results rs \<Longrightarrow> good_results (push_nested xs rs)"
  by (induction xs arbitrary: rs) (auto simp: push_topic_good split: option.splits)

lemma push_related_good: "good_results rs \<Longrightarrow> good_results (push_related xs rs)"
  by (induction xs arbitrary: rs) (auto simp: push_topic_good push_nested_good split: option.splits)

lemma duckduckgo_good: "good_results (wo_results (map_duckduckgo_results query v))"
proof -
  have e: "good_results []" by (simp add: good_results_def distinct_results_def)
  show ?thesis
    by (auto simp: map_duckduckgo_results_def Let_def collect_duckduckgo_related_topics_def e push_result_good push_raw_good
        push_related_good split: option.splits)
qed

lemma brave_bounded: "length (wo_results (map_brave_results query rs)) \<le> web_search_max_results"
  by (simp add: map_brave_results_def)

lemma reported_count:
  "wo_total_results_returned (map_brave_results query rs) = length (wo_results (map_brave_results query rs))"
  "wo_total_results_returned (map_duckduckgo_results query v) = length (wo_results (map_duckduckgo_results query v))"
  by (simp_all add: map_brave_results_def map_duckduckgo_results_def Let_def)

section \<open>The two routes\<close>

lemma run_web_guest_Inr:
  "run_web_guest tool artifact t arguments (\<lambda>rq. Inr (guest_main (program (rq_stdin rq)))) = Inr out \<longleftrightarrow>
    program arguments = Inr out"
  by (auto simp: run_web_guest_def guest_main_def split: sum.splits)

lemma tool_res_Inr: "tool_res r = Inr v \<longleftrightarrow> r = Inr v"
  by (auto simp: tool_res_def split: sum.splits)

lemma guest_fetch_same: "fetch_url_markdown lib url t m = tool_res (guest_fetch_url_markdown lib url t m)"
  by (auto simp: fetch_url_markdown_def guest_fetch_url_markdown_def render_fetch_response_def guest_render_fetch_response_def
      tool_res_def Let_def split: option.splits timed.splits)

text \<open>
  For the network tools the sandbox makes no difference to what is found: a fetch or a search
  run as a guest has the same output as run directly, if the network answers the same, and fails
  when the other does.
\<close>

lemma web_routes_agree:
  "(web_fetch_wasm (\<lambda>rq. Inr (guest_main (guest_web_fetch lib (rq_stdin rq)))) fetch = Inr out \<longleftrightarrow>
      web_fetch_direct lib fetch = Inr out) \<and>
   (web_search_plan_of config from_str args_json = Inr plan \<longrightarrow>
     (web_search_wasm config (\<lambda>rq. Inr (guest_main (guest_web_search service (rq_stdin rq)))) plan = Inr out \<longleftrightarrow>
      web_search_direct service config plan = Inr out))"
proof (intro conjI impI)
  show "web_fetch_wasm (\<lambda>rq. Inr (guest_main (guest_web_fetch lib (rq_stdin rq)))) fetch = Inr out \<longleftrightarrow>
      web_fetch_direct lib fetch = Inr out"
    unfolding web_fetch_wasm_def run_web_guest_Inr
    by (simp add: web_fetch_direct_def guest_fetch_same tool_res_Inr guest_web_fetch_def unwrap_or_def)
next
  assume "web_search_plan_of config from_str args_json = Inr plan"
  then have q: "trim (ws_query plan) = ws_query plan" "ws_query plan \<noteq> []"
    by (auto simp: web_search_plan_of_def Let_def split: if_splits)
  show "web_search_wasm config (\<lambda>rq. Inr (guest_main (guest_web_search service (rq_stdin rq)))) plan = Inr out \<longleftrightarrow>
      web_search_direct service config plan = Inr out"
    unfolding web_search_wasm_def run_web_guest_Inr
    by (cases "wx_provider config")
       (auto simp: guest_web_search_def web_search_direct_def q Let_def unwrap_or_def rbind_eq_Inr tool_res_Inr split: sum.splits)
qed

end
