(* ===== verification/Sandbox.thy ===== *)
theory Sandbox
  imports FileTools ExecPolicy
begin

text \<open>
  \<open>src/sandbox/\<close>: how a WASM guest and a command in the host sandbox are run. The WASM engine, the
  sandbox library, processes, the clock and the directories of the system are arguments; the order
  of the steps, their errors, what the guest gets to see and what is cleaned up are the code's.
\<close>

section \<open>Commands in the host sandbox\<close>

record runtime_config =
  rc_allowed_domains :: "rstr list"
  rc_deny_read :: "rstr list"
  rc_allow_write :: "rstr list"
  rc_deny_write :: "rstr list"
  rc_allow_git_config :: "bool option"
  rc_allow_pty :: "bool option"

definition build_write_allow_paths :: "path \<Rightarrow> sandbox_policy \<Rightarrow> rstr list" where
  "build_write_allow_paths workspace_root sandbox =
     [path_text workspace_root, ''/tmp''] @ sp_extra_writable_paths sandbox"

text \<open>With the network enabled the library's default holds: no list of domains.\<close>

definition build_runtime_config :: "path \<Rightarrow> sandbox_policy \<Rightarrow> runtime_config" where
  "build_runtime_config workspace_root sandbox =
     \<lparr>rc_allowed_domains = (if sp_network_enabled sandbox then [] else [''sandbox.invalid'']),
      rc_deny_read = [], rc_allow_write = build_write_allow_paths workspace_root sandbox, rc_deny_write = [],
      rc_allow_git_config = Some False, rc_allow_pty = Some False\<rparr>"

text \<open>The end of a call that runs on a thread and a runtime of its own, within a time limit.\<close>

datatype 'a blocking = BlockTimedOut | JoinFailed rstr | NoRuntime rstr | CallFailed rstr | Returned 'a

datatype manager_call = Initialize runtime_config | Wrap rstr path | Reset

datatype process_end = NotStarted rstr | RanTooLong | Exited "int option" rstr rstr

record host_library =
  hl_initialize :: "runtime_config \<Rightarrow> unit blocking"
  hl_wrap :: "rstr \<Rightarrow> path \<Rightarrow> rstr blocking"
  hl_process :: "rstr \<Rightarrow> path \<Rightarrow> (rstr \<times> rstr) list \<Rightarrow> nat \<Rightarrow> process_end"  \<comment> \<open>bash -lc\<close>
  hl_lossy :: "rstr \<Rightarrow> rstr"
  hl_cwd :: "path res"

definition sandbox_init_timeout_secs :: nat where "sandbox_init_timeout_secs = 15"
definition sandbox_wrap_timeout_secs :: nat where "sandbox_wrap_timeout_secs = 15"

definition no_runtime :: "rstr \<Rightarrow> 'a res" where
  "no_runtime e = Inl (ToolError (''failed to create sandbox runtime: '' @ e))"

definition join_failed :: "rstr \<Rightarrow> 'a res" where
  "join_failed e = Inl (ToolError (''sandbox runtime join failed: '' @ e))"

definition run_manager_init_with_timeout :: "host_library \<Rightarrow> runtime_config \<Rightarrow> nat \<Rightarrow> unit res" where
  "run_manager_init_with_timeout lib runtime_cfg timeout_secs =
     (case hl_initialize lib runtime_cfg of
        BlockTimedOut \<Rightarrow> Inl (ToolError (''sandbox init timed out after '' @ show_nat timeout_secs @ ''s''))
      | JoinFailed e \<Rightarrow> join_failed e
      | NoRuntime e \<Rightarrow> no_runtime e
      | CallFailed e \<Rightarrow> Inl (ToolError (''failed to initialize sandbox runtime: '' @ e))
      | Returned _ \<Rightarrow> Inr ())"

definition run_manager_wrap_with_timeout :: "host_library \<Rightarrow> rstr \<Rightarrow> path \<Rightarrow> nat \<Rightarrow> rstr res" where
  "run_manager_wrap_with_timeout lib command cwd timeout_secs =
     (case hl_wrap lib command cwd of
        BlockTimedOut \<Rightarrow> Inl (ToolError (''sandbox wrap timed out after '' @ show_nat timeout_secs @ ''s''))
      | JoinFailed e \<Rightarrow> join_failed e
      | NoRuntime e \<Rightarrow> no_runtime e
      | CallFailed e \<Rightarrow> Inl (ToolError (''failed to wrap command in sandbox runtime: '' @ e))
      | Returned wrapped \<Rightarrow> Inr wrapped)"

record prepared_host_command =
  ph_wrapped_command :: rstr
  ph_workspace_root :: path

text \<open>The calls of the manager that were made, with the result.\<close>

definition prepare_command_for_exec ::
  "host_library \<Rightarrow> rstr \<Rightarrow> path \<Rightarrow> sandbox_policy \<Rightarrow> manager_call list \<times> prepared_host_command res" where
  "prepare_command_for_exec lib user_command workspace_root sandbox =
     (case normalize_workspace_root (hl_cwd lib) workspace_root of
        Inl e \<Rightarrow> ([], Inl e)
      | Inr workspace \<Rightarrow>
          (let runtime_cfg = build_runtime_config workspace sandbox
           in case run_manager_init_with_timeout lib runtime_cfg sandbox_init_timeout_secs of
                Inl e \<Rightarrow> ([Initialize runtime_cfg], Inl e)
              | Inr _ \<Rightarrow>
                  ([Initialize runtime_cfg, Wrap user_command workspace],
                   rbind (run_manager_wrap_with_timeout lib user_command workspace sandbox_wrap_timeout_secs) (\<lambda>wrapped.
                     Inr \<lparr>ph_wrapped_command = wrapped, ph_workspace_root = workspace\<rparr>))))"

definition sandbox_start_failed :: "rstr \<Rightarrow> 'a res" where
  "sandbox_start_failed e = Inl (ToolError (''exec failed to start sandbox runtime: '' @ e))"

text \<open>The exit code, with -1 for a process ended by a signal, and the two trimmed outputs.\<close>

definition host_run ::
  "host_library \<Rightarrow> rstr \<Rightarrow> path \<Rightarrow> sandbox_policy \<Rightarrow> (rstr \<times> rstr) list \<Rightarrow> nat \<Rightarrow>
   manager_call list \<times> (int \<times> rstr \<times> rstr) res" where
  "host_run lib command workspace_root policy env timeout_seconds =
     (case prepare_command_for_exec lib command workspace_root policy of
        (calls, Inl e) \<Rightarrow> (calls, Inl e)
      | (calls, Inr prepared) \<Rightarrow>
          (calls @ [Reset],
           (case hl_process lib (ph_wrapped_command prepared) (ph_workspace_root prepared) env timeout_seconds of
              NotStarted e \<Rightarrow> sandbox_start_failed e
            | RanTooLong \<Rightarrow> Inl (ToolError (''exec timed out after '' @ show_nat timeout_seconds @ ''s in sandbox runtime''))
            | Exited code stdout stderr \<Rightarrow>
                Inr (case code of Some c \<Rightarrow> c | None \<Rightarrow> -1, trim (hl_lossy lib stdout), trim (hl_lossy lib stderr)))))"

text \<open>A background command: it is prepared, then spawned; its cleanup comes when it is done.\<close>

definition host_spawn ::
  "host_library \<Rightarrow> rstr \<Rightarrow> path \<Rightarrow> sandbox_policy \<Rightarrow> (prepared_host_command \<Rightarrow> rstr + nat) \<Rightarrow> manager_call list \<times> nat res" where
  "host_spawn lib command workspace_root policy spawn =
     (case prepare_command_for_exec lib command workspace_root policy of
        (calls, Inl e) \<Rightarrow> (calls, Inl e)
      | (calls, Inr prepared) \<Rightarrow>
          (calls, case spawn prepared of Inl e \<Rightarrow> sandbox_start_failed e | Inr pid \<Rightarrow> Inr pid))"

definition host_cleanup :: "manager_call list" where
  "host_cleanup = [Reset]"

section \<open>WASM guests\<close>

definition wasm_tmp_mount :: rstr where "wasm_tmp_mount = ''/tmp''"

record wasm_system =
  wy_cwd :: "path res"
  wy_assets_dir :: "rstr option"       \<comment> \<open>SIMPLECLAW_WASM_ASSETS_DIR\<close>
  wy_exe :: "path option"
  wy_manifest_dir :: path              \<comment> \<open>CARGO_MANIFEST_DIR at build time\<close>
  wy_is_file :: "path \<Rightarrow> bool"
  wy_temp_dir :: path
  wy_now :: "rstr + nat \<times> nat"       \<comment> \<open>seconds and nanoseconds\<close>
  wy_create_dir :: "path \<Rightarrow> rstr option"

definition below :: "path \<Rightarrow> rstr list \<Rightarrow> path" where
  "below p names = p @ map Normal names"

definition artifact_candidates :: "wasm_system \<Rightarrow> rstr \<Rightarrow> path list" where
  "artifact_candidates sys artifact_name =
     (case wy_assets_dir sys of Some root \<Rightarrow> [below (components root) [artifact_name]] | None \<Rightarrow> []) @
     (case Option.bind (Option.bind (wy_exe sys) path_parent) path_parent of
        Some pre \<Rightarrow> [below pre [''share'', ''simpleclaw'', ''wasm'', artifact_name]]
      | None \<Rightarrow> []) @
     [below (wy_manifest_dir sys) [''target'', ''wasm32-wasip1'', ''release'', artifact_name],
      below (wy_manifest_dir sys) [''target'', ''wasm32-wasip1'', ''debug'', artifact_name]]"

definition resolve_guest_artifact_path :: "wasm_system \<Rightarrow> rstr \<Rightarrow> path res" where
  "resolve_guest_artifact_path sys artifact_name =
     (case find (wy_is_file sys) (artifact_candidates sys artifact_name) of
        Some p \<Rightarrow> Inr p
      | None \<Rightarrow>
          Inl (ToolError (''missing wasm artifact: name='' @ artifact_name @ '' searched=['' @
            join '', '' (map path_text (artifact_candidates sys artifact_name)) @
            ''] (build with: cargo build --package read_tool --package edit_tool --package glob_tool --package grep_tool --package list_tool --package web_fetch_tool --package web_search_tool --target wasm32-wasip1 --release)'')))"

text \<open>The name of the private directory has the value of a counter that every creation increments.\<close>

definition tmp_dir_path :: "wasm_system \<Rightarrow> nat \<times> nat \<Rightarrow> nat \<Rightarrow> path" where
  "tmp_dir_path sys now counter =
     below (wy_temp_dir sys) [''simpleclaw_wasm_'' @ show_nat (fst now) @ ''_'' @ show_nat (snd now) @ ''_'' @ show_nat counter]"

definition isolated_tmp_dir_create :: "wasm_system \<Rightarrow> nat \<Rightarrow> nat \<times> path res" where
  "isolated_tmp_dir_create sys counter =
     (case wy_now sys of
        Inl e \<Rightarrow> (counter, Inl (ToolError (''system clock error: '' @ e)))
      | Inr now \<Rightarrow>
          ((counter + 1) mod 2 ^ 64,
           case wy_create_dir sys (tmp_dir_path sys now counter) of
             Some e \<Rightarrow> Inl (IoError e)
           | None \<Rightarrow> Inr (tmp_dir_path sys now counter)))"

text \<open>What the engine answers at each step; the end of \<open>_start\<close> comes with the two outputs.\<close>

datatype start_end = Finished | ExitedWith int | Trapped rstr

record 'a wasm_engine =
  en_load :: "path \<Rightarrow> rstr option"
  en_link :: "rstr option"
  en_preopen :: "path \<Rightarrow> rstr \<Rightarrow> rstr option"
  en_instantiate :: "rstr option"
  en_start_missing :: "rstr option"
  en_run :: "(path \<times> rstr) list \<Rightarrow> 'a \<Rightarrow> start_end \<times> rstr \<times> rstr"
  en_lossy :: "rstr \<Rightarrow> rstr"

definition step_error :: "rstr \<Rightarrow> rstr option \<Rightarrow> unit res" where
  "step_error what failure = (case failure of Some e \<Rightarrow> Inl (ToolError (what @ e)) | None \<Rightarrow> Inr ())"

fun preopen_extra :: "'a wasm_engine \<Rightarrow> (path \<times> rstr) list \<Rightarrow> unit res" where
  "preopen_extra engine [] = Inr ()"
| "preopen_extra engine ((host_path, guest_path) # dirs) =
     rbind (step_error (''wasm guest failed to preopen extra dir: path='' @ path_text host_path @ '' guest_path='' @
              guest_path @ '' error='') (en_preopen engine host_path guest_path)) (\<lambda>_. preopen_extra engine dirs)"

text \<open>The directories a guest can reach, by the name it has for them, all of them writable.\<close>

definition guest_mounts :: "path \<Rightarrow> path \<Rightarrow> (path \<times> rstr) list \<Rightarrow> path \<Rightarrow> (path \<times> rstr) list" where
  "guest_mounts workspace persona preopened tmp =
     [(workspace, workspace_mount), (persona, persona_mount)] @ preopened @ [(tmp, wasm_tmp_mount)]"

definition run_wasm_guest_blocking ::
  "'a wasm_engine \<Rightarrow> path \<Rightarrow> path \<Rightarrow> (path \<times> rstr) list \<Rightarrow> path \<Rightarrow> 'a \<Rightarrow> path \<Rightarrow> wasm_run_result res" where
  "run_wasm_guest_blocking engine workspace persona preopened artifact stdin tmp =
     rbind (step_error (''wasm guest failed to load module: module='' @ path_text artifact @ '' error='') (en_load engine artifact)) (\<lambda>_.
     rbind (step_error ''wasm guest failed to link wasi: '' (en_link engine)) (\<lambda>_.
     rbind (step_error (''wasm guest failed to preopen workspace: path='' @ path_text workspace @ '' error='')
              (en_preopen engine workspace workspace_mount)) (\<lambda>_.
     rbind (step_error (''wasm guest failed to preopen persona: path='' @ path_text persona @ '' error='')
              (en_preopen engine persona persona_mount)) (\<lambda>_.
     rbind (preopen_extra engine preopened) (\<lambda>_.
     rbind (step_error (''wasm guest failed to preopen tmp dir: path='' @ path_text tmp @ '' error='')
              (en_preopen engine tmp wasm_tmp_mount)) (\<lambda>_.
     rbind (step_error ''wasm guest failed to instantiate: '' (en_instantiate engine)) (\<lambda>_.
     rbind (step_error ''wasm guest missing _start function: '' (en_start_missing engine)) (\<lambda>_.
       case en_run engine (guest_mounts workspace persona preopened tmp) stdin of
         (e, stdout, stderr) \<Rightarrow>
           (case e of
              Trapped m \<Rightarrow> Inl (ToolError (''wasm guest failed during _start: module='' @ path_text artifact @ '' error='' @ m))
            | Finished \<Rightarrow> Inr \<lparr>wr_stdout = en_lossy engine stdout, wr_stderr = en_lossy engine stderr, wr_exit_code = 0\<rparr>
            | ExitedWith c \<Rightarrow>
                Inr \<lparr>wr_stdout = en_lossy engine stdout, wr_stderr = en_lossy engine stderr, wr_exit_code = c\<rparr>)))))))))"

text \<open>
  A whole run. \<open>late\<close> says that the time limit passes first: then the result is an error, and the
  guest runs on without anybody waiting. The private directory exists during the run of the guest
  and is removed at its end, however it ends; it is returned as the second component.
\<close>

definition run_wasm_guest ::
  "wasm_system \<Rightarrow> 'a wasm_engine \<Rightarrow> bool \<Rightarrow> rstr \<Rightarrow> path \<Rightarrow> path \<Rightarrow> 'a run_wasm_request \<Rightarrow> nat \<Rightarrow>
   nat \<times> path option \<times> wasm_run_result res" where
  "run_wasm_guest sys engine late shown_timeout workspace_root persona_root request counter =
     (case rbind (normalize_workspace_root (wy_cwd sys) workspace_root) (\<lambda>workspace.
           rbind (normalize_workspace_root (wy_cwd sys) persona_root) (\<lambda>persona.
           rbind (resolve_guest_artifact_path sys (rq_artifact_name request)) (\<lambda>artifact.
             Inr (workspace, persona, artifact)))) of
        Inl e \<Rightarrow> (counter, None, Inl e)
      | Inr (workspace, persona, artifact) \<Rightarrow>
          (let timed_out = Inl (ToolError (''wasm guest timed out after '' @ shown_timeout))
           in case isolated_tmp_dir_create sys counter of
                (counter', Inl e) \<Rightarrow> (counter', None, if late then timed_out else Inl e)
              | (counter', Inr tmp) \<Rightarrow>
                  (counter', Some tmp,
                   if late then timed_out
                   else run_wasm_guest_blocking engine workspace persona (rq_preopened_dirs request) artifact
                          (rq_stdin request) tmp)))"

section \<open>Lemmas\<close>

text \<open>A command that ran, or could not, leaves no sandbox behind once it was wrapped.\<close>

lemma prepared_calls:
  "prepare_command_for_exec lib command ws policy = (calls, Inr prepared) \<Longrightarrow>
   \<exists>root. calls = [Initialize (build_runtime_config root policy), Wrap command root] \<and> ph_workspace_root prepared = root"
  by (auto simp: prepare_command_for_exec_def Let_def rbind_eq_Inr split: sum.splits)

lemma host_run_resets:
  assumes "host_run lib command ws policy env t = (calls, r)"
  shows "(\<exists>prep. calls = prep @ [Reset]) \<or> (\<exists>e. r = Inl e \<and> prepare_command_for_exec lib command ws policy = (calls, Inl e))"
proof (cases "prepare_command_for_exec lib command ws policy")
  case (Pair c p)
  then show ?thesis using assms by (cases p) (auto simp: host_run_def)
qed

text \<open>Without the network only a domain that cannot exist is allowed, and writing is confined.\<close>

lemma host_run_confined:
  assumes "host_run lib command ws policy env t = (calls, Inr out)"
  shows "\<exists>root wrapped. normalize_workspace_root (hl_cwd lib) ws = Inr root \<and>
    hl_wrap lib command root = Returned wrapped \<and>
    calls = [Initialize (build_runtime_config root policy), Wrap command root, Reset] \<and>
    rc_allow_write (build_runtime_config root policy) = [path_text root, ''/tmp''] @ sp_extra_writable_paths policy \<and>
    (\<not> sp_network_enabled policy \<longrightarrow> rc_allowed_domains (build_runtime_config root policy) = [''sandbox.invalid''])"
  using assms
  by (auto simp: host_run_def prepare_command_for_exec_def Let_def rbind_eq_Inr run_manager_wrap_with_timeout_def
      no_runtime_def join_failed_def build_runtime_config_def build_write_allow_paths_def
      split: prod.splits sum.splits blocking.splits)

text \<open>Two runs at the same instant still have directories of their own.\<close>

lemma tmp_dirs_differ: "m \<noteq> n \<Longrightarrow> tmp_dir_path sys now m \<noteq> tmp_dir_path sys now n"
  by (simp add: tmp_dir_path_def below_def)

text \<open>A guest reads its request with exactly the mounts that the file policy takes for granted.\<close>

lemma guest_gets_its_mounts:
  assumes "run_wasm_guest sys engine late d ws persona request counter = (counter', tmp, Inr result)"
  shows "\<exists>w p t. normalize_workspace_root (wy_cwd sys) ws = Inr w \<and> normalize_workspace_root (wy_cwd sys) persona = Inr p \<and>
    tmp = Some t \<and> \<not> late \<and>
    (\<exists>e. en_run engine (guest_mounts w p (rq_preopened_dirs request) t) (rq_stdin request) = e \<and>
       wr_stdout result = en_lossy engine (fst (snd e)) \<and>
       wr_exit_code result = (case fst e of ExitedWith c \<Rightarrow> c | _ \<Rightarrow> 0))"
proof -
  obtain w p a where r: "normalize_workspace_root (wy_cwd sys) ws = Inr w" "normalize_workspace_root (wy_cwd sys) persona = Inr p"
    "resolve_guest_artifact_path sys (rq_artifact_name request) = Inr a"
    using assms by (auto simp: run_wasm_guest_def rbind_eq_Inr split: sum.splits)
  obtain t where t: "tmp = Some t" "\<not> late"
    "run_wasm_guest_blocking engine w p (rq_preopened_dirs request) a (rq_stdin request) t = Inr result"
    using assms by (auto simp: run_wasm_guest_def r Let_def split: prod.splits sum.splits if_splits)
  show ?thesis
    using t(3) r(1,2) t(1,2)
    by (auto simp: run_wasm_guest_blocking_def rbind_eq_Inr split: prod.splits start_end.splits)
qed

lemma mounts_mean_host_paths:
  assumes "guest_to_host w p gp = Some hp"
  shows "\<exists>host mount rest. (host, mount) \<in> set (guest_mounts w p pre t) \<and> gp = components mount @ rest \<and> hp = host @ rest"
proof (cases "strip_path (components workspace_mount) gp")
  case (Some rest)
  then have "hp = w @ rest" using assms by (simp add: guest_to_host_def)
  moreover have "gp = components workspace_mount @ rest" using Some by (simp add: strip_path_Some)
  ultimately have "gp = components workspace_mount @ rest" "hp = w @ rest" by simp_all
  then show ?thesis by (auto simp: guest_mounts_def)
next
  case None
  then obtain rest where "strip_path (components persona_mount) gp = Some rest" "hp = p @ rest"
    using assms by (auto simp: guest_to_host_def)
  then have "gp = components persona_mount @ rest" "hp = p @ rest" by (auto simp: strip_path_Some)
  then show ?thesis by (auto simp: guest_mounts_def)
qed

end
