(* ===== verification/Assembly.thy ===== *)
theory Assembly
  imports Providers Persona ToolRegistry DiscordChannel GatewayService Memory Cron
begin

text \<open>
  \<open>src/run/composition.rs\<close>, with the constructors it calls: \<open>MemoryStore::new\<close>
  (\<open>src/memory/mod.rs\<close>), \<open>SessionStore::open\<close>, \<open>CronStore::open\<close>, \<open>DiscordChannel::from_config\<close>
  and \<open>AgentDirectory\<close> (\<open>src/agent.rs\<close>): how the running service is put together from a loaded
  configuration. SQLite, the embedding model and the Discord client are parameters, by the errors
  of their calls; the files of the personas are those of \<open>Persona\<close>.
\<close>

section \<open>The libraries\<close>

datatype statement =
    JournalModeWal
  | BusyTimeout int
  | CreateTables "rstr list"
  | SelectVecVersion
  | AddColumn rstr rstr

text \<open>Each call answers \<open>None\<close> or the text of its error; \<open>dl_register\<close> is the code of SQLite, 0 for success.\<close>

record database_lib =
  dl_create_dir_all :: "rstr \<Rightarrow> rstr option"
  dl_register :: int
  dl_create_pool :: "rstr \<Rightarrow> rstr option"
  dl_pool_get :: "rstr \<Rightarrow> rstr option"
  dl_open :: "rstr \<Rightarrow> rstr option"
  dl_statement :: "rstr \<Rightarrow> statement \<Rightarrow> rstr option"
  dl_embedder :: "rstr \<Rightarrow> rstr option"
  dl_discord_client :: "rstr \<Rightarrow> rstr option"

text \<open>A call that gave an error, with the constructor of the error it becomes.\<close>

definition attempt :: "(rstr \<Rightarrow> 'e) \<Rightarrow> rstr option \<Rightarrow> 'e + unit" where
  "attempt f r = (case r of Some m \<Rightarrow> Inl (f m) | None \<Rightarrow> Inr ())"

fun run_statements :: "database_lib \<Rightarrow> rstr \<Rightarrow> statement list \<Rightarrow> unit res" where
  "run_statements lib path [] = Inr ()"
| "run_statements lib path (s # ss) = rbind (attempt DbError (dl_statement lib path s)) (\<lambda>_. run_statements lib path ss)"

section \<open>The memory store\<close>

definition register_sqlite_vec :: "database_lib \<Rightarrow> unit res" where
  "register_sqlite_vec lib =
     (if dl_register lib = 0 then Inr ()
      else Inl (ConfigError (''failed to register bundled sqlite-vec extension (sqlite3_auto_extension rc='' @
             show_int (dl_register lib) @ '')'')))"

text \<open>\<open>busy_timeout_ms as i64\<close>.\<close>

definition timeout_as_i64 :: "nat \<Rightarrow> int" where
  "timeout_as_i64 n = sint (of_nat n :: 64 word)"

definition init_schema :: "database_lib \<Rightarrow> database_config \<Rightarrow> rstr \<Rightarrow> unit res" where
  "init_schema lib db_config pool =
     rbind (attempt ConfigError (dl_pool_get lib pool)) (\<lambda>_.
       run_statements lib pool
         [JournalModeWal, BusyTimeout (timeout_as_i64 (dbc_busy_timeout_ms db_config)),
          CreateTables [''sessions'', ''messages'', ''messages_vec''], SelectVecVersion])"

definition init_long_term_schema :: "database_lib \<Rightarrow> database_config \<Rightarrow> rstr \<Rightarrow> unit res" where
  "init_long_term_schema lib db_config long_term_pool =
     rbind (attempt ConfigError (dl_pool_get lib long_term_pool)) (\<lambda>_.
       run_statements lib long_term_pool
         [JournalModeWal, BusyTimeout (timeout_as_i64 (dbc_busy_timeout_ms db_config)),
          CreateTables [''ltm_facts'', ''ltm_facts_vec''], SelectVecVersion])"

record memory_store =
  ms_pool :: rstr
  ms_long_term_pool :: rstr
  ms_embedder :: bool

definition memory_with_embedder ::
  "database_lib \<Rightarrow> rstr \<Rightarrow> rstr \<Rightarrow> database_config \<Rightarrow> unit res \<Rightarrow> bool \<Rightarrow> memory_store res" where
  "memory_with_embedder lib short_term_path long_term_path db_config embedder has_embedder =
     rbind (register_sqlite_vec lib) (\<lambda>_.
     rbind (attempt ConfigError (dl_create_pool lib short_term_path)) (\<lambda>_.
     rbind (attempt ConfigError (dl_create_pool lib long_term_path)) (\<lambda>_.
     rbind embedder (\<lambda>_.
     rbind (init_schema lib db_config short_term_path) (\<lambda>_.
     rbind (init_long_term_schema lib db_config long_term_path) (\<lambda>_.
       Inr \<lparr>ms_pool = short_term_path, ms_long_term_pool = long_term_path, ms_embedder = has_embedder\<rparr>))))))"

definition new_with_cache_dir :: "database_lib \<Rightarrow> rstr \<Rightarrow> rstr \<Rightarrow> database_config \<Rightarrow> rstr \<Rightarrow> memory_store res" where
  "new_with_cache_dir lib short_term_path long_term_path db_config fastembed_cache_dir =
     memory_with_embedder lib short_term_path long_term_path db_config
       (rbind (attempt IoError (dl_create_dir_all lib fastembed_cache_dir)) (\<lambda>_.
          attempt (\<lambda>e. ConfigError (''failed to initialize embedder: '' @ e)) (dl_embedder lib fastembed_cache_dir)))
       True"

definition new_without_embedder :: "database_lib \<Rightarrow> rstr \<Rightarrow> rstr \<Rightarrow> database_config \<Rightarrow> memory_store res" where
  "new_without_embedder lib short_term_path long_term_path db_config =
     memory_with_embedder lib short_term_path long_term_path db_config (Inr ()) False"

definition ensure_fastembed_cache_dir :: "database_lib \<Rightarrow> app_paths \<Rightarrow> unit res" where
  "ensure_fastembed_cache_dir lib paths = attempt IoError (dl_create_dir_all lib (ap_fastembed_cache_dir paths))"

definition memory_store_new :: "environment \<Rightarrow> database_lib \<Rightarrow> rstr \<Rightarrow> rstr \<Rightarrow> database_config \<Rightarrow> memory_store res" where
  "memory_store_new env lib short_term_path long_term_path db_config =
     rbind (resolve_app_paths env) (\<lambda>paths.
     rbind (ensure_fastembed_cache_dir lib paths) (\<lambda>_.
       new_with_cache_dir lib short_term_path long_term_path db_config (ap_fastembed_cache_dir paths)))"

section \<open>The other databases\<close>

text \<open>\<open>Path::parent\<close> of the paths that are opened, which end with the name of a file.\<close>

definition file_parent :: "rstr \<Rightarrow> rstr" where
  "file_parent path = rev (drop 1 (dropWhile (\<lambda>c. c \<noteq> CHR ''/'') (rev path)))"

definition open_connection :: "database_lib \<Rightarrow> rstr \<Rightarrow> unit res" where
  "open_connection lib path =
     rbind (attempt IoError (dl_create_dir_all lib (file_parent path))) (\<lambda>_. attempt DbError (dl_open lib path))"

definition open_with_connection :: "database_lib \<Rightarrow> rstr \<Rightarrow> unit res" where
  "open_with_connection lib path =
     run_statements lib path [JournalModeWal, BusyTimeout 5000, CreateTables [''active_sessions'']]"

definition session_store_open :: "database_lib \<Rightarrow> rstr \<Rightarrow> rstr res" where
  "session_store_open lib path =
     rbind (open_connection lib path) (\<lambda>_. rbind (open_with_connection lib path) (\<lambda>_. Inr path))"

text \<open>A column that an older database lacks is added; that it is there already is no error.\<close>

definition add_description_column :: "database_lib \<Rightarrow> rstr \<Rightarrow> unit res" where
  "add_description_column lib path =
     (case dl_statement lib path (AddColumn ''cron_jobs'' ''description'') of
        None \<Rightarrow> Inr ()
      | Some err \<Rightarrow> if str_contains err ''duplicate column name: description'' then Inr () else Inl (DbError err))"

definition cron_store_open :: "database_lib \<Rightarrow> rstr \<Rightarrow> rstr res" where
  "cron_store_open lib path =
     rbind (open_connection lib path) (\<lambda>_.
     rbind (run_statements lib path [JournalModeWal, BusyTimeout 5000, CreateTables [''cron_jobs'', ''idx_cron_jobs_agent'']]) (\<lambda>_.
     rbind (add_description_column lib path) (\<lambda>_. Inr path)))"

section \<open>Reports\<close>

text \<open>The errors of the assembly: what failed, wrapped in what it was for.\<close>

datatype report = Report framework_error | IoReport rstr | Message rstr | WrapErr rstr report

type_synonym 'a assembled = "report + 'a"

fun wrap_err :: "rstr \<Rightarrow> 'a assembled \<Rightarrow> 'a assembled" where
  "wrap_err context (Inl e) = Inl (WrapErr context e)"
| "wrap_err context (Inr v) = Inr v"

definition reported :: "'a res \<Rightarrow> 'a assembled" where
  "reported r = (case r of Inl e \<Rightarrow> Inl (Report e) | Inr v \<Rightarrow> Inr v)"

definition abind :: "'a assembled \<Rightarrow> ('a \<Rightarrow> 'b assembled) \<Rightarrow> 'b assembled" where
  "abind m f = (case m of Inl e \<Rightarrow> Inl e | Inr v \<Rightarrow> f v)"

definition for_agent :: "rstr \<Rightarrow> rstr \<Rightarrow> rstr" where
  "for_agent doing agent_id = doing @ '' for agent '' @ [SQ] @ agent_id @ [SQ]"

section \<open>The default factories\<close>

definition create_provider_factory :: "environment \<Rightarrow> 'f global_config \<Rightarrow> provider_instance provider_factory assembled" where
  "create_provider_factory env loaded =
     wrap_err ''failed to initialize provider factory''
       (reported (provider_factory_from_config (resolve_app_paths env) (glob_providers loaded)))"

definition agent_persona_memory_paths :: "rstr \<Rightarrow> rstr \<times> rstr \<times> rstr" where
  "agent_persona_memory_paths persona_root =
     (let memory_dir = path_push (path_push persona_root ''.simpleclaw'') ''memory''
      in (memory_dir, path_push memory_dir ''short_term_memory.db'', path_push memory_dir ''long_term_memory.db''))"

definition create_memory :: "environment \<Rightarrow> database_lib \<Rightarrow> 'f agent_entry_config \<Rightarrow> 'f global_config \<Rightarrow> memory_store assembled" where
  "create_memory env lib agent loaded =
     (case agent_persona_memory_paths (agt_persona agent) of
        (memory_dir, short_term_path, long_term_path) \<Rightarrow>
          abind (wrap_err (for_agent ''failed to create memory directory'' (agt_id agent) @ '': '' @ memory_dir)
                   (attempt IoReport (dl_create_dir_all lib memory_dir))) (\<lambda>_.
            wrap_err (for_agent ''failed to initialize sqlite memory store'' (agt_id agent))
              (reported (memory_store_new env lib short_term_path long_term_path (glob_database loaded)))))"

text \<open>A channel is known by the token of its client.\<close>

datatype channel_instance = DiscordInstance rstr

definition discord_from_config :: "database_lib \<Rightarrow> channel_config \<Rightarrow> channel_instance res" where
  "discord_from_config lib config =
     rbind (discord_token (chan_token config)) (\<lambda>token.
     rbind (attempt (\<lambda>e. ConfigError (''failed to initialize discord client: '' @ e)) (dl_discord_client lib token)) (\<lambda>_.
       Inr (DiscordInstance token)))"

fun create_channels ::
  "database_lib \<Rightarrow> (gateway_channel_kind \<times> channel_config) list \<Rightarrow>
   (gateway_channel_kind \<times> channel_instance) list \<Rightarrow> (gateway_channel_kind \<times> channel_instance) list assembled" where
  "create_channels lib [] channels = Inr channels"
| "create_channels lib ((kind, config) # rest) channels =
     (if \<not> chan_enabled config then create_channels lib rest channels
      else abind (case kind of
                    Discord \<Rightarrow> wrap_err ''failed to initialize discord channel'' (reported (discord_from_config lib config)))
             (\<lambda>channel. create_channels lib rest (AList.update kind channel channels)))"

section \<open>The agents\<close>

record 'f agent_runtime_config =
  arc_agent_id :: rstr
  arc_agent_name :: rstr
  arc_provider_key :: rstr
  arc_effective_execution :: "'f execution_defaults"
  arc_owner_ids :: "rstr list"
  arc_agent_config :: "'f agent_inner_config"
  arc_tool_registry :: tool_registry
  arc_persona_root :: rstr
  arc_workspace_root :: rstr
  arc_app_base_dir :: rstr
  arc_system_prompt :: rstr

record 'f directory =
  adr_agent_configs :: "(rstr \<times> 'f agent_runtime_config) list"
  adr_memories :: "(rstr \<times> memory_store) list"

definition directory_config :: "'f directory \<Rightarrow> rstr \<Rightarrow> 'f agent_runtime_config option" where
  "directory_config self agent_id = map_of (adr_agent_configs self) agent_id"

definition directory_memory :: "'f directory \<Rightarrow> rstr \<Rightarrow> memory_store option" where
  "directory_memory self agent_id = map_of (adr_memories self) agent_id"

text \<open>The two loops over the agents, which fill a map by the agent's id.\<close>

fun for_each_agent ::
  "('f agent_entry_config \<Rightarrow> 'v assembled) \<Rightarrow> 'f agent_entry_config list \<Rightarrow> (rstr \<times> 'v) list \<Rightarrow> (rstr \<times> 'v) list assembled" where
  "for_each_agent build1 [] filled = Inr filled"
| "for_each_agent build1 (agent # agents) filled =
     abind (build1 agent) (\<lambda>v. for_each_agent build1 agents (AList.update (agt_id agent) v filled))"

definition provider_key_of :: "'f global_config \<Rightarrow> 'f agent_entry_config \<Rightarrow> rstr" where
  "provider_key_of loaded agent =
     trim (case inner_provider (agt_config agent) of Some p \<Rightarrow> p | None \<Rightarrow> prov_default (glob_providers loaded))"

definition with_skill_section :: "rstr \<Rightarrow> rstr \<Rightarrow> rstr" where
  "with_skill_section system_prompt section1 =
     (if section1 \<noteq> [] then system_prompt @ [NL, NL] @ section1 else system_prompt)"

definition assemble_agent ::
  "persona_fs \<Rightarrow> rstr \<Rightarrow> app_paths \<Rightarrow> 'f global_config \<Rightarrow> provider_instance provider_factory \<Rightarrow>
   'f agent_entry_config \<Rightarrow> 'f agent_runtime_config assembled" where
  "assemble_agent fs serde_error paths loaded provider_factory1 agent =
     (let config = agt_config agent; provider_key = provider_key_of loaded agent;
          effective_execution = merge_with_overrides (exe_defaults (glob_execution loaded)) (inner_execution config)
      in if provider_key = [] then
           Inl (Message (''agent '' @ [SQ] @ agt_id agent @ [SQ] @ '' has an empty provider key in config.yaml''))
         else
           abind (reported (get_provider provider_factory1 provider_key)) (\<lambda>_.
           abind (wrap_err (for_agent ''failed to assemble layered system prompt'' (agt_id agent))
                    (reported (from_persona fs (agt_persona agent)))) (\<lambda>system_prompt.
           abind (wrap_err (for_agent ''failed to load skills'' (agt_id agent))
                    (reported (load_for_agent fs (ap_base_dir paths) config (agt_persona agent)))) (\<lambda>skill_catalog.
           abind (wrap_err (for_agent ''failed to build tool registry'' (agt_id agent))
                    (reported (build_registry serde_error service_factory (inner_tools config)
                       (case skill_tool skill_catalog of Some t \<Rightarrow> [t] | None \<Rightarrow> [])))) (\<lambda>tool_registry.
             Inr \<lparr>arc_agent_id = agt_id agent, arc_agent_name = agt_name agent, arc_provider_key = provider_key,
               arc_effective_execution = effective_execution, arc_owner_ids = exe_owner_ids (glob_execution loaded),
               arc_agent_config = config, arc_tool_registry = tool_registry, arc_persona_root = agt_persona agent,
               arc_workspace_root = agt_workspace agent, arc_app_base_dir = ap_base_dir paths,
               arc_system_prompt = with_skill_section system_prompt (prompt_section skill_catalog)\<rparr>)))))"

section \<open>The state of the service\<close>

record gateway_instance =
  gti_channels :: "(gateway_channel_kind \<times> channel_instance) list"
  gti_output_modes :: "(gateway_channel_kind \<times> channel_output_mode) list"
  gti_inbound_policy :: routing_config
  gti_session_store :: rstr

record 'f runtime_state =
  svc_gateway :: gateway_instance
  svc_directory :: "'f directory"
  svc_react_loop :: "provider_instance provider_factory"
  svc_async_tool_runs :: run_manager
  svc_approval_registry :: approval_registry
  svc_runtimes :: "(rstr \<times> 'f agent_runtime_config) list"
  svc_cron_store :: rstr
  svc_safe_error_reply :: rstr
  svc_session_coordinator :: "inbound_message coordinator"

definition output_modes :: "'f global_config \<Rightarrow> (gateway_channel_kind \<times> channel_output_mode) list" where
  "output_modes loaded =
     map (\<lambda>(kind, config). (kind, chan_output config))
       (filter (\<lambda>(_, config). chan_enabled config) (gate_channels (glob_gateway loaded)))"

definition assemble_runtime_state ::
  "environment \<Rightarrow> database_lib \<Rightarrow> persona_fs \<Rightarrow> rstr \<Rightarrow> 'f global_config \<Rightarrow> app_paths \<Rightarrow> 'f runtime_state assembled" where
  "assemble_runtime_state env lib fs serde_error loaded paths =
     (let agents = agts_list (glob_agents loaded)
      in abind (create_provider_factory env loaded) (\<lambda>provider_factory1.
         abind (for_each_agent (\<lambda>agent. create_memory env lib agent loaded) agents []) (\<lambda>memories_map.
         abind (reported (cron_store_open lib (ap_cron_db_path paths))) (\<lambda>cron_store.
         abind (for_each_agent (assemble_agent fs serde_error paths loaded provider_factory1) agents []) (\<lambda>agent_configs_map.
         abind (create_channels lib (gate_channels (glob_gateway loaded)) []) (\<lambda>channels.
         abind (wrap_err ''failed to initialize session store''
                  (reported (session_store_open lib (ap_session_db_path paths)))) (\<lambda>session_store.
           Inr \<lparr>svc_gateway = \<lparr>gti_channels = channels, gti_output_modes = output_modes loaded,
                  gti_inbound_policy = gate_routing (glob_gateway loaded), gti_session_store = session_store\<rparr>,
                svc_directory = \<lparr>adr_agent_configs = agent_configs_map, adr_memories = memories_map\<rparr>,
                svc_react_loop = provider_factory1, svc_async_tool_runs = manager_new,
                svc_approval_registry = registry_new, svc_runtimes = agent_configs_map, svc_cron_store = cron_store,
                svc_safe_error_reply = ed_safe_error_reply (exe_defaults (glob_execution loaded)),
                svc_session_coordinator = coordinator_new\<rparr>)))))))"

text \<open>
  \<open>start_runtime_services\<close> resolves the environment of every agent for the guards of its jobs;
  \<open>None\<close> is the panic of \<open>expect\<close>.
\<close>

fun cron_env_by_agent :: "(rstr \<times> 'f agent_runtime_config) list \<Rightarrow> (rstr \<times> (rstr \<times> rstr) list) list option" where
  "cron_env_by_agent [] = Some []"
| "cron_env_by_agent ((agent_id, config) # rest) =
     (case resolved_env (ed_env (arc_effective_execution config)) of
        Inl _ \<Rightarrow> None
      | Inr vars \<Rightarrow> map_option ((#) (agent_id, vars)) (cron_env_by_agent rest))"

definition start_runtime_services :: "'f runtime_state \<Rightarrow> (rstr \<times> (rstr \<times> rstr) list) list option" where
  "start_runtime_services state1 = cron_env_by_agent (svc_runtimes state1)"

section \<open>Lemmas\<close>

lemma abind_eq_Inr: "abind m f = Inr y \<longleftrightarrow> (\<exists>v. m = Inr v \<and> f v = Inr y)"
  by (cases m) (simp_all add: abind_def)

lemma wrap_err_Inr [simp]: "wrap_err c r = Inr v \<longleftrightarrow> r = Inr v"
  by (cases r) simp_all

lemma reported_Inr [simp]: "reported r = Inr v \<longleftrightarrow> r = Inr v"
  by (cases r) (simp_all add: reported_def)

lemma attempt_None [simp]: "attempt f None = Inr ()"
  by (simp add: attempt_def)

lemma for_each_agent_ok:
  assumes "for_each_agent build1 agents filled = Inr filled'" "distinct (map agt_id agents)"
  shows "fst ` set filled' = fst ` set filled \<union> agt_id ` set agents"
    "\<forall>a\<in>set agents. \<exists>v. build1 a = Inr v \<and> map_of filled' (agt_id a) = Some v"
    "\<forall>k. k \<notin> agt_id ` set agents \<longrightarrow> map_of filled' k = map_of filled k"
  using assms
proof (induction agents arbitrary: filled)
  case (Cons a agents)
  {
    case 1
    then obtain v where v: "for_each_agent build1 agents (AList.update (agt_id a) v filled) = Inr filled'"
      by (auto simp: abind_eq_Inr)
    have "distinct (map agt_id agents)" using 1(2) by simp
    from Cons.IH(1)[OF v this] show ?case by (simp add: dom_update)
  next
    case 2
    then obtain v where v: "build1 a = Inr v" "for_each_agent build1 agents (AList.update (agt_id a) v filled) = Inr filled'"
      by (auto simp: abind_eq_Inr)
    have "map_of filled' (agt_id a) = Some v"
      using Cons.IH(3)[OF v(2)] 2(2) by (auto simp: update_conv)
    then show ?case using v(1) Cons.IH(2)[OF v(2)] 2(2) by auto
  next
    case 3
    then show ?case using Cons.IH(3) by (fastforce simp: abind_eq_Inr update_conv)
  }
qed simp_all

lemma for_each_agent_works:
  assumes "\<forall>a\<in>set agents. \<exists>v. build1 a = Inr v"
  shows "\<exists>filled'. for_each_agent build1 agents filled = Inr filled'"
  using assms by (induction agents arbitrary: filled) (auto simp: abind_eq_Inr)

lemma for_each_agent_each: "for_each_agent build1 agents filled = Inr filled' \<Longrightarrow> \<forall>a\<in>set agents. \<exists>v. build1 a = Inr v"
  by (induction agents arbitrary: filled) (auto simp: abind_eq_Inr)

lemma create_channels_ok:
  assumes "create_channels lib configs channels = Inr channels'"
  shows "\<forall>x\<in>set configs. chan_enabled (snd x) \<longrightarrow> fst x \<in> fst ` set channels' \<and> (\<exists>c. discord_from_config lib (snd x) = Inr c)"
    "fst ` set channels \<subseteq> fst ` set channels'"
  using assms
proof (induction configs arbitrary: channels)
  case (Cons x rest)
  obtain kind config where x: "x = (kind, config)" by fastforce
  have k: "kind = Discord" by (cases kind)
  {
    case 1
    then show ?case
    proof (cases "chan_enabled config")
      case True
      then obtain c where c: "discord_from_config lib config = Inr c"
        "create_channels lib rest (AList.update Discord c channels) = Inr channels'"
        using 1 by (auto simp: x k abind_eq_Inr)
      have "Discord \<in> fst ` set channels'" using Cons.IH(2)[OF c(2)] by (simp add: dom_update)
      then show ?thesis using c Cons.IH(1)[OF c(2)] by (auto simp: x k)
    qed (use Cons.IH(1) in \<open>simp add: x\<close>)
  next
    case 2
    then show ?case
    proof (cases "chan_enabled config")
      case True
      then obtain c where "create_channels lib rest (AList.update Discord c channels) = Inr channels'"
        using 2 by (auto simp: x k abind_eq_Inr)
      from Cons.IH(2)[OF this] show ?thesis by (simp add: dom_update)
    qed (use Cons.IH(2) 2 in \<open>simp add: x\<close>)
  }
qed simp_all

lemma create_channels_works:
  assumes "\<forall>x\<in>set configs. chan_enabled (snd x) \<longrightarrow> (\<exists>c. discord_from_config lib (snd x) = Inr c)"
  shows "\<exists>channels'. create_channels lib configs channels = Inr channels'"
  using assms
proof (induction configs arbitrary: channels)
  case (Cons x rest)
  obtain kind config where x: "x = (kind, config)" by fastforce
  show ?case using Cons by (cases kind) (auto simp: x abind_eq_Inr)
qed simp

lemma factory_keys:
  assumes "provider_factory_from_config paths config = Inr factory"
  shows "fst ` set factory = fst ` set (prov_entries config)"
proof -
  have "list_all2 (\<lambda>x y. fst x = fst y) (prov_entries config) factory"
    using assms unfolding provider_factory_from_config_def rtraverse_eq_Inr
    by (rule list_all2_mono) (auto simp: rbind_eq_Inr)
  then have "map fst (prov_entries config) = map fst factory" by (simp add: list_all2_conv_all_nth list_eq_iff_nth_eq)
  then show ?thesis by (metis list.set_map)
qed

section \<open>When the service comes up\<close>

text \<open>Every call of a library succeeds, and the files of the personas can be read.\<close>

definition libraries_work :: "database_lib \<Rightarrow> bool" where
  "libraries_work lib \<longleftrightarrow> dl_register lib = 0 \<and>
     (\<forall>p. dl_create_dir_all lib p = None \<and> dl_create_pool lib p = None \<and> dl_pool_get lib p = None \<and> dl_open lib p = None \<and>
        dl_embedder lib p = None \<and> dl_discord_client lib p = None \<and> (\<forall>st. dl_statement lib p st = None))"

definition personas_readable :: "persona_fs \<Rightarrow> app_paths \<Rightarrow> 'f agent_entry_config list \<Rightarrow> bool" where
  "personas_readable fs paths agents \<longleftrightarrow>
     (\<forall>a\<in>set agents. (\<exists>prompt. from_persona fs (agt_persona a) = Inr prompt) \<and>
        (\<exists>catalog. load_for_agent fs (ap_base_dir paths) (agt_config a) (agt_persona a) = Inr catalog))"

lemma statements_work: "libraries_work lib \<Longrightarrow> run_statements lib path ss = Inr ()"
  by (induction ss) (auto simp: libraries_work_def)

lemma memory_works:
  assumes "libraries_work lib" "resolve_app_paths env = Inr paths"
  shows "\<exists>m. create_memory env lib agent loaded = Inr m"
  using assms statements_work[OF assms(1)]
  by (simp add: create_memory_def agent_persona_memory_paths_def Let_def abind_eq_Inr memory_store_new_def
      ensure_fastembed_cache_dir_def new_with_cache_dir_def memory_with_embedder_def register_sqlite_vec_def
      init_schema_def init_long_term_schema_def libraries_work_def)

lemma stores_work:
  assumes "libraries_work lib"
  shows "session_store_open lib path = Inr path" "cron_store_open lib path = Inr path"
  using assms statements_work[OF assms]
  by (simp_all add: session_store_open_def cron_store_open_def open_connection_def open_with_connection_def
      add_description_column_def libraries_work_def)

lemma discord_works:
  assumes "libraries_work lib" "\<forall>s. chan_token config = Some s \<longrightarrow> secret_ready s"
  shows "(\<exists>c. discord_from_config lib config = Inr c) \<longleftrightarrow> chan_token config \<noteq> None"
  using assms by (cases "chan_token config") (auto simp: discord_from_config_def discord_token_def libraries_work_def secret_ready_def)

lemma web_key_of_ready:
  assumes "runtime_ready g a"
  shows "web_key_resolved (inner_tools (agt_config a))"
proof (cases "t_web_search (inner_tools (agt_config a))")
  case None
  then show ?thesis by (simp add: web_key_resolved_def default_web_search_def or_default_def)
next
  case (Some ws)
  with assms obtain rt where "web_search_to_runtime ws = Inr rt" unfolding runtime_ready_def by blast
  with Some show ?thesis
    by (auto simp: web_key_resolved_def web_search_to_runtime_def or_default_def rbind_eq_Inr split: option.splits)
qed

lemma built_registry_has:
  assumes "web_key_resolved cfg" "build_registry e service_factory cfg skills = Inr reg" "n \<in> set (enabled_tool_names cfg)"
  shows "\<exists>en. get_tool n reg = Some en"
proof -
  from build_registry_ok[OF assms(1), of e skills] assms(2) obtain es ts where
    r: "registry_ok reg" "rg_ordered reg = es @ ts" "map entry_name es = enabled_tool_names cfg" by auto
  from assms(3) r(3) obtain en where "en \<in> set es" "entry_name en = n" by (metis imageE list.set_map)
  then show ?thesis using get_tool_iff[OF r(1)] r(2) by auto
qed

lemma assemble_agent_ok:
  assumes "assemble_agent fs e paths g factory a = Inr c"
  shows "arc_agent_id c = agt_id a" "arc_workspace_root c = agt_workspace a" "arc_agent_config c = agt_config a"
    "arc_provider_key c = provider_key_of g a" "provider_key_of g a \<noteq> []" "\<exists>p. get_provider factory (provider_key_of g a) = Inr p"
    "arc_effective_execution c = merge_with_overrides (exe_defaults (glob_execution g)) (inner_execution (agt_config a))"
    "\<exists>skills. build_registry e service_factory (inner_tools (agt_config a)) skills = Inr (arc_tool_registry c)"
  using assms by (auto simp: assemble_agent_def Let_def abind_eq_Inr split: if_splits)

lemma assemble_agent_works:
  assumes "provider_key_of g a \<noteq> []" "get_provider factory (provider_key_of g a) = Inr p"
    "from_persona fs (agt_persona a) = Inr prompt" "load_for_agent fs (ap_base_dir paths) (agt_config a) (agt_persona a) = Inr catalog"
    "runtime_ready g a"
  shows "\<exists>c. assemble_agent fs e paths g factory a = Inr c"
proof -
  obtain reg where "build_registry e service_factory (inner_tools (agt_config a))
      (case skill_tool catalog of Some t \<Rightarrow> [t] | None \<Rightarrow> []) = Inr reg"
    using build_registry_ok[OF web_key_of_ready[OF assms(5)]] by blast
  then show ?thesis using assms(1-4) by (simp add: assemble_agent_def Let_def abind_eq_Inr)
qed

lemma get_provider_key: "(\<exists>p. get_provider factory key = Inr p) \<longleftrightarrow> key \<in> fst ` set factory"
  by (auto simp: get_provider_def map_of_eq_None_iff split: option.splits)
     (metis fst_conv image_eqI map_of_SomeD)

lemma cron_env_works:
  assumes "\<forall>x\<in>set configs. \<exists>vals. resolved_env (ed_env (arc_effective_execution (snd x))) = Inr vals"
  shows "\<exists>envs. cron_env_by_agent configs = Some envs \<and> map fst envs = map fst configs"
  using assms by (induction configs) fastforce+

lemma for_each_agent_from:
  assumes "for_each_agent build1 agents filled = Inr filled'" "x \<in> set filled'"
  shows "x \<in> set filled \<or> (\<exists>a\<in>set agents. build1 a = Inr (snd x))"
  using assms
proof (induction agents arbitrary: filled)
  case (Cons a agents)
  then obtain v where v: "build1 a = Inr v" "for_each_agent build1 agents (AList.update (agt_id a) v filled) = Inr filled'"
    by (auto simp: abind_eq_Inr)
  have "x \<in> set (AList.update (agt_id a) v filled) \<Longrightarrow> x \<in> set filled \<or> x = (agt_id a, v)"
    using update_env_subset by fastforce
  then show ?case using Cons.IH[OF v(2) Cons.prems(2)] v(1) by auto
qed simp

lemma assembled_parts:
  assumes "assemble_runtime_state env lib fs e g paths = Inr st"
  shows "provider_factory_from_config (resolve_app_paths env) (glob_providers g) = Inr (svc_react_loop st)"
    "for_each_agent (\<lambda>a. create_memory env lib a g) (agts_list (glob_agents g)) [] = Inr (adr_memories (svc_directory st))"
    "for_each_agent (assemble_agent fs e paths g (svc_react_loop st)) (agts_list (glob_agents g)) [] =
       Inr (adr_agent_configs (svc_directory st))"
    "svc_runtimes st = adr_agent_configs (svc_directory st)"
    "create_channels lib (gate_channels (glob_gateway g)) [] = Inr (gti_channels (svc_gateway st))"
  using assms by (auto simp: assemble_runtime_state_def Let_def abind_eq_Inr create_provider_factory_def)

lemma assembly_iff:
  assumes "load_config w workspace_override = Some (Inr g)" and "resolve_app_paths (cfw_env w) = Inr paths"
    and "libraries_work lib" and "personas_readable fs paths (agts_list (glob_agents g))"
  shows "(\<exists>st. assemble_runtime_state (cfw_env w) lib fs e g paths = Inr st) \<longleftrightarrow>
    (\<forall>a\<in>set (agts_list (glob_agents g)). provider_key_of g a \<noteq> [] \<and>
       provider_key_of g a \<in> fst ` set (prov_entries (glob_providers g))) \<and>
    (\<forall>x\<in>set (gate_channels (glob_gateway g)). chan_enabled (snd x) \<longrightarrow> chan_token (snd x) \<noteq> None)"
proof -
  let ?as = "agts_list (glob_agents g)" and ?cs = "gate_channels (glob_gateway g)"
  from loaded_providers_exist[OF assms(1)] obtain factory where
    f: "provider_factory_from_config (resolve_app_paths (cfw_env w)) (glob_providers g) = Inr factory" by blast
  have keys: "fst ` set factory = fst ` set (prov_entries (glob_providers g))"
    by (rule factory_keys[OF f])
  have usable: "config_usable g" by (rule load_config_usable[OF assms(1)])
  have ready: "\<forall>a\<in>set ?as. runtime_ready g a" using usable by (auto simp: config_usable_def Let_def)
  have tok: "(\<exists>c. discord_from_config lib (snd x) = Inr c) \<longleftrightarrow> chan_token (snd x) \<noteq> None" if "x \<in> set ?cs" for x
    using usable that by (intro discord_works assms(3)) (auto simp: config_usable_def)
  have agent: "(\<exists>c. assemble_agent fs e paths g factory a = Inr c) \<longleftrightarrow>
      provider_key_of g a \<noteq> [] \<and> provider_key_of g a \<in> fst ` set (prov_entries (glob_providers g))" if member: "a \<in> set ?as" for a
  proof
    assume "\<exists>c. assemble_agent fs e paths g factory a = Inr c"
    then obtain c where "assemble_agent fs e paths g factory a = Inr c" ..
    from assemble_agent_ok(5,6)[OF this] show "provider_key_of g a \<noteq> [] \<and> provider_key_of g a \<in> fst ` set (prov_entries (glob_providers g))"
      by (simp add: get_provider_key keys)
  next
    assume k: "provider_key_of g a \<noteq> [] \<and> provider_key_of g a \<in> fst ` set (prov_entries (glob_providers g))"
    then obtain p where "get_provider factory (provider_key_of g a) = Inr p"
      using get_provider_key[of factory] by (auto simp: keys)
    moreover obtain prompt catalog where "from_persona fs (agt_persona a) = Inr prompt"
      "load_for_agent fs (ap_base_dir paths) (agt_config a) (agt_persona a) = Inr catalog"
      using member assms(4) unfolding personas_readable_def by blast
    ultimately show "\<exists>c. assemble_agent fs e paths g factory a = Inr c"
      using k member ready by (intro assemble_agent_works) auto
  qed
  have mem: "\<exists>mm. for_each_agent (\<lambda>a. create_memory (cfw_env w) lib a g) ?as [] = Inr mm"
    by (rule for_each_agent_works) (use memory_works[OF assms(3,2)] in blast)
  have "(\<exists>st. assemble_runtime_state (cfw_env w) lib fs e g paths = Inr st) \<longleftrightarrow>
      (\<exists>cm. for_each_agent (assemble_agent fs e paths g factory) ?as [] = Inr cm) \<and>
      (\<exists>chs. create_channels lib ?cs [] = Inr chs)"
    using mem by (auto simp: assemble_runtime_state_def Let_def abind_eq_Inr create_provider_factory_def f stores_work[OF assms(3)])
  also have "(\<exists>cm. for_each_agent (assemble_agent fs e paths g factory) ?as [] = Inr cm) \<longleftrightarrow>
      (\<forall>a\<in>set ?as. \<exists>c. assemble_agent fs e paths g factory a = Inr c)"
    using for_each_agent_works for_each_agent_each by blast
  also have "(\<exists>chs. create_channels lib ?cs [] = Inr chs) \<longleftrightarrow>
      (\<forall>x\<in>set ?cs. chan_enabled (snd x) \<longrightarrow> (\<exists>c. discord_from_config lib (snd x) = Inr c))"
    using create_channels_works create_channels_ok(1) by blast
  finally show ?thesis using agent tok by blast
qed

text \<open>A configuration with a token for the channel, taken from the environment.\<close>

definition token_world :: "int config_world" where
  "token_world = sample_config_world\<lparr>
     cfw_env := (\<lambda>k. if k = ''HOME'' then Some ''/h'' else if k = ''TOK'' then Some ''secret'' else None),
     cfw_config_file := Some (Inr []),
     cfw_parse_config := (\<lambda>_. let g = default_global (\<lambda>_. None) (cfw_float sample_config_world)
       in Inr (g\<lparr>glob_gateway := (glob_gateway g)\<lparr>gate_channels :=
            [(Discord, default_channel\<lparr>chan_token := Some (secret_from_name ''TOK'')\<rparr>)]\<rparr>\<rparr>))\<rparr>"

definition working_libraries :: database_lib where
  "working_libraries = \<lparr>dl_create_dir_all = \<lambda>_. None, dl_register = 0, dl_create_pool = \<lambda>_. None, dl_pool_get = \<lambda>_. None,
     dl_open = \<lambda>_. None, dl_statement = \<lambda>_ _. None, dl_embedder = \<lambda>_. None, dl_discord_client = \<lambda>_. None\<rparr>"

definition empty_personas :: persona_fs where
  "empty_personas = \<lparr>pfs_exists = \<lambda>_. False, pfs_size = \<lambda>_. Inr 0, pfs_read = \<lambda>_. Inr [], pfs_dir = \<lambda>_. None\<rparr>"

definition shown_config :: "int global_config \<Rightarrow> (rstr \<times> rstr) list \<times> rstr list \<times> (bool \<times> bool) list \<times> (skills_tool_config) list" where
  "shown_config g =
     (map (\<lambda>a. (agt_persona a, provider_key_of g a)) (agts_list (glob_agents g)), map fst (prov_entries (glob_providers g)),
      map (\<lambda>x. (chan_enabled (snd x), chan_token (snd x) = None)) (gate_channels (glob_gateway g)),
      map (\<lambda>a. skills_config (inner_tools (agt_config a))) (agts_list (glob_agents g)))"

lemma empty_personas_readable:
  assumes "\<forall>a\<in>set agents. kl_disabled_skills (skills_config (inner_tools (agt_config a))) = []"
  shows "personas_readable empty_personas paths agents"
  using assms
  by (auto simp: personas_readable_def empty_persona_prompt empty_personas_def load_for_agent_def load_skill_catalog_def
      active_skill_ids_def discover_skill_ids_def collect_skill_ids_from_root_def)

lemma working: "libraries_work working_libraries"
  by (simp add: libraries_work_def working_libraries_def)

lemma token_config:
  "\<exists>g paths. load_config token_world (Some ''~/ws'') = Some (Inr g) \<and> resolve_app_paths (cfw_env token_world) = Inr paths \<and>
     personas_readable empty_personas paths (agts_list (glob_agents g)) \<and>
     (\<forall>a\<in>set (agts_list (glob_agents g)). provider_key_of g a \<noteq> [] \<and>
       provider_key_of g a \<in> fst ` set (prov_entries (glob_providers g))) \<and>
     (\<forall>x\<in>set (gate_channels (glob_gateway g)). chan_enabled (snd x) \<longrightarrow> chan_token (snd x) \<noteq> None)"
proof -
  have "(case load_config token_world (Some ''~/ws'') of Some (Inr g) \<Rightarrow> Some (shown_config g) | _ \<Rightarrow> None) =
      Some ([(''./personas/default'', ''default'')], [''default''], [(True, False)],
        [\<lparr>kl_enabled = True, kl_disabled_skills = []\<rparr>])" by code_simp
  from loaded_value[OF this] obtain g where g: "load_config token_world (Some ''~/ws'') = Some (Inr g)"
    "shown_config g = ([(''./personas/default'', ''default'')], [''default''], [(True, False)],
        [\<lparr>kl_enabled = True, kl_disabled_skills = []\<rparr>])" by (elim exE conjE)
  have p: "\<exists>paths. resolve_app_paths (cfw_env token_world) = Inr paths"
    by (simp add: resolve_app_paths_def home_dir_def or_else_def token_world_def Let_def)
  have sk: "\<forall>a\<in>set (agts_list (glob_agents g)). kl_disabled_skills (skills_config (inner_tools (agt_config a))) = []"
    and keys: "map (\<lambda>a. provider_key_of g a) (agts_list (glob_agents g)) = [''default'']"
    and names: "map fst (prov_entries (glob_providers g)) = [''default'']"
    and tok: "\<forall>x\<in>set (gate_channels (glob_gateway g)). chan_token (snd x) \<noteq> None"
    using g(2) by (auto simp: shown_config_def)
  have "\<forall>a\<in>set (agts_list (glob_agents g)). provider_key_of g a = ''default''" using keys by auto
  moreover have "''default'' \<in> fst ` set (prov_entries (glob_providers g))"
    by (subst list.set_map[symmetric], subst names) simp
  ultimately show ?thesis using empty_personas_readable[OF sk] g(1) p tok by auto
qed

lemma assembled_example:
  "\<exists>g paths st. load_config token_world (Some ''~/ws'') = Some (Inr g) \<and>
     assemble_runtime_state (cfw_env token_world) working_libraries empty_personas [] g paths = Inr st"
proof -
  from token_config obtain g paths where g: "load_config token_world (Some ''~/ws'') = Some (Inr g)"
    "resolve_app_paths (cfw_env token_world) = Inr paths" "personas_readable empty_personas paths (agts_list (glob_agents g))"
    "(\<forall>a\<in>set (agts_list (glob_agents g)). provider_key_of g a \<noteq> [] \<and>
       provider_key_of g a \<in> fst ` set (prov_entries (glob_providers g))) \<and>
     (\<forall>x\<in>set (gate_channels (glob_gateway g)). chan_enabled (snd x) \<longrightarrow> chan_token (snd x) \<noteq> None)"
    by (elim exE conjE) blast
  from iffD2[OF assembly_iff[OF g(1,2) working g(3)] g(4)] g(1) show ?thesis by blast
qed

lemma assembled_complete:
  assumes "load_config w workspace_override = Some (Inr g)"
    and "assemble_runtime_state (cfw_env w) lib fs e g paths = Inr st"
  shows "fst ` set (adr_agent_configs (svc_directory st)) = agt_id ` set (agts_list (glob_agents g)) \<and>
    (\<forall>a\<in>set (agts_list (glob_agents g)). \<exists>c m p. directory_config (svc_directory st) (agt_id a) = Some c \<and>
       arc_agent_id c = agt_id a \<and> arc_workspace_root c = agt_workspace a \<and>
       directory_memory (svc_directory st) (agt_id a) = Some m \<and>
       get_provider (svc_react_loop st) (arc_provider_key c) = Inr p \<and>
       supports_native_tools (svc_react_loop st) (arc_provider_key c) \<and>
       (\<forall>n\<in>set (enabled_tool_names (inner_tools (agt_config a))). \<exists>en. get_tool n (arc_tool_registry c) = Some en)) \<and>
    (\<exists>envs. start_runtime_services st = Some envs \<and> fst ` set envs = agt_id ` set (agts_list (glob_agents g)))"
proof (intro conjI ballI)
  let ?as = "agts_list (glob_agents g)"
  note parts = assembled_parts[OF assms(2)]
  from loaded_providers_exist[OF assms(1)] parts(1) have
    native: "\<forall>key\<in>fst ` set (prov_entries (glob_providers g)). supports_native_tools (svc_react_loop st) key" by auto
  have usable: "config_usable g" by (rule load_config_usable[OF assms(1)])
  then have d: "distinct (map agt_id ?as)" and ready: "\<forall>a\<in>set ?as. runtime_ready g a"
    by (auto simp: config_usable_def Let_def)
  note configs = for_each_agent_ok[OF parts(3) d] and memories = for_each_agent_ok[OF parts(2) d]
  show ids: "fst ` set (adr_agent_configs (svc_directory st)) = agt_id ` set ?as" using configs(1) by simp
  show "\<exists>c m p. directory_config (svc_directory st) (agt_id a) = Some c \<and>
       arc_agent_id c = agt_id a \<and> arc_workspace_root c = agt_workspace a \<and>
       directory_memory (svc_directory st) (agt_id a) = Some m \<and>
       get_provider (svc_react_loop st) (arc_provider_key c) = Inr p \<and>
       supports_native_tools (svc_react_loop st) (arc_provider_key c) \<and>
       (\<forall>n\<in>set (enabled_tool_names (inner_tools (agt_config a))). \<exists>en. get_tool n (arc_tool_registry c) = Some en)"
    if member: "a \<in> set ?as" for a
  proof -
    from configs(2) member obtain c where c: "assemble_agent fs e paths g (svc_react_loop st) a = Inr c"
      "map_of (adr_agent_configs (svc_directory st)) (agt_id a) = Some c" by blast
    from memories(2) member obtain m where m: "map_of (adr_memories (svc_directory st)) (agt_id a) = Some m" by blast
    note agent = assemble_agent_ok[OF c(1)]
    from agent(6) obtain p where p: "get_provider (svc_react_loop st) (provider_key_of g a) = Inr p" ..
    then have "provider_key_of g a \<in> fst ` set (prov_entries (glob_providers g))"
      using get_provider_key[of "svc_react_loop st"] factory_keys[OF parts(1)] by blast
    then have n: "supports_native_tools (svc_react_loop st) (provider_key_of g a)" using native by blast
    have "\<forall>n\<in>set (enabled_tool_names (inner_tools (agt_config a))). \<exists>en. get_tool n (arc_tool_registry c) = Some en"
      using agent(8) built_registry_has[OF web_key_of_ready] ready member by blast
    then show ?thesis using c(2) m agent p n by (auto simp: directory_config_def directory_memory_def)
  qed
  have "\<exists>vals. resolved_env (ed_env (arc_effective_execution (snd x))) = Inr vals" if "x \<in> set (svc_runtimes st)" for x
  proof -
    have "x \<in> set (adr_agent_configs (svc_directory st))" using that parts(4) by simp
    from for_each_agent_from[OF parts(3) this] obtain a where
      a: "a \<in> set ?as" "assemble_agent fs e paths g (svc_react_loop st) a = Inr (snd x)" by auto
    have "runtime_ready g a" using ready a(1) by blast
    then show ?thesis unfolding runtime_ready_def assemble_agent_ok(7)[OF a(2)] by blast
  qed
  then obtain envs where envs: "cron_env_by_agent (svc_runtimes st) = Some envs" "map fst envs = map fst (svc_runtimes st)"
    using cron_env_works by blast
  then have "fst ` set envs = agt_id ` set ?as" using ids parts(4) by (metis list.set_map)
  then show "\<exists>envs. start_runtime_services st = Some envs \<and> fst ` set envs = agt_id ` set ?as"
    using envs(1) by (simp add: start_runtime_services_def)
qed

section \<open>Properties\<close>



text \<open>
  C36. An assembled service is complete: whatever a loaded configuration holds and the libraries
  answer, if assembling succeeds then every agent of the configuration, and no other, has its entry
  with its own workspace, a memory store, a provider with native tools in the factory of the loop,
  and a registry with every enabled tool; and starting the services does not panic, since the
  environment of every agent is resolved.
\<close>

theorem assembled_service_is_complete:
  assumes "load_config w workspace_override = Some (Inr g)"
    and "assemble_runtime_state (cfw_env w) lib fs e g paths = Inr st"
  shows "fst ` set (adr_agent_configs (svc_directory st)) = agt_id ` set (agts_list (glob_agents g)) \<and>
    (\<forall>a\<in>set (agts_list (glob_agents g)). \<exists>c m p. directory_config (svc_directory st) (agt_id a) = Some c \<and>
       arc_agent_id c = agt_id a \<and> arc_workspace_root c = agt_workspace a \<and>
       directory_memory (svc_directory st) (agt_id a) = Some m \<and>
       get_provider (svc_react_loop st) (arc_provider_key c) = Inr p \<and>
       supports_native_tools (svc_react_loop st) (arc_provider_key c) \<and>
       (\<forall>n\<in>set (enabled_tool_names (inner_tools (agt_config a))). \<exists>en. get_tool n (arc_tool_registry c) = Some en)) \<and>
    (\<exists>envs. start_runtime_services st = Some envs \<and> fst ` set envs = agt_id ` set (agts_list (glob_agents g)))"
  by (rule assembled_complete[OF assms])

theorem assembled_service_is_complete_witness:
  "\<exists>g paths st envs. load_config token_world (Some ''~/ws'') = Some (Inr g) \<and>
     assemble_runtime_state (cfw_env token_world) working_libraries empty_personas [] g paths = Inr st \<and>
     start_runtime_services st = Some envs \<and> fst ` set envs = agt_id ` set (agts_list (glob_agents g))"
proof -
  from assembled_example obtain g paths st where g: "load_config token_world (Some ''~/ws'') = Some (Inr g)"
    "assemble_runtime_state (cfw_env token_world) working_libraries empty_personas [] g paths = Inr st" by (elim exE conjE)
  from assembled_service_is_complete[OF g] obtain envs where
    "start_runtime_services st = Some envs" "fst ` set envs = agt_id ` set (agts_list (glob_agents g))" by (elim conjE exE)
  then show ?thesis using g by (intro exI conjI)
qed

end
