(* ===== verification/Telemetry.thy ===== *)
theory Telemetry
  imports SseLines
begin

text \<open>
  \<open>src/telemetry.rs\<close>: trace ids, and previews of texts for the log, in which the values of
  sensitive keys are replaced. An index into a string is a number of bytes; the searches work on
  the text in lower case, which has the same bytes but for ASCII letters. \<open>None\<close> is the panic of a
  slice that does not start at a character.
\<close>

section \<open>Trace ids\<close>

text \<open>The counter is the state; a clock before 1970 counts as 0.\<close>

definition next_trace_id :: "nat option \<Rightarrow> nat \<Rightarrow> nat \<times> rstr" where
  "next_trace_id now_ms counter =
     ((counter + 1) mod 2 ^ 64,
      ''trc-'' @ show_nat (case now_ms of Some ms \<Rightarrow> ms | None \<Rightarrow> 0) @ ''-'' @ show_nat counter)"

section \<open>Redaction\<close>

definition redacted :: rstr where
  "redacted = ''***REDACTED***''"

definition sensitive_keys :: "rstr list" where
  "sensitive_keys = [''api_key'', ''apikey'', ''token'', ''secret'', ''password'', ''authorization'',
     ''access_token'', ''refresh_token'']"

definition is_secret_value_terminator :: "rstr \<Rightarrow> bool" where
  "is_secret_value_terminator ch \<longleftrightarrow>
     is_ws ch \<or> ch \<in> set [[DQ], [SQ], '','', ''&'', '';'', '')'', ''('', '']'', ''['', ''{'', ''}'']"

text \<open>Where a value ends, from where it starts: at the first terminator or the end of the text.\<close>

definition value_length :: "rstr \<Rightarrow> nat" where
  "value_length rest = length (concat (takeWhile (\<lambda>ch. \<not> is_secret_value_terminator ch) (chars rest)))"

text \<open>After \<open>authorization\<close>, the word \<open>bearer\<close> belongs to the value.\<close>

definition key_value_length :: "rstr \<Rightarrow> rstr \<Rightarrow> nat" where
  "key_value_length key rest =
     (if eq_ignore_ascii_case key ''authorization'' \<and> prefix ''bearer '' (to_ascii_lowercase rest)
      then 7 + value_length (drop 7 rest) else value_length rest)"

text \<open>
  The loop of \<open>redact_after_key\<close> and \<open>redact_bearer_token\<close>. The start of a value follows the
  needle, which is ASCII, so only the slice at \<open>search_from\<close> can be off a character.
\<close>

function redact_loop :: "rstr \<Rightarrow> (rstr \<Rightarrow> nat) \<Rightarrow> rstr \<Rightarrow> nat \<Rightarrow> rstr option" where
  "redact_loop needle value_len text1 search_from =
     (if search_from \<ge> length text1 then Some text1
      else (case slice_from (to_ascii_lowercase text1) search_from of
              None \<Rightarrow> None
            | Some lower \<Rightarrow>
                (case find_sub needle lower of
                   None \<Rightarrow> Some text1
                 | Some relative_idx \<Rightarrow>
                     (let value_start = search_from + relative_idx + length needle
                      in if value_start \<ge> length text1 then Some text1
                         else let n = value_len (drop value_start text1)
                              in if n = 0 then redact_loop needle value_len text1 (value_start + 1)
                                 else redact_loop needle value_len
                                        (take value_start text1 @ redacted @ drop (value_start + n) text1)
                                        (value_start + length redacted)))))"
  by pat_completeness auto
termination
  by (relation "measure (\<lambda>(needle, value_len, text1, search_from). length text1 - search_from)")
     (auto simp: redacted_def split: if_splits)

declare redact_loop.simps [simp del]

definition redact_after_key :: "rstr \<Rightarrow> rstr \<Rightarrow> char \<Rightarrow> rstr option" where
  "redact_after_key input key separator = redact_loop (key @ [separator]) (key_value_length key) input 0"

definition redact_bearer_token :: "rstr \<Rightarrow> rstr option" where
  "redact_bearer_token input = redact_loop ''bearer '' value_length input 0"

definition is_sensitive_key :: "rstr \<Rightarrow> bool" where
  "is_sensitive_key key = list_ex (str_contains (to_ascii_lowercase key)) sensitive_keys"

fun redact_json_value :: "json \<Rightarrow> json" where
  "redact_json_value (JObj members) =
     JObj (map (\<lambda>(key, child). (key, if is_sensitive_key key then JStr redacted else redact_json_value child)) members)"
| "redact_json_value (JArr items) = JArr (map redact_json_value items)"
| "redact_json_value v = v"

fun redact_keys :: "rstr list \<Rightarrow> rstr \<Rightarrow> rstr option" where
  "redact_keys [] text1 = Some text1"
| "redact_keys (key # keys) text1 =
     Option.bind (redact_after_key text1 key (CHR ''='')) (\<lambda>text1.
       Option.bind (redact_after_key text1 key (CHR '':'')) (redact_keys keys))"

definition redact_sensitive_values :: "json_codec \<Rightarrow> rstr \<Rightarrow> rstr option" where
  "redact_sensitive_values jc text1 =
     (case jc_parse jc text1 of
        Inr json \<Rightarrow> Some (jc_text jc (redact_json_value json))
      | Inl _ \<Rightarrow> Option.bind (redact_keys sensitive_keys text1) redact_bearer_token)"

section \<open>Previews\<close>

definition truncate_for_log :: "rstr \<Rightarrow> nat \<Rightarrow> rstr" where
  "truncate_for_log text1 max_chars =
     (if char_count text1 \<le> max_chars then text1 else take_chars max_chars text1 @ ''...[truncated]'')"

definition normalize_for_log_line :: "rstr \<Rightarrow> rstr" where
  "normalize_for_log_line text1 = join '' '' (split_whitespace text1)"

definition sanitize_preview :: "json_codec \<Rightarrow> rstr \<Rightarrow> nat \<Rightarrow> rstr option" where
  "sanitize_preview jc text1 max_chars =
     map_option (\<lambda>r. truncate_for_log (normalize_for_log_line r) max_chars) (redact_sensitive_values jc text1)"

section \<open>Where a needle occurs\<close>

definition occurs_at :: "rstr \<Rightarrow> rstr \<Rightarrow> nat \<Rightarrow> bool" where
  "occurs_at needle s i \<longleftrightarrow> prefix needle (to_ascii_lowercase (drop i s))"

text \<open>The value after an occurrence is empty or has been replaced.\<close>

definition hidden_at :: "rstr \<Rightarrow> rstr \<Rightarrow> nat \<Rightarrow> bool" where
  "hidden_at needle s i \<longleftrightarrow>
     prefix redacted (drop (i + length needle) s) \<or> value_length (drop (i + length needle) s) = 0"

definition all_hidden :: "rstr \<Rightarrow> rstr \<Rightarrow> bool" where
  "all_hidden needle s \<longleftrightarrow> (\<forall>i. occurs_at needle s i \<longrightarrow> hidden_at needle s i)"

text \<open>What the proofs use of a needle: it ends with the only occurrence of its last character.\<close>

definition good_needle :: "rstr \<Rightarrow> bool" where
  "good_needle needle \<longleftrightarrow> needle \<noteq> [] \<and> last needle \<notin> set (butlast needle) \<and>
     last needle \<notin> set (to_ascii_lowercase redacted) \<and> CHR ''*'' \<notin> set needle \<and>
     last needle \<in> set '' =:'' \<and> \<not> is_secret_value_terminator [hd needle] \<and> (of_char (hd needle) :: nat) < 128"

lemma prefix_nth: "prefix p t \<longleftrightarrow> length p \<le> length t \<and> (\<forall>j<length p. t ! j = p ! j)"
proof
  assume "prefix p t"
  then show "length p \<le> length t \<and> (\<forall>j<length p. t ! j = p ! j)" by (auto simp: prefix_def nth_append)
next
  assume r: "length p \<le> length t \<and> (\<forall>j<length p. t ! j = p ! j)"
  then have "take (length p) t = p" by (intro nth_equalityI) auto
  then show "prefix p t" by (metis take_is_prefix)
qed

lemma occurs_nth:
  "needle \<noteq> [] \<Longrightarrow> occurs_at needle s i \<longleftrightarrow> i + length needle \<le> length s \<and>
    (\<forall>j<length needle. ascii_lower (s ! (i + j)) = needle ! j)"
  by (cases "i \<le> length s") (auto simp: occurs_at_def to_ascii_lowercase_def prefix_nth)

lemma occurs_char: "occurs_at needle s i \<Longrightarrow> k < length needle \<Longrightarrow> ascii_lower (s ! (i + k)) = needle ! k"
  by (cases "needle = []") (simp_all add: occurs_nth)

lemma occurs_last:
  assumes "occurs_at needle s i" "needle \<noteq> []"
  shows "ascii_lower (s ! (i + length needle - 1)) = last needle"
proof -
  have "ascii_lower (s ! (i + (length needle - 1))) = needle ! (length needle - 1)"
    using assms by (intro occurs_char) simp_all
  then show ?thesis using assms(2) by (cases needle) (simp_all add: last_conv_nth)
qed

lemma find_sub_Some:
  "find_sub p s = Some i \<Longrightarrow> prefix p (drop i s) \<and> (\<forall>j<i. \<not> prefix p (drop j s))"
proof (induction s arbitrary: i)
  case Nil
  then show ?case by (subst (asm) find_sub.simps) (auto split: if_splits)
next
  case (Cons c s)
  show ?case
  proof (cases "prefix p (c # s)")
    case True
    then show ?thesis using Cons.prems by (subst (asm) find_sub.simps) simp
  next
    case False
    with Cons.prems obtain k where k: "find_sub p s = Some k" "i = Suc k" by (subst (asm) find_sub.simps) auto
    from Cons.IH[OF k(1)] show ?thesis using False k(2) by (auto simp: less_Suc_eq_0_disj)
  qed
qed

lemma find_sub_NoneD: "find_sub p s = None \<Longrightarrow> \<not> prefix p (drop j s)"
  unfolding find_sub_None sublist_def prefix_def by (metis append_take_drop_id)

lemma ascii_lower_sep: "ascii_lower c \<in> set '' =:'' \<Longrightarrow> ascii_lower c = c"
proof -
  assume a: "ascii_lower c \<in> set '' =:''"
  show ?thesis
  proof (rule ccontr)
    assume n: "ascii_lower c \<noteq> c"
    then have r: "65 \<le> (of_char c :: nat)" "(of_char c :: nat) \<le> 90" "ascii_lower c = char_of ((of_char c :: nat) + 32)"
      by (auto simp: ascii_lower_def split: if_splits)
    have "(of_char (ascii_lower c) :: nat) = of_char c + 32" using r by (simp add: r(3))
    moreover have "(of_char (ascii_lower c) :: nat) \<in> {32, 61, 58}" using a by auto
    ultimately show False using r(1) by auto
  qed
qed

lemma is_cont_lower [simp]: "is_cont (ascii_lower c) = is_cont c"
  by (auto simp: ascii_lower_def is_cont_def)

text \<open>Two occurrences of a needle do not overlap, nor does one end inside another.\<close>

lemma no_overlap:
  assumes "good_needle needle" "occurs_at needle s i" "i < j" "j < i + length needle"
  shows "\<not> occurs_at needle s j"
proof
  let ?L = "length needle"
  assume j: "occurs_at needle s j"
  have ne: "needle \<noteq> []" and lst: "last needle \<notin> set (butlast needle)" using assms(1) by (auto simp: good_needle_def)
  have e: "ascii_lower (s ! (i + ?L - 1)) = last needle" by (rule occurs_last[OF assms(2) ne])
  let ?k = "i + ?L - 1 - j"
  have k: "?k < ?L - 1" "j + ?k = i + ?L - 1" using assms(3,4) by auto
  have "ascii_lower (s ! (j + ?k)) = needle ! ?k" using k(1) by (intro occurs_char[OF j]) simp
  then have "ascii_lower (s ! (i + ?L - 1)) = needle ! ?k" by (simp only: k(2))
  then have "last needle = butlast needle ! ?k" using e k(1) by (simp add: nth_butlast)
  then show False using lst k(1) by (metis length_butlast nth_mem)
qed

section \<open>What a replacement does to other occurrences\<close>

lemma redacted_length [simp]: "length redacted = 14"
  by (simp add: redacted_def)

lemma redacted_ends: "redacted ! 0 = CHR ''*''" "redacted ! 13 = CHR ''*''" "ascii_lower (CHR ''*'') = CHR ''*''"
  by (simp_all add: redacted_def ascii_lower_def)

lemma value_length_0: "value_length s = 0 \<longleftrightarrow> s = [] \<or> is_secret_value_terminator (hd (chars s))"
  by (cases s) (auto simp: value_length_def)

lemma no_separator_starts: "c = CHR ''='' \<or> c = CHR '':'' \<Longrightarrow> \<not> is_secret_value_terminator (c # cs)"
  by (auto simp: is_secret_value_terminator_def is_ws_def ws_table_def)

lemma blank_terminates: "is_secret_value_terminator '' ''"
  by (simp add: is_secret_value_terminator_def is_ws_def ws_table_def)

lemma value_head_kept:
  assumes "a \<noteq> []" "last a \<in> set '' =:''" "value_length (a @ x) = 0" "takeWhile is_cont y = []"
  shows "value_length (a @ y) = 0"
proof (cases a)
  case (Cons c cs)
  show ?thesis
  proof (cases "cs = []")
    case True
    then have c: "c \<in> set '' =:''" using assms(2) Cons by simp
    have "is_secret_value_terminator (c # takeWhile is_cont x)" using assms(3) Cons True by (simp add: value_length_0)
    then have "c = CHR '' ''" using c no_separator_starts[of c] by auto
    then show ?thesis using assms(4) blank_terminates Cons True by (simp add: value_length_0)
  next
    case False
    then have "last cs \<in> set cs" "\<not> is_cont (last cs)" using assms(2) Cons by (auto simp: is_cont_def)
    then have "takeWhile is_cont (cs @ z) = takeWhile is_cont cs" for z by (metis takeWhile_append1)
    then show ?thesis using assms(3) Cons by (simp add: value_length_0)
  qed
qed (use assms in simp)

definition terminator_chars :: "rstr list" where
  "terminator_chars = ws_table @ [[DQ], [SQ], '','', ''&'', '';'', '')'', ''('', '']'', ''['', ''{'', ''}'']"

lemma terminator_heads:
  "list_all (\<lambda>w. ascii_lower (hd w) = hd w \<and> (w = [hd w] \<or> 128 \<le> (of_char (hd w) :: nat))) terminator_chars"
  by code_simp

lemma terminator_start:
  assumes "is_secret_value_terminator (c # cs)" "\<not> is_secret_value_terminator [d]" "(of_char d :: nat) < 128"
  shows "d \<noteq> ascii_lower c"
proof -
  have "is_secret_value_terminator w \<longleftrightarrow> w \<in> set terminator_chars" for w
    unfolding is_secret_value_terminator_def is_ws_def terminator_chars_def set_append Un_iff ..
  with assms(1) have "c # cs \<in> set terminator_chars" by blast
  with terminator_heads have "ascii_lower c = c" "c # cs = [c] \<or> 128 \<le> (of_char c :: nat)"
    unfolding list_all_iff by fastforce+
  then show ?thesis using assms by auto
qed

text \<open>A replacement after an occurrence of a needle, and what it leaves as it was.\<close>

definition replaced :: "rstr \<Rightarrow> nat \<Rightarrow> nat \<Rightarrow> rstr" where
  "replaced out start stop = take start out @ redacted @ drop stop out"

lemma found_in:
  assumes "good_needle other" "occurs_at other out i0"
  shows "i0 + length other \<le> length out" "other \<noteq> []"
  using assms by (auto simp: good_needle_def occurs_nth)

lemma replaced_nth:
  assumes "vs \<le> length out"
  shows "k < vs \<Longrightarrow> replaced out vs e ! k = out ! k"
    "vs \<le> k \<Longrightarrow> k < vs + 14 \<Longrightarrow> replaced out vs e ! k = redacted ! (k - vs)"
  using assms by (auto simp: replaced_def nth_append)

lemma before_replaced:
  assumes needle: "good_needle needle" and other: "good_needle other"
    and found: "occurs_at other out i0" and vs: "vs = i0 + length other" "vs \<le> e"
    and occ0: "occurs_at needle (replaced out vs e) i" and i: "i < vs"
  shows "i + length needle \<le> vs \<and> occurs_at needle out i"
proof -
  note vs_in = found_in[OF other found, folded vs(1)] and nth_out = replaced_nth[OF found_in(1)[OF other found, folded vs(1)], of _ e]
  have ne: "needle \<noteq> []" and star: "CHR ''*'' \<notin> set needle" using needle by (auto simp: good_needle_def)
  note occ = occ0[unfolded occurs_nth[OF ne]]
  have le: "i + length needle \<le> vs"
  proof (rule ccontr)
    assume "\<not> i + length needle \<le> vs"
    then have k: "vs - i < length needle" using i by simp
    then have "ascii_lower ((replaced out vs e) ! (i + (vs - i))) = needle ! (vs - i)" using occ by blast
    then have "CHR ''*'' = needle ! (vs - i)" using i nth_out(2)[of vs] by (simp add: redacted_ends)
    then show False using star k by (metis nth_mem)
  qed
  have "ascii_lower (out ! (i + j)) = needle ! j" if j: "j < length needle" for j
  proof -
    have "i + j < vs" using j le by simp
    then show ?thesis using occ j nth_out(1)[of "i + j"] by auto
  qed
  then show ?thesis using le vs_in ne by (simp add: occurs_nth)
qed

lemma after_replaced:
  assumes needle: "good_needle needle" and other: "good_needle other"
    and found: "occurs_at other out i0" and vs: "vs = i0 + length other" "vs \<le> e"
    and occ0: "occurs_at needle (replaced out vs e) i" and i: "vs \<le> i"
  shows "vs + 14 \<le> i" "occurs_at needle out (i - (vs + 14) + e)"
    "hidden_at needle (replaced out vs e) i \<longleftrightarrow> hidden_at needle out (i - (vs + 14) + e)"
proof -
  note vs_in = found_in[OF other found, folded vs(1)] and nth_out = replaced_nth[OF found_in(1)[OF other found, folded vs(1)], of _ e]
  have ne: "needle \<noteq> []" and star: "CHR ''*'' \<notin> set needle" and lst: "last needle \<notin> set (to_ascii_lowercase redacted)"
    using needle by (auto simp: good_needle_def)
  note occ = occ0[unfolded occurs_nth[OF ne]]
  show ge: "vs + 14 \<le> i"
  proof (rule ccontr)
    assume l: "\<not> vs + 14 \<le> i"
    show False
    proof (cases "i + length needle \<le> vs + 14")
      case True
      let ?k = "i + (length needle - 1)"
      have k: "vs \<le> ?k" "?k < vs + 14" using True i ne by (cases needle; simp)+
      have "ascii_lower ((replaced out vs e) ! ?k) = last needle" using occ ne by (simp add: last_conv_nth)
      then have "ascii_lower (redacted ! (?k - vs)) = last needle" using nth_out(2)[OF k] by simp
      moreover have "?k - vs < length redacted" using k by simp
      ultimately have "last needle \<in> ascii_lower ` set redacted" by (metis image_eqI nth_mem)
      then show False using lst by (simp add: to_ascii_lowercase_def)
    next
      case False
      let ?k = "vs + 13 - i"
      have k: "?k < length needle" "i + ?k = vs + 13" using False l by auto
      then have "ascii_lower ((replaced out vs e) ! (vs + 13)) = needle ! ?k" using occ by metis
      then have "CHR ''*'' = needle ! ?k" using nth_out(2)[of "vs + 13"] by (simp add: redacted_ends)
      then show False using star k(1) by (metis nth_mem)
    qed
  qed
  have d: "drop (i + m) (replaced out vs e) = drop (i - (vs + 14) + e + m) out" for m
    using ge vs_in by (simp add: replaced_def add.commute add.left_commute)
  show "occurs_at needle out (i - (vs + 14) + e)" using occ0 d[of 0] by (simp add: occurs_at_def)
  show "hidden_at needle (replaced out vs e) i \<longleftrightarrow> hidden_at needle out (i - (vs + 14) + e)"
    using d[of "length needle"] by (simp add: hidden_at_def)
qed

lemma hidden_replaced:
  assumes needle: "good_needle needle" and other: "good_needle other"
    and found: "occurs_at other out i0" and vs: "vs = i0 + length other" "vs \<le> e"
    and i: "i + length needle \<le> vs" and hid: "hidden_at needle out i"
  shows "hidden_at needle (replaced out vs e) i"
proof -
  note vs_in = found_in[OF other found, folded vs(1)] and nth_out = replaced_nth[OF found_in(1)[OF other found, folded vs(1)], of _ e]
  let ?a = "drop (i + length needle) (take vs out)"
  have o1: "drop (i + length needle) out = ?a @ drop vs out"
    using i vs_in(1) by (metis append_take_drop_id drop_append drop_take diff_is_0_eq drop0 length_take min.absorb2)
  have o2: "drop (i + length needle) (replaced out vs e) = ?a @ redacted @ drop e out" using i vs_in by (simp add: replaced_def)
  show ?thesis
  proof (cases "?a = []")
    case True
    then show ?thesis using o2 by (simp add: hidden_at_def)
  next
    case False
    have "last ?a = out ! (vs - 1)" using False vs_in by (simp add: last_conv_nth)
    moreover have "ascii_lower (out ! (vs - 1)) = last other"
      using occurs_last[OF found vs_in(2)] by (simp add: vs(1))
    moreover have "last other \<in> set '' =:''" using other by (simp add: good_needle_def)
    ultimately have sep: "last ?a = last other" "last ?a \<in> set '' =:''" using ascii_lower_sep by metis+
    have nin: "last ?a \<notin> set redacted"
    proof
      assume "last ?a \<in> set redacted"
      then have "ascii_lower (last ?a) \<in> set (to_ascii_lowercase redacted)" by (simp add: to_ascii_lowercase_def)
      moreover have "ascii_lower (last ?a) = last other"
        using \<open>last ?a = out ! (vs - 1)\<close> \<open>ascii_lower (out ! (vs - 1)) = last other\<close> by simp
      ultimately show False using other by (simp add: good_needle_def)
    qed
    consider "prefix redacted (?a @ drop vs out)" | "value_length (?a @ drop vs out) = 0"
      using hid o1 by (auto simp: hidden_at_def)
    then show ?thesis
    proof cases
      case 1
      then have "prefix redacted ?a \<or> prefix ?a redacted" by (metis prefix_same_cases prefix_def)
      moreover have "\<not> prefix ?a redacted" using nin False by (metis last_in_set set_mono_prefix subsetD)
      ultimately show ?thesis using o2 by (simp add: hidden_at_def)
    next
      case 2
      have "takeWhile is_cont (redacted @ drop e out) = []" by (simp add: redacted_def is_cont_def)
      from value_head_kept[OF False sep(2) 2 this] show ?thesis using o2 by (simp add: hidden_at_def)
    qed
  qed
qed

section \<open>What the loop does\<close>

text \<open>One turn: it is over, or goes on behind the first occurrence at or after \<open>sf\<close>.\<close>

definition first_from :: "rstr \<Rightarrow> rstr \<Rightarrow> nat \<Rightarrow> nat \<Rightarrow> bool" where
  "first_from needle out sf i \<longleftrightarrow> sf \<le> i \<and> occurs_at needle out i \<and> (\<forall>j. sf \<le> j \<and> j < i \<longrightarrow> \<not> occurs_at needle out j)"

lemma occurs_in_rest: "prefix needle (drop j (drop sf (to_ascii_lowercase out))) \<longleftrightarrow> occurs_at needle out (sf + j)"
  by (simp add: occurs_at_def to_ascii_lowercase_def drop_map add.commute)

lemma loop_turn:
  assumes "redact_loop needle vl out sf = Some out'"
  obtains (over) "out' = out" "\<forall>i\<ge>sf. occurs_at needle out i \<longrightarrow> length out \<le> i + length needle"
  | (skip) i where "first_from needle out sf i" "i + length needle < length out" "vl (drop (i + length needle) out) = 0"
      "redact_loop needle vl out (i + length needle + 1) = Some out'"
  | (replace) i n where "first_from needle out sf i" "i + length needle < length out" "n = vl (drop (i + length needle) out)"
      "redact_loop needle vl (replaced out (i + length needle) (i + length needle + n)) (i + length needle + 14) = Some out'"
proof (cases "length out \<le> sf")
  case True
  then have "out' = out" using assms by (subst (asm) redact_loop.simps) simp
  then show thesis using True over by auto
next
  case False
  then obtain lower where l: "slice_from (to_ascii_lowercase out) sf = Some lower" using assms
    by (subst (asm) redact_loop.simps) (auto split: option.splits)
  then have low: "lower = drop sf (to_ascii_lowercase out)" by (auto simp: slice_from_def split: if_splits)
  show thesis
  proof (cases "find_sub needle lower")
    case None
    then have "out' = out" using assms False l by (subst (asm) redact_loop.simps) simp
    moreover have "\<not> occurs_at needle out i" if "sf \<le> i" for i
      using find_sub_NoneD[OF None, of "i - sf"] that unfolding low occurs_in_rest by simp
    ultimately show thesis using over by blast
  next
    case (Some r)
    let ?i = "sf + r"
    have f: "first_from needle out sf ?i"
      using find_sub_Some[OF Some] unfolding low occurs_in_rest first_from_def
      by (metis le_add1 le_add_diff_inverse nat_add_left_cancel_less)
    show thesis
    proof (cases "length out \<le> ?i + length needle")
      case True
      then have "out' = out" using assms False l Some by (subst (asm) redact_loop.simps) (simp add: Let_def)
      moreover have "length out \<le> i + length needle" if "sf \<le> i" "occurs_at needle out i" for i
        using f that True unfolding first_from_def by (metis add_le_mono1 le_trans not_le)
      ultimately show thesis using over by blast
    next
      case le: False
      show thesis
      proof (cases "vl (drop (?i + length needle) out) = 0")
        case True
        then have "redact_loop needle vl out (?i + length needle + 1) = Some out'"
          using assms False l Some le by (subst (asm) redact_loop.simps) (simp add: Let_def)
        then show thesis using skip f le True by force
      next
        case n: False
        then have "redact_loop needle vl (replaced out (?i + length needle) (?i + length needle + vl (drop (?i + length needle) out)))
            (?i + length needle + 14) = Some out'"
          using assms False l Some le by (subst (asm) redact_loop.simps) (simp add: Let_def replaced_def)
        then show thesis using replace f le by force
      qed
    qed
  qed
qed

lemma hidden_later:
  assumes "good_needle needle" "first_from needle out sf i" "\<forall>j. j < sf \<longrightarrow> occurs_at needle out j \<longrightarrow> hidden_at needle out j"
    "occurs_at needle out j" "j < i + length needle" "j \<noteq> i"
  shows "hidden_at needle out j"
  using assms no_overlap[OF assms(1), of out i j] unfolding first_from_def by (metis linorder_neqE_nat not_le)

lemma replaced_shrinks:
  assumes "first_from needle out sf i" "i + length needle < length out" "needle \<noteq> []"
  shows "length (replaced out (i + length needle) (i + length needle + n)) - (i + length needle + 14) < length out - sf"
proof -
  have "sf < i + length needle + n" "sf < length out" using assms by (cases needle; simp add: first_from_def)+
  then have "length out - (i + length needle + n) < length out - sf" by (rule diff_less_mono2)
  then show ?thesis using assms(2) by (simp add: replaced_def)
qed

lemma loop_hides:
  assumes "good_needle needle" "\<And>rest. vl rest = 0 \<Longrightarrow> value_length rest = 0"
    and "redact_loop needle vl out sf = Some out'" "\<forall>i. i < sf \<longrightarrow> occurs_at needle out i \<longrightarrow> hidden_at needle out i"
  shows "all_hidden needle out'"
  using assms(3,4)
proof (induction "length out - sf" arbitrary: out sf rule: less_induct)
  case less
  show ?case using less.prems(1)
  proof (cases rule: loop_turn)
    case over
    have "hidden_at needle out i" if "occurs_at needle out i" "sf \<le> i" for i
    proof -
      have "drop (i + length needle) out = []" using over(2) that by simp
      then show ?thesis by (simp add: hidden_at_def value_length_def)
    qed
    then show ?thesis using less.prems(2) over(1) unfolding all_hidden_def by (metis not_le)
  next
    case (skip i)
    let ?vs = "i + length needle"
    have v: "value_length (drop ?vs out) = 0" using skip(3) assms(2) by blast
    have "hidden_at needle out j" if jl: "j < ?vs + 1" and jo: "occurs_at needle out j" for j
    proof -
      consider "j = i" | "j = ?vs" | "j < ?vs" "j \<noteq> i" using jl by fastforce
      then show ?thesis
      proof cases
        case 1
        then show ?thesis using v by (simp add: hidden_at_def)
      next
        case 2
        have "drop ?vs out \<noteq> []" using skip(2) by simp
        then have t: "is_secret_value_terminator (hd (chars (drop ?vs out)))" using v value_length_0 by blast
        have "needle \<noteq> []" "\<not> is_secret_value_terminator [hd needle]" "(of_char (hd needle) :: nat) < 128" using assms(1) by (auto simp: good_needle_def)
        moreover have "hd needle = ascii_lower (out ! ?vs)" using occurs_char[OF jo, of 0] 2 calculation(1) by (simp add: hd_conv_nth)
        moreover have "hd (chars (drop ?vs out)) = out ! ?vs # takeWhile is_cont (drop (Suc ?vs) out)"
          using skip(2) by (simp add: Cons_nth_drop_Suc[symmetric])
        ultimately show ?thesis using terminator_start[of "out ! ?vs" _ "hd needle"] t by metis
      next
        case 3
        then show ?thesis using hidden_later[OF assms(1) skip(1) less.prems(2) jo] by blast
      qed
    qed
    moreover have "length out - (?vs + 1) < length out - sf" using skip(1,2) unfolding first_from_def by linarith
    ultimately show ?thesis using less.hyps skip(4) by blast
  next
    case (replace i n)
    let ?vs = "i + length needle" and ?out = "replaced out (i + length needle) (i + length needle + n)"
    have occ: "occurs_at needle out i" using replace(1) by (simp add: first_from_def)
    have "hidden_at needle ?out j" if "j < ?vs + 14" "occurs_at needle ?out j" for j
    proof (cases "j < ?vs")
      case True
      from before_replaced[OF assms(1,1) occ refl le_add1 that(2) True] have j: "j + length needle \<le> ?vs" "occurs_at needle out j" by auto
      show ?thesis
      proof (cases "j = i")
        case eq: True
        have "prefix redacted (drop ?vs ?out)" using replace(2) by (simp add: replaced_def)
        then show ?thesis using eq by (simp add: hidden_at_def)
      next
        case False
        then have "hidden_at needle out j" using hidden_later[OF assms(1) replace(1) less.prems(2) j(2) True] by blast
        then show ?thesis by (rule hidden_replaced[OF assms(1,1) occ refl le_add1 j(1)])
      qed
    next
      case False
      then show ?thesis using after_replaced(1)[OF assms(1,1) occ refl le_add1 that(2)] that(1) by simp
    qed
    moreover have "length ?out - (?vs + 14) < length out - sf"
      by (rule replaced_shrinks[OF replace(1,2) found_in(2)[OF assms(1) occ]])
    ultimately show ?thesis using less.hyps replace(4) by blast
  qed
qed

lemma loop_keeps_hidden:
  assumes "good_needle needle" "good_needle other" "redact_loop other vl out sf = Some out'" "all_hidden needle out"
  shows "all_hidden needle out'"
  using assms(3,4)
proof (induction "length out - sf" arbitrary: out sf rule: less_induct)
  case less
  show ?case using less.prems(1)
  proof (cases rule: loop_turn)
    case over
    then show ?thesis using less.prems(2) by simp
  next
    case (skip i)
    have "length out - (i + length other + 1) < length out - sf" using skip(1,2) unfolding first_from_def by linarith
    then show ?thesis using less.hyps less.prems(2) skip(4) by blast
  next
    case (replace i n)
    let ?vs = "i + length other" and ?out = "replaced out (i + length other) (i + length other + n)"
    have occ: "occurs_at other out i" using replace(1) by (simp add: first_from_def)
    have "hidden_at needle ?out j" if o: "occurs_at needle ?out j" for j
    proof (cases "j < ?vs")
      case True
      from before_replaced[OF assms(1,2) occ refl le_add1 o True] have j: "j + length needle \<le> ?vs" "occurs_at needle out j" by auto
      then have "hidden_at needle out j" using less.prems(2) by (simp add: all_hidden_def)
      then show ?thesis by (rule hidden_replaced[OF assms(1,2) occ refl le_add1 j(1)])
    next
      case False
      then have "?vs \<le> j" by simp
      note a = after_replaced[OF assms(1,2) occ refl le_add1 o this]
      show ?thesis using a(2,3) less.prems(2) by (simp add: all_hidden_def)
    qed
    moreover have "length ?out - (?vs + 14) < length out - sf"
      by (rule replaced_shrinks[OF replace(1,2) found_in(2)[OF assms(2) occ]])
    ultimately show ?thesis using less.hyps replace(4) unfolding all_hidden_def by blast
  qed
qed

section \<open>Text without multi-byte characters\<close>

definition single_bytes :: "rstr \<Rightarrow> bool" where
  "single_bytes s \<longleftrightarrow> (\<forall>c\<in>set s. \<not> is_cont c)"

lemma single_bytes_replaced: "single_bytes out \<Longrightarrow> single_bytes (replaced out i j)"
  by (auto simp: single_bytes_def replaced_def redacted_def is_cont_def dest: in_set_takeD in_set_dropD)

lemma loop_single_bytes:
  "single_bytes out \<Longrightarrow> needle \<noteq> [] \<Longrightarrow> \<exists>out'. redact_loop needle vl out sf = Some out' \<and> single_bytes out'"
proof (induction "length out - sf" arbitrary: out sf rule: less_induct)
  case less
  show ?case
  proof (cases "length out \<le> sf")
    case True
    then show ?thesis using less.prems(1) by (subst redact_loop.simps) simp
  next
    case in_text: False
    then have "\<not> is_cont (to_ascii_lowercase out ! sf)"
      using less.prems(1) by (simp add: single_bytes_def to_ascii_lowercase_def)
    then have l: "slice_from (to_ascii_lowercase out) sf = Some (drop sf (to_ascii_lowercase out))"
      using in_text by (simp add: slice_from_def is_char_boundary_def to_ascii_lowercase_def)
    show ?thesis
    proof (cases "find_sub needle (drop sf (to_ascii_lowercase out))")
      case None
      then show ?thesis using less.prems(1) l by (subst redact_loop.simps) simp
    next
      case (Some r)
      let ?i = "sf + r"
      let ?n = "vl (drop (?i + length needle) out)"
      have f: "first_from needle out sf ?i"
        using find_sub_Some[OF Some] unfolding occurs_in_rest first_from_def
        by (metis le_add1 le_add_diff_inverse nat_add_left_cancel_less)
      show ?thesis
      proof (cases "length out \<le> ?i + length needle")
        case True
        then show ?thesis using less.prems(1) l Some in_text by (subst redact_loop.simps) (simp add: Let_def)
      next
        case vs: False
        have "length out - (?i + length needle + 1) < length out - sf" using vs by linarith
        from less.hyps[OF this less.prems] obtain u where
          u: "redact_loop needle vl out (?i + length needle + 1) = Some u" "single_bytes u" by blast
        have "length (replaced out (?i + length needle) (?i + length needle + ?n)) - (?i + length needle + 14) < length out - sf"
          using replaced_shrinks[OF f _ less.prems(2)] vs by simp
        from less.hyps[OF this single_bytes_replaced[OF less.prems(1)] less.prems(2)] obtain v where
          v: "redact_loop needle vl (replaced out (?i + length needle) (?i + length needle + ?n)) (?i + length needle + 14) = Some v"
          "single_bytes v" by blast
        have "redact_loop needle vl out sf = (if ?n = 0 then Some u else Some v)"
          using in_text l Some vs u(1) v(1) by (subst redact_loop.simps) (simp add: Let_def replaced_def)
        then show ?thesis using u(2) v(2) by (cases "?n = 0") auto
      qed
    qed
  qed
qed

section \<open>All the keys\<close>

definition key_needles :: "rstr \<Rightarrow> rstr list" where
  "key_needles key = [key @ ''='', key @ '':'']"

definition all_needles :: "rstr list" where
  "all_needles = concat (map key_needles sensitive_keys) @ [''bearer '']"

definition bearer_needle :: rstr where
  "bearer_needle = ''bearer ''"

lemma in_all_needles:
  "needle \<in> set all_needles \<longleftrightarrow> needle = bearer_needle \<or> (\<exists>key\<in>set sensitive_keys. needle \<in> set (key_needles key))"
  by (simp add: all_needles_def bearer_needle_def)

lemma good_needles: "list_all good_needle all_needles"
  by code_simp

lemma key_value_length_0: "key_value_length key rest = 0 \<Longrightarrow> value_length rest = 0"
  by (simp add: key_value_length_def split: if_splits)

lemma after_key:
  assumes "redact_after_key text1 key separator = Some t" "good_needle (key @ [separator])"
  shows "all_hidden (key @ [separator]) t" "good_needle needle \<Longrightarrow> all_hidden needle text1 \<Longrightarrow> all_hidden needle t"
proof -
  note r = assms(1)[unfolded redact_after_key_def]
  show "all_hidden (key @ [separator]) t" by (rule loop_hides[OF assms(2) _ r]) (auto intro: key_value_length_0)
  show "good_needle needle \<Longrightarrow> all_hidden needle text1 \<Longrightarrow> all_hidden needle t"
    by (rule loop_keeps_hidden[OF _ assms(2) r])
qed

lemma keys_hidden:
  assumes "redact_keys keys text1 = Some t" "\<forall>key\<in>set keys. \<forall>needle\<in>set (key_needles key). good_needle needle"
  shows "(\<forall>key\<in>set keys. \<forall>needle\<in>set (key_needles key). all_hidden needle t) \<and>
    (\<forall>needle. good_needle needle \<longrightarrow> all_hidden needle text1 \<longrightarrow> all_hidden needle t)"
  using assms
proof (induction keys arbitrary: text1)
  case (Cons key keys)
  from Cons.prems(1) obtain t1 t2 where t: "redact_after_key text1 key (CHR ''='') = Some t1"
    "redact_after_key t1 key (CHR '':'') = Some t2" "redact_keys keys t2 = Some t"
    by (auto simp: bind_eq_Some_conv)
  have g: "good_needle (key @ ''='')" "good_needle (key @ '':'')" using Cons.prems(2) by (simp_all add: key_needles_def)
  note ih = Cons.IH[OF t(3)] and a1 = after_key[OF t(1) g(1)] and a2 = after_key[OF t(2) g(2)]
  have rest: "\<forall>key\<in>set keys. \<forall>needle\<in>set (key_needles key). good_needle needle" using Cons.prems(2) by simp
  have pass: "all_hidden needle t" if "good_needle needle" "all_hidden needle t2" for needle using ih[OF rest] that by blast
  have "all_hidden (key @ ''='') t" by (rule pass[OF g(1) a2(2)[OF g(1) a1(1)]])
  moreover have "all_hidden (key @ '':'') t" by (rule pass[OF g(2) a2(1)])
  moreover have "all_hidden needle t" if "good_needle needle" "all_hidden needle text1" for needle
    by (rule pass[OF that(1) a2(2)[OF that(1) a1(2)[OF that]]])
  ultimately show ?case using ih[OF rest] by (auto simp: key_needles_def)
qed simp

lemma keys_single_bytes: "single_bytes text1 \<Longrightarrow> \<exists>t. redact_keys keys text1 = Some t \<and> single_bytes t"
proof (induction keys arbitrary: text1)
  case (Cons key keys)
  obtain t1 where t1: "redact_after_key text1 key (CHR ''='') = Some t1" "single_bytes t1"
    using loop_single_bytes[OF Cons.prems, of "key @ ''=''"] unfolding redact_after_key_def by blast
  obtain t2 where t2: "redact_after_key t1 key (CHR '':'') = Some t2" "single_bytes t2"
    using loop_single_bytes[OF t1(2), of "key @ '':''"] unfolding redact_after_key_def by blast
  from Cons.IH[OF t2(2)] show ?case using t1(1) t2(1) by simp
qed simp

text \<open>In a JSON text, no member with a sensitive key keeps its value, at any depth.\<close>

fun json_hidden :: "json \<Rightarrow> bool" where
  "json_hidden (JObj members) = (\<forall>x\<in>set members. if is_sensitive_key (fst x) then snd x = JStr redacted else json_hidden (snd x))"
| "json_hidden (JArr items) = (\<forall>v\<in>set items. json_hidden v)"
| "json_hidden _ = True"

lemma redacted_json_hidden: "json_hidden (redact_json_value v)"
proof (induction v rule: redact_json_value.induct)
  case (1 members)
  then show ?case by (auto split: if_splits)
qed auto

text \<open>
  Two ways in which the redaction fails: after the usual blank between a key and its value the
  value is not found, since a blank ends a value; and a blank of several bytes after the separator
  makes the next slice start inside of it.
\<close>

definition no_json :: json_codec where
  "no_json = \<lparr>jc_parse = \<lambda>_. Inl ''expected value'', jc_text = \<lambda>_. []\<rparr>"

lemma spaced_value_is_shown: "redact_sensitive_values no_json ''password: hunter2'' = Some ''password: hunter2''"
  by code_simp

lemma wide_blank_panics: "redact_sensitive_values no_json (''token='' @ [CHR 0xC2, CHR 0xA0] @ ''x'') = None"
  by code_simp

section \<open>Properties\<close>



end
