(* ===== verification/Logging.thy ===== *)
theory Logging
  imports SseLines "HOL-Library.AList" "HOL-Library.Sublist"
begin

text \<open>
  \<open>src/run/logging.rs\<close>, and the display of the logs in \<open>src/run.rs\<close>: the log file of the service,
  its rotation by day, and the removal of old files. The directory of the logs is an association
  list from names to files, in the order in which the system lists it. The day is a number; its
  text form and the parser of dates are parameters. A writer only writes after a rotation that
  succeeded, when its handle is that of the active file.
\<close>

section \<open>Files\<close>

record log_file =
  lf_bytes :: rstr
  lf_day :: int

type_synonym log_dir = "(rstr \<times> log_file) list"

record calendar =
  cal_format :: "int \<Rightarrow> rstr"
  cal_parse :: "rstr \<Rightarrow> int option"

text \<open>The calls of the system that may fail, each with the text of its error.\<close>

datatype log_call = OpenActive | ReadMetadata | OpenTarget | CopyLog | RemoveActive | RenameActive | ReadDir | ReadEntry rstr
  | RemoveDaily rstr | FlushActive | WriteActive

type_synonym log_faults = "log_call \<Rightarrow> rstr option"

text \<open>A step on the directory, with what the calls before it left.\<close>

type_synonym log_step = "log_dir \<times> (rstr + unit)"

definition fallible :: "log_faults \<Rightarrow> log_call \<Rightarrow> log_dir \<Rightarrow> log_step \<Rightarrow> log_step" where
  "fallible flt call dir ok = (case flt call of Some e \<Rightarrow> (dir, Inl e) | None \<Rightarrow> ok)"

definition and_then :: "log_step \<Rightarrow> (log_dir \<Rightarrow> log_step) \<Rightarrow> log_step" where
  "and_then r f = (case r of (dir, Inl e) \<Rightarrow> (dir, Inl e) | (dir, Inr _) \<Rightarrow> f dir)"

text \<open>Opening for appending creates a file that is not there.\<close>

definition open_append :: "rstr \<Rightarrow> int \<Rightarrow> log_dir \<Rightarrow> log_dir" where
  "open_append name today dir =
     (case map_of dir name of
        Some _ \<Rightarrow> dir
      | None \<Rightarrow> AList.update name \<lparr>lf_bytes = [], lf_day = today\<rparr> dir)"

definition append_bytes :: "rstr \<Rightarrow> int \<Rightarrow> rstr \<Rightarrow> log_dir \<Rightarrow> log_dir" where
  "append_bytes name today bytes dir =
     (case map_of dir name of
        Some f \<Rightarrow> AList.update name \<lparr>lf_bytes = lf_bytes f @ bytes, lf_day = today\<rparr> dir
      | None \<Rightarrow> dir)"

section \<open>Rotation\<close>

definition dated_log_path :: "calendar \<Rightarrow> rstr \<Rightarrow> int \<Rightarrow> rstr" where
  "dated_log_path cal name day = name @ ''.'' @ cal_format cal day"

definition rotate_active_log_to_day :: "calendar \<Rightarrow> log_faults \<Rightarrow> rstr \<Rightarrow> int \<Rightarrow> int \<Rightarrow> log_dir \<Rightarrow> log_step" where
  "rotate_active_log_to_day cal flt name today day dir =
     (case map_of dir name of
        None \<Rightarrow> (dir, Inr ())
      | Some active \<Rightarrow>
          (let target = dated_log_path cal name day
           in case map_of dir target of
                Some _ \<Rightarrow>
                  fallible flt OpenActive dir (fallible flt OpenTarget dir (fallible flt CopyLog dir
                    (let dir = append_bytes target today (lf_bytes active) dir
                     in fallible flt RemoveActive dir (AList.delete name dir, Inr ()))))
              | None \<Rightarrow> fallible flt RenameActive dir (AList.update target active (AList.delete name dir), Inr ())))"

definition rotate_stale_active_log_if_needed :: "calendar \<Rightarrow> log_faults \<Rightarrow> rstr \<Rightarrow> int \<Rightarrow> log_dir \<Rightarrow> log_step" where
  "rotate_stale_active_log_if_needed cal flt name today dir =
     (case map_of dir name of
        None \<Rightarrow> (dir, Inr ())
      | Some active \<Rightarrow>
          fallible flt ReadMetadata dir
            (if lf_bytes active = [] then (dir, Inr ())
             else if lf_day active < today then rotate_active_log_to_day cal flt name today (lf_day active) dir
             else (dir, Inr ())))"

section \<open>Old files\<close>

text \<open>The day of a file whose name is that of a daily log.\<close>

definition daily_log_day :: "calendar \<Rightarrow> rstr \<Rightarrow> rstr \<Rightarrow> int option" where
  "daily_log_day cal base_name name =
     (if \<not> valid_utf8 name \<or> \<not> prefix (base_name @ ''.'') name then None
      else cal_parse cal (drop (length base_name + 1) name))"

fun list_daily :: "calendar \<Rightarrow> log_faults \<Rightarrow> rstr \<Rightarrow> log_dir \<Rightarrow> rstr + (int \<times> rstr) list" where
  "list_daily cal flt base_name [] = Inr []"
| "list_daily cal flt base_name ((name, _) # entries) =
     (case flt (ReadEntry name) of
        Some e \<Rightarrow> Inl e
      | None \<Rightarrow>
          (case list_daily cal flt base_name entries of
             Inl e \<Rightarrow> Inl e
           | Inr out \<Rightarrow> Inr (case daily_log_day cal base_name name of Some day \<Rightarrow> (day, name) # out | None \<Rightarrow> out)))"

definition list_daily_log_files :: "calendar \<Rightarrow> log_faults \<Rightarrow> rstr \<Rightarrow> log_dir \<Rightarrow> rstr + (int \<times> rstr) list" where
  "list_daily_log_files cal flt base_name dir =
     (case flt ReadDir of Some e \<Rightarrow> Inl e | None \<Rightarrow> list_daily cal flt base_name dir)"

text \<open>A file that cannot be removed is left without an error.\<close>

definition remove_daily :: "log_faults \<Rightarrow> rstr \<Rightarrow> log_dir \<Rightarrow> log_dir" where
  "remove_daily flt name dir = (case flt (RemoveDaily name) of Some _ \<Rightarrow> dir | None \<Rightarrow> AList.delete name dir)"

definition prune_daily_logs :: "calendar \<Rightarrow> log_faults \<Rightarrow> rstr \<Rightarrow> nat \<Rightarrow> log_dir \<Rightarrow> log_step" where
  "prune_daily_logs cal flt name retain_daily_files dir =
     (case list_daily_log_files cal flt name dir of
        Inl e \<Rightarrow> (dir, Inl e)
      | Inr daily_logs \<Rightarrow>
          (if length daily_logs \<le> retain_daily_files then (dir, Inr ())
           else (foldl (\<lambda>dir x. remove_daily flt (snd x) dir) dir
                   (take (length daily_logs - retain_daily_files) (sort_key fst daily_logs)), Inr ())))"

section \<open>The writer\<close>

record rotating_log =
  rl_name :: rstr
  rl_current_day :: int
  rl_retain_daily_files :: nat

definition retain_daily_log_files :: nat where
  "retain_daily_log_files = 2"

definition rotating_log_new ::
  "calendar \<Rightarrow> log_faults \<Rightarrow> rstr \<Rightarrow> nat \<Rightarrow> int \<Rightarrow> log_dir \<Rightarrow> log_dir \<times> (rstr + rotating_log)" where
  "rotating_log_new cal flt name retain today dir =
     (case and_then (and_then (fallible flt OpenActive dir (open_append name today dir, Inr ()))
              (rotate_stale_active_log_if_needed cal flt name today))
             (\<lambda>dir. and_then (prune_daily_logs cal flt name retain dir)
               (\<lambda>dir. fallible flt OpenActive dir (open_append name today dir, Inr ()))) of
        (dir, Inl e) \<Rightarrow> (dir, Inl e)
      | (dir, Inr _) \<Rightarrow> (dir, Inr \<lparr>rl_name = name, rl_current_day = today, rl_retain_daily_files = retain\<rparr>))"

definition rotate_if_needed ::
  "calendar \<Rightarrow> log_faults \<Rightarrow> int \<Rightarrow> rotating_log \<Rightarrow> log_dir \<Rightarrow> rotating_log \<times> log_step" where
  "rotate_if_needed cal flt today self dir =
     (if today = rl_current_day self then (self, dir, Inr ())
      else (case and_then (and_then (and_then (fallible flt FlushActive dir (dir, Inr ()))
                   (rotate_active_log_to_day cal flt (rl_name self) today (rl_current_day self)))
                  (prune_daily_logs cal flt (rl_name self) (rl_retain_daily_files self)))
                 (\<lambda>dir. fallible flt OpenActive dir (open_append (rl_name self) today dir, Inr ())) of
              (dir, Inl e) \<Rightarrow> (self, dir, Inl e)
            | (dir, Inr _) \<Rightarrow> (self\<lparr>rl_current_day := today\<rparr>, dir, Inr ())))"

text \<open>A write takes as many bytes as the system takes.\<close>

definition write_log ::
  "calendar \<Rightarrow> log_faults \<Rightarrow> int \<Rightarrow> nat \<Rightarrow> rstr \<Rightarrow> rotating_log \<Rightarrow> log_dir \<Rightarrow> rotating_log \<times> log_dir \<times> (rstr + nat)" where
  "write_log cal flt today taken buf self dir =
     (case rotate_if_needed cal flt today self dir of
        (self, dir, Inl e) \<Rightarrow> (self, dir, Inl e)
      | (self, dir, Inr _) \<Rightarrow>
          (case flt WriteActive of
             Some e \<Rightarrow> (self, dir, Inl e)
           | None \<Rightarrow> (self, append_bytes (rl_name self) today (take taken buf) dir, Inr (min taken (length buf)))))"

section \<open>Reading the logs\<close>

definition json_log_path :: "rstr \<Rightarrow> rstr" where
  "json_log_path log_path =
     rev (dropWhile (\<lambda>c. c \<noteq> CHR ''/'') (rev log_path)) @ ''service.jsonl''"

definition collect_log_history :: "calendar \<Rightarrow> log_faults \<Rightarrow> rstr \<Rightarrow> log_dir \<Rightarrow> rstr + rstr list" where
  "collect_log_history cal flt name dir =
     (case list_daily_log_files cal flt name dir of
        Inl e \<Rightarrow> Inl e
      | Inr history \<Rightarrow>
          Inr (map snd (sort_key fst history) @ (case map_of dir name of Some _ \<Rightarrow> [name] | None \<Rightarrow> [])))"

text \<open>Without \<open>follow\<close>, the contents one after the other; a file that is not UTF-8 cannot be read.\<close>

fun read_history :: "log_dir \<Rightarrow> rstr list \<Rightarrow> rstr + rstr" where
  "read_history dir [] = Inr []"
| "read_history dir (p # ps) =
     (case map_of dir p of
        None \<Rightarrow> Inl (''failed to read '' @ p)
      | Some f \<Rightarrow>
          (if \<not> valid_utf8 (lf_bytes f) then Inl (''failed to read '' @ p)
           else (case read_history dir ps of Inl e \<Rightarrow> Inl e | Inr rest \<Rightarrow> Inr (lf_bytes f @ rest))))"

definition show_logs :: "calendar \<Rightarrow> log_faults \<Rightarrow> rstr \<Rightarrow> rstr \<Rightarrow> log_dir \<Rightarrow> rstr + rstr" where
  "show_logs cal flt log_path name dir =
     (case collect_log_history cal flt name dir of
        Inl e \<Rightarrow> Inl ''failed to list log history''
      | Inr history \<Rightarrow>
          (if history = [] then Inr (''no logs found at '' @ log_path @ [NL]) else read_history dir history))"

text \<open>Following: one turn, with the bytes of the file and the position of the reader.\<close>

definition follow_turn :: "rstr \<Rightarrow> nat \<Rightarrow> nat \<times> rstr" where
  "follow_turn bytes cursor =
     (let cursor = (if length bytes < cursor then 0 else cursor)
      in if length bytes > cursor then (length bytes, drop cursor bytes) else (cursor, []))"

section \<open>The history as a list of days\<close>

text \<open>
  What the writer promises: the text of today and, before it, one text for each of the last days
  on which the log was written, of which \<open>retain\<close> are kept.
\<close>

record daily_history =
  dh_day :: int
  dh_old :: "(int \<times> rstr) list"
  dh_current :: rstr

definition keep_newest :: "nat \<Rightarrow> 'a list \<Rightarrow> 'a list" where
  "keep_newest n xs = drop (length xs - n) xs"

definition history_rotate :: "nat \<Rightarrow> int \<Rightarrow> daily_history \<Rightarrow> daily_history" where
  "history_rotate retain today h =
     (if today = dh_day h then h
      else \<lparr>dh_day = today, dh_old = keep_newest retain (dh_old h @ [(dh_day h, dh_current h)]), dh_current = []\<rparr>)"

definition history_write :: "nat \<Rightarrow> daily_history \<Rightarrow> int \<times> rstr \<Rightarrow> daily_history" where
  "history_write retain h w =
     (let h = history_rotate retain (fst w) h in h\<lparr>dh_current := dh_current h @ snd w\<rparr>)"

definition history_shown :: "daily_history \<Rightarrow> rstr" where
  "history_shown h = concat (map snd (dh_old h)) @ dh_current h"

abbreviation no_log_faults :: log_faults where
  "no_log_faults \<equiv> \<lambda>_. None"

definition good_calendar :: "calendar \<Rightarrow> rstr \<Rightarrow> bool" where
  "good_calendar cal name \<longleftrightarrow>
     (\<forall>d. cal_parse cal (cal_format cal d) = Some d \<and> valid_utf8 (dated_log_path cal name d))"

definition daily_files :: "calendar \<Rightarrow> rstr \<Rightarrow> log_dir \<Rightarrow> (int \<times> rstr) list" where
  "daily_files cal name dir =
     List.map_filter (\<lambda>x. map_option (\<lambda>d. (d, fst x)) (daily_log_day cal name (fst x))) dir"

definition days_ok :: "daily_history \<Rightarrow> bool" where
  "days_ok h \<longleftrightarrow> sorted_wrt (<) (map fst (dh_old h)) \<and> (\<forall>d\<in>fst ` set (dh_old h). d < dh_day h)"

definition log_refines :: "calendar \<Rightarrow> rstr \<Rightarrow> daily_history \<Rightarrow> log_dir \<Rightarrow> bool" where
  "log_refines cal name h dir \<longleftrightarrow> distinct (map fst dir) \<and> days_ok h \<and>
     map_option lf_bytes (map_of dir name) = Some (dh_current h) \<and>
     set (daily_files cal name dir) = (\<lambda>d. (d, dated_log_path cal name d)) ` fst ` set (dh_old h) \<and>
     (\<forall>d c. (d, c) \<in> set (dh_old h) \<longrightarrow> map_option lf_bytes (map_of dir (dated_log_path cal name d)) = Some c)"

lemma log_refinesI:
  assumes "distinct (map fst dir)" "days_ok h" "map_option lf_bytes (map_of dir name) = Some (dh_current h)"
    "set (daily_files cal name dir) = (\<lambda>d. (d, dated_log_path cal name d)) ` fst ` set (dh_old h)"
    "\<And>d c. (d, c) \<in> set (dh_old h) \<Longrightarrow> map_option lf_bytes (map_of dir (dated_log_path cal name d)) = Some c"
  shows "log_refines cal name h dir"
  unfolding log_refines_def by (intro conjI allI impI assms)

lemma log_refinesD:
  assumes "log_refines cal name h dir"
  shows "distinct (map fst dir)" "days_ok h" "map_option lf_bytes (map_of dir name) = Some (dh_current h)"
    "set (daily_files cal name dir) = (\<lambda>d. (d, dated_log_path cal name d)) ` fst ` set (dh_old h)"
    "(d, c) \<in> set (dh_old h) \<Longrightarrow> map_option lf_bytes (map_of dir (dated_log_path cal name d)) = Some c"
proof -
  note r = assms[unfolded log_refines_def]
  from r show "distinct (map fst dir)" by (elim conjE)
  from r show "days_ok h" by (elim conjE)
  from r show "map_option lf_bytes (map_of dir name) = Some (dh_current h)" by (elim conjE)
  from r show "set (daily_files cal name dir) = (\<lambda>d. (d, dated_log_path cal name d)) ` fst ` set (dh_old h)" by (elim conjE)
  from r have "\<forall>d c. (d, c) \<in> set (dh_old h) \<longrightarrow> map_option lf_bytes (map_of dir (dated_log_path cal name d)) = Some c"
    by (elim conjE)
  then show "(d, c) \<in> set (dh_old h) \<Longrightarrow> map_option lf_bytes (map_of dir (dated_log_path cal name d)) = Some c" by blast
qed

section \<open>Names\<close>

lemma dated_day: "good_calendar cal name \<Longrightarrow> daily_log_day cal name (dated_log_path cal name d) = Some d"
  by (simp add: good_calendar_def daily_log_day_def dated_log_path_def)

lemma dated_inj: "good_calendar cal name \<Longrightarrow> dated_log_path cal name d = dated_log_path cal name e \<longleftrightarrow> d = e"
  by (metis dated_day option.inject)

lemma dated_not_active: "dated_log_path cal name d \<noteq> name"
  by (simp add: dated_log_path_def)

lemma active_not_daily: "daily_log_day cal name name = None"
proof -
  have "\<not> prefix (name @ ''.'') name" using prefix_length_le by fastforce
  then show ?thesis by (simp add: daily_log_day_def)
qed

lemma list_daily_ok: "list_daily_log_files cal no_log_faults name dir = Inr (daily_files cal name dir)"
proof -
  have "list_daily cal no_log_faults name dir = Inr (daily_files cal name dir)"
    by (induction dir) (auto simp: daily_files_def List.map_filter_simps split: option.splits)
  then show ?thesis by (simp add: list_daily_log_files_def)
qed

lemma in_daily_files: "(d, n) \<in> set (daily_files cal name dir) \<longleftrightarrow> n \<in> fst ` set dir \<and> daily_log_day cal name n = Some d"
  by (induction dir) (auto simp: daily_files_def List.map_filter_simps split: option.splits)

lemma distinct_daily_files: "distinct (map fst dir) \<Longrightarrow> distinct (daily_files cal name dir)"
proof (induction dir)
  case (Cons x dir)
  have "(d, fst x) \<notin> set (daily_files cal name dir)" for d using Cons.prems by (auto simp: in_daily_files)
  with Cons show ?case by (auto simp: daily_files_def List.map_filter_simps split: option.splits)
qed (simp add: daily_files_def List.map_filter_simps)

text \<open>The sorted list of the daily files is the list of the old days.\<close>

lemma sorted_by_day:
  assumes "distinct ys" "sorted_wrt (<) (days :: int list)" "set ys = (\<lambda>d. (d, f d)) ` set days"
  shows "sort_key fst ys = map (\<lambda>d. (d, f d)) days"
proof -
  let ?s = "sort_key fst ys"
  have s: "set ?s = set ys" "distinct ?s" "sorted (map fst ?s)" using assms(1) by simp_all
  have inj: "inj_on fst (set ys)" using assms(3) by (auto simp: inj_on_def)
  have "distinct (map fst ?s)" using s inj by (simp add: distinct_map)
  moreover have "set (map fst ?s) = set days" using assms(3) by (auto simp: image_image)
  moreover have "sorted days" "distinct days" using assms(2) by (simp_all add: strict_sorted_iff)
  ultimately have e: "map fst ?s = days" using s(3) sorted_distinct_set_unique by blast
  have "(fst x, f (fst x)) = x" if "x \<in> set ?s" for x using that assms(3) by auto
  then have "?s = map (\<lambda>x. (fst x, f (fst x))) ?s" by (rule map_idI[symmetric])
  also have "\<dots> = map (\<lambda>d. (d, f d)) (map fst ?s)" by simp
  finally show ?thesis by (simp only: e)
qed

lemma refines_sorted:
  assumes "log_refines cal name h dir"
  shows "sort_key fst (daily_files cal name dir) = map (\<lambda>d. (d, dated_log_path cal name d)) (map fst (dh_old h))"
  by (rule sorted_by_day) (use assms distinct_daily_files in \<open>auto simp: log_refines_def days_ok_def\<close>)

lemma keys_of_map: "n \<in> fst ` set dir \<longleftrightarrow> map_of dir n \<noteq> None"
  by (metis map_of_eq_None_iff)

lemma refines_cong:
  assumes "distinct (map fst dir')" "log_refines cal name h dir" "\<And>k. map_of dir' k = map_of dir k"
  shows "log_refines cal name h dir'"
proof -
  have files: "set (daily_files cal name dir') = set (daily_files cal name dir)"
    by (rule set_eqI) (auto simp: in_daily_files keys_of_map assms(3))
  show ?thesis
    using assms(1) conjunct2[OF assms(2)[unfolded log_refines_def]] unfolding log_refines_def assms(3) files by (rule conjI)
qed

section \<open>Rotation and writing refine the history\<close>

lemma map_of_delete_all: "map_of (foldl (\<lambda>dir p. remove_daily no_log_faults (f p) dir) dir ps) n =
    (if n \<in> f ` set ps then None else map_of dir n)"
  by (induction ps arbitrary: dir) (auto simp: remove_daily_def delete_conv)

lemma distinct_delete_all: "distinct (map fst dir) \<Longrightarrow>
    distinct (map fst (foldl (\<lambda>dir p. remove_daily no_log_faults (f p) dir) dir ps))"
  by (induction ps arbitrary: dir) (auto simp: remove_daily_def distinct_delete)

lemma named_member:
  assumes "S = T \<union> D" "T \<inter> D = {}" "inj f"
  shows "((e \<in> S \<and> n = f e) \<and> n \<notin> f ` T) = (e \<in> D \<and> n = f e)"
  using assms by (cases "n = f e") (auto simp: inj_image_mem_iff)

lemma prune_refines:
  assumes cal: "good_calendar cal name" and r: "log_refines cal name h dir"
  shows "\<exists>dir'. prune_daily_logs cal no_log_faults name retain dir = (dir', Inr ()) \<and>
    log_refines cal name (h\<lparr>dh_old := keep_newest retain (dh_old h)\<rparr>) dir'"
proof -
  let ?days = "map fst (dh_old h)" and ?k = "length (dh_old h) - retain"
  have len: "length (daily_files cal name dir) = length (dh_old h)"
    using arg_cong[OF refines_sorted[OF r], of length] by simp
  show ?thesis
  proof (cases "length (dh_old h) \<le> retain")
    case True
    then show ?thesis using r by (simp add: prune_daily_logs_def list_daily_ok len keep_newest_def)
  next
    case False
    let ?gone = "take ?k (map (\<lambda>d. (d, dated_log_path cal name d)) ?days)"
    let ?dir = "foldl (\<lambda>dir x. remove_daily no_log_faults (snd x) dir) dir ?gone"
    have prune: "prune_daily_logs cal no_log_faults name retain dir = (?dir, Inr ())"
      using False by (simp add: prune_daily_logs_def list_daily_ok len refines_sorted[OF r] case_prod_beta)
    have gone: "snd ` set ?gone = dated_log_path cal name ` set (take ?k ?days)"
      by (simp add: take_map image_image)
    have m: "map_of ?dir n = (if n \<in> dated_log_path cal name ` set (take ?k ?days) then None else map_of dir n)" for n
      by (simp only: map_of_delete_all gone)
    have "distinct (map fst ?dir)" by (rule distinct_delete_all) (use r in \<open>simp add: log_refines_def\<close>)
    with prune m obtain G where G: "prune_daily_logs cal no_log_faults name retain dir = (G, Inr ())" "distinct (map fst G)"
      and mG: "\<And>n. map_of G n = (if n \<in> dated_log_path cal name ` set (take ?k ?days) then None else map_of dir n)"
      by blast
    have sorted: "sorted_wrt (<) ?days" and d: "distinct (map fst dir)" using r by (auto simp: log_refines_def days_ok_def)
    then have dis: "distinct ?days" by (simp add: strict_sorted_iff)
    have apart: "set (take ?k ?days) \<inter> set (drop ?k ?days) = {}" using dis by (metis append_take_drop_id distinct_append)
    have old: "map fst (keep_newest retain (dh_old h)) = drop ?k ?days" by (simp add: keep_newest_def drop_map)
    have files: "set (daily_files cal name G) = (\<lambda>d. (d, dated_log_path cal name d)) ` set (drop ?k ?days)"
    proof (rule set_eqI)
      fix x :: "int \<times> rstr"
      obtain e n where x: "x = (e, n)" by fastforce
      have "x \<in> set (daily_files cal name G) \<longleftrightarrow>
          (e, n) \<in> set (daily_files cal name dir) \<and> n \<notin> dated_log_path cal name ` set (take ?k ?days)"
        unfolding x in_daily_files keys_of_map mG by auto
      also have "(e, n) \<in> set (daily_files cal name dir) \<longleftrightarrow> e \<in> set ?days \<and> n = dated_log_path cal name e"
        using r by (auto simp: log_refines_def)
      also have "(e \<in> set ?days \<and> n = dated_log_path cal name e) \<and> n \<notin> dated_log_path cal name ` set (take ?k ?days) \<longleftrightarrow>
          e \<in> set (drop ?k ?days) \<and> n = dated_log_path cal name e"
      proof (rule named_member[OF _ apart])
        show "set ?days = set (take ?k ?days) \<union> set (drop ?k ?days)" by (simp only: set_append[symmetric] append_take_drop_id)
        show "inj (dated_log_path cal name)" by (simp add: inj_def dated_inj[OF cal])
      qed
      finally show "x \<in> set (daily_files cal name G) \<longleftrightarrow> x \<in> (\<lambda>d. (d, dated_log_path cal name d)) ` set (drop ?k ?days)"
        by (auto simp: x)
    qed
    have kept: "map_option lf_bytes (map_of G (dated_log_path cal name e)) = Some c" if "(e, c) \<in> set (keep_newest retain (dh_old h))" for e c
    proof -
      have "e \<in> fst ` set (keep_newest retain (dh_old h))" using that by force
      then have "e \<in> set (drop ?k ?days)" unfolding old[symmetric] by simp
      moreover have "(e, c) \<in> set (dh_old h)" using that by (auto simp: keep_newest_def dest: in_set_dropD)
      ultimately show ?thesis using r apart unfolding mG
        by (subst inj_image_mem_iff) (auto simp: log_refines_def inj_def dated_inj[OF cal])
    qed
    have days: "days_ok (h\<lparr>dh_old := keep_newest retain (dh_old h)\<rparr>)"
      using r by (auto simp: days_ok_def log_refines_def old sorted_wrt_drop keep_newest_def dest: in_set_dropD simp flip: drop_map)
    have act: "map_option lf_bytes (map_of G name) = Some (dh_current h)"
    proof -
      have "name \<notin> dated_log_path cal name ` set (take ?k ?days)" using dated_not_active by (metis imageE)
      moreover have "map_option lf_bytes (map_of dir name) = Some (dh_current h)"
        using r unfolding log_refines_def by (elim conjE)
      ultimately show ?thesis by (simp only: mG if_False)
    qed
    have "log_refines cal name (h\<lparr>dh_old := keep_newest retain (dh_old h)\<rparr>) G"
    proof (rule log_refinesI[OF G(2) days])
      show "map_option lf_bytes (map_of G name) = Some (dh_current (h\<lparr>dh_old := keep_newest retain (dh_old h)\<rparr>))"
        using act by simp
      have "fst ` set (keep_newest retain (dh_old h)) = set (drop ?k ?days)" unfolding old[symmetric] by simp
      then show "set (daily_files cal name G) = (\<lambda>d. (d, dated_log_path cal name d)) ` fst `
          set (dh_old (h\<lparr>dh_old := keep_newest retain (dh_old h)\<rparr>))" using files by simp
    qed (use kept in simp)
    then show ?thesis using G(1) by blast
  qed
qed

lemma update_daily_files:
  "set (daily_files cal name (AList.update k v dir)) = set (daily_files cal name dir) \<union>
     (case daily_log_day cal name k of Some d \<Rightarrow> {(d, k)} | None \<Rightarrow> {})"
  by (rule set_eqI) (auto simp: in_daily_files dom_update split: option.splits)

lemma delete_active_daily_files:
  "set (daily_files cal name (AList.delete name dir)) = set (daily_files cal name dir)"
  by (rule set_eqI) (auto simp: in_daily_files keys_of_map delete_conv active_not_daily split: if_splits)

text \<open>The active file becomes the file of its day, which is a new one, and a new active file is made.\<close>

lemma rotate_refines:
  assumes cal: "good_calendar cal name" and r: "log_refines cal name h dir" and t: "dh_day h < today"
  shows "\<exists>dir'. rotate_active_log_to_day cal no_log_faults name today (dh_day h) dir = (dir', Inr ()) \<and>
    map_of dir' name = None \<and> distinct (map fst dir') \<and>
    log_refines cal name \<lparr>dh_day = today, dh_old = dh_old h @ [(dh_day h, dh_current h)], dh_current = []\<rparr>
      (open_append name today dir')"
proof -
  let ?target = "dated_log_path cal name (dh_day h)"
  from r obtain f where f: "map_of dir name = Some f" "lf_bytes f = dh_current h" by (auto simp: log_refines_def)
  have days: "dh_day h \<notin> fst ` set (dh_old h)" using r by (auto simp: log_refines_def days_ok_def)
  have "(dh_day h, ?target) \<notin> set (daily_files cal name dir)" using days r by (auto simp: log_refines_def)
  then have nt: "map_of dir ?target = None" using dated_day[OF cal] by (simp add: in_daily_files keys_of_map)
  let ?dir = "AList.update ?target f (AList.delete name dir)"
  have rot: "rotate_active_log_to_day cal no_log_faults name today (dh_day h) dir = (?dir, Inr ())"
    using f(1) nt by (simp add: rotate_active_log_to_day_def fallible_def)
  have gone: "map_of ?dir name = None" using dated_not_active[of cal name "dh_day h", symmetric] by (simp add: update_conv delete_conv)
  let ?new = "AList.update name \<lparr>lf_bytes = [], lf_day = today\<rparr> ?dir"
  let ?h = "\<lparr>dh_day = today, dh_old = dh_old h @ [(dh_day h, dh_current h)], dh_current = []\<rparr>"
  have op: "open_append name today ?dir = ?new" using gone by (simp add: open_append_def)
  have m: "map_of ?new n = (if n = name then Some \<lparr>lf_bytes = [], lf_day = today\<rparr> else if n = ?target then Some f else map_of dir n)" for n
    by (simp add: update_conv delete_conv)
  have dist: "distinct (map fst ?new)" using r by (simp add: log_refines_def distinct_update distinct_delete)
  have dok: "days_ok ?h"
    using r t by (force simp: days_ok_def log_refines_def sorted_wrt_append)
  have set1: "set (daily_files cal name ?new) = insert (dh_day h, ?target) (set (daily_files cal name dir))"
    unfolding update_daily_files delete_active_daily_files using dated_day[OF cal] active_not_daily[of cal name] by simp
  have files: "set (daily_files cal name ?new) = (\<lambda>d. (d, dated_log_path cal name d)) ` fst ` set (dh_old ?h)"
    unfolding set1 using r by (auto simp: log_refines_def)
  have kept: "map_option lf_bytes (map_of ?new (dated_log_path cal name e)) = Some c" if "(e, c) \<in> set (dh_old ?h)" for e c
  proof (cases "(e, c) = (dh_day h, dh_current h)")
    case True
    then show ?thesis using f(2) dated_not_active[of cal name] by (simp add: m)
  next
    case False
    with that have o: "(e, c) \<in> set (dh_old h)" by auto
    then have "e \<noteq> dh_day h" using days by force
    with o show ?thesis using r dated_not_active[of cal name] dated_inj[OF cal] by (auto simp: m log_refines_def)
  qed
  have "log_refines cal name ?h ?new"
    by (rule log_refinesI[OF dist dok _ files kept]) (simp add: m[of name])
  moreover have "distinct (map fst ?dir)" by (intro distinct_update distinct_delete log_refinesD(1)[OF r])
  ultimately show ?thesis using rot gone unfolding op[symmetric] by blast
qed

lemma open_existing: "map_of dir name \<noteq> None \<Longrightarrow> open_append name today dir = dir"
  by (auto simp: open_append_def)

lemma open_keeps_daily:
  assumes "map_of dir name = None"
  shows "set (daily_files cal name (open_append name today dir)) = set (daily_files cal name dir)"
  using assms by (simp add: open_append_def update_daily_files active_not_daily)

text \<open>Pruning does not touch the active file, so it may as well come after the new one is made.\<close>

lemma prune_before_open:
  assumes cal: "good_calendar cal name" and r: "log_refines cal name h (open_append name today dir)"
    and n: "map_of dir name = None" and d: "distinct (map fst dir)"
  shows "\<exists>dir'. prune_daily_logs cal no_log_faults name retain dir = (dir', Inr ()) \<and>
    log_refines cal name (h\<lparr>dh_old := keep_newest retain (dh_old h)\<rparr>) (open_append name today dir')"
proof -
  have same: "sort_key fst (daily_files cal name dir) = sort_key fst (daily_files cal name (open_append name today dir))"
    unfolding refines_sorted[OF r]
    by (rule sorted_by_day) (use r d open_keeps_daily[OF n] distinct_daily_files in \<open>auto simp: log_refines_def days_ok_def\<close>)
  have len: "length (daily_files cal name dir) = length (daily_files cal name (open_append name today dir))"
    using arg_cong[OF same, of length] by simp
  from prune_refines[OF cal r] obtain G where
    G: "prune_daily_logs cal no_log_faults name retain (open_append name today dir) = (G, Inr ())"
    "log_refines cal name (h\<lparr>dh_old := keep_newest retain (dh_old h)\<rparr>) G" by blast
  show ?thesis
  proof (cases "length (daily_files cal name dir) \<le> retain")
    case True
    then have "G = open_append name today dir" using G(1) by (simp add: prune_daily_logs_def list_daily_ok len)
    then show ?thesis using True G(2) by (simp add: prune_daily_logs_def list_daily_ok)
  next
    case False
    let ?gone = "take (length (daily_files cal name dir) - retain) (sort_key fst (daily_files cal name dir))"
    let ?dir = "foldl (\<lambda>dir x. remove_daily no_log_faults (snd x) dir) dir ?gone"
    have g: "G = foldl (\<lambda>dir x. remove_daily no_log_faults (snd x) dir) (open_append name today dir) ?gone"
      using False G(1) unfolding same len by (simp add: prune_daily_logs_def list_daily_ok)
    have notin: "name \<notin> snd ` set ?gone"
    proof
      assume "name \<in> snd ` set ?gone"
      then obtain e where "(e, name) \<in> set (daily_files cal name dir)" by (auto dest: in_set_takeD)
      then show False by (simp add: in_daily_files active_not_daily)
    qed
    have op: "open_append name today dir = AList.update name \<lparr>lf_bytes = [], lf_day = today\<rparr> dir"
      using n by (simp add: open_append_def)
    have none: "map_of ?dir name = None" using notin n by (simp add: map_of_delete_all)
    then have op': "open_append name today ?dir = AList.update name \<lparr>lf_bytes = [], lf_day = today\<rparr> ?dir"
      by (simp add: open_append_def)
    have same_files: "map_of (open_append name today ?dir) k = map_of G k" for k
      unfolding op' g op using notin by (simp add: update_conv map_of_delete_all)
    have "distinct (map fst (open_append name today ?dir))"
      unfolding op' by (intro distinct_update distinct_delete_all d)
    then have "log_refines cal name (h\<lparr>dh_old := keep_newest retain (dh_old h)\<rparr>) (open_append name today ?dir)"
      using G(2) same_files by (rule refines_cong)
    moreover have "prune_daily_logs cal no_log_faults name retain dir = (?dir, Inr ())"
      using False by (simp add: prune_daily_logs_def list_daily_ok)
    ultimately show ?thesis by blast
  qed
qed

lemma rotation_refines:
  assumes cal: "good_calendar cal name" and r: "log_refines cal name h dir"
    and self: "rl_name self = name" "rl_current_day self = dh_day h" and t: "dh_day h \<le> today"
  shows "\<exists>dir'. rotate_if_needed cal no_log_faults today self dir = (self\<lparr>rl_current_day := today\<rparr>, dir', Inr ()) \<and>
    log_refines cal name (history_rotate (rl_retain_daily_files self) today h) dir'"
proof (cases "today = dh_day h")
  case True
  then show ?thesis using r self by (auto simp: rotate_if_needed_def history_rotate_def)
next
  case False
  with t have t: "dh_day h < today" by simp
  from rotate_refines[OF cal r t] obtain dir1 where
    d1: "rotate_active_log_to_day cal no_log_faults name today (dh_day h) dir = (dir1, Inr ())" "map_of dir1 name = None" "distinct (map fst dir1)"
    "log_refines cal name \<lparr>dh_day = today, dh_old = dh_old h @ [(dh_day h, dh_current h)], dh_current = []\<rparr> (open_append name today dir1)"
    by (elim exE conjE)
  from prune_before_open[OF cal d1(4,2,3), of "rl_retain_daily_files self"] obtain dir2 where
    d2: "prune_daily_logs cal no_log_faults name (rl_retain_daily_files self) dir1 = (dir2, Inr ())"
    "log_refines cal name (history_rotate (rl_retain_daily_files self) today h) (open_append name today dir2)"
    using False by (auto simp: history_rotate_def)
  then show ?thesis using False self d1(1) by (simp add: rotate_if_needed_def and_then_def fallible_def)
qed

lemma write_refines:
  assumes cal: "good_calendar cal name" and r: "log_refines cal name h dir"
    and self: "rl_name self = name" "rl_current_day self = dh_day h" and t: "dh_day h \<le> today"
  shows "\<exists>dir'. write_log cal no_log_faults today (length buf) buf self dir =
      (self\<lparr>rl_current_day := today\<rparr>, dir', Inr (length buf)) \<and>
    log_refines cal name (history_write (rl_retain_daily_files self) h (today, buf)) dir'"
proof -
  from rotation_refines[OF cal r self t] obtain dir1 where
    d1: "rotate_if_needed cal no_log_faults today self dir = (self\<lparr>rl_current_day := today\<rparr>, dir1, Inr ())"
    "log_refines cal name (history_rotate (rl_retain_daily_files self) today h) dir1" by blast
  let ?h = "history_rotate (rl_retain_daily_files self) today h"
  note r1 = log_refinesD[OF d1(2)]
  from r1(3) obtain f where f: "map_of dir1 name = Some f" "lf_bytes f = dh_current ?h" by auto
  let ?dir = "AList.update name \<lparr>lf_bytes = lf_bytes f @ buf, lf_day = today\<rparr> dir1"
  have w: "write_log cal no_log_faults today (length buf) buf self dir = (self\<lparr>rl_current_day := today\<rparr>, ?dir, Inr (length buf))"
    using d1(1) f(1) self(1) by (simp add: write_log_def append_bytes_def)
  have h: "history_write (rl_retain_daily_files self) h (today, buf) = ?h\<lparr>dh_current := dh_current ?h @ buf\<rparr>"
    by (simp add: history_write_def Let_def)
  have "log_refines cal name (?h\<lparr>dh_current := dh_current ?h @ buf\<rparr>) ?dir"
  proof (rule log_refinesI)
    show "distinct (map fst ?dir)" by (rule distinct_update[OF r1(1)])
    show "days_ok (?h\<lparr>dh_current := dh_current ?h @ buf\<rparr>)" using r1(2) by (simp add: days_ok_def)
    show "map_option lf_bytes (map_of ?dir name) = Some (dh_current (?h\<lparr>dh_current := dh_current ?h @ buf\<rparr>))"
      by (simp add: update_conv f(2))
    show "set (daily_files cal name ?dir) = (\<lambda>d. (d, dated_log_path cal name d)) ` fst ` set (dh_old (?h\<lparr>dh_current := dh_current ?h @ buf\<rparr>))"
      unfolding update_daily_files using r1(4) by (simp add: active_not_daily)
    show "map_option lf_bytes (map_of ?dir (dated_log_path cal name d)) = Some c"
      if "(d, c) \<in> set (dh_old (?h\<lparr>dh_current := dh_current ?h @ buf\<rparr>))" for d c
    proof -
      have "(d, c) \<in> set (dh_old ?h)" using that by simp
      from r1(5)[OF this] show ?thesis using dated_not_active[of cal name d] by (simp add: update_conv)
    qed
  qed
  then show ?thesis using w h by auto
qed

text \<open>A run of the writer: the days and the texts of its writes, all of which succeed.\<close>

fun write_all :: "calendar \<Rightarrow> (int \<times> rstr) list \<Rightarrow> rotating_log \<Rightarrow> log_dir \<Rightarrow> log_dir" where
  "write_all cal [] self dir = dir"
| "write_all cal (w # ws) self dir =
     (case write_log cal no_log_faults (fst w) (length (snd w)) (snd w) self dir of
        (self, dir, _) \<Rightarrow> write_all cal ws self dir)"

lemma history_write_day: "dh_day (history_write retain h w) = fst w"
  by (simp add: history_write_def history_rotate_def Let_def)

lemma writes_refine:
  assumes "good_calendar cal name" "log_refines cal name h dir" "rl_name self = name" "rl_current_day self = dh_day h"
    "sorted (dh_day h # map fst ws)"
  shows "log_refines cal name (foldl (history_write (rl_retain_daily_files self)) h ws) (write_all cal ws self dir)"
  using assms(2-)
proof (induction ws arbitrary: h self dir)
  case (Cons w ws)
  have t: "dh_day h \<le> fst w" using Cons.prems(4) by simp
  from write_refines[OF assms(1) Cons.prems(1-3) t, of "snd w"] obtain dir' where
    d: "write_log cal no_log_faults (fst w) (length (snd w)) (snd w) self dir =
      (self\<lparr>rl_current_day := fst w\<rparr>, dir', Inr (length (snd w)))"
    "log_refines cal name (history_write (rl_retain_daily_files self) h w) dir'" by auto
  have "log_refines cal name (foldl (history_write (rl_retain_daily_files (self\<lparr>rl_current_day := fst w\<rparr>)))
      (history_write (rl_retain_daily_files self) h w) ws) (write_all cal ws (self\<lparr>rl_current_day := fst w\<rparr>) dir')"
    by (rule Cons.IH[OF d(2)]) (use Cons.prems in \<open>simp_all add: history_write_day\<close>)
  then show ?case by (simp add: d(1))
qed simp

lemma fresh_log:
  assumes "map_of dir name = None" "distinct (map fst dir)" "daily_files cal name dir = []"
    "rotating_log_new cal no_log_faults name retain start dir = (dir0, Inr self)"
  shows "log_refines cal name \<lparr>dh_day = start, dh_old = [], dh_current = []\<rparr> dir0"
    "self = \<lparr>rl_name = name, rl_current_day = start, rl_retain_daily_files = retain\<rparr>"
proof -
  let ?f = "\<lparr>lf_bytes = [], lf_day = start\<rparr>"
  let ?dir = "AList.update name ?f dir"
  have op: "open_append name start dir = ?dir" "open_append name start ?dir = ?dir"
    using assms(1) by (simp_all add: open_append_def update_conv)
  have "set (daily_files cal name ?dir) = {}" unfolding update_daily_files using assms(3) by (simp add: active_not_daily)
  then have none: "daily_files cal name ?dir = []" by simp
  have "rotate_stale_active_log_if_needed cal no_log_faults name start ?dir = (?dir, Inr ())"
    by (simp add: rotate_stale_active_log_if_needed_def fallible_def update_conv)
  moreover have "prune_daily_logs cal no_log_faults name retain ?dir = (?dir, Inr ())"
    by (simp add: prune_daily_logs_def list_daily_ok none)
  ultimately have "rotating_log_new cal no_log_faults name retain start dir =
      (?dir, Inr \<lparr>rl_name = name, rl_current_day = start, rl_retain_daily_files = retain\<rparr>)"
    by (simp add: rotating_log_new_def fallible_def and_then_def op)
  then have d: "dir0 = ?dir" "self = \<lparr>rl_name = name, rl_current_day = start, rl_retain_daily_files = retain\<rparr>"
    using assms(4) by auto
  show "self = \<lparr>rl_name = name, rl_current_day = start, rl_retain_daily_files = retain\<rparr>" by (rule d(2))
  show "log_refines cal name \<lparr>dh_day = start, dh_old = [], dh_current = []\<rparr> dir0"
    unfolding d(1) by (rule log_refinesI) (use none distinct_update[OF assms(2)] in \<open>simp_all add: days_ok_def update_conv\<close>)
qed

section \<open>What is shown\<close>

definition history_valid :: "daily_history \<Rightarrow> bool" where
  "history_valid h \<longleftrightarrow> (\<forall>c\<in>snd ` set (dh_old h). valid_utf8 c) \<and> valid_utf8 (dh_current h)"

lemma history_write_valid: "history_valid h \<Longrightarrow> valid_utf8 (snd w) \<Longrightarrow> history_valid (history_write retain h w)"
  by (auto simp: history_valid_def history_write_def history_rotate_def Let_def keep_newest_def
      intro: valid_utf8_append dest: in_set_dropD)

lemma writes_valid: "history_valid h \<Longrightarrow> \<forall>w\<in>set ws. valid_utf8 (snd w) \<Longrightarrow> history_valid (foldl (history_write retain) h ws)"
  by (induction ws arbitrary: h) (simp_all add: history_write_valid)

lemma read_history_all:
  assumes "\<And>d c. (d, c) \<in> set old \<Longrightarrow> map_option lf_bytes (map_of dir (f d)) = Some c \<and> valid_utf8 c"
    "map_option lf_bytes (map_of dir name) = Some cur" "valid_utf8 cur"
  shows "read_history dir (map f (map fst old) @ [name]) = Inr (concat (map snd old) @ cur)"
  using assms
proof (induction old)
  case (Cons x old)
  obtain d c where x: "x = (d, c)" by fastforce
  have "map_option lf_bytes (map_of dir (f d)) = Some c \<and> valid_utf8 c" using Cons.prems(1)[of d c] by (simp add: x)
  then obtain g where g: "map_of dir (f d) = Some g" "lf_bytes g = c" "valid_utf8 c" by auto
  have "read_history dir (map f (map fst old) @ [name]) = Inr (concat (map snd old) @ cur)"
    by (rule Cons.IH) (use Cons.prems in auto)
  then show ?case by (simp add: x g)
qed auto

lemma shown_history:
  assumes "log_refines cal name h dir" "history_valid h"
  shows "show_logs cal no_log_faults log_path name dir = Inr (history_shown h)"
proof -
  note r = log_refinesD[OF assms(1)]
  from r(3) obtain f where f: "map_of dir name = Some f" by auto
  have "collect_log_history cal no_log_faults name dir = Inr (map (dated_log_path cal name) (map fst (dh_old h)) @ [name])"
    by (simp add: collect_log_history_def list_daily_ok refines_sorted[OF assms(1)] f)
  moreover have "read_history dir (map (dated_log_path cal name) (map fst (dh_old h)) @ [name]) = Inr (history_shown h)"
    unfolding history_shown_def
    by (rule read_history_all) (use r(3,5) assms(2) in \<open>auto simp: history_valid_def\<close>)
  ultimately show ?thesis by (simp add: show_logs_def)
qed

text \<open>The number of days after the first on which something is written.\<close>

fun rotations :: "int \<Rightarrow> (int \<times> rstr) list \<Rightarrow> nat" where
  "rotations d [] = 0"
| "rotations d (w # ws) = (if fst w = d then 0 else 1) + rotations (fst w) ws"

lemma rotations_card: "sorted (d # map fst ws) \<Longrightarrow> Suc (rotations d ws) = card (insert d (fst ` set ws))"
proof (induction ws arbitrary: d)
  case (Cons w ws)
  have ih: "Suc (rotations (fst w) ws) = card (insert (fst w) (fst ` set ws))" by (rule Cons.IH) (use Cons.prems in simp)
  show ?case
  proof (cases "fst w = d")
    case True
    then show ?thesis using ih by simp
  next
    case False
    then have "d \<notin> insert (fst w) (fst ` set ws)" using Cons.prems by fastforce
    then show ?thesis using ih False by simp
  qed
qed simp

lemma write_shown:
  "suffix (history_shown (history_write retain h w)) (history_shown h @ snd w)"
  "length (dh_old h) + (if fst w = dh_day h then 0 else 1) \<le> retain \<Longrightarrow>
     history_shown (history_write retain h w) = history_shown h @ snd w \<and>
     length (dh_old (history_write retain h w)) = length (dh_old h) + (if fst w = dh_day h then 0 else 1)"
proof -
  have drop: "suffix (concat (map snd (drop n xs)) @ y) (concat (map snd xs) @ y)" for n and xs :: "(int \<times> rstr) list" and y
    by (rule suffixI[of _ "concat (map snd (take n xs))"]) (simp flip: concat_append map_append)
  show "suffix (history_shown (history_write retain h w)) (history_shown h @ snd w)"
  proof (cases "fst w = dh_day h")
    case True
    then show ?thesis by (simp add: history_shown_def history_write_def history_rotate_def)
  next
    case False
    from drop[of "Suc (length (dh_old h)) - retain" "dh_old h @ [(dh_day h, dh_current h)]" "snd w"] False show ?thesis
      by (simp add: history_shown_def history_write_def history_rotate_def keep_newest_def)
  qed
  show "length (dh_old h) + (if fst w = dh_day h then 0 else 1) \<le> retain \<Longrightarrow>
     history_shown (history_write retain h w) = history_shown h @ snd w \<and>
     length (dh_old (history_write retain h w)) = length (dh_old h) + (if fst w = dh_day h then 0 else 1)"
    by (auto simp: history_shown_def history_write_def history_rotate_def Let_def keep_newest_def)
qed

lemma writes_shown:
  "suffix (history_shown (foldl (history_write retain) h ws)) (history_shown h @ concat (map snd ws))"
proof (induction ws arbitrary: h)
  case (Cons w ws)
  have "suffix (history_shown (history_write retain h w) @ concat (map snd ws)) (history_shown h @ snd w @ concat (map snd ws))"
    using write_shown(1)[of retain h w] by (simp add: suffix_def)
  with Cons.IH[of "history_write retain h w"] show ?case by (simp add: suffix_order.trans)
qed simp

lemma writes_all_shown:
  "length (dh_old h) + rotations (dh_day h) ws \<le> retain \<Longrightarrow>
     history_shown (foldl (history_write retain) h ws) = history_shown h @ concat (map snd ws)"
proof (induction ws arbitrary: h)
  case (Cons w ws)
  have "length (dh_old h) + (if fst w = dh_day h then 0 else 1) \<le> retain" using Cons.prems by simp
  note s = write_shown(2)[OF this]
  have "length (dh_old (history_write retain h w)) + rotations (dh_day (history_write retain h w)) ws \<le> retain"
    using s Cons.prems by (simp add: history_write_day)
  from Cons.IH[OF this] show ?case using s by simp
qed simp

definition sample_calendar :: calendar where
  "sample_calendar = \<lparr>
     cal_format = \<lambda>d. if d < 0 then CHR ''-'' # replicate (nat (- d)) (CHR ''1'') else replicate (nat d) (CHR ''1''),
     cal_parse = \<lambda>s. Some (if s \<noteq> [] \<and> hd s = CHR ''-'' then - int (length s - 1) else int (length s))\<rparr>"

lemma sample_calendar_good: "good_calendar sample_calendar ''log''"
proof -
  have "valid_utf8 (dated_log_path sample_calendar ''log'' d)" for d
    by (rule valid_utf8_ascii) (auto simp: dated_log_path_def sample_calendar_def byte_in_def)
  moreover have "cal_parse sample_calendar (cal_format sample_calendar d) = Some d" for d
    by (cases "nat d") (auto simp: sample_calendar_def)
  ultimately show ?thesis by (simp add: good_calendar_def)
qed

section \<open>Properties\<close>

text \<open>
  C37. What was logged is shown: a log that is written from its first day on, with writes that the
  system takes whole and days that do not go back, is shown by the logs command as the history of
  its days says. This is always the end of everything written, all texts in the order in which
  they were written, and if there were writes on at most one more day than the number of files that
  are retained, it is everything.
\<close>

theorem logs_are_shown_in_order:
  assumes "good_calendar cal name" and "map_of dir name = None" "distinct (map fst dir)" "daily_files cal name dir = []"
    and "rotating_log_new cal no_log_faults name retain start dir = (dir0, Inr self)"
    and "sorted (start # map fst ws)" and "\<forall>w\<in>set ws. valid_utf8 (snd w)"
  shows "\<exists>shown. show_logs cal no_log_faults log_path name (write_all cal ws self dir0) = Inr shown \<and>
    shown = history_shown (foldl (history_write retain) \<lparr>dh_day = start, dh_old = [], dh_current = []\<rparr> ws) \<and>
    suffix shown (concat (map snd ws)) \<and>
    (card (insert start (fst ` set ws)) \<le> Suc retain \<longrightarrow> shown = concat (map snd ws))"
proof -
  let ?h = "\<lparr>dh_day = start, dh_old = [], dh_current = []\<rparr>"
  note fresh = fresh_log[OF assms(2-5)]
  have "log_refines cal name (foldl (history_write (rl_retain_daily_files self)) ?h ws) (write_all cal ws self dir0)"
    by (rule writes_refine[OF assms(1) fresh(1)]) (use assms(6) in \<open>simp_all add: fresh(2)\<close>)
  then have r: "log_refines cal name (foldl (history_write retain) ?h ws) (write_all cal ws self dir0)" by (simp add: fresh(2))
  have "history_valid (foldl (history_write retain) ?h ws)" by (rule writes_valid[OF _ assms(7)]) (simp add: history_valid_def)
  note shown = shown_history[OF r this]
  have "suffix (history_shown (foldl (history_write retain) ?h ws)) (concat (map snd ws))"
    using writes_shown[of retain ?h ws] by (simp add: history_shown_def)
  moreover have "card (insert start (fst ` set ws)) \<le> Suc retain \<longrightarrow>
      history_shown (foldl (history_write retain) ?h ws) = concat (map snd ws)"
    using writes_all_shown[of ?h ws retain] rotations_card[OF assms(6)] by (simp add: history_shown_def)
  ultimately show ?thesis using shown by blast
qed

theorem logs_are_shown_in_order_witness:
  "\<exists>dir0 self. rotating_log_new sample_calendar no_log_faults ''log'' 1 1 [] = (dir0, Inr self) \<and>
     show_logs sample_calendar no_log_faults ''log'' ''log''
       (write_all sample_calendar [(1, ''a''), (2, ''b''), (2, ''c''), (3, ''d'')] self dir0) = Inr ''bcd''"
proof -
  let ?ws = "[(1, ''a''), (2, ''b''), (2, ''c''), (3, ''d'')] :: (int \<times> rstr) list"
  have n: "rotating_log_new sample_calendar no_log_faults ''log'' 1 1 [] =
      ([(''log'', \<lparr>lf_bytes = [], lf_day = 1\<rparr>)], Inr \<lparr>rl_name = ''log'', rl_current_day = 1, rl_retain_daily_files = 1\<rparr>)"
    by code_simp
  have h: "history_shown (foldl (history_write 1) \<lparr>dh_day = 1, dh_old = [], dh_current = []\<rparr> ?ws) = ''bcd''" by code_simp
  have e: "map_of [] ''log'' = (None :: log_file option)" "distinct (map fst ([] :: log_dir))"
    "daily_files sample_calendar ''log'' [] = []" "sorted (1 # map fst ?ws)" "\<forall>w\<in>set ?ws. valid_utf8 (snd w)"
    by (simp_all add: daily_files_def List.map_filter_simps valid_utf8_ascii byte_in_def)
  from logs_are_shown_in_order[OF sample_calendar_good e(1-3) n e(4,5), of "''log''"] h n show ?thesis by auto
qed

end
