(* ===== verification/ServiceControl.thy ===== *)
theory ServiceControl
  imports "HOL-Library.Multiset" Logging Providers Ordered DiscordChannel Auth
begin

text \<open>
  \<open>src/cli.rs\<close>, \<open>src/lib.rs\<close>, \<open>src/run/daemon.rs\<close> and the reports of \<open>src/run.rs\<close>: the commands of
  the program, the start and the stop of the background service, and what the listing commands
  print. The parser of the command line is a library; the state of a process is what each check of
  it finds, in order; what is printed is a text.
\<close>

section \<open>Commands\<close>

datatype system_action = RunAction | StartAction | StopAction | RestartAction
datatype list_action = ListAction
datatype auth_provider = OpenaiCodex
datatype memory_mode = ShortMode | LongMode | BothModes
datatype agent_action = AgentMemory rstr memory_mode nat
datatype auth_action = AuthLogin auth_provider "rstr option" | AuthStatus auth_provider | AuthLogout auth_provider "rstr option"

datatype cli_command =
    SystemCmd system_action
  | LogsCmd bool
  | StatusCmd
  | ProvidersCmd list_action
  | ModelsCmd list_action
  | AuthCmd auth_action
  | AgentCmd agent_action

record cli =
  cli_workspace :: "rstr option"
  cli_max_steps :: "32 word"
  cli_command :: "cli_command option"

fun auth_provider_as_str :: "auth_provider \<Rightarrow> rstr" where
  "auth_provider_as_str OpenaiCodex = ''openai_codex''"

definition parse_limit :: "rstr \<Rightarrow> rstr + nat" where
  "parse_limit raw =
     (case parse_u64 raw of
        None \<Rightarrow> Inl (''invalid integer value '' @ [SQ] @ raw @ [SQ])
      | Some v \<Rightarrow> if v = 0 then Inl ''limit must be greater than 0'' else Inr v)"

text \<open>What \<open>run\<close> calls for a command: one part of the program after the other, until one fails.\<close>

datatype entry_point = RunService | StartService | StopService | ShowLogs bool | ShowStatus | ListProviders | ListModels
  | RunAuthAction auth_action | ShowAgentMemory rstr memory_mode nat

fun entry_points :: "cli_command option \<Rightarrow> entry_point list" where
  "entry_points (Some (SystemCmd RunAction)) = [RunService]"
| "entry_points (Some (SystemCmd StartAction)) = [StartService]"
| "entry_points (Some (SystemCmd StopAction)) = [StopService]"
| "entry_points (Some (SystemCmd RestartAction)) = [StopService, StartService]"
| "entry_points (Some (LogsCmd follow)) = [ShowLogs follow]"
| "entry_points (Some StatusCmd) = [ShowStatus]"
| "entry_points (Some (ProvidersCmd ListAction)) = [ListProviders]"
| "entry_points (Some (ModelsCmd ListAction)) = [ListModels]"
| "entry_points (Some (AuthCmd action)) = [RunAuthAction action]"
| "entry_points (Some (AgentCmd (AgentMemory agent mode limit))) = [ShowAgentMemory agent mode limit]"
| "entry_points None = [RunService]"

fun run_entry_points :: "(entry_point \<Rightarrow> 's \<Rightarrow> 's \<times> ('e + unit)) \<Rightarrow> entry_point list \<Rightarrow> 's \<Rightarrow> 's \<times> ('e + unit)" where
  "run_entry_points call [] s = (s, Inr ())"
| "run_entry_points call (p # ps) s =
     (case call p s of (s, Inl e) \<Rightarrow> (s, Inl e) | (s, Inr _) \<Rightarrow> run_entry_points call ps s)"

section \<open>Tracing\<close>

definition log_to_file :: "cli_command option \<Rightarrow> bool" where
  "log_to_file command = (case command of Some (SystemCmd RunAction) \<Rightarrow> True | None \<Rightarrow> True | _ \<Rightarrow> False)"

definition dependency_targets :: "rstr list" where
  "dependency_targets =
     [''serenity'', ''reqwest'', ''hyper'', ''hyper_util'', ''h2'', ''tokio_tungstenite'', ''tungstenite'', ''rustls'']"

text \<open>The directives of the filter that is used when the environment has none.\<close>

definition filter_directives :: "rstr \<Rightarrow> log_level \<Rightarrow> (rstr \<times> rstr) list" where
  "filter_directives crate_name configured =
     (let dep_level = (if configured = LogTrace then ''trace'' else ''warn'')
      in ([], ''info'') # (crate_name, log_level_as_str configured) # map (\<lambda>target. (target, dep_level)) dependency_targets)"

definition load_configured_log_level :: "'f config_world \<Rightarrow> log_level" where
  "load_configured_log_level w =
     (case resolve_app_paths (cfw_env w) of
        Inl _ \<Rightarrow> LogInfo
      | Inr _ \<Rightarrow>
          (case cfw_config_file w of
             None \<Rightarrow> LogInfo
           | Some (Inl _) \<Rightarrow> LogInfo
           | Some (Inr content) \<Rightarrow>
               (case cfw_parse_config w content of Inl _ \<Rightarrow> LogInfo | Inr g \<Rightarrow> exe_log_level (glob_execution g))))"

section \<open>Listings\<close>

fun entry_insert :: "rstr \<times> 'a \<Rightarrow> (rstr \<times> 'a) list \<Rightarrow> (rstr \<times> 'a) list" where
  "entry_insert x [] = [x]"
| "entry_insert x (y # ys) = (if byte_le (fst x) (fst y) then x # y # ys else y # entry_insert x ys)"

definition entries_by_key :: "(rstr \<times> 'a) list \<Rightarrow> (rstr \<times> 'a) list" where
  "entries_by_key entries = foldr entry_insert entries []"

definition provider_line :: "rstr \<Rightarrow> rstr \<times> provider_entry \<Rightarrow> rstr" where
  "provider_line default1 x =
     fst x @ '' ('' @ provider_kind_as_str (entry_kind (snd x)) @ (if fst x = default1 then '', default)'' else '')'') @ [NL]"

definition list_providers :: "'f global_config \<Rightarrow> rstr" where
  "list_providers g =
     concat (map (provider_line (prov_default (glob_providers g))) (entries_by_key (prov_entries (glob_providers g))))"

definition model_lines :: "rstr list \<Rightarrow> rstr \<Rightarrow> rstr" where
  "model_lines known_models configured_model =
     concat (map (\<lambda>model. ''  '' @ model @ (if model = configured_model then '' (configured)'' else []) @ [NL]) known_models) @
     (if configured_model \<in> set known_models then [] else ''  '' @ configured_model @ '' (configured custom)'' @ [NL])"

fun models_of_entries :: "bool \<Rightarrow> (rstr \<times> provider_entry) list \<Rightarrow> rstr res" where
  "models_of_entries blank [] = Inr []"
| "models_of_entries blank ((key, entry) # entries) =
     rbind (metadata_for_kind new_provider_registry (entry_kind entry)) (\<lambda>metadata.
     rbind (models_of_entries True entries) (\<lambda>rest.
       Inr ((if blank then [NL] else []) @ key @ '' ('' @ provider_kind_as_str (pm_kind metadata) @ ''):'' @ [NL] @
            model_lines (pm_known_models metadata) (entry_model entry) @ rest)))"

definition list_models :: "'f global_config \<Rightarrow> rstr res" where
  "list_models g = models_of_entries False (entries_by_key (prov_entries (glob_providers g)))"

section \<open>Logins\<close>

text \<open>What the actions on logins print; \<open>format1\<close> formats a time.\<close>

definition format_expires_at :: "(int \<Rightarrow> rstr option) \<Rightarrow> int option \<Rightarrow> rstr" where
  "format_expires_at rfc3339 expires_at_unix =
     (case expires_at_unix of
        None \<Rightarrow> ''unknown''
      | Some t \<Rightarrow> (case rfc3339 t of Some datetime \<Rightarrow> datetime | None \<Rightarrow> show_int t))"

definition login_text :: "rstr \<Rightarrow> rstr" where
  "login_text profile_name =
     ''login complete for provider '' @ [SQ] @ auth_provider_as_str OpenaiCodex @ [SQ] @ '' (profile '' @ [SQ] @ profile_name @ [SQ] @ '')'' @ [NL]"

definition profile_line :: "(int option \<Rightarrow> rstr) \<Rightarrow> rstr option \<Rightarrow> auth_profile \<Rightarrow> rstr" where
  "profile_line format1 active profile =
     ''- '' @ ap_profile_name profile @ (if active = Some (ap_id profile) then '' (active)'' else []) @ '' | account_id='' @
     (case ap_account_id profile of Some a \<Rightarrow> a | None \<Rightarrow> ''unknown'') @ '' | expires_at='' @
     format1 (tk_expires_at_unix (ap_token_set profile)) @ [NL]"

definition auth_status_text :: "(int option \<Rightarrow> rstr) \<Rightarrow> rstr option \<times> auth_profile list \<Rightarrow> rstr" where
  "auth_status_text format1 status =
     (case status of (active, profiles) \<Rightarrow>
        if profiles = [] then ''no auth profiles found for provider '' @ [SQ] @ auth_provider_as_str OpenaiCodex @ [SQ] @ [NL]
        else ''provider: '' @ auth_provider_as_str OpenaiCodex @ [NL] @ concat (map (profile_line format1 active) profiles))"

definition logout_text :: "rstr option \<Rightarrow> bool \<Rightarrow> rstr" where
  "logout_text profile removed =
     (if removed then ''logged out provider '' @ [SQ] @ auth_provider_as_str OpenaiCodex @ [SQ] @ '' profile '' @
        (case profile of Some p \<Rightarrow> p | None \<Rightarrow> ''(active)'') @ [NL]
      else ''no matching profile found for provider '' @ [SQ] @ auth_provider_as_str OpenaiCodex @ [SQ] @ [NL])"

section \<open>The background service\<close>

text \<open>What is done to the outside.\<close>

datatype effect = RemovePidFile | WritePidFile rstr | SendTerm nat | SendKill nat | SpawnService

type_synonym outcome = "effect list \<times> (rstr + rstr)"

definition parse_u32 :: "rstr \<Rightarrow> nat option" where
  "parse_u32 s = Option.bind (parse_u64 s) (\<lambda>n. if n < 2 ^ 32 then Some n else None)"

definition read_pid :: "(rstr + rstr) option \<Rightarrow> rstr + nat option" where
  "read_pid pid_file =
     (case pid_file of
        None \<Rightarrow> Inr None
      | Some (Inl e) \<Rightarrow> Inl ''failed to read pid file''
      | Some (Inr raw) \<Rightarrow>
          (case parse_u32 (trim raw) of None \<Rightarrow> Inl ''failed to parse pid file content'' | Some pid \<Rightarrow> Inr (Some pid)))"

text \<open>
  Waiting for the end of a process: \<open>alive i\<close> is what check number \<open>i\<close> finds; the result is with
  the number of the next check.
\<close>

fun poll_exit :: "(nat \<Rightarrow> bool) \<Rightarrow> nat \<Rightarrow> nat \<Rightarrow> bool \<times> nat" where
  "poll_exit alive i 0 = (\<not> alive i, i + 1)"
| "poll_exit alive i (Suc n) = (if \<not> alive i then (True, i + 1) else poll_exit alive (i + 1) n)"

definition wait_for_exit :: "(nat \<Rightarrow> bool) \<Rightarrow> nat \<Rightarrow> nat \<Rightarrow> bool \<times> nat" where
  "wait_for_exit alive i timeout_ms = poll_exit alive i (timeout_ms div 100)"

definition stop_service :: "(rstr + rstr) option \<Rightarrow> (nat \<Rightarrow> bool) \<Rightarrow> rstr option \<Rightarrow> rstr option \<Rightarrow> outcome" where
  "stop_service pid_file alive term_error kill_error =
     (case read_pid pid_file of
        Inl e \<Rightarrow> ([], Inl e)
      | Inr None \<Rightarrow> ([], Inr (''service is not running'' @ [NL]))
      | Inr (Some pid) \<Rightarrow>
          (if \<not> alive 0 then ([RemovePidFile], Inr (''service is not running (removed stale pid file)'' @ [NL]))
           else if term_error \<noteq> None then ([SendTerm pid], Inl ''failed to send stop signal'')
           else (case wait_for_exit alive 1 5000 of
                   (True, _) \<Rightarrow> ([SendTerm pid, RemovePidFile], Inr (''service stopped'' @ [NL]))
                 | (False, i) \<Rightarrow>
                     (if kill_error \<noteq> None then ([SendTerm pid, SendKill pid], Inl ''failed to force stop service'')
                      else (case wait_for_exit alive i 2000 of
                              (True, _) \<Rightarrow> ([SendTerm pid, SendKill pid, RemovePidFile], Inr (''service stopped (forced)'' @ [NL]))
                            | (False, _) \<Rightarrow> ([SendTerm pid, SendKill pid],
                                Inl ''service did not stop after termination attempts''))))))"

record start_world =
  sw_ensure_dirs :: "unit res"
  sw_pid_file :: "(rstr + rstr) option"
  sw_running :: bool
  sw_remove_error :: "rstr option"
  sw_exe_error :: "rstr option"
  sw_spawn :: "rstr + nat"
  sw_write_error :: "rstr option"

definition started_text :: "app_paths \<Rightarrow> nat \<Rightarrow> rstr" where
  "started_text paths pid =
     ''service started (pid '' @ show_nat pid @ '')'' @ [NL] @ ''pid file: '' @ ap_pid_path paths @ [NL] @
     ''log file: '' @ ap_log_path paths @ [NL] @ ''json log file: '' @ json_log_path (ap_log_path paths) @ [NL]"

definition launch :: "start_world \<Rightarrow> app_paths \<Rightarrow> effect list \<Rightarrow> outcome" where
  "launch w paths done_before =
     (if sw_exe_error w \<noteq> None then (done_before, Inl ''failed to resolve current executable path'')
      else (case sw_spawn w of
              Inl e \<Rightarrow> (done_before, Inl ''failed to launch background service'')
            | Inr pid \<Rightarrow>
                (if sw_write_error w \<noteq> None then (done_before @ [SpawnService], Inl ''failed to write pid file'')
                 else (done_before @ [SpawnService, WritePidFile (show_nat pid @ [NL])], Inr (started_text paths pid)))))"

definition start_service :: "app_paths res \<Rightarrow> start_world \<Rightarrow> outcome" where
  "start_service resolved w =
     (case resolved of
        Inl e \<Rightarrow> ([], Inl ''failed to resolve ~/.simpleclaw paths'')
      | Inr paths \<Rightarrow>
          (case sw_ensure_dirs w of
             Inl e \<Rightarrow> ([], Inl ''failed to create runtime state directories'')
           | Inr _ \<Rightarrow>
               (case read_pid (sw_pid_file w) of
                  Inl e \<Rightarrow> ([], Inl e)
                | Inr None \<Rightarrow> launch w paths []
                | Inr (Some pid) \<Rightarrow>
                    (if sw_running w then ([], Inr (''service already running (pid '' @ show_nat pid @ '')'' @ [NL]))
                     else if sw_remove_error w \<noteq> None then ([], Inl ''failed to remove stale pid file'')
                     else launch w paths [RemovePidFile]))))"

definition show_status :: "app_paths \<Rightarrow> (rstr + rstr) option \<Rightarrow> bool \<Rightarrow> nat option \<Rightarrow> rstr + rstr" where
  "show_status paths pid_file is_running log_size =
     (case read_pid pid_file of
        Inl e \<Rightarrow> Inl e
      | Inr pid \<Rightarrow>
          Inr ((case pid of
                  Some p \<Rightarrow> (if is_running then ''status: running'' else ''status: stopped (stale pid file)'') @ [NL] @
                            ''pid: '' @ show_nat p @ [NL]
                | None \<Rightarrow> ''status: stopped'' @ [NL]) @
               ''state dir: '' @ ap_run_dir paths @ [NL] @ ''pid file: '' @ ap_pid_path paths @ [NL] @
               ''log file: '' @ ap_log_path paths @ [NL] @ ''json log file: '' @ json_log_path (ap_log_path paths) @ [NL] @
               (case log_size of Some n \<Rightarrow> ''log size: '' @ show_nat n @ '' bytes'' @ [NL] | None \<Rightarrow> [])))"

section \<open>Lemmas\<close>

lemma poll_exit_exact: "fst (poll_exit alive i n) \<longleftrightarrow> (\<exists>j\<le>n. \<not> alive (i + j))"
proof (induction n arbitrary: i)
  case (Suc n)
  have "(\<exists>j\<le>Suc n. \<not> alive (i + j)) \<longleftrightarrow> \<not> alive i \<or> (\<exists>j\<le>n. \<not> alive (i + 1 + j))"
  proof
    assume "\<exists>j\<le>Suc n. \<not> alive (i + j)"
    then obtain j where "j \<le> Suc n" "\<not> alive (i + j)" by blast
    then show "\<not> alive i \<or> (\<exists>j\<le>n. \<not> alive (i + 1 + j))" by (cases j) auto
  next
    assume "\<not> alive i \<or> (\<exists>j\<le>n. \<not> alive (i + 1 + j))"
    then show "\<exists>j\<le>Suc n. \<not> alive (i + j)"
    proof
      assume "\<not> alive i"
      then show ?thesis by (intro exI[of _ 0]) simp
    next
      assume "\<exists>j\<le>n. \<not> alive (i + 1 + j)"
      then obtain j where "j \<le> n" "\<not> alive (i + 1 + j)" by blast
      then show ?thesis by (intro exI[of _ "Suc j"]) simp
    qed
  qed
  then show ?case using Suc.IH[of "i + 1"] by simp
qed simp

lemma poll_exit_count: "\<not> fst (poll_exit alive i n) \<Longrightarrow> snd (poll_exit alive i n) = i + n + 1"
  by (induction n arbitrary: i) (auto split: if_splits)

text \<open>
  Stopping: when the signals can be sent, the command succeeds, and removes the file with the id of
  the process, exactly if one of its 73 checks does not find the process.
\<close>

lemma stop_service_exact:
  assumes "read_pid pid_file = Inr (Some pid)"
  shows "(\<exists>t. snd (stop_service pid_file alive None None) = Inr t) \<longleftrightarrow> (\<exists>j\<le>72. \<not> alive j)"
    "RemovePidFile \<in> set (fst (stop_service pid_file alive None None)) \<longleftrightarrow> (\<exists>j\<le>72. \<not> alive j)"
proof -
  have first: "fst (poll_exit alive 1 50) \<longleftrightarrow> (\<exists>j\<le>50. \<not> alive (1 + j))" by (rule poll_exit_exact)
  have next1: "\<not> fst (poll_exit alive 1 50) \<Longrightarrow> snd (poll_exit alive 1 50) = 52" using poll_exit_count[of alive 1 50] by simp
  have second: "fst (poll_exit alive 52 20) \<longleftrightarrow> (\<exists>j\<le>20. \<not> alive (52 + j))" by (rule poll_exit_exact)
  have all: "(\<exists>j\<le>72. \<not> alive j) \<longleftrightarrow> \<not> alive 0 \<or> (\<exists>j\<le>50. \<not> alive (1 + j)) \<or> (\<exists>j\<le>20. \<not> alive (52 + j))"
  proof
    assume "\<exists>j\<le>72. \<not> alive j"
    then obtain j where j: "j \<le> 72" "\<not> alive j" by blast
    consider "j = 0" | "1 \<le> j" "j \<le> 51" | "52 \<le> j" by linarith
    then show "\<not> alive 0 \<or> (\<exists>j\<le>50. \<not> alive (1 + j)) \<or> (\<exists>j\<le>20. \<not> alive (52 + j))"
    proof cases
      case 2
      then have "j - 1 \<le> 50" "\<not> alive (1 + (j - 1))" using j by auto
      then show ?thesis by blast
    next
      case 3
      then have "j - 52 \<le> 20" "\<not> alive (52 + (j - 52))" using j by auto
      then show ?thesis by blast
    qed (use j in blast)
  next
    assume "\<not> alive 0 \<or> (\<exists>j\<le>50. \<not> alive (1 + j)) \<or> (\<exists>j\<le>20. \<not> alive (52 + j))"
    then show "\<exists>j\<le>72. \<not> alive j"
    proof (elim disjE exE conjE)
      fix j :: nat assume "j \<le> 50" "\<not> alive (1 + j)"
      then show ?thesis by (intro exI[of _ "1 + j"]) simp
    next
      fix j :: nat assume "j \<le> 20" "\<not> alive (52 + j)"
      then show ?thesis by (intro exI[of _ "52 + j"]) simp
    qed blast
  qed
  obtain a i where p1: "poll_exit alive 1 50 = (a, i)" by fastforce
  obtain b k where p2: "poll_exit alive 52 20 = (b, k)" by fastforce
  show "(\<exists>t. snd (stop_service pid_file alive None None) = Inr t) \<longleftrightarrow> (\<exists>j\<le>72. \<not> alive j)"
    "RemovePidFile \<in> set (fst (stop_service pid_file alive None None)) \<longleftrightarrow> (\<exists>j\<le>72. \<not> alive j)"
    unfolding all using first second next1 p1 p2 assms
    by (cases a; cases b; simp add: stop_service_def wait_for_exit_def)+
qed

lemma digit_no_space: "is_ascii_digit c \<Longrightarrow> \<not> is_ws [c] \<and> \<not> is_cont c"
  by (auto simp: is_ws_def ws_table_def is_ascii_digit_def is_cont_def)

lemma trim_digits_line:
  assumes "s \<noteq> []" "\<forall>c\<in>set s. is_ascii_digit c"
  shows "trim (s @ [NL]) = s"
proof -
  have "\<forall>c\<in>set (s @ [NL]). \<not> is_cont c" using assms(2) digit_no_space by (auto simp: is_cont_def)
  from chars_plain[OF this] have chars: "chars (s @ [NL]) = map (\<lambda>c. [c]) s @ [[NL]]" by simp
  have ws: "is_ws [NL]" by (simp add: is_ws_def ws_table_def)
  obtain a t where s: "s = a # t" using assms(1) by (cases s) auto
  obtain b u where u: "rev s = b # u" using assms(1) by (cases "rev s") auto
  have "b \<in> set s" by (metis list.set_intros(1) set_rev u)
  then have "\<not> is_ws [a]" "\<not> is_ws [b]" using assms(2) digit_no_space s by auto
  then have "dropWhile is_ws (chars (s @ [NL])) = map (\<lambda>c. [c]) s @ [[NL]]"
    "dropWhile is_ws (rev (map (\<lambda>c. [c]) s)) = rev (map (\<lambda>c. [c]) s)"
    unfolding chars by (simp add: s, simp add: rev_map u)
  then have "trim (s @ [NL]) = concat (map (\<lambda>c. [c]) s)" using ws by (simp add: trim_def)
  then show ?thesis by simp
qed

text \<open>The file that starting writes gives stopping the id of the process.\<close>

lemma pid_file_roundtrip:
  assumes "pid < 2 ^ 32"
  shows "read_pid (Some (Inr (show_nat pid @ [NL]))) = Inr (Some pid)"
proof -
  have digits: "\<forall>c\<in>set (show_nat pid). is_ascii_digit c" using show_nat_digits by blast
  have t: "trim (show_nat pid @ [NL]) = show_nat pid" by (rule trim_digits_line[OF show_nat_not_Nil digits])
  have "parse_u64 (show_nat pid) = Some pid"
  proof (cases "show_nat pid")
    case (Cons c cs)
    then have "c \<noteq> CHR ''+''" using digits by (auto simp: is_ascii_digit_def)
    then show ?thesis using Cons digits assms read_show_nat[of pid] by (simp add: parse_u64_def list_all_iff)
  qed simp
  then show ?thesis using assms by (simp add: read_pid_def t parse_u32_def)
qed

lemma entry_insert_perm: "mset (entry_insert x ys) = add_mset x (mset ys)"
  by (induction ys) simp_all

lemma entry_insert_sorted:
  "sorted_wrt (\<lambda>a b. byte_le (fst a) (fst b)) ys \<Longrightarrow> sorted_wrt (\<lambda>a b. byte_le (fst a) (fst b)) (entry_insert x ys)"
proof (induction ys)
  case (Cons y ys)
  have s: "set (entry_insert x ys) = insert x (set ys)" by (metis entry_insert_perm set_mset_add_mset_insert set_mset_mset)
  show ?case
  proof (cases "byte_le (fst x) (fst y)")
    case True
    then show ?thesis using Cons.prems by (auto intro: byte_le_trans)
  next
    case False
    then have "byte_le (fst y) (fst x)" using byte_le_total by blast
    then show ?thesis using Cons False s by auto
  qed
qed simp

lemma entries_sorted: "mset (entries_by_key entries) = mset entries"
    "sorted_wrt (\<lambda>a b. byte_le (fst a) (fst b)) (entries_by_key entries)"
proof -
  show "mset (entries_by_key entries) = mset entries"
    by (induction entries) (simp_all add: entries_by_key_def entry_insert_perm)
  show "sorted_wrt (\<lambda>a b. byte_le (fst a) (fst b)) (entries_by_key entries)"
    by (induction entries) (simp_all add: entries_by_key_def entry_insert_sorted)
qed

text \<open>The listing of the models never fails: every kind of provider is registered.\<close>

lemma models_listed: "\<exists>t. list_models g = Inr t"
proof -
  have "\<exists>t. models_of_entries blank entries = Inr t" for blank entries
    by (induction blank entries rule: models_of_entries.induct) (auto simp: kind_registered)
  then show ?thesis by (simp add: list_models_def)
qed

end
