(* ===== verification/EditCommands.thy ===== *)
theory EditCommands
  imports EditTool SseLines
begin

text \<open>
  The edit commands of \<open>sandbox/common/src/lib.rs\<close>: create, replace, insert, delete and append on one
  file, each with a dry run, and the report on what was done. The file system and the texts of
  failing calls are those of \<open>EditTool\<close>; the report is a JSON value, printed by the JSON library.
\<close>

section \<open>Arguments and reports\<close>

record edit_command =
  ec_command :: rstr
  ec_path :: rstr
  ec_content :: "rstr option"
  ec_old_text :: "rstr option"
  ec_new_text :: "rstr option"
  ec_line :: "nat option"
  ec_replace_all :: bool
  ec_overwrite :: bool
  ec_dry_run :: bool

definition preview_chars :: nat where
  "preview_chars = 1000"

definition truncate_for_preview :: "rstr \<Rightarrow> rstr" where
  "truncate_for_preview text1 =
     (if char_count text1 \<le> preview_chars then text1 else take_chars preview_chars text1 @ ''...<truncated>'')"

definition json_result :: "bool \<Rightarrow> rstr \<Rightarrow> rstr \<Rightarrow> nat \<Rightarrow> rstr option \<Rightarrow> rstr \<Rightarrow> json" where
  "json_result dry_run command p bytes_written before after =
     JObj [(''status'', JStr (if dry_run then ''dry_run'' else ''ok'')), (''command'', JStr command), (''path'', JStr p),
       (''bytes_written'', JInt (int bytes_written)),
       (''diff_preview'', case before of
          None \<Rightarrow> JNull
        | Some prev \<Rightarrow> JObj [(''before'', JStr (truncate_for_preview prev)), (''after'', JStr (truncate_for_preview after))])]"

section \<open>Lines\<close>

text \<open>Where a line starts; \<open>scan_lines\<close> is the loop, with the position and the line it is on.\<close>

fun scan_lines :: "nat \<Rightarrow> rstr \<Rightarrow> nat \<Rightarrow> nat \<Rightarrow> nat option \<times> nat" where
  "scan_lines line [] idx current_line = (None, current_line)"
| "scan_lines line (ch # rest) idx current_line =
     (if ch = NL then
        (if current_line + 1 = line then (Some (idx + 1), current_line + 1)
         else scan_lines line rest (idx + 1) (current_line + 1))
      else scan_lines line rest (idx + 1) current_line)"

definition byte_index_for_line :: "rstr \<Rightarrow> nat \<Rightarrow> nat option" where
  "byte_index_for_line content line =
     (if line = 1 then Some 0
      else (case scan_lines line content 0 1 of
              (Some i, _) \<Rightarrow> Some i
            | (None, current_line) \<Rightarrow> if line = current_line + 1 then Some (length content) else None))"

section \<open>The commands\<close>

text \<open>\<open>None\<close> is the panic of a slice.\<close>

type_synonym edit_result = "file_system \<times> (rstr + json)"

text \<open>What is shared by the commands: the write, unless it is a dry run, and the report.\<close>

definition write_updated ::
  "edit_faults \<Rightarrow> path \<Rightarrow> edit_command \<Rightarrow> rstr \<Rightarrow> rstr option \<Rightarrow> rstr \<Rightarrow> file_system \<Rightarrow> edit_result" where
  "write_updated faults p args command before updated fs =
     (let report = json_result (ec_dry_run args) command (path_text p) (length updated) before updated
      in if ec_dry_run args then (fs, Inr report)
         else (case ef_write faults of
                 Some e \<Rightarrow> (fs, Inl (''failed to write file: '' @ e))
               | None \<Rightarrow> (fs(p \<mapsto> updated), Inr report)))"

definition required :: "rstr \<Rightarrow> 'a option \<Rightarrow> rstr + 'a" where
  "required message v = (case v of None \<Rightarrow> Inl message | Some x \<Rightarrow> Inr x)"

definition read_original :: "edit_faults \<Rightarrow> path \<Rightarrow> file_system \<Rightarrow> rstr + rstr" where
  "read_original faults p fs =
     required (''failed to read '' @ path_text p @ '': '' @ ef_read faults) (read_to_string fs p)"

definition apply_create :: "edit_faults \<Rightarrow> path \<Rightarrow> edit_command \<Rightarrow> file_system \<Rightarrow> edit_result" where
  "apply_create faults p args fs =
     (case ec_content args of
        None \<Rightarrow> (fs, Inl ''edit create requires content'')
      | Some content \<Rightarrow>
          (let exists = fs p \<noteq> None
           in if exists \<and> \<not> ec_overwrite args
              then (fs, Inl (''edit create refused because file exists: '' @ path_text p @ '' (set overwrite=true to replace)''))
              else write_updated faults p args ''create'' (if exists then Some [] else None) content fs))"

definition check_occurrences :: "rstr \<Rightarrow> rstr \<Rightarrow> edit_command \<Rightarrow> path \<Rightarrow> nat \<Rightarrow> rstr option" where
  "check_occurrences command verb args p occurrences =
     (if occurrences = 0 then Some (''edit '' @ command @ '' found no matches for old_text in '' @ path_text p)
      else if occurrences > 1 \<and> \<not> ec_replace_all args
      then Some (''edit '' @ command @ '' found '' @ show_nat occurrences @ '' matches in '' @ path_text p @
                 ''; set replace_all=true to '' @ verb @ '' all'')
      else None)"

definition replaced_text :: "edit_command \<Rightarrow> rstr \<Rightarrow> rstr \<Rightarrow> rstr \<Rightarrow> rstr" where
  "replaced_text args original old_text new_text =
     (if ec_replace_all args then str_replace original old_text new_text else str_replacen1 original old_text new_text)"

definition substitute ::
  "edit_faults \<Rightarrow> path \<Rightarrow> edit_command \<Rightarrow> rstr \<Rightarrow> rstr \<Rightarrow> rstr \<Rightarrow> rstr \<Rightarrow> file_system \<Rightarrow> edit_result" where
  "substitute faults p args command verb old_text new_text fs =
     (case read_original faults p fs of
        Inl e \<Rightarrow> (fs, Inl e)
      | Inr original \<Rightarrow>
          (case check_occurrences command verb args p (match_count old_text original) of
             Some e \<Rightarrow> (fs, Inl e)
           | None \<Rightarrow> write_updated faults p args command (Some original) (replaced_text args original old_text new_text) fs))"

definition apply_replace :: "edit_faults \<Rightarrow> path \<Rightarrow> edit_command \<Rightarrow> file_system \<Rightarrow> edit_result" where
  "apply_replace faults p args fs =
     (case required ''edit replace requires old_text'' (ec_old_text args) of
        Inl e \<Rightarrow> (fs, Inl e)
      | Inr old_text \<Rightarrow>
          (case required ''edit replace requires new_text'' (ec_new_text args) of
             Inl e \<Rightarrow> (fs, Inl e)
           | Inr new_text \<Rightarrow>
               (if old_text = [] then (fs, Inl ''edit replace requires non-empty old_text'')
                else substitute faults p args ''replace'' ''replace'' old_text new_text fs)))"

definition apply_delete :: "edit_faults \<Rightarrow> path \<Rightarrow> edit_command \<Rightarrow> file_system \<Rightarrow> edit_result" where
  "apply_delete faults p args fs =
     (case required ''edit delete requires old_text'' (ec_old_text args) of
        Inl e \<Rightarrow> (fs, Inl e)
      | Inr old_text \<Rightarrow>
          (if old_text = [] then (fs, Inl ''edit delete requires non-empty old_text'')
           else substitute faults p args ''delete'' ''delete'' old_text [] fs))"

definition apply_insert :: "edit_faults \<Rightarrow> path \<Rightarrow> edit_command \<Rightarrow> file_system \<Rightarrow> edit_result option" where
  "apply_insert faults p args fs =
     (case required ''edit insert requires content'' (ec_content args) of
        Inl e \<Rightarrow> Some (fs, Inl e)
      | Inr content \<Rightarrow>
          (case required ''edit insert requires line'' (ec_line args) of
             Inl e \<Rightarrow> Some (fs, Inl e)
           | Inr line \<Rightarrow>
               (if line = 0 then Some (fs, Inl ''edit insert line must be >= 1'')
                else (case read_original faults p fs of
                        Inl e \<Rightarrow> Some (fs, Inl e)
                      | Inr original \<Rightarrow>
                          (case byte_index_for_line original line of
                             None \<Rightarrow> Some (fs, Inl (''edit insert line '' @ show_nat line @ '' out of range for '' @ path_text p))
                           | Some idx \<Rightarrow>
                               (case (slice_to original idx, slice_from original idx) of
                                  (Some before, Some after) \<Rightarrow>
                                    Some (write_updated faults p args ''insert'' (Some original) (before @ content @ after) fs)
                                | _ \<Rightarrow> None))))))"

definition apply_append :: "edit_faults \<Rightarrow> path \<Rightarrow> edit_command \<Rightarrow> file_system \<Rightarrow> edit_result" where
  "apply_append faults p args fs =
     (case required ''edit append requires content'' (ec_content args) of
        Inl e \<Rightarrow> (fs, Inl e)
      | Inr content \<Rightarrow>
          (case read_original faults p fs of
             Inl e \<Rightarrow> (fs, Inl e)
           | Inr original \<Rightarrow> write_updated faults p args ''append'' (Some original) (original @ content) fs))"

definition apply_edit_command_at_path ::
  "edit_faults \<Rightarrow> edit_command \<Rightarrow> path \<Rightarrow> file_system \<Rightarrow> edit_result option" where
  "apply_edit_command_at_path faults args p fs =
     (let command = trim (ec_command args)
      in if command = [] then Some (fs, Inl ''edit requires a non-empty command'')
         else if trim (ec_path args) = [] then Some (fs, Inl ''edit requires a non-empty path'')
         else if command = ''create'' then Some (apply_create faults p args fs)
         else if command = ''replace'' then Some (apply_replace faults p args fs)
         else if command = ''insert'' then apply_insert faults p args fs
         else if command = ''delete'' then Some (apply_delete faults p args fs)
         else if command = ''append'' then Some (apply_append faults p args fs)
         else Some (fs, Inl (''edit command must be one of create|replace|insert|delete|append (got: '' @ command @ '')'')))"

definition apply_edit_command :: "edit_faults \<Rightarrow> edit_command \<Rightarrow> file_system \<Rightarrow> edit_result option" where
  "apply_edit_command faults args fs =
     (case resolve_guest_path (ec_path args) of
        Inl e \<Rightarrow> Some (fs, Inl e)
      | Inr p \<Rightarrow> apply_edit_command_at_path faults args p fs)"

section \<open>Where a line starts\<close>

text \<open>The lines of a text, each with its line feed; the last one may have none.\<close>

fun lines_with_ends :: "rstr \<Rightarrow> rstr list" where
  "lines_with_ends [] = []"
| "lines_with_ends (c # s) =
     (if c = NL then [NL] # lines_with_ends s
      else (case lines_with_ends s of [] \<Rightarrow> [[c]] | l # ls \<Rightarrow> (c # l) # ls))"

lemma concat_lines [simp]: "concat (lines_with_ends s) = s"
  by (induction s rule: lines_with_ends.induct) (auto split: list.splits)

definition line_start :: "rstr \<Rightarrow> nat \<Rightarrow> nat" where
  "line_start s k = length (concat (take k (lines_with_ends s)))"

lemma line_start_0 [simp]: "line_start s 0 = 0"
  by (simp add: line_start_def)

lemma line_start_Cons:
  "line_start (c # s) (Suc k) = (if c = NL then Suc (line_start s k) else if s = [] then 1 else Suc (line_start s (Suc k)))"
proof (cases "c = NL")
  case False
  show ?thesis
  proof (cases s)
    case (Cons d t)
    then have "lines_with_ends s \<noteq> []" using concat_lines[of s] by fastforce
    then show ?thesis using False Cons by (auto simp: line_start_def neq_Nil_conv)
  qed (simp add: line_start_def False)
qed (simp add: line_start_def)

lemma scan_found: "scan_lines line s idx cur = (Some i, n) \<Longrightarrow> cur < line \<Longrightarrow>
    i = idx + line_start s (line - cur) \<and> 0 < i - idx \<and> i - idx \<le> length s \<and> s ! (i - idx - 1) = NL"
proof (induction s arbitrary: idx cur)
  case (Cons c s)
  show ?case
  proof (cases "c = NL \<and> cur + 1 = line")
    case True
    then show ?thesis using Cons.prems by (auto simp: line_start_Cons)
  next
    case False
    let ?cur = "if c = NL then cur + 1 else cur"
    have "scan_lines line s (idx + 1) ?cur = (Some i, n)" "?cur < line" using Cons.prems False by (auto split: if_splits)
    from Cons.IH[OF this] have ih: "i = idx + 1 + line_start s (line - ?cur)" "0 < i - (idx + 1)" "i - (idx + 1) \<le> length s"
      "s ! (i - (idx + 1) - 1) = NL" by auto
    have ne: "s \<noteq> []" using ih(2,3) by auto
    obtain m where m: "line - cur = Suc m" using Cons.prems(2) by (metis Suc_diff_Suc)
    moreover have "line - Suc cur = m" using m by simp
    then have "line_start (c # s) (line - cur) = Suc (line_start s (line - ?cur))"
      using ne m by (auto simp: line_start_Cons)
    moreover have "i - idx - 1 = Suc (i - (idx + 1) - 1)" "i - idx \<le> Suc (length s)" using ih(2,3) by auto
    ultimately show ?thesis using ih(1,4) by auto
  qed
qed simp

lemma scan_missing: "scan_lines line s idx cur = (None, n) \<Longrightarrow> cur < line \<Longrightarrow> cur \<le> n \<and> n < line \<and>
    length (lines_with_ends s) \<le> Suc (n - cur)"
proof (induction s arbitrary: idx cur)
  case (Cons c s)
  let ?cur = "if c = NL then cur + 1 else cur"
  have "scan_lines line s (idx + 1) ?cur = (None, n)" "?cur < line" using Cons.prems by (auto split: if_splits)
  from Cons.IH[OF this] have ih: "?cur \<le> n" "n < line" "length (lines_with_ends s) \<le> Suc (n - ?cur)" by auto
  then show ?case by (auto split: list.splits if_splits)
qed simp

text \<open>The index is where the line starts, or the end of the text, and never inside a character.\<close>

lemma byte_index_line:
  assumes "byte_index_for_line s line = Some i" "1 \<le> line"
  shows "i = line_start s (line - 1)" "i \<le> length s" "i = 0 \<or> i = length s \<or> s ! (i - 1) = NL"
proof -
  have "i = line_start s (line - 1) \<and> i \<le> length s \<and> (i = 0 \<or> i = length s \<or> s ! (i - 1) = NL)"
  proof (cases "line = 1")
    case True
    then show ?thesis using assms by (simp add: byte_index_for_line_def)
  next
    case False
    then have l: "1 < line" using assms(2) by simp
    obtain r n where sc: "scan_lines line s 0 1 = (r, n)" by fastforce
    show ?thesis
    proof (cases r)
      case (Some k)
      then have "k = i" using assms(1) sc False by (simp add: byte_index_for_line_def)
      with scan_found[of line s 0 1 i n] sc Some l show ?thesis by auto
    next
      case None
      then have i: "line = n + 1" "i = length s" using assms(1) sc False by (auto simp: byte_index_for_line_def split: if_splits)
      from scan_missing[of line s 0 1 n] sc None l have "length (lines_with_ends s) \<le> n" by auto
      then show ?thesis using i by (simp add: line_start_def)
    qed
  qed
  then show "i = line_start s (line - 1)" "i \<le> length s" "i = 0 \<or> i = length s \<or> s ! (i - 1) = NL" by auto
qed

section \<open>What the commands do\<close>

lemma read_original_Inr: "read_original faults p fs = Inr c \<Longrightarrow> read_to_string fs p = Some c"
  by (auto simp: read_original_def required_def split: option.splits)

text \<open>The text in front of a line start is a number of whole lines.\<close>

lemma take_line_start: "take (line_start s k) s = concat (take k (lines_with_ends s))"
  "drop (line_start s k) s = concat (drop k (lines_with_ends s))"
proof -
  have "s = concat (take k (lines_with_ends s)) @ concat (drop k (lines_with_ends s))"
    by (metis append_take_drop_id concat_append concat_lines)
  then show "take (line_start s k) s = concat (take k (lines_with_ends s))"
    "drop (line_start s k) s = concat (drop k (lines_with_ends s))"
    by (metis append_eq_conv_conj line_start_def)+
qed

definition inserted_text :: "rstr \<Rightarrow> nat \<Rightarrow> rstr \<Rightarrow> rstr" where
  "inserted_text original line content =
     concat (take (line - 1) (lines_with_ends original)) @ content @ concat (drop (line - 1) (lines_with_ends original))"

text \<open>In valid text no character continues after a line feed, so a line start is never inside a character.\<close>

lemma after_line_feed:
  assumes "valid_utf8 s" "0 < i" "i < length s" "s ! (i - 1) = NL"
  shows "\<not> is_cont (s ! i)"
proof -
  have d: "drop (i - 1) s = NL # drop i s"
    using Cons_nth_drop_Suc[of "i - 1" s] assms by simp
  have "valid_utf8 (drop (i - 1) s)"
    using assms by (intro valid_utf8_drop) (auto simp: is_char_boundary_def is_cont_def)
  then have "valid_utf8 (drop i s)" unfolding d by (subst (asm) valid_utf8.simps) (simp add: byte_in_def)
  moreover have "drop i s = s ! i # drop (Suc i) s" using Cons_nth_drop_Suc assms(3) by metis
  ultimately show ?thesis using valid_utf8_cont by metis
qed

lemma line_start_slices:
  assumes "valid_utf8 s" "byte_index_for_line s line = Some i" "1 \<le> line"
  shows "slice_to s i = Some (concat (take (line - 1) (lines_with_ends s)))"
    "slice_from s i = Some (concat (drop (line - 1) (lines_with_ends s)))"
proof -
  note b = byte_index_line[OF assms(2,3)]
  have "is_char_boundary s i"
    using b(2,3) after_line_feed[OF assms(1), of i] by (auto simp: is_char_boundary_def)
  then show "slice_to s i = Some (concat (take (line - 1) (lines_with_ends s)))"
    "slice_from s i = Some (concat (drop (line - 1) (lines_with_ends s)))"
    using b(1) by (simp_all add: slice_to_def slice_from_def take_line_start)
qed

lemma read_to_string_valid: "read_to_string fs p = Some c \<Longrightarrow> valid_utf8 c"
  by (auto simp: read_to_string_def split: option.splits if_splits)

text \<open>An insert never panics: it puts the content between two lines, or reports why not.\<close>

theorem insert_between_lines:
  "apply_insert faults p args fs =
     (case (ec_content args, ec_line args) of
        (Some content, Some line) \<Rightarrow>
          (if line = 0 then Some (fs, Inl ''edit insert line must be >= 1'')
           else (case read_original faults p fs of
                   Inl e \<Rightarrow> Some (fs, Inl e)
                 | Inr original \<Rightarrow>
                     Some (if byte_index_for_line original line = None
                           then (fs, Inl (''edit insert line '' @ show_nat line @ '' out of range for '' @ path_text p))
                           else write_updated faults p args ''insert'' (Some original) (inserted_text original line content) fs)))
      | (None, _) \<Rightarrow> Some (fs, Inl ''edit insert requires content'')
      | (Some _, None) \<Rightarrow> Some (fs, Inl ''edit insert requires line''))"
proof (cases "ec_content args"; cases "ec_line args"; cases "read_original faults p fs")
  fix content line original
  assume a: "ec_content args = Some content" "ec_line args = Some line" "read_original faults p fs = Inr original"
  have v: "valid_utf8 original" using read_original_Inr[OF a(3)] read_to_string_valid by blast
  show ?thesis
  proof (cases "line = 0 \<or> byte_index_for_line original line = None")
    case False
    then obtain i where i: "byte_index_for_line original line = Some i" "1 \<le> line" by auto
    from line_start_slices[OF v i] a i show ?thesis
      by (simp add: apply_insert_def required_def inserted_text_def)
  qed (auto simp: apply_insert_def required_def a)
qed (simp_all add: apply_insert_def required_def)

text \<open>No edit command panics.\<close>

theorem edit_command_returns: "apply_edit_command faults args fs \<noteq> None"
proof -
  have "apply_insert faults p args fs \<noteq> None" for p
    unfolding insert_between_lines by (simp split: option.splits sum.splits)
  then show ?thesis
    by (simp add: apply_edit_command_def apply_edit_command_at_path_def Let_def split: sum.splits)
qed

text \<open>A dry run changes no file.\<close>

lemma write_updated_dry: "ec_dry_run args \<Longrightarrow> fst (write_updated faults p args command before updated fs) = fs"
  by (simp add: write_updated_def Let_def)

lemma substitute_dry: "ec_dry_run args \<Longrightarrow> fst (substitute faults p args command verb old_text new_text fs) = fs"
  by (simp add: substitute_def write_updated_dry split: sum.splits option.splits)

theorem dry_run_changes_nothing:
  assumes "ec_dry_run args" "apply_edit_command faults args fs = Some (fs', r)"
  shows "fs' = fs"
proof -
  have "fst (apply_create faults p args fs) = fs" "fst (apply_replace faults p args fs) = fs"
    "fst (apply_delete faults p args fs) = fs" "fst (apply_append faults p args fs) = fs" for p
    using assms(1) by (simp_all add: apply_create_def apply_replace_def apply_delete_def apply_append_def Let_def
        write_updated_dry substitute_dry split: sum.splits option.splits)
  moreover have "apply_insert faults p args fs = Some (fs'', r') \<Longrightarrow> fs'' = fs" for p fs'' r'
    using assms(1) unfolding insert_between_lines
    by (auto split: option.splits sum.splits if_splits simp: write_updated_def Let_def)
  ultimately show ?thesis using assms(2)
    by (auto simp: apply_edit_command_def apply_edit_command_at_path_def Let_def split: sum.splits if_splits dest: arg_cong[where f = fst])
qed

text \<open>
  A file changes only at the path of the command, and only when the report is a success: a failed
  command leaves every file as it was.
\<close>

lemma write_updated_result: "write_updated faults p args command before updated fs = (fs', r) \<Longrightarrow>
    fs' = fs \<or> (\<not> ec_dry_run args \<and> fs' = fs(p \<mapsto> updated) \<and> (\<exists>report. r = Inr report))"
  by (auto simp: write_updated_def Let_def split: if_splits option.splits)

lemma apply_at_path_result:
  assumes "apply_edit_command_at_path faults args p fs = Some (fs', r)"
  shows "fs' = fs \<or> (\<exists>updated. fs' = fs(p \<mapsto> updated) \<and> (\<exists>report. r = Inr report))"
proof -
  have w: "write_updated faults p args command before updated fs = (fs', r) \<Longrightarrow> ?thesis" for command before updated
    using write_updated_result by blast
  have sub: "substitute faults p args command verb a b fs = (fs', r) \<Longrightarrow> ?thesis" for command verb a b
    by (auto simp: substitute_def split: sum.splits option.splits dest: w)
  have "apply_create faults p args fs = (fs', r) \<Longrightarrow> ?thesis"
    by (auto simp: apply_create_def Let_def split: option.splits if_splits dest: w)
  moreover have "apply_replace faults p args fs = (fs', r) \<Longrightarrow> ?thesis" "apply_delete faults p args fs = (fs', r) \<Longrightarrow> ?thesis"
    by (auto simp: apply_replace_def apply_delete_def split: sum.splits if_splits dest: sub)
  moreover have "apply_append faults p args fs = (fs', r) \<Longrightarrow> ?thesis"
    by (auto simp: apply_append_def split: sum.splits dest: w)
  moreover have "apply_insert faults p args fs = Some (fs', r) \<Longrightarrow> ?thesis"
    unfolding insert_between_lines by (auto split: option.splits sum.splits if_splits dest: w)
  ultimately show ?thesis using assms
    by (auto simp: apply_edit_command_at_path_def Let_def split: if_splits)
qed

text \<open>
  The line after the end of a text without a final line feed is the end of its last line, so what is
  inserted there is glued to it.
\<close>

lemma insert_glues_last_line:
  "byte_index_for_line ''abc'' 2 = Some 3" "inserted_text ''abc'' 2 ''x'' = ''abcx''"
  by (code_simp, code_simp)

text \<open>The preview of an overwritten file says that it was empty.\<close>

lemma overwrite_preview_loses_original:
  assumes "fs p = Some original" "ec_content args = Some content" "ec_overwrite args" "ec_dry_run args"
  shows "apply_create faults p args fs =
    (fs, Inr (json_result True ''create'' (path_text p) (length content) (Some []) content))"
  using assms by (simp add: apply_create_def write_updated_def Let_def)

end
