(* ===== verification/GatewayCalls.thy ===== *)
theory GatewayCalls
  imports DiscordChannel GatewayService
begin

text \<open>
  The calls the service makes on a channel through the gateway (\<open>src/gateway/mod.rs\<close>, the functions
  from \<open>send_message\<close> to \<open>broadcast_typing\<close>): the gateway finds the channel of the message's source and
  passes the call on. A channel is the value of the trait \<open>Channel\<close> of \<open>src/channels/mod.rs\<close> with the
  answers its calls get now. And the tasks that \<open>start\<close> spawns and \<open>shutdown\<close> aborts.
\<close>

section \<open>Channels\<close>

record channel_handler =
  ch_features :: channel_features
  ch_send_message :: "rstr \<Rightarrow> rstr \<Rightarrow> unit res"
  ch_send_approval_request :: "rstr \<Rightarrow> pending_approval_request \<Rightarrow> rstr option res"
  ch_send_message_with_id :: "rstr \<Rightarrow> rstr \<Rightarrow> rstr option res"
  ch_edit_message :: "rstr \<Rightarrow> rstr \<Rightarrow> rstr \<Rightarrow> unit res"
  ch_delete_message :: "rstr \<Rightarrow> rstr \<Rightarrow> unit res"
  ch_add_reaction :: "rstr \<Rightarrow> rstr \<Rightarrow> rstr \<Rightarrow> unit res"
  ch_broadcast_typing :: "rstr \<Rightarrow> unit res"

text \<open>The Discord channel, and a channel that leaves every default of the trait as it is.\<close>

definition discord_handler :: "discord_client \<Rightarrow> channel_handler" where
  "discord_handler client =
     \<lparr>ch_features = discord_features,
      ch_send_message = discord_send_message client,
      ch_send_approval_request = discord_send_approval_request client,
      ch_send_message_with_id = discord_send_message_with_id client,
      ch_edit_message = discord_edit_message client,
      ch_delete_message = discord_delete_message client,
      ch_add_reaction = (\<lambda>channel_id message_id emoji. snd (discord_add_reaction client channel_id message_id emoji)),
      ch_broadcast_typing = discord_broadcast_typing client\<rparr>"

definition default_handler ::
  "(rstr \<Rightarrow> rstr \<Rightarrow> unit res) \<Rightarrow> (rstr \<Rightarrow> rstr \<Rightarrow> rstr \<Rightarrow> unit res) \<Rightarrow> (rstr \<Rightarrow> unit res) \<Rightarrow> channel_handler" where
  "default_handler send react typing =
     \<lparr>ch_features = default_features,
      ch_send_message = send,
      ch_send_approval_request = default_send_approval_request (default_send_message_with_id send),
      ch_send_message_with_id = default_send_message_with_id send,
      ch_edit_message = (\<lambda>_ _ _. default_edit_message),
      ch_delete_message = (\<lambda>_ _. default_delete_message),
      ch_add_reaction = react,
      ch_broadcast_typing = typing\<rparr>"

type_synonym channel_map = "(gateway_channel_kind \<times> channel_handler) list"

section \<open>The calls\<close>

definition gateway_send_message :: "channel_map \<Rightarrow> inbound_message \<Rightarrow> rstr \<Rightarrow> unit res" where
  "gateway_send_message channels inbound content =
     rbind (channel_for_source channels (im_source_channel inbound)) (\<lambda>channel.
       ch_send_message channel (im_channel_id inbound) content)"

definition gateway_send_approval_request ::
  "channel_map \<Rightarrow> inbound_message \<Rightarrow> pending_approval_request \<Rightarrow> rstr option res" where
  "gateway_send_approval_request channels inbound request =
     rbind (channel_for_source channels (im_source_channel inbound)) (\<lambda>channel.
       ch_send_approval_request channel (im_channel_id inbound) request)"

definition gateway_send_message_with_id :: "channel_map \<Rightarrow> inbound_message \<Rightarrow> rstr \<Rightarrow> rstr option res" where
  "gateway_send_message_with_id channels inbound content =
     rbind (channel_for_source channels (im_source_channel inbound)) (\<lambda>channel.
       ch_send_message_with_id channel (im_channel_id inbound) content)"

definition gateway_supports_message_editing :: "channel_map \<Rightarrow> inbound_message \<Rightarrow> bool res" where
  "gateway_supports_message_editing channels inbound =
     rbind (channel_for_source channels (im_source_channel inbound)) (\<lambda>channel.
       Inr (cf_editing (ch_features channel)))"

definition gateway_message_char_limit :: "channel_map \<Rightarrow> inbound_message \<Rightarrow> nat option res" where
  "gateway_message_char_limit channels inbound =
     rbind (channel_for_source channels (im_source_channel inbound)) (\<lambda>channel.
       Inr (cf_char_limit (ch_features channel)))"

definition gateway_edit_message :: "channel_map \<Rightarrow> inbound_message \<Rightarrow> rstr \<Rightarrow> rstr \<Rightarrow> unit res" where
  "gateway_edit_message channels inbound message_id content =
     rbind (channel_for_source channels (im_source_channel inbound)) (\<lambda>channel.
       ch_edit_message channel (im_channel_id inbound) message_id content)"

definition gateway_add_reaction ::
  "channel_map \<Rightarrow> gateway_channel_kind \<Rightarrow> rstr \<Rightarrow> rstr \<Rightarrow> rstr \<Rightarrow> unit res" where
  "gateway_add_reaction channels source_channel channel_id message_id emoji =
     rbind (channel_for_source channels source_channel) (\<lambda>channel.
       ch_add_reaction channel channel_id message_id emoji)"

definition gateway_delete_message :: "channel_map \<Rightarrow> inbound_message \<Rightarrow> rstr \<Rightarrow> unit res" where
  "gateway_delete_message channels inbound message_id =
     rbind (channel_for_source channels (im_source_channel inbound)) (\<lambda>channel.
       ch_delete_message channel (im_channel_id inbound) message_id)"

definition gateway_broadcast_typing :: "channel_map \<Rightarrow> inbound_message \<Rightarrow> unit res" where
  "gateway_broadcast_typing channels inbound =
     rbind (channel_for_source channels (im_source_channel inbound)) (\<lambda>channel.
       ch_broadcast_typing channel (im_channel_id inbound))"

section \<open>The listeners\<close>

datatype listener_task = MessageListener gateway_channel_kind | ApprovalListener gateway_channel_kind
  | CommandListener gateway_channel_kind

definition start_listeners :: "channel_map \<Rightarrow> listener_task list" where
  "start_listeners channels =
     concat (map (\<lambda>(kind, channel).
       MessageListener kind #
       (if cf_approval_resolution (ch_features channel) then [ApprovalListener kind] else []) @
       (if cf_commands (ch_features channel) then [CommandListener kind] else [])) channels)"

text \<open>The tasks that are still there after the tasks of the listeners are aborted, or dropped.\<close>

definition shutdown_listeners :: "listener_task list \<Rightarrow> listener_task list \<Rightarrow> listener_task list" where
  "shutdown_listeners tasks listening = filter (\<lambda>t. t \<notin> set tasks) listening"

section \<open>Lemmas\<close>

lemmas gateway_call_defs =
  gateway_send_message_def gateway_send_approval_request_def gateway_send_message_with_id_def
  gateway_supports_message_editing_def gateway_message_char_limit_def gateway_edit_message_def
  gateway_add_reaction_def gateway_delete_message_def gateway_broadcast_typing_def

text \<open>The only error that is the gateway's own: no channel for the source of the message.\<close>

lemma call_without_channel:
  assumes "map_of channels (im_source_channel inbound) = None"
  defines "e \<equiv> ConfigError (''missing channel handler for source '' @ channel_kind_as_str (im_source_channel inbound))"
  shows "gateway_send_message channels inbound content = Inl e"
    "gateway_send_approval_request channels inbound request = Inl e"
    "gateway_send_message_with_id channels inbound content = Inl e"
    "gateway_supports_message_editing channels inbound = Inl e"
    "gateway_message_char_limit channels inbound = Inl e"
    "gateway_edit_message channels inbound message_id content = Inl e"
    "gateway_add_reaction channels (im_source_channel inbound) channel_id message_id emoji = Inl e"
    "gateway_delete_message channels inbound message_id = Inl e"
    "gateway_broadcast_typing channels inbound = Inl e"
  using assms by (simp_all add: gateway_call_defs channel_for_source_def rbind_def)

text \<open>
  A channel that does not announce the editing of messages can only send: what the streaming display
  would do with it fails, which is why the handler asks first.
\<close>

lemma default_channel_only_sends:
  assumes "map_of channels (im_source_channel inbound) = Some (default_handler send react typing)"
  shows "gateway_supports_message_editing channels inbound = Inr False"
    "gateway_message_char_limit channels inbound = Inr None"
    "gateway_edit_message channels inbound message_id content = default_edit_message"
    "gateway_delete_message channels inbound message_id = default_delete_message"
    "gateway_send_message channels inbound content = send (im_channel_id inbound) content"
    "gateway_send_message_with_id channels inbound content =
       rbind (send (im_channel_id inbound) content) (\<lambda>_. Inr None)"
    "gateway_send_approval_request channels inbound request =
       rbind (send (im_channel_id inbound) (format_approval_request request)) (\<lambda>_. Inr None)"
  using assms by (simp_all add: gateway_call_defs channel_for_source_def rbind_def default_handler_def default_features_def
      default_send_approval_request_def default_send_message_with_id_def)

lemma discord_channel_streams:
  assumes "map_of channels (im_source_channel inbound) = Some (discord_handler client)"
  shows "gateway_supports_message_editing channels inbound = Inr True"
    "gateway_message_char_limit channels inbound = Inr (Some discord_limit)"
  using assms by (simp_all add: gateway_call_defs channel_for_source_def rbind_def discord_handler_def discord_features_def
      discord_limit_def)

text \<open>A message that can be edited afterwards always comes with an id on Discord, never by default.\<close>

lemma message_id_iff_editable:
  "ch_send_message_with_id (discord_handler client) channel_id content = Inr i \<Longrightarrow> i \<noteq> None"
  "ch_send_message_with_id (default_handler send react typing) channel_id content = Inr i \<Longrightarrow> i = None"
  by (auto simp: discord_handler_def default_handler_def discord_send_message_with_id_def default_send_message_with_id_def
      rbind_def discord_error_def split: sum.splits)

text \<open>Every channel is listened to, and for approvals and commands exactly when it supports them.\<close>

lemma listeners_of_channels:
  "MessageListener kind \<in> set (start_listeners channels) \<longleftrightarrow> kind \<in> fst ` set channels"
  "ApprovalListener kind \<in> set (start_listeners channels) \<longleftrightarrow>
     (\<exists>channel. (kind, channel) \<in> set channels \<and> cf_approval_resolution (ch_features channel))"
  "CommandListener kind \<in> set (start_listeners channels) \<longleftrightarrow>
     (\<exists>channel. (kind, channel) \<in> set channels \<and> cf_commands (ch_features channel))"
  by (force simp: start_listeners_def split: prod.splits if_splits)+

text \<open>The vector of the tasks never grows past the capacity it is created with.\<close>

lemma listeners_capacity: "length (start_listeners channels) \<le> length channels * 3"
  by (induction channels) (auto simp: start_listeners_def)

lemma listeners_distinct: "distinct (map fst channels) \<Longrightarrow> distinct (start_listeners channels)"
proof (induction channels)
  case (Cons c channels)
  obtain kind channel where c: "c = (kind, channel)" by fastforce
  have "kind \<notin> fst ` set channels" using Cons.prems c by simp
  then have "MessageListener kind \<notin> set (start_listeners channels)" "ApprovalListener kind \<notin> set (start_listeners channels)"
    "CommandListener kind \<notin> set (start_listeners channels)"
    unfolding listeners_of_channels by force+
  then show ?case using Cons c by (auto simp: start_listeners_def)
qed (simp add: start_listeners_def)

lemma shutdown_stops_listening:
  "shutdown_listeners tasks tasks = []"
  "t \<notin> set tasks \<Longrightarrow> t \<in> set (shutdown_listeners tasks listening) \<longleftrightarrow> t \<in> set listening"
  by (auto simp: shutdown_listeners_def)

end
