(* ===== verification/ServiceLoop.thy ===== *)
theory ServiceLoop
  imports MessageHandling
begin

text \<open>
  The loop of \<open>run_service\<close> in \<open>src/run.rs\<close>, composed with the coordinator of \<open>Coordinator\<close>: the
  listeners of the gateway and the other tasks put messages into a bounded queue, the loop takes one
  at a time, hands it to the coordinator under its session key, and reacts to it once it is queued
  there. A state holds the coordinator, the queue and where the loop is; the steps of the loop, of
  the senders and of the worker tasks interleave in any order. \<open>sv_sent\<close> records what was queued
  and influences nothing.
\<close>

section \<open>The coordinator as long as every worker is alive\<close>

text \<open>A call is refused only after both its attempts met a worker that is gone.\<close>

definition refused :: "'m coordinator \<Rightarrow> bool" where
  "refused s \<longleftrightarrow> (\<exists>c\<in>set (co_calls s). dc_state c = Answered False)"

definition some_gone :: "'m coordinator \<Rightarrow> bool" where
  "some_gone s \<longleftrightarrow> (\<exists>p<length (co_tasks s). wk_phase (co_tasks s ! p) = Gone)"

lemma some_gone_advance: "coord_step ev s = Some s' \<Longrightarrow> some_gone s \<Longrightarrow> some_gone s'"
  using coord_step_advance[of ev s s'] unfolding some_gone_def tasks_advance_def
  by (metis order_less_le_trans)

lemma refused_update:
  "refused s' \<Longrightarrow> co_calls s' = (co_calls s)[c := (co_calls s ! c)\<lparr>dc_state := st\<rparr>] \<Longrightarrow> st \<noteq> Answered False \<Longrightarrow> refused s"
  unfolding refused_def
proof (elim bexE)
  fix d
  assume c: "co_calls s' = (co_calls s)[c := (co_calls s ! c)\<lparr>dc_state := st\<rparr>]" "st \<noteq> Answered False"
    and d: "d \<in> set (co_calls s')" "dc_state d = Answered False"
  have "d = (co_calls s ! c)\<lparr>dc_state := st\<rparr> \<or> d \<in> set (co_calls s)"
    using d(1) c(1) set_update_subset_insert by fastforce
  then show "\<exists>c\<in>set (co_calls s). dc_state c = Answered False" using c(2) d(2) by auto
qed

lemma refused_needs_gone: "coord_reach b s \<Longrightarrow> refused s \<Longrightarrow> some_gone s"
proof (induction rule: coord_reach.induct)
  case initial
  then show ?case by (simp add: refused_def coordinator_new_def)
next
  case (step s ev s')
  have inv: "coord_inv s" by (rule coord_inv_reach[OF step.hyps(1)])
  have "some_gone s \<or> refused s"
    using step.hyps(2)
  proof (cases rule: coord_step_cases)
    case (cleanup c a i)
    have "call_ok (co_tasks s) (co_calls s ! c)" using inv cleanup(2) by (simp add: coord_inv_def)
    then show ?thesis using cleanup(3) by (auto simp: call_ok_def some_gone_def)
  next
    case (found c a i p)
    then show ?thesis using refused_update[OF step.prems, of s c "Holding a i p"] by simp
  next
    case (spawn c a)
    then show ?thesis using refused_update[OF step.prems, of s c "Holding a (co_next_id s) (length (co_tasks s))"] by simp
  next
    case (sent c a i p)
    then show ?thesis using refused_update[OF step.prems, of s c "Answered True"] by simp
  next
    case (unsent c a i p)
    then show ?thesis using refused_update[OF step.prems, of s c "Failing a i"] by simp
  qed (use step.prems in \<open>auto simp: refused_def\<close>)
  then have "some_gone s" using step.IH by blast
  then show ?case by (rule some_gone_advance[OF step.hyps(2)])
qed

definition undisturbed :: "'m coordinator \<Rightarrow> bool" where
  "undisturbed s \<longleftrightarrow> list_all running (co_tasks s)"

lemma undisturbed_none_gone: "undisturbed s \<Longrightarrow> \<not> some_gone s"
  by (auto simp: undisturbed_def some_gone_def list_all_length running_def)

text \<open>The worker of a key holds all that the tasks hold for the key.\<close>

lemma held_of_key: "length (filter (\<lambda>x. fst x = k) (map (Pair (wk_key w)) (todo w))) = (if wk_key w = k then length (todo w) else 0)"
  by (simp add: filter_map o_def)

lemma size_held: "size (filter_mset (\<lambda>x. fst x = k) (held w)) = (if wk_key w = k then length (todo w) else 0)"
  by (simp add: held_def filter_mset_image_mset)

lemma held_is_backlog:
  assumes ser: "serial s" and inv: "coord_inv s" and un: "undisturbed s"
  shows "size (filter_mset (\<lambda>x. fst x = k) (sum_list (map held (co_tasks s)))) = length (backlog k s)"
proof -
  let ?f = "\<lambda>w. if wk_key w = k then length (todo w) else 0"
  have runs: "p < length (co_tasks s) \<Longrightarrow> running (co_tasks s ! p)" for p
    using un by (simp add: undisturbed_def list_all_length)
  have "size (filter_mset (\<lambda>x. fst x = k) (sum_list (map held ws))) = sum_list (map ?f ws)" for ws :: "'a worker list"
    by (induction ws) (simp_all add: size_held)
  moreover have "sum_list (map ?f (co_tasks s)) = (\<Sum>p<length (co_tasks s). ?f (co_tasks s ! p))"
    by (simp add: sum_list_sum_nth atLeast0LessThan)
  moreover have "(\<Sum>p<length (co_tasks s). ?f (co_tasks s ! p)) = length (backlog k s)"
  proof (cases "co_workers s k")
    case None
    have "wk_key (co_tasks s ! p) \<noteq> k" if "p < length (co_tasks s)" for p
      using ser runs[OF that] that None by (auto simp: serial_def)
    then show ?thesis using None by (simp add: backlog_def)
  next
    case (Some entry)
    obtain i q where e: "entry = (i, q)" by fastforce
    have q: "q < length (co_tasks s)" "wk_key (co_tasks s ! q) = k" using inv Some e by (auto simp: coord_inv_def)
    have one: "p = q" if "p < length (co_tasks s)" "wk_key (co_tasks s ! p) = k" for p
      using ser runs[OF that(1)] that Some e by (auto simp: serial_def)
    have "?f (co_tasks s ! p) = (if p = q then length (todo (co_tasks s ! q)) else 0)" if "p < length (co_tasks s)" for p
    proof (cases "p = q")
      case False
      then show ?thesis using one[OF that] by auto
    qed (simp add: q(2))
    then have "(\<Sum>p<length (co_tasks s). ?f (co_tasks s ! p)) =
        (\<Sum>p<length (co_tasks s). if p = q then length (todo (co_tasks s ! q)) else 0)"
      by (intro sum.cong) simp_all
    also have "\<dots> = length (todo (co_tasks s ! q))" using q(1) by (simp add: sum.delta)
    finally show ?thesis using Some e runs[OF q(1)] by (simp add: backlog_def)
  qed
  ultimately show ?thesis by simp
qed

lemma length_of_key: "length (of_key k log) = size (filter_mset (\<lambda>x. fst x = k) (mset log))"
  by (simp only: of_key_def length_map mset_filter[symmetric] size_mset)

text \<open>As long as no worker left or died, what was accepted for a key was handled or is in its backlog, in order.\<close>

lemma undisturbed_exact:
  assumes reach: "coord_reach False s" and few: "length (co_tasks s) < 2 ^ 64" and un: "undisturbed s"
  shows "of_key k (co_handled s) @ backlog k s = of_key k (co_accepted s)"
proof -
  have ord: "subseq (of_key k (co_handled s) @ backlog k s) (of_key k (co_accepted s))"
    using ordered_reach[OF reach few] by (simp add: ordered_def)
  have "length (of_key k (co_accepted s)) = length (of_key k (co_handled s)) + length (backlog k s)"
    using conserved_reach[OF reach] held_is_backlog[OF serial_reach[OF reach few] coord_inv_reach[OF reach] un]
    by (simp add: conserved_def length_of_key)
  then show ?thesis using subseq_same_length[OF ord] by simp
qed

section \<open>The loop\<close>

datatype loop_turn = Receiving | Dispatching inbound_message

record service =
  sv_coord :: "inbound_message coordinator"
  sv_queue :: "inbound_message list"
  sv_senders_left :: bool
  sv_turn :: loop_turn
  sv_acks :: "(gateway_channel_kind \<times> rstr \<times> rstr \<times> rstr) list"
  sv_sent :: "inbound_message list"

definition queue_capacity :: nat where
  "queue_capacity = 1024"

definition service_new :: service where
  "service_new = \<lparr>sv_coord = coordinator_new, sv_queue = [], sv_senders_left = True, sv_turn = Receiving,
     sv_acks = [], sv_sent = []\<rparr>"

datatype service_event =
    QueueMessage inbound_message
  | CloseQueue
  | TakeMessage
  | FindClosed
  | CallStep "inbound_message coord_event"
  | Acknowledge
  | WorkerStep "inbound_message coord_event"

text \<open>The steps of the loop's own call, the last one, and those of other tasks.\<close>

definition is_call_step :: "nat \<Rightarrow> 'm coord_event \<Rightarrow> bool" where
  "is_call_step c ev = (case ev of Lookup d \<Rightarrow> d = c | Send d \<Rightarrow> d = c | Cleanup d \<Rightarrow> d = c | _ \<Rightarrow> False)"

definition is_worker_step :: "'m coord_event \<Rightarrow> bool" where
  "is_worker_step ev =
     (case ev of Dispatch k m \<Rightarrow> False | Lookup d \<Rightarrow> False | Send d \<Rightarrow> False | Cleanup d \<Rightarrow> False | _ \<Rightarrow> True)"

text \<open>
  A send to the queue waits while it is full. When all senders are gone the loop logs and tries again,
  which leads back to the same state; in \<open>run_service\<close> this does not happen, because the state of the
  service holds a sender itself.
\<close>

definition service_step :: "service_event \<Rightarrow> service \<Rightarrow> service option" where
  "service_step ev s =
     (case ev of
        QueueMessage m \<Rightarrow>
          (if sv_senders_left s \<and> length (sv_queue s) < queue_capacity
           then Some (s\<lparr>sv_queue := sv_queue s @ [m], sv_sent := sv_sent s @ [m]\<rparr>) else None)
      | CloseQueue \<Rightarrow> (if sv_senders_left s then Some (s\<lparr>sv_senders_left := False\<rparr>) else None)
      | TakeMessage \<Rightarrow>
          (case (sv_turn s, sv_queue s) of
             (Receiving, m # remaining) \<Rightarrow>
               map_option (\<lambda>c. s\<lparr>sv_coord := c, sv_queue := remaining, sv_turn := Dispatching m\<rparr>)
                 (coord_step (Dispatch (im_session_key m) m) (sv_coord s))
           | _ \<Rightarrow> None)
      | FindClosed \<Rightarrow> (if sv_turn s = Receiving \<and> sv_queue s = [] \<and> \<not> sv_senders_left s then Some s else None)
      | CallStep cev \<Rightarrow>
          (case sv_turn s of
             Dispatching m \<Rightarrow>
               (if is_call_step (length (co_calls (sv_coord s)) - 1) cev
                then map_option (\<lambda>c. s\<lparr>sv_coord := c\<rparr>) (coord_step cev (sv_coord s)) else None)
           | Receiving \<Rightarrow> None)
      | Acknowledge \<Rightarrow>
          (case sv_turn s of
             Dispatching m \<Rightarrow>
               (case dc_state (last (co_calls (sv_coord s))) of
                  Answered queued \<Rightarrow>
                    Some (s\<lparr>sv_turn := Receiving,
                      sv_acks := sv_acks s @ (case dispatch_inbound_with_ack queued m of None \<Rightarrow> [] | Some r \<Rightarrow> [r])\<rparr>)
                | _ \<Rightarrow> None)
           | Receiving \<Rightarrow> None)
      | WorkerStep wev \<Rightarrow>
          (if is_worker_step wev then map_option (\<lambda>c. s\<lparr>sv_coord := c\<rparr>) (coord_step wev (sv_coord s)) else None))"

inductive service_reach :: "bool \<Rightarrow> service \<Rightarrow> bool" for removals :: bool where
  initial: "service_reach removals service_new"
| step: "service_reach removals s \<Longrightarrow> service_step ev s = Some s' \<Longrightarrow>
         (case ev of WorkerStep (Remove k) \<Rightarrow> removals | _ \<Rightarrow> True) \<Longrightarrow> service_reach removals s'"

lemma service_step_cases:
  assumes "service_step ev s = Some s'"
  obtains
    (queued) m where "ev = QueueMessage m" "s' = s\<lparr>sv_queue := sv_queue s @ [m], sv_sent := sv_sent s @ [m]\<rparr>"
      "length (sv_queue s) < queue_capacity" "sv_senders_left s"
  | (closed) "ev = CloseQueue" "s' = s\<lparr>sv_senders_left := False\<rparr>"
  | (taken) m remaining c where "ev = TakeMessage" "sv_turn s = Receiving" "sv_queue s = m # remaining"
      "coord_step (Dispatch (im_session_key m) m) (sv_coord s) = Some c"
      "s' = s\<lparr>sv_coord := c, sv_queue := remaining, sv_turn := Dispatching m\<rparr>"
  | (idle) "ev = FindClosed" "s' = s"
  | (call) m cev c where "ev = CallStep cev" "sv_turn s = Dispatching m"
      "is_call_step (length (co_calls (sv_coord s)) - 1) cev" "coord_step cev (sv_coord s) = Some c" "s' = s\<lparr>sv_coord := c\<rparr>"
  | (ack) m queued where "ev = Acknowledge" "sv_turn s = Dispatching m"
      "dc_state (last (co_calls (sv_coord s))) = Answered queued"
      "s' = s\<lparr>sv_turn := Receiving,
         sv_acks := sv_acks s @ (case dispatch_inbound_with_ack queued m of None \<Rightarrow> [] | Some r \<Rightarrow> [r])\<rparr>"
  | (work) wev c where "ev = WorkerStep wev" "is_worker_step wev" "coord_step wev (sv_coord s) = Some c" "s' = s\<lparr>sv_coord := c\<rparr>"
proof (cases ev)
  case TakeMessage
  then show ?thesis using assms taken by (auto simp: service_step_def split: loop_turn.splits list.splits)
next
  case Acknowledge
  then show ?thesis using assms ack by (auto simp: service_step_def split: loop_turn.splits call_state.splits)
next
  case (CallStep cev)
  then show ?thesis using assms call by (auto simp: service_step_def split: loop_turn.splits if_splits)
qed (use assms queued closed idle work in \<open>auto simp: service_step_def split: if_splits\<close>)

lemma service_coord_reach: "service_reach b s \<Longrightarrow> coord_reach b (sv_coord s)"
proof (induction rule: service_reach.induct)
  case initial
  then show ?case by (simp add: service_new_def coord_reach.initial)
next
  case (step s ev s')
  from step.hyps(2) show ?case
  proof (cases rule: service_step_cases)
    case (taken m remaining c)
    then show ?thesis using coord_reach.step[OF step.IH taken(4)] by simp
  next
    case (call m cev c)
    then show ?thesis using coord_reach.step[OF step.IH call(4)] by (cases cev) (simp_all add: is_call_step_def)
  next
    case (work wev c)
    then show ?thesis using coord_reach.step[OF step.IH work(3)] step.hyps(3) by (cases wev) simp_all
  qed (use step.IH in simp_all)
qed

section \<open>What the loop keeps\<close>

text \<open>What a step of another task leaves as it is, and what a step of the last call changes.\<close>

lemma worker_step_calls:
  "coord_step ev t = Some t' \<Longrightarrow> is_worker_step ev \<Longrightarrow> co_calls t' = co_calls t \<and> co_accepted t' = co_accepted t"
  by (erule coord_step_cases) (auto simp: is_worker_step_def)

lemma last_call_step:
  assumes inv: "coord_inv t" and step: "coord_step ev t = Some t'" and own: "is_call_step (length before) ev"
    and calls: "co_calls t = before @ [cur]"
  obtains st where "co_calls t' = before @ [cur\<lparr>dc_state := st\<rparr>]" "\<And>b. dc_state cur \<noteq> Answered b"
    "co_accepted t' = co_accepted t @ (if st = Answered True then [(dc_key cur, dc_message cur)] else [])"
  using step
proof (cases rule: coord_step_cases)
  case (found c a i p)
  then show ?thesis using that[of "Holding a i p"] own calls by (simp add: is_call_step_def)
next
  case (spawn c a)
  then show ?thesis using that[of "Holding a (co_next_id t) (length (co_tasks t))"] own calls by (simp add: is_call_step_def)
next
  case (sent c a i p)
  have "c = length before" using sent(1) own by (simp add: is_call_step_def)
  moreover from this have "call_ok (co_tasks t) cur" using inv calls by (simp add: coord_inv_def)
  ultimately show ?thesis using that[of "Answered True"] sent calls by (simp add: call_ok_def)
next
  case (unsent c a i p)
  then show ?thesis using that[of "Failing a i"] own calls by (simp add: is_call_step_def)
next
  case (cleanup c a i)
  then show ?thesis using that[of "if a = 1 then Answered False else Asking (a + 1)"] own calls
    by (simp add: is_call_step_def)
qed (use own in \<open>auto simp: is_call_step_def\<close>)

text \<open>
  Calls follow one another in the order of the queue: all but the last are answered, and what the
  coordinator has accepted are the messages of the calls it answered with success.
\<close>

definition answered :: "'m dispatch_call \<Rightarrow> bool" where
  "answered c = (case dc_state c of Answered b \<Rightarrow> True | _ \<Rightarrow> False)"

definition accepted_calls :: "'m dispatch_call list \<Rightarrow> (rstr \<times> 'm) list" where
  "accepted_calls calls = map (\<lambda>c. (dc_key c, dc_message c)) (filter (\<lambda>c. dc_state c = Answered True) calls)"

definition reactions_of :: "inbound_message dispatch_call list \<Rightarrow> (gateway_channel_kind \<times> rstr \<times> rstr \<times> rstr) list" where
  "reactions_of calls = List.map_filter (\<lambda>c. dispatch_inbound_with_ack (dc_state c = Answered True) (dc_message c)) calls"

definition finished_calls :: "service \<Rightarrow> inbound_message dispatch_call list" where
  "finished_calls s = (case sv_turn s of Receiving \<Rightarrow> co_calls (sv_coord s) | Dispatching m \<Rightarrow> butlast (co_calls (sv_coord s)))"

definition loop_inv :: "service \<Rightarrow> bool" where
  "loop_inv s \<longleftrightarrow>
     sv_sent s = map dc_message (co_calls (sv_coord s)) @ sv_queue s \<and>
     list_all (\<lambda>c. dc_key c = im_session_key (dc_message c)) (co_calls (sv_coord s)) \<and>
     co_accepted (sv_coord s) = accepted_calls (co_calls (sv_coord s)) \<and>
     list_all answered (finished_calls s) \<and>
     (\<forall>m. sv_turn s = Dispatching m \<longrightarrow> (\<exists>before cur. co_calls (sv_coord s) = before @ [cur] \<and> dc_message cur = m)) \<and>
     sv_acks s = reactions_of (finished_calls s)"

lemma accepted_calls_append [simp]: "accepted_calls (a @ b) = accepted_calls a @ accepted_calls b"
  by (simp add: accepted_calls_def)

lemma accepted_calls_one [simp]: "accepted_calls [c] = (if dc_state c = Answered True then [(dc_key c, dc_message c)] else [])"
  by (simp add: accepted_calls_def)

lemma reactions_of_append: "reactions_of (calls @ [c]) =
    reactions_of calls @ (case dispatch_inbound_with_ack (dc_state c = Answered True) (dc_message c) of None \<Rightarrow> [] | Some r \<Rightarrow> [r])"
  by (simp add: reactions_of_def map_filter_def split: option.splits)

lemma loop_inv_step:
  assumes inv: "coord_inv (sv_coord s)" and li: "loop_inv s" and step: "service_step ev s = Some s'"
  shows "loop_inv s'"
  using step
proof (cases rule: service_step_cases)
  case (taken m remaining c)
  have "co_calls c = co_calls (sv_coord s) @ [\<lparr>dc_key = im_session_key m, dc_message = m, dc_state = Asking 0\<rparr>]"
    "co_accepted c = co_accepted (sv_coord s)"
    using taken(4) by (auto elim: coord_step_cases)
  then show ?thesis using taken li by (simp add: loop_inv_def finished_calls_def)
next
  case (call m cev c)
  obtain before cur where b: "co_calls (sv_coord s) = before @ [cur]" "dc_message cur = m"
    using li call(2) by (auto simp: loop_inv_def)
  obtain st where "co_calls c = before @ [cur\<lparr>dc_state := st\<rparr>]" "\<And>b. dc_state cur \<noteq> Answered b"
    "co_accepted c = co_accepted (sv_coord s) @ (if st = Answered True then [(dc_key cur, dc_message cur)] else [])"
    using last_call_step[OF inv call(4) _ b(1)] call(3) b(1) by auto
  then show ?thesis using call li b by (simp add: loop_inv_def finished_calls_def)
next
  case (ack m queued)
  obtain before cur where b: "co_calls (sv_coord s) = before @ [cur]" "dc_message cur = m"
    using li ack(2) by (auto simp: loop_inv_def)
  then have "dc_state cur = Answered queued" using ack(3) by simp
  then show ?thesis using ack li b by (simp add: loop_inv_def finished_calls_def reactions_of_append answered_def)
next
  case (work wev c)
  have "co_calls c = co_calls (sv_coord s)" "co_accepted c = co_accepted (sv_coord s)"
    using worker_step_calls[OF work(3,2)] by simp_all
  moreover from this have "finished_calls s' = finished_calls s" using work by (simp add: finished_calls_def split: loop_turn.split)
  ultimately show ?thesis using work li by (simp add: loop_inv_def)
qed (use li in \<open>simp_all add: loop_inv_def finished_calls_def split: loop_turn.splits\<close>)

lemma loop_inv_reach: "service_reach b s \<Longrightarrow> loop_inv s"
proof (induction rule: service_reach.induct)
  case initial
  then show ?case
    by (simp add: loop_inv_def service_new_def coordinator_new_def finished_calls_def accepted_calls_def reactions_of_def map_filter_def)
next
  case (step s ev s')
  show ?case using loop_inv_step[OF coord_inv_reach[OF service_coord_reach[OF step.hyps(1)]] step.IH step.hyps(2)] .
qed

section \<open>The loop ends every call\<close>

text \<open>How many steps a call still makes at most.\<close>

fun steps_left :: "call_state \<Rightarrow> nat" where
  "steps_left (Asking attempt) = 6 - 3 * attempt"
| "steps_left (Holding attempt i p) = 5 - 3 * attempt"
| "steps_left (Failing attempt i) = 4 - 3 * attempt"
| "steps_left (Answered b) = 0"

fun within_attempts :: "call_state \<Rightarrow> bool" where
  "within_attempts (Asking attempt) = (attempt \<le> 1)"
| "within_attempts (Holding attempt i p) = (attempt \<le> 1)"
| "within_attempts (Failing attempt i) = (attempt \<le> 1)"
| "within_attempts (Answered b) = True"

definition two_attempts :: "'m coordinator \<Rightarrow> bool" where
  "two_attempts s \<longleftrightarrow> (\<forall>c\<in>set (co_calls s). within_attempts (dc_state c))"

lemma two_attempts_update:
  assumes "two_attempts s" "within_attempts (dc_state (co_calls s ! c)) \<Longrightarrow> within_attempts st" "c < length (co_calls s)"
    "co_calls s' = (co_calls s)[c := (co_calls s ! c)\<lparr>dc_state := st\<rparr>]"
  shows "two_attempts s'"
  unfolding two_attempts_def
proof
  fix d assume "d \<in> set (co_calls s')"
  then have "d = (co_calls s ! c)\<lparr>dc_state := st\<rparr> \<or> d \<in> set (co_calls s)"
    using assms(4) set_update_subset_insert by fastforce
  then show "within_attempts (dc_state d)" using assms(1-3) by (auto simp: two_attempts_def)
qed

lemma two_attempts_step:
  assumes "coord_step ev s = Some s'" and two: "two_attempts s"
  shows "two_attempts s'"
  using assms(1)
proof (cases rule: coord_step_cases)
  case (found c a i p)
  then show ?thesis using two_attempts_update[OF two, of c "Holding a i p" s'] by simp
next
  case (spawn c a)
  then show ?thesis using two_attempts_update[OF two, of c "Holding a (co_next_id s) (length (co_tasks s))" s'] by simp
next
  case (sent c a i p)
  then show ?thesis using two_attempts_update[OF two, of c "Answered True" s'] by simp
next
  case (unsent c a i p)
  then show ?thesis using two_attempts_update[OF two, of c "Failing a i" s'] by simp
next
  case (cleanup c a i)
  then show ?thesis
    using two_attempts_update[OF two, of c "if a = 1 then Answered False else Asking (a + 1)" s'] by simp
qed (use two in \<open>auto simp: two_attempts_def\<close>)

lemma two_attempts_reach: "coord_reach b s \<Longrightarrow> two_attempts s"
  by (induction rule: coord_reach.induct) (auto simp: two_attempts_def coordinator_new_def dest: two_attempts_step)

definition own_step :: "service_event \<Rightarrow> bool" where
  "own_step ev = (case ev of CallStep cev \<Rightarrow> True | Acknowledge \<Rightarrow> True | _ \<Rightarrow> False)"

definition loop_work :: "service \<Rightarrow> nat" where
  "loop_work s = (case sv_turn s of Receiving \<Rightarrow> 0
     | Dispatching m \<Rightarrow> Suc (steps_left (dc_state (last (co_calls (sv_coord s))))))"

lemma loop_inv_last:
  assumes "loop_inv s" "sv_turn s = Dispatching m"
  obtains before cur where "co_calls (sv_coord s) = before @ [cur]" "dc_message cur = m"
  using assms by (auto simp: loop_inv_def)

lemma loop_work_bound:
  assumes "loop_inv s" "two_attempts (sv_coord s)"
  shows "loop_work s \<le> 7"
  by (cases "sv_turn s"; cases "dc_state (last (co_calls (sv_coord s)))") (simp_all add: loop_work_def)

lemma loop_can_go_on:
  assumes "loop_inv s" "sv_turn s = Dispatching m"
  shows "\<exists>ev s'. own_step ev \<and> service_step ev s = Some s'"
proof -
  obtain before cur where b: "co_calls (sv_coord s) = before @ [cur]" using loop_inv_last[OF assms] .
  let ?c = "length before"
  have "(\<exists>cev t. is_call_step ?c cev \<and> coord_step cev (sv_coord s) = Some t) \<or> (\<exists>b. dc_state cur = Answered b)"
  proof (cases "dc_state cur")
    case (Asking a)
    then have "coord_step (Lookup ?c) (sv_coord s) \<noteq> None"
      using b by (simp add: coord_step_def call_step_def split: prod.split)
    then show ?thesis by (auto simp: is_call_step_def intro!: exI[of _ "Lookup ?c"])
  next
    case (Holding a i p)
    then have "coord_step (Send ?c) (sv_coord s) \<noteq> None"
      using b by (simp add: coord_step_def call_step_def split: option.split)
    then show ?thesis by (auto simp: is_call_step_def intro!: exI[of _ "Send ?c"])
  next
    case (Failing a i)
    then have "coord_step (Cleanup ?c) (sv_coord s) \<noteq> None"
      using b by (simp add: coord_step_def call_step_def Let_def)
    then show ?thesis by (auto simp: is_call_step_def intro!: exI[of _ "Cleanup ?c"])
  qed auto
  then show ?thesis
  proof (elim disjE exE conjE)
    fix cev t assume "is_call_step ?c cev" "coord_step cev (sv_coord s) = Some t"
    then have "service_step (CallStep cev) s = Some (s\<lparr>sv_coord := t\<rparr>)" using assms(2) b by (simp add: service_step_def)
    then show ?thesis by (intro exI[of _ "CallStep cev"]) (simp add: own_step_def)
  next
    fix q assume "dc_state cur = Answered q"
    then have "service_step Acknowledge s \<noteq> None" using assms(2) b by (simp add: service_step_def)
    then show ?thesis by (intro exI[of _ Acknowledge]) (auto simp: own_step_def)
  qed
qed

lemma last_call_decreases:
  assumes "coord_step ev t = Some t'" "is_call_step (length before) ev" "co_calls t = before @ [cur]" "within_attempts (dc_state cur)"
  shows "steps_left (dc_state (last (co_calls t'))) < steps_left (dc_state cur)"
  using assms(1)
proof (cases rule: coord_step_cases)
  case (cleanup c a i)
  then have "c = length before" using assms(2) by (simp add: is_call_step_def)
  then show ?thesis using cleanup assms(3,4) by auto
qed (use assms(2-4) in \<open>auto simp: is_call_step_def\<close>)

lemma loop_work_decreases:
  assumes li: "loop_inv s" and two: "two_attempts (sv_coord s)" and step: "service_step ev s = Some s'"
  shows "own_step ev \<Longrightarrow> loop_work s' < loop_work s" "\<not> own_step ev \<Longrightarrow> ev \<noteq> TakeMessage \<Longrightarrow> loop_work s' = loop_work s"
proof -
  show "own_step ev \<Longrightarrow> loop_work s' < loop_work s"
    using step
  proof (cases rule: service_step_cases)
    case (call m cev c)
    obtain before cur where b: "co_calls (sv_coord s) = before @ [cur]" using loop_inv_last[OF li call(2)] .
    have "within_attempts (dc_state cur)" using two b by (simp add: two_attempts_def)
    from last_call_decreases[OF call(4) _ b this] call b show ?thesis by (simp add: loop_work_def)
  qed (auto simp: own_step_def loop_work_def)
  show "\<not> own_step ev \<Longrightarrow> ev \<noteq> TakeMessage \<Longrightarrow> loop_work s' = loop_work s"
    using step
  proof (cases rule: service_step_cases)
    case (work wev c)
    then show ?thesis using worker_step_calls[OF work(3,2)] by (simp add: loop_work_def split: loop_turn.split)
  qed (auto simp: own_step_def loop_work_def split: loop_turn.split)
qed

section \<open>From the queue to the handler\<close>

definition of_session :: "rstr \<Rightarrow> inbound_message list \<Rightarrow> inbound_message list" where
  "of_session k ms = filter (\<lambda>m. im_session_key m = k) ms"

lemma of_session_simps [simp]:
  "of_session k [] = []"
  "of_session k (m # ms) = (if im_session_key m = k then m # of_session k ms else of_session k ms)"
  "of_session k (xs @ ys) = of_session k xs @ of_session k ys"
  by (simp_all add: of_session_def)

text \<open>What is queued or in the hand of the loop, and not yet accepted by the coordinator.\<close>

definition waiting :: "service \<Rightarrow> inbound_message list" where
  "waiting s =
     (case sv_turn s of Receiving \<Rightarrow> [] | Dispatching m \<Rightarrow> if answered (last (co_calls (sv_coord s))) then [] else [m]) @ sv_queue s"

lemma of_key_accepted:
  assumes "list_all (\<lambda>c. dc_key c = im_session_key (dc_message c)) calls"
  shows "of_key k (accepted_calls calls) = of_session k (map dc_message (filter (\<lambda>c. dc_state c = Answered True) calls))"
  using assms by (induction calls) (simp_all add: of_key_def accepted_calls_def of_session_def)

lemma accepted_in_order:
  assumes "loop_inv s"
  shows "subseq (of_key k (co_accepted (sv_coord s))) (of_session k (sv_sent s))"
proof -
  let ?calls = "co_calls (sv_coord s)"
  have "subseq (map dc_message (filter (\<lambda>c. dc_state c = Answered True) ?calls)) (map dc_message ?calls @ sv_queue s)"
    using list_emb_append_mono[OF subseq_map[OF subseq_filter_left] list_emb_Nil] by fastforce
  then have "subseq (of_session k (map dc_message (filter (\<lambda>c. dc_state c = Answered True) ?calls))) (of_session k (sv_sent s))"
    using assms unfolding of_session_def by (intro subseq_filter) (simp add: loop_inv_def)
  then show ?thesis using assms of_key_accepted by (simp add: loop_inv_def)
qed

lemma undisturbed_accepted:
  assumes reach: "service_reach b s" and un: "undisturbed (sv_coord s)"
  shows "of_key k (co_accepted (sv_coord s)) @ of_session k (waiting s) = of_session k (sv_sent s)"
proof -
  note li = loop_inv_reach[OF reach]
  have ok: "\<not> refused (sv_coord s)"
    using refused_needs_gone[OF service_coord_reach[OF reach]] undisturbed_none_gone[OF un] by blast
  have yes: "dc_state c = Answered True" if "answered c" "c \<in> set (co_calls (sv_coord s))" for c
  proof (cases "dc_state c")
    case (Answered q)
    then show ?thesis using ok that(2) by (cases q) (auto simp: refused_def)
  qed (use that(1) in \<open>simp_all add: answered_def\<close>)
  have all: "filter (\<lambda>c. dc_state c = Answered True) cs = cs" if "list_all answered cs" "set cs \<subseteq> set (co_calls (sv_coord s))" for cs
    using that yes by (intro filter_True) (auto simp: list_all_iff)
  show ?thesis
  proof (cases "sv_turn s")
    case Receiving
    then show ?thesis using li all[of "co_calls (sv_coord s)"] of_key_accepted
      by (simp add: loop_inv_def finished_calls_def waiting_def)
  next
    case (Dispatching m)
    obtain before cur where c: "co_calls (sv_coord s) = before @ [cur]" "dc_message cur = m"
      using loop_inv_last[OF li Dispatching] .
    have "filter (\<lambda>c. dc_state c = Answered True) before = before"
      using all[of before] li Dispatching c by (auto simp: loop_inv_def finished_calls_def)
    moreover have "answered cur \<longleftrightarrow> dc_state cur = Answered True"
      using yes[of cur] c by (auto simp: answered_def)
    ultimately show ?thesis using li Dispatching c of_key_accepted[of "before @ [cur]" k]
      by (simp add: loop_inv_def waiting_def)
  qed
qed

text \<open>Who gets a reaction.\<close>

lemma reactions_accepted: "reactions_of calls = List.map_filter (dispatch_inbound_with_ack True) (map snd (accepted_calls calls))"
  by (induction calls) (auto simp: reactions_of_def accepted_calls_def map_filter_simps dispatch_inbound_with_ack_def
      split: option.splits)

lemma acknowledged_were_accepted:
  assumes "service_reach b s"
  shows "\<exists>later. List.map_filter (dispatch_inbound_with_ack True) (map snd (co_accepted (sv_coord s))) = sv_acks s @ later"
proof -
  note li = loop_inv_reach[OF assms]
  have "\<exists>remaining. co_calls (sv_coord s) = finished_calls s @ remaining"
    using li by (cases "sv_turn s") (auto simp: finished_calls_def loop_inv_def)
  then show ?thesis using li by (auto simp: loop_inv_def reactions_accepted map_filter_def)
qed

section \<open>Properties\<close>

definition loop_message :: "rstr \<Rightarrow> rstr \<Rightarrow> inbound_message" where
  "loop_message key content =
     \<lparr>im_trace_id = ''t'', im_source_channel = Discord, im_target_agent_id = ''a'', im_session_key = key,
      im_source_message_id = Some ''7'', im_channel_id = ''c'', im_guild_id = None, im_is_dm = True, im_user_id = ''u'',
      im_username = ''n'', im_mentioned_bot = False, im_invoke = True, im_content = content\<rparr>"

fun service_run :: "service_event list \<Rightarrow> service \<Rightarrow> service option" where
  "service_run [] s = Some s"
| "service_run (ev # evs) s = Option.bind (service_step ev s) (service_run evs)"

lemma service_run_reach:
  "service_run evs s = Some s' \<Longrightarrow> service_reach b s \<Longrightarrow> b \<or> (\<forall>k. WorkerStep (Remove k) \<notin> set evs) \<Longrightarrow> service_reach b s'"
proof (induction evs arbitrary: s)
  case (Cons ev evs)
  obtain t where t: "service_step ev s = Some t" "service_run evs t = Some s'"
    using Cons.prems(1) by (auto simp: bind_eq_Some_conv)
  have "case ev of WorkerStep (Remove k) \<Rightarrow> b | _ \<Rightarrow> True"
    using Cons.prems(3) by (auto split: service_event.split coord_event.split)
  then have "service_reach b t" by (rule service_reach.step[OF Cons.prems(2) t(1)])
  then show ?case using Cons.IH[OF t(2)] Cons.prems(3) by auto
qed simp

lemma two_messages_run:
  "\<exists>s. service_reach False s \<and> length (co_tasks (sv_coord s)) = 1 \<and> undisturbed (sv_coord s) \<and>
     sv_turn s = Dispatching (loop_message ''k'' ''2'') \<and> length (sv_acks s) = 1 \<and>
     co_handled (sv_coord s) = [(''k'', loop_message ''k'' ''1'')] \<and>
     sv_sent s = [loop_message ''k'' ''1'', loop_message ''k'' ''2'']"
proof -
  let ?evs = "[QueueMessage (loop_message ''k'' ''1''), TakeMessage, QueueMessage (loop_message ''k'' ''2''), CallStep (Lookup 0),
    CallStep (Send 0), WorkerStep (Receive 0), Acknowledge, TakeMessage, WorkerStep (Finish 0)]"
  obtain s where s: "service_run ?evs service_new = Some s"
    and p: "length (co_tasks (sv_coord s)) = 1 \<and> undisturbed (sv_coord s) \<and>
     sv_turn s = Dispatching (loop_message ''k'' ''2'') \<and> length (sv_acks s) = 1 \<and>
     co_handled (sv_coord s) = [(''k'', loop_message ''k'' ''1'')] \<and>
     sv_sent s = [loop_message ''k'' ''1'', loop_message ''k'' ''2'']"
    by (simp add: service_step_def service_new_def queue_capacity_def coord_eval is_call_step_def is_worker_step_def
        loop_message_def dispatch_inbound_with_ack_def undisturbed_def running_def)
  have "service_reach False s" by (rule service_run_reach[OF s service_reach.initial]) simp
  then show ?thesis using p by blast
qed







end
