(* ===== verification/Spec2Isabelle.thy ===== *)
theory Spec2Isabelle
  imports Prelude Errors ChannelTypes Routing SessionStore Approval Coordinator AsyncRuns Secrets ToolsConfig
    ToolRegistry ToolExecutor Dispatch React GatewayService FilePaths EditTool ToolArgs ExecPolicy AgentTools Cron ExecConfig Memory Turn ConfigLoad
    Streaming Transparency MessageHandling Ordered Persona Auth SseLines Codex Providers DiscordChannel
    FileTools WebTools Sandbox Assembly Telemetry Logging ServiceControl EditCommands GatewayCalls ServiceLoop
begin

text \<open>
  A verification library for SimpleClaw, a multi-agent chat service written in Rust
  (\<open>src/src/\<close>, with the programs of its WASM sandbox under \<open>src/sandbox/\<close>). Below, file names are
  relative to \<open>src/src/\<close> unless they start with \<open>sandbox/\<close>.

  \<^bold>\<open>The program.\<close> A channel (\<open>channels/discord.rs\<close>) reports messages, presses of approval buttons
  and slash commands. The gateway (\<open>gateway/mod.rs\<close>) drops what the inbound policy
  (\<open>config/routing.rs\<close>, \<open>channels/policy.rs\<close>) does not allow, finds the agent and the session
  (\<open>gateway/session.rs\<close>) and queues the message; the coordinator (\<open>run/session.rs\<close>) keeps one worker
  task per session, which calls the handler of \<open>run.rs\<close>. A turn (\<open>turn/\<close>) stores the message,
  recalls memory (\<open>memory/\<close>), runs the react loop (\<open>react.rs\<close>) over a provider (\<open>providers/\<close>) and the
  tools (\<open>tools/\<close>), and stores the reply, which the handler posts, streamed through edits of a message
  when the channel can. Tools run directly, in a WASM guest or in a host sandbox; a denial in the
  sandbox may be escalated to the user (\<open>approval.rs\<close>). Background runs
  (\<open>tools/async_tool_manager.rs\<close>) and scheduled jobs (\<open>run/cron_scheduler.rs\<close>) put messages of their
  own into the gateway's queue. All of it is assembled from the configuration (\<open>config/\<close>,
  \<open>secrets.rs\<close>) by \<open>run/composition.rs\<close>.

  \<^bold>\<open>Conventions.\<close> A \<open>str\<close> is the list of its UTF-8 bytes (\<open>rstr\<close>); characters and slices are
  computed on it, and a slice off a character boundary is the value \<open>None\<close>, the panic. A struct is a
  record, an enum a datatype with the names of the source, a \<open>Result\<close> the sum type \<open>res\<close> with the
  errors of \<open>error.rs\<close>, a hash map a map or, where duplicates or an order matter, an association
  list, a \<open>BTreeMap\<close> a sorted association list. State is passed explicitly. Concurrent parts are
  lists of atomic operations, one per critical section of a lock or per message, in any order. An
  integer that can wrap is taken modulo its size; else it is a \<open>nat\<close> or an \<open>int\<close>. Log output is left
  out everywhere.

  \<^bold>\<open>Theories\<close>, in the order of the program's layers.

  \<^item> \<open>Prelude\<close>: UTF-8 text, trimming, searching, decimal numbers. \<open>Ordered\<close>: the byte order of
    strings, \<open>BTreeMap\<close>, \<open>str::lines\<close>. \<open>Errors\<close>: \<open>error.rs\<close> and the combinators of results.
  \<^item> \<open>ChannelTypes\<close> (\<open>channels/types.rs\<close>, \<open>gateway/command.rs\<close>), \<open>Routing\<close> (\<open>config/routing.rs\<close>,
    \<open>channels/policy.rs\<close>, \<open>gateway/policy.rs\<close>, \<open>gateway/router.rs\<close>): the layered policy refines "the
    most specific layer that states a setting gives it"; session scopes are injective.
  \<^item> \<open>SessionStore\<close> (\<open>gateway/session.rs\<close>): locale \<open>session_directory\<close> for what the gateway needs of
    the store, interpreted on the table; session ids are not reused.
  \<^item> \<open>Approval\<close> (\<open>approval.rs\<close>): the registry with its one-shot channels under every interleaving; who
    can bring about an approval.
  \<^item> \<open>Coordinator\<close> (\<open>run/session.rs\<close>): calls and worker tasks as a step relation; serialization and
    order per session, and the ways in which they fail.
  \<^item> \<open>AsyncRuns\<close> (\<open>tools/async_tool_manager.rs\<close>): the table of background runs, its eviction, queries,
    kills, claims and waits; the completion watcher.
  \<^item> \<open>Secrets\<close> (\<open>secrets.rs\<close>), \<open>ToolsConfig\<close> (\<open>config/tools.rs\<close>), \<open>ExecConfig\<close> (\<open>config/execution.rs\<close>,
    \<open>config/defaults.rs\<close>), \<open>ConfigLoad\<close> (the rest of \<open>config/\<close>, \<open>paths.rs\<close>): defaults, resolution of
    secrets, normalization, validation; what a loaded configuration guarantees.
  \<^item> \<open>ToolRegistry\<close>, \<open>ToolExecutor\<close> (\<open>tools/mod.rs\<close>): registered tools, the registry of an agent;
    authorization, execution routes and escalation.
  \<^item> \<open>Dispatch\<close> (\<open>dispatch.rs\<close>, \<open>providers/types.rs\<close>), \<open>React\<close> (\<open>react.rs\<close>): tool calls in native and
    XML form, their execution and results; the bounded loop.
  \<^item> \<open>FilePaths\<close> (\<open>tools/builtin/file_access.rs\<close>, \<open>sandbox/common\<close>), \<open>EditTool\<close> (\<open>edit.rs\<close> and its
    guest), \<open>ToolArgs\<close> (\<open>common.rs\<close>), \<open>ExecPolicy\<close> (\<open>exec.rs\<close>), \<open>AgentTools\<close> (\<open>background.rs\<close>,
    \<open>wait.rs\<close>, \<open>task.rs\<close>, \<open>summon.rs\<close>, \<open>react.rs\<close>, \<open>memorize.rs\<close>, \<open>invoke.rs\<close>), \<open>Cron\<close> (\<open>cron/\<close>,
    \<open>run/cron_scheduler.rs\<close>): the built-in tools.
  \<^item> \<open>FileTools\<close> (\<open>read.rs\<close>, \<open>list.rs\<close>, \<open>grep.rs\<close>, \<open>glob.rs\<close> and their programs under \<open>sandbox/\<close>): files as a
    tree with the failures of the system calls; the host's and the guest's reading agree, a search finds
    exactly the matching lines. \<open>WebTools\<close> (\<open>web_fetch.rs\<close>, \<open>web_search.rs\<close>, \<open>clock.rs\<close> and the two guests):
    requests, the reading of answers, cuts and errors.
  \<^item> \<open>Sandbox\<close> (\<open>sandbox/mod.rs\<close>, \<open>sandbox/host.rs\<close>, \<open>sandbox/wasm.rs\<close>): mounts, environment, limits and the
    outcome of a run. \<open>EditCommands\<close> (the edit commands of \<open>sandbox/common\<close>): no command panics, a dry run
    changes nothing, an insert puts its text between two lines.
  \<^item> \<open>Memory\<close> (\<open>memory/\<close> and its two tools), \<open>Persona\<close> (\<open>prompt.rs\<close>, \<open>tools/skill.rs\<close>), \<open>Turn\<close>
    (\<open>turn/\<close>, \<open>reply_policy.rs\<close>): the tables with the failures of their statements, recall and
    forgetting; the prompt and the skills; one turn of an agent, panics included.
  \<^item> \<open>SseLines\<close>, \<open>Codex\<close>, \<open>Providers\<close> (\<open>providers/\<close>): locale \<open>event_source\<close> for the reading of a stream
    of events line by line, interpreted on both streaming adapters; requests and answers; the
    providers of a loaded configuration. \<open>Auth\<close> (\<open>auth/\<close>): the file of login profiles with its lock,
    the OAuth requests and the service.
  \<^item> \<open>GatewayService\<close> (\<open>gateway/mod.rs\<close>, \<open>gateway/transport.rs\<close>, \<open>agent.rs\<close>), \<open>DiscordChannel\<close>
    (\<open>channels/discord.rs\<close>, \<open>channels/mod.rs\<close>): listeners, commands, approval buttons, the calls of the
    channel. \<open>Streaming\<close>, \<open>Transparency\<close>, \<open>MessageHandling\<close> (\<open>run.rs\<close>, \<open>run/transparency.rs\<close>): the
    display of a reply while it is generated as a step relation, the footer, the handling of one
    message and the report on an agent's memory.
  \<^item> \<open>GatewayCalls\<close> (\<open>gateway/mod.rs\<close>, \<open>channels/mod.rs\<close>): the calls that go through the gateway to a
    channel, and the listeners it starts. \<open>ServiceLoop\<close> (the loop of \<open>run.rs\<close>): queue, loop and coordinator
    as one step relation; order per session from the queue to the handler, nothing lost while every
    worker is alive, and the loop never stuck with a message.
  \<^item> \<open>Assembly\<close> (\<open>run/composition.rs\<close>, \<open>agent.rs\<close>, \<open>memory/schema.rs\<close>): the service built from a loaded
    configuration, when that succeeds and what the result has. \<open>Telemetry\<close> (\<open>telemetry.rs\<close>): trace ids and
    previews without secrets. \<open>Logging\<close> (\<open>run/logging.rs\<close>): rotation, pruning and display of the logs
    refine a history of days. \<open>ServiceControl\<close> (\<open>cli.rs\<close>, \<open>lib.rs\<close>, \<open>run/daemon.rs\<close>): commands, start, stop
    and status of the background service, the listings.

  Each theory starts with the state and the operations in the order of the source, then the lemmas
  (invariants of the state, behaviour of each operation, its errors), and ends with properties. The
  text block before a property states it with its number.

  \<^bold>\<open>Parameters.\<close> What is not code of the repository is an argument of the definitions that use it, and
  its documented behaviour is a named hypothesis where a property needs it: the JSON, YAML, cron,
  URL, hash, base64, regex, glob and HTML libraries, SQLite's failures, the embedding model, the
  vector search and floating point arithmetic, the file system's and the processes' answers, the
  WASM runtime and the host sandbox, HTTP answers, model providers, the Discord client, the clock and
  the environment. Interleavings with other tasks are lists of operations.

  \<^bold>\<open>Bounds and fuel.\<close> Loops are structural recursion or functions with a termination proof. The react
  loop runs \<open>max_steps\<close> times, as in the code. The finalization of a streamed reply has no bound of its
  own in the code; it is proved to need at most \<open>3 * n + 4\<close> rounds with a channel that answers well,
  for a text of \<open>n\<close> characters, and to hang in the case stated. A message taken by the loop of the service
  needs at most seven of its steps. The constants of the code are kept: a queue of 1024 messages, run ids modulo
  \<open>2 ^ 64\<close>, 64 finished runs, waits of 1 to 120000 ms, 50 jobs per agent, recall of 1 to 10 hits with
  sections of 100 to 4000 bytes, at most 50 forgotten facts, 2000 characters per message, edits every
  1500 ms, a lock timeout of 5 s for the logins and a refresh 90 s before their expiry, identifiers of
  64 characters.

  \<^bold>\<open>Not modelled.\<close> Log output, input and output on a terminal, the libraries, the endless
  repetition of the listeners and of the scheduler around their modelled turns, poisoned
  locks, the reconnecting of the Discord client, the search of the web guest, whose text is that of the host's tool and
  is modelled once, and the fakes of \<open>testing.rs\<close> and the tests, which are no part of the running
  program.
\<close>

end
